(* ===== verification/Floats.thy ===== *)
theory Floats
  imports Complex_Main "HOL-Library.Log_Nat"
begin

text \<open>
  The numbers of the program.  Every price, quantity, rate and percentage of the source is a
  Python \<open>float\<close>, an IEEE-754 binary64 value.  A finite float is modelled by the rational it
  denotes, and every arithmetic operation by the exact rational operation followed by
  \<open>fl\<close>, the rounding to nearest, ties to even, with 53 significant bits and gradual
  underflow at 2 to the -1074.  The exponent is not bounded above: values beyond 1.8e308, which
  Python turns into \<open>inf\<close>, are outside the model, as are \<open>nan\<close> and the sign of zero.
  The rounding is computed from the numerator and denominator, so closed terms evaluate.
\<close>

section \<open>Rounding to nearest, ties to even\<close>

type_synonym f64 = rat

definition round_half_even :: "rat \<Rightarrow> int" where
  "round_half_even x =
     (let f = floor x; d = x - of_int f
      in if d < 1/2 then f else if 1/2 < d then f + 1 else if even f then f else f + 1)"

definition binary_exponent :: "rat \<Rightarrow> int" where
  "binary_exponent x =
     (let (p, q) = quotient_of \<bar>x\<bar>; e = bitlen p - bitlen q
      in if 2 powi e \<le> \<bar>x\<bar> then e else e - 1)"

definition fl :: "rat \<Rightarrow> f64" where
  "fl x = (if x = 0 then 0
           else let u = 2 powi (max (binary_exponent x) (-1022) - 52)
                in of_int (round_half_even (x / u)) * u)"

lemma round_half_even_cases:
  "round_half_even x = floor x \<or> round_half_even x = floor x + 1"
  by (simp add: round_half_even_def Let_def)

lemma round_half_even_mono:
  assumes "x \<le> y"
  shows "round_half_even x \<le> round_half_even y"
proof (cases "floor x = floor y")
  case True
  then show ?thesis using assms by (auto simp: round_half_even_def Let_def)
next
  case False
  with assms have "floor x + 1 \<le> floor y" using floor_mono [OF assms] by linarith
  then show ?thesis using round_half_even_cases [of x] round_half_even_cases [of y] by linarith
qed

lemma round_half_even_of_int [simp]: "round_half_even (of_int n) = n"
  by (simp add: round_half_even_def)

lemma round_half_even_near: "\<bar>of_int (round_half_even x) - x\<bar> \<le> 1/2"
proof -
  have "of_int (floor x) \<le> x" "x < of_int (floor x) + 1" by linarith+
  then show ?thesis by (auto simp: round_half_even_def Let_def abs_le_iff)
qed

lemma round_half_even_minus: "round_half_even (- x) = - round_half_even x"
proof (cases "x = of_int (floor x)")
  case True
  then have "round_half_even (- x) = round_half_even (of_int (- floor x))" by simp
  also have "\<dots> = - floor x" by (rule round_half_even_of_int)
  also have "floor x = round_half_even x" using True round_half_even_of_int [of "floor x"] by simp
  finally show ?thesis .
next
  case False
  define f where "f = floor x"
  have f: "floor x = f" by (simp add: f_def)
  have lo: "of_int f < x" using False of_int_floor_le [of x] by (simp add: f)
  have hi: "x < of_int f + 1" using f by linarith
  have "floor (- x) = - f - 1" using lo hi by (intro floor_unique) auto
  then show ?thesis by (auto simp: round_half_even_def Let_def f)
qed

section \<open>The binary exponent\<close>

lemma powi_pos: "0 < (2::rat) powi e"
  by simp

lemma powi_le_iff: "(2::rat) powi a \<le> 2 powi b \<longleftrightarrow> a \<le> b"
  by (metis dual_order.refl linorder_not_less one_less_numeral_iff power_int_increasing
      power_int_strict_increasing semiring_norm(76) less_imp_le order.strict_trans1)

lemma powi_less_iff: "(2::rat) powi a < 2 powi b \<longleftrightarrow> a < b"
  by (simp add: powi_le_iff flip: not_le)

lemma powi_add: "(2::rat) powi (a + b) = 2 powi a * 2 powi b"
  by (simp add: power_int_add)

lemma powi_diff: "(2::rat) powi (a - b) = 2 powi a / 2 powi b"
  by (simp add: power_int_diff)

lemma bitlen_powi_bounds:
  assumes "0 < n"
  shows "(2::rat) powi (bitlen n - 1) \<le> of_int n" "of_int n < (2::rat) powi (bitlen n)"
proof -
  have b: "2 ^ nat (bitlen n - 1) \<le> n" "n < 2 ^ nat (bitlen n)" using bitlen_bounds [OF assms] by auto
  have nn: "0 \<le> bitlen n - 1" using assms bitlen_eq_zero_iff [of n] bitlen_nonneg [of n] by linarith
  have "(of_int (2 ^ nat (bitlen n - 1)) :: rat) \<le> of_int n" using b(1) by (simp only: of_int_le_iff)
  then show "(2::rat) powi (bitlen n - 1) \<le> of_int n" using nn by (simp add: power_int_nonneg_exp)
  have "(of_int n :: rat) < of_int (2 ^ nat (bitlen n))" using b(2) by (simp only: of_int_less_iff)
  then show "of_int n < (2::rat) powi (bitlen n)" using nn by (simp add: power_int_nonneg_exp)
qed

lemma binary_exponent_bounds:
  assumes "x \<noteq> 0"
  shows "2 powi (binary_exponent x) \<le> \<bar>x\<bar>" "\<bar>x\<bar> < 2 powi (binary_exponent x + 1)"
proof -
  obtain p q where pq: "quotient_of \<bar>x\<bar> = (p, q)" by (cases "quotient_of \<bar>x\<bar>")
  then have q: "0 < q" and x: "\<bar>x\<bar> = of_int p / of_int q"
    using quotient_of_denom_pos quotient_of_div by blast+
  have "0 < \<bar>x\<bar>" using assms by simp
  then have p: "0 < p" using q by (simp add: x zero_less_divide_iff)
  have lt: "\<bar>x\<bar> < 2 powi (bitlen p - bitlen q + 1)"
  proof -
    have "(of_int p :: rat) < 2 powi (bitlen p)" using bitlen_powi_bounds(2) [OF p] .
    also have "\<dots> = 2 powi (bitlen p - bitlen q + 1) * 2 powi (bitlen q - 1)"
      by (simp flip: powi_add)
    also have "\<dots> \<le> 2 powi (bitlen p - bitlen q + 1) * of_int q"
      using bitlen_powi_bounds(1) [OF q] by simp
    finally show ?thesis using q by (simp add: x field_simps)
  qed
  have ge: "2 powi (bitlen p - bitlen q - 1) \<le> \<bar>x\<bar>"
  proof -
    have "2 powi (bitlen p - bitlen q - 1) * of_int q \<le> 2 powi (bitlen p - bitlen q - 1) * (2::rat) powi (bitlen q)"
      using bitlen_powi_bounds(2) [OF q] by (simp add: less_imp_le)
    also have "\<dots> = 2 powi (bitlen p - 1)" by (simp flip: powi_add)
    also have "\<dots> \<le> of_int p" using bitlen_powi_bounds(1) [OF p] .
    finally show ?thesis using q by (simp add: x field_simps)
  qed
  show "2 powi (binary_exponent x) \<le> \<bar>x\<bar>" using ge by (simp add: binary_exponent_def pq Let_def)
  show "\<bar>x\<bar> < 2 powi (binary_exponent x + 1)" using lt by (simp add: binary_exponent_def pq Let_def)
qed

lemma binary_exponent_mono:
  assumes "x \<noteq> 0" "\<bar>x\<bar> \<le> \<bar>y\<bar>"
  shows "binary_exponent x \<le> binary_exponent y"
proof -
  have "y \<noteq> 0" using assms by auto
  have "2 powi (binary_exponent x) < (2::rat) powi (binary_exponent y + 1)"
    using binary_exponent_bounds(1) [OF assms(1)] assms(2) binary_exponent_bounds(2) [OF \<open>y \<noteq> 0\<close>]
    by linarith
  then show ?thesis by (simp add: powi_less_iff)
qed

lemma binary_exponent_minus [simp]: "binary_exponent (- x) = binary_exponent x"
  by (simp add: binary_exponent_def)

section \<open>Properties of the rounding\<close>

definition ulp :: "rat \<Rightarrow> rat" where
  "ulp x = 2 powi (max (binary_exponent x) (-1022) - 52)"

lemma ulp_pos: "0 < ulp x"
  by (simp add: ulp_def)

lemma fl_ulp: "x \<noteq> 0 \<Longrightarrow> fl x = of_int (round_half_even (x / ulp x)) * ulp x"
  by (simp add: fl_def ulp_def Let_def)

lemma fl_zero [simp]: "fl 0 = 0"
  by (simp add: fl_def)

lemma fl_minus: "fl (- x) = - fl x"
  by (simp add: fl_def Let_def round_half_even_minus)

lemma fl_nonneg: "0 \<le> x \<Longrightarrow> 0 \<le> fl x"
  using round_half_even_mono [of 0 "x / ulp x"] round_half_even_of_int [of 0] ulp_pos [of x]
  by (cases "x = 0") (simp_all add: fl_ulp)

lemma fl_pos_mono:
  assumes "0 < x" "x \<le> y"
  shows "fl x \<le> fl y"
proof (cases "ulp x = ulp y")
  case True
  have "x / ulp x \<le> y / ulp x" using assms ulp_pos [of x] by (simp add: divide_right_mono)
  then show ?thesis using assms True ulp_pos [of y] round_half_even_mono by (simp add: fl_ulp)
next
  case False
  define a where "a = max (binary_exponent x) (-1022)"
  have e: "binary_exponent x \<le> binary_exponent y" using assms by (intro binary_exponent_mono) auto
  with False have yb: "binary_exponent y = max (binary_exponent y) (-1022)" "a + 1 \<le> binary_exponent y"
    by (force simp: ulp_def a_def max_def order.order_iff_strict split: if_splits)+
  have ux: "ulp x = 2 powi (a - 52)" and uy: "ulp y = 2 powi (binary_exponent y - 52)"
    using yb(1) by (simp_all add: ulp_def a_def)
  have "x < 2 powi (binary_exponent x + 1)" using binary_exponent_bounds(2) [of x] assms by simp
  also have "\<dots> \<le> 2 powi (a + 1)" by (simp add: powi_le_iff a_def)
  also have "\<dots> = 2 ^ 53 * ulp x" by (simp add: ux powi_add powi_diff)
  finally have "x / ulp x \<le> of_int (2 ^ 53)" using ulp_pos [of x] by (simp add: divide_le_eq)
  then have "round_half_even (x / ulp x) \<le> 2 ^ 53"
    using round_half_even_mono round_half_even_of_int [of "2 ^ 53"] by (metis (no_types))
  then have "fl x \<le> 2 ^ 53 * ulp x"
    using assms ulp_pos [of x] by (simp add: fl_ulp)
  also have "\<dots> = 2 powi (a + 1)" by (simp add: ux powi_add powi_diff)
  also have "\<dots> \<le> 2 powi (binary_exponent y)" using yb(2) by (simp add: powi_le_iff)
  also have "\<dots> = 2 ^ 52 * ulp y" by (simp add: uy powi_diff)
  also have "\<dots> \<le> fl y"
  proof -
    have "2 powi (binary_exponent y) \<le> y" using binary_exponent_bounds(1) [of y] assms by simp
    then have "of_int (2 ^ 52) \<le> y / ulp y" using ulp_pos [of y] by (simp add: uy powi_diff field_simps)
    then have "2 ^ 52 \<le> round_half_even (y / ulp y)"
      using round_half_even_mono round_half_even_of_int [of "2 ^ 52"] by (metis (no_types))
    then show ?thesis using assms ulp_pos [of y] by (simp add: fl_ulp)
  qed
  finally show ?thesis .
qed

lemma fl_mono: "x \<le> y \<Longrightarrow> fl x \<le> fl y"
proof -
  assume le: "x \<le> y"
  consider "0 < x" | "x \<le> 0" "0 \<le> y" | "y < 0" by linarith
  then show ?thesis
  proof cases
    case 1
    then show ?thesis using le by (rule fl_pos_mono)
  next
    case 2
    then show ?thesis using fl_nonneg [of y] fl_nonneg [of "- x"] by (simp add: fl_minus)
  next
    case 3
    then show ?thesis using le fl_pos_mono [of "- y" "- x"] by (simp add: fl_minus)
  qed
qed

lemma fl_nonpos: "x \<le> 0 \<Longrightarrow> fl x \<le> 0"
  using fl_mono [of x 0] by simp

text \<open>
  A value with at most 53 significant bits and an exponent of at least -1074 is a binary64
  number: it is not changed by the rounding.
\<close>

definition representable :: "rat \<Rightarrow> bool" where
  "representable x \<longleftrightarrow> (\<exists>m k. x = of_int m * 2 powi k \<and> \<bar>m\<bar> \<le> 2 ^ 53 \<and> -1074 \<le> k)"

lemma fl_multiple_of_ulp:
  assumes "x = of_int n * ulp x"
  shows "fl x = x"
proof (cases "x = 0")
  case False
  from assms have "x / ulp x = of_int n" using ulp_pos [of x] by (simp add: field_simps)
  then have "fl x = of_int n * ulp x" using False by (simp add: fl_ulp)
  with assms show ?thesis by simp
qed simp

lemma powi_multiple:
  assumes "k \<le> l"
  shows "\<exists>n. (2::rat) powi l = of_int n * 2 powi k"
proof -
  have "(2::rat) powi l = 2 powi (l - k) * 2 powi k" by (simp flip: powi_add)
  also have "2 powi (l - k) = (of_int (2 ^ nat (l - k)) :: rat)"
    using assms by (simp add: power_int_nonneg_exp)
  finally show ?thesis by blast
qed

lemma fl_representable:
  assumes "representable x"
  shows "fl x = x"
proof (cases "x = 0")
  case x0: False
  from assms obtain m k where x: "x = of_int m * 2 powi k" and m: "\<bar>m\<bar> \<le> 2 ^ 53" and k: "-1074 \<le> k"
    by (auto simp: representable_def)
  define e where "e = max (binary_exponent x) (-1022) - 52"
  have u: "ulp x = 2 powi e" by (simp add: ulp_def e_def)
  show ?thesis
  proof (cases "e \<le> k")
    case True
    then obtain n where n: "(2::rat) powi k = of_int n * ulp x"
      using powi_multiple [of e k] by (auto simp: u)
    have "of_int m * 2 powi k = of_int (m * n) * ulp x" using n by simp
    then show ?thesis unfolding x [symmetric] by (rule fl_multiple_of_ulp)
  next
    case False
    with k have be: "e = binary_exponent x - 52" "k + 1 \<le> e" by (auto simp: e_def)
    have mr: "\<bar>of_int m :: rat\<bar> \<le> 2 ^ 53"
    proof -
      have "(of_int \<bar>m\<bar> :: rat) \<le> of_int (2 ^ 53)" using m by (simp only: of_int_le_iff)
      then show ?thesis by simp
    qed
    have "2 powi (binary_exponent x) \<le> \<bar>of_int m\<bar> * (2::rat) powi k"
      using binary_exponent_bounds(1) [OF x0] by (simp add: x abs_mult)
    also have "\<dots> \<le> 2 ^ 53 * 2 powi k" using mr by (intro mult_right_mono) auto
    also have "\<dots> = 2 powi (k + 53)" by (simp add: powi_add)
    finally have "binary_exponent x \<le> k + 53" by (simp add: powi_le_iff)
    with be have ek: "e = k + 1" "binary_exponent x = k + 53" by auto
    have ax: "\<bar>x\<bar> = \<bar>of_int m\<bar> * 2 powi k" by (subst x) (simp add: abs_mult)
    have "2 powi (k + 53) \<le> \<bar>x\<bar>" using binary_exponent_bounds(1) [OF x0] ek(2) by simp
    then have "2 ^ 53 * 2 powi k \<le> \<bar>of_int m\<bar> * (2::rat) powi k"
      unfolding ax by (simp add: powi_add mult.commute)
    then have "\<bar>of_int m :: rat\<bar> = 2 ^ 53" using mr by simp
    then have "(of_int \<bar>m\<bar> :: rat) = of_int (2 ^ 53)" by simp
    then have "\<bar>m\<bar> = 2 ^ 53" by (simp only: of_int_eq_iff)
    then have "m = 1 * 2 ^ 53 \<or> m = (- 1) * 2 ^ 53" by linarith
    then obtain s where s: "m = s * 2 ^ 53" by blast
    have "of_int m * (2::rat) powi k = of_int (s * 2 ^ 52) * 2 powi e" by (simp add: ek s powi_add)
    then show ?thesis unfolding x [symmetric] u [symmetric] by (rule fl_multiple_of_ulp)
  qed
qed simp

lemma representable_fl: "representable (fl x)"
proof (cases "x = 0")
  case True
  then show ?thesis by (auto simp: representable_def intro!: exI [of _ 0])
next
  case False
  define e where "e = max (binary_exponent x) (-1022) - 52"
  have u: "ulp x = 2 powi e" by (simp add: ulp_def e_def)
  have "\<bar>x\<bar> < 2 powi (binary_exponent x + 1)" using binary_exponent_bounds(2) [OF False] .
  also have "\<dots> \<le> 2 powi (e + 53)" by (simp add: powi_le_iff e_def)
  finally have "\<bar>x / ulp x\<bar> \<le> of_int (2 ^ 53)"
    using ulp_pos [of x] by (simp add: u powi_add divide_le_eq abs_divide)
  then have "x / ulp x \<le> of_int (2 ^ 53)" "of_int (- (2 ^ 53)) \<le> x / ulp x"
    by (simp_all only: abs_le_iff of_int_minus minus_le_iff)
  then have "round_half_even (x / ulp x) \<le> 2 ^ 53" "- (2 ^ 53) \<le> round_half_even (x / ulp x)"
    by (metis round_half_even_mono round_half_even_of_int)+
  then have "\<bar>round_half_even (x / ulp x)\<bar> \<le> 2 ^ 53" by linarith
  then show ?thesis using False unfolding representable_def fl_ulp [OF False] u
    by (intro exI [of _ "round_half_even (x / ulp x)"] exI [of _ e]) (auto simp: e_def u)
qed

lemma fl_idem [simp]: "fl (fl x) = fl x"
  by (rule fl_representable) (rule representable_fl)

lemma fl_of_int: "\<bar>n\<bar> \<le> 2 ^ 53 \<Longrightarrow> fl (of_int n) = of_int n"
  by (intro fl_representable, unfold representable_def, intro exI [of _ n] exI [of _ 0]) auto

lemma fl_one [simp]: "fl 1 = 1"
  using fl_of_int [of 1] by simp

lemma fl_numeral: "(numeral n :: int) \<le> 2 ^ 53 \<Longrightarrow> fl (numeral n) = numeral n"
  using fl_of_int [of "numeral n"] by simp

text \<open>The relative error of one rounding, for a result in the normal range.\<close>

lemma fl_error:
  assumes "2 powi (-1022) \<le> \<bar>x\<bar>"
  shows "\<bar>fl x - x\<bar> \<le> \<bar>x\<bar> / 2 ^ 53"
proof -
  have x0: "x \<noteq> 0" using assms powi_pos [of "-1022"] by auto
  have "2 powi (-1022) < (2::rat) powi (binary_exponent x + 1)"
    using assms binary_exponent_bounds(2) [OF x0] by linarith
  then have "-1022 < binary_exponent x + 1" by (simp only: powi_less_iff)
  then have e: "-1022 \<le> binary_exponent x" by linarith
  have "\<bar>fl x - x\<bar> = \<bar>of_int (round_half_even (x / ulp x)) - x / ulp x\<bar> * ulp x"
    using x0 ulp_pos [of x] by (simp add: fl_ulp field_simps abs_mult_pos flip: abs_mult_pos)
  also have "\<dots> \<le> 1/2 * ulp x" using round_half_even_near ulp_pos [of x] by (intro mult_right_mono) auto
  also have "\<dots> = 2 powi (binary_exponent x) / 2 ^ 53" using e by (simp add: ulp_def powi_diff)
  also have "\<dots> \<le> \<bar>x\<bar> / 2 ^ 53" using binary_exponent_bounds(1) [OF x0] by (simp add: divide_right_mono)
  finally show ?thesis .
qed

text \<open>The rounding of a normal number exceeds it by at most half a unit in the last place.\<close>

lemma fl_upper:
  assumes "2 powi (-1022) \<le> x"
  shows "fl x \<le> x * (1 + 1 / 2 ^ 53)"
proof -
  have "0 < x" using assms powi_pos [of "-1022"] by linarith
  with assms have "\<bar>fl x - x\<bar> \<le> x / 2 ^ 53" using fl_error [of x] by simp
  then have "fl x \<le> x + x / 2 ^ 53" by linarith
  then show ?thesis by (simp add: distrib_left)
qed

lemma normal_bound:
  assumes "1 / 10 ^ 30 \<le> x"
  shows "2 powi (-1022) \<le> (x::rat)"
proof -
  have "(2::rat) powi (-1022) \<le> 2 powi (-100)" by (simp only: powi_le_iff)
  also have "\<dots> \<le> 1 / 10 ^ 30" by (simp add: power_int_def power_divide)
  finally show ?thesis using assms by (rule order_trans)
qed

section \<open>The interface of a rounding\<close>

text \<open>
  What the rest of the development uses of a rounding: it is monotone, odd and keeps zero.
  A client never looks at bits.  \<open>exact_rounding\<close> adds that the result of a rounding
  is a fixed point, so that bounds by representable constants survive it.
\<close>

locale rounding =
  fixes rnd :: "rat \<Rightarrow> rat"
  assumes rnd_mono: "x \<le> y \<Longrightarrow> rnd x \<le> rnd y"
    and rnd_zero: "rnd 0 = 0"
    and rnd_minus: "rnd (- x) = - rnd x"
begin

lemma rnd_nonneg: "0 \<le> x \<Longrightarrow> 0 \<le> rnd x"
  using rnd_mono [of 0 x] by (simp add: rnd_zero)

lemma rnd_nonpos: "x \<le> 0 \<Longrightarrow> rnd x \<le> 0"
  using rnd_mono [of x 0] by (simp add: rnd_zero)

lemma rnd_pos_imp: "0 < rnd x \<Longrightarrow> 0 < x"
  by (meson not_le rnd_nonpos)

lemma rnd_neg_imp: "rnd x < 0 \<Longrightarrow> x < 0"
  by (meson not_le rnd_nonneg)

lemma rnd_less_imp: "rnd x < rnd y \<Longrightarrow> x < y"
  using rnd_mono [of y x] by linarith

lemma rnd_abs: "rnd \<bar>x\<bar> = \<bar>rnd x\<bar>"
  using rnd_nonneg [of x] rnd_nonpos [of x] rnd_minus [of x] by (cases "0 \<le> x") simp_all

end

locale exact_rounding = rounding +
  assumes rnd_idem: "rnd (rnd x) = rnd x"
begin

lemma rnd_upper: "rnd c = c \<Longrightarrow> x \<le> c \<Longrightarrow> rnd x \<le> c"
  using rnd_mono [of x c] by simp

lemma rnd_lower: "rnd c = c \<Longrightarrow> c \<le> x \<Longrightarrow> c \<le> rnd x"
  using rnd_mono [of c x] by simp

lemma rnd_exceeds_imp: "rnd c = c \<Longrightarrow> c < rnd x \<Longrightarrow> c < x"
  using rnd_upper [of c x] by linarith

end

interpretation b64: exact_rounding fl
  by unfold_locales (simp_all add: fl_mono fl_minus)

section \<open>Arithmetic\<close>

named_theorems float_op \<open>the operations as a rounded exact operation\<close>
named_theorems float_sign \<open>signs of rounded results\<close>

definition fadd :: "f64 \<Rightarrow> f64 \<Rightarrow> f64" where [float_op]: "fadd a b = fl (a + b)"
definition fsub :: "f64 \<Rightarrow> f64 \<Rightarrow> f64" where [float_op]: "fsub a b = fl (a - b)"
definition fmul :: "f64 \<Rightarrow> f64 \<Rightarrow> f64" where [float_op]: "fmul a b = fl (a * b)"
definition fdiv :: "f64 \<Rightarrow> f64 \<Rightarrow> f64" where [float_op]: "fdiv a b = fl (a / b)"

text \<open>
  \<open>fdiv\<close> is used where the code has excluded a zero divisor; elsewhere the model has a
  \<open>ZeroDivisionError\<close> branch.  \<open>of_int\<close> of a Python integer in an arithmetic
  expression is first converted to a float, \<open>float_of_int\<close>.
\<close>

definition float_of_int :: "int \<Rightarrow> f64" where "float_of_int n = fl (of_int n)"

text \<open>The builtin \<open>sum\<close> of CPython 3.11: left to right, from zero.\<close>

definition fsum :: "f64 list \<Rightarrow> f64" where "fsum xs = foldl fadd 0 xs"

text \<open>
  \<open>round(x, n)\<close>: the exact decimal expansion of the double, rounded half to even at the
  n-th decimal place, then converted back to the nearest double.  \<open>int(x)\<close> truncates.
\<close>

definition pyround :: "nat \<Rightarrow> f64 \<Rightarrow> f64" where
  "pyround n x = fl (of_int (round_half_even (x * 10 ^ n)) / 10 ^ n)"

definition py_int :: "f64 \<Rightarrow> int" where
  "py_int x = (if 0 \<le> x then floor x else ceiling x)"

interpretation dec: rounding "pyround n" for n
proof unfold_locales
  fix x y :: rat
  show "x \<le> y \<Longrightarrow> pyround n x \<le> pyround n y"
    by (auto simp: pyround_def intro!: fl_mono divide_right_mono round_half_even_mono mult_right_mono)
  show "pyround n 0 = 0" using round_half_even_of_int [of 0] by (simp add: pyround_def)
  show "pyround n (- x) = - pyround n x"
    using round_half_even_minus [of "x * 10 ^ n"] by (simp add: pyround_def flip: fl_minus)
qed

lemma fmul_nonneg [float_sign]: "0 \<le> a \<Longrightarrow> 0 \<le> b \<Longrightarrow> 0 \<le> fmul a b"
  by (simp add: fmul_def b64.rnd_nonneg)

lemma fdiv_nonneg [float_sign]: "0 \<le> a \<Longrightarrow> 0 \<le> b \<Longrightarrow> 0 \<le> fdiv a b"
  by (simp add: fdiv_def b64.rnd_nonneg)

lemma fadd_nonneg [float_sign]: "0 \<le> a \<Longrightarrow> 0 \<le> b \<Longrightarrow> 0 \<le> fadd a b"
  by (simp add: fadd_def b64.rnd_nonneg)

lemma fsub_nonneg [float_sign]: "b \<le> a \<Longrightarrow> 0 \<le> fsub a b"
  by (simp add: fsub_def b64.rnd_nonneg)

lemma fsub_nonpos [float_sign]: "a \<le> b \<Longrightarrow> fsub a b \<le> 0"
  by (simp add: fsub_def b64.rnd_nonpos)

lemma fsub_self [simp]: "fsub a a = 0"
  by (simp add: fsub_def)

lemma fsub_swap: "fsub b a = - fsub a b"
  using fl_minus [of "a - b"] by (simp add: fsub_def)

lemma fmul_zero [simp]: "fmul 0 a = 0" "fmul a 0 = 0"
  by (simp_all add: fmul_def)

lemma fdiv_zero [simp]: "fdiv 0 a = 0"
  by (simp add: fdiv_def)

lemma fmul_minus: "fmul (- a) b = - fmul a b" "fmul a (- b) = - fmul a b"
  by (simp_all add: fmul_def fl_minus)

lemma fdiv_minus: "fdiv (- a) b = - fdiv a b"
  by (simp add: fdiv_def fl_minus)

lemma fmul_mono: "a \<le> b \<Longrightarrow> 0 \<le> c \<Longrightarrow> fmul a c \<le> fmul b c"
  by (simp add: fmul_def fl_mono mult_right_mono)

lemma fmul_mono_left: "a \<le> b \<Longrightarrow> 0 \<le> c \<Longrightarrow> fmul c a \<le> fmul c b"
  by (simp add: fmul_def fl_mono mult_left_mono)

lemma fdiv_mono: "a \<le> b \<Longrightarrow> 0 \<le> c \<Longrightarrow> fdiv a c \<le> fdiv b c"
  by (simp add: fdiv_def fl_mono divide_right_mono)

lemma fadd_mono: "a \<le> b \<Longrightarrow> fadd c a \<le> fadd c b"
  by (simp add: fadd_def fl_mono)

lemma fsub_mono: "a \<le> b \<Longrightarrow> fsub a c \<le> fsub b c"
  by (simp add: fsub_def fl_mono)

lemma fl_fops [simp]:
  "fl (fadd a b) = fadd a b" "fl (fsub a b) = fsub a b" "fl (fmul a b) = fmul a b" "fl (fdiv a b) = fdiv a b"
  by (simp_all add: float_op)

lemma foldl_fadd_nonneg: "0 \<le> a \<Longrightarrow> (\<And>x. x \<in> set xs \<Longrightarrow> 0 \<le> x) \<Longrightarrow> 0 \<le> foldl fadd a xs"
  by (induction xs arbitrary: a) (auto simp: fadd_nonneg)

lemma fsum_nonneg: "(\<And>x. x \<in> set xs \<Longrightarrow> 0 \<le> x) \<Longrightarrow> 0 \<le> fsum xs"
  by (simp add: fsum_def foldl_fadd_nonneg)

lemma fsum_nil [simp]: "fsum [] = 0"
  by (simp add: fsum_def)

lemma fsum_snoc: "fsum (xs @ [x]) = fadd (fsum xs) x"
  by (simp add: fsum_def)

end
