(* ===== verification/Prelude.thy ===== *)
theory Prelude
  imports Floats "HOL-Library.Char_ord" "HOL-Library.List_Lexorder" "HOL-Library.Option_ord"
begin

text \<open>
  What the components share: the Python exceptions as values, the clock, the JSON values of the
  key-value table, and lemmas on lists, options and association lists.
\<close>

section \<open>Exceptions\<close>

datatype exn =
    ValueError
  | ZeroDivisionError
  | OverflowError
  | KeyError
  | IndexError
  | TypeError
  | AttributeError
  | NotImplementedError
  | IntegrityError
  | OrderContractNotVerifiedError
  | MultipleResultsFound
  | ExchangeReadError
  | PendingRollbackError
  | ExchangeCapabilityUnsupported
  | ExchangeDataUnavailable

type_synonym 'a result = "exn + 'a"

definition py_div :: "f64 \<Rightarrow> f64 \<Rightarrow> f64 result" where
  "py_div a b = (if b = 0 then Inl ZeroDivisionError else Inr (fdiv a b))"

text \<open>
  Integer to float conversion raises \<open>OverflowError\<close> when the rounded value does not
  fit binary64.
\<close>

definition int_to_float :: "int \<Rightarrow> f64 result" where
  "int_to_float n = (if 2 ^ 1024 \<le> \<bar>float_of_int n\<bar> then Inl OverflowError else Inr (float_of_int n))"

section \<open>Time\<close>

text \<open>
  A naive UTC \<open>datetime\<close> is its distance from 1970-01-01 in microseconds, the resolution
  of the Python type; a \<open>timedelta\<close> is a number of microseconds; a \<open>date\<close> is a
  number of days.
\<close>

type_synonym datetime = int
type_synonym timedelta = int
type_synonym date = int

definition second_us :: timedelta where "second_us = 1000000"
definition minute_us :: timedelta where "minute_us = 60000000"
definition hour_us :: timedelta where "hour_us = 3600000000"
definition day_us :: timedelta where "day_us = 86400000000"

lemmas time_units = second_us_def minute_us_def hour_us_def day_us_def

definition dt_date :: "datetime \<Rightarrow> date" where "dt_date t = t div day_us"

text \<open>\<open>datetime(now.year, now.month, now.day)\<close>\<close>

definition day_start :: "datetime \<Rightarrow> datetime" where "day_start t = t div day_us * day_us"

text \<open>\<open>timedelta.total_seconds()\<close> is a correctly rounded division.\<close>

definition total_seconds :: "timedelta \<Rightarrow> f64" where "total_seconds d = fl (of_int d / 1000000)"

text \<open>
  \<open>timedelta(seconds=x)\<close> for a float: whole seconds exactly, the fraction scaled to
  microseconds in floating point and rounded half to even.
\<close>

definition timedelta_seconds :: "f64 \<Rightarrow> timedelta" where
  "timedelta_seconds x =
     py_int x * second_us + round_half_even (fmul (x - of_int (py_int x)) 1000000)"

lemma day_start_bounds: "day_start t \<le> t" "t < day_start t + day_us"
  by (simp_all add: day_start_def day_us_def)

lemma dt_date_mono: "s \<le> t \<Longrightarrow> dt_date s \<le> dt_date t"
  by (simp add: dt_date_def zdiv_mono1 day_us_def)

lemma dt_date_eq_iff: "dt_date s = dt_date t \<longleftrightarrow> day_start s = day_start t"
  by (simp add: dt_date_def day_start_def day_us_def)

lemma timedelta_seconds_of_int: "timedelta_seconds (of_int n) = n * second_us"
  using round_half_even_of_int [of 0] by (simp add: timedelta_seconds_def py_int_def)

section \<open>JSON values\<close>

text \<open>
  The \<open>value\<close> column of the key-value table.  \<open>JIso t\<close> is the string
  \<open>t.isoformat()\<close>, which \<open>datetime.fromisoformat\<close> reads back; \<open>JDate d\<close> the
  same for a \<open>date\<close>.
\<close>

datatype json =
    JNull
  | JBool bool
  | JInt int
  | JNum f64
  | JStr string
  | JIso datetime
  | JDate date
  | JObj "(string \<times> json) list"
  | JArr "json list"

fun json_truthy :: "json \<Rightarrow> bool" where
  "json_truthy JNull = False"
| "json_truthy (JBool b) = b"
| "json_truthy (JInt n) = (n \<noteq> 0)"
| "json_truthy (JNum x) = (x \<noteq> 0)"
| "json_truthy (JStr s) = (s \<noteq> [])"
| "json_truthy (JIso _) = True"
| "json_truthy (JDate _) = True"
| "json_truthy (JObj kvs) = (kvs \<noteq> [])"
| "json_truthy (JArr xs) = (xs \<noteq> [])"

text \<open>\<open>value.get(k, default)\<close> on an object.  Any other value has no such method.\<close>

fun json_get :: "json \<Rightarrow> string \<Rightarrow> json \<Rightarrow> json" where
  "json_get (JObj kvs) k d = (case map_of kvs k of None \<Rightarrow> d | Some v \<Rightarrow> v)"
| "json_get _ k d = d"

section \<open>Lists and options\<close>

text \<open>The truthiness of an optional number: \<open>if x\<close> is false for \<open>None\<close> and zero.\<close>

definition truthy :: "f64 option \<Rightarrow> bool" where
  "truthy x = (case x of None \<Rightarrow> False | Some v \<Rightarrow> v \<noteq> 0)"

text \<open>\<open>x or 0\<close>\<close>

definition or_zero :: "f64 option \<Rightarrow> f64" where
  "or_zero x = (case x of None \<Rightarrow> 0 | Some v \<Rightarrow> v)"

text \<open>Update in place of the rows a predicate selects.\<close>

definition update_where :: "('a \<Rightarrow> bool) \<Rightarrow> ('a \<Rightarrow> 'a) \<Rightarrow> 'a list \<Rightarrow> 'a list" where
  "update_where p f xs = map (\<lambda>x. if p x then f x else x) xs"

lemma length_update_where [simp]: "length (update_where p f xs) = length xs"
  by (simp add: update_where_def)

lemma update_where_Nil [simp]: "update_where p f [] = []"
  by (simp add: update_where_def)

lemma update_where_Cons [simp]:
  "update_where p f (x # xs) = (if p x then f x else x) # update_where p f xs"
  by (simp add: update_where_def)

lemma update_where_append [simp]: "update_where p f (xs @ ys) = update_where p f xs @ update_where p f ys"
  by (simp add: update_where_def)

lemma map_update_where:
  "(\<And>x. p x \<Longrightarrow> k (f x) = k x) \<Longrightarrow> map k (update_where p f xs) = map k xs"
  by (auto simp: update_where_def)

lemma set_update_where:
  "set (update_where p f xs) = f ` {x \<in> set xs. p x} \<union> {x \<in> set xs. \<not> p x}"
  by (auto simp: update_where_def)

lemma update_where_none: "(\<And>x. x \<in> set xs \<Longrightarrow> \<not> p x) \<Longrightarrow> update_where p f xs = xs"
  by (induction xs) auto

lemma find_Some_iff_first:
  "find p xs = Some x \<Longrightarrow> x \<in> set xs \<and> p x"
  by (induction xs) (auto split: if_splits)

lemma find_None_filter: "find p xs = None \<longleftrightarrow> filter p xs = []"
  by (induction xs) auto

lemma distinct_map_filter_key:
  "distinct (map k xs) \<Longrightarrow> x \<in> set xs \<Longrightarrow> filter (\<lambda>y. k y = k x) xs = [x]"
  by (induction xs) (auto simp: filter_empty_conv image_iff)

section \<open>Insertion under a unique index\<close>

text \<open>
  Several tables promise at most one row per key: live executions by idempotency key, channel
  messages by channel and message number, notifications by their key.  The interface is a list
  of rows with a key; the client lemmas say what looking a key up returns after an insert.
\<close>

definition lookup_by :: "('r \<Rightarrow> 'k) \<Rightarrow> 'k \<Rightarrow> 'r list \<Rightarrow> 'r option" where
  "lookup_by key k rows = find (\<lambda>r. key r = k) rows"

lemma lookup_by_Some: "lookup_by key k rows = Some r \<Longrightarrow> r \<in> set rows \<and> key r = k"
  unfolding lookup_by_def by (drule find_Some_iff_first) auto

lemma lookup_by_None: "lookup_by key k rows = None \<longleftrightarrow> k \<notin> key ` set rows"
  by (auto simp: lookup_by_def find_None_iff)

lemma lookup_by_append:
  "lookup_by key k (rows @ [r]) =
     (case lookup_by key k rows of Some r' \<Rightarrow> Some r' | None \<Rightarrow> if key r = k then Some r else None)"
  by (induction rows) (auto simp: lookup_by_def)

lemma lookup_by_distinct:
  "distinct (map key rows) \<Longrightarrow> r \<in> set rows \<Longrightarrow> lookup_by key (key r) rows = Some r"
  by (induction rows) (auto simp: lookup_by_def image_iff)

lemma lookup_by_update_where:
  assumes "\<And>r. key (f r) = key r"
  shows "lookup_by key k (update_where (\<lambda>r. key r = k') f rows) =
           (if k = k' then map_option f (lookup_by key k rows) else lookup_by key k rows)"
  using assms by (induction rows) (auto simp: lookup_by_def)

end
