(* ===== verification/Schema.thy ===== *)
theory Schema
  imports Prelude
begin

text \<open>
  The relational schema of \<open>database/schema/models.py\<close>: one datatype per enumeration, one
  record per table, and the database as the record of its tables, each a list of rows in
  insertion order.  Columns that no modelled operation reads or writes
  (generated keys and times, free-text notes, raw payloads) are left out.  Every component takes the database and returns it
  updated; a transaction that is rolled back returns the database it started from.
\<close>

section \<open>Enumerations\<close>

datatype trade_status = TS_OPEN | TS_PARTIALLY_CLOSED | TS_CLOSED | TS_CANCELLED | TS_UNKNOWN

fun trade_status_value :: "trade_status \<Rightarrow> string" where
  "trade_status_value TS_OPEN = ''OPEN''"
| "trade_status_value TS_PARTIALLY_CLOSED = ''PARTIALLY_CLOSED''"
| "trade_status_value TS_CLOSED = ''CLOSED''"
| "trade_status_value TS_CANCELLED = ''CANCELLED''"
| "trade_status_value TS_UNKNOWN = ''UNKNOWN''"

datatype trade_source = SRC_MANUAL | SRC_SUNCRYPTO_SYNC | SRC_COINDCX_SYNC | SRC_AI_PAPER | SRC_TELEGRAM_EXTERNAL

fun trade_source_value :: "trade_source \<Rightarrow> string" where
  "trade_source_value SRC_MANUAL = ''MANUAL''"
| "trade_source_value SRC_SUNCRYPTO_SYNC = ''SUNCRYPTO_SYNC''"
| "trade_source_value SRC_COINDCX_SYNC = ''COINDCX_SYNC''"
| "trade_source_value SRC_AI_PAPER = ''AI_PAPER''"
| "trade_source_value SRC_TELEGRAM_EXTERNAL = ''TELEGRAM_EXTERNAL''"

datatype execution_type = ET_ENTRY | ET_PARTIAL_EXIT | ET_EXIT

fun execution_type_value :: "execution_type \<Rightarrow> string" where
  "execution_type_value ET_ENTRY = ''ENTRY''"
| "execution_type_value ET_PARTIAL_EXIT = ''PARTIAL_EXIT''"
| "execution_type_value ET_EXIT = ''EXIT''"

datatype outcome_type = OC_WIN | OC_LOSS | OC_NO_TRADE | OC_EXPIRED | OC_PENDING

datatype sync_status = SY_SUCCESS | SY_FAILED | SY_STALE | SY_UNAVAILABLE

datatype match_status = MS_MANUAL | MS_AUTO_MATCHED | MS_AMBIGUOUS | MS_UNMATCHED | MS_CONFIRMED

datatype connection_state = CN_LIVE | CN_STALE | CN_DISCONNECTED | CN_UNAVAILABLE | CN_NOT_CONFIGURED

datatype data_source_kind = DS_LIVE | DS_SYNCED | DS_MANUAL | DS_STALE | DS_UNAVAILABLE

datatype live_status =
    LX_RECEIVED | LX_PARSED | LX_VALIDATED | LX_RISK_APPROVED | LX_EXECUTION_ATTEMPTED
  | LX_EXCHANGE_ACCEPTED | LX_FILLED | LX_POSITION_OPEN | LX_PARTIAL_EXIT | LX_CLOSED | LX_REJECTED

section \<open>Tables\<close>

record candle =
  cd_timestamp :: datetime
  cd_timeframe :: string
  cd_open :: f64
  cd_high :: f64
  cd_low :: f64
  cd_close :: f64
  cd_volume :: f64
  cd_symbol :: string
  cd_quality_status :: string

record prediction =
  pr_signal_id :: string
  pr_timestamp :: datetime
  pr_symbol :: string
  pr_signal_type :: string
  pr_long_probability :: f64
  pr_short_probability :: f64
  pr_no_trade_probability :: f64
  pr_confidence :: f64
  pr_market_regime :: string
  pr_model_version :: "string option"
  pr_feature_version :: "string option"

record signal =
  sg_signal_id :: string
  sg_timestamp :: datetime
  sg_symbol :: string
  sg_signal_type :: string
  sg_confidence :: f64
  sg_entry_price :: "f64 option"
  sg_stop_loss :: "f64 option"
  sg_take_profit_1 :: "f64 option"
  sg_take_profit_2 :: "f64 option"
  sg_take_profit_3 :: "f64 option"
  sg_risk_reward :: "f64 option"
  sg_market_regime :: string
  sg_is_active :: bool
  sg_quality :: "string option"
  sg_strategy_name :: "string option"
  sg_timeframe :: "string option"
  sg_model_version :: "string option"

record trade =
  tr_trade_id :: string
  tr_signal_id :: "string option"
  tr_symbol :: string
  tr_side :: string
  tr_status :: trade_status
  tr_mode :: string
  tr_entry_price :: f64
  tr_exit_price :: "f64 option"
  tr_stop_loss :: "f64 option"
  tr_take_profit_1 :: "f64 option"
  tr_take_profit_2 :: "f64 option"
  tr_take_profit_3 :: "f64 option"
  tr_quantity :: f64
  tr_leverage :: int
  tr_pnl :: "f64 option"
  tr_pnl_pct :: "f64 option"
  tr_fees :: "f64 option"
  tr_funding :: "f64 option"
  tr_r_multiple :: "f64 option"
  tr_entry_time :: datetime
  tr_exit_time :: "datetime option"
  tr_exit_reason :: "string option"
  tr_market_regime :: "string option"
  tr_is_manual_entry :: bool
  tr_source :: trade_source
  tr_matched_signal_confidence :: "f64 option"
  tr_account_id :: "string option"
  tr_exchange_position_id :: "string option"
  tr_mark_price :: "f64 option"
  tr_liquidation_price :: "f64 option"
  tr_unrealized_pnl :: "f64 option"
  tr_margin :: "f64 option"
  tr_data_source :: data_source_kind
  tr_match_status :: match_status
  tr_last_synced_at :: "datetime option"

text \<open>The column defaults of a row that the code creates with some columns given.\<close>

definition default_trade :: trade where
  "default_trade =
     \<lparr>tr_trade_id = [], tr_signal_id = None, tr_symbol = ''BTC/USDT'', tr_side = [],
      tr_status = TS_OPEN, tr_mode = ''paper'', tr_entry_price = 0, tr_exit_price = None,
      tr_stop_loss = None, tr_take_profit_1 = None, tr_take_profit_2 = None,
      tr_take_profit_3 = None, tr_quantity = 0, tr_leverage = 1, tr_pnl = Some 0,
      tr_pnl_pct = Some 0, tr_fees = Some 0, tr_funding = Some 0, tr_r_multiple = Some 0,
      tr_entry_time = 0, tr_exit_time = None, tr_exit_reason = None, tr_market_regime = None,
      tr_is_manual_entry = True, tr_source = SRC_MANUAL, tr_matched_signal_confidence = None,
      tr_account_id = None, tr_exchange_position_id = None, tr_mark_price = None,
      tr_liquidation_price = None, tr_unrealized_pnl = None, tr_margin = None,
      tr_data_source = DS_MANUAL, tr_match_status = MS_MANUAL, tr_last_synced_at = None\<rparr>"

record trade_execution =
  te_trade_id :: string
  te_execution_type :: execution_type
  te_price :: f64
  te_quantity :: f64
  te_timestamp :: datetime
  te_exchange_transaction_id :: "string option"

record signal_outcome =
  so_signal_id :: string
  so_outcome :: outcome_type
  so_hypothetical_entry_price :: "f64 option"
  so_hypothetical_exit_price :: "f64 option"
  so_hypothetical_pnl_pct :: "f64 option"
  so_was_taken_by_user :: bool
  so_evaluated_at :: "datetime option"

record account =
  ac_id :: string
  ac_connection_status :: connection_state
  ac_last_synced_at :: "datetime option"
  ac_created_at :: datetime

record account_snapshot =
  as_account_id :: string
  as_timestamp :: datetime
  as_equity :: f64
  as_available_balance :: "f64 option"
  as_used_margin :: "f64 option"
  as_source :: data_source_kind
  as_note :: "string option"

record cash_movement =
  cm_account_id :: string
  cm_amount :: f64
  cm_time :: datetime
  cm_note :: "string option"

record sync_event =
  se_source :: string
  se_status :: sync_status
  se_timestamp :: datetime

record notification_log =
  nl_signal_id :: "string option"
  nl_channel :: string
  nl_message_type :: string
  nl_status :: string

record telegram_message =
  tm_id :: string
  tm_source_channel :: string
  tm_source_channel_id :: "string option"
  tm_telegram_message_id :: string
  tm_message_timestamp :: datetime
  tm_edited_timestamp :: "datetime option"
  tm_text :: string
  tm_edited_text :: "string option"

record external_signal =
  es_id :: string
  es_message_id :: string
  es_source_channel :: string
  es_status :: string
  es_raw_symbol :: "string option"
  es_symbol :: "string option"
  es_direction :: "string option"
  es_entry_price :: "f64 option"
  es_stop_loss :: "f64 option"
  es_take_profit_1 :: "f64 option"
  es_take_profit_2 :: "f64 option"
  es_take_profit_3 :: "f64 option"
  es_leverage_stated :: "int option"
  es_timeframe_stated :: "string option"
  es_market_price_at_validation :: "f64 option"
  es_trade_id :: "string option"
  es_created_at :: "datetime option"

record live_execution =
  lx_idempotency_key :: string
  lx_source :: string
  lx_signal_id :: "string option"
  lx_symbol :: string
  lx_instrument :: "string option"
  lx_direction :: string
  lx_status :: live_status
  lx_rejected_by :: "string option"
  lx_gate_results :: "(string \<times> bool) list option"
  lx_entry_price :: "f64 option"
  lx_stop_loss :: "f64 option"
  lx_take_profit_1 :: "f64 option"
  lx_take_profit_2 :: "f64 option"
  lx_take_profit_3 :: "f64 option"
  lx_quantity :: "f64 option"

record funding_rate =
  fg_symbol :: string
  fg_timestamp :: datetime
  fg_rate :: f64

record open_interest_record =
  oi_symbol :: string
  oi_timestamp :: datetime
  oi_value :: f64

record liquidation_event =
  li_symbol :: string
  li_timestamp :: datetime
  li_side :: string
  li_price :: f64
  li_quantity :: f64

record backtest_run =
  bn_id :: string
  bn_strategy_name :: string
  bn_timeframe :: string
  bn_dataset_start :: datetime
  bn_dataset_end :: datetime
  bn_created_at :: datetime

record backtest_metric =
  bm_run_id :: string
  bm_total_pnl_pct :: f64
  bm_win_rate :: f64
  bm_profit_factor :: f64
  bm_sharpe_ratio :: f64
  bm_max_drawdown_pct :: f64
  bm_total_trades :: int
  bm_created_at :: datetime

section \<open>The database\<close>

record db =
  db_trades :: "trade list"
  db_executions :: "trade_execution list"
  db_live :: "live_execution list"
  db_bot :: "string \<Rightarrow> json option"
  db_notifications :: "notification_log list"
  db_signals :: "signal list"
  db_outcomes :: "signal_outcome list"
  db_candles :: "candle list"
  db_predictions :: "prediction list"
  db_accounts :: "account list"
  db_snapshots :: "account_snapshot list"
  db_deposits :: "cash_movement list"
  db_withdrawals :: "cash_movement list"
  db_sync_events :: "sync_event list"
  db_messages :: "telegram_message list"
  db_external_signals :: "external_signal list"
  db_funding_rates :: "funding_rate list"
  db_open_interest :: "open_interest_record list"
  db_liquidations :: "liquidation_event list"
  db_backtest_runs :: "backtest_run list"
  db_backtest_metrics :: "backtest_metric list"

definition empty_db :: db where
  "empty_db =
     \<lparr>db_trades = [], db_executions = [], db_live = [], db_bot = (\<lambda>_. None),
      db_notifications = [], db_signals = [], db_outcomes = [], db_candles = [],
      db_predictions = [], db_accounts = [], db_snapshots = [], db_deposits = [],
      db_withdrawals = [], db_sync_events = [], db_messages = [], db_external_signals = [],
      db_funding_rates = [], db_open_interest = [], db_liquidations = [],
      db_backtest_runs = [], db_backtest_metrics = []\<rparr>"

end
