(* ===== verification/CircuitBreaker.thy ===== *)
theory CircuitBreaker
  imports Schema
begin

text \<open>
  \<open>services/scheduler/circuit_breaker.py\<close>: the breaker that guards every scheduler job.
  \<open>can_attempt\<close> changes the state, so it returns the breaker; \<open>record_failure\<close> can
  raise, so it returns the breaker as it stands when the exception leaves it.
\<close>

section \<open>State and operations\<close>

datatype circuit_state = CB_CLOSED | CB_OPEN | CB_HALF_OPEN

record breaker_config =
  bc_failure_threshold :: int
  bc_base_backoff_seconds :: f64
  bc_max_backoff_seconds :: f64

definition default_breaker_config :: breaker_config where
  "default_breaker_config =
     \<lparr>bc_failure_threshold = 5, bc_base_backoff_seconds = 5, bc_max_backoff_seconds = 300\<rparr>"

record breaker =
  br_config :: breaker_config
  br_state :: circuit_state
  br_consecutive_failures :: int
  br_opened_at :: "datetime option"
  br_next_retry_at :: "datetime option"

definition new_breaker :: "breaker_config \<Rightarrow> breaker" where
  "new_breaker c =
     \<lparr>br_config = c, br_state = CB_CLOSED, br_consecutive_failures = 0, br_opened_at = None,
      br_next_retry_at = None\<rparr>"

text \<open>
  The power is an unbounded integer; multiplying it by a float converts it first, which raises
  \<open>OverflowError\<close> from 2 to the 1024 on.
\<close>

definition backoff_seconds :: "breaker \<Rightarrow> f64 result" where
  "backoff_seconds b =
     (let exponent = max 0 (br_consecutive_failures b - bc_failure_threshold (br_config b))
      in case int_to_float (2 ^ nat exponent) of
           Inl x \<Rightarrow> Inl x
         | Inr factor \<Rightarrow>
             let seconds = fmul (bc_base_backoff_seconds (br_config b)) factor
             in Inr (min seconds (bc_max_backoff_seconds (br_config b))))"

definition can_attempt :: "datetime \<Rightarrow> breaker \<Rightarrow> breaker \<times> bool" where
  "can_attempt now b =
     (case br_state b of
        CB_CLOSED \<Rightarrow> (b, True)
      | CB_OPEN \<Rightarrow>
          (case br_next_retry_at b of
             Some t \<Rightarrow> if t \<le> now then (b\<lparr>br_state := CB_HALF_OPEN\<rparr>, True) else (b, False)
           | None \<Rightarrow> (b, False))
      | CB_HALF_OPEN \<Rightarrow> (b, True))"

definition record_success :: "breaker \<Rightarrow> breaker" where
  "record_success b =
     b\<lparr>br_state := CB_CLOSED, br_consecutive_failures := 0, br_opened_at := None, br_next_retry_at := None\<rparr>"

definition record_failure :: "datetime \<Rightarrow> breaker \<Rightarrow> breaker \<times> exn option" where
  "record_failure now b =
     (let b1 = b\<lparr>br_consecutive_failures := br_consecutive_failures b + 1\<rparr>
      in if br_consecutive_failures b1 \<ge> bc_failure_threshold (br_config b1)
         then let b2 = b1\<lparr>br_state := CB_OPEN, br_opened_at := Some now\<rparr>
              in case backoff_seconds b2 of
                   Inl x \<Rightarrow> (b2, Some x)
                 | Inr s \<Rightarrow> (b2\<lparr>br_next_retry_at := Some (now + timedelta_seconds s)\<rparr>, None)
         else (b1, None))"

section \<open>The interface of a guarded call\<close>

text \<open>
  What a scheduler tick relies on: a successful attempt resets the guard, and a refusal changes
  nothing.
\<close>

locale call_guard =
  fixes attempt :: "datetime \<Rightarrow> 'b \<Rightarrow> 'b \<times> bool"
    and succeeded :: "'b \<Rightarrow> 'b"
    and failed :: "datetime \<Rightarrow> 'b \<Rightarrow> 'b \<times> exn option"
    and failures :: "'b \<Rightarrow> int"
  assumes refusal_keeps: "\<not> snd (attempt now b) \<Longrightarrow> fst (attempt now b) = b"
    and attempt_failures: "failures (fst (attempt now b)) = failures b"
    and succeeded_resets: "failures (succeeded b) = 0"
    and succeeded_open: "snd (attempt now (succeeded b))"
    and failed_counts: "failures (fst (failed now b)) = failures b + 1"
begin

text \<open>One tick: the job runs only if the guard allows it, and its outcome is recorded.\<close>

definition tick :: "datetime \<Rightarrow> bool \<Rightarrow> 'b \<Rightarrow> 'b \<times> bool \<times> exn option" where
  "tick now job_ok b =
     (let (b', go) = attempt now b
      in if \<not> go then (b', False, None)
         else if job_ok then (succeeded b', True, None)
         else let (b'', x) = failed now b' in (b'', True, x))"

lemma tick_skipped: "\<not> fst (snd (tick now ok b)) \<Longrightarrow> fst (tick now ok b) = b"
  using refusal_keeps [of now b] by (auto simp: tick_def Let_def split: prod.splits if_splits)

lemma tick_failures:
  "failures (fst (tick now ok b)) =
     (if \<not> fst (snd (tick now ok b)) then failures b else if ok then 0 else failures b + 1)"
  using attempt_failures [of now b]
  by (auto simp: tick_def Let_def succeeded_resets split: prod.splits if_splits)
    (metis failed_counts fst_conv)

lemma tick_success_recovers: "fst (snd (tick now True b)) \<Longrightarrow> snd (attempt now' (fst (tick now True b)))"
  by (auto simp: tick_def Let_def succeeded_open split: prod.splits if_splits)

end

lemma record_failure_count [simp]:
  "br_consecutive_failures (fst (record_failure now b)) = br_consecutive_failures b + 1"
  by (simp add: record_failure_def Let_def split: sum.splits)

lemma record_failure_config [simp]: "br_config (fst (record_failure now b)) = br_config b"
  by (simp add: record_failure_def Let_def split: sum.splits)

lemma can_attempt_frame [simp]:
  "br_consecutive_failures (fst (can_attempt now b)) = br_consecutive_failures b"
  "br_config (fst (can_attempt now b)) = br_config b"
  by (simp_all add: can_attempt_def split: circuit_state.splits option.splits)

interpretation guard: call_guard can_attempt record_success record_failure br_consecutive_failures
  by unfold_locales
    (auto simp: can_attempt_def record_success_def split: circuit_state.splits option.splits if_splits)

section \<open>Backoff\<close>

lemma fl_power_of_two: "fl (2 ^ n) = 2 ^ n"
  by (rule fl_representable, unfold representable_def, intro exI [of _ 1] exI [of _ "int n"]) simp

lemma int_to_float_power:
  "int_to_float (2 ^ n) = (if n < 1024 then Inr (2 ^ n) else Inl OverflowError)"
proof -
  have "float_of_int (2 ^ n) = 2 ^ n" by (simp add: float_of_int_def fl_power_of_two)
  moreover have "(2::rat) ^ 1024 \<le> 2 ^ n \<longleftrightarrow> 1024 \<le> n" by (intro power_increasing_iff) simp
  ultimately show ?thesis by (simp only: int_to_float_def abs_power2 abs_of_nonneg zero_le_power zero_le_numeral
        not_less if_not_P split: if_split) (simp add: not_le)
qed

lemma backoff_cases:
  "backoff_seconds b =
     (let k = nat (br_consecutive_failures b - bc_failure_threshold (br_config b))
      in if k < 1024 then Inr (min (fmul (bc_base_backoff_seconds (br_config b)) (2 ^ k))
                                   (bc_max_backoff_seconds (br_config b)))
         else Inl OverflowError)"
proof -
  have "nat (max 0 x) = nat x" for x :: int by simp
  then show ?thesis by (simp add: backoff_seconds_def Let_def int_to_float_power)
qed

lemma backoff_bounded: "backoff_seconds b = Inr s \<Longrightarrow> s \<le> bc_max_backoff_seconds (br_config b)"
  by (simp add: backoff_cases Let_def split: if_splits)

lemma backoff_mono:
  assumes "backoff_seconds b = Inr s" "backoff_seconds b' = Inr s'" "br_config b' = br_config b"
    and "br_consecutive_failures b \<le> br_consecutive_failures b'"
    and "0 \<le> bc_base_backoff_seconds (br_config b)"
  shows "s \<le> s'"
proof -
  let ?k = "\<lambda>c. nat (br_consecutive_failures c - bc_failure_threshold (br_config b))"
  have "(2::rat) ^ ?k b \<le> 2 ^ ?k b'"
    using assms(4) by (intro power_increasing) auto
  then have "fmul (bc_base_backoff_seconds (br_config b)) (2 ^ ?k b) \<le> fmul (bc_base_backoff_seconds (br_config b)) (2 ^ ?k b')"
    using assms(5) by (rule fmul_mono_left)
  then show ?thesis using assms(1-3) by (auto simp: backoff_cases Let_def split: if_splits)
qed

section \<open>Properties\<close>

text \<open>
  Exponential backoff.  The failure that reaches or exceeds the threshold, within 1024 failures
  of it, opens the circuit and sets the retry time to the current time plus the base delay doubled
  per further failure, capped at the maximum; until that instant every attempt is refused and
  leaves the breaker unchanged, and from that instant on an attempt is let through as a trial.
\<close>

theorem breaker_backoff_window:
  assumes "k = br_consecutive_failures b + 1 - bc_failure_threshold (br_config b)" "0 \<le> k" "k < 1024"
    and "record_failure now b = (b', x)"
  shows "x = None \<and> br_state b' = CB_OPEN \<and>
    (\<exists>s. s = min (fmul (bc_base_backoff_seconds (br_config b)) (2 ^ nat k)) (bc_max_backoff_seconds (br_config b)) \<and>
         can_attempt t b' = (if t < now + timedelta_seconds s then (b', False) else (b'\<lparr>br_state := CB_HALF_OPEN\<rparr>, True)))"
proof -
  let ?b2 = "b\<lparr>br_consecutive_failures := br_consecutive_failures b + 1, br_state := CB_OPEN, br_opened_at := Some now\<rparr>"
  let ?s = "min (fmul (bc_base_backoff_seconds (br_config b)) (2 ^ nat k)) (bc_max_backoff_seconds (br_config b))"
  have "backoff_seconds ?b2 = Inr ?s" using assms(1-3) by (simp add: backoff_cases Let_def)
  then have "b' = ?b2\<lparr>br_next_retry_at := Some (now + timedelta_seconds ?s)\<rparr>" "x = None"
    using assms by (auto simp: record_failure_def Let_def)
  then show ?thesis by (simp add: can_attempt_def)
qed

theorem breaker_backoff_window_witness:
  "can_attempt 9000000 (fst (record_failure 0 (new_breaker default_breaker_config\<lparr>br_consecutive_failures := 5\<rparr>))) =
     (fst (record_failure 0 (new_breaker default_breaker_config\<lparr>br_consecutive_failures := 5\<rparr>)), False)"
proof -
  let ?b = "new_breaker default_breaker_config\<lparr>br_consecutive_failures := 5\<rparr>"
  obtain b' x where r: "record_failure 0 ?b = (b', x)" by fastforce
  have k: "1 = br_consecutive_failures ?b + 1 - bc_failure_threshold (br_config ?b)"
    by (simp add: new_breaker_def default_breaker_config_def)
  have "9000000 < 0 + timedelta_seconds (min (fmul (bc_base_backoff_seconds (br_config ?b)) (2 ^ nat 1))
     (bc_max_backoff_seconds (br_config ?b)))" by code_simp
  with breaker_backoff_window [OF k _ _ r, of 9000000] show ?thesis by (simp add: r)
qed

text \<open>
  The backoff overflows.  From 1024 failures beyond the threshold on, recording a failure
  raises OverflowError after the circuit is marked open and before the retry time moves; the
  retry time that had already passed stays, so every later attempt is let through at once and the
  exponential backoff is gone.
\<close>

theorem breaker_overflow:
  assumes "1024 \<le> br_consecutive_failures b + 1 - bc_failure_threshold (br_config b)"
    and "br_next_retry_at b = Some r" "r \<le> now" "now \<le> t"
  shows "snd (record_failure now b) = Some OverflowError \<and>
    br_next_retry_at (fst (record_failure now b)) = Some r \<and>
    snd (can_attempt t (fst (record_failure now b)))"
proof -
  have "backoff_seconds (b\<lparr>br_consecutive_failures := br_consecutive_failures b + 1, br_state := CB_OPEN,
      br_opened_at := Some now\<rparr>) = Inl OverflowError"
    using assms(1) by (simp add: backoff_cases Let_def)
  then show ?thesis using assms by (simp add: record_failure_def Let_def can_attempt_def)
qed

theorem breaker_overflow_witness:
  "snd (record_failure 10 (new_breaker default_breaker_config\<lparr>br_state := CB_HALF_OPEN,
      br_consecutive_failures := 1028, br_next_retry_at := Some 5\<rparr>)) = Some OverflowError"
proof -
  let ?b = "new_breaker default_breaker_config\<lparr>br_state := CB_HALF_OPEN, br_consecutive_failures := 1028,
     br_next_retry_at := Some 5\<rparr>"
  have "1024 \<le> br_consecutive_failures ?b + 1 - bc_failure_threshold (br_config ?b)"
    "br_next_retry_at ?b = Some 5" by (simp_all add: new_breaker_def default_breaker_config_def)
  from breaker_overflow [OF this, of 10 10] show ?thesis by simp
qed

end
