(* ===== verification/FixedMargin.thy ===== *)
theory FixedMargin
  imports Schema
begin

text \<open>
  \<open>services/risk_engine/fixed_margin.py\<close>: the fixed margin of 200 rupees at exactly ten-fold
  leverage and the shared daily budget of fifteen entries.  The conversion rate is an argument, as
  in the source; the budget is counted from the table of trades.
\<close>

section \<open>Sizing\<close>

definition FIXED_MARGIN_INR :: f64 where "FIXED_MARGIN_INR = 200"
definition FIXED_LEVERAGE :: int where "FIXED_LEVERAGE = 10"
definition DAILY_TRADE_TARGET :: int where "DAILY_TRADE_TARGET = 10"
definition DAILY_TRADE_MAX :: int where "DAILY_TRADE_MAX = 15"
definition FIXED_MARGIN_SOURCES :: "trade_source list" where
  "FIXED_MARGIN_SOURCES = [SRC_AI_PAPER, SRC_TELEGRAM_EXTERNAL]"

datatype fm_reason = FM_OK | FM_NO_RATE | FM_INVALID_ENTRY | FM_DAILY_MAX int

record fixed_margin_sizing =
  fs_approved :: bool
  fs_reason :: fm_reason
  fs_margin_inr :: f64
  fs_leverage :: int
  fs_notional_usdt :: f64
  fs_quantity :: f64

definition refused_sizing :: "fm_reason \<Rightarrow> fixed_margin_sizing" where
  "refused_sizing r =
     \<lparr>fs_approved = False, fs_reason = r, fs_margin_inr = FIXED_MARGIN_INR, fs_leverage = FIXED_LEVERAGE,
      fs_notional_usdt = 0, fs_quantity = 0\<rparr>"

definition size_fixed_margin_trade :: "f64 option \<Rightarrow> f64 option \<Rightarrow> fixed_margin_sizing" where
  "size_fixed_margin_trade entry_price usdt_inr_rate =
     (case usdt_inr_rate of
        None \<Rightarrow> refused_sizing FM_NO_RATE
      | Some rate \<Rightarrow>
          if rate \<le> 0 then refused_sizing FM_NO_RATE
          else case entry_price of
                 None \<Rightarrow> refused_sizing FM_INVALID_ENTRY
               | Some price \<Rightarrow>
                   if price \<le> 0 then refused_sizing FM_INVALID_ENTRY
                   else let margin_usdt = fdiv FIXED_MARGIN_INR rate;
                            notional_usdt = fmul margin_usdt (float_of_int FIXED_LEVERAGE);
                            quantity = fdiv notional_usdt price
                        in \<lparr>fs_approved = True, fs_reason = FM_OK, fs_margin_inr = FIXED_MARGIN_INR,
                            fs_leverage = FIXED_LEVERAGE, fs_notional_usdt = pyround 2 notional_usdt,
                            fs_quantity = quantity\<rparr>)"

section \<open>The daily budget\<close>

record daily_budget =
  db_trades_today :: int
  db_target :: int
  db_max_allowed :: int

definition can_open_new_entry :: "daily_budget \<Rightarrow> bool" where
  "can_open_new_entry b \<longleftrightarrow> db_trades_today b < db_max_allowed b"

definition target_reached :: "daily_budget \<Rightarrow> bool" where
  "target_reached b \<longleftrightarrow> db_trades_today b \<ge> db_target b"

definition counts_today :: "datetime \<Rightarrow> trade \<Rightarrow> bool" where
  "counts_today now t \<longleftrightarrow>
     tr_mode t = ''paper'' \<and> tr_source t \<in> set FIXED_MARGIN_SOURCES \<and>
     day_start now \<le> tr_entry_time t \<and> tr_entry_time t < day_start now + day_us"

definition get_daily_trade_budget :: "db \<Rightarrow> datetime \<Rightarrow> daily_budget" where
  "get_daily_trade_budget d now =
     \<lparr>db_trades_today = int (length (filter (counts_today now) (db_trades d))),
      db_target = DAILY_TRADE_TARGET, db_max_allowed = DAILY_TRADE_MAX\<rparr>"

record fixed_margin_check =
  fc_approved :: bool
  fc_reason :: fm_reason
  fc_sizing :: "fixed_margin_sizing option"
  fc_budget :: "daily_budget option"

definition check_fixed_margin_trade ::
  "db \<Rightarrow> f64 option \<Rightarrow> f64 option \<Rightarrow> datetime \<Rightarrow> fixed_margin_check" where
  "check_fixed_margin_trade d entry_price usdt_inr_rate now =
     (let budget = get_daily_trade_budget d now
      in if \<not> can_open_new_entry budget
         then \<lparr>fc_approved = False, fc_reason = FM_DAILY_MAX (db_trades_today budget), fc_sizing = None,
               fc_budget = Some budget\<rparr>
         else let sizing = size_fixed_margin_trade entry_price usdt_inr_rate
              in if \<not> fs_approved sizing
                 then \<lparr>fc_approved = False, fc_reason = fs_reason sizing, fc_sizing = Some sizing,
                       fc_budget = Some budget\<rparr>
                 else \<lparr>fc_approved = True, fc_reason = FM_OK, fc_sizing = Some sizing,
                       fc_budget = Some budget\<rparr>)"

section \<open>Lemmas\<close>

lemma counts_today_day: "counts_today now t \<Longrightarrow> dt_date (tr_entry_time t) = dt_date now"
  unfolding counts_today_def day_start_def dt_date_def day_us_def by linarith

lemma counts_today_iff:
  "counts_today now t \<longleftrightarrow>
     tr_mode t = ''paper'' \<and> tr_source t \<in> {SRC_AI_PAPER, SRC_TELEGRAM_EXTERNAL} \<and>
     dt_date (tr_entry_time t) = dt_date now"
proof -
  have "day_start now \<le> e \<and> e < day_start now + day_us \<longleftrightarrow> dt_date e = dt_date now" for e
    unfolding day_start_def dt_date_def day_us_def by linarith
  then show ?thesis by (auto simp: counts_today_def FIXED_MARGIN_SOURCES_def)
qed

lemma size_approved_iff:
  "fs_approved (size_fixed_margin_trade p r) \<longleftrightarrow> (\<exists>p' r'. p = Some p' \<and> r = Some r' \<and> 0 < p' \<and> 0 < r')"
  by (auto simp: size_fixed_margin_trade_def refused_sizing_def Let_def split: option.splits)

lemma size_fields:
  "fs_leverage (size_fixed_margin_trade p r) = 10" "fs_margin_inr (size_fixed_margin_trade p r) = 200"
  by (auto simp: size_fixed_margin_trade_def refused_sizing_def Let_def FIXED_LEVERAGE_def
      FIXED_MARGIN_INR_def split: option.splits)

lemma check_approved_iff:
  "fc_approved (check_fixed_margin_trade d p r now) \<longleftrightarrow>
     can_open_new_entry (get_daily_trade_budget d now) \<and> fs_approved (size_fixed_margin_trade p r)"
  by (simp add: check_fixed_margin_trade_def Let_def)

lemma check_approved_sizing:
  "fc_approved (check_fixed_margin_trade d p r now) \<Longrightarrow>
     fc_sizing (check_fixed_margin_trade d p r now) = Some (size_fixed_margin_trade p r)"
  by (simp add: check_fixed_margin_trade_def Let_def split: if_splits)

lemma check_budget [simp]:
  "fc_budget (check_fixed_margin_trade d p r now) = Some (get_daily_trade_budget d now)"
  by (simp add: check_fixed_margin_trade_def Let_def)

definition entries_on :: "db \<Rightarrow> date \<Rightarrow> nat" where
  "entries_on d day =
     length (filter (\<lambda>t. tr_mode t = ''paper'' \<and> tr_source t \<in> set FIXED_MARGIN_SOURCES \<and>
                        dt_date (tr_entry_time t) = day) (db_trades d))"

lemma budget_entries: "db_trades_today (get_daily_trade_budget d now) = int (entries_on d (dt_date now))"
proof -
  have "counts_today now = (\<lambda>t. tr_mode t = ''paper'' \<and> tr_source t \<in> set FIXED_MARGIN_SOURCES \<and>
      dt_date (tr_entry_time t) = dt_date now)"
    by (rule ext) (simp add: counts_today_iff FIXED_MARGIN_SOURCES_def)
  then show ?thesis by (simp add: get_daily_trade_budget_def entries_on_def)
qed

lemma can_open_iff: "can_open_new_entry (get_daily_trade_budget d now) \<longleftrightarrow> entries_on d (dt_date now) < 15"
proof -
  have "can_open_new_entry (get_daily_trade_budget d now) \<longleftrightarrow>
          db_trades_today (get_daily_trade_budget d now) < DAILY_TRADE_MAX"
    by (simp add: can_open_new_entry_def get_daily_trade_budget_def)
  then show ?thesis by (simp add: budget_entries DAILY_TRADE_MAX_def)
qed

text \<open>A sequence of guarded openings, each checked and recorded before the next.\<close>

record entry_request =
  rq_price :: "f64 option"
  rq_rate :: "f64 option"
  rq_now :: datetime
  rq_source :: trade_source

definition guarded_entry :: "entry_request \<Rightarrow> db \<Rightarrow> db" where
  "guarded_entry q d =
     (if fc_approved (check_fixed_margin_trade d (rq_price q) (rq_rate q) (rq_now q))
      then d\<lparr>db_trades := db_trades d @
             [default_trade\<lparr>tr_mode := ''paper'', tr_source := rq_source q, tr_entry_time := rq_now q\<rparr>]\<rparr>
      else d)"

lemma guarded_entry_cap:
  assumes "entries_on d day \<le> 15"
  shows "entries_on (guarded_entry q d) day \<le> 15"
proof (cases "fc_approved (check_fixed_margin_trade d (rq_price q) (rq_rate q) (rq_now q)) \<and> dt_date (rq_now q) = day")
  case True
  then have "entries_on d day < 15" by (auto simp: check_approved_iff can_open_iff)
  moreover have "entries_on (guarded_entry q d) day \<le> Suc (entries_on d day)"
    by (simp add: guarded_entry_def entries_on_def)
  ultimately show ?thesis by linarith
next
  case False
  then have "entries_on (guarded_entry q d) day = entries_on d day"
    by (auto simp: guarded_entry_def entries_on_def)
  then show ?thesis using assms by simp
qed

section \<open>Properties\<close>


end
