(* ===== verification/LiveSizing.thy ===== *)
theory LiveSizing
  imports FixedMargin
begin

text \<open>
  \<open>services/live_execution/sizing.py\<close> and \<open>services/exchange/coindcx_instruments.py\<close>: the
  instrument metadata with its cache, and the quantity that realises the fixed margin at the
  instrument's own precision.
\<close>

section \<open>Instrument metadata\<close>

definition CACHE_TTL_SECONDS :: f64 where "CACHE_TTL_SECONDS = 300"

record instrument =
  im_pair :: string
  im_status :: string
  im_kind :: string
  im_settle_currency :: string
  im_quote_currency :: string
  im_position_currency :: string
  im_underlying_currency :: string
  im_margin_currency :: string
  im_max_leverage_long :: f64
  im_max_leverage_short :: f64
  im_price_increment :: f64
  im_quantity_increment :: f64
  im_min_trade_size :: f64
  im_min_price :: f64
  im_max_price :: f64
  im_min_quantity :: f64
  im_max_quantity :: f64
  im_min_notional :: f64
  im_max_notional :: f64
  im_exit_only :: bool
  im_order_types :: json
  im_time_in_force_options :: json
  im_fetched_at :: f64

definition supports_leverage :: "instrument \<Rightarrow> int \<Rightarrow> bool" where
  "supports_leverage i leverage \<longleftrightarrow>
     of_int leverage \<le> im_max_leverage_long i \<and> of_int leverage \<le> im_max_leverage_short i"

definition is_stale :: "instrument \<Rightarrow> f64 \<Rightarrow> bool" where
  "is_stale i now \<longleftrightarrow> fsub now (im_fetched_at i) > CACHE_TTL_SECONDS"

text \<open>
  \<open>float(v)\<close> of a JSON value; the reading of a text is the argument.  A string column of the reply
  is copied as it is, so its text form is kept.
\<close>

definition json_float :: "(string \<Rightarrow> f64 option) \<Rightarrow> json \<Rightarrow> f64 result" where
  "json_float read_text j =
     (case j of JNum x \<Rightarrow> Inr x | JInt n \<Rightarrow> int_to_float n | JBool b \<Rightarrow> Inr (if b then 1 else 0)
      | JStr s \<Rightarrow> (case read_text s of None \<Rightarrow> Inl ValueError | Some x \<Rightarrow> Inr x) | _ \<Rightarrow> Inl TypeError)"

definition raw_item :: "json \<Rightarrow> string \<Rightarrow> json result" where
  "raw_item raw k =
     (case raw of JObj kvs \<Rightarrow> (case map_of kvs k of None \<Rightarrow> Inl KeyError | Some v \<Rightarrow> Inr v) | _ \<Rightarrow> Inl TypeError)"

definition raw_text :: "json \<Rightarrow> string \<Rightarrow> string result" where
  "raw_text raw k = (case raw_item raw k of Inl x \<Rightarrow> Inl x | Inr (JStr s) \<Rightarrow> Inr s | Inr _ \<Rightarrow> Inl TypeError)"

definition raw_float :: "(string \<Rightarrow> f64 option) \<Rightarrow> json \<Rightarrow> string \<Rightarrow> f64 result" where
  "raw_float rt raw k = (case raw_item raw k of Inl x \<Rightarrow> Inl x | Inr v \<Rightarrow> json_float rt v)"

text \<open>\<open>raw.get(k) or d\<close>\<close>

definition raw_get_or :: "json \<Rightarrow> string \<Rightarrow> json \<Rightarrow> json" where
  "raw_get_or raw k d = (let v = json_get raw k JNull in if json_truthy v then v else d)"

definition bindr :: "'a result \<Rightarrow> ('a \<Rightarrow> 'b result) \<Rightarrow> 'b result" where
  "bindr r f = (case r of Inl x \<Rightarrow> Inl x | Inr v \<Rightarrow> f v)"

definition parse_instrument :: "(string \<Rightarrow> f64 option) \<Rightarrow> json \<Rightarrow> f64 \<Rightarrow> instrument result" where
  "parse_instrument rt raw now =
     bindr (raw_text raw ''pair'') (\<lambda>pair. bindr (raw_text raw ''status'') (\<lambda>status.
     bindr (raw_text raw ''kind'') (\<lambda>kind. bindr (raw_text raw ''settle_currency_short_name'') (\<lambda>settle.
     bindr (raw_text raw ''quote_currency_short_name'') (\<lambda>quote.
     bindr (raw_text raw ''position_currency_short_name'') (\<lambda>pos.
     bindr (raw_text raw ''underlying_currency_short_name'') (\<lambda>under.
     bindr (raw_text raw ''margin_currency_short_name'') (\<lambda>margin.
     bindr (raw_float rt raw ''max_leverage_long'') (\<lambda>mll. bindr (raw_float rt raw ''max_leverage_short'') (\<lambda>mls.
     bindr (raw_float rt raw ''price_increment'') (\<lambda>pinc. bindr (raw_float rt raw ''quantity_increment'') (\<lambda>qinc.
     bindr (raw_float rt raw ''min_trade_size'') (\<lambda>mts. bindr (raw_float rt raw ''min_price'') (\<lambda>minp.
     bindr (raw_float rt raw ''max_price'') (\<lambda>maxp. bindr (raw_float rt raw ''min_quantity'') (\<lambda>minq.
     bindr (raw_float rt raw ''max_quantity'') (\<lambda>maxq. bindr (raw_float rt raw ''min_notional'') (\<lambda>minn.
     bindr (json_float rt (raw_get_or raw ''max_notional'' (JNum 0))) (\<lambda>maxn.
     bindr (raw_item raw ''exit_only'') (\<lambda>eo.
       Inr \<lparr>im_pair = pair, im_status = status, im_kind = kind, im_settle_currency = settle,
         im_quote_currency = quote, im_position_currency = pos, im_underlying_currency = under,
         im_margin_currency = margin, im_max_leverage_long = mll, im_max_leverage_short = mls,
         im_price_increment = pinc, im_quantity_increment = qinc, im_min_trade_size = mts,
         im_min_price = minp, im_max_price = maxp, im_min_quantity = minq, im_max_quantity = maxq,
         im_min_notional = minn, im_max_notional = maxn, im_exit_only = json_truthy eo,
         im_order_types = raw_get_or raw ''order_types'' (JArr []),
         im_time_in_force_options = raw_get_or raw ''time_in_force_options'' (JArr []),
         im_fetched_at = now\<rparr>))))))))))))))))))))"

type_synonym instrument_cache = "(string \<times> instrument) list"

text \<open>
  The reply is the body of the instrument endpoint, \<open>None\<close> an HTTP error.  Every parse error is
  caught and reported as no metadata.
\<close>

definition get_instrument_metadata ::
  "(string \<Rightarrow> f64 option) \<Rightarrow> string \<Rightarrow> string \<Rightarrow> bool \<Rightarrow> f64 \<Rightarrow> json option \<Rightarrow> instrument_cache
     \<Rightarrow> instrument option \<times> instrument_cache" where
  "get_instrument_metadata rt pair margin_currency force_refresh now reply cache =
     (let key = pair @ '':'' @ margin_currency;
          fetch = (case reply of
             None \<Rightarrow> (None, cache)
           | Some body \<Rightarrow>
               (let raw = json_get body ''instrument'' JNull
                in if raw = JNull then (None, cache)
                   else case parse_instrument rt raw now of
                     Inl _ \<Rightarrow> (None, cache)
                   | Inr m \<Rightarrow> (Some m, (key, m) # cache)))
      in case map_of cache key of
           Some m \<Rightarrow> if \<not> force_refresh \<and> \<not> is_stale m now then (Some m, cache) else fetch
         | None \<Rightarrow> fetch)"

section \<open>Sizing at the instrument's precision\<close>

definition MAX_MARGIN_DEVIATION_PCT :: f64 where "MAX_MARGIN_DEVIATION_PCT = 10"

datatype sizing_reason =
    SZ_OK
  | SZ_NO_INSTRUMENT
  | SZ_NO_RATE
  | SZ_INVALID_ENTRY
  | SZ_NOT_ACTIVE string bool
  | SZ_LEVERAGE f64 int
  | SZ_NO_TRADEABLE f64
  | SZ_DEVIATION f64 f64

record precision_sizing =
  ps_approved :: bool
  ps_reason :: sizing_reason
  ps_quantity :: f64
  ps_realized_notional_usdt :: f64
  ps_realized_margin_usdt :: f64
  ps_realized_margin_inr :: f64
  ps_margin_deviation_pct :: f64

definition refused_precision :: "sizing_reason \<Rightarrow> precision_sizing" where
  "refused_precision r =
     \<lparr>ps_approved = False, ps_reason = r, ps_quantity = 0, ps_realized_notional_usdt = 0,
      ps_realized_margin_usdt = 0, ps_realized_margin_inr = 0, ps_margin_deviation_pct = 0\<rparr>"

datatype rounding_direction = ROUND_DOWN | ROUND_UP

definition round_to_increment :: "f64 \<Rightarrow> f64 \<Rightarrow> rounding_direction \<Rightarrow> f64" where
  "round_to_increment value increment direction =
     (if increment \<le> 0 then value
      else let steps = fdiv value increment;
               n = (case direction of ROUND_DOWN \<Rightarrow> \<lfloor>steps\<rfloor> | ROUND_UP \<Rightarrow> \<lceil>steps\<rceil>)
           in pyround 10 (fmul (float_of_int n) increment))"

definition sizing_candidate ::
  "f64 \<Rightarrow> f64 \<Rightarrow> instrument \<Rightarrow> f64 \<Rightarrow> int \<Rightarrow> f64 \<Rightarrow> rounding_direction \<Rightarrow> precision_sizing option" where
  "sizing_candidate entry rate i margin_inr leverage raw_quantity direction =
     (let qty = round_to_increment raw_quantity (im_quantity_increment i) direction
      in if qty < im_min_quantity i \<or> qty \<le> 0 then None
         else if qty > im_max_quantity i then None
         else let notional = fmul qty entry
         in if notional < im_min_notional i then None
         else let realized_margin_usdt = fdiv notional (float_of_int leverage);
                  realized_margin_inr = fmul realized_margin_usdt rate;
                  deviation_pct = fmul (fdiv \<bar>fsub realized_margin_inr margin_inr\<bar> margin_inr) 100
              in Some \<lparr>ps_approved = True, ps_reason = SZ_OK, ps_quantity = qty,
                   ps_realized_notional_usdt = pyround 8 notional,
                   ps_realized_margin_usdt = pyround 8 realized_margin_usdt,
                   ps_realized_margin_inr = pyround 4 realized_margin_inr,
                   ps_margin_deviation_pct = pyround 4 deviation_pct\<rparr>)"

text \<open>\<open>min(candidates, key=...)\<close>: the first of the smallest.\<close>

fun min_by :: "('a \<Rightarrow> f64) \<Rightarrow> 'a \<Rightarrow> 'a list \<Rightarrow> 'a" where
  "min_by f x [] = x"
| "min_by f x (y # ys) = min_by f (if f y < f x then y else x) ys"

definition pick_candidate :: "f64 \<Rightarrow> precision_sizing list \<Rightarrow> precision_sizing" where
  "pick_candidate target_notional candidates =
     (case candidates of
        [] \<Rightarrow> refused_precision (SZ_NO_TRADEABLE target_notional)
      | c # cs \<Rightarrow>
          let best = min_by ps_margin_deviation_pct c cs
          in if ps_margin_deviation_pct best > MAX_MARGIN_DEVIATION_PCT
             then best\<lparr>ps_approved := False,
                       ps_reason := SZ_DEVIATION (ps_realized_margin_inr best) (ps_margin_deviation_pct best)\<rparr>
             else best)"

definition calculate_precision_sized_quantity ::
  "f64 option \<Rightarrow> f64 option \<Rightarrow> instrument option \<Rightarrow> f64 \<Rightarrow> int \<Rightarrow> precision_sizing" where
  "calculate_precision_sized_quantity entry_price usdt_inr_rate instrument margin_inr leverage =
     (case instrument of
        None \<Rightarrow> refused_precision SZ_NO_INSTRUMENT
      | Some i \<Rightarrow> (case usdt_inr_rate of
          None \<Rightarrow> refused_precision SZ_NO_RATE
        | Some rate \<Rightarrow>
            if rate \<le> 0 then refused_precision SZ_NO_RATE
            else (case entry_price of
              None \<Rightarrow> refused_precision SZ_INVALID_ENTRY
            | Some entry \<Rightarrow>
                if entry \<le> 0 then refused_precision SZ_INVALID_ENTRY
                else if im_status i \<noteq> ''active'' \<or> im_exit_only i
                  then refused_precision (SZ_NOT_ACTIVE (im_status i) (im_exit_only i))
                else if of_int leverage > im_max_leverage_long i \<or> of_int leverage > im_max_leverage_short i
                  then refused_precision (SZ_LEVERAGE (min (im_max_leverage_long i) (im_max_leverage_short i)) leverage)
                else
                  let margin_usdt = fdiv margin_inr rate;
                      target_notional = fmul margin_usdt (float_of_int leverage);
                      raw_quantity = fdiv target_notional entry;
                      candidates = List.map_filter (sizing_candidate entry rate i margin_inr leverage raw_quantity)
                                     [ROUND_DOWN, ROUND_UP]
                  in pick_candidate target_notional candidates)))"

section \<open>Lemmas\<close>

lemma min_by_in: "min_by f x xs \<in> set (x # xs)"
  by (induction xs arbitrary: x) auto

lemma min_by_least: "y \<in> set (x # xs) \<Longrightarrow> f (min_by f x xs) \<le> f y"
proof (induction xs arbitrary: x y)
  case (Cons z zs)
  have a: "f (min_by f x (z # zs)) \<le> f (if f z < f x then z else x)"
    using Cons.IH [of "if f z < f x then z else x" "if f z < f x then z else x"] by simp
  show ?case
  proof (cases "y \<in> set zs")
    case True
    then show ?thesis using Cons.IH [of y "if f z < f x then z else x"] by simp
  next
    case False
    then have "f (if f z < f x then z else x) \<le> f y" using Cons.prems by (auto split: if_splits)
    then show ?thesis using a by linarith
  qed
qed simp

lemma sizing_candidate_Some:
  assumes "sizing_candidate entry rate i m l raw dir = Some s"
  shows "ps_approved s" "ps_reason s = SZ_OK" "im_min_quantity i \<le> ps_quantity s" "0 < ps_quantity s"
    "ps_quantity s \<le> im_max_quantity i" "im_min_notional i \<le> fmul (ps_quantity s) entry"
    "ps_quantity s = round_to_increment raw (im_quantity_increment i) dir"
    "ps_margin_deviation_pct s = pyround 4 (fmul (fdiv
        \<bar>fsub (fmul (fdiv (fmul (ps_quantity s) entry) (float_of_int l)) rate) m\<bar> m) 100)"
  using assms by (auto simp: sizing_candidate_def Let_def split: if_splits)

lemma pick_candidate_approved:
  assumes "\<And>c. c \<in> set cs \<Longrightarrow> ps_approved c"
  shows "ps_approved (pick_candidate t cs) \<longleftrightarrow>
     (\<exists>c \<in> set cs. ps_margin_deviation_pct c \<le> MAX_MARGIN_DEVIATION_PCT)"
    and "ps_approved (pick_candidate t cs) \<Longrightarrow> pick_candidate t cs \<in> set cs \<and>
     (\<forall>c \<in> set cs. ps_margin_deviation_pct (pick_candidate t cs) \<le> ps_margin_deviation_pct c) \<and>
     ps_margin_deviation_pct (pick_candidate t cs) \<le> MAX_MARGIN_DEVIATION_PCT"
proof -
  have main: "cs = x # xs \<Longrightarrow> min_by ps_margin_deviation_pct x xs \<in> set cs \<and>
      (\<forall>c \<in> set cs. ps_margin_deviation_pct (min_by ps_margin_deviation_pct x xs) \<le> ps_margin_deviation_pct c)" for x xs
    using min_by_in [of ps_margin_deviation_pct x xs] min_by_least [of _ x xs ps_margin_deviation_pct] by auto
  show "ps_approved (pick_candidate t cs) \<longleftrightarrow>
     (\<exists>c \<in> set cs. ps_margin_deviation_pct c \<le> MAX_MARGIN_DEVIATION_PCT)"
  proof (cases cs)
    case (Cons x xs)
    let ?b = "min_by ps_margin_deviation_pct x xs"
    have b: "?b \<in> set cs" "\<And>c. c \<in> set cs \<Longrightarrow> ps_margin_deviation_pct ?b \<le> ps_margin_deviation_pct c"
      using main [OF Cons] by blast+
    have "ps_approved (pick_candidate t cs) \<longleftrightarrow> ps_margin_deviation_pct ?b \<le> MAX_MARGIN_DEVIATION_PCT"
      using assms [OF b(1)] by (simp add: pick_candidate_def Cons Let_def)
    then show ?thesis using b by (meson order_trans)
  qed (simp add: pick_candidate_def refused_precision_def)
  show "ps_approved (pick_candidate t cs) \<Longrightarrow> pick_candidate t cs \<in> set cs \<and>
     (\<forall>c \<in> set cs. ps_margin_deviation_pct (pick_candidate t cs) \<le> ps_margin_deviation_pct c) \<and>
     ps_margin_deviation_pct (pick_candidate t cs) \<le> MAX_MARGIN_DEVIATION_PCT"
    using main by (cases cs) (auto simp: pick_candidate_def refused_precision_def Let_def split: if_splits)
qed

lemma set_map_filter_two:
  "set (List.map_filter f [a, b]) = {y. f a = Some y \<or> f b = Some y}"
  by (auto simp: List.map_filter_def split: option.splits)

section \<open>Properties\<close>


definition demo_instrument :: instrument where
  "demo_instrument =
     \<lparr>im_pair = ''B-BTC_USDT'', im_status = ''active'', im_kind = ''perpetual'', im_settle_currency = ''USDT'',
      im_quote_currency = ''USDT'', im_position_currency = ''BTC'', im_underlying_currency = ''BTC'',
      im_margin_currency = ''USDT'', im_max_leverage_long = 100, im_max_leverage_short = 100,
      im_price_increment = 1, im_quantity_increment = 1, im_min_trade_size = 1, im_min_price = 1,
      im_max_price = 1000000, im_min_quantity = 1, im_max_quantity = 1000, im_min_notional = 5,
      im_max_notional = 0, im_exit_only = False, im_order_types = JArr [],
      im_time_in_force_options = JArr [], im_fetched_at = 0\<rparr>"


end
