(* ===== verification/BotState.thy ===== *)
theory BotState
  imports Schema
begin

text \<open>
  The durable key-value table \<open>bot_state\<close> of \<open>database/schema/models.py\<close>: the emergency
  stop, the last reconciliation, the pause flag and the risk engine's state are rows of it.
  The interface \<open>kv_store\<close> says what a read returns after writes; every client lemma about
  flags that survive other writes is proved from it.
\<close>

section \<open>The interface\<close>

locale kv_store =
  fixes get :: "'s \<Rightarrow> string \<Rightarrow> json option"
    and put :: "string \<Rightarrow> json \<Rightarrow> 's \<Rightarrow> 's"
  assumes get_put: "get (put k v s) k' = (if k' = k then Some v else get s k')"
begin

lemma get_put_same: "get (put k v s) k = Some v"
  by (simp add: get_put)

lemma get_put_other: "k' \<noteq> k \<Longrightarrow> get (put k v s) k' = get s k'"
  by (simp add: get_put)

lemma puts_frame:
  "k \<notin> fst ` set kvs \<Longrightarrow> get (fold (\<lambda>(k', v). put k' v) kvs s) k = get s k"
  by (induction kvs arbitrary: s) (auto simp: get_put split: prod.splits)

lemma put_put_same: "get (put k v (put k w s)) k' = get (put k v s) k'"
  by (simp add: get_put)

end

section \<open>The table\<close>

definition bot_get :: "db \<Rightarrow> string \<Rightarrow> json option" where
  "bot_get d k = db_bot d k"

text \<open>
  The select-then-insert-or-assign that every writer of the table performs: a missing row is
  added, a present one gets the new value.
\<close>

definition bot_put :: "string \<Rightarrow> json \<Rightarrow> db \<Rightarrow> db" where
  "bot_put k v d =
     (case db_bot d k of
        None \<Rightarrow> d\<lparr>db_bot := (db_bot d)(k := Some v)\<rparr>
      | Some _ \<Rightarrow> d\<lparr>db_bot := (db_bot d)(k := Some v)\<rparr>)"

lemma bot_put_eq: "bot_put k v d = d\<lparr>db_bot := (db_bot d)(k := Some v)\<rparr>"
  by (simp add: bot_put_def split: option.splits)

interpretation bot: kv_store bot_get bot_put
  by unfold_locales (simp add: bot_get_def bot_put_eq)

lemma bot_put_frame [simp]:
  "db_live (bot_put k v d) = db_live d" "db_trades (bot_put k v d) = db_trades d"
  "db_executions (bot_put k v d) = db_executions d" "db_notifications (bot_put k v d) = db_notifications d"
  by (simp_all add: bot_put_eq)

end
