(* ===== verification/RiskEngine.thy ===== *)
theory RiskEngine
  imports Schema
begin

text \<open>
  \<open>services/risk_engine/engine.py\<close>: the percent-of-equity risk engine.  The configuration and
  the state are the records of the source; every method is a function from the engine to the
  updated engine and its result.  The clock is a parameter, as in the source; the text of a
  refusal is a constructor carrying the values the text shows.
\<close>

section \<open>State\<close>

datatype risk_status = RISK_ACTIVE | RISK_DAILY_LIMIT | RISK_COOLDOWN | RISK_HARD_KILL

record risk_config =
  rc_risk_per_trade_pct :: f64
  rc_max_daily_loss_pct :: f64
  rc_max_drawdown_pct :: f64
  rc_max_leverage :: int
  rc_max_positions :: int
  rc_max_daily_trades :: int
  rc_cooldown_consecutive_losses :: int
  rc_cooldown_minutes :: int
  rc_breakeven_resets :: bool

definition default_risk_config :: risk_config where
  "default_risk_config =
     \<lparr>rc_risk_per_trade_pct = 1/2, rc_max_daily_loss_pct = 2, rc_max_drawdown_pct = 10,
      rc_max_leverage = 5, rc_max_positions = 1, rc_max_daily_trades = 10,
      rc_cooldown_consecutive_losses = 3, rc_cooldown_minutes = 60, rc_breakeven_resets = True\<rparr>"

record risk_state =
  rs_daily_pnl_pct :: f64
  rs_daily_trades :: int
  rs_current_drawdown_pct :: f64
  rs_peak_equity :: f64
  rs_current_equity :: f64
  rs_consecutive_losses :: int
  rs_last_loss_time :: "datetime option"
  rs_cooldown_until :: "datetime option"
  rs_kill_switch :: bool
  rs_positions_open :: int

record risk_engine =
  re_config :: risk_config
  re_state :: risk_state
  re_initial_equity :: f64
  re_trade_date :: date

definition new_risk_state :: "f64 \<Rightarrow> risk_state" where
  "new_risk_state equity =
     \<lparr>rs_daily_pnl_pct = 0, rs_daily_trades = 0, rs_current_drawdown_pct = 0,
      rs_peak_equity = equity, rs_current_equity = equity, rs_consecutive_losses = 0,
      rs_last_loss_time = None, rs_cooldown_until = None, rs_kill_switch = False,
      rs_positions_open = 0\<rparr>"

definition new_risk_engine :: "risk_config \<Rightarrow> f64 \<Rightarrow> date \<Rightarrow> risk_engine" where
  "new_risk_engine config initial_equity today =
     \<lparr>re_config = config, re_state = new_risk_state initial_equity,
      re_initial_equity = initial_equity, re_trade_date = today\<rparr>"

abbreviation upd_state :: "(risk_state \<Rightarrow> risk_state) \<Rightarrow> risk_engine \<Rightarrow> risk_engine" where
  "upd_state f e \<equiv> e\<lparr>re_state := f (re_state e)\<rparr>"

section \<open>Operations\<close>

definition reset_daily :: "datetime \<Rightarrow> risk_engine \<Rightarrow> risk_engine" where
  "reset_daily now e =
     (if re_trade_date e \<noteq> dt_date now
      then e\<lparr>re_state := (re_state e)\<lparr>rs_daily_pnl_pct := 0, rs_daily_trades := 0\<rparr>,
             re_trade_date := dt_date now\<rparr>
      else e)"

definition cooling_down :: "risk_engine \<Rightarrow> datetime \<Rightarrow> bool" where
  "cooling_down e now \<longleftrightarrow>
     rs_consecutive_losses (re_state e) \<ge> rc_cooldown_consecutive_losses (re_config e) \<and>
     (case rs_cooldown_until (re_state e) of None \<Rightarrow> False | Some t \<Rightarrow> now < t)"

definition get_risk_status :: "datetime \<Rightarrow> risk_engine \<Rightarrow> risk_engine \<times> risk_status" where
  "get_risk_status now e0 =
     (let e = reset_daily now e0; s = re_state e
      in (e, if rs_kill_switch s then RISK_HARD_KILL
             else if rs_daily_pnl_pct s \<le> - rc_max_daily_loss_pct (re_config e) then RISK_DAILY_LIMIT
             else if cooling_down e now then RISK_COOLDOWN
             else RISK_ACTIVE))"

datatype verdict =
    V_OK
  | V_HARD_KILL
  | V_DAILY_LIMIT f64
  | V_MAX_DAILY_TRADES int
  | V_MAX_POSITIONS int
  | V_COOLDOWN int "datetime option"

definition can_trade :: "datetime \<Rightarrow> risk_engine \<Rightarrow> risk_engine \<times> bool \<times> verdict" where
  "can_trade now e0 =
     (let e = reset_daily now e0; s = re_state e; c = re_config e
      in (e,
          if rs_kill_switch s then (False, V_HARD_KILL)
          else if rs_daily_pnl_pct s \<le> - rc_max_daily_loss_pct c
            then (False, V_DAILY_LIMIT (rs_daily_pnl_pct s))
          else if rs_daily_trades s \<ge> rc_max_daily_trades c
            then (False, V_MAX_DAILY_TRADES (rs_daily_trades s))
          else if rs_positions_open s \<ge> rc_max_positions c
            then (False, V_MAX_POSITIONS (rs_positions_open s))
          else if cooling_down e now
            then (False, V_COOLDOWN (rs_consecutive_losses s) (rs_cooldown_until s))
          else (True, V_OK)))"

definition calculate_position_size :: "risk_engine \<Rightarrow> f64 \<Rightarrow> f64 \<Rightarrow> int \<Rightarrow> f64 result" where
  "calculate_position_size e entry_price stop_loss leverage0 =
     (let s = re_state e; c = re_config e;
          risk_amount = fmul (rs_current_equity s) (fdiv (rc_risk_per_trade_pct c) 100);
          price_risk = \<bar>fsub entry_price stop_loss\<bar>
      in if price_risk = 0 then Inr 0
         else
           let leverage = min leverage0 (rc_max_leverage c);
               position_size = fdiv (fmul risk_amount (float_of_int leverage)) price_risk;
               max_notional = fmul (rs_current_equity s) (float_of_int leverage)
           in case py_div max_notional entry_price of
                Inl x \<Rightarrow> Inl x
              | Inr max_quantity \<Rightarrow> Inr (min position_size max_quantity))"

datatype validation =
    VAL_OK
  | VAL_BLOCKED verdict
  | VAL_INVALID_PRICES
  | VAL_ZERO_RISK
  | VAL_RISK_REWARD f64
  | VAL_ZERO_SIZE

definition validate_trade ::
  "datetime \<Rightarrow> risk_engine \<Rightarrow> f64 \<Rightarrow> f64 \<Rightarrow> f64 \<Rightarrow> string
     \<Rightarrow> (risk_engine \<times> bool \<times> validation \<times> f64) result" where
  "validate_trade now e0 entry_price stop_loss take_profit side =
     (let (e, can, reason) = can_trade now e0
      in if \<not> can then Inr (e, False, VAL_BLOCKED reason, 0)
         else if entry_price \<le> 0 \<or> stop_loss \<le> 0 \<or> take_profit \<le> 0
           then Inr (e, False, VAL_INVALID_PRICES, 0)
         else
           let risk = \<bar>fsub entry_price stop_loss\<bar>; reward = \<bar>fsub take_profit entry_price\<bar>
           in if risk = 0 then Inr (e, False, VAL_ZERO_RISK, 0)
              else let rr = fdiv reward risk
                   in if rr < 1 then Inr (e, False, VAL_RISK_REWARD rr, 0)
                      else case calculate_position_size e entry_price stop_loss 1 of
                             Inl x \<Rightarrow> Inl x
                           | Inr quantity \<Rightarrow>
                               if quantity \<le> 0 then Inr (e, False, VAL_ZERO_SIZE, 0)
                               else Inr (e, True, VAL_OK, quantity))"

text \<open>
  \<open>record_trade_result\<close>, in the steps of the source: the day's counters, equity and peak, the
  drawdown, the streak of losses and its cooldown, the hard kill.
\<close>

definition book_pnl :: "f64 \<Rightarrow> risk_state \<Rightarrow> risk_state" where
  "book_pnl pnl_pct s =
     (let eq = fmul (rs_current_equity s) (fadd 1 (fdiv pnl_pct 100));
          peak = (if rs_peak_equity s < eq then eq else rs_peak_equity s)
      in s\<lparr>rs_daily_pnl_pct := fadd (rs_daily_pnl_pct s) pnl_pct,
           rs_current_equity := eq,
           rs_daily_trades := rs_daily_trades s + 1,
           rs_peak_equity := peak,
           rs_current_drawdown_pct :=
             (if 0 < peak then fmul (fdiv (fsub peak eq) peak) 100 else rs_current_drawdown_pct s)\<rparr>)"

definition book_streak :: "risk_config \<Rightarrow> f64 \<Rightarrow> datetime \<Rightarrow> risk_state \<Rightarrow> risk_state" where
  "book_streak c pnl_pct now s =
     (let is_loss = pnl_pct < 0; is_breakeven = (pnl_pct = 0);
          resets_streak = (\<not> is_loss \<and> (\<not> is_breakeven \<or> rc_breakeven_resets c));
          losses = rs_consecutive_losses s + 1
      in if is_loss then
           s\<lparr>rs_consecutive_losses := losses, rs_last_loss_time := Some now,
             rs_cooldown_until :=
               (if losses \<ge> rc_cooldown_consecutive_losses c
                then Some (now + rc_cooldown_minutes c * minute_us) else rs_cooldown_until s)\<rparr>
         else if resets_streak then s\<lparr>rs_consecutive_losses := 0, rs_cooldown_until := None\<rparr>
         else s)"

definition book_kill :: "risk_config \<Rightarrow> risk_state \<Rightarrow> risk_state" where
  "book_kill c s =
     (if rs_current_drawdown_pct s \<ge> rc_max_drawdown_pct c then s\<lparr>rs_kill_switch := True\<rparr> else s)"

definition record_trade_result :: "f64 \<Rightarrow> datetime \<Rightarrow> risk_engine \<Rightarrow> risk_engine" where
  "record_trade_result pnl_pct now e0 =
     (let e = reset_daily now e0; c = re_config e;
          s1 = book_pnl pnl_pct (re_state e);
          s2 = book_streak c pnl_pct now s1
      in e\<lparr>re_state := book_kill c s2\<rparr>)"

definition activate_kill_switch :: "risk_engine \<Rightarrow> risk_engine" where
  "activate_kill_switch = upd_state (\<lambda>s. s\<lparr>rs_kill_switch := True\<rparr>)"

definition reset_hard_kill :: "risk_engine \<Rightarrow> risk_engine" where
  "reset_hard_kill =
     upd_state (\<lambda>s. s\<lparr>rs_kill_switch := False, rs_consecutive_losses := 0, rs_cooldown_until := None\<rparr>)"

definition deactivate_kill_switch :: "risk_engine \<Rightarrow> risk_engine" where
  "deactivate_kill_switch = reset_hard_kill"

definition record_position_open :: "risk_engine \<Rightarrow> risk_engine" where
  "record_position_open = upd_state (\<lambda>s. s\<lparr>rs_positions_open := rs_positions_open s + 1\<rparr>)"

definition record_position_close :: "risk_engine \<Rightarrow> risk_engine" where
  "record_position_close = upd_state (\<lambda>s. s\<lparr>rs_positions_open := max 0 (rs_positions_open s - 1)\<rparr>)"

record risk_report =
  rr_risk_per_trade_pct :: f64
  rr_max_daily_loss_pct :: f64
  rr_max_drawdown_pct :: f64
  rr_max_positions :: int
  rr_max_daily_trades :: int
  rr_current_daily_pnl_pct :: f64
  rr_current_drawdown_pct :: f64
  rr_positions_open :: int
  rr_trades_today :: int
  rr_kill_switch_active :: bool
  rr_current_equity :: f64
  rr_peak_equity :: f64
  rr_consecutive_losses :: int
  rr_cooldown_until :: "datetime option"
  rr_risk_status :: risk_status

definition get_status :: "datetime \<Rightarrow> risk_engine \<Rightarrow> risk_engine \<times> risk_report" where
  "get_status now e0 =
     (let e = reset_daily now e0; s = re_state e
      in (e, \<lparr>rr_risk_per_trade_pct = rc_risk_per_trade_pct (re_config e),
              rr_max_daily_loss_pct = rc_max_daily_loss_pct (re_config e),
              rr_max_drawdown_pct = rc_max_drawdown_pct (re_config e),
              rr_max_positions = rc_max_positions (re_config e),
              rr_max_daily_trades = rc_max_daily_trades (re_config e),
              rr_current_daily_pnl_pct = pyround 4 (rs_daily_pnl_pct s),
              rr_current_drawdown_pct = pyround 4 (rs_current_drawdown_pct s),
              rr_positions_open = rs_positions_open s,
              rr_trades_today = rs_daily_trades s,
              rr_kill_switch_active = rs_kill_switch s,
              rr_current_equity = pyround 2 (rs_current_equity s),
              rr_peak_equity = pyround 2 (rs_peak_equity s),
              rr_consecutive_losses = rs_consecutive_losses s,
              rr_cooldown_until = rs_cooldown_until s,
              rr_risk_status = snd (get_risk_status now e)\<rparr>))"

lemmas risk_ops = reset_daily_def can_trade_def get_risk_status_def record_trade_result_def
  book_pnl_def book_streak_def book_kill_def activate_kill_switch_def reset_hard_kill_def
  deactivate_kill_switch_def record_position_open_def record_position_close_def Let_def


section \<open>Each operation, field by field\<close>

lemma reset_daily_frame [simp]:
  "re_config (reset_daily now e) = re_config e"
  "re_initial_equity (reset_daily now e) = re_initial_equity e"
  "rs_kill_switch (re_state (reset_daily now e)) = rs_kill_switch (re_state e)"
  "rs_positions_open (re_state (reset_daily now e)) = rs_positions_open (re_state e)"
  "rs_consecutive_losses (re_state (reset_daily now e)) = rs_consecutive_losses (re_state e)"
  "rs_cooldown_until (re_state (reset_daily now e)) = rs_cooldown_until (re_state e)"
  "rs_peak_equity (re_state (reset_daily now e)) = rs_peak_equity (re_state e)"
  "rs_current_equity (re_state (reset_daily now e)) = rs_current_equity (re_state e)"
  "rs_current_drawdown_pct (re_state (reset_daily now e)) = rs_current_drawdown_pct (re_state e)"
  "rs_last_loss_time (re_state (reset_daily now e)) = rs_last_loss_time (re_state e)"
  "re_trade_date (reset_daily now e) = dt_date now"
  by (simp_all add: reset_daily_def)

lemma reset_daily_idem [simp]: "reset_daily now (reset_daily now e) = reset_daily now e"
  by (simp add: reset_daily_def)

lemma cooling_down_reset [simp]: "cooling_down (reset_daily now e) = cooling_down e"
  by (rule ext) (simp add: cooling_down_def)

lemma can_trade_engine [simp]: "fst (can_trade now e) = reset_daily now e"
  by (simp add: can_trade_def Let_def)

lemma get_risk_status_engine [simp]: "fst (get_risk_status now e) = reset_daily now e"
  by (simp add: get_risk_status_def Let_def)

lemma get_status_engine [simp]: "fst (get_status now e) = reset_daily now e"
  by (simp add: get_status_def Let_def)

lemma can_trade_iff:
  "fst (snd (can_trade now e)) \<longleftrightarrow>
     \<not> rs_kill_switch (re_state e) \<and>
     - rc_max_daily_loss_pct (re_config e) < rs_daily_pnl_pct (re_state (reset_daily now e)) \<and>
     rs_daily_trades (re_state (reset_daily now e)) < rc_max_daily_trades (re_config e) \<and>
     rs_positions_open (re_state e) < rc_max_positions (re_config e) \<and>
     \<not> cooling_down e now"
  by (auto simp: can_trade_def Let_def)

lemma can_trade_verdict: "fst (snd (can_trade now e)) \<longleftrightarrow> snd (snd (can_trade now e)) = V_OK"
  by (auto simp: can_trade_def Let_def)

lemma record_config [simp]: "re_config (record_trade_result p now e) = re_config e"
  by (simp add: record_trade_result_def Let_def)

lemma record_kill:
  "rs_kill_switch (re_state (record_trade_result p now e)) \<longleftrightarrow>
     rs_kill_switch (re_state e) \<or>
     rc_max_drawdown_pct (re_config e) \<le> rs_current_drawdown_pct (re_state (record_trade_result p now e))"
  by (auto simp: record_trade_result_def book_kill_def book_streak_def book_pnl_def Let_def)

lemma record_positions [simp]:
  "rs_positions_open (re_state (record_trade_result p now e)) = rs_positions_open (re_state e)"
  by (simp add: record_trade_result_def book_kill_def book_streak_def book_pnl_def Let_def)

lemma record_streak:
  "rs_consecutive_losses (re_state (record_trade_result p now e)) =
     (if p < 0 then rs_consecutive_losses (re_state e) + 1
      else if 0 < p \<or> rc_breakeven_resets (re_config e) then 0
      else rs_consecutive_losses (re_state e))"
  by (auto simp: record_trade_result_def book_kill_def book_streak_def book_pnl_def Let_def)

lemma record_cooldown:
  "rs_cooldown_until (re_state (record_trade_result p now e)) =
     (if p < 0 then
        if rc_cooldown_consecutive_losses (re_config e) \<le> rs_consecutive_losses (re_state e) + 1
        then Some (now + rc_cooldown_minutes (re_config e) * minute_us)
        else rs_cooldown_until (re_state e)
      else if 0 < p \<or> rc_breakeven_resets (re_config e) then None
      else rs_cooldown_until (re_state e))"
  by (auto simp: record_trade_result_def book_kill_def book_streak_def book_pnl_def Let_def)

lemma record_equity:
  "rs_current_equity (re_state (record_trade_result p now e)) =
     fmul (rs_current_equity (re_state e)) (fadd 1 (fdiv p 100))"
  by (simp add: record_trade_result_def book_kill_def book_streak_def book_pnl_def Let_def)

lemma record_peak:
  "rs_peak_equity (re_state (record_trade_result p now e)) =
     max (rs_peak_equity (re_state e)) (rs_current_equity (re_state (record_trade_result p now e)))"
  by (simp add: record_trade_result_def book_kill_def book_streak_def book_pnl_def Let_def max_def)

lemma record_drawdown:
  "rs_current_drawdown_pct (re_state (record_trade_result p now e)) =
     (let s = re_state (record_trade_result p now e)
      in if 0 < rs_peak_equity s
         then fmul (fdiv (fsub (rs_peak_equity s) (rs_current_equity s)) (rs_peak_equity s)) 100
         else rs_current_drawdown_pct (re_state e))"
  by (simp add: record_trade_result_def book_kill_def book_streak_def book_pnl_def Let_def)

lemma record_daily:
  "rs_daily_trades (re_state (record_trade_result p now e)) = rs_daily_trades (re_state (reset_daily now e)) + 1"
  "rs_daily_pnl_pct (re_state (record_trade_result p now e)) = fadd (rs_daily_pnl_pct (re_state (reset_daily now e))) p"
  "re_trade_date (record_trade_result p now e) = dt_date now"
  by (simp_all add: record_trade_result_def book_kill_def book_streak_def book_pnl_def Let_def)

lemma switch_frames [simp]:
  "re_config (activate_kill_switch e) = re_config e" "re_config (reset_hard_kill e) = re_config e"
  "re_config (record_position_open e) = re_config e" "re_config (record_position_close e) = re_config e"
  "rs_positions_open (re_state (record_position_open e)) = rs_positions_open (re_state e) + 1"
  "rs_positions_open (re_state (record_position_close e)) = max 0 (rs_positions_open (re_state e) - 1)"
  "rs_kill_switch (re_state (record_position_open e)) = rs_kill_switch (re_state e)"
  "rs_kill_switch (re_state (record_position_close e)) = rs_kill_switch (re_state e)"
  "rs_kill_switch (re_state (activate_kill_switch e))"
  "\<not> rs_kill_switch (re_state (reset_hard_kill e))"
  by (simp_all add: activate_kill_switch_def reset_hard_kill_def record_position_open_def record_position_close_def)

section \<open>Runs of the engine\<close>

datatype risk_event =
    RE_reset_daily datetime
  | RE_can_trade datetime
  | RE_get_risk_status datetime
  | RE_get_status datetime
  | RE_record f64 datetime
  | RE_activate_kill
  | RE_reset_hard_kill
  | RE_deactivate_kill
  | RE_position_open
  | RE_position_close

fun risk_apply :: "risk_event \<Rightarrow> risk_engine \<Rightarrow> risk_engine" where
  "risk_apply (RE_reset_daily t) e = reset_daily t e"
| "risk_apply (RE_can_trade t) e = fst (can_trade t e)"
| "risk_apply (RE_get_risk_status t) e = fst (get_risk_status t e)"
| "risk_apply (RE_get_status t) e = fst (get_status t e)"
| "risk_apply (RE_record p t) e = record_trade_result p t e"
| "risk_apply RE_activate_kill e = activate_kill_switch e"
| "risk_apply RE_reset_hard_kill e = reset_hard_kill e"
| "risk_apply RE_deactivate_kill e = deactivate_kill_switch e"
| "risk_apply RE_position_open e = record_position_open e"
| "risk_apply RE_position_close e = record_position_close e"

definition risk_run :: "risk_event list \<Rightarrow> risk_engine \<Rightarrow> risk_engine" where
  "risk_run evs e = fold risk_apply evs e"

lemma risk_apply_config: "re_config (risk_apply ev e) = re_config e"
  by (cases ev) (simp_all add: deactivate_kill_switch_def)

lemma risk_apply_kill:
  "ev \<notin> {RE_reset_hard_kill, RE_deactivate_kill} \<Longrightarrow> rs_kill_switch (re_state e) \<Longrightarrow>
     rs_kill_switch (re_state (risk_apply ev e))"
  by (cases ev) (simp_all add: record_kill)

text \<open>What every reachable engine satisfies.\<close>

definition risk_inv :: "risk_engine \<Rightarrow> bool" where
  "risk_inv e \<longleftrightarrow>
     (let s = re_state e
      in rs_current_equity s \<le> rs_peak_equity s \<and> 0 \<le> rs_current_drawdown_pct s \<and>
         0 \<le> rs_positions_open s \<and> 0 \<le> rs_daily_trades s \<and> 0 \<le> rs_consecutive_losses s \<and>
         (rs_cooldown_until s \<noteq> None \<longrightarrow>
            rc_cooldown_consecutive_losses (re_config e) \<le> rs_consecutive_losses s))"

lemma risk_inv_new: "risk_inv (new_risk_engine c eq today)"
  by (simp add: risk_inv_def new_risk_engine_def new_risk_state_def)

lemma risk_inv_reset: "risk_inv e \<Longrightarrow> risk_inv (reset_daily now e)"
  by (simp add: risk_inv_def reset_daily_def Let_def)

lemma risk_inv_record:
  assumes "risk_inv e"
  shows "risk_inv (record_trade_result p now e)"
proof -
  have dd: "0 \<le> rs_current_drawdown_pct (re_state (record_trade_result p now e))"
    using assms by (subst record_drawdown)
      (auto simp: Let_def risk_inv_def record_peak intro!: fmul_nonneg fdiv_nonneg fsub_nonneg)
  have "0 \<le> rs_daily_trades (re_state (reset_daily now e))"
    using risk_inv_reset [OF assms, of now] by (simp add: risk_inv_def Let_def)
  then show ?thesis using assms dd
    by (auto simp: risk_inv_def Let_def record_peak record_streak record_cooldown record_daily split: if_splits)
qed

lemma risk_inv_apply: "risk_inv e \<Longrightarrow> risk_inv (risk_apply ev e)"
proof (cases ev)
  case (RE_record p t)
  then show "risk_inv e \<Longrightarrow> ?thesis" by (simp add: risk_inv_record)
qed (auto simp: risk_inv_def reset_daily_def activate_kill_switch_def reset_hard_kill_def
       deactivate_kill_switch_def record_position_open_def record_position_close_def Let_def)

lemma risk_inv_run: "risk_inv e \<Longrightarrow> risk_inv (risk_run evs e)"
  unfolding risk_run_def by (induction evs arbitrary: e) (auto intro: risk_inv_apply)

text \<open>In a reachable engine a pending cooldown alone decides: the streak test adds nothing.\<close>

lemma cooling_down_inv:
  "risk_inv e \<Longrightarrow> cooling_down e now \<longleftrightarrow> (\<exists>t. rs_cooldown_until (re_state e) = Some t \<and> now < t)"
  by (auto simp: risk_inv_def cooling_down_def Let_def split: option.splits)

section \<open>The interface of the position gate\<close>

text \<open>
  The paper trader and the backtester ask before they open a position and report openings and
  closings; what they rely on is that an approval means a free slot.
\<close>

locale position_gate =
  fixes gate :: "datetime \<Rightarrow> 'e \<Rightarrow> 'e \<times> bool \<times> verdict"
    and opened :: "'e \<Rightarrow> 'e"
    and closed :: "'e \<Rightarrow> 'e"
    and count :: "'e \<Rightarrow> int"
    and capacity :: "'e \<Rightarrow> int"
  assumes gate_free: "fst (snd (gate now e)) \<Longrightarrow> count e < capacity e"
    and gate_count: "count (fst (gate now e)) = count e"
    and gate_capacity: "capacity (fst (gate now e)) = capacity e"
    and opened_count: "count (opened e) = count e + 1"
    and opened_capacity: "capacity (opened e) = capacity e"
    and closed_count: "count (closed e) = max 0 (count e - 1)"
    and closed_capacity: "capacity (closed e) = capacity e"
begin

lemma guarded_open_within:
  "fst (snd (gate now e)) \<Longrightarrow> count (opened (fst (gate now e))) \<le> capacity (opened (fst (gate now e)))"
  using gate_free [of now e] by (simp add: opened_count opened_capacity gate_count gate_capacity)

lemma guarded_step_within:
  "count e \<le> capacity e \<Longrightarrow>
     (let (e', ok, v) = gate now e in count (if ok then opened e' else e') \<le> capacity (if ok then opened e' else e'))"
  using guarded_open_within [of now e] gate_count [of now e] gate_capacity [of now e]
  by (auto split: prod.splits)

lemma closed_within: "0 \<le> capacity e \<Longrightarrow> count e \<le> capacity e \<Longrightarrow> count (closed e) \<le> capacity (closed e)"
  by (simp add: closed_count closed_capacity)

end

interpretation risk: position_gate can_trade record_position_open record_position_close
    "\<lambda>e. rs_positions_open (re_state e)" "\<lambda>e. rc_max_positions (re_config e)"
  by unfold_locales (auto simp: can_trade_iff)

section \<open>Position size\<close>

lemma float_of_small_int: "0 \<le> n \<Longrightarrow> n \<le> 2 ^ 53 \<Longrightarrow> float_of_int n = of_int n"
  by (simp add: float_of_int_def fl_of_int)

text \<open>The two caps as they are computed, for a positive leverage.\<close>

lemma calculate_position_size_Inr:
  assumes "calculate_position_size e entry sl lev = Inr q" and "0 < entry" and "q \<noteq> 0"
    and "l = float_of_int (min lev (rc_max_leverage (re_config e)))"
  shows "fsub entry sl \<noteq> 0"
    and "q \<le> fdiv (fmul (fmul (rs_current_equity (re_state e)) (fdiv (rc_risk_per_trade_pct (re_config e)) 100)) l)
               \<bar>fsub entry sl\<bar>"
    and "q \<le> fdiv (fmul (rs_current_equity (re_state e)) l) entry"
  using assms by (simp_all add: calculate_position_size_def Let_def py_div_def split: if_splits)

text \<open>One rounding of a value between the smallest normal number and the largest considered.\<close>

lemma rounded_step:
  assumes "x \<le> b * (1 + 1 / 2 ^ 53) ^ n" and "1 / 10 ^ 30 \<le> x"
  shows "fl x \<le> b * (1 + 1 / 2 ^ 53) ^ Suc n"
proof -
  have "fl x \<le> x * (1 + 1 / 2 ^ 53)" using normal_bound [OF assms(2)] by (rule fl_upper)
  also have "\<dots> \<le> b * (1 + 1 / 2 ^ 53) ^ n * (1 + 1 / 2 ^ 53)"
    using assms(1) by (rule mult_right_mono) simp
  finally show ?thesis by (simp add: mult.assoc mult.commute)
qed

section \<open>Properties\<close>

text \<open>
  C1: A hard kill is sticky.  Once the kill switch is set, no sequence of operations that contains
  no explicit reset of the hard kill (day changes, status reads, recorded wins of any size,
  position events) clears it, and in every state so reached trading is refused and the reported
  status is HARD_KILL.
\<close>

theorem hard_kill_sticky:
  assumes "rs_kill_switch (re_state e)"
    and "RE_reset_hard_kill \<notin> set evs" and "RE_deactivate_kill \<notin> set evs"
  shows "rs_kill_switch (re_state (risk_run evs e)) \<and>
    snd (can_trade now (risk_run evs e)) = (False, V_HARD_KILL) \<and>
    snd (get_risk_status now (risk_run evs e)) = RISK_HARD_KILL"
proof -
  have "rs_kill_switch (re_state (risk_run evs e))"
    using assms unfolding risk_run_def
  proof (induction evs arbitrary: e)
    case (Cons ev evs)
    have "rs_kill_switch (re_state (risk_apply ev e))"
      using Cons.prems by (intro risk_apply_kill) auto
    then show ?case using Cons.prems by (simp add: Cons.IH)
  qed simp
  then show ?thesis by (simp add: can_trade_def get_risk_status_def Let_def)
qed

theorem hard_kill_sticky_witness:
  "snd (can_trade day_us
      (risk_run [RE_record 50 0, RE_can_trade day_us]
         (activate_kill_switch (new_risk_engine default_risk_config 10000 0)))) = (False, V_HARD_KILL)"
proof -
  let ?e = "activate_kill_switch (new_risk_engine default_risk_config 10000 0)"
  have "rs_kill_switch (re_state ?e)" by simp
  then have "rs_kill_switch (re_state (risk_run [RE_record 50 0, RE_can_trade day_us] ?e)) \<and>
    snd (can_trade day_us (risk_run [RE_record 50 0, RE_can_trade day_us] ?e)) = (False, V_HARD_KILL) \<and>
    snd (get_risk_status day_us (risk_run [RE_record 50 0, RE_can_trade day_us] ?e)) = RISK_HARD_KILL"
    by (rule hard_kill_sticky) simp_all
  then show ?thesis by (elim conjE)
qed

text \<open>
  C9: In every engine reachable from a fresh one by any sequence of operations, the equity never
  exceeds the recorded peak, the drawdown, the number of open positions and the counters are
  never negative, a cooldown is pending only while the streak of losses is long enough, and a
  losing streak below the threshold can therefore never block trading; a maximum-drawdown breach
  recorded by a trade sets the kill switch.
\<close>

theorem risk_engine_invariant:
  "risk_inv (risk_run evs (new_risk_engine c eq today)) \<and>
   (rc_max_drawdown_pct c \<le>
      rs_current_drawdown_pct (re_state (record_trade_result p t (risk_run evs (new_risk_engine c eq today))))
    \<longrightarrow> rs_kill_switch (re_state (record_trade_result p t (risk_run evs (new_risk_engine c eq today)))))"
proof -
  have "re_config (risk_run evs e) = re_config e" for e
    unfolding risk_run_def by (induction evs arbitrary: e) (simp_all add: risk_apply_config)
  then show ?thesis
    by (simp add: risk_inv_run risk_inv_new record_kill) (simp add: new_risk_engine_def)
qed

theorem risk_engine_invariant_witness:
  "rs_kill_switch (re_state (record_trade_result (- 20) 5
      (risk_run [] (new_risk_engine default_risk_config 10000 0))))"
proof -
  have "rc_max_drawdown_pct default_risk_config \<le>
      rs_current_drawdown_pct (re_state (record_trade_result (- 20) 5
        (risk_run [] (new_risk_engine default_risk_config 10000 0))))"
    by code_simp
  with risk_engine_invariant [of "[]" default_risk_config 10000 0 "- 20" 5] show ?thesis by blast
qed

text \<open>
  The cooldown window is exact.  A losing trade recorded at time t that brings the streak to the
  configured number blocks trading at every instant before t plus the configured minutes, and is
  no longer a cooldown from that instant on.
\<close>

theorem cooldown_window:
  assumes "p < 0"
    and "rc_cooldown_consecutive_losses (re_config e) \<le> rs_consecutive_losses (re_state e) + 1"
  shows "(now < t + rc_cooldown_minutes (re_config e) * minute_us \<longrightarrow>
            \<not> fst (snd (can_trade now (record_trade_result p t e)))) \<and>
         (cooling_down (record_trade_result p t e) now \<longleftrightarrow>
            now < t + rc_cooldown_minutes (re_config e) * minute_us)"
  using assms by (simp add: can_trade_iff cooling_down_def record_streak record_cooldown)

theorem cooldown_window_witness:
  "\<not> fst (snd (can_trade (59 * minute_us)
     (record_trade_result (- 1) 0 (record_trade_result (- 1) 0 (record_trade_result (- 1) 0
        (new_risk_engine default_risk_config 10000 0))))))"
proof -
  let ?e = "record_trade_result (- 1) 0 (record_trade_result (- 1) 0 (new_risk_engine default_risk_config 10000 0))"
  have streak: "rc_cooldown_consecutive_losses (re_config ?e) \<le> rs_consecutive_losses (re_state ?e) + 1"
    unfolding record_streak record_config
    by (simp add: new_risk_engine_def new_risk_state_def default_risk_config_def)
  have window: "59 * minute_us < 0 + rc_cooldown_minutes (re_config ?e) * minute_us"
    unfolding record_config by (simp add: new_risk_engine_def minute_us_def default_risk_config_def)
  have neg: "(- 1 :: f64) < 0" by simp
  from cooldown_window [OF neg streak] window show ?thesis by blast
qed

text \<open>
  The daily loss limit lifts by itself.  When trading is refused for the daily loss, and no
  other gate holds at a later time of another day, trading is allowed at that later time.
\<close>

theorem daily_limit_lifts:
  assumes "snd (can_trade t e) = (False, V_DAILY_LIMIT loss)"
    and "dt_date t < dt_date t'"
    and "0 < rc_max_daily_loss_pct (re_config e)" and "0 < rc_max_daily_trades (re_config e)"
    and "rs_positions_open (re_state e) < rc_max_positions (re_config e)"
    and "\<not> cooling_down e t'"
  shows "snd (can_trade t' (fst (can_trade t e))) = (True, V_OK)"
proof -
  have "\<not> rs_kill_switch (re_state e)"
    using assms(1) by (auto simp: can_trade_def Let_def split: if_splits)
  moreover have "reset_daily t' (reset_daily t e) =
      (reset_daily t e)\<lparr>re_state := (re_state (reset_daily t e))\<lparr>rs_daily_pnl_pct := 0, rs_daily_trades := 0\<rparr>,
        re_trade_date := dt_date t'\<rparr>"
    using assms(2) by (simp add: reset_daily_def [of t'])
  ultimately have "fst (snd (can_trade t' (fst (can_trade t e))))"
    using assms(3-6) by (simp add: can_trade_iff)
  then show ?thesis by (metis can_trade_verdict prod.collapse)
qed

theorem daily_limit_lifts_witness:
  "snd (can_trade day_us (fst (can_trade 0
      (record_trade_result (- 3) 0 (new_risk_engine default_risk_config 10000 0))))) = (True, V_OK)"
proof -
  let ?e = "record_trade_result (- 3) 0 (new_risk_engine default_risk_config 10000 0)"
  have "snd (can_trade 0 ?e) = (False, V_DAILY_LIMIT (- 3))" by code_simp
  moreover have "dt_date 0 < dt_date day_us" by code_simp
  moreover have "\<not> cooling_down ?e day_us" by code_simp
  ultimately show ?thesis
    by (intro daily_limit_lifts [where loss = "- 3"])
      (simp_all add: new_risk_engine_def default_risk_config_def new_risk_state_def)
qed

text \<open>
  C38: A computed position size respects both caps.  For an equity of at least one, a risk of at
  least a basis point per trade and prices below a trillion, the notional of the size at the entry
  price is at most the equity times the capped leverage, and the amount lost over the (rounded)
  stop distance is at most the configured share of the equity times the leverage, each up to the
  relative error of the two, respectively four, roundings of the computation.
\<close>

theorem position_size_bounded:
  assumes size: "calculate_position_size e entry sl lev = Inr q" and "0 < entry" "entry \<le> 10 ^ 12"
    and dist: "\<bar>fsub entry sl\<bar> \<le> 10 ^ 12"
    and equity: "1 \<le> rs_current_equity (re_state e)"
    and pct: "1 / 100 \<le> rc_risk_per_trade_pct (re_config e)"
    and lev: "1 \<le> lev" "1 \<le> rc_max_leverage (re_config e)" "rc_max_leverage (re_config e) \<le> 2 ^ 53"
  shows "q * entry \<le> rs_current_equity (re_state e) * of_int (min lev (rc_max_leverage (re_config e)))
                       * (1 + 1 / 2 ^ 53) ^ 2 \<and>
         q * \<bar>fsub entry sl\<bar> \<le> rs_current_equity (re_state e) * (rc_risk_per_trade_pct (re_config e) / 100)
                       * of_int (min lev (rc_max_leverage (re_config e))) * (1 + 1 / 2 ^ 53) ^ 4"
proof (cases "q = 0")
  case True
  then show ?thesis using equity pct lev by simp
next
  case False
  define E where "E = rs_current_equity (re_state e)"
  define p where "p = rc_risk_per_trade_pct (re_config e)"
  define l where "l = (of_int (min lev (rc_max_leverage (re_config e))) :: rat)"
  define r where "r = \<bar>fsub entry sl\<bar>"
  let ?u = "1 + 1 / 2 ^ 53 :: rat"
  have l: "l = float_of_int (min lev (rc_max_leverage (re_config e)))" "1 \<le> l"
    using lev by (simp_all add: l_def float_of_small_int min_def)
  note caps = calculate_position_size_Inr [OF size assms(2) False l(1), folded E_def p_def r_def]
  have r: "0 < r" "r \<le> 10 ^ 12" using caps(1) dist by (simp_all add: r_def)
  have E: "1 \<le> E" and p: "1 / 100 \<le> p" using equity pct by (simp_all add: E_def p_def)
  have notional: "q * entry \<le> E * l * ?u ^ 2"
  proof -
    have El: "1 \<le> E * l" using E l(2) by (metis mult_mono mult_1 zero_le_one order_trans)
    have M: "1 \<le> fmul E l" "fmul E l \<le> E * l * ?u ^ 1"
      using El rounded_step [of "E * l" "E * l" 0] b64.rnd_lower [of 1 "E * l"] by (simp_all add: fmul_def)
    have "1 / 10 ^ 12 \<le> fmul E l / entry" using M(1) assms(2,3) by (intro frac_le) simp_all
    moreover have "fmul E l / entry \<le> E * l / entry * ?u ^ 1"
      using divide_right_mono [OF M(2), of entry] assms(2) by (simp add: field_simps)
    moreover have "1 / 10 ^ 30 \<le> (1 / 10 ^ 12 :: rat)" by simp
    ultimately have "fl (fmul E l / entry) \<le> E * l / entry * ?u ^ Suc 1"
      by (intro rounded_step) (assumption | linarith)+
    then have "fdiv (fmul E l) entry \<le> E * l / entry * ?u ^ 2"
      by (simp only: fdiv_def numeral_2_eq_2 One_nat_def)
    with caps(3) have "q \<le> E * l / entry * ?u ^ 2" by (rule order_trans)
    then show ?thesis using assms(2) by (simp add: field_simps)
  qed
  have risk: "q * r \<le> E * (p / 100) * l * ?u ^ 4"
  proof -
    have f: "fdiv p 100 \<le> p / 100 * ?u ^ 1" "fl (1 / 10 ^ 4) \<le> fdiv p 100"
      using p rounded_step [of "p / 100" "p / 100" 0] fl_mono [of "1 / 10 ^ 4" "p / 100"]
      by (simp_all add: fdiv_def)
    moreover have "1 / 10 ^ 5 \<le> fl (1 / 10 ^ 4)" by code_simp
    ultimately have f: "fdiv p 100 \<le> p / 100 * ?u ^ 1" "1 / 10 ^ 5 \<le> fdiv p 100" by linarith+
    have "1 * (1 / 10 ^ 5) \<le> E * fdiv p 100" using E f(2) by (intro mult_mono) simp_all
    moreover have "E * fdiv p 100 \<le> E * (p / 100) * ?u ^ 1"
      using mult_left_mono [OF f(1), of E] E by (simp add: mult.assoc)
    moreover have "1 / 10 ^ 6 \<le> fl (1 / 10 ^ 5)" by code_simp
    ultimately have A: "fmul E (fdiv p 100) \<le> E * (p / 100) * ?u ^ 2" "1 / 10 ^ 6 \<le> fmul E (fdiv p 100)"
      using rounded_step [of "E * fdiv p 100" "E * (p / 100)" 1] fl_mono [of "1 / 10 ^ 5" "E * fdiv p 100"]
      by (simp_all add: fmul_def numeral_2_eq_2)
    let ?A = "fmul E (fdiv p 100)"
    have "1 / 10 ^ 6 * 1 \<le> ?A * l" using A(2) l(2) by (intro mult_mono) simp_all
    moreover have "?A * l \<le> E * (p / 100) * l * ?u ^ 2"
      using mult_right_mono [OF A(1), of l] l(2) by (simp add: mult_ac)
    moreover have "1 / 10 ^ 7 \<le> fl (1 / 10 ^ 6)" by code_simp
    ultimately have B: "fmul ?A l \<le> E * (p / 100) * l * ?u ^ 3" "1 / 10 ^ 7 \<le> fmul ?A l"
      using rounded_step [of "?A * l" "E * (p / 100) * l" 2] fl_mono [of "1 / 10 ^ 6" "?A * l"]
      by (simp_all add: fmul_def numeral_3_eq_3 numeral_2_eq_2)
    have "1 / 10 ^ 7 / 10 ^ 12 \<le> fmul ?A l / r" using B(2) r by (intro frac_le) simp_all
    then have "fdiv (fmul ?A l) r \<le> E * (p / 100) * l / r * ?u ^ 4"
      using rounded_step [of "fmul ?A l / r" "E * (p / 100) * l / r" 3] divide_right_mono [OF B(1), of r] r(1)
      by (simp add: fdiv_def)
    with caps(2) have "q \<le> E * (p / 100) * l / r * ?u ^ 4" by (rule order_trans)
    then show ?thesis using r(1) by (simp add: pos_le_divide_eq)
  qed
  show ?thesis using notional risk by (simp add: E_def p_def l_def r_def)
qed

theorem position_size_bounded_witness:
  "calculate_position_size (new_risk_engine default_risk_config 10000 0) 100 95 1 = Inr 10 \<and>
   (10::rat) * 100 \<le> 10000 * (1 + 1 / 2 ^ 53) ^ 2"
proof -
  let ?e = "new_risk_engine default_risk_config 10000 0"
  have size: "calculate_position_size ?e 100 95 1 = Inr 10" and dist: "\<bar>fsub 100 95\<bar> \<le> 10 ^ 12"
    by code_simp+
  have "10 * 100 \<le> rs_current_equity (re_state ?e) * of_int (min 1 (rc_max_leverage (re_config ?e)))
      * (1 + 1 / 2 ^ 53 :: rat) ^ 2"
    by (rule conjunct1 [OF position_size_bounded [OF size _ _ dist]])
      (simp_all add: new_risk_engine_def new_risk_state_def default_risk_config_def)
  then show ?thesis using size by (simp add: new_risk_engine_def new_risk_state_def default_risk_config_def)
qed

end
