(* ===== verification/LiveControls.thy ===== *)
theory LiveControls
  imports BotState RiskEngine
begin

text \<open>
  The controls of \<open>services/live_execution/\<close>: the durable emergency stop (\<open>kill_switch.py\<close>), the
  reconciliation with the exchange and its last recorded result (\<open>reconciliation.py\<close>), the daily
  loss limit (\<open>daily_loss.py\<close>), the freshness of order timestamps (\<open>timestamp_safety.py\<close>), the
  idempotency key (\<open>idempotency.py\<close>), the request builders (\<open>order_contract.py\<close>) and the order
  client (\<open>order_client.py\<close>).  What the exchange returns is an argument; an error stands for an
  exception of the call.
\<close>

section \<open>Emergency stop\<close>

definition EMERGENCY_STOP_KEY :: string where "EMERGENCY_STOP_KEY = ''emergency_stop_active''"

definition is_emergency_stop_active :: "db \<Rightarrow> bool" where
  "is_emergency_stop_active d =
     (case bot_get d EMERGENCY_STOP_KEY of
        None \<Rightarrow> False
      | Some v \<Rightarrow> json_truthy (json_get v ''active'' (JBool False)))"

definition get_emergency_stop_detail :: "db \<Rightarrow> json option" where
  "get_emergency_stop_detail d = bot_get d EMERGENCY_STOP_KEY"

definition activate_emergency_stop :: "string \<Rightarrow> datetime \<Rightarrow> db \<Rightarrow> db" where
  "activate_emergency_stop reason now d =
     bot_put EMERGENCY_STOP_KEY
       (JObj [(''active'', JBool True), (''reason'', JStr reason), (''activated_at'', JIso now)]) d"

definition clear_emergency_stop :: "datetime \<Rightarrow> db \<Rightarrow> db" where
  "clear_emergency_stop now d =
     (case bot_get d EMERGENCY_STOP_KEY of
        None \<Rightarrow> d
      | Some _ \<Rightarrow> bot_put EMERGENCY_STOP_KEY (JObj [(''active'', JBool False), (''cleared_at'', JIso now)]) d)"

lemma emergency_activate: "is_emergency_stop_active (activate_emergency_stop r now d)"
  by (simp add: is_emergency_stop_active_def activate_emergency_stop_def bot.get_put_same)

lemma emergency_clear: "\<not> is_emergency_stop_active (clear_emergency_stop now d)"
  by (auto simp: is_emergency_stop_active_def clear_emergency_stop_def bot.get_put split: option.splits)

lemma emergency_other: "k \<noteq> EMERGENCY_STOP_KEY \<Longrightarrow> is_emergency_stop_active (bot_put k v d) = is_emergency_stop_active d"
  by (simp add: is_emergency_stop_active_def bot.get_put)

section \<open>Reconciliation\<close>

definition ENTRY_PRICE_MISMATCH_TOLERANCE_PCT :: f64 where "ENTRY_PRICE_MISMATCH_TOLERANCE_PCT = 1/2"
definition RECONCILIATION_STATE_KEY :: string where
  "RECONCILIATION_STATE_KEY = ''live_execution_last_reconciliation''"

datatype mismatch_kind =
  UNEXPECTED_OPEN_POSITION | MISSING_POSITION | SIDE_MISMATCH | QUANTITY_MISMATCH | ENTRY_PRICE_MISMATCH

record mismatch =
  mm_symbol :: string
  mm_kind :: mismatch_kind

record exchange_position =
  xp_symbol :: string
  xp_side :: "string option"
  xp_quantity :: "f64 option"
  xp_entry_price :: "f64 option"

record reconciliation_report =
  rp_checked_at_ok :: bool
  rp_local_open_symbols :: "string list"
  rp_exchange_open_symbols :: "string list"
  rp_mismatches :: "mismatch list"

definition is_consistent :: "reconciliation_report \<Rightarrow> bool" where
  "is_consistent r \<longleftrightarrow> rp_checked_at_ok r \<and> rp_mismatches r = []"

text \<open>
  \<open>{key(x): x for x in xs}\<close>: the keys in the order of their first occurrence, each with the last
  value.
\<close>

definition dict_by :: "('a \<Rightarrow> 'k) \<Rightarrow> 'a list \<Rightarrow> ('k \<times> 'a) list" where
  "dict_by key xs = map (\<lambda>k. (k, the (find (\<lambda>x. key x = k) (rev xs)))) (rev (remdups (rev (map key xs))))"

definition quantity_tolerance :: f64 where "quantity_tolerance = fl (1 / 10 ^ 9)"

definition side_of :: "exchange_position \<Rightarrow> string" where
  "side_of p = (if xp_side p = Some ''LONG'' \<or> xp_side p = Some ''buy'' then ''LONG'' else ''SHORT'')"

definition quantity_mismatch :: "live_execution \<Rightarrow> exchange_position \<Rightarrow> bool" where
  "quantity_mismatch l p \<longleftrightarrow> (case (lx_quantity l, xp_quantity p) of
     (Some q, Some xq) \<Rightarrow> \<bar>fsub xq q\<bar> > quantity_tolerance | _ \<Rightarrow> False)"

definition entry_mismatch :: "live_execution \<Rightarrow> exchange_position \<Rightarrow> bool" where
  "entry_mismatch l p \<longleftrightarrow> (case (lx_entry_price l, xp_entry_price p) of
     (Some e, Some xe) \<Rightarrow> e > 0 \<and> fmul (fdiv \<bar>fsub xe e\<bar> e) 100 > ENTRY_PRICE_MISMATCH_TOLERANCE_PCT
   | _ \<Rightarrow> False)"

definition compare_position :: "(string \<times> exchange_position) list \<Rightarrow> string \<times> live_execution \<Rightarrow> mismatch list" where
  "compare_position exchange kl =
     (let (symbol, l) = kl
      in case map_of exchange symbol of
           None \<Rightarrow> [\<lparr>mm_symbol = symbol, mm_kind = MISSING_POSITION\<rparr>]
         | Some p \<Rightarrow>
             (if side_of p \<noteq> lx_direction l then [\<lparr>mm_symbol = symbol, mm_kind = SIDE_MISMATCH\<rparr>] else []) @
             (if quantity_mismatch l p then [\<lparr>mm_symbol = symbol, mm_kind = QUANTITY_MISMATCH\<rparr>] else []) @
             (if entry_mismatch l p then [\<lparr>mm_symbol = symbol, mm_kind = ENTRY_PRICE_MISMATCH\<rparr>] else []))"

definition open_live_rows :: "db \<Rightarrow> live_execution list" where
  "open_live_rows d = filter (\<lambda>l. lx_status l \<in> {LX_POSITION_OPEN, LX_PARTIAL_EXIT}) (db_live d)"

definition reconcile_positions :: "db \<Rightarrow> exchange_position list result \<Rightarrow> reconciliation_report" where
  "reconcile_positions d reply =
     (let local = dict_by lx_symbol (open_live_rows d)
      in case reply of
           Inl _ \<Rightarrow> \<lparr>rp_checked_at_ok = False, rp_local_open_symbols = map fst local,
                    rp_exchange_open_symbols = [], rp_mismatches = []\<rparr>
         | Inr positions \<Rightarrow>
             let exchange = dict_by xp_symbol positions;
                 unexpected = map (\<lambda>(s, _). \<lparr>mm_symbol = s, mm_kind = UNEXPECTED_OPEN_POSITION\<rparr>)
                   (filter (\<lambda>(s, _). s \<notin> set (map fst local)) exchange)
             in \<lparr>rp_checked_at_ok = True, rp_local_open_symbols = map fst local,
                 rp_exchange_open_symbols = map fst exchange,
                 rp_mismatches = unexpected @ concat (map (compare_position exchange) local)\<rparr>)"

fun mismatch_kind_text :: "mismatch_kind \<Rightarrow> string" where
  "mismatch_kind_text UNEXPECTED_OPEN_POSITION = ''UNEXPECTED_OPEN_POSITION''"
| "mismatch_kind_text MISSING_POSITION = ''MISSING_POSITION''"
| "mismatch_kind_text SIDE_MISMATCH = ''SIDE_MISMATCH''"
| "mismatch_kind_text QUANTITY_MISMATCH = ''QUANTITY_MISMATCH''"
| "mismatch_kind_text ENTRY_PRICE_MISMATCH = ''ENTRY_PRICE_MISMATCH''"

definition record_reconciliation_result :: "reconciliation_report \<Rightarrow> datetime \<Rightarrow> db \<Rightarrow> db" where
  "record_reconciliation_result r now d =
     bot_put RECONCILIATION_STATE_KEY
       (JObj [(''is_consistent'', JBool (is_consistent r)), (''checked_at_ok'', JBool (rp_checked_at_ok r)),
              (''mismatch_count'', JInt (int (length (rp_mismatches r)))),
              (''mismatches'', JArr (map (\<lambda>m. JObj [(''symbol'', JStr (mm_symbol m)),
                 (''kind'', JStr (mismatch_kind_text (mm_kind m)))]) (rp_mismatches r))),
              (''recorded_at'', JIso now)]) d"

datatype reconciliation_reason = RC_OK | RC_NEVER_RUN | RC_READ_FAILURE | RC_DISCREPANCIES json

definition get_last_reconciliation_status :: "db \<Rightarrow> bool \<times> reconciliation_reason" where
  "get_last_reconciliation_status d =
     (case bot_get d RECONCILIATION_STATE_KEY of
        None \<Rightarrow> (False, RC_NEVER_RUN)
      | Some v \<Rightarrow>
          if \<not> json_truthy (json_get v ''checked_at_ok'' (JBool False)) then (False, RC_READ_FAILURE)
          else if \<not> json_truthy (json_get v ''is_consistent'' (JBool False))
            then (False, RC_DISCREPANCIES (json_get v ''mismatch_count'' (JStr ''?'')))
          else (True, RC_OK))"

lemma last_reconciliation:
  "fst (get_last_reconciliation_status (record_reconciliation_result r now d)) = is_consistent r"
  by (simp add: get_last_reconciliation_status_def record_reconciliation_result_def bot.get_put_same
      is_consistent_def)

lemma fst_dict_by [simp]: "fst ` set (dict_by key xs) = key ` set xs"
proof -
  have "set (map fst (dict_by key xs)) = key ` set xs" by (simp add: dict_by_def comp_def)
  then show ?thesis by simp
qed

lemma distinct_dict_by: "distinct (map fst (dict_by key xs))"
  by (simp add: dict_by_def comp_def)

lemma dict_by_value:
  assumes "(k, x) \<in> set (dict_by key xs)"
  shows "x \<in> set xs \<and> key x = k"
proof -
  have k: "k \<in> key ` set xs" and x: "x = the (find (\<lambda>x. key x = k) (rev xs))"
    using assms by (auto simp: dict_by_def)
  then have "find (\<lambda>x. key x = k) (rev xs) \<noteq> None" by (auto simp: find_None_iff)
  then obtain y where y: "find (\<lambda>x. key x = k) (rev xs) = Some y" by blast
  then have "y \<in> set xs \<and> key y = k" using find_Some_iff_first by fastforce
  then show ?thesis using x y by simp
qed

lemma dict_by_distinct:
  assumes "distinct (map key xs)"
  shows "set (dict_by key xs) = (\<lambda>x. (key x, x)) ` set xs"
proof (intro set_eqI iffI)
  fix kx assume kx: "kx \<in> set (dict_by key xs)"
  obtain k x where e: "kx = (k, x)" by fastforce
  show "kx \<in> (\<lambda>x. (key x, x)) ` set xs" using dict_by_value [OF kx [unfolded e]] by (force simp: e)
next
  fix kx assume "kx \<in> (\<lambda>x. (key x, x)) ` set xs"
  then obtain x where x: "x \<in> set xs" "kx = (key x, x)" by auto
  then have "key x \<in> fst ` set (dict_by key xs)" by simp
  then obtain y where y: "(key x, y) \<in> set (dict_by key xs)" by force
  then have "y \<in> set xs \<and> key y = key x" by (rule dict_by_value)
  with assms x(1) have "y = x" by (metis distinct_map inj_on_eq_iff)
  with y x(2) show "kx \<in> set (dict_by key xs)" by simp
qed

section \<open>Daily loss\<close>

definition DEFAULT_MAX_DAILY_LOSS_PCT :: f64 where
  "DEFAULT_MAX_DAILY_LOSS_PCT = rc_max_daily_loss_pct default_risk_config"

datatype daily_loss_reason = DL_OK | DL_NO_EQUITY | DL_LIMIT f64 f64

record daily_loss_check =
  dl_approved :: bool
  dl_reason :: daily_loss_reason
  dl_realized_pnl_inr_today :: f64
  dl_account_equity_inr :: "f64 option"
  dl_loss_limit_inr :: "f64 option"

definition closed_live_today :: "db \<Rightarrow> datetime \<Rightarrow> trade list" where
  "closed_live_today d now =
     filter (\<lambda>t. tr_mode t = ''live'' \<and> tr_status t = TS_CLOSED \<and>
       (case tr_exit_time t of None \<Rightarrow> False
        | Some e \<Rightarrow> day_start now \<le> e \<and> e < day_start now + day_us)) (db_trades d)"

definition check_daily_loss_limit :: "db \<Rightarrow> f64 option \<Rightarrow> datetime \<Rightarrow> f64 \<Rightarrow> daily_loss_check" where
  "check_daily_loss_limit d total_equity now max_daily_loss_pct =
     (case total_equity of
        None \<Rightarrow> \<lparr>dl_approved = False, dl_reason = DL_NO_EQUITY, dl_realized_pnl_inr_today = 0,
                dl_account_equity_inr = None, dl_loss_limit_inr = None\<rparr>
      | Some equity \<Rightarrow>
          let realized_pnl = fsum (map (\<lambda>t. or_zero (tr_pnl t)) (closed_live_today d now));
              loss_limit = - \<bar>fmul equity (fdiv max_daily_loss_pct 100)\<bar>
          in \<lparr>dl_approved = (\<not> realized_pnl \<le> loss_limit),
              dl_reason = (if realized_pnl \<le> loss_limit then DL_LIMIT realized_pnl loss_limit else DL_OK),
              dl_realized_pnl_inr_today = realized_pnl, dl_account_equity_inr = Some equity,
              dl_loss_limit_inr = Some loss_limit\<rparr>)"

section \<open>Timestamps\<close>

definition ORDER_TIMESTAMP_MAX_AGE_SECONDS :: int where "ORDER_TIMESTAMP_MAX_AGE_SECONDS = 10"
definition SAFE_SUBMISSION_MARGIN_SECONDS :: int where "SAFE_SUBMISSION_MARGIN_SECONDS = 3"

datatype timestamp_reason = TS_CHECK_OK | TS_FUTURE f64 | TS_TOO_OLD f64

record timestamp_check =
  tc_ok :: bool
  tc_reason :: timestamp_reason
  tc_age_seconds :: f64

definition current_order_timestamp_ms :: "f64 \<Rightarrow> int" where
  "current_order_timestamp_ms now = round_half_even (fmul now 1000)"

definition is_order_timestamp_fresh :: "int \<Rightarrow> f64 \<Rightarrow> timestamp_check" where
  "is_order_timestamp_fresh built_at_ms now =
     (let now_ms = current_order_timestamp_ms now;
          age_seconds = fdiv (float_of_int (now_ms - built_at_ms)) 1000
      in if age_seconds < 0 then \<lparr>tc_ok = False, tc_reason = TS_FUTURE age_seconds, tc_age_seconds = age_seconds\<rparr>
         else if age_seconds > of_int (ORDER_TIMESTAMP_MAX_AGE_SECONDS - SAFE_SUBMISSION_MARGIN_SECONDS)
           then \<lparr>tc_ok = False, tc_reason = TS_TOO_OLD age_seconds, tc_age_seconds = age_seconds\<rparr>
         else \<lparr>tc_ok = True, tc_reason = TS_CHECK_OK, tc_age_seconds = age_seconds\<rparr>)"

section \<open>Idempotency keys\<close>

text \<open>\<open>if signal_id\<close> is false for \<open>None\<close> and the empty text; \<open>s or d\<close> likewise.\<close>

definition text_or :: "string option \<Rightarrow> string \<Rightarrow> string" where
  "text_or s d = (case s of None \<Rightarrow> d | Some t \<Rightarrow> if t = [] then d else t)"

definition compute_idempotency_key ::
  "string \<Rightarrow> string \<Rightarrow> string option \<Rightarrow> string option \<Rightarrow> string option \<Rightarrow> string" where
  "compute_idempotency_key source symbol signal_id strategy_or_channel candle_timestamp =
     (if text_or signal_id [] \<noteq> [] then source @ '':'' @ symbol @ '':'' @ text_or signal_id []
      else source @ '':'' @ symbol @ '':'' @ text_or strategy_or_channel ''unknown'' @ '':'' @
           text_or candle_timestamp ''unknown'')"

section \<open>Request builders\<close>

definition ORDER_SIDES :: "string list" where "ORDER_SIDES = [''buy'', ''sell'']"
definition ORDER_TYPES :: "string list" where
  "ORDER_TYPES = [''market'', ''limit'', ''stop_limit'', ''stop_market'', ''take_profit_limit'', ''take_profit_market'']"
definition TIME_IN_FORCE_OPTIONS :: "string list" where
  "TIME_IN_FORCE_OPTIONS = [''good_till_cancel'', ''fill_or_kill'', ''immediate_or_cancel'']"
definition POSITION_MARGIN_TYPES :: "string list" where "POSITION_MARGIN_TYPES = [''isolated'', ''crossed'']"

definition num_or_null :: "f64 option \<Rightarrow> json" where
  "num_or_null x = (case x of None \<Rightarrow> JNull | Some v \<Rightarrow> JNum v)"

definition build_create_order_request ::
  "int \<Rightarrow> string \<Rightarrow> string \<Rightarrow> f64 \<Rightarrow> int option \<Rightarrow> string \<Rightarrow> f64 option \<Rightarrow> f64 option \<Rightarrow> string
     \<Rightarrow> string option \<Rightarrow> string \<Rightarrow> string option \<Rightarrow> json result" where
  "build_create_order_request timestamp_ms side pair total_quantity leverage order_type price stop_price
       notification time_in_force margin_currency position_margin_type =
     (if side \<notin> set ORDER_SIDES then Inl ValueError
      else if order_type \<notin> set ORDER_TYPES then Inl ValueError
      else if order_type \<noteq> ''market'' \<and> (case time_in_force of None \<Rightarrow> False | Some t \<Rightarrow> t \<notin> set TIME_IN_FORCE_OPTIONS)
        then Inl ValueError
      else if (case position_margin_type of None \<Rightarrow> False | Some t \<Rightarrow> t \<notin> set POSITION_MARGIN_TYPES)
        then Inl ValueError
      else Inr (JObj [(''timestamp'', JInt timestamp_ms), (''order'', JObj (
        [(''side'', JStr side), (''pair'', JStr pair), (''order_type'', JStr order_type),
         (''price'', if order_type = ''market'' then JNull else num_or_null price),
         (''total_quantity'', JNum total_quantity), (''notification'', JStr notification),
         (''hidden'', JBool False), (''post_only'', JBool False),
         (''margin_currency_short_name'', JStr margin_currency)] @
        (case stop_price of None \<Rightarrow> [] | Some p \<Rightarrow> [(''stop_price'', JNum p)]) @
        (case leverage of None \<Rightarrow> [] | Some l \<Rightarrow> [(''leverage'', JInt l)]) @
        (if order_type \<noteq> ''market''
         then (case time_in_force of None \<Rightarrow> [] | Some t \<Rightarrow> [(''time_in_force'', JStr t)]) else []) @
        (case position_margin_type of None \<Rightarrow> [] | Some t \<Rightarrow> [(''position_margin_type'', JStr t)])))]))"

text \<open>The text form of a number (\<open>str\<close>) is an argument.\<close>

definition build_update_leverage_request ::
  "(int \<Rightarrow> string) \<Rightarrow> int \<Rightarrow> int \<Rightarrow> string option \<Rightarrow> string option \<Rightarrow> string \<Rightarrow> json result" where
  "build_update_leverage_request str_int timestamp_ms leverage pair position_id margin_currency =
     (let p = text_or pair []; i = text_or position_id []
      in if (p \<noteq> []) = (i \<noteq> []) then Inl ValueError
         else Inr (JObj ([(''timestamp'', JInt timestamp_ms), (''leverage'', JStr (str_int leverage)),
                (''margin_currency_short_name'', JStr margin_currency)] @
                (if p \<noteq> [] then [(''pair'', JStr p)] else [(''id'', JStr i)]))))"

definition build_create_tpsl_request :: "(f64 \<Rightarrow> string) \<Rightarrow> int \<Rightarrow> string \<Rightarrow> f64 \<Rightarrow> f64 \<Rightarrow> json" where
  "build_create_tpsl_request str_float timestamp_ms position_id tp sl =
     JObj [(''timestamp'', JInt timestamp_ms), (''id'', JStr position_id),
       (''take_profit'', JObj [(''stop_price'', JStr (str_float tp)), (''order_type'', JStr ''take_profit_market'')]),
       (''stop_loss'', JObj [(''stop_price'', JStr (str_float sl)), (''order_type'', JStr ''stop_market'')])]"

definition build_exit_position_request :: "int \<Rightarrow> string \<Rightarrow> json" where
  "build_exit_position_request timestamp_ms position_id =
     JObj [(''timestamp'', JInt timestamp_ms), (''id'', JStr position_id)]"

section \<open>The order client\<close>

definition submit_futures_order ::
  "string \<Rightarrow> string \<Rightarrow> f64 \<Rightarrow> int \<Rightarrow> f64 option \<Rightarrow> f64 option \<Rightarrow> string option \<Rightarrow> json result" where
  "submit_futures_order instrument side quantity leverage stop_loss take_profit client_order_id =
     Inl OrderContractNotVerifiedError"

section \<open>Lemmas for the properties\<close>

lemma map_of_dict_by:
  assumes "distinct (map key xs)"
  shows "map_of (dict_by key xs) k = find (\<lambda>x. key x = k) xs"
proof (cases "find (\<lambda>x. key x = k) xs")
  case None
  then have "k \<notin> key ` set xs" by (auto simp: find_None_iff)
  then have "k \<notin> fst ` set (dict_by key xs)" using fst_dict_by [of key xs] by simp
  then show ?thesis using None by (simp add: map_of_eq_None_iff)
next
  case (Some x)
  then have "x \<in> set xs" "key x = k" using find_Some_iff_first [OF Some] by simp_all
  then have "(k, x) \<in> set (dict_by key xs)" by (force simp: dict_by_distinct [OF assms])
  then have "map_of (dict_by key xs) k = Some x" using distinct_dict_by [of key xs] by (simp add: map_of_eq_Some_iff)
  then show ?thesis using Some by simp
qed

lemma find_distinct_Some:
  "distinct (map key xs) \<Longrightarrow> x \<in> set xs \<Longrightarrow> find (\<lambda>y. key y = key x) xs = Some x"
  using lookup_by_distinct [of key xs x] by (simp add: lookup_by_def)

definition agrees :: "live_execution \<Rightarrow> exchange_position \<Rightarrow> bool" where
  "agrees l p \<longleftrightarrow> side_of p = lx_direction l \<and> \<not> quantity_mismatch l p \<and> \<not> entry_mismatch l p"

lemma compare_position_Nil:
  "compare_position exchange (s, l) = [] \<longleftrightarrow> (\<exists>p. map_of exchange s = Some p \<and> agrees l p)"
  by (auto simp: compare_position_def agrees_def split: option.splits)

lemma colon_split:
  assumes "CHR '':'' \<notin> set a" "CHR '':'' \<notin> set b" "a @ CHR '':'' # x = b @ CHR '':'' # y"
  shows "a = b \<and> x = y"
  using assms
proof (induction a arbitrary: b)
  case Nil
  then show ?case by (cases b) auto
next
  case (Cons c a)
  then show ?case by (cases b) auto
qed

section \<open>Properties\<close>


definition demo_live :: live_execution where
  "demo_live = \<lparr>lx_idempotency_key = ''k'', lx_source = ''TELEGRAM_EXTERNAL'', lx_signal_id = None,
     lx_symbol = ''BTC/USDT'', lx_instrument = None, lx_direction = ''LONG'', lx_status = LX_POSITION_OPEN,
     lx_rejected_by = None, lx_gate_results = None, lx_entry_price = None, lx_stop_loss = None,
     lx_take_profit_1 = None, lx_take_profit_2 = None, lx_take_profit_3 = None, lx_quantity = None\<rparr>"


text \<open>
  Idempotency keys identify the signal.  For sources and symbols without a colon, two
  candidates that carry a non-empty signal identifier get the same key only if source, symbol and
  identifier are all the same; without an identifier, a strategy and a candle time, every
  candidate of the same source and symbol gets the same key.
\<close>

theorem idempotency_key_exact:
  assumes "CHR '':'' \<notin> set s1" "CHR '':'' \<notin> set s2" "CHR '':'' \<notin> set y1" "CHR '':'' \<notin> set y2"
    and "i1 \<noteq> []" "i2 \<noteq> []"
  shows "(compute_idempotency_key s1 y1 (Some i1) st1 c1 = compute_idempotency_key s2 y2 (Some i2) st2 c2 \<longleftrightarrow>
      s1 = s2 \<and> y1 = y2 \<and> i1 = i2) \<and>
    compute_idempotency_key s1 y1 None None None = compute_idempotency_key s1 y1 (Some []) (Some []) None"
proof -
  have "s1 = s2 \<and> y1 = y2 \<and> i1 = i2"
    if "s1 @ CHR '':'' # y1 @ CHR '':'' # i1 = s2 @ CHR '':'' # y2 @ CHR '':'' # i2"
    using colon_split [OF assms(1,2) that] colon_split [OF assms(3,4)] by blast
  then show ?thesis using assms(5,6) by (auto simp: compute_idempotency_key_def text_or_def)
qed

theorem idempotency_key_exact_witness:
  "compute_idempotency_key ''TELEGRAM_EXTERNAL'' ''BTC/USDT'' (Some ''1'') None None \<noteq>
   compute_idempotency_key ''TELEGRAM_EXTERNAL'' ''BTC/USDT'' (Some ''2'') None None"
  using idempotency_key_exact [of "''TELEGRAM_EXTERNAL''" "''TELEGRAM_EXTERNAL''" "''BTC/USDT''" "''BTC/USDT''" "''1''" "''2''"]
  by simp

text \<open>
  The freshness window of an order timestamp is exact to the millisecond: a request is fresh
  exactly when it was built at most seven seconds before now and not after now, although the age
  is computed in floating point.
\<close>

theorem order_timestamp_window:
  assumes "\<bar>current_order_timestamp_ms now - built\<bar> \<le> 2 ^ 53"
  shows "tc_ok (is_order_timestamp_fresh built now) \<longleftrightarrow>
    0 \<le> current_order_timestamp_ms now - built \<and> current_order_timestamp_ms now - built \<le> 7000"
proof -
  define n where "n = current_order_timestamp_ms now - built"
  let ?n = n
  let ?age = "fl (of_int ?n / 1000)"
  have fresh: "tc_ok (is_order_timestamp_fresh built now) \<longleftrightarrow> 0 \<le> ?age \<and> ?age \<le> 7"
    using assms unfolding is_order_timestamp_fresh_def Let_def n_def [symmetric]
    by (simp add: fdiv_def float_of_int_def fl_of_int
        ORDER_TIMESTAMP_MAX_AGE_SECONDS_def SAFE_SUBMISSION_MARGIN_SECONDS_def not_less)
  have neg: "?age < 0" if "?n \<le> - 1"
  proof -
    have "(of_int ?n :: rat) / 1000 \<le> - 1 / 1000" using that by simp
    then have "?age \<le> fl (- 1 / 1000)" by (rule fl_mono)
    also have "\<dots> < 0" by code_simp
    finally show ?thesis .
  qed
  have late: "7 < ?age" if "7001 \<le> ?n"
  proof -
    have "(7 :: rat) < fl (7001 / 1000)" by code_simp
    also have "(7001 :: rat) / 1000 \<le> of_int ?n / 1000" using that by simp
    then have "fl (7001 / 1000) \<le> ?age" by (rule fl_mono)
    finally show ?thesis .
  qed
  have within: "0 \<le> ?age \<and> ?age \<le> 7" if "0 \<le> ?n" "?n \<le> 7000"
  proof -
    have "0 \<le> (of_int ?n :: rat) / 1000" "(of_int ?n :: rat) / 1000 \<le> 7" using that by simp_all
    then show ?thesis using fl_mono [of "of_int ?n / 1000" 7] fl_numeral [of "num.Bit1 (num.Bit1 num.One)"]
      by (auto intro: fl_nonneg)
  qed
  consider "n \<le> - 1" | "7001 \<le> n" | "0 \<le> n" "n \<le> 7000" by linarith
  then show ?thesis unfolding fresh n_def [symmetric]
    by cases (use neg late within in force)+
qed

theorem order_timestamp_window_witness:
  "\<not> tc_ok (is_order_timestamp_fresh 0 (fl (7001 / 1000)))"
proof -
  have n: "current_order_timestamp_ms (fl (7001 / 1000)) = 7001" by code_simp
  show ?thesis using order_timestamp_window [of "fl (7001 / 1000)" 0] by (simp only: n) simp
qed

end
