(* ===== verification/Scanner.thy ===== *)
theory Scanner
  imports Schema
begin

text \<open>
  \<open>services/scanner/multi_coin.py\<close>, \<open>services/exchange/fx.py\<close> and the relevant part of
  \<open>apps/api/config.py\<close>: the settings, the availability of an instrument on the public ticker,
  and the USDT/INR rate with its cache.  The reply of a remote service is an argument; \<open>None\<close>
  stands for a request that failed with an HTTP error.
\<close>

section \<open>Settings\<close>

record settings =
  st_automatic_trading_enabled :: bool
  st_live_execution_armed :: bool
  st_max_open_positions_live :: int
  st_signal_channel :: string
  st_signal_channel_id :: string

definition default_settings :: settings where
  "default_settings =
     \<lparr>st_automatic_trading_enabled = False, st_live_execution_armed = False,
      st_max_open_positions_live = 1, st_signal_channel = ''@suncrypto_trading_alerts'',
      st_signal_channel_id = []\<rparr>"

section \<open>Text\<close>

definition upper_char :: "char \<Rightarrow> char" where
  "upper_char c = (if CHR ''a'' \<le> c \<and> c \<le> CHR ''z'' then char_of (of_char c - 32 :: nat) else c)"

definition lower_char :: "char \<Rightarrow> char" where
  "lower_char c = (if CHR ''A'' \<le> c \<and> c \<le> CHR ''Z'' then char_of (of_char c + 32 :: nat) else c)"

definition str_upper :: "string \<Rightarrow> string" where "str_upper = map upper_char"
definition str_lower :: "string \<Rightarrow> string" where "str_lower = map lower_char"

definition is_space :: "char \<Rightarrow> bool" where
  "is_space c \<longleftrightarrow>
     c \<in> {CHR '' '', CHR 0x09, CHR 0x0A, CHR 0x0B, CHR 0x0C, CHR 0x0D, CHR 0x1C, CHR 0x1D, CHR 0x1E, CHR 0x1F}"

definition str_strip :: "string \<Rightarrow> string" where
  "str_strip s = rev (dropWhile is_space (rev (dropWhile is_space s)))"

section \<open>The scanner\<close>

definition MIN_24H_VOLUME_USDT :: f64 where "MIN_24H_VOLUME_USDT = 10000000"
definition MAX_TICK_AGE_SECONDS :: f64 where "MAX_TICK_AGE_SECONDS = 120"

definition DEFAULT_WHITELIST :: "string list" where
  "DEFAULT_WHITELIST = [''BTC/USDT'', ''ETH/USDT'', ''SOL/USDT'', ''XRP/USDT'']"

definition RESEARCHED_SYMBOLS :: "string list" where "RESEARCHED_SYMBOLS = [''BTC/USDT'']"

definition to_coindcx_instrument :: "string \<Rightarrow> string" where
  "to_coindcx_instrument symbol =
     ''B-'' @ str_upper (takeWhile (\<lambda>c. c \<noteq> CHR ''/'') symbol) @ ''_USDT''"

record availability =
  av_symbol :: string
  av_instrument :: string
  av_available :: bool
  av_last_price :: "f64 option"
  av_funding_rate :: "f64 option"
  av_mark_price :: "f64 option"
  av_volume_24h :: "f64 option"
  av_tick_age_seconds :: "f64 option"

definition is_liquid :: "availability \<Rightarrow> bool" where
  "is_liquid a \<longleftrightarrow> (case av_volume_24h a of None \<Rightarrow> False | Some v \<Rightarrow> v \<ge> MIN_24H_VOLUME_USDT)"

definition is_fresh :: "availability \<Rightarrow> bool" where
  "is_fresh a \<longleftrightarrow> (case av_tick_age_seconds a of None \<Rightarrow> False | Some t \<Rightarrow> t \<le> MAX_TICK_AGE_SECONDS)"

text \<open>One row of the ticker reply: \<open>ctRT\<close>, \<open>ls\<close>, \<open>fr\<close>, \<open>mp\<close>, \<open>v\<close>.\<close>

record ticker =
  tk_time_ms :: "f64 option"
  tk_last :: "f64 option"
  tk_funding :: "f64 option"
  tk_mark :: "f64 option"
  tk_volume :: "f64 option"

definition unavailable_instrument :: "string \<Rightarrow> availability" where
  "unavailable_instrument symbol =
     \<lparr>av_symbol = symbol, av_instrument = to_coindcx_instrument symbol, av_available = False,
      av_last_price = None, av_funding_rate = None, av_mark_price = None, av_volume_24h = None,
      av_tick_age_seconds = None\<rparr>"

definition instrument_availability :: "f64 \<Rightarrow> (string \<times> ticker) list \<Rightarrow> string \<Rightarrow> availability" where
  "instrument_availability now prices symbol =
     (case map_of prices (to_coindcx_instrument symbol) of
        None \<Rightarrow> unavailable_instrument symbol
      | Some t \<Rightarrow>
          \<lparr>av_symbol = symbol, av_instrument = to_coindcx_instrument symbol, av_available = True,
           av_last_price = tk_last t, av_funding_rate = tk_funding t, av_mark_price = tk_mark t,
           av_volume_24h = tk_volume t,
           av_tick_age_seconds = map_option (\<lambda>ms. fdiv (fsub (fmul now 1000) ms) 1000) (tk_time_ms t)\<rparr>)"

definition check_instrument_availability ::
  "f64 \<Rightarrow> (string \<times> ticker) list option \<Rightarrow> string list \<Rightarrow> availability list" where
  "check_instrument_availability now reply symbols =
     (case reply of
        None \<Rightarrow> map unavailable_instrument symbols
      | Some prices \<Rightarrow> map (instrument_availability now prices) symbols)"

datatype scan_status = INSTRUMENT_UNAVAILABLE | INELIGIBLE_STALE_DATA | INELIGIBLE_LIQUIDITY | NOT_VALIDATED | SCORED

record scan_result =
  sr_symbol :: string
  sr_status :: scan_status
  sr_available :: bool
  sr_last_price :: "f64 option"

definition scan_symbol :: "string \<Rightarrow> availability \<Rightarrow> scan_result" where
  "scan_symbol symbol a =
     (if \<not> av_available a then
        \<lparr>sr_symbol = symbol, sr_status = INSTRUMENT_UNAVAILABLE, sr_available = False, sr_last_price = None\<rparr>
      else \<lparr>sr_symbol = symbol,
        sr_status = (if \<not> is_fresh a then INELIGIBLE_STALE_DATA
                     else if \<not> is_liquid a then INELIGIBLE_LIQUIDITY
                     else if symbol \<notin> set RESEARCHED_SYMBOLS then NOT_VALIDATED else SCORED),
        sr_available = True, sr_last_price = av_last_price a\<rparr>)"

definition scan_whitelist :: "f64 \<Rightarrow> (string \<times> ticker) list option \<Rightarrow> string list option \<Rightarrow> scan_result list" where
  "scan_whitelist now reply symbols =
     (let ss = (case symbols of None \<Rightarrow> DEFAULT_WHITELIST | Some s \<Rightarrow> if s = [] then DEFAULT_WHITELIST else s);
          avs = check_instrument_availability now reply ss
      in map (\<lambda>(s, a). scan_symbol s a) (zip ss avs))"

section \<open>The conversion rate\<close>

definition FX_STALE_AFTER_SECONDS :: f64 where "FX_STALE_AFTER_SECONDS = 300"
definition FX_CACHE_TTL_SECONDS :: f64 where "FX_CACHE_TTL_SECONDS = 30"

record conversion_rate =
  cv_rate :: f64
  cv_rate_timestamp :: f64
  cv_fetched_at :: f64

definition rate_status :: "conversion_rate \<Rightarrow> f64 \<Rightarrow> connection_state" where
  "rate_status r now = (if fsub now (cv_fetched_at r) > FX_STALE_AFTER_SECONDS then CN_STALE else CN_LIVE)"

text \<open>
  A ticker row is its market, its price text read by \<open>float\<close> (an error stands for a value that
  \<open>float\<close> rejects or a missing key) and its optional timestamp read the same way.
\<close>

record fx_row =
  fx_market :: "string option"
  fx_last_price :: "f64 result"
  fx_timestamp :: "f64 result option"

fun fx_rate_from_rows :: "fx_row list \<Rightarrow> f64 \<Rightarrow> conversion_rate option" where
  "fx_rate_from_rows [] now = None"
| "fx_rate_from_rows (r # rs) now =
     (if fx_market r = Some ''USDTINR'' then
        (case fx_last_price r of
           Inl _ \<Rightarrow> None
         | Inr rate \<Rightarrow> (case fx_timestamp r of
             None \<Rightarrow> Some \<lparr>cv_rate = rate, cv_rate_timestamp = now, cv_fetched_at = now\<rparr>
           | Some (Inl _) \<Rightarrow> None
           | Some (Inr ts) \<Rightarrow> Some \<lparr>cv_rate = rate, cv_rate_timestamp = ts, cv_fetched_at = now\<rparr>))
      else fx_rate_from_rows rs now)"

definition get_usdt_inr_rate ::
  "f64 \<Rightarrow> fx_row list option \<Rightarrow> conversion_rate option \<Rightarrow> conversion_rate option \<times> conversion_rate option" where
  "get_usdt_inr_rate now reply cache =
     (case cache of
        Some r \<Rightarrow> if fsub now (cv_fetched_at r) < FX_CACHE_TTL_SECONDS then (Some r, cache)
          else (case reply of None \<Rightarrow> (None, cache)
                | Some rows \<Rightarrow> (case fx_rate_from_rows rows now of
                    None \<Rightarrow> (None, cache) | Some r' \<Rightarrow> (Some r', Some r')))
      | None \<Rightarrow> (case reply of None \<Rightarrow> (None, cache)
                | Some rows \<Rightarrow> (case fx_rate_from_rows rows now of
                    None \<Rightarrow> (None, cache) | Some r' \<Rightarrow> (Some r', Some r'))))"

definition convert_usdt_to_inr :: "f64 option \<Rightarrow> conversion_rate option \<Rightarrow> f64 option" where
  "convert_usdt_to_inr amount rate =
     (case (amount, rate) of (Some a, Some r) \<Rightarrow> Some (fmul a (cv_rate r)) | _ \<Rightarrow> None)"

record conversion_meta =
  cm_rate :: "f64 option"
  cm_timestamp :: "f64 option"
  cm_status :: connection_state

definition conversion_meta_of :: "conversion_rate option \<Rightarrow> f64 \<Rightarrow> conversion_meta" where
  "conversion_meta_of rate now =
     (case rate of
        None \<Rightarrow> \<lparr>cm_rate = None, cm_timestamp = None, cm_status = CN_UNAVAILABLE\<rparr>
      | Some r \<Rightarrow> \<lparr>cm_rate = Some (cv_rate r), cm_timestamp = Some (cv_rate_timestamp r),
                   cm_status = rate_status r now\<rparr>)"

section \<open>Lemmas\<close>

text \<open>Only a fresh, liquid, researched instrument is ever scored.\<close>

lemma scan_scored:
  "sr_status (scan_symbol symbol a) = SCORED \<longleftrightarrow>
     av_available a \<and> is_fresh a \<and> is_liquid a \<and> symbol = ''BTC/USDT''"
  by (simp add: scan_symbol_def RESEARCHED_SYMBOLS_def)

text \<open>A rate returned is never invented: it is the cached one, still young, or the reply's own.\<close>

lemma get_usdt_inr_rate_source:
  "fst (get_usdt_inr_rate now reply cache) = Some r \<Longrightarrow>
     cache = Some r \<and> fsub now (cv_fetched_at r) < FX_CACHE_TTL_SECONDS \<or>
     (\<exists>rows. reply = Some rows \<and> fx_rate_from_rows rows now = Some r)"
  by (auto simp: get_usdt_inr_rate_def split: option.splits if_splits)

lemma fx_rate_from_rows_source:
  "fx_rate_from_rows rows now = Some r \<Longrightarrow>
     cv_fetched_at r = now \<and> (\<exists>row \<in> set rows. fx_market row = Some ''USDTINR'' \<and> fx_last_price row = Inr (cv_rate r))"
  by (induction rows) (auto split: if_splits sum.splits option.splits)

end
