(* ===== verification/TextPatterns.thy ===== *)
theory TextPatterns
  imports Scanner
begin

text \<open>
  The part of Python's \<open>re\<close> that \<open>services/telegram_signals/parser.py\<close> uses, on ASCII texts: classes of
  characters, greedy repetition of a class, word boundaries, the end of the text, sequence,
  alternatives and one group.  \<open>runs\<close> lists all matches at a position in the order in which the
  backtracking matcher tries them; a search takes the first one at the leftmost position.
\<close>

section \<open>Patterns\<close>

definition is_digit :: "char \<Rightarrow> bool" where "is_digit c \<longleftrightarrow> CHR ''0'' \<le> c \<and> c \<le> CHR ''9''"
definition is_letter :: "char \<Rightarrow> bool" where
  "is_letter c \<longleftrightarrow> CHR ''A'' \<le> c \<and> c \<le> CHR ''Z'' \<or> CHR ''a'' \<le> c \<and> c \<le> CHR ''z''"
definition is_word :: "char \<Rightarrow> bool" where "is_word c \<longleftrightarrow> is_letter c \<or> is_digit c \<or> c = CHR ''_''"

text \<open>A character up to case, and a member of a list of characters.\<close>

definition same_letter :: "char \<Rightarrow> char \<Rightarrow> bool" where "same_letter k c \<longleftrightarrow> upper_char c = k"
definition one_of :: "string \<Rightarrow> char \<Rightarrow> bool" where "one_of ks c \<longleftrightarrow> c \<in> set ks"

datatype regex =
    One "char \<Rightarrow> bool"
  | Rep "char \<Rightarrow> bool" nat "nat option"
  | Boundary
  | At_end
  | Seq regex regex
  | Alt regex regex
  | Group regex

text \<open>A position: the text before it (last character first), the text after it, the group.\<close>

type_synonym position = "string \<times> string \<times> string option"

definition word_at :: "string \<Rightarrow> bool" where
  "word_at cs = (case cs of [] \<Rightarrow> False | c # _ \<Rightarrow> is_word c)"

fun runs :: "regex \<Rightarrow> position \<Rightarrow> position list" where
  "runs (One p) (b, r, g) = (case r of [] \<Rightarrow> [] | c # cs \<Rightarrow> if p c then [(c # b, cs, g)] else [])"
| "runs (Rep p lo hi) (b, r, g) =
     (let n = length (takeWhile p r);
          n = (case hi of None \<Rightarrow> n | Some h \<Rightarrow> min h n)
      in map (\<lambda>k. (rev (take k r) @ b, drop k r, g)) (rev [lo ..< Suc n]))"
| "runs Boundary (b, r, g) = (if word_at b \<noteq> word_at r then [(b, r, g)] else [])"
| "runs At_end (b, r, g) = (if r = [] \<or> r = [CHR 0x0A] then [(b, r, g)] else [])"
| "runs (Seq x y) s = concat (map (runs y) (runs x s))"
| "runs (Alt x y) s = runs x s @ runs y s"
| "runs (Group x) (b, r, g) =
     map (\<lambda>(b', r', _). (b', r', Some (take (length r - length r') r))) (runs x (b, r, g))"

text \<open>A match: the text before it, the text of it, its group, the text after it.\<close>

record re_match =
  rm_before :: string
  rm_text :: string
  rm_group :: "string option"
  rm_after :: string

fun search_from :: "regex \<Rightarrow> string \<Rightarrow> string \<Rightarrow> re_match option" where
  "search_from x b r =
     (case runs x (b, r, None) of
        (b', r', g) # _ \<Rightarrow>
          Some \<lparr>rm_before = rev b, rm_text = take (length r - length r') r, rm_group = g, rm_after = r'\<rparr>
      | [] \<Rightarrow> (case r of [] \<Rightarrow> None | c # cs \<Rightarrow> search_from x (c # b) cs))"

definition re_search :: "regex \<Rightarrow> string \<Rightarrow> re_match option" where
  "re_search x text = search_from x [] text"

text \<open>\<open>findall\<close> for patterns that match no empty text: the groups of the matches that do not overlap.\<close>

fun findall_from :: "regex \<Rightarrow> nat \<Rightarrow> string \<Rightarrow> string \<Rightarrow> string list" where
  "findall_from x k b [] = []"
| "findall_from x (Suc k) b (c # cs) = findall_from x k (c # b) cs"
| "findall_from x 0 b (c # cs) =
     (case runs x (b, c # cs, None) of
        (b', r', g) # _ \<Rightarrow> the g # findall_from x (length cs - length r') (c # b) cs
      | [] \<Rightarrow> findall_from x 0 (c # b) cs)"

definition re_findall :: "regex \<Rightarrow> string \<Rightarrow> string list" where
  "re_findall x text = findall_from x 0 [] text"

definition group1 :: "re_match option \<Rightarrow> string option" where
  "group1 m = (case m of None \<Rightarrow> None | Some r \<Rightarrow> rm_group r)"

section \<open>Shorthands\<close>

text \<open>A keyword up to case, and \<open>\<b>keyword\<b>\<close> forms; \<open>[...]?\<close> and \<open>[...]*\<close>.\<close>

fun keyword :: "string \<Rightarrow> regex" where
  "keyword [] = Rep is_digit 0 (Some 0)"
| "keyword [c] = One (same_letter c)"
| "keyword (c # d # cs) = Seq (One (same_letter c)) (keyword (d # cs))"

fun seqs :: "regex list \<Rightarrow> regex" where
  "seqs [] = Rep is_digit 0 (Some 0)"
| "seqs [x] = x"
| "seqs (x # y # xs) = Seq x (seqs (y # xs))"

fun alts :: "regex list \<Rightarrow> regex" where
  "alts [] = Rep is_digit 1 (Some 0)"
| "alts [x] = x"
| "alts (x # y # xs) = Alt x (alts (y # xs))"

abbreviation maybe :: "(char \<Rightarrow> bool) \<Rightarrow> regex" where "maybe p \<equiv> Rep p 0 (Some 1)"
abbreviation many :: "(char \<Rightarrow> bool) \<Rightarrow> regex" where "many p \<equiv> Rep p 0 None"

section \<open>Letter case\<close>

text \<open>A pattern whose classes do not tell letters of different case apart.\<close>

fun caseless :: "regex \<Rightarrow> bool" where
  "caseless (One p) \<longleftrightarrow> (\<forall>c. p (upper_char c) = p c)"
| "caseless (Rep p lo hi) \<longleftrightarrow> (\<forall>c. p (upper_char c) = p c)"
| "caseless Boundary \<longleftrightarrow> True"
| "caseless At_end \<longleftrightarrow> True"
| "caseless (Seq x y) \<longleftrightarrow> caseless x \<and> caseless y"
| "caseless (Alt x y) \<longleftrightarrow> caseless x \<and> caseless y"
| "caseless (Group x) \<longleftrightarrow> caseless x"

lemma upper_char_cases:
  obtains "upper_char c = c" | "CHR ''a'' \<le> c" "c \<le> CHR ''z''" "CHR ''A'' \<le> upper_char c" "upper_char c \<le> CHR ''Z''"
proof (cases "CHR ''a'' \<le> c \<and> c \<le> CHR ''z''")
  case True
  then have n: "97 \<le> (of_char c :: nat)" "(of_char c :: nat) \<le> 122" by (simp_all add: less_eq_char_def)
  then have "(of_char (upper_char c) :: nat) = of_char c - 32" using True by (simp add: upper_char_def)
  then have "CHR ''A'' \<le> upper_char c" "upper_char c \<le> CHR ''Z''" using n by (simp_all add: less_eq_char_def)
  then show ?thesis using True that(2) by blast
next
  case False
  then have "upper_char c = c" by (auto simp: upper_char_def)
  then show ?thesis by (rule that(1))
qed

lemma upper_char_class [simp]:
  "is_digit (upper_char c) = is_digit c" "is_letter (upper_char c) = is_letter c"
  "is_word (upper_char c) = is_word c" "is_space (upper_char c) = is_space c"
  "upper_char (upper_char c) = upper_char c"
proof -
  have d: "is_digit (upper_char c) = is_digit c"
    by (cases c rule: upper_char_cases) (auto simp: is_digit_def less_eq_char_def)
  have l: "is_letter (upper_char c) = is_letter c"
    by (cases c rule: upper_char_cases) (auto simp: is_letter_def less_eq_char_def)
  have s: "is_space (upper_char c) = is_space c"
    by (cases c rule: upper_char_cases) (force simp: is_space_def)+
  have u: "(upper_char c = CHR ''_'') = (c = CHR ''_'')"
    by (cases c rule: upper_char_cases) force+
  show "is_digit (upper_char c) = is_digit c" "is_letter (upper_char c) = is_letter c"
    "is_space (upper_char c) = is_space c" by (fact d l s)+
  show "is_word (upper_char c) = is_word c" by (simp add: is_word_def d l u)
  show "upper_char (upper_char c) = upper_char c"
    by (cases c rule: upper_char_cases) (auto simp: upper_char_def [of "upper_char c"] less_eq_char_def)
qed

lemma same_letter_upper [simp]: "same_letter k (upper_char c) = same_letter k c"
  by (simp add: same_letter_def)

lemma one_of_upper:
  assumes "\<And>k. k \<in> set ks \<Longrightarrow> \<not> is_letter k"
  shows "one_of ks (upper_char c) = one_of ks c"
proof (cases c rule: upper_char_cases)
  case 2
  then have "is_letter (upper_char c)" "is_letter c" by (auto simp: is_letter_def)
  then show ?thesis using assms [of c] assms [of "upper_char c"] by (auto simp: one_of_def)
qed simp

lemma caseless_keyword [simp]: "caseless (keyword cs)"
  by (induction cs rule: keyword.induct) simp_all

lemma caseless_seqs [simp]: "caseless (seqs xs) \<longleftrightarrow> (\<forall>x \<in> set xs. caseless x)"
  by (induction xs rule: seqs.induct) auto

lemma caseless_alts [simp]: "caseless (alts xs) \<longleftrightarrow> (\<forall>x \<in> set xs. caseless x)"
  by (induction xs rule: alts.induct) auto

fun upper_position :: "position \<Rightarrow> position" where
  "upper_position (b, r, g) = (str_upper b, str_upper r, map_option str_upper g)"

lemma str_upper_simps [simp]:
  "length (str_upper s) = length s" "str_upper [] = []" "str_upper (c # s) = upper_char c # str_upper s"
  "take n (str_upper s) = str_upper (take n s)" "drop n (str_upper s) = str_upper (drop n s)"
  "str_upper s = [] \<longleftrightarrow> s = []" "rev (str_upper s) = str_upper (rev s)" "str_upper s @ str_upper t = str_upper (s @ t)"
  by (simp_all add: str_upper_def take_map drop_map rev_map)

lemma word_at_upper [simp]: "word_at (str_upper s) = word_at s"
  by (cases s) (simp_all add: word_at_def)

lemma takeWhile_upper:
  "(\<And>c. p (upper_char c) = p c) \<Longrightarrow> length (takeWhile p (str_upper s)) = length (takeWhile p s)"
  by (induction s) auto

lemma newline_upper: "str_upper s = [CHR 0x0A] \<longleftrightarrow> s = [CHR 0x0A]"
proof -
  have "upper_char c = CHR 0x0A \<longleftrightarrow> c = CHR 0x0A" for c by (cases c rule: upper_char_cases) force+
  then show ?thesis by (cases s) (auto simp: str_upper_def)
qed

text \<open>Upper-casing the text upper-cases every match and nothing else.\<close>

lemma runs_upper: "caseless x \<Longrightarrow> runs x (upper_position s) = map upper_position (runs x s)"
proof (induction x s rule: runs.induct)
  case (1 p b r g)
  then show ?case by (cases r) auto
next
  case (2 p lo hi b r g)
  then have "length (takeWhile p (str_upper r)) = length (takeWhile p r)" by (intro takeWhile_upper) simp
  then show ?case by (simp add: Let_def del: upt_Suc)
next
  case (5 x y s)
  then have "map (runs y \<circ> upper_position) (runs x s) = map (map upper_position \<circ> runs y) (runs x s)"
    by (intro map_cong refl) simp
  then have "concat (map (runs y \<circ> upper_position) (runs x s)) =
      concat (map (map upper_position \<circ> runs y) (runs x s))" by (rule arg_cong)
  then show ?case using 5 by (simp add: map_concat)
next
  case (7 x b r g)
  have "upper_position (b, r, None) = (str_upper b, str_upper r, None)" by simp
  then show ?case using 7 by (auto simp: case_prod_beta)
qed (auto simp: newline_upper)

definition upper_match :: "re_match \<Rightarrow> re_match" where
  "upper_match m = \<lparr>rm_before = str_upper (rm_before m), rm_text = str_upper (rm_text m),
     rm_group = map_option str_upper (rm_group m), rm_after = str_upper (rm_after m)\<rparr>"

lemma search_from_upper:
  "caseless x \<Longrightarrow> search_from x (str_upper b) (str_upper r) = map_option upper_match (search_from x b r)"
proof (induction x b r rule: search_from.induct)
  case (1 x b r)
  have runs: "runs x (str_upper b, str_upper r, None) = map upper_position (runs x (b, r, None))"
    using runs_upper [of x "(b, r, None)"] 1(2) by simp
  show ?case
  proof (cases "runs x (b, r, None)")
    case Nil
    then show ?thesis using 1 runs by (cases r) auto
  next
    case (Cons s ss)
    obtain b' r' g where s: "s = (b', r', g)" by (cases s)
    show ?thesis using runs by (simp add: Cons s upper_match_def)
  qed
qed

lemma re_search_upper: "caseless x \<Longrightarrow> re_search x (str_upper t) = map_option upper_match (re_search x t)"
  using search_from_upper [of x "[]" t] by (simp add: re_search_def)

lemma group1_upper: "group1 (map_option upper_match m) = map_option str_upper (group1 m)"
  by (cases m) (simp_all add: group1_def upper_match_def)

fun grouped :: "regex \<Rightarrow> bool" where
  "grouped (Group x) = True"
| "grouped (Seq x y) = (grouped x \<or> grouped y)"
| "grouped _ = False"

lemma grouped_runs: "(b', r', g') \<in> set (runs x s) \<Longrightarrow> grouped x \<or> (case s of (_, _, g) \<Rightarrow> g \<noteq> None) \<Longrightarrow> g' \<noteq> None"
proof (induction x s arbitrary: b' r' g' rule: runs.induct)
  case (5 x y s)
  then obtain b1 r1 g1 where s1: "(b1, r1, g1) \<in> set (runs x s)" "(b', r', g') \<in> set (runs y (b1, r1, g1))" by auto
  then have "grouped y \<or> g1 \<noteq> None" using 5(1) [OF s1(1)] 5(4) by auto
  then show ?case using 5(2) [OF s1(1,2)] by simp
qed (auto simp: Let_def split: list.splits if_splits)

lemma findall_from_upper:
  "caseless x \<Longrightarrow> grouped x \<Longrightarrow>
     findall_from x k (str_upper b) (str_upper r) = map str_upper (findall_from x k b r)"
proof (induction x k b r rule: findall_from.induct)
  case (3 x b c cs)
  have runs: "runs x (str_upper b, upper_char c # str_upper cs, None) = map upper_position (runs x (b, c # cs, None))"
    using runs_upper [of x "(b, c # cs, None)"] 3(3) by simp
  show ?case
  proof (cases "runs x (b, c # cs, None)")
    case Nil
    then show ?thesis using 3 runs by simp
  next
    case (Cons s ss)
    obtain b' r' g where s: "s = (b', r', g)" by (cases s)
    have "g \<noteq> None" using grouped_runs [of b' r' g x "(b, c # cs, None)"] 3(4) by (simp add: Cons s)
    then show ?thesis using 3 runs by (auto simp: Cons s)
  qed
qed auto

lemma re_findall_upper:
  "caseless x \<Longrightarrow> grouped x \<Longrightarrow> re_findall x (str_upper t) = map str_upper (re_findall x t)"
  using findall_from_upper [of x 0 "[]" t] by (simp add: re_findall_def)

lemma str_upper_idem [simp]: "str_upper (str_upper s) = str_upper s"
  by (simp add: str_upper_def)

lemma str_lower_upper [simp]: "str_lower (str_upper s) = str_lower s"
proof -
  have "lower_char (upper_char c) = lower_char c" for c
  proof (cases "CHR ''a'' \<le> c \<and> c \<le> CHR ''z''")
    case True
    then have n: "97 \<le> (of_char c :: nat)" "(of_char c :: nat) \<le> 122" by (simp_all add: less_eq_char_def)
    then have "(of_char (upper_char c) :: nat) = of_char c - 32" using True by (simp add: upper_char_def)
    then have "(of_char (upper_char c) :: nat) + 32 = of_char c" "(65 :: nat) \<le> of_char (upper_char c)"
      "(of_char (upper_char c) :: nat) \<le> 90" using n by simp_all
    then have "lower_char (upper_char c) = char_of (of_char c :: nat)"
      unfolding lower_char_def less_eq_char_def by simp
    moreover have "\<not> c \<le> CHR ''Z''" using n by (simp add: less_eq_char_def)
    ultimately show ?thesis by (simp add: lower_char_def)
  qed (auto simp: upper_char_def)
  then show ?thesis by (simp add: str_lower_def str_upper_def)
qed

lemma str_strip_upper [simp]: "str_strip (str_upper s) = str_upper (str_strip s)"
proof -
  have drop: "dropWhile is_space (str_upper s) = str_upper (dropWhile is_space s)" for s
    by (induction s) simp_all
  show ?thesis by (simp add: str_strip_def drop)
qed

text \<open>The characters a group can capture.\<close>

fun only :: "(char \<Rightarrow> bool) \<Rightarrow> regex \<Rightarrow> bool" where
  "only q (One p) \<longleftrightarrow> (\<forall>c. p c \<longrightarrow> q c)"
| "only q (Rep p lo hi) \<longleftrightarrow> (\<forall>c. p c \<longrightarrow> q c)"
| "only q (Seq x y) \<longleftrightarrow> only q x \<and> only q y"
| "only q (Alt x y) \<longleftrightarrow> only q x \<and> only q y"
| "only q (Group x) \<longleftrightarrow> only q x"
| "only q _ \<longleftrightarrow> True"

fun captures :: "(char \<Rightarrow> bool) \<Rightarrow> regex \<Rightarrow> bool" where
  "captures q (Group x) \<longleftrightarrow> only q x"
| "captures q (Seq x y) \<longleftrightarrow> captures q x \<and> captures q y"
| "captures q (Alt x y) \<longleftrightarrow> captures q x \<and> captures q y"
| "captures q _ \<longleftrightarrow> True"

lemma only_seqs [simp]: "(\<And>x. x \<in> set xs \<Longrightarrow> only q x) \<Longrightarrow> xs \<noteq> [] \<Longrightarrow> only q (seqs xs)"
  by (induction xs rule: seqs.induct) auto

lemma only_alts [simp]: "(\<And>x. x \<in> set xs \<Longrightarrow> only q x) \<Longrightarrow> xs \<noteq> [] \<Longrightarrow> only q (alts xs)"
  by (induction xs rule: alts.induct) auto

lemma captures_keyword [simp]: "captures q (keyword cs)"
  by (induction cs rule: keyword.induct) simp_all

lemma captures_seqs [simp]: "(\<And>x. x \<in> set xs \<Longrightarrow> captures q x) \<Longrightarrow> captures q (seqs xs)"
  by (induction xs rule: seqs.induct) auto

lemma captures_alts [simp]: "(\<And>x. x \<in> set xs \<Longrightarrow> captures q x) \<Longrightarrow> captures q (alts xs)"
  by (induction xs rule: alts.induct) auto

lemma only_runs: "(b', r', g') \<in> set (runs x s) \<Longrightarrow> only q x \<Longrightarrow> s = (b, r, g) \<Longrightarrow> \<exists>t. r = t @ r' \<and> list_all q t"
proof (induction x s arbitrary: b' r' g' b r g rule: runs.induct)
  case (2 p lo hi b0 r0 g0)
  then obtain k where k: "r' = drop k r0" "k \<le> length (takeWhile p r0)"
    by (auto simp: Let_def split: option.splits)
  have "take k r0 = take k (takeWhile p r0)" using k(2) by (metis takeWhile_eq_take take_take min.absorb1)
  then have "list_all p (take k r0)" by (metis in_set_takeD list_all_iff set_takeWhileD)
  then have "list_all q (take k r0)" using 2 by (auto simp: list_all_iff)
  then show ?case using 2 k by (intro exI [of _ "take k r0"]) simp
next
  case (5 x y s)
  then obtain b1 r1 g1 where s1: "(b1, r1, g1) \<in> set (runs x s)" "(b', r', g') \<in> set (runs y (b1, r1, g1))" by auto
  obtain t1 where t1: "r = t1 @ r1" "list_all q t1" using 5(1) [OF s1(1) _ 5(5)] 5(4) by auto
  obtain t2 where t2: "r1 = t2 @ r'" "list_all q t2" using 5(2) [OF s1 _ refl] 5(4) by auto
  then show ?case using t1 t2 by (intro exI [of _ "t1 @ t2"]) simp
next
  case (7 x b0 r0 g0)
  then obtain g1 where "(b', r', g1) \<in> set (runs x (b0, r0, g0))" by auto
  then show ?case using 7 by force
qed (auto split: list.splits if_splits)

lemma captures_runs:
  "(b', r', Some h) \<in> set (runs x s) \<Longrightarrow> captures q x \<Longrightarrow> s = (b, r, g) \<Longrightarrow> (\<And>h. g = Some h \<Longrightarrow> list_all q h) \<Longrightarrow> list_all q h"
proof (induction x s arbitrary: b' r' h b r g rule: runs.induct)
  case (5 x y s)
  then obtain b1 r1 g1 where s1: "(b1, r1, g1) \<in> set (runs x s)" "(b', r', Some h) \<in> set (runs y (b1, r1, g1))" by auto
  have "list_all q k" if "g1 = Some k" for k using 5(1) [of b1 r1 k b r g] s1 that 5(4,5,6) by auto
  then show ?case using 5(2) [OF s1 _ refl] 5(4) by auto
next
  case (6 x y s)
  then show ?case by auto
next
  case (7 x b0 r0 g0)
  then obtain g1 where m: "(b', r', g1) \<in> set (runs x (b0, r0, g0))" and h: "h = take (length r0 - length r') r0" by auto
  then obtain t where "r0 = t @ r'" "list_all q t" using only_runs [OF m _ refl] 7(3) by auto
  then show ?case by (simp add: h)
qed (auto simp: Let_def split: list.splits if_splits option.splits)

lemma captures_search: "group1 (re_search x t) = Some h \<Longrightarrow> captures q x \<Longrightarrow> list_all q h"
proof -
  have "search_from x b r = Some m \<Longrightarrow> rm_group m = Some h \<Longrightarrow> captures q x \<Longrightarrow> list_all q h" for b r m
  proof (induction x b r rule: search_from.induct)
    case (1 x b r)
    show ?case
    proof (cases "runs x (b, r, None)")
      case Nil
      then show ?thesis using 1 by (cases r) auto
    next
      case (Cons s ss)
      obtain b' r' g where s: "s = (b', r', g)" by (cases s)
      then show ?thesis using 1(2-4) captures_runs [of b' r' h x "(b, r, None)" q b r None] by (auto simp: Cons)
    qed
  qed
  then show "group1 (re_search x t) = Some h \<Longrightarrow> captures q x \<Longrightarrow> list_all q h"
    by (auto simp: group1_def re_search_def split: option.splits)
qed

lemma str_upper_no_letters: "list_all (\<lambda>c. \<not> is_letter c) s \<Longrightarrow> str_upper s = s"
proof (induction s)
  case (Cons c s)
  then have "upper_char c = c" by (cases c rule: upper_char_cases) (auto simp: is_letter_def)
  then show ?case using Cons by simp
qed simp

end
