(* ===== verification/Exchange.thy ===== *)
theory Exchange
  imports LiveSizing LiveControls TextPatterns
begin

text \<open>
  \<open>services/exchange/coindcx.py\<close>: the symbols of the exchange and the read-only account provider.
  What the exchange answers is the record \<open>coindcx_api\<close>; signing and sending a request are left to
  the HTTP library.  \<open>services/exchange/suncrypto.py\<close> and \<open>services/exchange/sync.py\<close>: the provider
  that is never available, and the synchronisation over the abstract provider.
\<close>

section \<open>Symbols\<close>

definition DEFAULT_MARGIN_CURRENCY :: string where "DEFAULT_MARGIN_CURRENCY = ''INR''"

definition normalize_symbol :: "string \<Rightarrow> string \<Rightarrow> string" where
  "normalize_symbol symbol margin_currency =
     (let base = str_upper (takeWhile (\<lambda>c. c \<noteq> CHR ''/'') symbol)
      in ''B-'' @ base @ ''_'' @ str_upper margin_currency)"

definition denormalize_symbol :: "string \<Rightarrow> string" where
  "denormalize_symbol instrument =
     (let body = (if take 2 instrument = ''B-'' then drop 2 instrument else instrument);
          base = takeWhile (\<lambda>c. c \<noteq> CHR ''_'') body;
          margin = drop 1 (dropWhile (\<lambda>c. c \<noteq> CHR ''_'') body)
      in if margin \<noteq> [] then base @ ''/'' @ margin else body)"

section \<open>Replies\<close>

text \<open>
  A body, an HTTP status that \<open>raise_for_status\<close> refuses, or no answer.  The history of fills
  depends on the instrument and the two dates of the request.
\<close>

datatype http_reply = RP_body json | RP_status int | RP_lost

record coindcx_api =
  ca_key :: string
  ca_secret :: string
  ca_read_float :: "string \<Rightarrow> f64 option"
  ca_read_int :: "string \<Rightarrow> int option"
  ca_show :: "json \<Rightarrow> string"
  ca_wallets :: http_reply
  ca_positions :: http_reply
  ca_trades :: "string \<Rightarrow> date \<Rightarrow> date \<Rightarrow> http_reply"
  ca_transactions :: "string \<Rightarrow> http_reply"
  ca_conversions :: http_reply
  ca_orders :: "string \<Rightarrow> http_reply"

definition is_configured :: "coindcx_api \<Rightarrow> bool" where
  "is_configured api \<longleftrightarrow> ca_key api \<noteq> [] \<and> ca_secret api \<noteq> []"

text \<open>\<open>p.get(k, 0)\<close> exists on an object only; iterating an object gives its keys.\<close>

definition obj_get :: "json \<Rightarrow> string \<Rightarrow> json result" where
  "obj_get j k = (case j of JObj _ \<Rightarrow> Inr (json_get j k JNull) | _ \<Rightarrow> Inl AttributeError)"

definition get_or_zero :: "coindcx_api \<Rightarrow> json \<Rightarrow> string \<Rightarrow> f64 result" where
  "get_or_zero api j k = bindr (obj_get j k) (\<lambda>v. if json_truthy v then json_float (ca_read_float api) v else Inr 0)"

definition items :: "json \<Rightarrow> json list result" where
  "items j = (case j of JArr xs \<Rightarrow> Inr xs | JObj kvs \<Rightarrow> Inr (map (JStr \<circ> fst) kvs)
                | JStr s \<Rightarrow> Inr (map (\<lambda>c. JStr [c]) s) | _ \<Rightarrow> Inl TypeError)"

text \<open>\<open>next((x for x in xs if x.get(k) == v), None)\<close>\<close>

fun next_with :: "string \<Rightarrow> json \<Rightarrow> json list \<Rightarrow> json option result" where
  "next_with k v [] = Inr None"
| "next_with k v (x # xs) = bindr (obj_get x k) (\<lambda>w. if w = v then Inr (Some x) else next_with k v xs)"

fun map_r :: "('a \<Rightarrow> 'b result) \<Rightarrow> 'a list \<Rightarrow> 'b list result" where
  "map_r f [] = Inr []"
| "map_r f (x # xs) = bindr (f x) (\<lambda>y. bindr (map_r f xs) (\<lambda>ys. Inr (y # ys)))"

section \<open>The account provider\<close>

datatype connection_report =
    CR_OK | CR_NOT_CONFIGURED | CR_AUTH_FAILURE int | CR_API_FAILURE int | CR_CONNECTION_LOST

definition get_connection_status :: "coindcx_api \<Rightarrow> connection_report" where
  "get_connection_status api =
     (if \<not> is_configured api then CR_NOT_CONFIGURED
      else case ca_wallets api of
             RP_body _ \<Rightarrow> CR_OK
           | RP_status c \<Rightarrow> if c = 401 then CR_AUTH_FAILURE c else CR_API_FAILURE c
           | RP_lost \<Rightarrow> CR_CONNECTION_LOST)"

datatype balance_status = BL_OK | BL_NOT_CONFIGURED | BL_UNAVAILABLE

record balance =
  bl_status :: balance_status
  bl_total_equity :: "f64 option"
  bl_available_balance :: "f64 option"
  bl_used_margin :: "f64 option"

definition no_balance :: "balance_status \<Rightarrow> balance" where
  "no_balance s = \<lparr>bl_status = s, bl_total_equity = None, bl_available_balance = None, bl_used_margin = None\<rparr>"

definition wallet_balance :: "coindcx_api \<Rightarrow> json \<Rightarrow> balance result" where
  "wallet_balance api wallet =
     bindr (get_or_zero api wallet ''balance'') (\<lambda>total_equity.
     bindr (get_or_zero api wallet ''locked_balance'') (\<lambda>locked.
     bindr (get_or_zero api wallet ''cross_order_margin'') (\<lambda>order_margin.
     bindr (get_or_zero api wallet ''cross_user_margin'') (\<lambda>user_margin.
       let used_margin = fadd (fadd locked order_margin) user_margin
       in Inr \<lparr>bl_status = BL_OK, bl_total_equity = Some total_equity,
               bl_available_balance = Some (fsub total_equity used_margin), bl_used_margin = Some used_margin\<rparr>))))"

definition get_balance :: "coindcx_api \<Rightarrow> balance result" where
  "get_balance api =
     (if \<not> is_configured api then Inr (no_balance BL_NOT_CONFIGURED)
      else case ca_wallets api of
             RP_body body \<Rightarrow>
               bindr (items body) (\<lambda>wallets.
               bindr (next_with ''currency_short_name'' (JStr DEFAULT_MARGIN_CURRENCY) wallets) (\<lambda>w. case w of
                   None \<Rightarrow> Inr (no_balance BL_UNAVAILABLE)
                 | Some wallet \<Rightarrow> wallet_balance api wallet))
           | _ \<Rightarrow> Inr (no_balance BL_UNAVAILABLE))"

text \<open>A position as the provider reports it; the identifier and the pair are texts of the reply.\<close>

record live_position =
  lp_id :: json
  lp_symbol :: json
  lp_side :: string
  lp_quantity :: f64
  lp_entry_price :: f64
  lp_mark_price :: "f64 option"
  lp_liquidation_price :: "f64 option"
  lp_leverage :: json
  lp_margin :: f64
  lp_unrealized_pnl :: "f64 option"

definition or_none :: "f64 \<Rightarrow> f64 option" where "or_none x = (if x = 0 then None else Some x)"

definition normalize_position :: "coindcx_api \<Rightarrow> json \<Rightarrow> live_position option result" where
  "normalize_position api p =
     bindr (get_or_zero api p ''active_pos'') (\<lambda>active_pos.
       if active_pos = 0 then Inr None
       else
       bindr (get_or_zero api p ''avg_price'') (\<lambda>avg_price.
       bindr (get_or_zero api p ''mark_price'') (\<lambda>mark_price.
       bindr (obj_get p ''id'') (\<lambda>pos_id. bindr (obj_get p ''pair'') (\<lambda>pair.
       bindr (get_or_zero api p ''liquidation_price'') (\<lambda>liquidation.
       bindr (obj_get p ''leverage'') (\<lambda>leverage.
       bindr (get_or_zero api p ''locked_margin'') (\<lambda>margin.
         Inr (Some \<lparr>lp_id = pos_id, lp_symbol = pair,
           lp_side = (if 0 < active_pos then ''LONG'' else ''SHORT''),
           lp_quantity = \<bar>active_pos\<bar>, lp_entry_price = avg_price, lp_mark_price = or_none mark_price,
           lp_liquidation_price = or_none liquidation, lp_leverage = leverage, lp_margin = margin,
           lp_unrealized_pnl =
             (if mark_price \<noteq> 0 then Some (fmul (fsub mark_price avg_price) active_pos) else None)\<rparr>)))))))))"

definition get_open_positions :: "coindcx_api \<Rightarrow> live_position list result" where
  "get_open_positions api =
     (if \<not> is_configured api then Inr []
      else case ca_positions api of
             RP_body body \<Rightarrow> bindr (items body) (\<lambda>ps. bindr (map_r (normalize_position api) ps)
               (\<lambda>xs. Inr (List.map_filter id xs)))
           | _ \<Rightarrow> Inr [])"

text \<open>The dates default to the trailing thirty days.\<close>

definition get_trade_history :: "coindcx_api \<Rightarrow> datetime \<Rightarrow> string \<Rightarrow> date option \<Rightarrow> date option \<Rightarrow> json" where
  "get_trade_history api now symbol from_date to_date =
     (if \<not> is_configured api then JArr []
      else let instrument = normalize_symbol symbol DEFAULT_MARGIN_CURRENCY;
               upto = (case to_date of Some x \<Rightarrow> x | None \<Rightarrow> dt_date now);
               since = (case from_date of Some x \<Rightarrow> x | None \<Rightarrow> dt_date (now - 30 * day_us))
           in case ca_trades api instrument since upto of RP_body body \<Rightarrow> body | _ \<Rightarrow> JArr [])"

definition get_transactions :: "coindcx_api \<Rightarrow> string \<Rightarrow> json" where
  "get_transactions api stage =
     (if \<not> is_configured api then JArr []
      else case ca_transactions api stage of RP_body body \<Rightarrow> body | _ \<Rightarrow> JArr [])"

record futures_rate =
  fr_rate :: f64
  fr_margin_currency :: json
  fr_target_currency :: json
  fr_last_updated_at :: json

definition get_futures_conversion_rate :: "coindcx_api \<Rightarrow> string \<Rightarrow> futures_rate option result" where
  "get_futures_conversion_rate api margin_currency =
     (if \<not> is_configured api then Inr None
      else case ca_conversions api of
             RP_body body \<Rightarrow>
               bindr (items body) (\<lambda>rows.
               bindr (next_with ''margin_currency_short_name'' (JStr margin_currency) rows) (\<lambda>r. case r of
                   None \<Rightarrow> Inr None
                 | Some row \<Rightarrow>
                     bindr (obj_get row ''conversion_price'') (\<lambda>price.
                       if price = JNull then Inr None
                       else bindr (json_float (ca_read_float api) price) (\<lambda>rate.
                         Inr (Some \<lparr>fr_rate = rate, fr_margin_currency = json_get row ''margin_currency_short_name'' JNull,
                           fr_target_currency = json_get row ''target_currency_short_name'' JNull,
                           fr_last_updated_at = json_get row ''last_updated_at'' JNull\<rparr>)))))
           | _ \<Rightarrow> Inr None)"

definition get_orders :: "coindcx_api \<Rightarrow> json list result" where
  "get_orders api =
     (if \<not> is_configured api then Inr []
      else foldl (\<lambda>acc side. bindr acc (\<lambda>orders. case ca_orders api side of
                    RP_body body \<Rightarrow> bindr (items body) (\<lambda>xs. Inr (orders @ xs))
                  | _ \<Rightarrow> Inr orders)) (Inr []) [''buy'', ''sell''])"

text \<open>The position as the reconciliation reads it: its fields are the provider's, the symbol unchanged.\<close>

definition reconciled_position :: "live_position \<Rightarrow> exchange_position result" where
  "reconciled_position p =
     (case lp_symbol p of
        JStr s \<Rightarrow> Inr \<lparr>xp_symbol = s, xp_side = Some (lp_side p), xp_quantity = Some (lp_quantity p),
                       xp_entry_price = Some (lp_entry_price p)\<rparr>
      | _ \<Rightarrow> Inl TypeError)"

section \<open>The unavailable provider\<close>

datatype provider_status = PV_UNAVAILABLE | PV_OTHER

definition suncrypto_connection_status :: "provider_status result" where
  "suncrypto_connection_status = Inr PV_UNAVAILABLE"

definition suncrypto_balance :: balance where "suncrypto_balance = no_balance BL_UNAVAILABLE"
definition suncrypto_open_positions :: "live_position list" where "suncrypto_open_positions = []"
definition suncrypto_trade_history :: "json list" where "suncrypto_trade_history = []"

definition SYNC_STALE_AFTER :: timedelta where "SYNC_STALE_AFTER = hour_us"

definition sync_is_stale :: "datetime option \<Rightarrow> datetime \<Rightarrow> bool" where
  "sync_is_stale event_timestamp now \<longleftrightarrow>
     (case event_timestamp of None \<Rightarrow> True | Some t \<Rightarrow> now - t > SYNC_STALE_AFTER)"

section \<open>Lemmas\<close>

lemma denormalize_body:
  assumes "CHR ''_'' \<notin> set base" "margin \<noteq> []"
  shows "denormalize_symbol (''B-'' @ base @ ''_'' @ margin) = base @ ''/'' @ margin"
proof -
  have t: "takeWhile (\<lambda>c. c \<noteq> CHR ''_'') (base @ CHR ''_'' # margin) = base"
    using assms(1) by (subst takeWhile_append2) auto
  have d: "dropWhile (\<lambda>c. c \<noteq> CHR ''_'') (base @ CHR ''_'' # margin) = CHR ''_'' # margin"
    using assms(1) by (subst dropWhile_append2) auto
  show ?thesis using assms(2) t d by (simp add: denormalize_symbol_def Let_def)
qed

lemma normalize_parts:
  assumes "CHR ''/'' \<notin> set base"
  shows "normalize_symbol (base @ ''/'' @ quote) margin = ''B-'' @ str_upper base @ ''_'' @ str_upper margin"
proof -
  have "takeWhile (\<lambda>c. c \<noteq> CHR ''/'') (base @ CHR ''/'' # quote) = base"
    using assms by (subst takeWhile_append2) auto
  then show ?thesis by (simp add: normalize_symbol_def)
qed

section \<open>Properties\<close>

text \<open>
  The two symbol conversions are inverse only for the quote of the symbol itself.  For a symbol in
  capitals, converting to the instrument in its own quote and back gives the symbol; with the
  default margin currency of the account it gives the symbol quoted in rupees, so it is the
  symbol again only when that was quoted in rupees already.
\<close>

theorem symbol_roundtrip:
  assumes "CHR ''/'' \<notin> set base" "CHR ''_'' \<notin> set base" "quote \<noteq> []"
    and "str_upper base = base" "str_upper quote = quote"
  shows "denormalize_symbol (normalize_symbol (base @ ''/'' @ quote) quote) = base @ ''/'' @ quote \<and>
    denormalize_symbol (normalize_symbol (base @ ''/'' @ quote) DEFAULT_MARGIN_CURRENCY) = base @ ''/INR'' \<and>
    (denormalize_symbol (normalize_symbol (base @ ''/'' @ quote) DEFAULT_MARGIN_CURRENCY) = base @ ''/'' @ quote \<longleftrightarrow>
       quote = ''INR'')"
proof -
  have inr: "str_upper DEFAULT_MARGIN_CURRENCY = ''INR''" by code_simp
  have "denormalize_symbol (normalize_symbol (base @ ''/'' @ quote) quote) = base @ ''/'' @ quote"
    unfolding normalize_parts [OF assms(1)] assms(4,5) by (rule denormalize_body [OF assms(2,3)])
  moreover have "denormalize_symbol (normalize_symbol (base @ ''/'' @ quote) DEFAULT_MARGIN_CURRENCY) = base @ ''/'' @ ''INR''"
    unfolding normalize_parts [OF assms(1)] assms(4) inr by (rule denormalize_body [OF assms(2)]) simp
  ultimately show ?thesis by auto
qed

theorem symbol_roundtrip_witness:
  "denormalize_symbol (normalize_symbol (''BTC'' @ ''/'' @ ''USDT'') DEFAULT_MARGIN_CURRENCY) = ''BTC/INR''"
proof -
  have "str_upper ''BTC'' = ''BTC''" "str_upper ''USDT'' = ''USDT''" by code_simp+
  then show ?thesis using symbol_roundtrip [of "''BTC''" "''USDT''"] by simp
qed

text \<open>
  An open live position always counts as a mismatch.  The provider reports the exchange's own
  instrument names, the local rows hold the platform's symbols, and the reconciliation compares
  the two as they are: if every reported pair is an instrument name and a local row is open under
  a symbol that is none, the row is reported missing, whatever the exchange holds.
\<close>

theorem reconciliation_names_differ:
  assumes "map_r reconciled_position ps = Inr xs" and "\<forall>x \<in> set xs. take 2 (xp_symbol x) = ''B-''"
    and "l \<in> set (open_live_rows d)" "take 2 (lx_symbol l) \<noteq> ''B-''"
  shows "\<lparr>mm_symbol = lx_symbol l, mm_kind = MISSING_POSITION\<rparr> \<in> set (rp_mismatches (reconcile_positions d (Inr xs)))
    \<and> \<not> is_consistent (reconcile_positions d (Inr xs))"
proof -
  let ?L = "dict_by lx_symbol (open_live_rows d)" and ?X = "dict_by xp_symbol xs"
  have "lx_symbol l \<in> fst ` set ?L" using assms(3) by simp
  then obtain v where v: "(lx_symbol l, v) \<in> set ?L" by (auto simp del: fst_dict_by)
  have "lx_symbol l \<notin> fst ` set ?X" using assms(2,4) by auto
  then have "map_of ?X (lx_symbol l) = None" by (simp add: map_of_eq_None_iff)
  then have "compare_position ?X (lx_symbol l, v) = [\<lparr>mm_symbol = lx_symbol l, mm_kind = MISSING_POSITION\<rparr>]"
    by (simp add: compare_position_def)
  then have "\<lparr>mm_symbol = lx_symbol l, mm_kind = MISSING_POSITION\<rparr> \<in> set (concat (map (compare_position ?X) ?L))"
    using v by force
  then have "\<lparr>mm_symbol = lx_symbol l, mm_kind = MISSING_POSITION\<rparr> \<in> set (rp_mismatches (reconcile_positions d (Inr xs)))"
    by (simp add: reconcile_positions_def Let_def)
  then show ?thesis by (auto simp: is_consistent_def)
qed

definition demo_live_row :: live_execution where
  "demo_live_row = \<lparr>lx_idempotency_key = ''k'', lx_source = ''ALPHAONE_AI'', lx_signal_id = None, lx_symbol = ''BTC/USDT'',
     lx_instrument = None, lx_direction = ''LONG'', lx_status = LX_POSITION_OPEN, lx_rejected_by = None,
     lx_gate_results = None, lx_entry_price = Some 100, lx_stop_loss = None, lx_take_profit_1 = None,
     lx_take_profit_2 = None, lx_take_profit_3 = None, lx_quantity = Some 2\<rparr>"

definition demo_position :: live_position where
  "demo_position = \<lparr>lp_id = JStr ''p1'', lp_symbol = JStr ''B-BTC_INR'', lp_side = ''LONG'', lp_quantity = 2,
     lp_entry_price = 100, lp_mark_price = None, lp_liquidation_price = None, lp_leverage = JNull, lp_margin = 0,
     lp_unrealized_pnl = None\<rparr>"

theorem reconciliation_names_differ_witness:
  "\<not> is_consistent (reconcile_positions (empty_db\<lparr>db_live := [demo_live_row]\<rparr>)
     (Inr [\<lparr>xp_symbol = ''B-BTC_INR'', xp_side = Some ''LONG'', xp_quantity = Some 2, xp_entry_price = Some 100\<rparr>]))"
proof -
  have "map_r reconciled_position [demo_position] =
      Inr [\<lparr>xp_symbol = ''B-BTC_INR'', xp_side = Some ''LONG'', xp_quantity = Some 2, xp_entry_price = Some 100\<rparr>]"
    by (simp add: reconciled_position_def demo_position_def bindr_def)
  moreover have "demo_live_row \<in> set (open_live_rows (empty_db\<lparr>db_live := [demo_live_row]\<rparr>))"
    by (simp add: open_live_rows_def demo_live_row_def)
  moreover have "take 2 (lx_symbol demo_live_row) \<noteq> ''B-''" by (simp add: demo_live_row_def)
  ultimately show ?thesis using reconciliation_names_differ by fastforce
qed

end
