(* ===== verification/Tables.thy ===== *)
theory Tables
  imports Schema
begin

text \<open>
  Inserts under the unique indexes of \<open>database/schema/models.py\<close>, and the declared widths of the
  text columns.  Every table with a unique key promises the same contract, stated once.
\<close>

section \<open>The interface\<close>

locale unique_table =
  fixes rows :: "'d \<Rightarrow> 'r list"
    and key :: "'r \<Rightarrow> 'k"
    and add_row :: "'r \<Rightarrow> 'd \<Rightarrow> 'd result"
  assumes add_fresh: "key r \<notin> key ` set (rows d) \<Longrightarrow> \<exists>d'. add_row r d = Inr d' \<and> rows d' = rows d @ [r]"
    and add_duplicate: "key r \<in> key ` set (rows d) \<Longrightarrow> add_row r d = Inl IntegrityError"
begin

lemma add_row_rows: "add_row r d = Inr d' \<Longrightarrow> rows d' = rows d @ [r] \<and> key r \<notin> key ` set (rows d)"
  using add_fresh [of r d] add_duplicate [of r d] by (cases "key r \<in> key ` set (rows d)") auto

lemma add_row_distinct:
  "add_row r d = Inr d' \<Longrightarrow> distinct (map key (rows d)) \<Longrightarrow> distinct (map key (rows d'))"
  by (drule add_row_rows) auto

lemma lookup_added: "add_row r d = Inr d' \<Longrightarrow> lookup_by key (key r) (rows d') = Some r"
  using add_row_rows [of r d d'] lookup_by_None [of key "key r" "rows d"] by (simp add: lookup_by_append)

lemma lookup_other:
  "add_row r d = Inr d' \<Longrightarrow> k \<noteq> key r \<Longrightarrow> lookup_by key k (rows d') = lookup_by key k (rows d)"
  by (drule add_row_rows) (auto simp: lookup_by_append split: option.splits)

lemma add_twice: "add_row r d = Inr d' \<Longrightarrow> key r' = key r \<Longrightarrow> add_row r' d' = Inl IntegrityError"
  by (drule add_row_rows) (intro add_duplicate, auto)

lemma add_row_iff: "(\<exists>d'. add_row r d = Inr d') \<longleftrightarrow> lookup_by key (key r) (rows d) = None"
  using add_fresh [of r d] add_duplicate [of r d] by (auto simp: lookup_by_None)

end

section \<open>The tables\<close>

definition insert_unique :: "('r \<Rightarrow> 'k) \<Rightarrow> 'r \<Rightarrow> 'r list \<Rightarrow> 'r list result" where
  "insert_unique key r rs = (if key r \<in> set (map key rs) then Inl IntegrityError else Inr (rs @ [r]))"

definition insert_trade :: "trade \<Rightarrow> db \<Rightarrow> db result" where
  "insert_trade t d = (case insert_unique tr_trade_id t (db_trades d) of
     Inl x \<Rightarrow> Inl x | Inr rs \<Rightarrow> Inr (d\<lparr>db_trades := rs\<rparr>))"

definition insert_live :: "live_execution \<Rightarrow> db \<Rightarrow> db result" where
  "insert_live t d = (case insert_unique lx_idempotency_key t (db_live d) of
     Inl x \<Rightarrow> Inl x | Inr rs \<Rightarrow> Inr (d\<lparr>db_live := rs\<rparr>))"

definition insert_signal :: "signal \<Rightarrow> db \<Rightarrow> db result" where
  "insert_signal t d = (case insert_unique sg_signal_id t (db_signals d) of
     Inl x \<Rightarrow> Inl x | Inr rs \<Rightarrow> Inr (d\<lparr>db_signals := rs\<rparr>))"

definition insert_outcome :: "signal_outcome \<Rightarrow> db \<Rightarrow> db result" where
  "insert_outcome t d = (case insert_unique so_signal_id t (db_outcomes d) of
     Inl x \<Rightarrow> Inl x | Inr rs \<Rightarrow> Inr (d\<lparr>db_outcomes := rs\<rparr>))"

definition message_key :: "telegram_message \<Rightarrow> string \<times> string" where
  "message_key m = (tm_source_channel m, tm_telegram_message_id m)"

definition insert_message :: "telegram_message \<Rightarrow> db \<Rightarrow> db result" where
  "insert_message t d = (case insert_unique message_key t (db_messages d) of
     Inl x \<Rightarrow> Inl x | Inr rs \<Rightarrow> Inr (d\<lparr>db_messages := rs\<rparr>))"

definition insert_prediction :: "prediction \<Rightarrow> db \<Rightarrow> db result" where
  "insert_prediction t d = (case insert_unique pr_signal_id t (db_predictions d) of
     Inl x \<Rightarrow> Inl x | Inr rs \<Rightarrow> Inr (d\<lparr>db_predictions := rs\<rparr>))"

lemmas insert_defs = insert_unique_def insert_trade_def insert_live_def insert_signal_def
  insert_outcome_def insert_message_def insert_prediction_def

interpretation trades: unique_table db_trades tr_trade_id insert_trade
  by unfold_locales (auto simp: insert_defs)

interpretation live: unique_table db_live lx_idempotency_key insert_live
  by unfold_locales (auto simp: insert_defs)

interpretation signals: unique_table db_signals sg_signal_id insert_signal
  by unfold_locales (auto simp: insert_defs)

interpretation outcomes: unique_table db_outcomes so_signal_id insert_outcome
  by unfold_locales (auto simp: insert_defs)

interpretation messages: unique_table db_messages message_key insert_message
  by unfold_locales (auto simp: insert_defs)

lemma insert_trade_frame:
  "insert_trade t d = Inr d' \<Longrightarrow> db_executions d' = db_executions d \<and> db_live d' = db_live d \<and> db_bot d' = db_bot d"
  by (auto simp: insert_defs split: if_splits)

interpretation predictions: unique_table db_predictions pr_signal_id insert_prediction
  by unfold_locales (auto simp: insert_defs)

section \<open>Declared widths\<close>

text \<open>The \<open>String(n)\<close> columns of \<open>trades\<close> that the code fills with computed text.\<close>

definition trade_fits_columns :: "trade \<Rightarrow> bool" where
  "trade_fits_columns t \<longleftrightarrow>
     length (tr_trade_id t) \<le> 30 \<and>
     (case tr_signal_id t of None \<Rightarrow> True | Some s \<Rightarrow> length s \<le> 30) \<and>
     length (tr_symbol t) \<le> 20 \<and> length (tr_side t) \<le> 10 \<and>
     length (trade_status_value (tr_status t)) \<le> 10 \<and> length (tr_mode t) \<le> 10"

lemma partially_closed_never_fits: "tr_status t = TS_PARTIALLY_CLOSED \<Longrightarrow> \<not> trade_fits_columns t"
  by (simp add: trade_fits_columns_def)

section \<open>Queries\<close>

text \<open>\<open>order_by(key.desc())\<close>; rows with equal keys come in no specified order, here the later first.\<close>

definition order_desc :: "('r \<Rightarrow> 'k::linorder) \<Rightarrow> 'r list \<Rightarrow> 'r list" where
  "order_desc key rs = rev (sort_key key rs)"

definition first :: "'r list \<Rightarrow> 'r option" where
  "first rs = (case rs of [] \<Rightarrow> None | r # _ \<Rightarrow> Some r)"

lemma first_None [simp]: "first rs = None \<longleftrightarrow> rs = []"
  by (cases rs) (simp_all add: first_def)

lemma first_in: "first rs = Some r \<Longrightarrow> r \<in> set rs"
  by (cases rs) (auto simp: first_def)

lemma set_order_desc [simp]: "set (order_desc key rs) = set rs"
  by (simp add: order_desc_def)

lemma length_order_desc [simp]: "length (order_desc key rs) = length rs"
  by (simp add: order_desc_def)

lemma order_desc_first:
  assumes "first (order_desc key rs) = Some r" "r' \<in> set rs"
  shows "key r' \<le> key r"
proof -
  have ne: "sort_key key rs \<noteq> []" using assms(2) by (metis set_sort empty_iff list.set(1))
  then have r: "r = last (sort_key key rs)"
    using assms(1) by (cases "rev (sort_key key rs)") (auto simp: first_def order_desc_def last_rev hd_rev [symmetric])
  have "sorted (map key (sort_key key rs))" by simp
  moreover obtain i where "i < length (sort_key key rs)" "sort_key key rs ! i = r'"
    using assms(2) by (metis in_set_conv_nth set_sort)
  ultimately show ?thesis
    using ne by (auto simp: r last_conv_nth sorted_iff_nth_mono)
qed

end
