(* ===== verification/Pnl.thy ===== *)
theory Pnl
  imports Schema
begin

text \<open>
  \<open>services/trade_journal/pnl.py\<close>: the profit, fee and R-multiple of a closed slice, shared by
  the paper trader, the manual journal, the position monitor and the portfolio service.
\<close>

section \<open>Slices\<close>

definition DEFAULT_FEE_RATE :: f64 where "DEFAULT_FEE_RATE = fl (4 / 10000)"

record slice_pnl =
  sp_pnl :: f64
  sp_fees :: f64
  sp_pnl_pct :: f64

definition compute_slice_pnl :: "string \<Rightarrow> f64 \<Rightarrow> f64 \<Rightarrow> f64 \<Rightarrow> int \<Rightarrow> f64 \<Rightarrow> slice_pnl" where
  "compute_slice_pnl side entry_price exit_price quantity leverage fee_rate =
     (let gross = (if side = ''LONG''
                   then fmul (fmul (fsub exit_price entry_price) quantity) (float_of_int leverage)
                   else fmul (fmul (fsub entry_price exit_price) quantity) (float_of_int leverage));
          fee = fmul (fmul (fadd entry_price exit_price) quantity) fee_rate;
          pnl = fsub gross fee;
          notional = fmul entry_price quantity;
          pnl_pct = (if 0 < notional then fmul (fdiv pnl notional) 100 else 0)
      in \<lparr>sp_pnl = pnl, sp_fees = fee, sp_pnl_pct = pnl_pct\<rparr>)"

definition compute_r_multiple :: "f64 \<Rightarrow> f64 \<Rightarrow> f64 \<Rightarrow> f64 \<Rightarrow> f64 result" where
  "compute_r_multiple entry_price stop_loss quantity total_pnl =
     (let risk = \<bar>fsub entry_price stop_loss\<bar>
      in if risk \<le> 0 \<or> quantity \<le> 0 then Inr 0 else py_div total_pnl (fmul risk quantity))"

section \<open>Lemmas\<close>

lemma DEFAULT_FEE_RATE_pos: "0 \<le> DEFAULT_FEE_RATE"
  by (simp add: DEFAULT_FEE_RATE_def fl_nonneg)

lemma slice_fees_nonneg:
  "0 \<le> e \<Longrightarrow> 0 \<le> x \<Longrightarrow> 0 \<le> q \<Longrightarrow> 0 \<le> r \<Longrightarrow> 0 \<le> sp_fees (compute_slice_pnl s e x q l r)"
  by (simp add: compute_slice_pnl_def Let_def fmul_nonneg fadd_nonneg)

lemma float_of_int_nonneg: "0 \<le> n \<Longrightarrow> 0 \<le> float_of_int n"
  by (simp add: float_of_int_def fl_nonneg)

text \<open>A slice that is closed at or beyond the entry on the losing side never reports a gain.\<close>

lemma losing_slice:
  assumes "0 \<le> e" "0 \<le> x" "0 \<le> q" "0 \<le> l" "0 \<le> r"
    and "if s = ''LONG'' then x \<le> e else e \<le> x"
  shows "sp_pnl (compute_slice_pnl s e x q l r) \<le> 0"
proof -
  let ?d = "if s = ''LONG'' then fsub x e else fsub e x"
  have "?d \<le> 0" using assms(6) by (auto intro: fsub_nonpos)
  then have "fmul (fmul ?d q) (float_of_int l) \<le> 0"
    using fmul_mono [of ?d 0 q] fmul_mono [of "fmul ?d q" 0 "float_of_int l"] assms(3,4)
    by (simp add: float_of_int_nonneg)
  moreover have "0 \<le> fmul (fmul (fadd e x) q) r"
    using assms by (intro fmul_nonneg fadd_nonneg)
  ultimately have "fsub (fmul (fmul ?d q) (float_of_int l)) (fmul (fmul (fadd e x) q) r) \<le> 0"
    by (intro fsub_nonpos) linarith
  then show ?thesis by (simp add: compute_slice_pnl_def Let_def split: if_splits)
qed

text \<open>The profit of a slice is monotone in the exit price of a long before fees.\<close>

lemma compute_r_multiple_sign:
  assumes "compute_r_multiple e sl q p = Inr r"
  shows "0 \<le> p \<Longrightarrow> 0 \<le> r" and "p \<le> 0 \<Longrightarrow> r \<le> 0"
proof -
  have "r = 0 \<or> (0 \<le> fmul \<bar>fsub e sl\<bar> q \<and> r = fdiv p (fmul \<bar>fsub e sl\<bar> q))"
    using assms by (auto simp: compute_r_multiple_def Let_def py_div_def intro: fmul_nonneg split: if_splits)
  then show "0 \<le> p \<Longrightarrow> 0 \<le> r" and "p \<le> 0 \<Longrightarrow> r \<le> 0"
    using fdiv_mono [of p 0 "fmul \<bar>fsub e sl\<bar> q"] by (auto intro: fdiv_nonneg)
qed

end
