(* ===== verification/TradeJournal.thy ===== *)
theory TradeJournal
  imports Tables Pnl
begin

text \<open>
  \<open>services/trade_journal/journal.py\<close>: the manual journal over the tables of trades and
  executions.  Every operation is one transaction: an error returns no database, so nothing is
  written.
\<close>

section \<open>Operations\<close>

datatype journal_error =
    JE_bad_side string
  | JE_not_positive
  | JE_no_trade string
  | JE_already_closed trade_status
  | JE_exceeds_remaining f64 f64
  | JE_not_open trade_status
  | JE_raised exn

type_synonym 'a journal_result = "journal_error + 'a"

definition lookup_trade :: "string \<Rightarrow> db \<Rightarrow> trade option" where
  "lookup_trade tid d = lookup_by tr_trade_id tid (db_trades d)"

definition update_trade :: "string \<Rightarrow> (trade \<Rightarrow> trade) \<Rightarrow> db \<Rightarrow> db" where
  "update_trade tid f d = d\<lparr>db_trades := update_where (\<lambda>t. tr_trade_id t = tid) f (db_trades d)\<rparr>"

definition is_exit_row :: "string \<Rightarrow> trade_execution \<Rightarrow> bool" where
  "is_exit_row tid e \<longleftrightarrow> te_trade_id e = tid \<and> te_execution_type e \<in> {ET_PARTIAL_EXIT, ET_EXIT}"

definition closed_quantity :: "db \<Rightarrow> string \<Rightarrow> f64" where
  "closed_quantity d tid = fsum (map te_quantity (filter (is_exit_row tid) (db_executions d)))"

record open_request =
  oq_symbol :: string
  oq_side :: string
  oq_entry_price :: f64
  oq_quantity :: f64
  oq_entry_time :: datetime
  oq_stop_loss :: "f64 option"
  oq_take_profit_1 :: "f64 option"
  oq_take_profit_2 :: "f64 option"
  oq_take_profit_3 :: "f64 option"
  oq_leverage :: int
  oq_signal_id :: "string option"
  oq_account_id :: "string option"
  oq_confidence :: "f64 option"

definition opened_trade :: "string \<Rightarrow> open_request \<Rightarrow> trade" where
  "opened_trade tid q = default_trade
     \<lparr>tr_trade_id := tid, tr_signal_id := oq_signal_id q, tr_symbol := oq_symbol q, tr_side := oq_side q,
      tr_status := TS_OPEN, tr_mode := ''live'', tr_entry_price := oq_entry_price q,
      tr_stop_loss := oq_stop_loss q, tr_take_profit_1 := oq_take_profit_1 q,
      tr_take_profit_2 := oq_take_profit_2 q, tr_take_profit_3 := oq_take_profit_3 q,
      tr_quantity := oq_quantity q, tr_leverage := oq_leverage q, tr_entry_time := oq_entry_time q,
      tr_is_manual_entry := True, tr_source := SRC_MANUAL,
      tr_matched_signal_confidence := oq_confidence q, tr_account_id := oq_account_id q\<rparr>"

text \<open>\<open>tid\<close> is the generated \<open>MANUAL-\<close> identifier.\<close>

definition open_trade :: "string \<Rightarrow> open_request \<Rightarrow> db \<Rightarrow> (trade \<times> db) journal_result" where
  "open_trade tid q d =
     (if oq_side q \<notin> {''LONG'', ''SHORT''} then Inl (JE_bad_side (oq_side q))
      else if oq_entry_price q \<le> 0 \<or> oq_quantity q \<le> 0 then Inl JE_not_positive
      else case insert_trade (opened_trade tid q) d of
             Inl x \<Rightarrow> Inl (JE_raised x)
           | Inr d' \<Rightarrow> Inr (opened_trade tid q, d'\<lparr>db_executions := db_executions d' @
               [\<lparr>te_trade_id = tid, te_execution_type = ET_ENTRY, te_price = oq_entry_price q,
                 te_quantity = oq_quantity q, te_timestamp = oq_entry_time q,
                 te_exchange_transaction_id = None\<rparr>]\<rparr>))"

definition quantity_epsilon :: f64 where "quantity_epsilon = fl (1 / 10 ^ 9)"

text \<open>\<open>(t.pnl / (t.entry_price * t.quantity)) * 100 if t.entry_price and t.quantity else 0.0\<close>\<close>

definition journal_pnl_pct :: "f64 \<Rightarrow> f64 \<Rightarrow> f64 \<Rightarrow> f64 result" where
  "journal_pnl_pct pnl entry quantity =
     (if entry \<noteq> 0 \<and> quantity \<noteq> 0
      then (case py_div pnl (fmul entry quantity) of Inl x \<Rightarrow> Inl x | Inr r \<Rightarrow> Inr (fmul r 100))
      else Inr 0)"

definition journal_r_multiple :: "trade \<Rightarrow> f64 \<Rightarrow> f64 result" where
  "journal_r_multiple t pnl =
     (case tr_stop_loss t of
        Some sl \<Rightarrow> if sl \<noteq> 0 then compute_r_multiple (tr_entry_price t) sl (tr_quantity t) pnl else Inr 0
      | None \<Rightarrow> Inr 0)"

text \<open>The trade after an exit: averaged exit price, accumulated profit and fees, and the status.\<close>

definition exited_trade ::
  "f64 \<Rightarrow> f64 \<Rightarrow> f64 \<Rightarrow> datetime \<Rightarrow> string option \<Rightarrow> bool \<Rightarrow> trade \<Rightarrow> trade result" where
  "exited_trade already exit_price quantity t reason full trade =
     (let slice = compute_slice_pnl (tr_side trade) (tr_entry_price trade) exit_price quantity
                    (tr_leverage trade) DEFAULT_FEE_RATE;
          prior_exit_notional = fmul (or_zero (tr_exit_price trade)) already;
          pnl = fadd (or_zero (tr_pnl trade)) (sp_pnl slice);
          fees = fadd (or_zero (tr_fees trade)) (sp_fees slice)
      in case py_div (fadd prior_exit_notional (fmul exit_price quantity)) (fadd already quantity) of
           Inl x \<Rightarrow> Inl x
         | Inr avg \<Rightarrow> (case journal_pnl_pct pnl (tr_entry_price trade) (tr_quantity trade) of
             Inl x \<Rightarrow> Inl x
           | Inr pct \<Rightarrow>
               let trade1 = trade\<lparr>tr_exit_price := Some avg, tr_pnl := Some pnl, tr_fees := Some fees,
                                  tr_pnl_pct := Some pct\<rparr>
               in if full then (case journal_r_multiple trade pnl of
                      Inl x \<Rightarrow> Inl x
                    | Inr r \<Rightarrow> Inr (trade1\<lparr>tr_status := TS_CLOSED, tr_exit_time := Some t,
                                 tr_exit_reason := reason, tr_r_multiple := Some r\<rparr>))
                  else Inr (trade1\<lparr>tr_status := TS_PARTIALLY_CLOSED\<rparr>)))"

definition record_exit ::
  "string \<Rightarrow> f64 \<Rightarrow> f64 \<Rightarrow> datetime \<Rightarrow> string option \<Rightarrow> db \<Rightarrow> (trade \<times> db) journal_result" where
  "record_exit tid exit_price quantity t reason d =
     (case lookup_trade tid d of
        None \<Rightarrow> Inl (JE_no_trade tid)
      | Some trade \<Rightarrow>
          if tr_status trade \<in> {TS_CLOSED, TS_CANCELLED} then Inl (JE_already_closed (tr_status trade))
          else if exit_price \<le> 0 \<or> quantity \<le> 0 then Inl JE_not_positive
          else let already = closed_quantity d tid; remaining = fsub (tr_quantity trade) already
          in if quantity > fadd remaining quantity_epsilon then Inl (JE_exceeds_remaining quantity remaining)
          else let full = (quantity \<ge> fsub remaining quantity_epsilon)
          in case exited_trade already exit_price quantity t reason full trade of
               Inl x \<Rightarrow> Inl (JE_raised x)
             | Inr trade' \<Rightarrow>
                 Inr (trade', (update_trade tid (\<lambda>_. trade') d)\<lparr>db_executions := db_executions d @
                   [\<lparr>te_trade_id = tid, te_execution_type = (if full then ET_EXIT else ET_PARTIAL_EXIT),
                     te_price = exit_price, te_quantity = quantity, te_timestamp = t,
                     te_exchange_transaction_id = None\<rparr>]\<rparr>))"

definition cancel_trade :: "string \<Rightarrow> string option \<Rightarrow> datetime \<Rightarrow> db \<Rightarrow> (trade \<times> db) journal_result" where
  "cancel_trade tid reason now d =
     (case lookup_trade tid d of
        None \<Rightarrow> Inl (JE_no_trade tid)
      | Some trade \<Rightarrow>
          if tr_status trade \<noteq> TS_OPEN then Inl (JE_not_open (tr_status trade))
          else let trade' = trade\<lparr>tr_status := TS_CANCELLED,
                   tr_exit_reason := Some (case reason of None \<Rightarrow> ''cancelled'' | Some r \<Rightarrow> if r = [] then ''cancelled'' else r),
                   tr_exit_time := Some now\<rparr>
               in Inr (trade', update_trade tid (\<lambda>_. trade') d))"

definition get_open_trades :: "db \<Rightarrow> string option \<Rightarrow> trade list" where
  "get_open_trades d account_id =
     filter (\<lambda>t. tr_status t \<in> {TS_OPEN, TS_PARTIALLY_CLOSED} \<and>
                (case account_id of None \<Rightarrow> True | Some a \<Rightarrow> tr_account_id t = Some a)) (db_trades d)"

definition set_signal_match ::
  "string \<Rightarrow> string \<Rightarrow> f64 option \<Rightarrow> db \<Rightarrow> (trade \<times> db) journal_result" where
  "set_signal_match tid signal_id confidence d =
     (case lookup_trade tid d of
        None \<Rightarrow> Inl (JE_no_trade tid)
      | Some trade \<Rightarrow>
          let trade' = trade\<lparr>tr_signal_id := Some signal_id, tr_matched_signal_confidence := confidence\<rparr>
          in Inr (trade', update_trade tid (\<lambda>_. trade') d))"

definition get_trade_executions :: "db \<Rightarrow> string \<Rightarrow> trade_execution list" where
  "get_trade_executions d tid = sort_key te_timestamp (filter (\<lambda>e. te_trade_id e = tid) (db_executions d))"

section \<open>Lemmas\<close>

lemma lookup_by_replace:
  assumes "key r' = k'"
  shows "lookup_by key k (update_where (\<lambda>r. key r = k') (\<lambda>_. r') rows) =
           (if k = k' then map_option (\<lambda>_. r') (lookup_by key k rows) else lookup_by key k rows)"
  using assms by (induction rows) (auto simp: lookup_by_def)

lemma lookup_trade_update:
  assumes "tr_trade_id t' = tid"
  shows "lookup_trade k (update_trade tid (\<lambda>_. t') d) =
           (if k = tid then map_option (\<lambda>_. t') (lookup_trade k d) else lookup_trade k d)"
  by (simp add: lookup_trade_def update_trade_def lookup_by_replace [where key = tr_trade_id, OF assms])

lemma lookup_trade_id: "lookup_trade tid d = Some t \<Longrightarrow> tr_trade_id t = tid \<and> t \<in> set (db_trades d)"
  unfolding lookup_trade_def by (drule lookup_by_Some) simp

lemma lookup_trade_executions [simp]: "lookup_trade tid (d\<lparr>db_executions := x\<rparr>) = lookup_trade tid d"
  by (simp add: lookup_trade_def)

lemma ids_update_trade:
  "tr_trade_id t' = tid \<Longrightarrow> map tr_trade_id (db_trades (update_trade tid (\<lambda>_. t') d)) = map tr_trade_id (db_trades d)"
  unfolding update_trade_def by (simp add: map_update_where)

text \<open>What an exit leaves alone, and what it books.\<close>

lemma exited_trade_effect:
  assumes "exited_trade already x q t reason full trade = Inr trade'"
  shows "tr_trade_id trade' = tr_trade_id trade" "tr_side trade' = tr_side trade"
    "tr_entry_price trade' = tr_entry_price trade" "tr_leverage trade' = tr_leverage trade"
    "tr_quantity trade' = tr_quantity trade"
    "tr_status trade' = (if full then TS_CLOSED else TS_PARTIALLY_CLOSED)"
    "tr_pnl trade' = Some (fadd (or_zero (tr_pnl trade))
       (sp_pnl (compute_slice_pnl (tr_side trade) (tr_entry_price trade) x q (tr_leverage trade) DEFAULT_FEE_RATE)))"
    "tr_fees trade' = Some (fadd (or_zero (tr_fees trade))
       (sp_fees (compute_slice_pnl (tr_side trade) (tr_entry_price trade) x q (tr_leverage trade) DEFAULT_FEE_RATE)))"
  using assms by (auto simp: exited_trade_def Let_def split: sum.splits if_splits)

lemma record_exit_cases:
  assumes "record_exit tid x q t reason d = Inr (trade', d')"
  obtains trade full where "lookup_trade tid d = Some trade" "tr_status trade \<notin> {TS_CLOSED, TS_CANCELLED}"
    "0 < x" "0 < q"
    "full \<longleftrightarrow> fsub (fsub (tr_quantity trade) (closed_quantity d tid)) quantity_epsilon \<le> q"
    "exited_trade (closed_quantity d tid) x q t reason full trade = Inr trade'"
    "d' = (update_trade tid (\<lambda>_. trade') d)\<lparr>db_executions := db_executions d @
       [\<lparr>te_trade_id = tid, te_execution_type = (if full then ET_EXIT else ET_PARTIAL_EXIT),
         te_price = x, te_quantity = q, te_timestamp = t, te_exchange_transaction_id = None\<rparr>]\<rparr>"
proof (cases "lookup_trade tid d")
  case None
  then show thesis using assms by (simp add: record_exit_def)
next
  case (Some trade)
  let ?full = "fsub (fsub (tr_quantity trade) (closed_quantity d tid)) quantity_epsilon \<le> q"
  show thesis
  proof (cases "exited_trade (closed_quantity d tid) x q t reason ?full trade")
    case (Inl e)
    then show thesis using assms Some by (simp add: record_exit_def Let_def split: if_splits)
  next
    case (Inr trade1)
    then show thesis using assms Some
      by (intro that [of trade ?full]) (auto simp: record_exit_def Let_def split: if_splits)
  qed
qed

section \<open>Runs of the journal\<close>

datatype journal_op =
    JO_open string open_request
  | JO_exit string f64 f64 datetime "string option"
  | JO_cancel string "string option" datetime
  | JO_match string string "f64 option"

definition commit :: "(trade \<times> db) journal_result \<Rightarrow> db \<Rightarrow> db" where
  "commit r d = (case r of Inl _ \<Rightarrow> d | Inr (_, d') \<Rightarrow> d')"

fun journal_apply :: "journal_op \<Rightarrow> db \<Rightarrow> db" where
  "journal_apply (JO_open tid q) d = commit (open_trade tid q d) d"
| "journal_apply (JO_exit tid x q t r) d = commit (record_exit tid x q t r d) d"
| "journal_apply (JO_cancel tid r now) d = commit (cancel_trade tid r now d) d"
| "journal_apply (JO_match tid sid c) d = commit (set_signal_match tid sid c d) d"

lemma journal_apply_cases:
  obtains (unchanged) "journal_apply op d = d"
  | (opened) tid q d1 where "op = JO_open tid q" "insert_trade (opened_trade tid q) d = Inr d1" "0 < oq_quantity q"
      "journal_apply op d = d1\<lparr>db_executions := db_executions d @
         [\<lparr>te_trade_id = tid, te_execution_type = ET_ENTRY, te_price = oq_entry_price q,
           te_quantity = oq_quantity q, te_timestamp = oq_entry_time q, te_exchange_transaction_id = None\<rparr>]\<rparr>"
  | (exited) tid x q t r trade' trade full where "lookup_trade tid d = Some trade"
      "tr_status trade \<notin> {TS_CLOSED, TS_CANCELLED}" "0 < x" "0 < q"
      "full \<longleftrightarrow> fsub (fsub (tr_quantity trade) (closed_quantity d tid)) quantity_epsilon \<le> q"
      "exited_trade (closed_quantity d tid) x q t r full trade = Inr trade'"
      "journal_apply op d = (update_trade tid (\<lambda>_. trade') d)\<lparr>db_executions := db_executions d @
         [\<lparr>te_trade_id = tid, te_execution_type = (if full then ET_EXIT else ET_PARTIAL_EXIT),
           te_price = x, te_quantity = q, te_timestamp = t, te_exchange_transaction_id = None\<rparr>]\<rparr>"
  | (cancelled) tid trade reason now where "lookup_trade tid d = Some trade" "tr_status trade = TS_OPEN"
      "journal_apply op d = update_trade tid (\<lambda>_. trade\<lparr>tr_status := TS_CANCELLED, tr_exit_reason := reason,
         tr_exit_time := Some now\<rparr>) d"
  | (matched) tid trade sid c where "lookup_trade tid d = Some trade"
      "journal_apply op d = update_trade tid (\<lambda>_. trade\<lparr>tr_signal_id := sid, tr_matched_signal_confidence := c\<rparr>) d"
proof (cases op)
  case (JO_open tid q)
  show thesis
  proof (cases "open_trade tid q d")
    case (Inl e)
    then show thesis using JO_open by (intro unchanged) (simp add: commit_def)
  next
    case (Inr r)
    then obtain d1 where "insert_trade (opened_trade tid q) d = Inr d1"
      by (auto simp: open_trade_def split: if_splits sum.splits)
    then show thesis using Inr JO_open insert_trade_frame [of "opened_trade tid q" d d1]
      by (intro opened [of tid q d1]) (auto simp: open_trade_def commit_def split: if_splits)
  qed
next
  case (JO_exit tid x q t r)
  show thesis
  proof (cases "record_exit tid x q t r d")
    case (Inl e)
    then show thesis using JO_exit by (intro unchanged) (simp add: commit_def)
  next
    case (Inr p)
    obtain trade' d' where p: "p = (trade', d')" by fastforce
    show thesis
      by (rule record_exit_cases [OF Inr [unfolded p]], rule exited)
        (assumption+, simp add: JO_exit commit_def Inr p)
  qed
next
  case (JO_cancel tid r now)
  show thesis
  proof (cases "cancel_trade tid r now d")
    case (Inl e)
    then show thesis using JO_cancel by (intro unchanged) (simp add: commit_def)
  next
    case (Inr p)
    then obtain trade where "lookup_trade tid d = Some trade" "tr_status trade = TS_OPEN"
      by (auto simp: cancel_trade_def split: option.splits if_splits)
    then show thesis using Inr JO_cancel
      by (intro cancelled [of tid trade]) (auto simp: cancel_trade_def commit_def Let_def)
  qed
next
  case (JO_match tid sid c)
  show thesis
  proof (cases "lookup_trade tid d")
    case None
    then show thesis using JO_match by (intro unchanged) (simp add: commit_def set_signal_match_def)
  next
    case (Some trade)
    then show thesis using JO_match
      by (intro matched [where tid = tid and trade = trade and sid = "Some sid" and c = c]) (simp_all add: commit_def set_signal_match_def Let_def)
  qed
qed

section \<open>What the journal keeps\<close>

definition exits_of :: "db \<Rightarrow> string \<Rightarrow> trade_execution list" where
  "exits_of d tid = filter (is_exit_row tid) (db_executions d)"

definition exit_slice :: "trade \<Rightarrow> trade_execution \<Rightarrow> slice_pnl" where
  "exit_slice t e = compute_slice_pnl (tr_side t) (tr_entry_price t) (te_price e) (te_quantity e)
                      (tr_leverage t) DEFAULT_FEE_RATE"

text \<open>The numbers of a row are the totals of its exit executions.\<close>

definition row_booked :: "db \<Rightarrow> trade \<Rightarrow> bool" where
  "row_booked d t \<longleftrightarrow>
     or_zero (tr_pnl t) = foldl (\<lambda>a e. fadd a (sp_pnl (exit_slice t e))) 0 (exits_of d (tr_trade_id t)) \<and>
     or_zero (tr_fees t) = foldl (\<lambda>a e. fadd a (sp_fees (exit_slice t e))) 0 (exits_of d (tr_trade_id t)) \<and>
     (tr_status t \<in> {TS_OPEN, TS_CANCELLED} \<longrightarrow> exits_of d (tr_trade_id t) = []) \<and>
     (tr_status t = TS_PARTIALLY_CLOSED \<and> fl (tr_quantity t) = tr_quantity t \<and> tr_quantity t \<le> 10 ^ 6 \<longrightarrow>
        closed_quantity d (tr_trade_id t) \<le> tr_quantity t) \<and>
     (\<forall>e \<in> set (exits_of d (tr_trade_id t)). 0 \<le> te_quantity e)"

definition journal_inv :: "db \<Rightarrow> bool" where
  "journal_inv d \<longleftrightarrow>
     distinct (map tr_trade_id (db_trades d)) \<and>
     (\<forall>e \<in> set (db_executions d). te_trade_id e \<in> tr_trade_id ` set (db_trades d)) \<and>
     (\<forall>t \<in> set (db_trades d). row_booked d t)"

lemma closed_quantity_exits: "closed_quantity d tid = fsum (map te_quantity (exits_of d tid))"
  by (simp add: closed_quantity_def exits_of_def)

lemma fl_near_small:
  assumes "0 \<le> x" "x \<le> 10 ^ 6"
  shows "fl x \<le> x + 1 / 4000000000"
proof (cases "1 / 10 ^ 30 \<le> x")
  case True
  then have "fl x \<le> x * (1 + 1 / 2 ^ 53)" by (intro fl_upper normal_bound)
  moreover have "x * (1 / 2 ^ 53) \<le> 10 ^ 6 * (1 / 2 ^ 53)" using assms(2) by (intro mult_right_mono) simp_all
  ultimately show ?thesis by (simp add: distrib_left)
next
  case False
  then have "fl x \<le> fl (1 / 10 ^ 30)" by (intro fl_mono) simp
  also have "fl (1 / 10 ^ 30) \<le> 1 / 4000000000" by code_simp
  finally show ?thesis using assms(1) by linarith
qed

text \<open>An exit that is not taken as the full close leaves the closed quantity within the position.\<close>

lemma partial_exit_within:
  assumes q: "\<not> fsub (fsub Q c) quantity_epsilon \<le> q" and "0 < q" "0 \<le> c" "fl Q = Q" "Q \<le> 10 ^ 6"
  shows "fadd c q \<le> Q"
proof -
  have eps: "9 / 10000000000 \<le> quantity_epsilon" by code_simp
  let ?D = "Q - c"
  have "0 < fsub (fsub Q c) quantity_epsilon" using assms(1,2) by linarith
  then have pos: "0 < fl ?D - quantity_epsilon"
    using b64.rnd_pos_imp [of "fl ?D - quantity_epsilon"] by (simp add: fsub_def)
  then have D: "0 < ?D" using eps b64.rnd_pos_imp [of ?D] by linarith
  have D6: "?D \<le> 10 ^ 6" using assms(3,5) by linarith
  have f: "fl ?D \<le> ?D + 1 / 4000000000" using fl_near_small [of ?D] D D6 by simp
  have "fl ?D - quantity_epsilon \<le> 10 ^ 6" using f eps D6 by linarith
  then have "fl (fl ?D - quantity_epsilon) \<le> fl ?D - quantity_epsilon + 1 / 4000000000"
    using fl_near_small [of "fl ?D - quantity_epsilon"] pos by simp
  then have "q \<le> ?D" using q f eps by (simp add: fsub_def)
  then have "fl (c + q) \<le> fl Q" by (intro fl_mono) simp
  then show ?thesis using assms(4) by (simp add: fadd_def)
qed

lemma foldl_snoc_slices: "foldl f a (xs @ [x]) = f (foldl f a xs) x" by simp

text \<open>A row whose own fields and exits do not change stays booked.\<close>

lemma row_booked_cong:
  assumes "row_booked d t" "exits_of d' (tr_trade_id t) = exits_of d (tr_trade_id t)"
    "tr_trade_id t' = tr_trade_id t" "tr_side t' = tr_side t" "tr_entry_price t' = tr_entry_price t"
    "tr_leverage t' = tr_leverage t" "tr_pnl t' = tr_pnl t" "tr_fees t' = tr_fees t" "tr_quantity t' = tr_quantity t"
    "tr_status t' = tr_status t \<or> tr_status t = TS_OPEN \<and> tr_status t' = TS_CANCELLED"
  shows "row_booked d' t'"
  using assms unfolding row_booked_def exit_slice_def closed_quantity_exits by auto

lemma exits_of_frame [simp]: "exits_of (update_trade tid f d) k = exits_of d k"
  by (simp add: exits_of_def update_trade_def)

lemma update_trade_mem:
  assumes "t \<in> set (db_trades (update_trade tid (\<lambda>_. t') d))"
  shows "t = t' \<and> tid \<in> tr_trade_id ` set (db_trades d) \<or> t \<in> set (db_trades d) \<and> tr_trade_id t \<noteq> tid"
  using assms by (auto simp: update_trade_def set_update_where)

text \<open>Replacing one row by one that keeps its key and stays booked.\<close>

lemma journal_inv_replace:
  assumes inv: "journal_inv d" and t: "lookup_trade tid d = Some t" and id: "tr_trade_id t' = tid"
    and ex: "db_trades d' = db_trades (update_trade tid (\<lambda>_. t') d)"
    and rows: "\<forall>e \<in> set (db_executions d'). te_trade_id e \<in> tr_trade_id ` set (db_trades d)"
    and same: "\<And>k. k \<noteq> tid \<Longrightarrow> exits_of d' k = exits_of d k"
    and booked: "row_booked d' t'"
  shows "journal_inv d'"
proof -
  have ids: "map tr_trade_id (db_trades d') = map tr_trade_id (db_trades d)"
    using ids_update_trade [OF id, of d] by (simp add: ex)
  then have set_ids: "tr_trade_id ` set (db_trades d') = tr_trade_id ` set (db_trades d)"
    by (metis set_map)
  have "row_booked d' s" if "s \<in> set (db_trades d')" for s
    using update_trade_mem [of s tid t' d] that ex booked inv same
    by (auto simp: journal_inv_def intro!: row_booked_cong [of d s d' s])
  then show ?thesis using inv rows unfolding journal_inv_def set_ids ids by simp
qed

lemma journal_inv_update:
  assumes inv: "journal_inv d" and t: "lookup_trade tid d = Some t" and id: "tr_trade_id t' = tid"
    and same: "tr_side t' = tr_side t" "tr_entry_price t' = tr_entry_price t" "tr_leverage t' = tr_leverage t"
      "tr_pnl t' = tr_pnl t" "tr_fees t' = tr_fees t" "tr_quantity t' = tr_quantity t"
    and st: "tr_status t' = tr_status t \<or> tr_status t = TS_OPEN \<and> tr_status t' = TS_CANCELLED"
  shows "journal_inv (update_trade tid (\<lambda>_. t') d)"
proof -
  have t': "tr_trade_id t = tid" "t \<in> set (db_trades d)" using lookup_trade_id [OF t] by simp_all
  then have b: "row_booked d t" using inv by (simp add: journal_inv_def)
  have "row_booked (update_trade tid (\<lambda>_. t') d) t'"
    by (rule row_booked_cong [OF b]) (simp_all add: t'(1) id same st)
  moreover have "\<forall>e \<in> set (db_executions (update_trade tid (\<lambda>_. t') d)). te_trade_id e \<in> tr_trade_id ` set (db_trades d)"
    using inv by (simp add: journal_inv_def update_trade_def)
  ultimately show ?thesis by (intro journal_inv_replace [OF inv t id refl]) simp_all
qed

lemma journal_apply_inv: "journal_inv d \<Longrightarrow> journal_inv (journal_apply op d)"
proof (cases op d rule: journal_apply_cases)
  case unchanged
  then show "journal_inv d \<Longrightarrow> ?thesis" by simp
next
  case (opened tid q d1)
  assume inv: "journal_inv d"
  have d1: "db_trades d1 = db_trades d @ [opened_trade tid q]" "tid \<notin> tr_trade_id ` set (db_trades d)"
    using trades.add_row_rows [OF opened(2)] by (simp_all add: opened_trade_def)
  have none: "exits_of d tid = []"
    using inv d1(2) by (auto simp: journal_inv_def exits_of_def is_exit_row_def filter_empty_conv)
  have ex: "exits_of (journal_apply op d) k = exits_of d k" for k
    unfolding opened(4) by (simp add: exits_of_def is_exit_row_def)
  have "row_booked (journal_apply op d) (opened_trade tid q)"
    using none by (simp add: row_booked_def ex opened_trade_def default_trade_def or_zero_def closed_quantity_exits)
  moreover have "row_booked (journal_apply op d) t" if "t \<in> set (db_trades d)" for t
    using that inv ex by (auto simp: journal_inv_def intro: row_booked_cong [of d t])
  ultimately show ?thesis using inv d1 unfolding journal_inv_def opened(4)
    by (auto simp: opened_trade_def)
next
  case (exited tid x q t r trade' trade full)
  assume inv: "journal_inv d"
  note eff = exited_trade_effect [OF exited(6)]
  have trade: "tr_trade_id trade = tid" "trade \<in> set (db_trades d)" using lookup_trade_id [OF exited(1)] by simp_all
  define e where "e = \<lparr>te_trade_id = tid, te_execution_type = (if full then ET_EXIT else ET_PARTIAL_EXIT),
       te_price = x, te_quantity = q, te_timestamp = t, te_exchange_transaction_id = None\<rparr>"
  have d': "journal_apply op d = (update_trade tid (\<lambda>_. trade') d)\<lparr>db_executions := db_executions d @ [e]\<rparr>"
    unfolding exited(7) e_def by simp
  have ex: "exits_of (journal_apply op d) tid = exits_of d tid @ [e]"
    by (simp add: d' exits_of_def is_exit_row_def e_def)
  have other: "k \<noteq> tid \<Longrightarrow> exits_of (journal_apply op d) k = exits_of d k" for k
    by (simp add: d' exits_of_def is_exit_row_def e_def)
  have b: "row_booked d trade" using inv trade by (simp add: journal_inv_def)
  have slices: "exit_slice trade' = exit_slice trade" by (rule ext) (simp add: exit_slice_def eff)
  have c0: "0 \<le> closed_quantity d tid"
    using b trade(1) by (auto simp: closed_quantity_exits row_booked_def intro!: fsum_nonneg)
  have "closed_quantity (journal_apply op d) tid = fadd (closed_quantity d tid) q"
    by (simp add: closed_quantity_exits ex fsum_snoc e_def)
  then have "\<not> full \<and> fl (tr_quantity trade) = tr_quantity trade \<and> tr_quantity trade \<le> 10 ^ 6 \<Longrightarrow>
      closed_quantity (journal_apply op d) tid \<le> tr_quantity trade"
    using partial_exit_within [of "tr_quantity trade" "closed_quantity d tid" q] exited(4,5) c0 by simp
  note bound = this
  have se: "exit_slice trade e = compute_slice_pnl (tr_side trade) (tr_entry_price trade) x q
      (tr_leverage trade) DEFAULT_FEE_RATE"
    by (simp add: exit_slice_def e_def)
  note b' = b [unfolded row_booked_def trade(1)]
  have "row_booked (journal_apply op d) trade'"
    unfolding row_booked_def eff trade(1) ex slices
  proof (intro conjI)
    show "or_zero (Some (fadd (or_zero (tr_pnl trade)) (sp_pnl (compute_slice_pnl (tr_side trade) (tr_entry_price trade)
        x q (tr_leverage trade) DEFAULT_FEE_RATE)))) =
      foldl (\<lambda>a e. fadd a (sp_pnl (exit_slice trade e))) 0 (exits_of d tid @ [e])"
      using b' by (simp add: or_zero_def [of "Some _"] se)
    show "or_zero (Some (fadd (or_zero (tr_fees trade)) (sp_fees (compute_slice_pnl (tr_side trade) (tr_entry_price trade)
        x q (tr_leverage trade) DEFAULT_FEE_RATE)))) =
      foldl (\<lambda>a e. fadd a (sp_fees (exit_slice trade e))) 0 (exits_of d tid @ [e])"
      using b' by (simp add: or_zero_def [of "Some _"] se)
    show "(if full then TS_CLOSED else TS_PARTIALLY_CLOSED) \<in> {TS_OPEN, TS_CANCELLED} \<longrightarrow> exits_of d tid @ [e] = []"
      by simp
    show "(if full then TS_CLOSED else TS_PARTIALLY_CLOSED) = TS_PARTIALLY_CLOSED \<and>
      fl (tr_quantity trade) = tr_quantity trade \<and> tr_quantity trade \<le> 10 ^ 6 \<longrightarrow>
      closed_quantity (journal_apply op d) tid \<le> tr_quantity trade"
      using bound by (cases full) simp_all
    show "\<forall>e' \<in> set (exits_of d tid @ [e]). 0 \<le> te_quantity e'"
      using b' exited(4) by (simp add: e_def)
  qed
  moreover have "\<forall>e' \<in> set (db_executions (journal_apply op d)). te_trade_id e' \<in> tr_trade_id ` set (db_trades d)"
    using inv trade by (auto simp: d' e_def journal_inv_def)
  moreover have "db_trades (journal_apply op d) = db_trades (update_trade tid (\<lambda>_. trade') d)" by (simp add: d')
  ultimately show ?thesis using eff(1) trade(1) other
    by (intro journal_inv_replace [OF inv exited(1)]) simp_all
next
  case (cancelled tid trade reason now)
  assume inv: "journal_inv d"
  have trade: "tr_trade_id trade = tid" "trade \<in> set (db_trades d)" using lookup_trade_id [OF cancelled(1)] by simp_all
  show ?thesis unfolding cancelled(3)
    by (rule journal_inv_update [OF inv cancelled(1)]) (simp_all add: cancelled(2) trade(1))
next
  case (matched tid trade sid c)
  assume inv: "journal_inv d"
  have trade: "tr_trade_id trade = tid" "trade \<in> set (db_trades d)" using lookup_trade_id [OF matched(1)] by simp_all
  show ?thesis unfolding matched(2)
    by (rule journal_inv_update [OF inv matched(1)]) (simp_all add: trade(1))
qed

lemma journal_run_inv: "journal_inv d \<Longrightarrow> journal_inv (fold journal_apply ops d)"
  by (induction ops arbitrary: d) (simp_all add: journal_apply_inv)

lemma journal_inv_empty: "journal_inv empty_db"
  by (simp add: journal_inv_def empty_db_def)

lemma terminal_step:
  assumes t: "lookup_trade tid d = Some t" and st: "tr_status t \<in> {TS_CLOSED, TS_CANCELLED}"
  shows "\<exists>sid c. lookup_trade tid (journal_apply op d) = Some (t\<lparr>tr_signal_id := sid, tr_matched_signal_confidence := c\<rparr>)
    \<and> exits_of (journal_apply op d) tid = exits_of d tid"
proof (cases op d rule: journal_apply_cases)
  case unchanged
  then show ?thesis using t by (intro exI [of _ "tr_signal_id t"] exI [of _ "tr_matched_signal_confidence t"]) simp
next
  case (opened k q d1)
  have "tid \<noteq> k"
    using t trades.add_row_rows [OF opened(2)] lookup_trade_id [OF t] by (auto simp: opened_trade_def)
  then have "lookup_trade tid d1 = Some t"
    using trades.lookup_other [OF opened(2), of tid] t by (simp add: lookup_trade_def opened_trade_def)
  then show ?thesis unfolding opened(4)
    by (intro exI [of _ "tr_signal_id t"] exI [of _ "tr_matched_signal_confidence t"])
      (simp add: exits_of_def is_exit_row_def)
next
  case (exited k x q t1 r trade' trade full)
  have "tid \<noteq> k" using t st exited(1,2) by auto
  moreover have "tr_trade_id trade' = k" using exited_trade_effect(1) [OF exited(6)] lookup_trade_id [OF exited(1)] by simp
  ultimately show ?thesis using t unfolding exited(7)
    by (intro exI [of _ "tr_signal_id t"] exI [of _ "tr_matched_signal_confidence t"])
      (simp add: lookup_trade_update exits_of_def is_exit_row_def)
next
  case (cancelled k trade reason now)
  have "tid \<noteq> k" using t st cancelled(1,2) by auto
  moreover have "tr_trade_id trade = k" using lookup_trade_id [OF cancelled(1)] by simp
  ultimately show ?thesis using t unfolding cancelled(3)
    by (intro exI [of _ "tr_signal_id t"] exI [of _ "tr_matched_signal_confidence t"])
      (simp add: lookup_trade_update)
next
  case (matched k trade sid c)
  have k: "tr_trade_id trade = k" using lookup_trade_id [OF matched(1)] by simp
  show ?thesis
  proof (cases "tid = k")
    case True
    then show ?thesis using t matched(1) k unfolding matched(2)
      by (intro exI [of _ sid] exI [of _ c]) (simp add: lookup_trade_update)
  next
    case False
    then show ?thesis using t k unfolding matched(2)
      by (intro exI [of _ "tr_signal_id t"] exI [of _ "tr_matched_signal_confidence t"])
        (simp add: lookup_trade_update)
  qed
qed

section \<open>Properties\<close>


definition demo_request :: open_request where
  "demo_request = \<lparr>oq_symbol = ''BTC/USDT'', oq_side = ''LONG'', oq_entry_price = 100, oq_quantity = 2,
     oq_entry_time = 0, oq_stop_loss = None, oq_take_profit_1 = None, oq_take_profit_2 = None,
     oq_take_profit_3 = None, oq_leverage = 1, oq_signal_id = None, oq_account_id = None, oq_confidence = None\<rparr>"


text \<open>
  Closed and cancelled trades are final.  Whatever journal operations follow, on this or any
  other trade, a closed or cancelled trade keeps every field except its signal match, and no exit
  is ever added to it.
\<close>

theorem journal_terminal:
  assumes "lookup_trade tid d = Some t" and "tr_status t \<in> {TS_CLOSED, TS_CANCELLED}"
  shows "\<exists>sid c. lookup_trade tid (fold journal_apply ops d) =
      Some (t\<lparr>tr_signal_id := sid, tr_matched_signal_confidence := c\<rparr>) \<and>
    exits_of (fold journal_apply ops d) tid = exits_of d tid"
  using assms
proof (induction ops arbitrary: d t)
  case Nil
  then show ?case
    by (intro exI [of _ "tr_signal_id t"] exI [of _ "tr_matched_signal_confidence t"]) simp
next
  case (Cons op ops)
  obtain sid c where s: "lookup_trade tid (journal_apply op d) = Some (t\<lparr>tr_signal_id := sid, tr_matched_signal_confidence := c\<rparr>)"
    "exits_of (journal_apply op d) tid = exits_of d tid"
    using terminal_step [OF Cons.prems] by blast
  then show ?case using Cons.IH [OF s(1)] Cons.prems(2) by simp
qed

theorem journal_terminal_witness:
  "\<exists>t. lookup_trade ''MANUAL-1'' (fold journal_apply [JO_exit ''MANUAL-1'' 110 2 7 None]
       (empty_db\<lparr>db_trades := [(opened_trade ''MANUAL-1'' demo_request)\<lparr>tr_status := TS_CANCELLED\<rparr>]\<rparr>)) = Some t \<and>
     tr_status t = TS_CANCELLED"
proof -
  let ?t = "(opened_trade ''MANUAL-1'' demo_request)\<lparr>tr_status := TS_CANCELLED\<rparr>"
  have "lookup_trade ''MANUAL-1'' (empty_db\<lparr>db_trades := [?t]\<rparr>) = Some ?t"
    by (simp add: lookup_trade_def lookup_by_def opened_trade_def)
  from journal_terminal [OF this, of "[JO_exit ''MANUAL-1'' 110 2 7 None]"]
  obtain sid c where "lookup_trade ''MANUAL-1'' (fold journal_apply [JO_exit ''MANUAL-1'' 110 2 7 None]
       (empty_db\<lparr>db_trades := [?t]\<rparr>)) = Some (?t\<lparr>tr_signal_id := sid, tr_matched_signal_confidence := c\<rparr>)"
    by (auto simp del: fold_simps)
  then show ?thesis by (intro exI conjI) (assumption, simp)
qed

end
