(* ===== verification/Monitoring.thy ===== *)
theory Monitoring
  imports TradeJournal
begin

text \<open>
  \<open>services/portfolio/account.py\<close>, \<open>services/signal_matching/matcher.py\<close> and
  \<open>services/position_monitor/monitor.py\<close>: the single account row, the match of a reported trade to the
  signals, and the exit alerts with their deduplication in the notification log.
\<close>

section \<open>The account\<close>

definition new_account :: "string \<Rightarrow> datetime \<Rightarrow> account" where
  "new_account i now = \<lparr>ac_id = i, ac_connection_status = CN_NOT_CONFIGURED, ac_last_synced_at = None, ac_created_at = now\<rparr>"

definition get_or_create_default_account :: "string \<Rightarrow> datetime \<Rightarrow> db \<Rightarrow> account \<times> db" where
  "get_or_create_default_account i now d =
     (case first (sort_key ac_created_at (db_accounts d)) of
        Some a \<Rightarrow> (a, d)
      | None \<Rightarrow> (new_account i now, d\<lparr>db_accounts := db_accounts d @ [new_account i now]\<rparr>))"

lemma default_account_frame:
  assumes "get_or_create_default_account i now d = (a, d')"
  shows "d' = d\<lparr>db_accounts := db_accounts d'\<rparr>"
  using assms by (auto simp: get_or_create_default_account_def split: option.splits)

section \<open>Matching a trade to signals\<close>

definition DEFAULT_TIME_WINDOW_HOURS :: f64 where "DEFAULT_TIME_WINDOW_HOURS = 4"
definition DEFAULT_PRICE_TOLERANCE_PCT :: f64 where "DEFAULT_PRICE_TOLERANCE_PCT = 2"
definition AMBIGUITY_MARGIN :: f64 where "AMBIGUITY_MARGIN = fl (15 / 100)"

record match_candidate =
  mc_signal_id :: string
  mc_confidence :: f64
  mc_time_diff_minutes :: f64
  mc_price_diff_pct :: f64

definition match_window :: timedelta where "match_window = 4 * hour_us"

text \<open>One signal of the window: skipped without an entry price or beyond the price tolerance.\<close>

definition match_signal :: "f64 \<Rightarrow> datetime \<Rightarrow> signal \<Rightarrow> match_candidate option" where
  "match_signal entry_price timestamp s =
     (case sg_entry_price s of
        None \<Rightarrow> None
      | Some e \<Rightarrow>
          if e = 0 then None
          else let price_diff_pct = fmul (fdiv \<bar>fsub entry_price e\<bar> e) 100
          in if price_diff_pct > DEFAULT_PRICE_TOLERANCE_PCT then None
             else let time_diff_minutes = fdiv \<bar>total_seconds (sg_timestamp s - timestamp)\<bar> 60;
                      time_score = fsub 1 (min (fdiv time_diff_minutes (fmul DEFAULT_TIME_WINDOW_HOURS 60)) 1);
                      price_score = fsub 1 (min (fdiv price_diff_pct DEFAULT_PRICE_TOLERANCE_PCT) 1);
                      confidence = fadd (fmul (1/2) time_score) (fmul (1/2) price_score)
                  in Some \<lparr>mc_signal_id = sg_signal_id s, mc_confidence = pyround 4 confidence,
                       mc_time_diff_minutes = pyround 2 time_diff_minutes,
                       mc_price_diff_pct = pyround 4 price_diff_pct\<rparr>)"

definition in_match_window :: "string \<Rightarrow> string \<Rightarrow> datetime \<Rightarrow> signal \<Rightarrow> bool" where
  "in_match_window symbol side timestamp s \<longleftrightarrow> sg_symbol s = symbol \<and> sg_signal_type s = side \<and>
     timestamp - match_window \<le> sg_timestamp s \<and> sg_timestamp s \<le> timestamp + match_window"

text \<open>The sort in descending order keeps candidates of equal confidence in their order.\<close>

definition find_candidate_signals :: "db \<Rightarrow> string \<Rightarrow> string \<Rightarrow> f64 \<Rightarrow> datetime \<Rightarrow> match_candidate list" where
  "find_candidate_signals d symbol side entry_price timestamp =
     sort_key (\<lambda>c. - mc_confidence c)
       (List.map_filter (match_signal entry_price timestamp) (filter (in_match_window symbol side timestamp) (db_signals d)))"

definition pick_confident_match :: "match_candidate list \<Rightarrow> match_candidate option" where
  "pick_confident_match cs =
     (case cs of
        [] \<Rightarrow> None
      | [c] \<Rightarrow> Some c
      | c # c' # _ \<Rightarrow> if fsub (mc_confidence c) (mc_confidence c') \<ge> AMBIGUITY_MARGIN then Some c else None)"

section \<open>Exit alerts\<close>

definition STOP_LOSS_HIT :: string where "STOP_LOSS_HIT = ''stop_loss_hit''"
definition TAKE_PROFIT_HIT :: string where "TAKE_PROFIT_HIT = ''take_profit_hit''"

record exit_alert =
  ea_trade_id :: string
  ea_symbol :: string
  ea_side :: string
  ea_reason :: string
  ea_trigger_price :: f64
  ea_current_price :: f64
  ea_entry_price :: f64
  ea_pnl :: f64

definition make_alert :: "trade \<Rightarrow> string \<Rightarrow> f64 \<Rightarrow> f64 \<Rightarrow> exit_alert" where
  "make_alert t reason trigger price =
     \<lparr>ea_trade_id = tr_trade_id t, ea_symbol = tr_symbol t, ea_side = tr_side t, ea_reason = reason,
      ea_trigger_price = trigger, ea_current_price = price, ea_entry_price = tr_entry_price t,
      ea_pnl = sp_pnl (compute_slice_pnl (tr_side t) (tr_entry_price t) price (tr_quantity t) (tr_leverage t)
                 DEFAULT_FEE_RATE)\<rparr>"

definition reached :: "bool \<Rightarrow> f64 option \<Rightarrow> f64 \<Rightarrow> bool" where
  "reached from_above level price =
     (case level of None \<Rightarrow> False | Some l \<Rightarrow> if from_above then price \<le> l else price \<ge> l)"

definition check_trade :: "f64 \<Rightarrow> trade \<Rightarrow> exit_alert option" where
  "check_trade price t =
     (let long = (tr_side t = ''LONG'')
      in if reached long (tr_stop_loss t) price
         then Some (make_alert t STOP_LOSS_HIT (the (tr_stop_loss t)) price)
         else if reached (\<not> long) (tr_take_profit_1 t) price
         then Some (make_alert t TAKE_PROFIT_HIT (the (tr_take_profit_1 t)) price)
         else None)"

definition dedup_key :: "exit_alert \<Rightarrow> string" where
  "dedup_key a = ''exit_alert:'' @ ea_trade_id a @ '':'' @ ea_reason a"

text \<open>\<open>scalar_one_or_none\<close>: two rows of one key are an error.\<close>

definition already_logged :: "db \<Rightarrow> string \<Rightarrow> bool result" where
  "already_logged d key =
     (case filter (\<lambda>n. nl_message_type n = key) (db_notifications d) of
        [] \<Rightarrow> Inr False | [_] \<Rightarrow> Inr True | _ \<Rightarrow> Inl MultipleResultsFound)"

definition check_open_positions :: "string \<Rightarrow> datetime \<Rightarrow> f64 \<Rightarrow> string \<Rightarrow> db \<Rightarrow> exit_alert list \<times> db" where
  "check_open_positions i now price symbol d =
     (let (account, d') = get_or_create_default_account i now d;
          trades = get_open_trades d' (Some (ac_id account))
      in (List.map_filter (\<lambda>t. if tr_symbol t \<noteq> symbol then None else check_trade price t) trades, d'))"

definition alert_row :: "string \<Rightarrow> notification_log" where
  "alert_row key = \<lparr>nl_signal_id = None, nl_channel = ''internal'', nl_message_type = key, nl_status = ''pending''\<rparr>"

text \<open>The loop: a row added for one alert is seen by the look-up of the next.\<close>

fun record_new_alerts :: "exit_alert list \<Rightarrow> db \<Rightarrow> (exit_alert list \<times> db) result" where
  "record_new_alerts [] d = Inr ([], d)"
| "record_new_alerts (a # as) d =
     (case already_logged d (dedup_key a) of
        Inl x \<Rightarrow> Inl x
      | Inr True \<Rightarrow> record_new_alerts as d
      | Inr False \<Rightarrow>
          (case record_new_alerts as (d\<lparr>db_notifications := db_notifications d @ [alert_row (dedup_key a)]\<rparr>) of
             Inl x \<Rightarrow> Inl x | Inr (new, d') \<Rightarrow> Inr (a # new, d')))"

definition get_new_exit_alerts :: "string \<Rightarrow> datetime \<Rightarrow> f64 \<Rightarrow> string \<Rightarrow> db \<Rightarrow> (exit_alert list \<times> db) result" where
  "get_new_exit_alerts i now price symbol d =
     (let (alerts, d') = check_open_positions i now price symbol d in record_new_alerts alerts d')"

section \<open>Lemmas on matching\<close>

lemma sort_desc_nth:
  fixes f :: "'a \<Rightarrow> f64"
  assumes "i < j" "j < length xs"
  shows "f (sort_key (\<lambda>c. - f c) xs ! j) \<le> f (sort_key (\<lambda>c. - f c) xs ! i)"
proof -
  let ?ys = "sort_key (\<lambda>c. - f c) xs"
  have "sorted (map (\<lambda>c. - f c) ?ys)" by simp
  then have "map (\<lambda>c. - f c) ?ys ! i \<le> map (\<lambda>c. - f c) ?ys ! j"
    using assms by (intro sorted_nth_mono) auto
  then show ?thesis using assms by simp
qed

lemma set_map_filter: "y \<in> set (List.map_filter f xs) \<longleftrightarrow> (\<exists>x \<in> set xs. f x = Some y)"
  by (force simp: List.map_filter_def)

lemma sorted_desc_pair:
  fixes f :: "'a \<Rightarrow> f64"
  assumes "sort_key (\<lambda>c. - f c) xs = c # cs" "c' \<in> set cs"
  shows "f c' \<le> f c"
proof -
  have "sorted (map (\<lambda>c. - f c) (c # cs))" using sorted_sort_key [of "\<lambda>c. - f c" xs] assms(1) by simp
  then show ?thesis using assms(2) by auto
qed

lemma fsub_anti: "b \<le> b' \<Longrightarrow> fsub a b' \<le> fsub a b"
  by (simp add: fsub_def fl_mono)

section \<open>Lemmas on alerts\<close>

definition exit_key :: "string \<Rightarrow> string \<Rightarrow> string" where
  "exit_key tid reason = ''exit_alert:'' @ tid @ '':'' @ reason"

lemma dedup_key_eq: "dedup_key a = exit_key (ea_trade_id a) (ea_reason a)"
  by (simp add: dedup_key_def exit_key_def)

lemma exit_key_inj:
  assumes "exit_key t1 r1 = exit_key t2 r2" "r1 \<in> {STOP_LOSS_HIT, TAKE_PROFIT_HIT}" "r2 \<in> {STOP_LOSS_HIT, TAKE_PROFIT_HIT}"
  shows "t1 = t2 \<and> r1 = r2"
proof -
  have e: "rev r1 @ CHR '':'' # rev t1 = rev r2 @ CHR '':'' # rev t2"
    using arg_cong [OF assms(1), of rev] by (simp add: exit_key_def)
  then have "r1 = r2" using assms(2,3) by (auto simp: STOP_LOSS_HIT_def TAKE_PROFIT_HIT_def)
  then show ?thesis using e by simp
qed

lemma check_trade_reason:
  "check_trade price t = Some a \<Longrightarrow> ea_reason a \<in> {STOP_LOSS_HIT, TAKE_PROFIT_HIT} \<and> ea_trade_id a = tr_trade_id t"
  by (auto simp: check_trade_def make_alert_def Let_def split: if_splits)

definition logged_once :: "db \<Rightarrow> bool" where
  "logged_once d \<longleftrightarrow> (\<forall>tid reason. length (filter (\<lambda>n. nl_message_type n = exit_key tid reason) (db_notifications d)) \<le> 1)"

definition logged :: "db \<Rightarrow> string set" where
  "logged d = nl_message_type ` set (db_notifications d)"

lemma already_logged_once:
  assumes "logged_once d"
  shows "already_logged d (exit_key tid reason) = Inr (exit_key tid reason \<in> logged d)"
proof -
  have "length (filter (\<lambda>n. nl_message_type n = exit_key tid reason) (db_notifications d)) \<le> 1"
    using assms by (simp add: logged_once_def)
  then consider "filter (\<lambda>n. nl_message_type n = exit_key tid reason) (db_notifications d) = []"
    | n where "filter (\<lambda>n. nl_message_type n = exit_key tid reason) (db_notifications d) = [n]"
    by (cases "filter (\<lambda>n. nl_message_type n = exit_key tid reason) (db_notifications d)") auto
  then show ?thesis
  proof cases
    case 1
    then show ?thesis by (auto simp: already_logged_def logged_def filter_empty_conv)
  next
    case 2
    then have "n \<in> set (filter (\<lambda>n. nl_message_type n = exit_key tid reason) (db_notifications d))" by simp
    then have "n \<in> set (db_notifications d) \<and> nl_message_type n = exit_key tid reason" by simp
    then show ?thesis using 2 by (auto simp: already_logged_def logged_def intro: rev_image_eqI)
  qed
qed

lemma logged_once_add:
  "logged_once d \<Longrightarrow> exit_key tid reason \<notin> logged d \<Longrightarrow>
     logged_once (d\<lparr>db_notifications := db_notifications d @ [alert_row (exit_key tid reason)]\<rparr>)"
  unfolding logged_once_def
proof (intro allI)
  fix t r
  assume a: "\<forall>tid reason. length (filter (\<lambda>n. nl_message_type n = exit_key tid reason) (db_notifications d)) \<le> 1"
    and n: "exit_key tid reason \<notin> logged d"
  have "filter (\<lambda>n. nl_message_type n = exit_key tid reason) (db_notifications d) = []"
    using n by (auto simp: logged_def filter_empty_conv image_iff)
  then show "length (filter (\<lambda>n. nl_message_type n = exit_key t r)
      (db_notifications (d\<lparr>db_notifications := db_notifications d @ [alert_row (exit_key tid reason)]\<rparr>))) \<le> 1"
    using a by (auto simp: alert_row_def)
qed

lemma record_new_alerts_once:
  assumes "logged_once d"
  obtains new d' where "record_new_alerts as d = Inr (new, d')" "logged_once d'"
    "logged d' = logged d \<union> dedup_key ` set as" "dedup_key ` set new = dedup_key ` set as - logged d"
    "distinct (map dedup_key new)" "set new \<subseteq> set as" "d' = d\<lparr>db_notifications := db_notifications d'\<rparr>"
  using assms
proof (induction as arbitrary: d thesis)
  case Nil
  then show ?case by simp
next
  case (Cons a as)
  have al: "already_logged d (dedup_key a) = Inr (dedup_key a \<in> logged d)"
    using already_logged_once [OF Cons.prems(2)] by (simp add: dedup_key_eq)
  show ?case
  proof (cases "dedup_key a \<in> logged d")
    case True
    obtain new d' where r: "record_new_alerts as d = Inr (new, d')" "logged_once d'"
      "logged d' = logged d \<union> dedup_key ` set as" "dedup_key ` set new = dedup_key ` set as - logged d"
      "distinct (map dedup_key new)" "set new \<subseteq> set as" "d' = d\<lparr>db_notifications := db_notifications d'\<rparr>"
      using Cons.IH Cons.prems(2) by blast
    show ?thesis by (rule Cons.prems(1) [of new d']) (use r al True in \<open>auto\<close>)
  next
    case False
    let ?d = "d\<lparr>db_notifications := db_notifications d @ [alert_row (dedup_key a)]\<rparr>"
    have once: "logged_once ?d" using logged_once_add Cons.prems(2) False by (simp add: dedup_key_eq)
    have lg: "logged ?d = insert (dedup_key a) (logged d)" by (auto simp: logged_def alert_row_def)
    obtain new d' where r: "record_new_alerts as ?d = Inr (new, d')" "logged_once d'"
      "logged d' = logged ?d \<union> dedup_key ` set as" "dedup_key ` set new = dedup_key ` set as - logged ?d"
      "distinct (map dedup_key new)" "set new \<subseteq> set as" "d' = ?d\<lparr>db_notifications := db_notifications d'\<rparr>"
      using Cons.IH once by blast
    have frame: "d' = d\<lparr>db_notifications := db_notifications d'\<rparr>" by (rule trans [OF r(7)]) simp
    have keys: "dedup_key ` set (a # new) = dedup_key ` set (a # as) - logged d"
      using r(4) False unfolding lg by auto
    show ?thesis by (rule Cons.prems(1) [of "a # new" d'])
      (use r(1-6) al False lg frame keys in auto)
  qed
qed

text \<open>A history of checks, each with the trades of the moment, a price and a symbol.\<close>

record exit_check =
  xk_trades :: "trade list"
  xk_price :: f64
  xk_symbol :: string
  xk_now :: datetime

fun run_exit_checks :: "string \<Rightarrow> exit_check list \<Rightarrow> db \<Rightarrow> (exit_alert list \<times> db) result" where
  "run_exit_checks i [] d = Inr ([], d)"
| "run_exit_checks i (k # ks) d =
     (case get_new_exit_alerts i (xk_now k) (xk_price k) (xk_symbol k) (d\<lparr>db_trades := xk_trades k\<rparr>) of
        Inl x \<Rightarrow> Inl x
      | Inr (new, d') \<Rightarrow> (case run_exit_checks i ks d' of Inl x \<Rightarrow> Inl x | Inr (rest, d'') \<Rightarrow> Inr (new @ rest, d'')))"

text \<open>The breaches of an account that exists, at a check.\<close>

definition breaches :: "string \<Rightarrow> exit_check \<Rightarrow> exit_alert list" where
  "breaches account k = List.map_filter (\<lambda>t. if tr_symbol t \<noteq> xk_symbol k then None else check_trade (xk_price k) t)
     (filter (\<lambda>t. tr_status t \<in> {TS_OPEN, TS_PARTIALLY_CLOSED} \<and> tr_account_id t = Some account) (xk_trades k))"

lemma check_with_account:
  assumes "first (sort_key ac_created_at (db_accounts d)) = Some a"
  shows "check_open_positions i (xk_now k) (xk_price k) (xk_symbol k) (d\<lparr>db_trades := xk_trades k\<rparr>) =
     (breaches (ac_id a) k, d\<lparr>db_trades := xk_trades k\<rparr>)"
  using assms by (simp add: check_open_positions_def get_or_create_default_account_def get_open_trades_def breaches_def)

lemma run_exit_checks_once:
  assumes "logged_once d" "first (sort_key ac_created_at (db_accounts d)) = Some acc"
  shows "\<exists>as d'. run_exit_checks i ks d = Inr (as, d') \<and> distinct (map dedup_key as) \<and>
     dedup_key ` set as = (\<Union>k \<in> set ks. dedup_key ` set (breaches (ac_id acc) k)) - logged d \<and>
     set as \<subseteq> (\<Union>k \<in> set ks. set (breaches (ac_id acc) k))"
  using assms
proof (induction ks arbitrary: d)
  case (Cons k ks)
  let ?d = "d\<lparr>db_trades := xk_trades k\<rparr>"
  have "logged_once ?d" using Cons.prems(1) by (simp add: logged_once_def)
  then obtain new d1 where r: "record_new_alerts (breaches (ac_id acc) k) ?d = Inr (new, d1)" "logged_once d1"
      "logged d1 = logged ?d \<union> dedup_key ` set (breaches (ac_id acc) k)"
      "dedup_key ` set new = dedup_key ` set (breaches (ac_id acc) k) - logged ?d"
      "distinct (map dedup_key new)" "set new \<subseteq> set (breaches (ac_id acc) k)" "d1 = ?d\<lparr>db_notifications := db_notifications d1\<rparr>"
    by (rule record_new_alerts_once)
  have g: "get_new_exit_alerts i (xk_now k) (xk_price k) (xk_symbol k) ?d = Inr (new, d1)"
    by (simp add: get_new_exit_alerts_def check_with_account [OF Cons.prems(2)] r(1))
  have "db_accounts d1 = db_accounts (?d\<lparr>db_notifications := db_notifications d1\<rparr>)" using r(7) by (rule arg_cong)
  then have "first (sort_key ac_created_at (db_accounts d1)) = Some acc" using Cons.prems(2) by simp
  then obtain rest d2 where m: "run_exit_checks i ks d1 = Inr (rest, d2)" "distinct (map dedup_key rest)"
     "dedup_key ` set rest = (\<Union>k \<in> set ks. dedup_key ` set (breaches (ac_id acc) k)) - logged d1"
     "set rest \<subseteq> (\<Union>k \<in> set ks. set (breaches (ac_id acc) k))"
    using Cons.IH [OF r(2)] by blast
  have lg: "logged ?d = logged d" by (simp add: logged_def)
  have disj: "dedup_key ` set new \<inter> dedup_key ` set rest = {}" using r(3,4) m(3) by blast
  have union: "dedup_key ` set (new @ rest) = (\<Union>k \<in> set (k # ks). dedup_key ` set (breaches (ac_id acc) k)) - logged d"
    using r(3,4) m(3) unfolding lg set_append image_Un list.set by auto
  have sub: "set (new @ rest) \<subseteq> (\<Union>k \<in> set (k # ks). set (breaches (ac_id acc) k))" using r(6) m(4) by auto
  have "run_exit_checks i (k # ks) d = Inr (new @ rest, d2)" by (simp add: g m(1))
  moreover have "distinct (map dedup_key (new @ rest))" using r(5) m(2) disj by auto
  ultimately show ?case using union sub by blast
qed simp

lemma breaches_iff:
  "a \<in> set (breaches account k) \<longleftrightarrow> (\<exists>t \<in> set (xk_trades k). tr_status t \<in> {TS_OPEN, TS_PARTIALLY_CLOSED} \<and>
     tr_account_id t = Some account \<and> tr_symbol t = xk_symbol k \<and> check_trade (xk_price k) t = Some a)"
  by (auto simp: breaches_def set_map_filter)

text \<open>The breach of a position, stated on its own levels.\<close>

definition breached :: "f64 \<Rightarrow> trade \<Rightarrow> string \<Rightarrow> bool" where
  "breached price t reason \<longleftrightarrow>
     (let stop = (\<exists>l. tr_stop_loss t = Some l \<and> (if tr_side t = ''LONG'' then price \<le> l else l \<le> price));
          target = (\<exists>l. tr_take_profit_1 t = Some l \<and> (if tr_side t = ''LONG'' then l \<le> price else price \<le> l))
      in reason = STOP_LOSS_HIT \<and> stop \<or> reason = TAKE_PROFIT_HIT \<and> target \<and> \<not> stop)"

lemma check_trade_iff:
  "(\<exists>a. check_trade price t = Some a \<and> ea_reason a = reason) \<longleftrightarrow> breached price t reason"
proof -
  have ne: "STOP_LOSS_HIT \<noteq> TAKE_PROFIT_HIT" by (simp add: STOP_LOSS_HIT_def TAKE_PROFIT_HIT_def)
  have stop: "(\<exists>l. x = Some l \<and> (if b then price \<le> l else l \<le> price)) \<longleftrightarrow> reached b x price" for b x
    by (cases x) (simp_all add: reached_def)
  have target: "(\<exists>l. x = Some l \<and> (if b then l \<le> price else price \<le> l)) \<longleftrightarrow> reached (\<not> b) x price" for b x
    by (cases x) (simp_all add: reached_def)
  show ?thesis unfolding breached_def stop target check_trade_def Let_def
    using ne by (auto simp: make_alert_def)
qed

lemma breach_keys:
  "(\<exists>a \<in> set (breaches account k). ea_trade_id a = tid \<and> ea_reason a = reason) \<longleftrightarrow>
   (\<exists>t \<in> set (xk_trades k). tr_status t \<in> {TS_OPEN, TS_PARTIALLY_CLOSED} \<and> tr_account_id t = Some account \<and>
      tr_symbol t = xk_symbol k \<and> tr_trade_id t = tid \<and> breached (xk_price k) t reason)"
proof -
  have id: "ea_trade_id a = tr_trade_id t" if "check_trade (xk_price k) t = Some a" for a t
    using check_trade_reason [OF that] by simp
  show ?thesis
  proof
    assume "\<exists>a \<in> set (breaches account k). ea_trade_id a = tid \<and> ea_reason a = reason"
    then obtain a t where "t \<in> set (xk_trades k)" "tr_status t \<in> {TS_OPEN, TS_PARTIALLY_CLOSED}" "tr_account_id t = Some account"
      "tr_symbol t = xk_symbol k" "check_trade (xk_price k) t = Some a" "ea_trade_id a = tid" "ea_reason a = reason"
      by (auto simp: breaches_iff)
    then show "\<exists>t \<in> set (xk_trades k). tr_status t \<in> {TS_OPEN, TS_PARTIALLY_CLOSED} \<and> tr_account_id t = Some account \<and>
        tr_symbol t = xk_symbol k \<and> tr_trade_id t = tid \<and> breached (xk_price k) t reason"
      using id by (intro bexI [of _ t]) (auto simp flip: check_trade_iff)
  next
    assume "\<exists>t \<in> set (xk_trades k). tr_status t \<in> {TS_OPEN, TS_PARTIALLY_CLOSED} \<and> tr_account_id t = Some account \<and>
        tr_symbol t = xk_symbol k \<and> tr_trade_id t = tid \<and> breached (xk_price k) t reason"
    then obtain a t where "t \<in> set (xk_trades k)" "tr_status t \<in> {TS_OPEN, TS_PARTIALLY_CLOSED}" "tr_account_id t = Some account"
      "tr_symbol t = xk_symbol k" "check_trade (xk_price k) t = Some a" "tr_trade_id t = tid" "ea_reason a = reason"
      unfolding check_trade_iff [symmetric] by blast
    then show "\<exists>a \<in> set (breaches account k). ea_trade_id a = tid \<and> ea_reason a = reason"
      using id by (intro bexI [of _ a]) (auto simp: breaches_iff)
  qed
qed

section \<open>Properties\<close>


definition demo_account :: account where "demo_account = new_account ''acc'' 0"

definition demo_open :: trade where
  "demo_open = default_trade\<lparr>tr_trade_id := ''T'', tr_side := ''LONG'', tr_stop_loss := Some 90,
     tr_entry_price := 100, tr_quantity := 1, tr_account_id := Some ''acc''\<rparr>"


text \<open>
  A trade is linked to a signal only without doubt.  The match picked for a trade is a signal of
  the same symbol and side at most four hours away whose stated entry is within two percent of the
  trade's as computed, and every other candidate scores at least the ambiguity margin less; no match is picked
  only when there is no candidate at all or when two candidates score within the margin.
\<close>

theorem confident_match_sound:
  fixes d symbol side price t
  defines "cs \<equiv> find_candidate_signals d symbol side price t"
  shows "case pick_confident_match cs of
     Some c \<Rightarrow> \<exists>s \<in> set (db_signals d). sg_signal_id s = mc_signal_id c \<and> sg_symbol s = symbol \<and> sg_signal_type s = side \<and>
         \<bar>sg_timestamp s - t\<bar> \<le> 4 * hour_us \<and>
         (\<exists>e. sg_entry_price s = Some e \<and> fmul (fdiv \<bar>fsub price e\<bar> e) 100 \<le> 2) \<and>
         cs = c # tl cs \<and> list_all (\<lambda>c'. AMBIGUITY_MARGIN \<le> fsub (mc_confidence c) (mc_confidence c')) (tl cs)
   | None \<Rightarrow> cs = [] \<or> (\<exists>c c' rest. cs = c # c' # rest \<and> fsub (mc_confidence c) (mc_confidence c') < AMBIGUITY_MARGIN)"
proof (cases "pick_confident_match cs")
  case None
  then show ?thesis by (auto simp: pick_confident_match_def not_le split: list.splits if_splits)
next
  case (Some c)
  then obtain rest where cs: "cs = c # rest" and
    gap: "\<And>c' r. rest = c' # r \<Longrightarrow> AMBIGUITY_MARGIN \<le> fsub (mc_confidence c) (mc_confidence c')"
    by (auto simp: pick_confident_match_def split: list.splits if_splits)
  let ?f = "List.map_filter (match_signal price t) (filter (in_match_window symbol side t) (db_signals d))"
  have sorted: "sort_key (\<lambda>c. - mc_confidence c) ?f = c # rest" using cs by (simp add: cs_def find_candidate_signals_def)
  have "c \<in> set ?f" by (metis list.set_intros(1) set_sort sorted)
  then obtain s where s: "s \<in> set (db_signals d)" "in_match_window symbol side t s" "match_signal price t s = Some c"
    by (auto simp: set_map_filter)
  have far: "AMBIGUITY_MARGIN \<le> fsub (mc_confidence c) (mc_confidence c')" if c': "c' \<in> set rest" for c'
  proof (cases rest)
    case (Cons c1 r)
    have "sorted (map (\<lambda>c. - mc_confidence c) (c # rest))" using sorted_sort_key [of "\<lambda>c. - mc_confidence c" ?f] sorted by simp
    then have "mc_confidence c' \<le> mc_confidence c1" using c' Cons by auto
    then show ?thesis using gap [OF Cons] fsub_anti [of "mc_confidence c'" "mc_confidence c1" "mc_confidence c"] by linarith
  qed (use c' in simp)
  have "\<bar>sg_timestamp s - t\<bar> \<le> 4 * hour_us" using s(2) by (auto simp: in_match_window_def match_window_def)
  moreover have "sg_signal_id s = mc_signal_id c \<and> (\<exists>e. sg_entry_price s = Some e \<and> fmul (fdiv \<bar>fsub price e\<bar> e) 100 \<le> 2)"
    using s(3) by (auto simp: match_signal_def Let_def DEFAULT_PRICE_TOLERANCE_PCT_def split: option.splits if_splits)
  ultimately show ?thesis using s(1,2) Some cs far
    by (auto simp: in_match_window_def list_all_iff intro!: bexI [of _ s])
qed

end
