(* ===== verification/AccountSync.thy ===== *)
theory AccountSync
  imports Exchange Monitoring
begin

text \<open>
  \<open>services/exchange/coindcx_sync.py\<close>: the account's balance, positions and fills as the exchange
  reports them, written to the tables.  One call reads the clock once.  A result comes with the
  database as last committed: an exception keeps what was committed before it.
\<close>

section \<open>Balance\<close>

definition note_event :: "sync_status \<Rightarrow> datetime \<Rightarrow> db \<Rightarrow> db" where
  "note_event s now d = d\<lparr>db_sync_events := db_sync_events d @ [\<lparr>se_source = ''coindcx'', se_status = s, se_timestamp = now\<rparr>]\<rparr>"

definition update_account :: "string \<Rightarrow> (account \<Rightarrow> account) \<Rightarrow> db \<Rightarrow> db" where
  "update_account i f d = d\<lparr>db_accounts := update_where (\<lambda>a. ac_id a = i) f (db_accounts d)\<rparr>"

definition sync_balance :: "coindcx_api \<Rightarrow> string \<Rightarrow> datetime \<Rightarrow> db \<Rightarrow> balance result \<times> db" where
  "sync_balance api i now d =
     (let (account, d0) = get_or_create_default_account i now d
      in case get_balance api of
           Inl x \<Rightarrow> (Inl x, d0)
         | Inr b \<Rightarrow>
             (Inr b,
              case bl_status b of
                BL_OK \<Rightarrow>
                  let d1 = update_account (ac_id account)
                        (\<lambda>a. a\<lparr>ac_connection_status := CN_LIVE, ac_last_synced_at := Some now\<rparr>) d0
                  in note_event SY_SUCCESS now (d1\<lparr>db_snapshots := db_snapshots d1 @
                       [\<lparr>as_account_id = ac_id account, as_timestamp = now, as_equity = or_zero (bl_total_equity b),
                         as_available_balance = bl_available_balance b, as_used_margin = bl_used_margin b, as_source = DS_LIVE, as_note = None\<rparr>]\<rparr>)
              | BL_NOT_CONFIGURED \<Rightarrow>
                  update_account (ac_id account) (\<lambda>a. a\<lparr>ac_connection_status := CN_NOT_CONFIGURED\<rparr>) d0
              | BL_UNAVAILABLE \<Rightarrow>
                  note_event SY_FAILED now
                    (update_account (ac_id account) (\<lambda>a. a\<lparr>ac_connection_status := CN_DISCONNECTED\<rparr>) d0)))"

section \<open>Positions\<close>

text \<open>\<open>new_trade_id\<close> of the generated part of the identifier.\<close>

definition coindcx_trade_id :: "string \<Rightarrow> string" where "coindcx_trade_id u = ''COINDCX-'' @ u"

definition json_int :: "coindcx_api \<Rightarrow> json \<Rightarrow> int result" where
  "json_int api j =
     (case j of JInt n \<Rightarrow> Inr n | JNum x \<Rightarrow> Inr (py_int x) | JBool b \<Rightarrow> Inr (if b then 1 else 0)
      | JStr s \<Rightarrow> (case ca_read_int api s of None \<Rightarrow> Inl ValueError | Some n \<Rightarrow> Inr n) | _ \<Rightarrow> Inl TypeError)"

text \<open>The value of the text column; anything but a text or null is refused by the database driver.\<close>

definition position_id :: "json \<Rightarrow> string option result" where
  "position_id j = (case j of JStr s \<Rightarrow> Inr (Some s) | JNull \<Rightarrow> Inr None | _ \<Rightarrow> Inl TypeError)"

definition position_key :: "trade \<Rightarrow> json" where
  "position_key t = (case tr_exchange_position_id t of None \<Rightarrow> JNull | Some s \<Rightarrow> JStr s)"

definition match_position :: "string \<Rightarrow> live_position \<Rightarrow> datetime \<Rightarrow> db \<Rightarrow> match_status \<times> string option \<times> f64 option" where
  "match_position symbol p entry_time d =
     (let candidates = find_candidate_signals d symbol (lp_side p) (lp_entry_price p) entry_time
      in case pick_confident_match candidates of
           Some m \<Rightarrow> (MS_AUTO_MATCHED, Some (mc_signal_id m), Some (mc_confidence m))
         | None \<Rightarrow> if candidates \<noteq> [] then (MS_AMBIGUOUS, None, None) else (MS_UNMATCHED, None, None))"

definition create_trade_from_position ::
  "coindcx_api \<Rightarrow> string \<Rightarrow> string \<Rightarrow> datetime \<Rightarrow> live_position \<Rightarrow> db \<Rightarrow> (trade \<times> db) result" where
  "create_trade_from_position api u account_id entry_time p d =
     (case lp_symbol p of
        JStr pair \<Rightarrow>
          let symbol = denormalize_symbol pair;
              (match_status, signal_id, confidence) = match_position symbol p entry_time d
          in bindr (if json_truthy (lp_leverage p) then json_int api (lp_leverage p) else Inr 1) (\<lambda>leverage.
             bindr (position_id (lp_id p)) (\<lambda>pid.
               let t = default_trade
                 \<lparr>tr_trade_id := coindcx_trade_id u, tr_signal_id := signal_id, tr_symbol := symbol, tr_side := lp_side p,
                  tr_status := TS_OPEN, tr_mode := ''live'', tr_entry_price := lp_entry_price p,
                  tr_quantity := lp_quantity p, tr_leverage := leverage, tr_entry_time := entry_time,
                  tr_is_manual_entry := False, tr_source := SRC_COINDCX_SYNC,
                  tr_matched_signal_confidence := confidence, tr_account_id := Some account_id,
                  tr_exchange_position_id := pid, tr_mark_price := lp_mark_price p,
                  tr_liquidation_price := lp_liquidation_price p, tr_unrealized_pnl := lp_unrealized_pnl p,
                  tr_margin := Some (lp_margin p), tr_data_source := DS_LIVE, tr_match_status := match_status,
                  tr_last_synced_at := Some entry_time\<rparr>
               in bindr (insert_trade t d) (\<lambda>d1. Inr (t, d1\<lparr>db_executions := db_executions d1 @
                    [\<lparr>te_trade_id = tr_trade_id t, te_execution_type = ET_ENTRY, te_price = lp_entry_price p,
                      te_quantity = lp_quantity p, te_timestamp = entry_time,
                      te_exchange_transaction_id = None\<rparr>]\<rparr>))))
      | _ \<Rightarrow> Inl AttributeError)"

definition fill_float :: "coindcx_api \<Rightarrow> string \<Rightarrow> json \<Rightarrow> f64 result" where
  "fill_float api k f = bindr (raw_item f k) (json_float (ca_read_float api))"

fun fills_on_side :: "string \<Rightarrow> json list \<Rightarrow> json list result" where
  "fills_on_side side [] = Inr []"
| "fills_on_side side (f # fs) = bindr (obj_get f ''side'') (\<lambda>s. bindr (fills_on_side side fs) (\<lambda>rest.
     Inr (if s = JStr side then f # rest else rest)))"

definition closing_vwap :: "coindcx_api \<Rightarrow> json list \<Rightarrow> (f64 \<times> f64) result" where
  "closing_vwap api fills =
     bindr (map_r (fill_float api ''quantity'') fills) (\<lambda>quantities.
     bindr (map_r (\<lambda>f. bindr (fill_float api ''price'' f) (\<lambda>p. bindr (fill_float api ''quantity'' f)
              (\<lambda>q. Inr (fmul p q)))) fills) (\<lambda>notionals.
     bindr (py_div (fsum notionals) (fsum quantities)) (\<lambda>vwap. Inr (fsum quantities, vwap))))"

text \<open>\<open>None\<close> when the trade stays open with a failed event; \<open>record_exit\<close> commits.\<close>

definition close_disappeared_position ::
  "coindcx_api \<Rightarrow> datetime \<Rightarrow> trade \<Rightarrow> db \<Rightarrow> (trade option \<times> db) result" where
  "close_disappeared_position api now t d =
     (let since = (case tr_last_synced_at t of Some s \<Rightarrow> s | None \<Rightarrow> tr_entry_time t);
          reply = get_trade_history api now (tr_symbol t) (Some (dt_date since)) (Some (dt_date now));
          closing_side = (if tr_side t = ''LONG'' then ''sell'' else ''buy'')
      in bindr (items reply) (\<lambda>fills. bindr (fills_on_side closing_side fills) (\<lambda>relevant.
           if relevant = [] then Inr (None, note_event SY_FAILED now d)
           else bindr (closing_vwap api relevant) (\<lambda>(total_qty, vwap_exit).
             case record_exit (tr_trade_id t) vwap_exit (min total_qty (tr_quantity t)) now
                    (Some ''coindcx_position_closed'') d of
               Inr (t', d') \<Rightarrow> Inr (Some t', d')
             | Inl (JE_raised x) \<Rightarrow> Inl x
             | Inl _ \<Rightarrow> Inr (None, note_event SY_FAILED now d)))))"

record sync_report =
  sy_opened :: "trade list"
  sy_updated :: "trade list"
  sy_closed :: "trade list"

definition open_synced :: "trade \<Rightarrow> bool" where
  "open_synced t \<longleftrightarrow> tr_source t = SRC_COINDCX_SYNC \<and> tr_status t \<in> {TS_OPEN, TS_PARTIALLY_CLOSED}"

definition existing_open :: "string \<Rightarrow> db \<Rightarrow> (json \<times> trade) list" where
  "existing_open account_id d =
     dict_by position_key (filter (\<lambda>t. tr_account_id t = Some account_id \<and> open_synced t) (db_trades d))"

definition mark_trade :: "live_position \<Rightarrow> datetime \<Rightarrow> trade \<Rightarrow> trade" where
  "mark_trade p now t =
     t\<lparr>tr_mark_price := lp_mark_price p, tr_unrealized_pnl := lp_unrealized_pnl p,
       tr_liquidation_price := lp_liquidation_price p, tr_margin := Some (lp_margin p), tr_last_synced_at := Some now\<rparr>"

text \<open>The loop over the reported positions; \<open>uid\<close> numbers the generated identifiers.\<close>

fun sync_live ::
  "coindcx_api \<Rightarrow> (nat \<Rightarrow> string) \<Rightarrow> string \<Rightarrow> datetime \<Rightarrow> (json \<times> trade) list \<Rightarrow> (json \<times> live_position) list \<Rightarrow> db
     \<Rightarrow> (trade list \<times> trade list \<times> db) result" where
  "sync_live api uid a now existing [] d = Inr ([], [], d)"
| "sync_live api uid a now existing ((k, p) # ps) d =
     (case map_of existing k of
        Some t \<Rightarrow>
          let t' = mark_trade p now t
          in bindr (sync_live api uid a now existing ps (update_trade (tr_trade_id t) (\<lambda>_. t') d))
               (\<lambda>(opened, updated, d'). Inr (opened, t' # updated, d'))
      | None \<Rightarrow>
          bindr (create_trade_from_position api (uid 0) a now p d) (\<lambda>(t, d1).
          bindr (sync_live api (\<lambda>n. uid (Suc n)) a now existing ps d1)
            (\<lambda>(opened, updated, d'). Inr (t # opened, updated, d'))))"

text \<open>The loop over the positions that disappeared; \<open>c\<close> is the database last committed.\<close>

fun sync_gone ::
  "coindcx_api \<Rightarrow> datetime \<Rightarrow> trade list \<Rightarrow> db \<Rightarrow> db \<Rightarrow> (trade list \<times> db) result \<times> db" where
  "sync_gone api now [] c d = (Inr ([], d), c)"
| "sync_gone api now (t # ts) c d =
     (case close_disappeared_position api now t d of
        Inl x \<Rightarrow> (Inl x, c)
      | Inr (None, d1) \<Rightarrow> sync_gone api now ts c d1
      | Inr (Some t', d1) \<Rightarrow>
          (case sync_gone api now ts d1 d1 of
             (Inl x, c') \<Rightarrow> (Inl x, c')
           | (Inr (rest, d'), c') \<Rightarrow> (Inr (t' # rest, d'), c')))"

definition sync_positions ::
  "coindcx_api \<Rightarrow> (nat \<Rightarrow> string) \<Rightarrow> string \<Rightarrow> datetime \<Rightarrow> db \<Rightarrow> sync_report result \<times> db" where
  "sync_positions api uid i now d =
     (let (account, d0) = get_or_create_default_account i now d; a = ac_id account
      in case get_open_positions api of
           Inl x \<Rightarrow> (Inl x, d0)
         | Inr live_positions \<Rightarrow>
             let live = dict_by lp_id live_positions; existing = existing_open a d0
             in case sync_live api uid a now existing live d0 of
                  Inl x \<Rightarrow> (Inl x, d0)
                | Inr (opened, updated, d1) \<Rightarrow>
                    (case sync_gone api now (map snd (filter (\<lambda>(k, _). k \<notin> set (map fst live)) existing)) d0 d1 of
                       (Inl x, c) \<Rightarrow> (Inl x, c)
                     | (Inr (gone, d2), _) \<Rightarrow>
                         (Inr \<lparr>sy_opened = opened, sy_updated = updated, sy_closed = gone\<rparr>,
                          update_account a (\<lambda>a. a\<lparr>ac_last_synced_at := Some now\<rparr>) d2)))"

section \<open>Fills\<close>

definition exchange_transaction_id :: "coindcx_api \<Rightarrow> json \<Rightarrow> string" where
  "exchange_transaction_id api f =
     (let part = (\<lambda>k. ca_show api (json_get f k JNull))
      in part ''order_id'' @ '':'' @ part ''timestamp'' @ '':'' @ part ''price'' @ '':'' @ part ''quantity'' @ '':'' @ part ''side'')"

definition fill_or_zero :: "coindcx_api \<Rightarrow> string \<Rightarrow> json \<Rightarrow> f64 result" where
  "fill_or_zero api k f = json_float (ca_read_float api) (json_get f k (JInt 0))"

definition fill_time :: "coindcx_api \<Rightarrow> datetime \<Rightarrow> json \<Rightarrow> datetime result" where
  "fill_time api now f =
     (if json_truthy (json_get f ''timestamp'' JNull)
      then bindr (fill_or_zero api ''timestamp'' f) (\<lambda>ms. Inr (timedelta_seconds (fdiv ms 1000)))
      else Inr now)"

definition fill_trade :: "string \<Rightarrow> db \<Rightarrow> trade option" where
  "fill_trade symbol d =
     first (order_desc tr_entry_time
       (filter (\<lambda>t. tr_exchange_position_id t \<noteq> None \<and> tr_symbol t = symbol) (db_trades d)))"

definition has_transaction :: "string \<Rightarrow> db \<Rightarrow> bool" where
  "has_transaction x d \<longleftrightarrow> Some x \<in> te_exchange_transaction_id ` set (db_executions d)"

definition fill_row :: "coindcx_api \<Rightarrow> datetime \<Rightarrow> trade \<Rightarrow> json \<Rightarrow> trade_execution result" where
  "fill_row api now t f =
     bindr (fill_or_zero api ''price'' f) (\<lambda>price. bindr (fill_or_zero api ''quantity'' f) (\<lambda>quantity.
     bindr (fill_time api now f) (\<lambda>time.
       Inr \<lparr>te_trade_id = tr_trade_id t, te_execution_type = ET_ENTRY, te_price = price, te_quantity = quantity,
            te_timestamp = time, te_exchange_transaction_id = Some (exchange_transaction_id api f)\<rparr>)))"

fun ingest_fills :: "coindcx_api \<Rightarrow> datetime \<Rightarrow> string \<Rightarrow> json list \<Rightarrow> db \<Rightarrow> (nat \<times> db) result" where
  "ingest_fills api now symbol [] d = Inr (0, d)"
| "ingest_fills api now symbol (f # fs) d =
     bindr (obj_get f ''order_id'') (\<lambda>_.
       if has_transaction (exchange_transaction_id api f) d then ingest_fills api now symbol fs d
       else case fill_trade symbol d of
              None \<Rightarrow> ingest_fills api now symbol fs d
            | Some t \<Rightarrow>
                bindr (fill_row api now t f) (\<lambda>e.
                bindr (ingest_fills api now symbol fs (d\<lparr>db_executions := db_executions d @ [e]\<rparr>))
                  (\<lambda>(n, d'). Inr (Suc n, d'))))"

definition sync_trade_fills :: "coindcx_api \<Rightarrow> datetime \<Rightarrow> string \<Rightarrow> db \<Rightarrow> (nat \<times> db) result" where
  "sync_trade_fills api now symbol d =
     bindr (items (get_trade_history api now symbol None None)) (\<lambda>fills. ingest_fills api now symbol fills d)"

section \<open>Lemmas\<close>

lemma bindr_Inr: "bindr r f = Inr y \<longleftrightarrow> (\<exists>x. r = Inr x \<and> f x = Inr y)"
  by (auto simp: bindr_def split: sum.splits)

definition slot :: "trade \<Rightarrow> string option \<times> json" where
  "slot t = (tr_account_id t, position_key t)"

definition open_slots :: "db \<Rightarrow> (string option \<times> json) set" where
  "open_slots d = slot ` {t \<in> set (db_trades d). open_synced t}"

text \<open>At most one open synchronised trade per account and exchange position.\<close>

definition sync_inv :: "db \<Rightarrow> bool" where
  "sync_inv d \<longleftrightarrow> distinct (map tr_trade_id (db_trades d)) \<and> inj_on slot {t \<in> set (db_trades d). open_synced t}"

definition shown :: "live_position \<Rightarrow> datetime \<Rightarrow> trade \<Rightarrow> bool" where
  "shown p now t \<longleftrightarrow> tr_mark_price t = lp_mark_price p \<and> tr_unrealized_pnl t = lp_unrealized_pnl p \<and>
     tr_liquidation_price t = lp_liquidation_price p \<and> tr_margin t = Some (lp_margin p) \<and> tr_last_synced_at t = Some now"

lemma set_update_trade:
  assumes "distinct (map tr_trade_id (db_trades d))" "t \<in> set (db_trades d)"
  shows "set (db_trades (update_trade (tr_trade_id t) (\<lambda>_. t') d)) = insert t' (set (db_trades d) - {t})"
proof -
  have "{x \<in> set (db_trades d). tr_trade_id x = tr_trade_id t} = {t}"
    using assms by (auto simp: distinct_map inj_on_def)
  then show ?thesis by (auto simp: update_trade_def set_update_where)
qed

lemma sync_inv_replace:
  assumes "sync_inv d" "t \<in> set (db_trades d)" "open_synced t" "tr_trade_id t' = tr_trade_id t" "slot t' = slot t"
  shows "sync_inv (update_trade (tr_trade_id t) (\<lambda>_. t') d)"
    and "open_slots (update_trade (tr_trade_id t) (\<lambda>_. t') d) \<subseteq> open_slots d"
proof -
  have s: "set (db_trades (update_trade (tr_trade_id t) (\<lambda>_. t') d)) = insert t' (set (db_trades d) - {t})"
    using assms(1,2) by (intro set_update_trade) (simp_all add: sync_inv_def)
  have inj: "inj_on slot {x \<in> set (db_trades d). open_synced x}" using assms(1) by (simp add: sync_inv_def)
  have other: "slot x \<noteq> slot t" if "x \<in> set (db_trades d)" "x \<noteq> t" "open_synced x" for x
    using inj_onD [OF inj, of x t] that assms(2,3) by auto
  have "inj_on slot {x \<in> insert t' (set (db_trades d) - {t}). open_synced x}"
    using inj other assms(5) by (auto simp: inj_on_def)
  then show "sync_inv (update_trade (tr_trade_id t) (\<lambda>_. t') d)"
    using assms(1,4) ids_update_trade [of t' "tr_trade_id t" d] by (simp add: sync_inv_def s)
  show "open_slots (update_trade (tr_trade_id t) (\<lambda>_. t') d) \<subseteq> open_slots d"
    using assms(2,3,5) by (auto simp: open_slots_def s)
qed

lemma insert_trade_rows:
  "insert_trade t d = Inr d' \<Longrightarrow> d' = d\<lparr>db_trades := db_trades d @ [t]\<rparr> \<and> tr_trade_id t \<notin> tr_trade_id ` set (db_trades d)"
  by (auto simp: insert_defs split: if_splits)

lemma create_from_position:
  assumes "create_trade_from_position api u a now p d = Inr (t, d')"
  shows "db_trades d' = db_trades d @ [t]" "tr_trade_id t \<notin> tr_trade_id ` set (db_trades d)"
    "open_synced t" "slot t = (Some a, lp_id p)" "shown p now t"
    "db_accounts d' = db_accounts d" "db_sync_events d' = db_sync_events d"
proof -
  obtain pair ms sid conf lev pid t0 d1 where
    pid: "position_id (lp_id p) = Inr pid" and
    t0: "t = default_trade
                 \<lparr>tr_trade_id := coindcx_trade_id u, tr_signal_id := sid, tr_symbol := denormalize_symbol pair, tr_side := lp_side p,
                  tr_status := TS_OPEN, tr_mode := ''live'', tr_entry_price := lp_entry_price p,
                  tr_quantity := lp_quantity p, tr_leverage := lev, tr_entry_time := now,
                  tr_is_manual_entry := False, tr_source := SRC_COINDCX_SYNC,
                  tr_matched_signal_confidence := conf, tr_account_id := Some a,
                  tr_exchange_position_id := pid, tr_mark_price := lp_mark_price p,
                  tr_liquidation_price := lp_liquidation_price p, tr_unrealized_pnl := lp_unrealized_pnl p,
                  tr_margin := Some (lp_margin p), tr_data_source := DS_LIVE, tr_match_status := ms,
                  tr_last_synced_at := Some now\<rparr>" and
    ins: "insert_trade t d = Inr d1" and d': "d' = d1\<lparr>db_executions := db_executions d1 @
                    [\<lparr>te_trade_id = tr_trade_id t, te_execution_type = ET_ENTRY, te_price = lp_entry_price p,
                      te_quantity = lp_quantity p, te_timestamp = now,
                      te_exchange_transaction_id = None\<rparr>]\<rparr>"
    using assms unfolding create_trade_from_position_def
    by (cases "lp_symbol p") (auto simp: Let_def bindr_Inr split: prod.splits)
  note rows = insert_trade_rows [OF ins]
  show "db_trades d' = db_trades d @ [t]" "tr_trade_id t \<notin> tr_trade_id ` set (db_trades d)"
    "db_accounts d' = db_accounts d" "db_sync_events d' = db_sync_events d"
    using rows by (simp_all add: d')
  show "open_synced t" "shown p now t" by (simp_all add: t0 open_synced_def shown_def)
  show "slot t = (Some a, lp_id p)"
    using pid by (auto simp: t0 slot_def position_key_def position_id_def split: json.splits)
qed

text \<open>One turn of the loop over the reported positions.\<close>

lemma sync_one:
  assumes inv: "sync_inv d"
    and ex: "\<And>t. map_of existing (lp_id p) = Some t \<Longrightarrow> t \<in> set (db_trades d) \<and> open_synced t \<and> slot t = (Some a, lp_id p)"
    and fresh: "map_of existing (lp_id p) = None \<Longrightarrow> (Some a, lp_id p) \<notin> open_slots d"
    and step: "case map_of existing (lp_id p) of
        Some t \<Rightarrow> e = update_trade (tr_trade_id t) (\<lambda>_. mark_trade p now t) d
      | None \<Rightarrow> \<exists>t. create_trade_from_position api u a now p d = Inr (t, e)"
  shows "sync_inv e" "open_slots e \<subseteq> insert (Some a, lp_id p) (open_slots d)"
    "\<exists>t \<in> set (db_trades e). open_synced t \<and> slot t = (Some a, lp_id p) \<and> shown p now t"
    "{t \<in> set (db_trades d). open_synced t \<longrightarrow> slot t \<noteq> (Some a, lp_id p)} \<subseteq> set (db_trades e)"
    "db_accounts e = db_accounts d" "db_sync_events e = db_sync_events d"
proof -
  have all: "sync_inv e \<and> open_slots e \<subseteq> insert (Some a, lp_id p) (open_slots d) \<and>
    (\<exists>t \<in> set (db_trades e). open_synced t \<and> slot t = (Some a, lp_id p) \<and> shown p now t) \<and>
    {t \<in> set (db_trades d). open_synced t \<longrightarrow> slot t \<noteq> (Some a, lp_id p)} \<subseteq> set (db_trades e) \<and>
    db_accounts e = db_accounts d \<and> db_sync_events e = db_sync_events d"
  proof (cases "map_of existing (lp_id p)")
    case (Some t)
    note t = ex [OF Some]
    have e: "e = update_trade (tr_trade_id t) (\<lambda>_. mark_trade p now t) d" using step Some by simp
    have same: "tr_trade_id (mark_trade p now t) = tr_trade_id t" "slot (mark_trade p now t) = slot t"
      "open_synced (mark_trade p now t) = open_synced t" "shown p now (mark_trade p now t)"
      by (simp_all add: mark_trade_def slot_def position_key_def open_synced_def shown_def)
    have rows: "set (db_trades e) = insert (mark_trade p now t) (set (db_trades d) - {t})"
      unfolding e using inv t by (intro set_update_trade) (simp_all add: sync_inv_def)
    show ?thesis
      using sync_inv_replace [OF inv _ _ same(1,2)] t rows same
      by (auto simp: e update_trade_def)
  next
    case None
    then obtain t where c: "create_trade_from_position api u a now p d = Inr (t, e)" using step by auto
    note n = create_from_position [OF c]
    have ne: "slot x \<noteq> slot t" if "x \<in> set (db_trades d)" "open_synced x" for x
    proof
      assume "slot x = slot t"
      then have "(Some a, lp_id p) \<in> open_slots d"
        unfolding open_slots_def using that n(4) by (intro image_eqI [where x = x]) auto
      then show False using fresh [OF None] by simp
    qed
    then have "inj_on slot {x \<in> set (db_trades e). open_synced x}"
      using inv ne [THEN not_sym] by (auto simp: sync_inv_def inj_on_def n(1))
    then show ?thesis
      using inv n by (auto simp: sync_inv_def open_slots_def)
  qed
  then show "sync_inv e" "open_slots e \<subseteq> insert (Some a, lp_id p) (open_slots d)"
    "\<exists>t \<in> set (db_trades e). open_synced t \<and> slot t = (Some a, lp_id p) \<and> shown p now t"
    "{t \<in> set (db_trades d). open_synced t \<longrightarrow> slot t \<noteq> (Some a, lp_id p)} \<subseteq> set (db_trades e)"
    "db_accounts e = db_accounts d" "db_sync_events e = db_sync_events d" by blast+
qed

lemma sync_live_step:
  assumes "sync_live api uid a now existing ((k, p) # ps) d = Inr (op, up, d')"
  obtains d1 uid' op' up' where "case map_of existing k of
        Some t \<Rightarrow> d1 = update_trade (tr_trade_id t) (\<lambda>_. mark_trade p now t) d
      | None \<Rightarrow> \<exists>t. create_trade_from_position api (uid 0) a now p d = Inr (t, d1)"
    "sync_live api uid' a now existing ps d1 = Inr (op', up', d')"
  using assms by (cases "map_of existing k") (fastforce simp: bindr_Inr Let_def)+

lemma sync_live_shows:
  assumes "sync_live api uid a now existing ps d = Inr (op, up, d')" "sync_inv d"
    and "distinct (map fst ps)" "\<forall>(k, p) \<in> set ps. lp_id p = k"
    and "\<And>k t. k \<in> fst ` set ps \<Longrightarrow> map_of existing k = Some t \<Longrightarrow>
           t \<in> set (db_trades d) \<and> open_synced t \<and> slot t = (Some a, k)"
    and "\<And>k. k \<in> fst ` set ps \<Longrightarrow> map_of existing k = None \<Longrightarrow> (Some a, k) \<notin> open_slots d"
  shows "sync_inv d' \<and>
    (\<forall>(k, p) \<in> set ps. \<exists>t \<in> set (db_trades d'). open_synced t \<and> slot t = (Some a, k) \<and> shown p now t) \<and>
    {t \<in> set (db_trades d). open_synced t \<longrightarrow> slot t \<notin> Pair (Some a) ` fst ` set ps} \<subseteq> set (db_trades d') \<and>
    db_accounts d' = db_accounts d \<and> db_sync_events d' = db_sync_events d"
  using assms
proof (induction ps arbitrary: uid d op up)
  case Nil
  then show ?case by simp
next
  case (Cons kp ps)
  obtain k p where kp: "kp = (k, p)" by fastforce
  then have k: "lp_id p = k" using Cons.prems(4) by simp
  obtain d1 uid' op' up' where s: "case map_of existing k of
        Some t \<Rightarrow> d1 = update_trade (tr_trade_id t) (\<lambda>_. mark_trade p now t) d
      | None \<Rightarrow> \<exists>t. create_trade_from_position api (uid 0) a now p d = Inr (t, d1)"
    and rest: "sync_live api uid' a now existing ps d1 = Inr (op', up', d')"
    by (rule sync_live_step [OF Cons.prems(1) [unfolded kp]])
  have nk: "k \<notin> fst ` set ps" using Cons.prems(3) by (simp add: kp)
  have hit: "\<And>t. map_of existing (lp_id p) = Some t \<Longrightarrow> t \<in> set (db_trades d) \<and> open_synced t \<and> slot t = (Some a, lp_id p)"
    using Cons.prems(5) [of k] by (simp add: kp k)
  have miss: "map_of existing (lp_id p) = None \<Longrightarrow> (Some a, lp_id p) \<notin> open_slots d"
    using Cons.prems(6) [of k] by (simp add: kp k)
  have one: "sync_inv d1" "open_slots d1 \<subseteq> insert (Some a, k) (open_slots d)"
    "\<exists>t \<in> set (db_trades d1). open_synced t \<and> slot t = (Some a, k) \<and> shown p now t"
    "{t \<in> set (db_trades d). open_synced t \<longrightarrow> slot t \<noteq> (Some a, k)} \<subseteq> set (db_trades d1)"
    "db_accounts d1 = db_accounts d" "db_sync_events d1 = db_sync_events d"
    using sync_one [OF Cons.prems(2) hit miss s [folded k]] by (simp_all add: k)
  have "t \<in> set (db_trades d1) \<and> open_synced t \<and> slot t = (Some a, k')"
    if "k' \<in> fst ` set ps" "map_of existing k' = Some t" for k' t
  proof -
    have "t \<in> set (db_trades d) \<and> open_synced t \<and> slot t = (Some a, k')"
      using Cons.prems(5) [of k' t] that by (simp add: kp)
    moreover have "k' \<noteq> k" using that(1) nk by blast
    ultimately show ?thesis using one(4) by auto
  qed
  moreover have "\<And>k'. k' \<in> fst ` set ps \<Longrightarrow> map_of existing k' = None \<Longrightarrow> (Some a, k') \<notin> open_slots d1"
    using Cons.prems(6) one(2) nk by (auto simp: kp)
  ultimately have IH: "sync_inv d' \<and>
    (\<forall>(k, p) \<in> set ps. \<exists>t \<in> set (db_trades d'). open_synced t \<and> slot t = (Some a, k) \<and> shown p now t) \<and>
    {t \<in> set (db_trades d1). open_synced t \<longrightarrow> slot t \<notin> Pair (Some a) ` fst ` set ps} \<subseteq> set (db_trades d') \<and>
    db_accounts d' = db_accounts d1 \<and> db_sync_events d' = db_sync_events d1"
    using Cons.IH [OF rest one(1)] Cons.prems(3,4) by (simp add: kp)
  have keep: "{t \<in> set (db_trades d1). open_synced t \<longrightarrow> slot t \<notin> Pair (Some a) ` fst ` set ps} \<subseteq> set (db_trades d')"
    using IH by blast
  obtain t where t: "t \<in> set (db_trades d1)" "open_synced t" "slot t = (Some a, k)" "shown p now t"
    using one(3) by blast
  have "slot t \<notin> Pair (Some a) ` fst ` set ps" using nk t(3) by auto
  then have "t \<in> set (db_trades d')" using keep t(1) by blast
  then have here: "\<exists>t \<in> set (db_trades d'). open_synced t \<and> slot t = (Some a, k) \<and> shown p now t" using t by blast
  have "{t \<in> set (db_trades d). open_synced t \<longrightarrow> slot t \<notin> Pair (Some a) ` fst ` set (kp # ps)} \<subseteq> set (db_trades d')"
  proof
    fix x assume x: "x \<in> {t \<in> set (db_trades d). open_synced t \<longrightarrow> slot t \<notin> Pair (Some a) ` fst ` set (kp # ps)}"
    then have "x \<in> set (db_trades d1)" using one(4) by (auto simp: kp)
    then show "x \<in> set (db_trades d')" using x keep by auto
  qed
  then show ?case using IH one(5,6) here by (simp add: kp)
qed

text \<open>One position that disappeared: an exit booked now, or the trade as it was and a failed event.\<close>

lemma exited_trade_keeps:
  assumes "exited_trade already x q t reason full trade = Inr trade'"
  shows "tr_source trade' = tr_source trade" "slot trade' = slot trade"
  using assms by (auto simp: exited_trade_def Let_def slot_def position_key_def split: sum.splits if_splits)

definition exit_booked :: "datetime \<Rightarrow> string \<Rightarrow> db \<Rightarrow> bool" where
  "exit_booked now tid d \<longleftrightarrow> (\<exists>e \<in> set (db_executions d). is_exit_row tid e \<and> te_timestamp e = now)"

definition settled :: "datetime \<Rightarrow> nat \<Rightarrow> db \<Rightarrow> trade \<Rightarrow> bool" where
  "settled now n d t \<longleftrightarrow>
     (\<exists>t' \<in> set (db_trades d). tr_trade_id t' = tr_trade_id t \<and> tr_status t' \<in> {TS_CLOSED, TS_PARTIALLY_CLOSED}) \<and>
       exit_booked now (tr_trade_id t) d \<or>
     t \<in> set (db_trades d) \<and> SY_FAILED \<in> se_status ` set (drop n (db_sync_events d))"

lemma record_exit_synced:
  assumes "record_exit (tr_trade_id t) x q now reason d = Inr (t', d1)" "sync_inv d" "t \<in> set (db_trades d)" "open_synced t"
  shows "sync_inv d1" "set (db_trades d1) = insert t' (set (db_trades d) - {t})" "tr_trade_id t' = tr_trade_id t"
    "tr_status t' \<in> {TS_CLOSED, TS_PARTIALLY_CLOSED}" "exit_booked now (tr_trade_id t) d1"
    "set (db_executions d) \<subseteq> set (db_executions d1)" "db_sync_events d1 = db_sync_events d"
    "db_accounts d1 = db_accounts d"
proof -
  obtain trade full where l: "lookup_trade (tr_trade_id t) d = Some trade"
    and e: "exited_trade (closed_quantity d (tr_trade_id t)) x q now reason full trade = Inr t'"
    and d1: "d1 = (update_trade (tr_trade_id t) (\<lambda>_. t') d)\<lparr>db_executions := db_executions d @
       [\<lparr>te_trade_id = tr_trade_id t, te_execution_type = (if full then ET_EXIT else ET_PARTIAL_EXIT),
         te_price = x, te_quantity = q, te_timestamp = now, te_exchange_transaction_id = None\<rparr>]\<rparr>"
    using record_exit_cases [OF assms(1)] by blast
  have dist: "distinct (map tr_trade_id (db_trades d))" using assms(2) by (simp add: sync_inv_def)
  have "trade = t" using l lookup_by_distinct [OF dist assms(3)] by (simp add: lookup_trade_def)
  note eff = exited_trade_effect [OF e] exited_trade_keeps [OF e]
  have same: "tr_trade_id t' = tr_trade_id t" "slot t' = slot t" using eff \<open>trade = t\<close> by simp_all
  have inv: "sync_inv (update_trade (tr_trade_id t) (\<lambda>_. t') d)"
    by (rule sync_inv_replace [OF assms(2-4) same])
  then show "sync_inv d1" by (simp add: sync_inv_def d1)
  show "set (db_trades d1) = insert t' (set (db_trades d) - {t})"
    using set_update_trade [OF dist assms(3)] by (simp add: d1)
  show "tr_trade_id t' = tr_trade_id t" by (rule same)
  show "tr_status t' \<in> {TS_CLOSED, TS_PARTIALLY_CLOSED}" using eff(6) by simp
  show "exit_booked now (tr_trade_id t) d1" by (auto simp: exit_booked_def d1 is_exit_row_def)
  show "set (db_executions d) \<subseteq> set (db_executions d1)" "db_sync_events d1 = db_sync_events d"
    "db_accounts d1 = db_accounts d" by (auto simp: d1 update_trade_def)
qed

lemma close_position_cases:
  assumes "close_disappeared_position api now t d = Inr (r, d1)"
  shows "r = None \<and> d1 = note_event SY_FAILED now d \<or>
    (\<exists>t' x q. r = Some t' \<and> record_exit (tr_trade_id t) x q now (Some ''coindcx_position_closed'') d = Inr (t', d1))"
proof -
  obtain relevant where body: "(if relevant = [] then Inr (None, note_event SY_FAILED now d)
      else bindr (closing_vwap api relevant) (\<lambda>(total_qty, vwap_exit).
             case record_exit (tr_trade_id t) vwap_exit (min total_qty (tr_quantity t)) now
                    (Some ''coindcx_position_closed'') d of
               Inr (t', d') \<Rightarrow> Inr (Some t', d')
             | Inl (JE_raised x) \<Rightarrow> Inl x
             | Inl _ \<Rightarrow> Inr (None, note_event SY_FAILED now d))) = Inr (r, d1)"
    using assms unfolding close_disappeared_position_def Let_def bindr_Inr by blast
  show ?thesis
  proof (cases "relevant = []")
    case True
    then show ?thesis using body by simp
  next
    case False
    then obtain q x where e: "(case record_exit (tr_trade_id t) x q now (Some ''coindcx_position_closed'') d of
               Inr (t', d') \<Rightarrow> Inr (Some t', d')
             | Inl (JE_raised x) \<Rightarrow> Inl x
             | Inl _ \<Rightarrow> Inr (None, note_event SY_FAILED now d)) = Inr (r, d1)"
      using body by (auto simp: bindr_Inr)
    show ?thesis
    proof (cases "record_exit (tr_trade_id t) x q now (Some ''coindcx_position_closed'') d")
      case (Inl y)
      then show ?thesis using e by (cases y) auto
    next
      case (Inr p)
      then show ?thesis using e by (cases p) auto
    qed
  qed
qed

lemma settled_mono:
  assumes "settled now n d1 t" "{x \<in> set (db_trades d1). x \<notin> set ts} \<subseteq> set (db_trades d2)"
    and "tr_trade_id t \<notin> tr_trade_id ` set ts" "set (db_executions d1) \<subseteq> set (db_executions d2)"
    and "db_sync_events d2 = db_sync_events d1 @ evs"
  shows "settled now n d2 t"
proof -
  have keep: "x \<in> set (db_trades d2)" if "x \<in> set (db_trades d1)" "tr_trade_id x = tr_trade_id t" for x
  proof -
    have "x \<notin> set ts" using assms(3) that(2) by (metis image_eqI)
    then show ?thesis using assms(2) that(1) by auto
  qed
  show ?thesis
  proof (cases "t \<in> set (db_trades d1) \<and> SY_FAILED \<in> se_status ` set (drop n (db_sync_events d1))")
    case True
    have "set (drop n (db_sync_events d1)) \<subseteq> set (drop n (db_sync_events d2))" unfolding assms(5) by auto
    then have "se_status ` set (drop n (db_sync_events d1)) \<subseteq> se_status ` set (drop n (db_sync_events d2))" by (rule image_mono)
    then show ?thesis using True keep [of t] unfolding settled_def by auto
  next
    case False
    then obtain t' where t': "t' \<in> set (db_trades d1)" "tr_trade_id t' = tr_trade_id t" "tr_status t' \<in> {TS_CLOSED, TS_PARTIALLY_CLOSED}"
      and b: "exit_booked now (tr_trade_id t) d1"
      using assms(1) unfolding settled_def by auto
    have "exit_booked now (tr_trade_id t) d2" using b assms(4) unfolding exit_booked_def by auto
    then show ?thesis using keep [OF t'(1,2)] t' unfolding settled_def by auto
  qed
qed

lemma sync_gone_settles:
  assumes "sync_gone api now ts c d = (r, c')" "sync_inv d" "sync_inv c"
    and "\<forall>t \<in> set ts. t \<in> set (db_trades d) \<and> open_synced t" "distinct (map tr_trade_id ts)"
    and "n \<le> length (db_sync_events d)"
  shows "sync_inv c' \<and> (case r of Inl _ \<Rightarrow> True | Inr (_, d') \<Rightarrow> sync_inv d' \<and>
    {x \<in> set (db_trades d). x \<notin> set ts} \<subseteq> set (db_trades d') \<and> (\<forall>t \<in> set ts. settled now n d' t) \<and>
    set (db_executions d) \<subseteq> set (db_executions d') \<and> (\<exists>evs. db_sync_events d' = db_sync_events d @ evs) \<and>
    db_accounts d' = db_accounts d)"
  using assms
proof (induction ts arbitrary: c d r)
  case Nil
  then show ?case by auto
next
  case (Cons t ts)
  have t: "t \<in> set (db_trades d)" "open_synced t" "tr_trade_id t \<notin> tr_trade_id ` set ts"
    using Cons.prems(4,5) by auto
  show ?case
  proof (cases "close_disappeared_position api now t d")
    case (Inl x)
    then show ?thesis using Cons.prems(1,3) by auto
  next
    case (Inr rd)
    obtain ro d1 where rd: "rd = (ro, d1)" by fastforce
    note close = Inr [unfolded rd]
    obtain c1 r1 where rest: "sync_gone api now ts c1 d1 = (r1, c')" "sync_inv c1"
      and r1: "\<And>cl d'. r = Inr (cl, d') \<Longrightarrow> \<exists>cl'. r1 = Inr (cl', d')"
      and one: "sync_inv d1" "{x \<in> set (db_trades d). x \<noteq> t} \<subseteq> set (db_trades d1)" "settled now n d1 t"
        "set (db_executions d) \<subseteq> set (db_executions d1)" "\<exists>evs. db_sync_events d1 = db_sync_events d @ evs"
        "db_accounts d1 = db_accounts d"
    proof -
      consider (failed) "ro = None" "d1 = note_event SY_FAILED now d"
        | (booked) t' x q where "ro = Some t'" "record_exit (tr_trade_id t) x q now (Some ''coindcx_position_closed'') d = Inr (t', d1)"
        using close_position_cases [OF close] by blast
      then show thesis
      proof cases
        case failed
        have "settled now n d1 t" using t(1) Cons.prems(6) by (simp add: settled_def failed(2) note_event_def)
        then show thesis
          using Cons.prems(1-3) close
          by (intro that [of c r]) (auto simp: failed note_event_def sync_inv_def)
      next
        case booked
        note e = record_exit_synced [OF booked(2) Cons.prems(2) t(1,2)]
        have "settled now n d1 t" using e(2-5) by (auto simp: settled_def)
        then show thesis
          using Cons.prems(1) close e
          by (intro that [of d1 "fst (sync_gone api now ts d1 d1)"]) (auto simp: booked(1) split: prod.splits sum.splits)
      qed
    qed
    have mem: "\<forall>x \<in> set ts. x \<in> set (db_trades d1) \<and> open_synced x"
      using one(2) Cons.prems(4) t(3) by (auto intro: image_eqI)
    have n: "n \<le> length (db_sync_events d1)" using one(5) Cons.prems(6) by auto
    note IH = Cons.IH [OF rest(1) one(1) rest(2) mem _ n]
    have IH': "sync_inv c' \<and> (case r1 of Inl _ \<Rightarrow> True | Inr (_, d') \<Rightarrow> sync_inv d' \<and>
      {x \<in> set (db_trades d1). x \<notin> set ts} \<subseteq> set (db_trades d') \<and> (\<forall>t \<in> set ts. settled now n d' t) \<and>
      set (db_executions d1) \<subseteq> set (db_executions d') \<and> (\<exists>evs. db_sync_events d' = db_sync_events d1 @ evs) \<and>
      db_accounts d' = db_accounts d1)"
      using IH Cons.prems(5) by simp
    show ?thesis
    proof (cases r)
      case (Inl x)
      then show ?thesis using IH' by simp
    next
      case (Inr p)
      obtain cl d' where p: "p = (cl, d')" by fastforce
      obtain cl' where r1': "r1 = Inr (cl', d')" using r1 Inr p by blast
      have after: "sync_inv d'" "{x \<in> set (db_trades d1). x \<notin> set ts} \<subseteq> set (db_trades d')" "\<forall>t \<in> set ts. settled now n d' t"
        "set (db_executions d1) \<subseteq> set (db_executions d')" "\<exists>evs. db_sync_events d' = db_sync_events d1 @ evs"
        "db_accounts d' = db_accounts d1"
        using IH' by (simp_all add: r1')
      obtain evs where evs: "db_sync_events d' = db_sync_events d1 @ evs" using after(5) by blast
      have "settled now n d' t" by (rule settled_mono [OF one(3) after(2) t(3) after(4) evs])
      then show ?thesis using IH' after one(2,4-6) by (auto simp: Inr p)
    qed
  qed
qed

lemma existing_entry:
  assumes "(k, t) \<in> set (existing_open a d)"
  shows "t \<in> set (db_trades d)" "open_synced t" "slot t = (Some a, k)"
  using dict_by_value [OF assms [unfolded existing_open_def]] by (auto simp: slot_def)

lemma existing_complete:
  assumes "sync_inv d" "t \<in> set (db_trades d)" "open_synced t" "tr_account_id t = Some a"
  shows "(position_key t, t) \<in> set (existing_open a d)"
proof -
  have "position_key t \<in> fst ` set (existing_open a d)" using assms(2-4) by (auto simp: existing_open_def)
  then obtain y where y: "(position_key t, y) \<in> set (existing_open a d)" by auto
  have "slot y = slot t" using existing_entry(3) [OF y] assms(4) by (simp add: slot_def)
  then have "y = t" using existing_entry(1,2) [OF y] assms(1-3) by (auto simp: sync_inv_def inj_on_def)
  then show ?thesis using y by simp
qed

lemma distinct_gone:
  assumes "sync_inv d"
  shows "distinct (map tr_trade_id (map snd (filter (\<lambda>(k, _). P k) (existing_open a d))))"
proof -
  have dk: "distinct (map fst (filter (\<lambda>(k, _). P k) (existing_open a d)))"
    using distinct_dict_by [of position_key "filter (\<lambda>t. tr_account_id t = Some a \<and> open_synced t) (db_trades d)"]
    by (simp add: existing_open_def distinct_map_filter)
  have "inj_on (tr_trade_id \<circ> snd) (set (filter (\<lambda>(k, _). P k) (existing_open a d)))"
  proof (rule inj_onI)
    fix x y assume x: "x \<in> set (filter (\<lambda>(k, _). P k) (existing_open a d))" and y: "y \<in> set (filter (\<lambda>(k, _). P k) (existing_open a d))"
      and e: "(tr_trade_id \<circ> snd) x = (tr_trade_id \<circ> snd) y"
    obtain k t k' t' where kt: "x = (k, t)" "y = (k', t')" by fastforce
    have m: "(k, t) \<in> set (existing_open a d)" "(k', t') \<in> set (existing_open a d)" using x y kt by auto
    have "inj_on tr_trade_id (set (db_trades d))" using assms by (simp add: sync_inv_def distinct_map)
    then have "t = t'" using e existing_entry(1) [OF m(1)] existing_entry(1) [OF m(2)] by (auto simp: kt inj_on_def)
    then show "x = y" using existing_entry(3) [OF m(1)] existing_entry(3) [OF m(2)] by (simp add: kt)
  qed
  then show ?thesis using dk by (simp add: distinct_map)
qed

lemma account_created:
  assumes "get_or_create_default_account i now d = (acc, d0)"
  shows "db_trades d0 = db_trades d" "db_sync_events d0 = db_sync_events d" "db_executions d0 = db_executions d"
  using arg_cong [OF default_account_frame [OF assms], of db_trades] arg_cong [OF default_account_frame [OF assms], of db_sync_events]
    arg_cong [OF default_account_frame [OF assms], of db_executions] by simp_all

lemma sync_inv_account: "sync_inv (update_account a f d) = sync_inv d"
  by (simp add: sync_inv_def update_account_def)

section \<open>Properties\<close>

definition vanished :: "string \<Rightarrow> live_position list \<Rightarrow> db \<Rightarrow> trade list" where
  "vanished a ps d = map snd (filter (\<lambda>(k, _). k \<notin> set (map fst (dict_by lp_id ps))) (existing_open a d))"

lemma lookup_existing:
  assumes "sync_inv d"
  shows "map_of (existing_open a d) k = Some t \<Longrightarrow> t \<in> set (db_trades d) \<and> open_synced t \<and> slot t = (Some a, k)"
    and "map_of (existing_open a d) k = None \<Longrightarrow> (Some a, k) \<notin> open_slots d"
proof -
  show "t \<in> set (db_trades d) \<and> open_synced t \<and> slot t = (Some a, k)" if "map_of (existing_open a d) k = Some t"
    using existing_entry [of k t a d] map_of_SomeD [OF that] by simp
  show "(Some a, k) \<notin> open_slots d" if none: "map_of (existing_open a d) k = None"
  proof
    assume "(Some a, k) \<in> open_slots d"
    then obtain t where t: "t \<in> set (db_trades d)" "open_synced t" "slot t = (Some a, k)" by (auto simp: open_slots_def)
    then have "tr_account_id t = Some a" "position_key t = k" by (simp_all add: slot_def)
    then have "(k, t) \<in> set (existing_open a d)" using existing_complete [OF assms t(1,2)] by blast
    then show False using none by (metis map_of_eq_None_iff image_eqI fst_conv)
  qed
qed

lemma vanished_entry:
  assumes "t \<in> set (vanished a ps d)"
  obtains k where "(k, t) \<in> set (existing_open a d)" "slot t = (Some a, k)" "k \<notin> fst ` set (dict_by lp_id ps)"
proof -
  obtain k where "(k, t) \<in> set (existing_open a d)" "k \<notin> fst ` set (dict_by lp_id ps)"
    using assms by (auto simp: vanished_def)
  then show ?thesis using that existing_entry(3) by blast
qed

lemma live_stage:
  assumes "sync_inv d" "sync_live api uid a now (existing_open a d) (dict_by lp_id ps) d = Inr (op, up, d1)"
  shows "sync_inv d1"
    and "\<forall>(k, p) \<in> set (dict_by lp_id ps). \<exists>t \<in> set (db_trades d1). open_synced t \<and> slot t = (Some a, k) \<and> shown p now t"
    and "{t \<in> set (db_trades d). open_synced t \<longrightarrow> slot t \<notin> Pair (Some a) ` fst ` set (dict_by lp_id ps)} \<subseteq> set (db_trades d1)"
    and "db_sync_events d1 = db_sync_events d"
    and "\<forall>t \<in> set (vanished a ps d). t \<in> set (db_trades d1) \<and> open_synced t"
proof -
  have keys: "\<forall>(k, p) \<in> set (dict_by lp_id ps). lp_id p = k" using dict_by_value by fast
  note shows1 = sync_live_shows [OF assms(2,1) distinct_dict_by keys lookup_existing [OF assms(1)]]
  show "sync_inv d1"
    "\<forall>(k, p) \<in> set (dict_by lp_id ps). \<exists>t \<in> set (db_trades d1). open_synced t \<and> slot t = (Some a, k) \<and> shown p now t"
    and kept: "{t \<in> set (db_trades d). open_synced t \<longrightarrow> slot t \<notin> Pair (Some a) ` fst ` set (dict_by lp_id ps)} \<subseteq> set (db_trades d1)"
    and "db_sync_events d1 = db_sync_events d"
    using shows1 by blast+
  show "\<forall>t \<in> set (vanished a ps d). t \<in> set (db_trades d1) \<and> open_synced t"
  proof
    fix t assume "t \<in> set (vanished a ps d)"
    then obtain k where k: "(k, t) \<in> set (existing_open a d)" "slot t = (Some a, k)" "k \<notin> fst ` set (dict_by lp_id ps)"
      by (rule vanished_entry)
    have "slot t \<notin> Pair (Some a) ` fst ` set (dict_by lp_id ps)" using k(2,3) by auto
    then show "t \<in> set (db_trades d1) \<and> open_synced t" using existing_entry(1,2) [OF k(1)] kept by blast
  qed
qed

lemma mirrored_after:
  assumes inv: "sync_inv d" and "sync_inv d2"
    and live: "sync_live api uid a now (existing_open a d) (dict_by lp_id ps) d = Inr (op, up, d1)"
    and kept: "{x \<in> set (db_trades d1). x \<notin> set (vanished a ps d)} \<subseteq> set (db_trades d2)"
  shows "(k, p) \<in> set (dict_by lp_id ps) \<Longrightarrow>
      \<exists>t. {x \<in> set (db_trades d2). open_synced x \<and> slot x = (Some a, k)} = {t} \<and> shown p now t"
    and "{t \<in> set (db_trades d). open_synced t \<longrightarrow> tr_account_id t \<noteq> Some a} \<subseteq> set (db_trades d2)"
proof -
  note stage = live_stage [OF inv live]
  show "\<exists>t. {x \<in> set (db_trades d2). open_synced x \<and> slot x = (Some a, k)} = {t} \<and> shown p now t"
    if kp: "(k, p) \<in> set (dict_by lp_id ps)"
  proof -
    obtain t where t: "t \<in> set (db_trades d1)" "open_synced t" "slot t = (Some a, k)" "shown p now t"
      using stage(2) kp by blast
    have "k \<in> fst ` set (dict_by lp_id ps)" using imageI [OF kp, of fst] by (simp only: fst_conv)
    then have "t \<notin> set (vanished a ps d)" using t(3) vanished_entry by (metis prod.inject)
    then have "t \<in> set (db_trades d2)" using kept t(1) by blast
    then have "{x \<in> set (db_trades d2). open_synced x \<and> slot x = (Some a, k)} = {t}"
      using assms(2) t by (auto simp: sync_inv_def inj_on_def)
    then show ?thesis using t(4) by blast
  qed
  show "{t \<in> set (db_trades d). open_synced t \<longrightarrow> tr_account_id t \<noteq> Some a} \<subseteq> set (db_trades d2)"
  proof
    fix t assume t: "t \<in> {t \<in> set (db_trades d). open_synced t \<longrightarrow> tr_account_id t \<noteq> Some a}"
    then have "t \<in> set (db_trades d1)" using stage(3) by (auto simp: slot_def)
    moreover have "t \<notin> set (vanished a ps d)"
    proof
      assume "t \<in> set (vanished a ps d)"
      then obtain k where "(k, t) \<in> set (existing_open a d)" "slot t = (Some a, k)" by (rule vanished_entry)
      then show False using t existing_entry(2) by (auto simp: slot_def)
    qed
    ultimately show "t \<in> set (db_trades d2)" using kept by blast
  qed
qed

lemma vanished_complete:
  assumes "sync_inv d" "t \<in> set (db_trades d)" "open_synced t" "tr_account_id t = Some a" "position_key t \<notin> lp_id ` set ps"
  shows "t \<in> set (vanished a ps d)"
proof -
  have "(position_key t, t) \<in> set (existing_open a d)" using existing_complete [OF assms(1)] assms by blast
  then show ?thesis using assms(5) unfolding vanished_def by force
qed

text \<open>
  The stages of a synchronisation, as far as it comes: the account's row, the positions that are
  there, those that are gone, and the time of the synchronisation.
\<close>

lemma sync_positions_stages:
  assumes "get_or_create_default_account i now d = (acc, d0)" "sync_positions api uid i now d = (r, d')"
  obtains x where "r = Inl x" "d' = d0"
  | ps op up d1 x where "get_open_positions api = Inr ps"
      "sync_live api uid (ac_id acc) now (existing_open (ac_id acc) d0) (dict_by lp_id ps) d0 = Inr (op, up, d1)"
      "sync_gone api now (vanished (ac_id acc) ps d0) d0 d1 = (Inl x, d')" "r = Inl x"
  | ps op up d1 cl d2 c2 rep where "get_open_positions api = Inr ps"
      "sync_live api uid (ac_id acc) now (existing_open (ac_id acc) d0) (dict_by lp_id ps) d0 = Inr (op, up, d1)"
      "sync_gone api now (vanished (ac_id acc) ps d0) d0 d1 = (Inr (cl, d2), c2)" "r = Inr rep"
      "d' = update_account (ac_id acc) (\<lambda>a. a\<lparr>ac_last_synced_at := Some now\<rparr>) d2"
  using assms unfolding vanished_def
  by (auto simp: sync_positions_def Let_def split: sum.splits prod.splits)

text \<open>
  C7: The trades mirror the exchange.  Every synchronisation, whether it succeeds or fails half-way,
  keeps at most one open synchronised trade per account and exchange position.  When it succeeds,
  every position that the exchange reports has exactly one open trade of the account with the
  reported mark price, profit, liquidation price and margin, and every open trade whose position
  is gone has either a closing execution booked or is left as it was beside a failed event; no
  other trade is touched.
\<close>

theorem sync_mirrors_exchange:
  assumes inv: "sync_inv d" and sync: "sync_positions api uid i now d = (r, d')"
  defines "a \<equiv> ac_id (fst (get_or_create_default_account i now d))"
  shows "sync_inv d' \<and> (case r of Inl _ \<Rightarrow> True | Inr _ \<Rightarrow>
    (\<exists>ps. get_open_positions api = Inr ps \<and>
      (\<forall>(k, p) \<in> set (dict_by lp_id ps). \<exists>t. {x \<in> set (db_trades d'). open_synced x \<and> slot x = (Some a, k)} = {t} \<and> shown p now t) \<and>
      (\<forall>t \<in> set (db_trades d). open_synced t \<and> tr_account_id t = Some a \<and> position_key t \<notin> lp_id ` set ps \<longrightarrow>
         settled now (length (db_sync_events d)) d' t) \<and>
      {t \<in> set (db_trades d). open_synced t \<longrightarrow> tr_account_id t \<noteq> Some a} \<subseteq> set (db_trades d')))"
proof -
  obtain acc d0 where acc: "get_or_create_default_account i now d = (acc, d0)" by fastforce
  note frame = account_created [OF acc]
  have a: "a = ac_id acc" by (simp add: a_def acc)
  have inv0: "sync_inv d0" using inv by (simp add: sync_inv_def frame)
  have settle: "sync_gone api now (vanished a ps d0) d0 d1 = (r2, c2) \<Longrightarrow> (case r2 of Inl _ \<Rightarrow> sync_inv c2 | Inr (n, d2) \<Rightarrow>
      sync_inv d2 \<and> {x \<in> set (db_trades d1). x \<notin> set (vanished a ps d0)} \<subseteq> set (db_trades d2) \<and>
      (\<forall>t \<in> set (vanished a ps d0). settled now (length (db_sync_events d)) d2 t))"
    if live: "sync_live api uid a now (existing_open a d0) (dict_by lp_id ps) d0 = Inr (op, up, d1)" for ps op up d1 r2 c2
  proof -
    have n: "length (db_sync_events d) \<le> length (db_sync_events d1)" by (simp add: live_stage(4) [OF inv0 live] frame)
    have dist: "distinct (map tr_trade_id (vanished a ps d0))" unfolding vanished_def by (rule distinct_gone [OF inv0])
    assume "sync_gone api now (vanished a ps d0) d0 d1 = (r2, c2)"
    from sync_gone_settles [OF this live_stage(1) [OF inv0 live] inv0 live_stage(5) [OF inv0 live] dist n]
    show ?thesis by (auto split: sum.splits)
  qed
  from acc sync show ?thesis
  proof (cases rule: sync_positions_stages)
    case (1 x)
    then show ?thesis using inv0 by simp
  next
    case (2 ps op up d1 x)
    then show ?thesis using settle [OF 2(2,3) [folded a]] by simp
  next
    case (3 ps op up d1 cl d2 c2 rep)
    note live = 3(2) [folded a]
    have g: "sync_inv d2" "{x \<in> set (db_trades d1). x \<notin> set (vanished a ps d0)} \<subseteq> set (db_trades d2)"
      "\<forall>t \<in> set (vanished a ps d0). settled now (length (db_sync_events d)) d2 t"
      using settle [OF live 3(3) [folded a]] by simp_all
    have rows: "db_trades d' = db_trades d2" "db_executions d' = db_executions d2" "db_sync_events d' = db_sync_events d2"
      by (simp_all add: 3(5) update_account_def)
    have "sync_inv d'" using g(1) by (simp add: 3(5) sync_inv_account)
    moreover have "settled now n d' t = settled now n d2 t" for n t by (simp add: settled_def exit_booked_def rows)
    ultimately show ?thesis
      using 3(1,4) mirrored_after [OF inv0 g(1) live g(2)] g(3) vanished_complete [OF inv0] by (auto simp: rows frame)
  qed
qed

definition demo_trades :: "string \<Rightarrow> date \<Rightarrow> date \<Rightarrow> http_reply" where
  "demo_trades instrument from_date to_date = RP_body (JArr [JObj [(''order_id'', JStr ''o1''), (''side'', JStr ''sell''),
     (''price'', JNum 120), (''quantity'', JNum 1)]])"

definition demo_show :: "json \<Rightarrow> string" where
  "demo_show j = (case j of JStr s \<Rightarrow> s | _ \<Rightarrow> ''None'')"

definition demo_api :: coindcx_api where
  "demo_api = \<lparr>ca_key = ''k'', ca_secret = ''s'', ca_read_float = (\<lambda>_. None), ca_read_int = (\<lambda>_. None),
     ca_show = demo_show, ca_wallets = RP_lost,
     ca_positions = RP_body (JArr [JObj [(''id'', JStr ''p1''), (''pair'', JStr ''B-BTC_INR''), (''active_pos'', JNum 2),
       (''avg_price'', JNum 100), (''mark_price'', JNum 110), (''leverage'', JInt 5)]]),
     ca_trades = demo_trades,
     ca_transactions = (\<lambda>_. RP_lost), ca_conversions = RP_lost, ca_orders = (\<lambda>_. RP_lost)\<rparr>"

lemmas demo_sync_simps = get_or_create_default_account_def new_account_def empty_db_def first_def get_open_positions_def
  is_configured_def demo_api_def items_def normalize_position_def get_or_zero_def obj_get_def bindr_def json_float_def
  or_none_def List.map_filter_def dict_by_def existing_open_def create_trade_from_position_def match_position_def
  find_candidate_signals_def pick_confident_match_def json_int_def position_id_def insert_defs default_trade_def
  update_account_def Let_def

theorem sync_mirrors_exchange_witness:
  "sync_inv (snd (sync_positions demo_api (\<lambda>_. ''A1'') ''acc'' 0 empty_db)) \<and>
   map tr_mark_price (db_trades (snd (sync_positions demo_api (\<lambda>_. ''A1'') ''acc'' 0 empty_db))) = [Some 110]"
proof
  have "sync_inv empty_db" by (simp add: sync_inv_def empty_db_def)
  then show "sync_inv (snd (sync_positions demo_api (\<lambda>_. ''A1'') ''acc'' 0 empty_db))"
    by (rule sync_mirrors_exchange [THEN conjunct1, OF _ prod.collapse [symmetric]])
  show "map tr_mark_price (db_trades (snd (sync_positions demo_api (\<lambda>_. ''A1'') ''acc'' 0 empty_db))) = [Some 110]"
    by (simp add: sync_positions_def demo_sync_simps)
qed

text \<open>
  Positions of the rupee account are never linked to a signal.  The trade created for an
  instrument of the rupee margin is stored under a symbol quoted in rupees; the signals of the
  platform are quoted in the traded currency, so unless some signal carries that very symbol the
  trade is unmatched, whatever was signalled.
\<close>

theorem rupee_position_unmatched:
  assumes "create_trade_from_position api u account now p d = Inr (t, d')"
    and "lp_symbol p = JStr (''B-'' @ base @ ''_INR'')" "CHR ''_'' \<notin> set base"
    and "base @ ''/INR'' \<notin> sg_symbol ` set (db_signals d)"
  shows "tr_symbol t = base @ ''/INR'' \<and> tr_match_status t = MS_UNMATCHED \<and> tr_signal_id t = None"
proof -
  have sym: "denormalize_symbol (''B-'' @ base @ ''_INR'') = base @ ''/INR''"
    using denormalize_body [OF assms(3), of "''INR''"] by simp
  have "filter (in_match_window (base @ ''/INR'') (lp_side p) now) (db_signals d) = []"
    using assms(4) by (auto simp: filter_empty_conv in_match_window_def image_iff)
  then have "match_position (base @ ''/INR'') p now d = (MS_UNMATCHED, None, None)"
    by (simp add: match_position_def find_candidate_signals_def pick_confident_match_def List.map_filter_def)
  then show ?thesis using assms(1,2) sym
    by (auto simp: create_trade_from_position_def Let_def bindr_Inr)
qed

theorem rupee_position_unmatched_witness:
  "\<exists>t d'. create_trade_from_position demo_api ''A1'' ''acc'' 0 demo_position empty_db = Inr (t, d') \<and> tr_match_status t = MS_UNMATCHED"
proof -
  have "case create_trade_from_position demo_api ''A1'' ''acc'' 0 demo_position empty_db of Inr _ \<Rightarrow> True | Inl _ \<Rightarrow> False"
    by (simp add: demo_position_def demo_sync_simps)
  then obtain t d' where c: "create_trade_from_position demo_api ''A1'' ''acc'' 0 demo_position empty_db = Inr (t, d')"
    by (auto split: sum.splits)
  have "tr_match_status t = MS_UNMATCHED"
    using rupee_position_unmatched [OF c, of "''BTC''"] by (simp add: demo_position_def empty_db_def)
  then show ?thesis using c by blast
qed

section \<open>Closing fills\<close>

definition closing_fills :: "coindcx_api \<Rightarrow> date \<Rightarrow> trade \<Rightarrow> json list result" where
  "closing_fills api today t =
     bindr (items (get_trade_history api 0 (tr_symbol t)
         (Some (dt_date (case tr_last_synced_at t of Some s \<Rightarrow> s | None \<Rightarrow> tr_entry_time t))) (Some today)))
       (fills_on_side (if tr_side t = ''LONG'' then ''sell'' else ''buy''))"

lemma close_booked:
  assumes "close_disappeared_position api now t d = Inr (Some t', d1)"
  obtains fills q x where "closing_fills api (dt_date now) t = Inr fills" "closing_vwap api fills = Inr (q, x)"
    "record_exit (tr_trade_id t) x (min q (tr_quantity t)) now (Some ''coindcx_position_closed'') d = Inr (t', d1)"
proof -
  have hist: "get_trade_history api now s (Some x) (Some y) = get_trade_history api 0 s (Some x) (Some y)" for s x y
    by (simp add: get_trade_history_def)
  obtain fills where f: "closing_fills api (dt_date now) t = Inr fills" and body: "(if fills = [] then Inr (None, note_event SY_FAILED now d)
      else bindr (closing_vwap api fills) (\<lambda>(total_qty, vwap_exit).
             case record_exit (tr_trade_id t) vwap_exit (min total_qty (tr_quantity t)) now
                    (Some ''coindcx_position_closed'') d of
               Inr (t', d') \<Rightarrow> Inr (Some t', d')
             | Inl (JE_raised x) \<Rightarrow> Inl x
             | Inl _ \<Rightarrow> Inr (None, note_event SY_FAILED now d))) = Inr (Some t', d1)"
    using assms unfolding close_disappeared_position_def Let_def bindr_Inr closing_fills_def hist by blast
  then obtain q x where v: "closing_vwap api fills = Inr (q, x)" and
    e: "(case record_exit (tr_trade_id t) x (min q (tr_quantity t)) now (Some ''coindcx_position_closed'') d of
               Inr (t', d') \<Rightarrow> Inr (Some t', d')
             | Inl (JE_raised x) \<Rightarrow> Inl x
             | Inl _ \<Rightarrow> Inr (None, note_event SY_FAILED now d)) = Inr (Some t', d1)"
    by (auto simp: bindr_Inr split: if_splits)
  show thesis
  proof (cases "record_exit (tr_trade_id t) x (min q (tr_quantity t)) now (Some ''coindcx_position_closed'') d")
    case (Inl y)
    then show thesis using e by (cases y) auto
  next
    case (Inr p)
    then show thesis using e f v by (cases p) (auto intro: that)
  qed
qed

lemma exited_trade_frame:
  "exited_trade already x q t reason full trade = Inr trade' \<Longrightarrow>
     tr_symbol trade' = tr_symbol trade \<and> tr_last_synced_at trade' = tr_last_synced_at trade \<and>
     tr_entry_time trade' = tr_entry_time trade"
  by (auto simp: exited_trade_def Let_def split: sum.splits if_splits)

lemma record_exit_appends:
  assumes "record_exit tid x q now reason d = Inr (t', d1)"
  obtains e where "exits_of d1 tid = exits_of d tid @ [e]" "te_price e = x" "te_quantity e = q"
proof (rule record_exit_cases [OF assms])
  fix trade full
  assume "d1 = (update_trade tid (\<lambda>_. t') d)\<lparr>db_executions := db_executions d @
       [\<lparr>te_trade_id = tid, te_execution_type = (if full then ET_EXIT else ET_PARTIAL_EXIT),
         te_price = x, te_quantity = q, te_timestamp = now, te_exchange_transaction_id = None\<rparr>]\<rparr>"
  then show thesis
    by (intro that [of "\<lparr>te_trade_id = tid, te_execution_type = (if full then ET_EXIT else ET_PARTIAL_EXIT),
         te_price = x, te_quantity = q, te_timestamp = now, te_exchange_transaction_id = None\<rparr>"])
      (simp_all add: exits_of_def is_exit_row_def)
qed

text \<open>
  A partial closing fill is counted again at every synchronisation.  When the fills found for a
  position that disappeared do not cover it, the trade stays partially closed with the time of its
  last synchronisation and its quantity unchanged, so the next synchronisation of the same day
  asks for the same fills and, as long as they still fit, books an exit of the same price and
  quantity once more.
\<close>

theorem partial_close_booked_twice:
  assumes row: "lookup_trade (tr_trade_id t) d = Some t"
    and first: "close_disappeared_position api now t d = Inr (Some t1, d1)" "tr_status t1 = TS_PARTIALLY_CLOSED"
    and second: "close_disappeared_position api now2 t1 d1 = Inr (Some t2, d2)" "dt_date now2 = dt_date now"
  shows "\<exists>e e'. exits_of d2 (tr_trade_id t) = exits_of d (tr_trade_id t) @ [e, e'] \<and>
    te_price e' = te_price e \<and> te_quantity e' = te_quantity e"
proof -
  obtain fills q x where f: "closing_fills api (dt_date now) t = Inr fills" "closing_vwap api fills = Inr (q, x)"
    and r: "record_exit (tr_trade_id t) x (min q (tr_quantity t)) now (Some ''coindcx_position_closed'') d = Inr (t1, d1)"
    by (rule close_booked [OF first(1)])
  obtain fills' q' x' where f': "closing_fills api (dt_date now2) t1 = Inr fills'" "closing_vwap api fills' = Inr (q', x')"
    and r': "record_exit (tr_trade_id t1) x' (min q' (tr_quantity t1)) now2 (Some ''coindcx_position_closed'') d1 = Inr (t2, d2)"
    by (rule close_booked [OF second(1)])
  obtain trade full where tr: "lookup_trade (tr_trade_id t) d = Some trade"
    and e0: "exited_trade (closed_quantity d (tr_trade_id t)) x (min q (tr_quantity t)) now
      (Some ''coindcx_position_closed'') full trade = Inr t1"
    by (rule record_exit_cases [OF r])
  then have e: "exited_trade (closed_quantity d (tr_trade_id t)) x (min q (tr_quantity t)) now
      (Some ''coindcx_position_closed'') full t = Inr t1"
    using row by simp
  have same: "tr_trade_id t1 = tr_trade_id t" "tr_quantity t1 = tr_quantity t" "tr_side t1 = tr_side t"
    "tr_symbol t1 = tr_symbol t" "tr_last_synced_at t1 = tr_last_synced_at t" "tr_entry_time t1 = tr_entry_time t"
    using exited_trade_effect [OF e] exited_trade_frame [OF e] by simp_all
  have "closing_fills api (dt_date now2) t1 = closing_fills api (dt_date now) t"
    by (simp only: closing_fills_def same second(2))
  then have qx: "q' = q" "x' = x" using f f' by simp_all
  obtain e1 where e1: "exits_of d1 (tr_trade_id t) = exits_of d (tr_trade_id t) @ [e1]" "te_price e1 = x" "te_quantity e1 = min q (tr_quantity t)"
    by (rule record_exit_appends [OF r])
  obtain e2 where "exits_of d2 (tr_trade_id t) = exits_of d1 (tr_trade_id t) @ [e2]" "te_price e2 = x" "te_quantity e2 = min q (tr_quantity t)"
    by (rule record_exit_appends [OF r' [unfolded same(1,2) qx]])
  then show ?thesis using e1 by auto
qed

definition demo_synced :: trade where
  "demo_synced = default_trade\<lparr>tr_trade_id := ''COINDCX-A1'', tr_symbol := ''BTC/INR'', tr_side := ''LONG'', tr_mode := ''live'',
     tr_entry_price := 100, tr_quantity := 4, tr_leverage := 5, tr_is_manual_entry := False, tr_source := SRC_COINDCX_SYNC,
     tr_account_id := Some ''acc'', tr_exchange_position_id := Some ''p0'', tr_last_synced_at := Some 0\<rparr>"

definition demo_fill :: json where
  "demo_fill = JObj [(''order_id'', JStr ''o1''), (''side'', JStr ''sell''), (''price'', JNum 120), (''quantity'', JNum 1)]"

lemma partial_exit_possible:
  assumes "lookup_trade tid d = Some t" "tr_status t \<notin> {TS_CLOSED, TS_CANCELLED}" "0 < x" "0 < q"
    and "q \<le> fadd (fsub (tr_quantity t) (closed_quantity d tid)) quantity_epsilon"
    and "q < fsub (fsub (tr_quantity t) (closed_quantity d tid)) quantity_epsilon"
    and "fadd (closed_quantity d tid) q \<noteq> 0" "fmul (tr_entry_price t) (tr_quantity t) \<noteq> 0"
  obtains t' where "record_exit tid x q now reason d = Inr (t', (update_trade tid (\<lambda>_. t') d)\<lparr>db_executions := db_executions d @
      [\<lparr>te_trade_id = tid, te_execution_type = ET_PARTIAL_EXIT, te_price = x, te_quantity = q, te_timestamp = now,
        te_exchange_transaction_id = None\<rparr>]\<rparr>)"
    "exited_trade (closed_quantity d tid) x q now reason False t = Inr t'"
proof -
  have "tr_entry_price t \<noteq> 0" "tr_quantity t \<noteq> 0" using assms(8) by auto
  then have "\<exists>t'. exited_trade (closed_quantity d tid) x q now reason False t = Inr t'"
    using assms(7,8) by (simp add: exited_trade_def Let_def py_div_def journal_pnl_pct_def)
  then obtain t' where "exited_trade (closed_quantity d tid) x q now reason False t = Inr t'" by blast
  then show thesis using assms by (intro that [of t']) (simp_all add: record_exit_def Let_def not_le not_less)
qed

lemma demo_small: "fl 1 = 1 \<and> fl 2 = 2 \<and> fl 120 = 120 \<and> fl 400 = 400 \<and> fl 4 = 4 \<and> fl 3 = 3"
  by (simp add: fl_numeral)

lemma demo_vwap: "closing_vwap demo_api [demo_fill] = Inr (1, 120)"
  using demo_small
  by (simp add: closing_vwap_def bindr_def fill_float_def raw_item_def demo_fill_def json_float_def py_div_def fsum_def
      float_op)

lemma demo_numbers:
  "1 \<le> fadd 4 quantity_epsilon \<and> 1 < fsub 4 quantity_epsilon \<and> 1 \<le> fadd 3 quantity_epsilon \<and> 1 < fsub 3 quantity_epsilon"
proof -
  have e: "0 \<le> quantity_epsilon" "quantity_epsilon \<le> 1"
    using fl_mono [of 0 "1 / 10 ^ 9"] fl_mono [of "1 / 10 ^ 9" 1] by (simp_all add: quantity_epsilon_def)
  have "fl 4 \<le> fadd 4 quantity_epsilon" "fl 3 \<le> fadd 3 quantity_epsilon"
    "fl 3 \<le> fsub 4 quantity_epsilon" "fl 2 \<le> fsub 3 quantity_epsilon"
    using e by (auto simp: float_op intro!: fl_mono)
  then show ?thesis using demo_small by simp
qed

text \<open>Closing a trade like the demonstration's by the one fill of the reply.\<close>

lemma demo_close:
  assumes "tr_symbol t = ''BTC/INR''" "tr_side t = ''LONG''" "tr_quantity t = 4" "tr_last_synced_at t = Some 0"
    and "record_exit (tr_trade_id t) 120 1 now (Some ''coindcx_position_closed'') d = Inr (t', d')"
  shows "close_disappeared_position demo_api now t d = Inr (Some t', d')"
proof -
  have "items (get_trade_history demo_api now (tr_symbol t) x y) = Inr [demo_fill]" for x y
    by (simp add: get_trade_history_def is_configured_def demo_api_def demo_trades_def demo_fill_def items_def)
  moreover have "fills_on_side ''sell'' [demo_fill] = Inr [demo_fill]" by (simp add: demo_fill_def obj_get_def bindr_def)
  moreover note demo_vwap
  ultimately show ?thesis using assms by (simp add: close_disappeared_position_def bindr_def)
qed

theorem partial_close_booked_twice_witness:
  "\<exists>t1 d1 t2 d2 e e'. close_disappeared_position demo_api 1000 demo_synced (empty_db\<lparr>db_trades := [demo_synced]\<rparr>) = Inr (Some t1, d1) \<and>
     close_disappeared_position demo_api 2000 t1 d1 = Inr (Some t2, d2) \<and>
     exits_of d2 ''COINDCX-A1'' = [e, e'] \<and> te_quantity e' = te_quantity e"
proof -
  let ?d = "empty_db\<lparr>db_trades := [demo_synced]\<rparr>" and ?tid = "tr_trade_id demo_synced"
  have row: "lookup_trade ?tid ?d = Some demo_synced" by (simp add: lookup_trade_def lookup_by_def)
  have cq: "closed_quantity ?d ?tid = fsum []" by (simp add: closed_quantity_def empty_db_def)
  note demo = demo_synced_def default_trade_def
  have open0: "tr_status demo_synced \<notin> {TS_CLOSED, TS_CANCELLED}" and pos: "(0::rat) < 120" "(0::rat) < 1"
    by (simp_all add: demo)
  have n0: "1 \<le> fadd (fsub (tr_quantity demo_synced) (closed_quantity ?d ?tid)) quantity_epsilon"
    "1 < fsub (fsub (tr_quantity demo_synced) (closed_quantity ?d ?tid)) quantity_epsilon"
    "fadd (closed_quantity ?d ?tid) 1 \<noteq> 0" "fmul (tr_entry_price demo_synced) (tr_quantity demo_synced) \<noteq> 0"
    using demo_numbers demo_small unfolding cq by (simp_all add: demo fsum_def float_op)
  obtain t1 where r1: "record_exit ?tid 120 1 1000 (Some ''coindcx_position_closed'') ?d = Inr (t1, (update_trade ?tid (\<lambda>_. t1) ?d)\<lparr>db_executions := db_executions ?d @
      [\<lparr>te_trade_id = ?tid, te_execution_type = ET_PARTIAL_EXIT, te_price = 120, te_quantity = 1, te_timestamp = 1000,
        te_exchange_transaction_id = None\<rparr>]\<rparr>)"
    and e1: "exited_trade (closed_quantity ?d ?tid) 120 1 1000 (Some ''coindcx_position_closed'') False demo_synced = Inr t1"
    by (rule partial_exit_possible [OF row open0 pos n0])
  let ?d1 = "(update_trade ?tid (\<lambda>_. t1) ?d)\<lparr>db_executions := db_executions ?d @
      [\<lparr>te_trade_id = ?tid, te_execution_type = ET_PARTIAL_EXIT, te_price = 120, te_quantity = 1, te_timestamp = 1000,
        te_exchange_transaction_id = None\<rparr>]\<rparr>"
  note eff = exited_trade_effect [OF e1] exited_trade_frame [OF e1]
  have row1: "lookup_trade ?tid ?d1 = Some t1" using row eff(1) by (simp add: lookup_trade_update)
  have cq1: "closed_quantity ?d1 ?tid = fsum [1]" by (simp add: closed_quantity_def empty_db_def is_exit_row_def)
  have open1: "tr_status t1 \<notin> {TS_CLOSED, TS_CANCELLED}" using eff(6) by simp
  have n1: "1 \<le> fadd (fsub (tr_quantity t1) (closed_quantity ?d1 ?tid)) quantity_epsilon"
    "1 < fsub (fsub (tr_quantity t1) (closed_quantity ?d1 ?tid)) quantity_epsilon"
    "fadd (closed_quantity ?d1 ?tid) 1 \<noteq> 0" "fmul (tr_entry_price t1) (tr_quantity t1) \<noteq> 0"
    using demo_numbers demo_small unfolding cq1 eff(3,5) by (simp_all add: demo fsum_def float_op)
  obtain t2 where r2: "record_exit ?tid 120 1 2000 (Some ''coindcx_position_closed'') ?d1 = Inr (t2, (update_trade ?tid (\<lambda>_. t2) ?d1)\<lparr>db_executions := db_executions ?d1 @
      [\<lparr>te_trade_id = ?tid, te_execution_type = ET_PARTIAL_EXIT, te_price = 120, te_quantity = 1, te_timestamp = 2000,
        te_exchange_transaction_id = None\<rparr>]\<rparr>)"
    by (rule partial_exit_possible [OF row1 open1 pos n1])
  have c1: "close_disappeared_position demo_api 1000 demo_synced ?d = Inr (Some t1, ?d1)"
    by (rule demo_close) (use r1 in \<open>simp_all add: demo\<close>)
  obtain d2 where c2: "close_disappeared_position demo_api 2000 t1 ?d1 = Inr (Some t2, d2)"
    using demo_close [of t1 2000 ?d1 t2] r2 eff by (simp add: demo)
  have "tr_status t1 = TS_PARTIALLY_CLOSED" using eff(6) by simp
  then have "\<exists>e e'. exits_of d2 ?tid = exits_of ?d ?tid @ [e, e'] \<and> te_price e' = te_price e \<and> te_quantity e' = te_quantity e"
    by (rule partial_close_booked_twice [OF row c1 _ c2]) (simp add: dt_date_def day_us_def)
  then show ?thesis using c1 c2 by (auto simp: exits_of_def empty_db_def demo_synced_def)
qed

section \<open>Fills are stored once\<close>

definition transactions :: "db \<Rightarrow> string list" where
  "transactions d = List.map_filter te_exchange_transaction_id (db_executions d)"

lemma has_transaction_iff: "has_transaction x d \<longleftrightarrow> x \<in> set (transactions d)"
  by (auto simp: has_transaction_def transactions_def set_map_filter image_iff) metis+

lemma fill_row_transaction:
  "fill_row api now t f = Inr e \<Longrightarrow> te_exchange_transaction_id e = Some (exchange_transaction_id api f)"
  by (auto simp: fill_row_def bindr_Inr)

lemma fill_trade_executions [simp]: "fill_trade symbol (d\<lparr>db_executions := x\<rparr>) = fill_trade symbol d"
  by (simp add: fill_trade_def)

definition ingested :: "coindcx_api \<Rightarrow> string \<Rightarrow> db \<Rightarrow> json \<Rightarrow> bool" where
  "ingested api symbol d f \<longleftrightarrow> (\<exists>v. obj_get f ''order_id'' = Inr v) \<and>
     (has_transaction (exchange_transaction_id api f) d \<or> fill_trade symbol d = None)"

lemma ingest_fills_rows:
  assumes "ingest_fills api now symbol fs d = Inr (n, d')"
  shows "\<exists>es. d' = d\<lparr>db_executions := db_executions d @ es\<rparr> \<and> length es = n \<and> list_all (ingested api symbol d') fs \<and>
    (distinct (transactions d) \<longrightarrow> distinct (transactions d')) \<and> set (transactions d) \<subseteq> set (transactions d')"
  using assms
proof (induction fs arbitrary: d n)
  case Nil
  then show ?case by (intro exI [of _ "[]"]) auto
next
  case (Cons f fs)
  obtain v where v: "obj_get f ''order_id'' = Inr v" and body: "(if has_transaction (exchange_transaction_id api f) d then ingest_fills api now symbol fs d
       else case fill_trade symbol d of
              None \<Rightarrow> ingest_fills api now symbol fs d
            | Some t \<Rightarrow>
                bindr (fill_row api now t f) (\<lambda>e.
                bindr (ingest_fills api now symbol fs (d\<lparr>db_executions := db_executions d @ [e]\<rparr>))
                  (\<lambda>(n, d'). Inr (Suc n, d')))) = Inr (n, d')"
    using Cons.prems by (auto simp: bindr_Inr)
  show ?case
  proof (cases "has_transaction (exchange_transaction_id api f) d \<or> fill_trade symbol d = None")
    case True
    then have rest: "ingest_fills api now symbol fs d = Inr (n, d')" using body by (auto split: if_splits)
    obtain es where es: "d' = d\<lparr>db_executions := db_executions d @ es\<rparr>" "length es = n" "list_all (ingested api symbol d') fs"
      "distinct (transactions d) \<longrightarrow> distinct (transactions d')" "set (transactions d) \<subseteq> set (transactions d')"
      using Cons.IH [OF rest] by blast
    have "ingested api symbol d' f" using True v es(1,5) by (auto simp: ingested_def has_transaction_iff)
    then show ?thesis using es by (intro exI [of _ es]) simp
  next
    case False
    then obtain t e m where t: "fill_trade symbol d = Some t" and e: "fill_row api now t f = Inr e"
      and rest: "ingest_fills api now symbol fs (d\<lparr>db_executions := db_executions d @ [e]\<rparr>) = Inr (m, d')" and n: "n = Suc m"
      using body by (auto simp: bindr_Inr split: option.splits)
    let ?d = "d\<lparr>db_executions := db_executions d @ [e]\<rparr>"
    obtain es where es: "d' = ?d\<lparr>db_executions := db_executions ?d @ es\<rparr>" "length es = m" "list_all (ingested api symbol d') fs"
      "distinct (transactions ?d) \<longrightarrow> distinct (transactions d')" "set (transactions ?d) \<subseteq> set (transactions d')"
      using Cons.IH [OF rest] by blast
    have tx: "transactions ?d = transactions d @ [exchange_transaction_id api f]"
      by (simp add: transactions_def fill_row_transaction [OF e] List.map_filter_def)
    have "exchange_transaction_id api f \<notin> set (transactions d)" using False by (simp add: has_transaction_iff)
    moreover have "ingested api symbol d' f" using v es(5) by (simp add: ingested_def has_transaction_iff tx)
    ultimately show ?thesis using es n by (intro exI [of _ "e # es"]) (auto simp: tx)
  qed
qed

lemma ingest_fills_again:
  "list_all (ingested api symbol d) fs \<Longrightarrow> ingest_fills api now symbol fs d = Inr (0, d)"
  by (induction fs) (auto simp: ingested_def bindr_def split: option.splits)

text \<open>
  C26: A fill is stored once.  A synchronisation of fills only appends executions, as many as it
  reports, and never stores a transaction twice; when the exchange answers the same history again,
  at any later time, nothing is stored and the database does not change.
\<close>

theorem fills_stored_once:
  assumes "sync_trade_fills api now symbol d = Inr (n, d')" and "distinct (transactions d)"
    and "get_trade_history api now2 symbol None None = get_trade_history api now symbol None None"
  shows "(\<exists>es. d' = d\<lparr>db_executions := db_executions d @ es\<rparr> \<and> length es = n) \<and> distinct (transactions d') \<and>
    sync_trade_fills api now2 symbol d' = Inr (0, d')"
proof -
  obtain fs where fs: "items (get_trade_history api now symbol None None) = Inr fs" "ingest_fills api now symbol fs d = Inr (n, d')"
    using assms(1) by (auto simp: sync_trade_fills_def bindr_Inr)
  obtain es where es: "d' = d\<lparr>db_executions := db_executions d @ es\<rparr>" "length es = n" "list_all (ingested api symbol d') fs"
    "distinct (transactions d) \<longrightarrow> distinct (transactions d')"
    using ingest_fills_rows [OF fs(2)] by blast
  have "sync_trade_fills api now2 symbol d' = Inr (0, d')"
    using ingest_fills_again [OF es(3), of now2] fs(1) assms(3) by (simp add: sync_trade_fills_def bindr_def)
  then show ?thesis using es assms(2) by blast
qed

theorem fills_stored_once_witness:
  "\<exists>d'. sync_trade_fills demo_api 0 ''BTC/INR'' (empty_db\<lparr>db_trades := [demo_synced]\<rparr>) = Inr (1, d') \<and>
     sync_trade_fills demo_api 5 ''BTC/INR'' d' = Inr (0, d')"
proof -
  let ?d = "empty_db\<lparr>db_trades := [demo_synced]\<rparr>"
  have "case sync_trade_fills demo_api 0 ''BTC/INR'' ?d of Inr (n, _) \<Rightarrow> n = 1 | Inl _ \<Rightarrow> False"
    by (simp add: sync_trade_fills_def get_trade_history_def is_configured_def demo_api_def demo_trades_def items_def bindr_def
        obj_get_def has_transaction_def empty_db_def fill_trade_def order_desc_def first_def demo_synced_def
        fill_row_def fill_or_zero_def fill_time_def json_float_def int_to_float_def default_trade_def)
  then obtain d' where s: "sync_trade_fills demo_api 0 ''BTC/INR'' ?d = Inr (1, d')" by (auto split: sum.splits)
  have "get_trade_history demo_api 5 ''BTC/INR'' None None = get_trade_history demo_api 0 ''BTC/INR'' None None"
    by (simp add: get_trade_history_def demo_api_def demo_trades_def)
  then have "sync_trade_fills demo_api 5 ''BTC/INR'' d' = Inr (0, d')"
    using fills_stored_once [OF s] by (simp add: transactions_def empty_db_def List.map_filter_def)
  then show ?thesis using s by blast
qed

end
