(* ===== verification/Strategies.thy ===== *)
theory Strategies
  imports Tables Scanner
begin

text \<open>
  \<open>services/signal_engine/strategy.py\<close>, \<open>quality.py\<close> and \<open>multi_strategy.py\<close>: what a strategy
  answers, the quality tiers, and the registry.  The indicator code that looks for a set-up
  (\<open>ml/evaluation\<close>) is a function argument: it gives the raw set-up or none.
\<close>

section \<open>Frames and answers\<close>

text \<open>One row of the data frame that the strategies read.\<close>

record bar =
  b_timestamp :: datetime
  b_open :: f64
  b_high :: f64
  b_low :: f64
  b_close :: f64
  b_volume :: f64

record strategy_signal =
  ss_signal_type :: string
  ss_entry_price :: "f64 option"
  ss_stop_loss :: "f64 option"
  ss_take_profit_1 :: "f64 option"
  ss_take_profit_2 :: "f64 option"
  ss_take_profit_3 :: "f64 option"
  ss_quality :: string
  ss_strategy_name :: string
  ss_model_version :: "string option"

record raw_setup =
  rw_signal_type :: string
  rw_stop_loss :: "f64 option"
  rw_take_profit_1 :: "f64 option"
  rw_take_profit_2 :: "f64 option"
  rw_take_profit_3 :: "f64 option"
  rw_long_probability :: f64
  rw_short_probability :: f64

definition no_trade_signal :: "string \<Rightarrow> string option \<Rightarrow> strategy_signal" where
  "no_trade_signal name version =
     \<lparr>ss_signal_type = ''NO_TRADE'', ss_entry_price = None, ss_stop_loss = None, ss_take_profit_1 = None,
      ss_take_profit_2 = None, ss_take_profit_3 = None, ss_quality = ''LOW'', ss_strategy_name = name,
      ss_model_version = version\<rparr>"

section \<open>Quality\<close>

definition HIGH_THRESHOLD :: f64 where "HIGH_THRESHOLD = fl (7 / 10)"
definition MEDIUM_THRESHOLD :: f64 where "MEDIUM_THRESHOLD = fl (55 / 100)"

definition bucket_signal_quality :: "f64 \<Rightarrow> string" where
  "bucket_signal_quality confidence =
     (if confidence \<ge> HIGH_THRESHOLD then ''HIGH''
      else if confidence \<ge> MEDIUM_THRESHOLD then ''MEDIUM'' else ''LOW'')"

text \<open>\<open>rr_quality\<close>: the tier of the reward for the risk.\<close>

definition rr_quality :: "f64 option \<Rightarrow> f64 option \<Rightarrow> f64 option \<Rightarrow> string" where
  "rr_quality entry sl tp1 =
     (case (entry, sl, tp1) of
        (Some e, Some s, Some t) \<Rightarrow>
          let risk = \<bar>fsub e s\<bar>
          in if risk \<le> 0 then ''LOW''
             else let rr = fdiv \<bar>fsub t e\<bar> risk
                  in if rr \<ge> 5/2 then ''HIGH'' else if rr \<ge> 3/2 then ''MEDIUM'' else ''LOW''
      | _ \<Rightarrow> ''LOW'')"

definition adx_quality :: "f64 \<Rightarrow> f64 \<Rightarrow> string" where
  "adx_quality adx_value threshold =
     (let margin = max 0 (fsub adx_value threshold)
      in if margin \<ge> 15 then ''HIGH'' else if margin \<ge> 5 then ''MEDIUM'' else ''LOW'')"

section \<open>Strategies\<close>

definition BASELINE_NAME :: string where "BASELINE_NAME = ''trend_following_donchian_adx''"

text \<open>The set-up and the ADX reading of the latest bar, absent when the column is.\<close>

definition baseline_generate ::
  "(bar list \<Rightarrow> raw_setup option) \<Rightarrow> (bar list \<Rightarrow> f64 option) \<Rightarrow> f64 \<Rightarrow> bar list \<Rightarrow> strategy_signal" where
  "baseline_generate setup adx threshold df =
     (case setup df of
        None \<Rightarrow> no_trade_signal BASELINE_NAME None
      | Some raw \<Rightarrow>
          let adx_value = (case adx df of None \<Rightarrow> threshold | Some x \<Rightarrow> x)
          in \<lparr>ss_signal_type = rw_signal_type raw, ss_entry_price = Some (b_close (last df)),
              ss_stop_loss = rw_stop_loss raw, ss_take_profit_1 = rw_take_profit_1 raw,
              ss_take_profit_2 = None, ss_take_profit_3 = None, ss_quality = adx_quality adx_value threshold,
              ss_strategy_name = BASELINE_NAME, ss_model_version = None\<rparr>)"

definition ml_generate :: "(bar list \<Rightarrow> raw_setup option) \<Rightarrow> string \<Rightarrow> bar list \<Rightarrow> strategy_signal" where
  "ml_generate setup version df =
     (case setup df of
        None \<Rightarrow> no_trade_signal ''ml_model'' (Some version)
      | Some raw \<Rightarrow>
          if rw_signal_type raw = ''NO_TRADE'' then no_trade_signal ''ml_model'' (Some version)
          else let confidence = max (rw_long_probability raw) (rw_short_probability raw)
               in \<lparr>ss_signal_type = rw_signal_type raw, ss_entry_price = Some (b_close (last df)),
                   ss_stop_loss = rw_stop_loss raw, ss_take_profit_1 = rw_take_profit_1 raw,
                   ss_take_profit_2 = None, ss_take_profit_3 = None, ss_quality = bucket_signal_quality confidence,
                   ss_strategy_name = ''ml_model'', ss_model_version = Some version\<rparr>)"

definition future_generate :: "bar list \<Rightarrow> strategy_signal result" where
  "future_generate df = Inl NotImplementedError"

text \<open>The wrapper of the rule-based strategies, from the set-up found on the prepared frame.\<close>

definition rule_signal :: "string \<Rightarrow> raw_setup option \<Rightarrow> bar list \<Rightarrow> strategy_signal" where
  "rule_signal sid raw prepared =
     (case raw of
        None \<Rightarrow> no_trade_signal sid None
      | Some r \<Rightarrow>
          let entry = b_close (last prepared)
          in \<lparr>ss_signal_type = rw_signal_type r, ss_entry_price = Some entry, ss_stop_loss = rw_stop_loss r,
              ss_take_profit_1 = rw_take_profit_1 r, ss_take_profit_2 = rw_take_profit_2 r,
              ss_take_profit_3 = rw_take_profit_3 r,
              ss_quality = rr_quality (Some entry) (rw_stop_loss r) (rw_take_profit_1 r),
              ss_strategy_name = sid, ss_model_version = None\<rparr>)"

definition rule_based_generate :: "(bar list \<Rightarrow> raw_setup option) \<Rightarrow> string \<Rightarrow> bar list \<Rightarrow> strategy_signal" where
  "rule_based_generate setup sid df = rule_signal sid (setup df) df"

definition mtf_generate_with_daily ::
  "(bar list \<Rightarrow> bar list \<Rightarrow> raw_setup option) \<Rightarrow> string \<Rightarrow> bar list \<Rightarrow> bar list \<Rightarrow> strategy_signal" where
  "mtf_generate_with_daily setup sid df_4h df_1d = rule_signal sid (setup df_4h df_1d) df_4h"

definition mtf_generate :: "bar list \<Rightarrow> strategy_signal result" where
  "mtf_generate df = Inl NotImplementedError"

section \<open>The registry\<close>

datatype data_mode = CLOSED_CANDLE | LIVE_INTRABAR
datatype production_status = PRODUCTION_ELIGIBLE | RESEARCH_ONLY | REJECTED_CANDIDATE

record strategy_definition =
  sd_strategy_id :: string
  sd_display_name :: string
  sd_timeframe :: string
  sd_data_mode :: data_mode
  sd_production_status :: production_status
  sd_persisted_name :: string

text \<open>\<open>post_init\<close>: an empty persisted name becomes the identifier.\<close>

definition strategy_entry :: "string \<Rightarrow> string \<Rightarrow> string \<Rightarrow> data_mode \<Rightarrow> production_status \<Rightarrow> string \<Rightarrow> strategy_definition" where
  "strategy_entry sid display tf mode status persisted =
     \<lparr>sd_strategy_id = sid, sd_display_name = display, sd_timeframe = tf, sd_data_mode = mode,
      sd_production_status = status, sd_persisted_name = (if persisted = [] then sid else persisted)\<rparr>"

definition MULTI_STRATEGY_REGISTRY :: "strategy_definition list" where
  "MULTI_STRATEGY_REGISTRY =
     [strategy_entry ''S05_DONCHIAN_ADX_4H'' ''Donchian(20) + ADX(14)'' ''4h'' LIVE_INTRABAR PRODUCTION_ELIGIBLE BASELINE_NAME,
      strategy_entry ''S01_MOMENTUM_BREAKOUT_15M'' ''Momentum / Volatility Breakout'' ''15m'' CLOSED_CANDLE RESEARCH_ONLY [],
      strategy_entry ''S02_EMA_PULLBACK_15M'' ''EMA Pullback / Trend Continuation'' ''15m'' CLOSED_CANDLE RESEARCH_ONLY [],
      strategy_entry ''S03_VWAP_REVERSION_15M'' ''VWAP Mean Reversion'' ''15m'' CLOSED_CANDLE RESEARCH_ONLY [],
      strategy_entry ''S04_RSI_BB_15M'' ''RSI + Bollinger Momentum/Reversal'' ''15m'' CLOSED_CANDLE RESEARCH_ONLY [],
      strategy_entry ''S06_SUPERTREND_ATR_4H'' ''Supertrend + ATR'' ''4h'' CLOSED_CANDLE PRODUCTION_ELIGIBLE [],
      strategy_entry ''S07_MACD_MOMENTUM_4H'' ''MACD Trend Momentum'' ''4h'' CLOSED_CANDLE RESEARCH_ONLY [],
      strategy_entry ''S08_EMA_ADX_4H'' ''EMA Structure + ADX'' ''4h'' CLOSED_CANDLE RESEARCH_ONLY [],
      strategy_entry ''S09_ATR_BREAKOUT_4H'' ''ATR Volatility Breakout'' ''4h'' CLOSED_CANDLE RESEARCH_ONLY [],
      strategy_entry ''S10_MTF_TREND_4H'' ''Multi-Timeframe Trend Confirmation'' ''4h'' CLOSED_CANDLE RESEARCH_ONLY [],
      strategy_entry ''S11_ZSCORE_REVERSION_15M'' ''Z-Score Mean Reversion'' ''15m'' CLOSED_CANDLE REJECTED_CANDIDATE [],
      strategy_entry ''S12_STRUCTURE_RETEST_4H'' ''Structure Breakout + Retest'' ''4h'' CLOSED_CANDLE REJECTED_CANDIDATE [],
      strategy_entry ''V3_KAMA_TREND_4H'' ''KAMA Adaptive Trend'' ''4h'' CLOSED_CANDLE PRODUCTION_ELIGIBLE [],
      strategy_entry ''V3_RANGE_EXPANSION_4H'' ''Range Expansion Breakout'' ''4h'' CLOSED_CANDLE PRODUCTION_ELIGIBLE [],
      strategy_entry ''V3_HMA_TREND_4H'' ''Hull MA Trend'' ''4h'' CLOSED_CANDLE REJECTED_CANDIDATE []]"

definition MTF_STRATEGY_ID :: string where "MTF_STRATEGY_ID = ''S10_MTF_TREND_4H''"

definition get_strategy_definition :: "string \<Rightarrow> strategy_definition result" where
  "get_strategy_definition sid =
     (case find (\<lambda>d. sd_strategy_id d = sid) MULTI_STRATEGY_REGISTRY of None \<Rightarrow> Inl ValueError | Some d \<Rightarrow> Inr d)"

definition get_definition_by_persisted_name :: "string option \<Rightarrow> strategy_definition option" where
  "get_definition_by_persisted_name name =
     (case name of
        None \<Rightarrow> None
      | Some n \<Rightarrow> if n = [] then None else find (\<lambda>d. sd_persisted_name d = n) MULTI_STRATEGY_REGISTRY)"

section \<open>Lemmas\<close>

lemma registry_keys:
  "distinct (map sd_strategy_id MULTI_STRATEGY_REGISTRY)" "distinct (map sd_persisted_name MULTI_STRATEGY_REGISTRY)"
  by (simp_all add: MULTI_STRATEGY_REGISTRY_def strategy_entry_def BASELINE_NAME_def)

text \<open>No strategy in production needs the daily frame, and all of them run on the 4h frame.\<close>

lemma eligible_strategies:
  "map sd_strategy_id (filter (\<lambda>d. sd_production_status d = PRODUCTION_ELIGIBLE) MULTI_STRATEGY_REGISTRY) =
     [''S05_DONCHIAN_ADX_4H'', ''S06_SUPERTREND_ATR_4H'', ''V3_KAMA_TREND_4H'', ''V3_RANGE_EXPANSION_4H'']"
  "\<forall>d \<in> set MULTI_STRATEGY_REGISTRY. sd_production_status d = PRODUCTION_ELIGIBLE \<longrightarrow>
     sd_timeframe d = ''4h'' \<and> sd_strategy_id d \<noteq> MTF_STRATEGY_ID"
  by (simp_all add: MULTI_STRATEGY_REGISTRY_def strategy_entry_def MTF_STRATEGY_ID_def)

end
