(* ===== verification/SignalStore.thy ===== *)
theory SignalStore
  imports Strategies BotState Monitoring
begin

text \<open>
  \<open>services/signal_engine/live_signal.py\<close>, \<open>multi_strategy_engine.py\<close>, \<open>notify.py\<close> and
  \<open>outcome_evaluator.py\<close>: signals are generated from stored candles, stored once per candle and
  strategy, announced once, and later resolved against the candles that followed.  Strategies and
  the regime detector are arguments.
\<close>

section \<open>Pause flag and candles\<close>

definition DEFAULT_LOOKBACK_BARS :: nat where "DEFAULT_LOOKBACK_BARS = 250"
definition MIN_BARS_REQUIRED :: nat where "MIN_BARS_REQUIRED = 60"
definition PAUSE_STATE_KEY :: string where "PAUSE_STATE_KEY = ''signal_generation_paused''"

definition is_signal_generation_paused :: "db \<Rightarrow> bool" where
  "is_signal_generation_paused d =
     (case bot_get d PAUSE_STATE_KEY of None \<Rightarrow> False | Some v \<Rightarrow> json_truthy (json_get v ''paused'' JNull))"

definition set_signal_generation_paused :: "bool \<Rightarrow> db \<Rightarrow> db" where
  "set_signal_generation_paused p d = bot_put PAUSE_STATE_KEY (JObj [(''paused'', JBool p)]) d"

definition bar_of_candle :: "candle \<Rightarrow> bar" where
  "bar_of_candle c = \<lparr>b_timestamp = cd_timestamp c, b_open = cd_open c, b_high = cd_high c, b_low = cd_low c,
     b_close = cd_close c, b_volume = cd_volume c\<rparr>"

definition load_recent_candles :: "db \<Rightarrow> string \<Rightarrow> string \<Rightarrow> nat \<Rightarrow> bar list" where
  "load_recent_candles d symbol timeframe limit =
     map bar_of_candle (rev (take limit (order_desc cd_timestamp
       (filter (\<lambda>c. cd_symbol c = symbol \<and> cd_timeframe c = timeframe \<and> cd_quality_status c = ''valid'') (db_candles d)))))"

section \<open>Storing a signal\<close>

definition same_candle_signal :: "string \<Rightarrow> string \<Rightarrow> string \<Rightarrow> datetime \<Rightarrow> signal \<Rightarrow> bool" where
  "same_candle_signal symbol timeframe strategy t s \<longleftrightarrow>
     sg_symbol s = symbol \<and> sg_timeframe s = Some timeframe \<and> sg_strategy_name s = Some strategy \<and>
     sg_timestamp s = t \<and> sg_signal_type s \<noteq> ''NO_TRADE''"

text \<open>\<open>scalar_one_or_none\<close>: a second row is an error.\<close>

definition signal_already_exists_for_candle :: "db \<Rightarrow> string \<Rightarrow> string \<Rightarrow> string \<Rightarrow> datetime \<Rightarrow> bool result" where
  "signal_already_exists_for_candle d symbol timeframe strategy t =
     (case filter (same_candle_signal symbol timeframe strategy t) (db_signals d) of
        [] \<Rightarrow> Inr False | [_] \<Rightarrow> Inr True | _ \<Rightarrow> Inl MultipleResultsFound)"

definition signal_risk_reward :: "strategy_signal \<Rightarrow> f64 option" where
  "signal_risk_reward r =
     (case (ss_entry_price r, ss_stop_loss r, ss_take_profit_1 r) of
        (Some e, Some s, Some t) \<Rightarrow>
          let risk = \<bar>fsub e s\<bar> in if risk \<noteq> 0 then Some (pyround 2 (fdiv \<bar>fsub t e\<bar> risk)) else None
      | _ \<Rightarrow> None)"

definition signal_id_of :: "string \<Rightarrow> string" where "signal_id_of u = ''SIG-'' @ u"

definition new_signal :: "string \<Rightarrow> strategy_signal \<Rightarrow> string \<Rightarrow> string \<Rightarrow> datetime \<Rightarrow> string \<Rightarrow> signal" where
  "new_signal u r symbol timeframe t regime =
     \<lparr>sg_signal_id = signal_id_of u, sg_timestamp = t, sg_symbol = symbol, sg_signal_type = ss_signal_type r,
      sg_confidence = 0, sg_entry_price = ss_entry_price r, sg_stop_loss = ss_stop_loss r,
      sg_take_profit_1 = ss_take_profit_1 r, sg_take_profit_2 = ss_take_profit_2 r,
      sg_take_profit_3 = ss_take_profit_3 r, sg_risk_reward = signal_risk_reward r, sg_market_regime = regime,
      sg_is_active = (ss_signal_type r \<noteq> ''NO_TRADE''), sg_quality = Some (ss_quality r),
      sg_strategy_name = Some (ss_strategy_name r), sg_timeframe = Some timeframe,
      sg_model_version = ss_model_version r\<rparr>"

definition new_outcome :: "signal \<Rightarrow> signal_outcome" where
  "new_outcome s =
     \<lparr>so_signal_id = sg_signal_id s,
      so_outcome = (if sg_signal_type s = ''NO_TRADE'' then OC_NO_TRADE else OC_PENDING),
      so_hypothetical_entry_price = sg_entry_price s, so_hypothetical_exit_price = None,
      so_hypothetical_pnl_pct = None, so_was_taken_by_user = False, so_evaluated_at = None\<rparr>"

definition persist_new_signal ::
  "string \<Rightarrow> strategy_signal \<Rightarrow> string \<Rightarrow> string \<Rightarrow> datetime \<Rightarrow> string \<Rightarrow> db \<Rightarrow> (signal \<times> db) result" where
  "persist_new_signal u r symbol timeframe t regime d =
     (let s = new_signal u r symbol timeframe t regime
      in case insert_signal s d of
           Inl x \<Rightarrow> Inl x
         | Inr d1 \<Rightarrow> (case insert_outcome (new_outcome s) d1 of Inl x \<Rightarrow> Inl x | Inr d2 \<Rightarrow> Inr (s, d2)))"

section \<open>One strategy on the closed candles\<close>

definition generate_and_persist_signal ::
  "(bar list \<Rightarrow> strategy_signal) \<Rightarrow> (bar list \<Rightarrow> string) \<Rightarrow> string \<Rightarrow> string \<Rightarrow> string \<Rightarrow> db
     \<Rightarrow> (signal option \<times> db) result" where
  "generate_and_persist_signal generate regime u symbol timeframe d =
     (if is_signal_generation_paused d then Inr (None, d)
      else let df = load_recent_candles d symbol timeframe DEFAULT_LOOKBACK_BARS
      in if length df < MIN_BARS_REQUIRED then Inr (None, d)
      else let r = generate df; t = b_timestamp (last df);
               persist = (case persist_new_signal u r symbol timeframe t (regime df) d of
                            Inl x \<Rightarrow> Inl x | Inr (s, d') \<Rightarrow> Inr (Some s, d'))
      in if ss_signal_type r = ''NO_TRADE'' then persist
         else case signal_already_exists_for_candle d symbol timeframe (ss_strategy_name r) t of
                Inl x \<Rightarrow> Inl x
              | Inr True \<Rightarrow> Inr (None, d)
              | Inr False \<Rightarrow> persist)"

section \<open>Every strategy of a timeframe\<close>

record strategy_runner =
  sr_generate :: "string \<Rightarrow> bar list \<Rightarrow> strategy_signal"
  sr_generate_with_daily :: "string \<Rightarrow> bar list \<Rightarrow> bar list \<Rightarrow> strategy_signal"
  sr_regime :: "bar list \<Rightarrow> string"

text \<open>The answer of one registered strategy; \<open>None\<close> when the daily frame is too short.\<close>

definition strategy_answer :: "strategy_runner \<Rightarrow> bar list \<Rightarrow> bar list \<Rightarrow> strategy_definition \<Rightarrow> strategy_signal option" where
  "strategy_answer run df df_1d sd =
     (if sd_strategy_id sd = MTF_STRATEGY_ID
      then if length df_1d < MIN_BARS_REQUIRED then None
           else Some (sr_generate_with_daily run (sd_strategy_id sd) df df_1d)
      else Some (sr_generate run (sd_strategy_id sd) df))"

text \<open>Each stored signal is committed; an error ends the loop and keeps what was stored before it.\<close>

fun evaluate_definitions ::
  "strategy_runner \<Rightarrow> (nat \<Rightarrow> string) \<Rightarrow> string \<Rightarrow> string \<Rightarrow> bar list \<Rightarrow> bar list \<Rightarrow> string \<Rightarrow> strategy_definition list \<Rightarrow> db
     \<Rightarrow> signal list result \<times> db" where
  "evaluate_definitions run uid symbol timeframe df df_1d regime [] d = (Inr [], d)"
| "evaluate_definitions run uid symbol timeframe df df_1d regime (sd # sds) d =
     (let next = evaluate_definitions run (\<lambda>n. uid (Suc n)) symbol timeframe df df_1d regime sds
      in if sd_timeframe sd \<noteq> timeframe \<or> sd_production_status sd \<noteq> PRODUCTION_ELIGIBLE then next d
         else case strategy_answer run df df_1d sd of
           None \<Rightarrow> next d
         | Some r \<Rightarrow>
             if ss_signal_type r = ''NO_TRADE'' then next d
             else case signal_already_exists_for_candle d symbol timeframe (ss_strategy_name r) (b_timestamp (last df)) of
               Inl x \<Rightarrow> (Inl x, d)
             | Inr True \<Rightarrow> next d
             | Inr False \<Rightarrow>
                 (case persist_new_signal (uid 0) r symbol timeframe (b_timestamp (last df)) regime d of
                    Inl x \<Rightarrow> (Inl x, d)
                  | Inr (s, d1) \<Rightarrow> (case next d1 of (Inl x, d') \<Rightarrow> (Inl x, d') | (Inr ss, d') \<Rightarrow> (Inr (s # ss), d'))))"

definition evaluate_all_strategies_for_timeframe ::
  "strategy_runner \<Rightarrow> (nat \<Rightarrow> string) \<Rightarrow> string \<Rightarrow> string \<Rightarrow> db \<Rightarrow> signal list result \<times> db" where
  "evaluate_all_strategies_for_timeframe run uid symbol timeframe d =
     (if is_signal_generation_paused d then (Inr [], d)
      else let df = load_recent_candles d symbol timeframe DEFAULT_LOOKBACK_BARS
      in if length df < MIN_BARS_REQUIRED then (Inr [], d)
      else evaluate_definitions run uid symbol timeframe df (load_recent_candles d symbol ''1d'' DEFAULT_LOOKBACK_BARS)
             (sr_regime run df) MULTI_STRATEGY_REGISTRY d)"

section \<open>Notification\<close>

definition signal_alert_key :: "string \<Rightarrow> string" where "signal_alert_key sid = ''signal_alert:'' @ sid"

text \<open>What the alert names the strategy, and the time frame it shows.\<close>

definition alert_strategy :: "signal \<Rightarrow> (string \<times> string) option" where
  "alert_strategy s =
     (case get_definition_by_persisted_name (sg_strategy_name s) of
        Some sd \<Rightarrow> Some (sd_strategy_id sd, sd_display_name sd)
      | None \<Rightarrow> map_option (\<lambda>n. (n, n)) (sg_strategy_name s))"

definition alert_timeframe :: "signal \<Rightarrow> string option" where
  "alert_timeframe s =
     (case sg_timeframe s of
        Some tf \<Rightarrow> if tf \<noteq> [] then Some tf else map_option sd_timeframe (get_definition_by_persisted_name (sg_strategy_name s))
      | None \<Rightarrow> map_option sd_timeframe (get_definition_by_persisted_name (sg_strategy_name s)))"

text \<open>\<open>True\<close> when the alert was handed to the bot.\<close>

definition notify_new_signal :: "signal \<Rightarrow> db \<Rightarrow> (bool \<times> db) result" where
  "notify_new_signal s d =
     (if sg_signal_type s = ''NO_TRADE'' then Inr (False, d)
      else let key = signal_alert_key (sg_signal_id s)
      in case already_logged d key of
           Inl x \<Rightarrow> Inl x
         | Inr True \<Rightarrow> Inr (False, d)
         | Inr False \<Rightarrow> Inr (True, d\<lparr>db_notifications := db_notifications d @
             [\<lparr>nl_signal_id = Some (sg_signal_id s), nl_channel = ''telegram'', nl_message_type = key, nl_status = ''sent''\<rparr>]\<rparr>))"

section \<open>Outcomes\<close>

definition DEFAULT_MAX_HORIZON_BARS :: nat where "DEFAULT_MAX_HORIZON_BARS = 30"

definition candles_after :: "db \<Rightarrow> string \<Rightarrow> string \<Rightarrow> datetime \<Rightarrow> nat \<Rightarrow> candle list" where
  "candles_after d symbol timeframe after limit =
     take limit (sort_key cd_timestamp
       (filter (\<lambda>c. cd_symbol c = symbol \<and> cd_timeframe c = timeframe \<and> after < cd_timestamp c \<and>
                    cd_quality_status c = ''valid'') (db_candles d)))"

record resolution =
  rn_outcome :: outcome_type
  rn_exit_price :: "f64 option"
  rn_pnl_pct :: "f64 option"
  rn_evaluated_at :: datetime

definition touches_stop :: "bool \<Rightarrow> f64 \<Rightarrow> candle \<Rightarrow> bool" where
  "touches_stop long sl c \<longleftrightarrow> (if long then cd_low c \<le> sl else cd_high c \<ge> sl)"

definition touches_target :: "bool \<Rightarrow> f64 \<Rightarrow> candle \<Rightarrow> bool" where
  "touches_target long tp c \<longleftrightarrow> (if long then cd_high c \<ge> tp else cd_low c \<le> tp)"

definition hypothetical_pnl_pct :: "bool \<Rightarrow> f64 \<Rightarrow> f64 \<Rightarrow> f64 result" where
  "hypothetical_pnl_pct long entry exit_price =
     (case py_div (if long then fsub exit_price entry else fsub entry exit_price) entry of
        Inl x \<Rightarrow> Inl x | Inr r \<Rightarrow> Inr (fmul r 100))"

fun resolve_bars :: "bool \<Rightarrow> f64 \<Rightarrow> f64 \<Rightarrow> f64 \<Rightarrow> candle list \<Rightarrow> resolution option result" where
  "resolve_bars long entry sl tp [] = Inr None"
| "resolve_bars long entry sl tp (c # cs) =
     (if touches_stop long sl c then
        (case hypothetical_pnl_pct long entry sl of
           Inl x \<Rightarrow> Inl x
         | Inr p \<Rightarrow> Inr (Some \<lparr>rn_outcome = OC_LOSS, rn_exit_price = Some sl, rn_pnl_pct = Some p, rn_evaluated_at = cd_timestamp c\<rparr>))
      else if touches_target long tp c then
        (case hypothetical_pnl_pct long entry tp of
           Inl x \<Rightarrow> Inl x
         | Inr p \<Rightarrow> Inr (Some \<lparr>rn_outcome = OC_WIN, rn_exit_price = Some tp, rn_pnl_pct = Some p, rn_evaluated_at = cd_timestamp c\<rparr>))
      else resolve_bars long entry sl tp cs)"

definition resolve :: "signal \<Rightarrow> candle list \<Rightarrow> nat \<Rightarrow> resolution option result" where
  "resolve s cs n =
     (case (sg_entry_price s, sg_stop_loss s, sg_take_profit_1 s) of
        (Some entry, Some sl, Some tp) \<Rightarrow>
          (case resolve_bars (sg_signal_type s = ''LONG'') entry sl tp (take n cs) of
             Inl x \<Rightarrow> Inl x
           | Inr (Some r) \<Rightarrow> Inr (Some r)
           | Inr None \<Rightarrow>
               if n = 0 \<and> cs = [] then Inl IndexError
               else if length cs \<ge> n
               then Inr (Some \<lparr>rn_outcome = OC_EXPIRED, rn_exit_price = None, rn_pnl_pct = None,
                               rn_evaluated_at = cd_timestamp (if n = 0 then last cs else cs ! (n - 1))\<rparr>)
               else Inr None)
      | _ \<Rightarrow> Inr None)"

definition resolved_outcome :: "signal \<Rightarrow> resolution \<Rightarrow> signal_outcome \<Rightarrow> signal_outcome" where
  "resolved_outcome s r o1 =
     o1\<lparr>so_outcome := rn_outcome r, so_hypothetical_entry_price := sg_entry_price s,
        so_hypothetical_exit_price := rn_exit_price r, so_hypothetical_pnl_pct := rn_pnl_pct r,
        so_evaluated_at := Some (rn_evaluated_at r)\<rparr>"

text \<open>The join of the pending outcomes with the signals of the symbol.\<close>

definition pending_outcomes :: "string \<Rightarrow> db \<Rightarrow> (signal_outcome \<times> signal) list" where
  "pending_outcomes symbol d =
     concat (map (\<lambda>o1. map (\<lambda>s. (o1, s)) (filter (\<lambda>s. sg_signal_id s = so_signal_id o1 \<and> sg_symbol s = symbol) (db_signals d)))
       (filter (\<lambda>o1. so_outcome o1 = OC_PENDING) (db_outcomes d)))"

fun evaluate_outcomes ::
  "string \<Rightarrow> string \<Rightarrow> nat \<Rightarrow> (signal_outcome \<times> signal) list \<Rightarrow> db \<Rightarrow> (nat \<times> db) result" where
  "evaluate_outcomes symbol timeframe n [] d = Inr (0, d)"
| "evaluate_outcomes symbol timeframe n ((o1, s) # ps) d =
     (case resolve s (candles_after d symbol timeframe (sg_timestamp s) n) n of
        Inl x \<Rightarrow> Inl x
      | Inr None \<Rightarrow> evaluate_outcomes symbol timeframe n ps d
      | Inr (Some r) \<Rightarrow>
          (case evaluate_outcomes symbol timeframe n ps (d\<lparr>db_outcomes :=
                  update_where (\<lambda>o2. so_signal_id o2 = so_signal_id o1) (resolved_outcome s r) (db_outcomes d)\<rparr>) of
             Inl x \<Rightarrow> Inl x | Inr (k, d') \<Rightarrow> Inr (Suc k, d')))"

definition evaluate_pending_signal_outcomes :: "string \<Rightarrow> string \<Rightarrow> nat \<Rightarrow> db \<Rightarrow> (nat \<times> db) result" where
  "evaluate_pending_signal_outcomes symbol timeframe n d =
     evaluate_outcomes symbol timeframe n (pending_outcomes symbol d) d"

section \<open>Lemmas on stored signals\<close>

text \<open>The signals that trade, by symbol, time frame, strategy and candle.\<close>

definition signal_slot :: "signal \<Rightarrow> string \<times> string option \<times> string option \<times> datetime" where
  "signal_slot s = (sg_symbol s, sg_timeframe s, sg_strategy_name s, sg_timestamp s)"

definition slots :: "db \<Rightarrow> (string \<times> string option \<times> string option \<times> datetime) list" where
  "slots d = map signal_slot (filter (\<lambda>s. sg_signal_type s \<noteq> ''NO_TRADE'') (db_signals d))"

lemma filter_key_card:
  "filter (\<lambda>x. key x = k) xs = [] \<longleftrightarrow> k \<notin> set (map key xs)"
  "length (filter (\<lambda>x. key x = k) xs) = count_list (map key xs) k"
  by (induction xs) auto

lemma same_candle_slots:
  "length (filter (same_candle_signal symbol tf st t) (db_signals d)) = count_list (slots d) (symbol, Some tf, Some st, t)"
proof -
  have "filter (same_candle_signal symbol tf st t) (db_signals d) =
      filter (\<lambda>s. signal_slot s = (symbol, Some tf, Some st, t)) (filter (\<lambda>s. sg_signal_type s \<noteq> ''NO_TRADE'') (db_signals d))"
    by (auto simp: same_candle_signal_def signal_slot_def intro!: filter_cong)
  then show ?thesis by (simp only: slots_def filter_key_card(2))
qed

lemma exists_for_candle:
  "signal_already_exists_for_candle d symbol tf st t =
     (if count_list (slots d) (symbol, Some tf, Some st, t) = 0 then Inr False
      else if count_list (slots d) (symbol, Some tf, Some st, t) = 1 then Inr True else Inl MultipleResultsFound)"
proof -
  have "signal_already_exists_for_candle d symbol tf st t =
     (if length (filter (same_candle_signal symbol tf st t) (db_signals d)) = 0 then Inr False
      else if length (filter (same_candle_signal symbol tf st t) (db_signals d)) = 1 then Inr True else Inl MultipleResultsFound)"
    by (cases "filter (same_candle_signal symbol tf st t) (db_signals d)"; cases "tl (filter (same_candle_signal symbol tf st t) (db_signals d))")
      (auto simp: signal_already_exists_for_candle_def)
  then show ?thesis by (simp only: same_candle_slots)
qed

lemma count_list_distinct:
  "distinct xs \<Longrightarrow> count_list xs x = (if x \<in> set xs then 1 else 0)"
  by (induction xs) auto

lemma exists_when_distinct:
  "distinct (slots d) \<Longrightarrow>
     signal_already_exists_for_candle d symbol tf st t = Inr ((symbol, Some tf, Some st, t) \<in> set (slots d))"
  by (simp add: exists_for_candle count_list_distinct)

lemma persist_rows:
  assumes "persist_new_signal u r symbol tf t regime d = Inr (s, d')"
  shows "s = new_signal u r symbol tf t regime" "db_signals d' = db_signals d @ [s]"
    "db_outcomes d' = db_outcomes d @ [new_outcome s]" "sg_signal_id s \<notin> sg_signal_id ` set (db_signals d)"
    "slots d' = (if ss_signal_type r = ''NO_TRADE'' then slots d else slots d @ [(symbol, Some tf, Some (ss_strategy_name r), t)])"
    "db_candles d' = db_candles d" "db_bot d' = db_bot d" "db_notifications d' = db_notifications d"
  using assms
  by (auto simp: persist_new_signal_def Let_def insert_defs slots_def signal_slot_def new_signal_def split: sum.splits if_splits)

lemma generate_keeps_distinct:
  assumes "generate_and_persist_signal gen regime u symbol tf d = Inr (so, d')" "distinct (slots d)"
  shows "distinct (slots d')"
proof -
  let ?df = "load_recent_candles d symbol tf DEFAULT_LOOKBACK_BARS"
  have "d' = d \<or> (\<exists>s. persist_new_signal u (gen ?df) symbol tf (b_timestamp (last ?df)) (regime ?df) d = Inr (s, d') \<and>
      (ss_signal_type (gen ?df) = ''NO_TRADE'' \<or> (symbol, Some tf, Some (ss_strategy_name (gen ?df)), b_timestamp (last ?df)) \<notin> set (slots d)))"
    using assms(1) unfolding generate_and_persist_signal_def Let_def exists_when_distinct [OF assms(2)]
    by (auto split: if_splits sum.splits bool.splits)
  then show ?thesis using assms(2) by (auto dest: persist_rows(5))
qed

lemma evaluate_definitions_distinct:
  assumes "evaluate_definitions run uid symbol tf df df_1d regime sds d = (r, d')" "distinct (slots d)"
  shows "distinct (slots d') \<and> r \<noteq> Inl MultipleResultsFound \<and> db_candles d' = db_candles d \<and> db_bot d' = db_bot d"
  using assms
proof (induction sds arbitrary: uid d r)
  case Nil
  then show ?case by auto
next
  case (Cons sd sds)
  let ?next = "evaluate_definitions run (\<lambda>n. uid (Suc n)) symbol tf df df_1d regime sds"
  consider (skip) "?next d = (r, d')" | (failed) x where "r = Inl x" "x \<noteq> MultipleResultsFound" "d' = d"
    | (stored) ss s d1 r1 where "persist_new_signal (uid 0) ss symbol tf (b_timestamp (last df)) regime d = Inr (s, d1)"
        "ss_signal_type ss \<noteq> ''NO_TRADE''"
        "(symbol, Some tf, Some (ss_strategy_name ss), b_timestamp (last df)) \<notin> set (slots d)"
        "?next d1 = (r1, d')" "r = Inl MultipleResultsFound \<longrightarrow> r1 = Inl MultipleResultsFound"
  proof (cases "sd_timeframe sd \<noteq> tf \<or> sd_production_status sd \<noteq> PRODUCTION_ELIGIBLE")
    case True
    then show thesis using Cons.prems(1) skip by simp
  next
    case False
    show thesis
    proof (cases "strategy_answer run df df_1d sd")
      case None
      then show thesis using Cons.prems(1) False skip by simp
    next
      case (Some ss)
      let ?slot = "(symbol, Some tf, Some (ss_strategy_name ss), b_timestamp (last df))"
      show thesis
      proof (cases "ss_signal_type ss = ''NO_TRADE'' \<or> ?slot \<in> set (slots d)")
        case True
        then have "?next d = (r, d')"
          using Cons.prems(1) False Some exists_when_distinct [OF Cons.prems(2)] by (auto simp: Let_def split: if_splits)
        then show thesis by (rule skip)
      next
        case new: False
        note e = exists_when_distinct [OF Cons.prems(2)]
        show thesis
        proof (cases "persist_new_signal (uid 0) ss symbol tf (b_timestamp (last df)) regime d")
          case (Inl x)
          then have "x = IntegrityError"
            by (auto simp: persist_new_signal_def Let_def insert_defs split: sum.splits if_splits)
          then show thesis using Inl Cons.prems(1) False Some new by (intro failed [of x]) (auto simp: e)
        next
          case (Inr p)
          obtain s d1 where p: "p = (s, d1)" by fastforce
          obtain r1 d2 where n: "?next d1 = (r1, d2)" by fastforce
          then have "d2 = d'" "r = Inl MultipleResultsFound \<longrightarrow> r1 = Inl MultipleResultsFound"
            using Inr p Cons.prems(1) False Some new by (auto simp: e split: sum.splits)
          then show thesis using Inr p new n by (intro stored [of ss s d1 r1]) auto
        qed
      qed
    qed
  qed
  then show ?case
  proof cases
    case skip
    then show ?thesis using Cons.IH Cons.prems(2) by blast
  next
    case failed
    then show ?thesis using Cons.prems(2) by simp
  next
    case stored
    have "distinct (slots d1)" using persist_rows(5) [OF stored(1)] stored(2,3) Cons.prems(2) by simp
    then show ?thesis
      using Cons.IH [OF stored(4)] stored(5) persist_rows(6,7) [OF stored(1)] by auto
  qed
qed


section \<open>What an outcome says\<close>

text \<open>The first candle that decides, and what it decides.\<close>

lemma resolve_bars_first:
  assumes "i < length cs" "\<forall>j<i. \<not> touches_stop long sl (cs ! j) \<and> \<not> touches_target long tp (cs ! j)"
    "touches_stop long sl (cs ! i) \<or> touches_target long tp (cs ! i)" "entry \<noteq> 0"
  defines "x \<equiv> if touches_stop long sl (cs ! i) then sl else tp"
  shows "resolve_bars long entry sl tp cs =
      Inr (Some \<lparr>rn_outcome = if touches_stop long sl (cs ! i) then OC_LOSS else OC_WIN, rn_exit_price = Some x,
        rn_pnl_pct = Some (fmul (fdiv (if long then fsub x entry else fsub entry x) entry) 100),
        rn_evaluated_at = cd_timestamp (cs ! i)\<rparr>)"
  using assms(1-3) unfolding x_def
proof (induction cs arbitrary: i)
  case (Cons c cs)
  show ?case
  proof (cases i)
    case 0
    then show ?thesis using Cons.prems assms(4) by (auto simp: hypothetical_pnl_pct_def py_div_def)
  next
    case (Suc k)
    then have "\<not> touches_stop long sl c" "\<not> touches_target long tp c" using Cons.prems(2) by auto
    moreover have "\<forall>j<k. \<not> touches_stop long sl (cs ! j) \<and> \<not> touches_target long tp (cs ! j)"
      using Cons.prems(2) unfolding Suc by force
    ultimately show ?thesis using Suc Cons.prems(1,3) Cons.IH [of k] by simp
  qed
qed simp

lemma resolve_bars_none:
  "(\<forall>c \<in> set cs. \<not> touches_stop long sl c \<and> \<not> touches_target long tp c) \<Longrightarrow> resolve_bars long entry sl tp cs = Inr None"
  by (induction cs) auto

lemma resolve_bars_append: "resolve_bars long entry sl tp cs = Inr (Some r) \<Longrightarrow> resolve_bars long entry sl tp (cs @ later) = Inr (Some r)"
  by (induction cs) (auto split: if_splits)

lemma resolve_bars_value:
  "resolve_bars long entry sl tp cs = Inr (Some r) \<Longrightarrow>
     \<exists>c \<in> set cs. touches_stop long sl c \<or> touches_target long tp c"
  by (induction cs) (auto split: if_splits)

lemma hypothetical_sign:
  assumes "0 < e" "if long then sl \<le> e \<and> e \<le> tp else tp \<le> e \<and> e \<le> sl"
  shows "fmul (fdiv (if long then fsub sl e else fsub e sl) e) 100 \<le> 0"
    "0 \<le> fmul (fdiv (if long then fsub tp e else fsub e tp) e) 100"
proof -
  have "fdiv y e \<le> 0" if "y \<le> 0" for y using fdiv_mono [of y 0 e] that assms(1) by simp
  moreover have "fmul y 100 \<le> 0" if "y \<le> 0" for y using fmul_mono [of y 0 100] that by simp
  ultimately show "fmul (fdiv (if long then fsub sl e else fsub e sl) e) 100 \<le> 0"
    using assms(2) by (auto intro!: fsub_nonpos split: if_splits)
  show "0 \<le> fmul (fdiv (if long then fsub tp e else fsub e tp) e) 100"
    using assms by (auto intro!: fmul_nonneg fdiv_nonneg fsub_nonneg split: if_splits)
qed

text \<open>
  C31: what \<open>_resolve\<close> decides on the candles after a signal.  The first of the \<open>n\<close> candles of the
  horizon that touches the stop or the target decides: a loss at the stop price if it touches the
  stop (whether or not it touches the target too), otherwise a win at the target price, dated by
  that candle, with a profit that is not positive for a loss and not negative for a win whenever
  the entry lies between stop and target.  When none of the candles touches, the signal expires at
  the last candle of the horizon if all \<open>n\<close> are there and otherwise stays pending.  Candles that
  arrive later never change a decision.
\<close>

theorem outcome_first_touch:
  assumes "sg_entry_price s = Some e" "sg_stop_loss s = Some sl" "sg_take_profit_1 s = Some tp" "0 < e" "0 < n"
  defines "long \<equiv> sg_signal_type s = ''LONG''"
  defines "touch \<equiv> \<lambda>c. touches_stop long sl c \<or> touches_target long tp c"
  shows
    "(\<forall>i. i < n \<and> i < length cs \<and> touch (cs ! i) \<and> (\<forall>j<i. \<not> touch (cs ! j)) \<longrightarrow>
       (\<exists>r. resolve s cs n = Inr (Some r) \<and>
         rn_outcome r = (if touches_stop long sl (cs ! i) then OC_LOSS else OC_WIN) \<and>
         rn_exit_price r = Some (if touches_stop long sl (cs ! i) then sl else tp) \<and>
         rn_evaluated_at r = cd_timestamp (cs ! i) \<and>
         ((if long then sl \<le> e \<and> e \<le> tp else tp \<le> e \<and> e \<le> sl) \<longrightarrow>
           (if rn_outcome r = OC_LOSS then the (rn_pnl_pct r) \<le> 0 else 0 \<le> the (rn_pnl_pct r))))) \<and>
     ((\<forall>c \<in> set (take n cs). \<not> touch c) \<longrightarrow> resolve s cs n =
       (if n \<le> length cs then Inr (Some \<lparr>rn_outcome = OC_EXPIRED, rn_exit_price = None, rn_pnl_pct = None,
           rn_evaluated_at = cd_timestamp (cs ! (n - 1))\<rparr>) else Inr None)) \<and>
     (\<forall>r later. resolve s cs n = Inr (Some r) \<longrightarrow> resolve s (cs @ later) n = Inr (Some r))"
proof (intro conjI allI impI)
  fix i assume i: "i < n \<and> i < length cs \<and> touch (cs ! i) \<and> (\<forall>j<i. \<not> touch (cs ! j))"
  have "resolve_bars long e sl tp (take n cs) = Inr (Some \<lparr>rn_outcome = if touches_stop long sl (cs ! i) then OC_LOSS else OC_WIN,
      rn_exit_price = Some (if touches_stop long sl (cs ! i) then sl else tp),
      rn_pnl_pct = Some (fmul (fdiv (if long then fsub (if touches_stop long sl (cs ! i) then sl else tp) e
        else fsub e (if touches_stop long sl (cs ! i) then sl else tp)) e) 100),
      rn_evaluated_at = cd_timestamp (cs ! i)\<rparr>)"
    using resolve_bars_first [of i "take n cs" long sl tp e] i assms(4) by (simp add: touch_def)
  then show "\<exists>r. resolve s cs n = Inr (Some r) \<and>
         rn_outcome r = (if touches_stop long sl (cs ! i) then OC_LOSS else OC_WIN) \<and>
         rn_exit_price r = Some (if touches_stop long sl (cs ! i) then sl else tp) \<and>
         rn_evaluated_at r = cd_timestamp (cs ! i) \<and>
         ((if long then sl \<le> e \<and> e \<le> tp else tp \<le> e \<and> e \<le> sl) \<longrightarrow>
           (if rn_outcome r = OC_LOSS then the (rn_pnl_pct r) \<le> 0 else 0 \<le> the (rn_pnl_pct r)))"
    using hypothetical_sign [OF assms(4), of long sl tp] assms(1-3)
    by (cases "touches_stop long sl (cs ! i)"; cases long) (simp_all add: resolve_def long_def [symmetric])
next
  assume "\<forall>c \<in> set (take n cs). \<not> touch c"
  then have "resolve_bars long e sl tp (take n cs) = Inr None" by (intro resolve_bars_none) (simp add: touch_def)
  then show "resolve s cs n = (if n \<le> length cs then Inr (Some \<lparr>rn_outcome = OC_EXPIRED, rn_exit_price = None,
      rn_pnl_pct = None, rn_evaluated_at = cd_timestamp (cs ! (n - 1))\<rparr>) else Inr None)"
    using assms(1-3,5) by (simp add: resolve_def long_def [symmetric])
next
  fix r later assume r: "resolve s cs n = Inr (Some r)"
  consider "resolve_bars long e sl tp (take n cs) = Inr (Some r)"
    | "resolve_bars long e sl tp (take n cs) = Inr None" "n \<le> length cs"
    using r assms(1-3,5) by (auto simp: resolve_def long_def split: sum.splits option.splits if_splits)
  then show "resolve s (cs @ later) n = Inr (Some r)"
  proof cases
    case 1
    then show ?thesis using resolve_bars_append [of long e sl tp "take n cs" r "take (n - length cs) later"] assms(1-3)
      by (simp add: resolve_def long_def)
  next
    case 2
    then show ?thesis using r assms(1-3,5) by (simp add: resolve_def long_def nth_append split: if_splits)
  qed
qed

definition demo_setup :: strategy_signal where
  "demo_setup = \<lparr>ss_signal_type = ''LONG'', ss_entry_price = Some 100, ss_stop_loss = Some 95,
     ss_take_profit_1 = Some 110, ss_take_profit_2 = None, ss_take_profit_3 = None, ss_quality = ''HIGH'',
     ss_strategy_name = BASELINE_NAME, ss_model_version = None\<rparr>"

definition demo_signal :: signal where
  "demo_signal = new_signal ''0123'' demo_setup ''BTC/USDT'' ''4h'' 0 ''UNCERTAIN''"

definition demo_bar :: "datetime \<Rightarrow> f64 \<Rightarrow> f64 \<Rightarrow> candle" where
  "demo_bar t lo hi = \<lparr>cd_timestamp = t, cd_timeframe = ''4h'', cd_open = lo, cd_high = hi, cd_low = lo, cd_close = hi,
     cd_volume = 0, cd_symbol = ''BTC/USDT'', cd_quality_status = ''valid''\<rparr>"

text \<open>The second candle touches both levels: a loss at the stop.\<close>

theorem outcome_first_touch_witness:
  "\<exists>r. resolve demo_signal [demo_bar 1 96 105, demo_bar 2 94 112, demo_bar 3 100 111] 30 = Inr (Some r) \<and>
     rn_outcome r = OC_LOSS \<and> rn_exit_price r = Some 95 \<and> rn_evaluated_at r = 2 \<and> the (rn_pnl_pct r) \<le> 0"
proof -
  have s: "sg_entry_price demo_signal = Some 100" "sg_stop_loss demo_signal = Some 95"
    "sg_take_profit_1 demo_signal = Some 110" "sg_signal_type demo_signal = ''LONG''"
    by (simp_all add: demo_signal_def new_signal_def demo_setup_def)
  show ?thesis
    using outcome_first_touch [OF s(1-3), of 30 "[demo_bar 1 96 105, demo_bar 2 94 112, demo_bar 3 100 111]",
        THEN conjunct1, rule_format, of 1] s(4)
    by (auto simp: touches_stop_def touches_target_def demo_bar_def)
qed

section \<open>Outcomes are final\<close>

lemma resolution_decided: "resolve s cs n = Inr (Some r) \<Longrightarrow> rn_outcome r \<noteq> OC_PENDING"
proof -
  have "resolve_bars long e sl tp cs = Inr (Some r) \<Longrightarrow> rn_outcome r \<noteq> OC_PENDING" for long e sl tp cs
    by (induction cs) (auto split: if_splits sum.splits)
  then show "resolve s cs n = Inr (Some r) \<Longrightarrow> rn_outcome r \<noteq> OC_PENDING"
    by (auto simp: resolve_def split: option.splits sum.splits if_splits)
qed

text \<open>What one run leaves: rows it did not decide, as they were, and rows that are decided.\<close>

lemma evaluate_outcomes_rows:
  assumes "evaluate_outcomes symbol timeframe n ps d = Inr (k, d')"
  shows "\<exists>os. d' = d\<lparr>db_outcomes := os\<rparr> \<and> map so_signal_id os = map so_signal_id (db_outcomes d) \<and>
    (\<forall>o2 \<in> set os. so_outcome o2 \<noteq> OC_PENDING \<or> (o2 \<in> set (db_outcomes d) \<and>
       (\<forall>(o1, s) \<in> set ps. so_signal_id o1 = so_signal_id o2 \<longrightarrow> resolve s (candles_after d symbol timeframe (sg_timestamp s) n) n = Inr None))) \<and>
    (\<forall>i < length os. so_signal_id (db_outcomes d ! i) \<notin> so_signal_id ` fst ` set ps \<longrightarrow> os ! i = db_outcomes d ! i)"
  using assms
proof (induction symbol timeframe n ps d arbitrary: k d' rule: evaluate_outcomes.induct)
  case (1 symbol timeframe n d)
  then show ?case by (auto intro!: exI [of _ "db_outcomes d"])
next
  case (2 symbol timeframe n o1 s ps d)
  show ?case
  proof (cases "resolve s (candles_after d symbol timeframe (sg_timestamp s) n) n")
    case (Inr m)
    show ?thesis
    proof (cases m)
      case None
      then have "evaluate_outcomes symbol timeframe n ps d = Inr (k, d')" using 2(3) Inr by simp
      from 2(1) [OF Inr None this] show ?thesis using Inr None by (auto 4 3)
    next
      case (Some r)
      let ?d1 = "d\<lparr>db_outcomes := update_where (\<lambda>o2. so_signal_id o2 = so_signal_id o1) (resolved_outcome s r) (db_outcomes d)\<rparr>"
      obtain k1 where "evaluate_outcomes symbol timeframe n ps ?d1 = Inr (k1, d')"
        using 2(3) Inr Some by (auto split: sum.splits)
      then obtain os where os: "d' = ?d1\<lparr>db_outcomes := os\<rparr>" "map so_signal_id os = map so_signal_id (db_outcomes ?d1)"
        "\<And>o2. o2 \<in> set os \<Longrightarrow> so_outcome o2 \<noteq> OC_PENDING \<or> (o2 \<in> set (db_outcomes ?d1) \<and>
           (\<forall>(o1, s) \<in> set ps. so_signal_id o1 = so_signal_id o2 \<longrightarrow> resolve s (candles_after ?d1 symbol timeframe (sg_timestamp s) n) n = Inr None))"
        "\<And>i. i < length os \<Longrightarrow> so_signal_id (db_outcomes ?d1 ! i) \<notin> so_signal_id ` fst ` set ps \<Longrightarrow> os ! i = db_outcomes ?d1 ! i"
        using 2(2) [OF Inr Some, of k1 d'] by blast
      have ids: "map so_signal_id (db_outcomes ?d1) = map so_signal_id (db_outcomes d)"
        by (simp add: map_update_where resolved_outcome_def)
      have dec: "so_outcome (resolved_outcome s r o2) \<noteq> OC_PENDING" for o2
        using resolution_decided Inr Some by (simp add: resolved_outcome_def)
      have cs: "candles_after ?d1 symbol timeframe = candles_after d symbol timeframe"
        by (intro ext) (simp add: candles_after_def)
      have len: "length os = length (db_outcomes d)" using arg_cong [OF os(2), of length] by simp
      have a: "so_outcome o2 \<noteq> OC_PENDING \<or> (o2 \<in> set (db_outcomes d) \<and>
          (\<forall>(o1, s) \<in> set ((o1, s) # ps). so_signal_id o1 = so_signal_id o2 \<longrightarrow> resolve s (candles_after d symbol timeframe (sg_timestamp s) n) n = Inr None))"
        if o2: "o2 \<in> set os" for o2
      proof (cases "so_outcome o2 = OC_PENDING")
        case True
        then have "o2 \<in> set (db_outcomes d)" "so_signal_id o2 \<noteq> so_signal_id o1"
          using os(3) [OF o2] dec by (auto simp: set_update_where)
        then show ?thesis using os(3) [OF o2] True unfolding cs by fastforce
      qed simp
      have b: "os ! i = db_outcomes d ! i"
        if "i < length os" "so_signal_id (db_outcomes d ! i) \<notin> so_signal_id ` fst ` set ((o1, s) # ps)" for i
        using os(4) [OF that(1)] that len by (simp add: update_where_def)
      have "d' = d\<lparr>db_outcomes := os\<rparr>" using os(1) by simp
      moreover have "map so_signal_id os = map so_signal_id (db_outcomes d)" using os(2) ids by simp
      ultimately show ?thesis using a b by (intro exI [of _ os] conjI ballI allI impI)
    qed
  qed (use 2(3) in auto)
qed

lemma pending_rows:
  "(o1, s) \<in> set (pending_outcomes symbol d) \<longleftrightarrow>
     o1 \<in> set (db_outcomes d) \<and> so_outcome o1 = OC_PENDING \<and> s \<in> set (db_signals d) \<and>
     sg_signal_id s = so_signal_id o1 \<and> sg_symbol s = symbol"
  by (auto simp: pending_outcomes_def)

lemma evaluate_nothing:
  assumes "\<forall>(o1, s) \<in> set ps. resolve s (candles_after d symbol timeframe (sg_timestamp s) n) n = Inr None"
  shows "evaluate_outcomes symbol timeframe n ps d = Inr (0, d)"
  using assms by (induction ps) auto

text \<open>
  a run of the outcome evaluator changes nothing but outcome rows, keeps their number and their
  signals, leaves every row that was already decided exactly as it was (also those whose signal is
  of another symbol), and decides all it can: a second run on the same candles updates nothing.
\<close>

theorem outcomes_final:
  assumes "evaluate_pending_signal_outcomes symbol timeframe n d = Inr (k, d')"
    "distinct (map so_signal_id (db_outcomes d))"
  shows "d' = d\<lparr>db_outcomes := db_outcomes d'\<rparr> \<and>
    map so_signal_id (db_outcomes d') = map so_signal_id (db_outcomes d) \<and>
    (\<forall>i < length (db_outcomes d). so_outcome (db_outcomes d ! i) \<noteq> OC_PENDING \<longrightarrow>
       db_outcomes d' ! i = db_outcomes d ! i) \<and>
    evaluate_pending_signal_outcomes symbol timeframe n d' = Inr (0, d')"
proof -
  obtain os where os: "d' = d\<lparr>db_outcomes := os\<rparr>" "map so_signal_id os = map so_signal_id (db_outcomes d)"
    "\<And>o2. o2 \<in> set os \<Longrightarrow> so_outcome o2 \<noteq> OC_PENDING \<or> (o2 \<in> set (db_outcomes d) \<and>
       (\<forall>(o1, s) \<in> set (pending_outcomes symbol d). so_signal_id o1 = so_signal_id o2 \<longrightarrow>
         resolve s (candles_after d symbol timeframe (sg_timestamp s) n) n = Inr None))"
    "\<And>i. i < length os \<Longrightarrow> so_signal_id (db_outcomes d ! i) \<notin> so_signal_id ` fst ` set (pending_outcomes symbol d) \<Longrightarrow>
       os ! i = db_outcomes d ! i"
    using evaluate_outcomes_rows [OF assms(1) [unfolded evaluate_pending_signal_outcomes_def]] by blast
  have len: "length os = length (db_outcomes d)" using arg_cong [OF os(2), of length] by simp
  have same: "os ! i = db_outcomes d ! i"
    if i: "i < length (db_outcomes d)" "so_outcome (db_outcomes d ! i) \<noteq> OC_PENDING" for i
  proof -
    have "so_signal_id (db_outcomes d ! i) \<noteq> so_signal_id o1" if mem: "(o1, s) \<in> set (pending_outcomes symbol d)" for o1 s
    proof
      assume e: "so_signal_id (db_outcomes d ! i) = so_signal_id o1"
      obtain j where j: "j < length (db_outcomes d)" "db_outcomes d ! j = o1" "so_outcome o1 = OC_PENDING"
        using mem [unfolded pending_rows] by (auto simp: in_set_conv_nth)
      then have "map so_signal_id (db_outcomes d) ! i = map so_signal_id (db_outcomes d) ! j" using e i(1) by simp
      then have "i = j" using assms(2) i(1) j(1) by (simp only: nth_eq_iff_index_eq length_map)
      then show False using i(2) j by simp
    qed
    then show ?thesis using os(4) [of i] i(1) len by force
  qed
  have cs: "candles_after d' symbol timeframe = candles_after d symbol timeframe"
    using os(1) by (intro ext) (simp add: candles_after_def)
  have "resolve s (candles_after d' symbol timeframe (sg_timestamp s) n) n = Inr None"
    if "(o1, s) \<in> set (pending_outcomes symbol d')" for o1 s
  proof -
    have o1: "o1 \<in> set os" "so_outcome o1 = OC_PENDING" "s \<in> set (db_signals d)"
      "sg_signal_id s = so_signal_id o1" "sg_symbol s = symbol"
      using that by (simp_all add: pending_rows os(1))
    then have "o1 \<in> set (db_outcomes d)" and undecided: "\<forall>(o2, s) \<in> set (pending_outcomes symbol d).
        so_signal_id o2 = so_signal_id o1 \<longrightarrow> resolve s (candles_after d symbol timeframe (sg_timestamp s) n) n = Inr None"
      using os(3) [of o1] by auto
    then have "(o1, s) \<in> set (pending_outcomes symbol d)" using o1 by (simp add: pending_rows)
    then show ?thesis using undecided unfolding cs by fastforce
  qed
  then have "evaluate_pending_signal_outcomes symbol timeframe n d' = Inr (0, d')"
    unfolding evaluate_pending_signal_outcomes_def by (intro evaluate_nothing) auto
  moreover have "d' = d\<lparr>db_outcomes := db_outcomes d'\<rparr>" using os(1) by simp
  ultimately show ?thesis using os(1,2) same by simp
qed

text \<open>Two signals of a symbol, one decided by the candle stored, the other not.\<close>

definition demo_outcome_db :: db where
  "demo_outcome_db = empty_db\<lparr>db_signals := [demo_signal], db_outcomes := [new_outcome demo_signal],
     db_candles := [demo_bar 1 96 105, demo_bar 2 94 112]\<rparr>"

theorem outcomes_final_witness:
  "\<exists>k d'. evaluate_pending_signal_outcomes ''BTC/USDT'' ''4h'' 30 demo_outcome_db = Inr (k, d') \<and> k = 1 \<and>
     evaluate_pending_signal_outcomes ''BTC/USDT'' ''4h'' 30 d' = Inr (0, d')"
proof -
  have s: "sg_entry_price demo_signal = Some 100" "sg_stop_loss demo_signal = Some 95" "sg_timestamp demo_signal = 0"
    "sg_take_profit_1 demo_signal = Some 110" "sg_signal_type demo_signal = ''LONG''" "sg_symbol demo_signal = ''BTC/USDT''"
    "sg_signal_id demo_signal = signal_id_of ''0123''"
    by (simp_all add: demo_signal_def new_signal_def demo_setup_def)
  have cs: "candles_after demo_outcome_db ''BTC/USDT'' ''4h'' 0 30 = [demo_bar 1 96 105, demo_bar 2 94 112]"
    by (simp add: candles_after_def demo_outcome_db_def demo_bar_def)
  have p: "pending_outcomes ''BTC/USDT'' demo_outcome_db = [(new_outcome demo_signal, demo_signal)]"
    by (simp add: pending_outcomes_def demo_outcome_db_def new_outcome_def s)
  obtain r where r: "resolve demo_signal [demo_bar 1 96 105, demo_bar 2 94 112] 30 = Inr (Some r)"
    using s by (simp add: resolve_def touches_stop_def touches_target_def demo_bar_def hypothetical_pnl_pct_def py_div_def)
  obtain d' where d': "evaluate_pending_signal_outcomes ''BTC/USDT'' ''4h'' 30 demo_outcome_db = Inr (1, d')"
    by (simp add: evaluate_pending_signal_outcomes_def p s cs r)
  then show ?thesis using outcomes_final [OF d'] by (simp add: demo_outcome_db_def)
qed

section \<open>Two writers\<close>


definition demo_history :: "candle list" where
  "demo_history = map (\<lambda>i. demo_bar (int i) 96 105) [0..<60]"

definition demo_race_db :: db where "demo_race_db = empty_db\<lparr>db_candles := demo_history\<rparr>"

definition demo_race_time :: datetime where
  "demo_race_time = b_timestamp (last (load_recent_candles demo_race_db ''BTC/USDT'' ''4h'' DEFAULT_LOOKBACK_BARS))"


end
