(* ===== verification/MarketFeed.thy ===== *)
theory MarketFeed
  imports SignalStore AccountSync
begin

text \<open>
  \<open>services/market_data/coindcx_ws.py\<close> and \<open>live_state.py\<close>: the public price stream as a state
  machine over its events, its freshness, the alerts on lost and recovered connections, and the
  supervisor that retries the first connection.  \<open>json.loads\<close> and the reading of a number in a
  text are arguments; each handler runs to its end before the next event.
\<close>

section \<open>The tick and the feed\<close>

definition DEFAULT_STALE_AFTER :: timedelta where "DEFAULT_STALE_AFTER = 20 * second_us"

record market_tick =
  mk_event_timestamp :: "datetime option"
  mk_last_price_usdt :: "f64 option"
  mk_mark_price_usdt :: "f64 option"
  mk_received_at :: "datetime option"

record market_feed =
  mf_instrument :: string
  mf_state :: market_tick
  mf_connected :: bool
  mf_ever_connected :: bool
  mf_last_notified_status :: "connection_state option"
  mf_pinging :: bool

definition new_feed :: "string \<Rightarrow> market_feed" where
  "new_feed symbol =
     \<lparr>mf_instrument = normalize_symbol symbol ''USDT'',
      mf_state = \<lparr>mk_event_timestamp = None, mk_last_price_usdt = None, mk_mark_price_usdt = None, mk_received_at = None\<rparr>,
      mf_connected = False, mf_ever_connected = False, mf_last_notified_status = None, mf_pinging = False\<rparr>"

section \<open>Messages\<close>

text \<open>
  \<open>datetime.utcfromtimestamp\<close>: a \<open>ValueError\<close> outside the years 1 to 9999; from about 2 to the 31
  years on the C library refuses first, with an \<open>OSError\<close> or \<open>OverflowError\<close>.
\<close>

definition utcfromtimestamp :: "f64 \<Rightarrow> datetime result" where
  "utcfromtimestamp x =
     (if \<bar>x\<bar> \<ge> 67768036191676800 then Inl OverflowError
      else let t = timedelta_seconds x
      in if t < - 62135596800 * second_us \<or> 253402300800 * second_us \<le> t then Inl ValueError else Inr t)"

text \<open>\<open>_ms_to_dt\<close> catches type and value errors only.\<close>

definition ms_to_dt :: "(string \<Rightarrow> f64 option) \<Rightarrow> json \<Rightarrow> datetime option result" where
  "ms_to_dt read_text ms =
     (case bindr (json_float read_text ms) (\<lambda>x. utcfromtimestamp (fdiv x 1000)) of
        Inr t \<Rightarrow> Inr (Some t)
      | Inl x \<Rightarrow> if x = TypeError \<or> x = ValueError then Inr None else Inl x)"

definition extract_payload :: "(string \<Rightarrow> json option) \<Rightarrow> json \<Rightarrow> json" where
  "extract_payload loads response =
     (case response of
        JObj kvs \<Rightarrow>
          (case map_of kvs ''data'' of
             None \<Rightarrow> response
           | Some (JStr s) \<Rightarrow> (case loads s of Some (JObj d) \<Rightarrow> JObj d | _ \<Rightarrow> JObj [])
           | Some (JObj d) \<Rightarrow> JObj d
           | Some _ \<Rightarrow> JObj [])
      | _ \<Rightarrow> JObj [])"

text \<open>The end of both message handlers: the price is stored, then its times.\<close>

definition stamp :: "(string \<Rightarrow> f64 option) \<Rightarrow> json \<Rightarrow> datetime \<Rightarrow> market_feed \<Rightarrow> market_feed \<times> exn option" where
  "stamp read_text ms now m =
     (case ms_to_dt read_text ms of
        Inl x \<Rightarrow> (m, Some x)
      | Inr ts \<Rightarrow> (m\<lparr>mf_state := (mf_state m)\<lparr>
            mk_event_timestamp := (case ts of None \<Rightarrow> mk_event_timestamp (mf_state m) | Some t \<Rightarrow> Some t),
            mk_received_at := Some now\<rparr>\<rparr>, None))"

definition handle_price_change ::
  "(string \<Rightarrow> f64 option) \<Rightarrow> datetime \<Rightarrow> json \<Rightarrow> market_feed \<Rightarrow> market_feed \<times> exn option" where
  "handle_price_change read_text now data m =
     (let price = json_get data ''p'' JNull
      in if price = JNull then (m, None)
         else case json_float read_text price of
                Inl x \<Rightarrow> if x = TypeError \<or> x = ValueError then (m, None) else (m, Some x)
              | Inr p \<Rightarrow> stamp read_text (json_get data ''T'' JNull) now
                  (m\<lparr>mf_state := (mf_state m)\<lparr>mk_last_price_usdt := Some p\<rparr>\<rparr>))"

definition handle_current_prices ::
  "(string \<Rightarrow> f64 option) \<Rightarrow> datetime \<Rightarrow> json \<Rightarrow> market_feed \<Rightarrow> market_feed \<times> exn option" where
  "handle_current_prices read_text now data m =
     (case json_get data ''prices'' JNull of
        JObj kvs \<Rightarrow>
          (let entry = json_get (JObj kvs) (mf_instrument m) JNull
           in if \<not> json_truthy entry then (m, None)
              else case obj_get entry ''mp'' of
                     Inl x \<Rightarrow> (m, Some x)
                   | Inr JNull \<Rightarrow> (m, None)
                   | Inr mp \<Rightarrow>
                       (case json_float read_text mp of
                          Inl x \<Rightarrow> if x = TypeError \<or> x = ValueError then (m, None) else (m, Some x)
                        | Inr p \<Rightarrow> stamp read_text (json_get data ''ts'' JNull) now
                            (m\<lparr>mf_state := (mf_state m)\<lparr>mk_mark_price_usdt := Some p\<rparr>\<rparr>)))
      | _ \<Rightarrow> (m, None))"

section \<open>Connection events\<close>

text \<open>
  The callback stores an audit row and then sends an alert, which never raises.  \<open>ok\<close> is false when
  the row cannot be stored: then nothing is sent and the notified status stays.
\<close>

definition on_connection_transition :: "connection_state \<Rightarrow> connection_state \<Rightarrow> datetime \<Rightarrow> db \<Rightarrow> db \<times> string list" where
  "on_connection_transition old new now d =
     (d\<lparr>db_sync_events := db_sync_events d @
        [\<lparr>se_source = ''coindcx_market_ws'', se_status = (if new = CN_LIVE then SY_SUCCESS else SY_FAILED), se_timestamp = now\<rparr>]\<rparr>,
      if new = CN_DISCONNECTED then [''DISCONNECTED''] else if new = CN_LIVE then [''RECOVERED''] else [])"

definition maybe_notify_transition :: "bool \<Rightarrow> datetime \<Rightarrow> market_feed \<Rightarrow> db \<Rightarrow> market_feed \<times> db \<times> string list" where
  "maybe_notify_transition ok now m d =
     (let new_status = (if mf_connected m then CN_LIVE else CN_DISCONNECTED);
          m' = m\<lparr>mf_last_notified_status := Some new_status\<rparr>
      in case mf_last_notified_status m of
           None \<Rightarrow> (m', d, [])
         | Some old \<Rightarrow>
             if old = new_status then (m', d, [])
             else if ok then let (d', alerts) = on_connection_transition old new_status now d in (m', d', alerts)
             else (m, d, []))"

definition on_connect :: "bool \<Rightarrow> datetime \<Rightarrow> market_feed \<Rightarrow> db \<Rightarrow> market_feed \<times> db \<times> string list" where
  "on_connect ok now m d =
     maybe_notify_transition ok now (m\<lparr>mf_connected := True, mf_ever_connected := True, mf_pinging := True\<rparr>) d"

definition on_disconnect :: "bool \<Rightarrow> datetime \<Rightarrow> market_feed \<Rightarrow> db \<Rightarrow> market_feed \<times> db \<times> string list" where
  "on_disconnect ok now m d = maybe_notify_transition ok now (m\<lparr>mf_connected := False, mf_pinging := False\<rparr>) d"

definition connection_status :: "datetime \<Rightarrow> timedelta \<Rightarrow> market_feed \<Rightarrow> connection_state" where
  "connection_status now stale_after m =
     (if \<not> mf_connected m then if mf_ever_connected m then CN_DISCONNECTED else CN_UNAVAILABLE
      else case mk_received_at (mf_state m) of
             None \<Rightarrow> CN_UNAVAILABLE
           | Some r \<Rightarrow> if now - r \<le> stale_after then CN_LIVE else CN_STALE)"

section \<open>Runs\<close>

datatype feed_event =
    EV_CONNECT bool datetime
  | EV_DISCONNECT bool datetime
  | EV_PRICE_CHANGE datetime json
  | EV_CURRENT_PRICES datetime json

text \<open>An exception that leaves a message handler is logged by the client library; the stream goes on.\<close>

fun feed_step ::
  "(string \<Rightarrow> f64 option) \<Rightarrow> (string \<Rightarrow> json option) \<Rightarrow> feed_event \<Rightarrow> market_feed \<times> db \<times> string list
     \<Rightarrow> market_feed \<times> db \<times> string list" where
  "feed_step rt loads (EV_CONNECT ok now) (m, d, al) = (let (m', d', a) = on_connect ok now m d in (m', d', al @ a))"
| "feed_step rt loads (EV_DISCONNECT ok now) (m, d, al) = (let (m', d', a) = on_disconnect ok now m d in (m', d', al @ a))"
| "feed_step rt loads (EV_PRICE_CHANGE now r) (m, d, al) = (fst (handle_price_change rt now (extract_payload loads r) m), d, al)"
| "feed_step rt loads (EV_CURRENT_PRICES now r) (m, d, al) = (fst (handle_current_prices rt now (extract_payload loads r) m), d, al)"

definition feed_run ::
  "(string \<Rightarrow> f64 option) \<Rightarrow> (string \<Rightarrow> json option) \<Rightarrow> feed_event list \<Rightarrow> market_feed \<times> db \<times> string list
     \<Rightarrow> market_feed \<times> db \<times> string list" where
  "feed_run rt loads es s = foldl (\<lambda>s e. feed_step rt loads e s) s es"

section \<open>The retry of the first connection\<close>

definition STARTUP_RETRY_DELAYS_SECONDS :: "int list" where "STARTUP_RETRY_DELAYS_SECONDS = [2, 4, 8, 16, 30]"

definition startup_delay :: "nat \<Rightarrow> int" where
  "startup_delay attempt = STARTUP_RETRY_DELAYS_SECONDS ! min attempt (length STARTUP_RETRY_DELAYS_SECONDS - 1)"

text \<open>
  \<open>_run\<close>, from an attempt on: whether each attempt connects and whether a stop is requested in the wait after it are
  arguments.  The value is whether it connected and the waits in between; \<open>None\<close> when it never ends.
\<close>

partial_function (option) supervise :: "(nat \<Rightarrow> bool) \<Rightarrow> (nat \<Rightarrow> bool) \<Rightarrow> nat \<Rightarrow> (bool \<times> int list) option" where
  "supervise connects stops attempt =
     (if connects attempt then Some (True, [])
      else if stops attempt then Some (False, [startup_delay attempt])
      else Option.bind (supervise connects stops (Suc attempt)) (\<lambda>(b, ws). Some (b, startup_delay attempt # ws)))"

section \<open>Alerts are the transitions\<close>

text \<open>The connection events of a run: the status each leads to, its time, and whether an audit row can be stored then.\<close>

fun connection_event :: "feed_event \<Rightarrow> ((connection_state \<times> datetime) \<times> bool) option" where
  "connection_event (EV_CONNECT ok now) = Some ((CN_LIVE, now), ok)"
| "connection_event (EV_DISCONNECT ok now) = Some ((CN_DISCONNECTED, now), ok)"
| "connection_event _ = None"

text \<open>The statuses that count: the first one, and every later one that can be recorded.\<close>

definition notified_log :: "feed_event list \<Rightarrow> (connection_state \<times> datetime) list" where
  "notified_log es =
     (case List.map_filter connection_event es of [] \<Rightarrow> [] | (s, _) # l \<Rightarrow> s # map fst (filter snd l))"

definition transitions :: "(connection_state \<times> datetime) list \<Rightarrow> (connection_state \<times> connection_state \<times> datetime) list" where
  "transitions l = map (\<lambda>((s, _), (s', t)). (s, s', t)) (filter (\<lambda>((s, _), (s', _)). s \<noteq> s') (zip l (tl l)))"

definition transition_row :: "connection_state \<times> connection_state \<times> datetime \<Rightarrow> sync_event" where
  "transition_row = (\<lambda>(old, new, t).
     \<lparr>se_source = ''coindcx_market_ws'', se_status = (if new = CN_LIVE then SY_SUCCESS else SY_FAILED), se_timestamp = t\<rparr>)"

definition transition_alert :: "connection_state \<times> connection_state \<times> datetime \<Rightarrow> string" where
  "transition_alert = (\<lambda>(old, new, t). if new = CN_LIVE then ''RECOVERED'' else ''DISCONNECTED'')"

lemma zip_tl_snoc: "xs \<noteq> [] \<Longrightarrow> zip (xs @ [x]) (tl (xs @ [x])) = zip xs (tl xs) @ [(last xs, x)]"
  by (induction xs) (auto simp: neq_Nil_conv)

lemma transitions_snoc:
  "transitions (l @ [x]) = transitions l @ (if l \<noteq> [] \<and> fst (last l) \<noteq> fst x then [(fst (last l), fst x, snd x)] else [])"
  by (cases "l = []") (auto simp: transitions_def zip_tl_snoc case_prod_unfold simp del: tl_append2 tl_append)

lemma transitions_short [simp]: "transitions [] = []" "transitions [x] = []"
  by (simp_all add: transitions_def)

lemma notified_snoc:
  "notified_log (es @ [e]) = notified_log es @
     (case connection_event e of None \<Rightarrow> [] | Some (s, ok) \<Rightarrow> if ok \<or> notified_log es = [] then [s] else [])"
  by (auto simp: notified_log_def List.map_filter_def split: list.splits option.splits)

lemma stamp_frame:
  "stamp rt ms now m = (m', x) \<Longrightarrow> mf_connected m' = mf_connected m \<and> mf_last_notified_status m' = mf_last_notified_status m \<and>
     mf_instrument m' = mf_instrument m \<and> mk_last_price_usdt (mf_state m') = mk_last_price_usdt (mf_state m) \<and>
     mf_ever_connected m' = mf_ever_connected m \<and> mf_pinging m' = mf_pinging m"
  by (auto simp: stamp_def split: sum.splits)

lemma messages_frame:
  "handle_price_change rt now data m = (m', x) \<Longrightarrow> mf_connected m' = mf_connected m \<and> mf_last_notified_status m' = mf_last_notified_status m"
  "handle_current_prices rt now data m = (m', x) \<Longrightarrow> mf_connected m' = mf_connected m \<and> mf_last_notified_status m' = mf_last_notified_status m"
  by (auto simp: handle_price_change_def handle_current_prices_def Let_def dest: stamp_frame split: sum.splits if_splits json.splits)

lemma feed_run_snoc: "feed_run rt loads (es @ [e]) s = feed_step rt loads e (feed_run rt loads es s)"
  by (simp add: feed_run_def)

text \<open>
  C36: the connection alerts of a run of the feed, from a new one, are exactly the changes of
  its connection status: write down the status after every connect and disconnect, drop those whose
  audit row cannot be stored (but not the first), merge equal neighbours, and each step
  from one entry to the next is one alert and one audit row with the time of the change, in order; so the first connect
  alerts nothing, and price messages, repeated connects and reconnects after an unnoticed drop
  alert nothing.
\<close>

theorem feed_alerts_are_transitions:
  "case feed_run rt loads es (new_feed symbol, d, []) of (m, d', alerts) \<Rightarrow>
     alerts = map transition_alert (transitions (notified_log es)) \<and>
     d' = d\<lparr>db_sync_events := db_sync_events d @ map transition_row (transitions (notified_log es))\<rparr> \<and>
     mf_last_notified_status m = (if notified_log es = [] then None else Some (fst (last (notified_log es))))"
proof (induction es rule: rev_induct)
  case Nil
  then show ?case by (simp add: feed_run_def new_feed_def notified_log_def transitions_def map_filter_simps)
next
  case (snoc e es)
  obtain m d1 al where s: "feed_run rt loads es (new_feed symbol, d, []) = (m, d1, al)" by (metis prod_cases3)
  have ih: "al = map transition_alert (transitions (notified_log es))"
    "d1 = d\<lparr>db_sync_events := db_sync_events d @ map transition_row (transitions (notified_log es))\<rparr>"
    "mf_last_notified_status m = (if notified_log es = [] then None else Some (fst (last (notified_log es))))"
    using snoc s by auto
  show ?case
  proof (cases e)
    case (EV_CONNECT ok now)
    then show ?thesis
      by (cases "notified_log es = []")
        (auto simp: feed_run_snoc s ih on_connect_def maybe_notify_transition_def on_connection_transition_def
          Let_def notified_snoc transitions_snoc transition_row_def transition_alert_def)
  next
    case (EV_DISCONNECT ok now)
    then show ?thesis
      by (cases "notified_log es = []")
        (auto simp: feed_run_snoc s ih on_disconnect_def maybe_notify_transition_def on_connection_transition_def
          Let_def notified_snoc transitions_snoc transition_row_def transition_alert_def)
  next
    case (EV_PRICE_CHANGE now r)
    then show ?thesis
      using messages_frame(1) [of rt now "extract_payload loads r" m]
      by (cases "handle_price_change rt now (extract_payload loads r) m") (auto simp: feed_run_snoc s ih notified_snoc)
  next
    case (EV_CURRENT_PRICES now r)
    then show ?thesis
      using messages_frame(2) [of rt now "extract_payload loads r" m]
      by (cases "handle_current_prices rt now (extract_payload loads r) m") (auto simp: feed_run_snoc s ih notified_snoc)
  qed
qed

section \<open>The first connection\<close>

lemma supervise_reaches:
  assumes "\<forall>i<k. \<not> connects (a + i) \<and> \<not> stops (a + i)" "connects (a + k) \<or> stops (a + k)"
  shows "supervise connects stops a = Some (connects (a + k),
      map startup_delay [a..<a + k] @ (if connects (a + k) then [] else [startup_delay (a + k)]))"
  using assms
proof (induction k arbitrary: a)
  case 0
  then show ?case by (subst supervise.simps) auto
next
  case (Suc k)
  have h: "\<forall>i<k. \<not> connects (Suc a + i) \<and> \<not> stops (Suc a + i)" "\<not> connects a" "\<not> stops a"
    using Suc.prems(1) by (force, force, force)
  have "supervise connects stops (Suc a) = Some (connects (Suc a + k),
      map startup_delay [Suc a..<Suc a + k] @ (if connects (Suc a + k) then [] else [startup_delay (Suc a + k)]))"
    using Suc.IH [OF h(1)] Suc.prems(2) by simp
  moreover have "[a..<a + Suc k] = a # [Suc a..<Suc a + k]" by (simp add: upt_conv_Cons)
  ultimately show ?case using h(2,3) by (subst supervise.simps) simp
qed

lemma supervise_ends:
  assumes "supervise connects stops a = Some r"
  shows "\<exists>n. a \<le> n \<and> (connects n \<or> stops n)"
proof (rule supervise.raw_induct [where P = "\<lambda>c s a r. \<exists>n. a \<le> n \<and> (c n \<or> s n)", OF _ assms])
  fix f :: "(nat \<Rightarrow> bool) \<Rightarrow> (nat \<Rightarrow> bool) \<Rightarrow> nat \<Rightarrow> (bool \<times> int list) option" and c s a r
  assume ih: "\<And>c s a r. f c s a = Some r \<Longrightarrow> \<exists>n. a \<le> n \<and> (c n \<or> s n)"
    and body: "(if c a then Some (True, []) else if s a then Some (False, [startup_delay a])
      else Option.bind (f c s (Suc a)) (\<lambda>(b, ws). Some (b, startup_delay a # ws))) = Some r"
  show "\<exists>n. a \<le> n \<and> (c n \<or> s n)"
  proof (cases "c a \<or> s a")
    case False
    then obtain r' where "f c s (Suc a) = Some r'" using body by (cases "f c s (Suc a)") auto
    from ih [OF this] show ?thesis using Suc_leD by blast
  qed auto
qed

text \<open>
  the retry of the first connection ends exactly when some attempt connects or a stop is
  requested during some wait.  It then ends at the first such attempt \<open>n\<close>, connected if that
  attempt connects, having made no attempt after it and waited once after each failed one: 2, 4, 8,
  16 seconds and then 30 each time, that is the smaller of 30 and the next power of two.
\<close>

theorem startup_retry_ends:
  "supervise connects stops 0 =
     (if \<exists>n. connects n \<or> stops n
      then let n = LEAST n. connects n \<or> stops n
           in Some (connects n, map startup_delay [0..<n] @ (if connects n then [] else [startup_delay n]))
      else None) \<and>
   startup_delay k = min 30 (2 ^ Suc k)"
proof
  show "supervise connects stops 0 =
     (if \<exists>n. connects n \<or> stops n
      then let n = LEAST n. connects n \<or> stops n
           in Some (connects n, map startup_delay [0..<n] @ (if connects n then [] else [startup_delay n]))
      else None)"
  proof (cases "\<exists>n. connects n \<or> stops n")
    case True
    define n where "n = (LEAST n. connects n \<or> stops n)"
    have "connects n \<or> stops n" unfolding n_def by (rule LeastI_ex [OF True])
    moreover have "\<forall>i<n. \<not> connects (0 + i) \<and> \<not> stops (0 + i)"
    proof (intro allI impI)
      fix i assume "i < n"
      from not_less_Least [OF this [unfolded n_def]] show "\<not> connects (0 + i) \<and> \<not> stops (0 + i)" by simp
    qed
    ultimately show ?thesis using True supervise_reaches [of n connects 0 stops] by (simp add: n_def [symmetric] Let_def)
  next
    case False
    then show ?thesis using supervise_ends [of connects stops 0] by (cases "supervise connects stops 0") auto
  qed
  show "startup_delay k = min 30 (2 ^ Suc k)"
  proof (cases "k < 4")
    case True
    then have "k \<in> {0, 1, 2, 3}" by auto
    then show ?thesis by (auto simp: startup_delay_def STARTUP_RETRY_DELAYS_SECONDS_def)
  next
    case False
    then have "(2::int) ^ 5 \<le> 2 ^ Suc k" by (intro power_increasing) auto
    moreover have "startup_delay k = 30" using False by (simp add: startup_delay_def STARTUP_RETRY_DELAYS_SECONDS_def)
    ultimately show ?thesis by simp
  qed
qed

end
