(* ===== verification/LiveBreakout.thy ===== *)
theory LiveBreakout
  imports MarketFeed
begin

text \<open>
  \<open>services/signal_engine/live_breakout.py\<close>: the candle that is still forming, built from price
  ticks, and the baseline strategy on it; and the runs of all jobs that store or announce signals
  (\<open>services/scheduler/jobs.py\<close>).
\<close>

section \<open>The forming candle\<close>

definition TIMEFRAME_SECONDS :: "(string \<times> int) list" where
  "TIMEFRAME_SECONDS = [(''1m'', 60), (''5m'', 300), (''15m'', 900), (''1h'', 3600), (''4h'', 14400), (''1d'', 86400)]"

record forming_candle =
  fc_open_time :: datetime
  fc_open :: f64
  fc_high :: f64
  fc_low :: f64
  fc_close :: f64
  fc_tick_count :: nat

record aggregator =
  ag_interval_seconds :: int
  ag_current :: "forming_candle option"

definition new_aggregator :: "string \<Rightarrow> aggregator result" where
  "new_aggregator timeframe =
     (case map_of TIMEFRAME_SECONDS timeframe of
        None \<Rightarrow> Inl ValueError | Some n \<Rightarrow> Inr \<lparr>ag_interval_seconds = n, ag_current = None\<rparr>)"

definition bucket_start :: "aggregator \<Rightarrow> datetime \<Rightarrow> datetime" where
  "bucket_start ag ts =
     \<lfloor>total_seconds ts / of_int (ag_interval_seconds ag)\<rfloor> * ag_interval_seconds ag * second_us"

definition next_forming :: "forming_candle option \<Rightarrow> datetime \<Rightarrow> f64 \<Rightarrow> forming_candle" where
  "next_forming current bucket price =
     (let fresh = \<lparr>fc_open_time = bucket, fc_open = price, fc_high = price, fc_low = price, fc_close = price, fc_tick_count = 1\<rparr>
      in case current of
           None \<Rightarrow> fresh
         | Some c \<Rightarrow>
             if fc_open_time c \<noteq> bucket then fresh
             else c\<lparr>fc_high := max (fc_high c) price, fc_low := min (fc_low c) price, fc_close := price,
                    fc_tick_count := fc_tick_count c + 1\<rparr>)"

definition on_tick :: "f64 \<Rightarrow> datetime \<Rightarrow> aggregator \<Rightarrow> forming_candle \<times> aggregator" where
  "on_tick price ts ag =
     (let c = next_forming (ag_current ag) (bucket_start ag ts) price in (c, ag\<lparr>ag_current := Some c\<rparr>))"

section \<open>The breakout check\<close>

definition forming_bar :: "forming_candle \<Rightarrow> bar" where
  "forming_bar c = \<lparr>b_timestamp = fc_open_time c, b_open = fc_open c, b_high = fc_high c, b_low = fc_low c,
     b_close = fc_close c, b_volume = 0\<rparr>"

text \<open>
  The set-up search of the baseline strategy, its ADX reading and the regime detector are arguments;
  \<open>now\<close> is the clock of the freshness check.  The candle of the aggregator is kept whatever follows
  the tick.
\<close>

record baseline =
  bl_setup :: "bar list \<Rightarrow> raw_setup option"
  bl_adx :: "bar list \<Rightarrow> f64 option"
  bl_threshold :: f64

definition baseline_run :: "baseline \<Rightarrow> bar list \<Rightarrow> strategy_signal" where
  "baseline_run bl = baseline_generate (bl_setup bl) (bl_adx bl) (bl_threshold bl)"

definition evaluate_live_breakout ::
  "baseline \<Rightarrow> (bar list \<Rightarrow> string) \<Rightarrow> string \<Rightarrow> datetime \<Rightarrow> market_feed \<Rightarrow> string \<Rightarrow> string
     \<Rightarrow> aggregator \<Rightarrow> db \<Rightarrow> signal option result \<times> aggregator \<times> db" where
  "evaluate_live_breakout bl regime u now feed symbol timeframe ag d =
     (if is_signal_generation_paused d \<or> connection_status now DEFAULT_STALE_AFTER feed \<noteq> CN_LIVE then (Inr None, ag, d)
      else case (mk_last_price_usdt (mf_state feed), mk_received_at (mf_state feed)) of
        (Some price, Some received) \<Rightarrow>
          let closed_df = load_recent_candles d symbol timeframe DEFAULT_LOOKBACK_BARS
          in if length closed_df < MIN_BARS_REQUIRED then (Inr None, ag, d)
          else let (forming, ag') = on_tick price received ag
          in case map_of TIMEFRAME_SECONDS timeframe of
            None \<Rightarrow> (Inl KeyError, ag', d)
          | Some seconds \<Rightarrow>
              if fc_open_time forming \<noteq> b_timestamp (last closed_df) + seconds * second_us then (Inr None, ag', d)
              else case signal_already_exists_for_candle d symbol timeframe BASELINE_NAME (fc_open_time forming) of
                Inl x \<Rightarrow> (Inl x, ag', d)
              | Inr True \<Rightarrow> (Inr None, ag', d)
              | Inr False \<Rightarrow>
                  let combined = closed_df @ [forming_bar forming]; r = baseline_run bl combined
                  in if ss_signal_type r = ''NO_TRADE'' then (Inr None, ag', d)
                     else (case persist_new_signal u r symbol timeframe (fc_open_time forming) (regime combined) d of
                             Inl x \<Rightarrow> (Inl x, ag', d)
                           | Inr (s, d') \<Rightarrow> (Inr (Some s), ag', d'))
      | _ \<Rightarrow> (Inr None, ag, d))"

section \<open>Jobs\<close>

text \<open>Each alert is sent and logged before the next; an error ends the loop after the alerts before it.\<close>

fun notify_all :: "signal list \<Rightarrow> db \<Rightarrow> string list \<times> exn option \<times> db" where
  "notify_all [] d = ([], None, d)"
| "notify_all (s # ss) d =
     (case notify_new_signal s d of
        Inl x \<Rightarrow> ([], Some x, d)
      | Inr (sent, d1) \<Rightarrow>
          (case notify_all ss d1 of (ids, x, d') \<Rightarrow> ((if sent then [sg_signal_id s] else []) @ ids, x, d')))"

definition signal_generation_job ::
  "strategy_runner \<Rightarrow> (nat \<Rightarrow> string) \<Rightarrow> string \<Rightarrow> string \<Rightarrow> db \<Rightarrow> string list \<times> exn option \<times> db" where
  "signal_generation_job run uid symbol timeframe d =
     (case evaluate_all_strategies_for_timeframe run uid symbol timeframe d of
        (Inl x, d') \<Rightarrow> ([], Some x, d')
      | (Inr ss, d') \<Rightarrow> notify_all ss d')"

definition live_breakout_job ::
  "baseline \<Rightarrow> (bar list \<Rightarrow> string) \<Rightarrow> string \<Rightarrow> datetime \<Rightarrow> market_feed \<Rightarrow> string \<Rightarrow> string
     \<Rightarrow> aggregator \<Rightarrow> db \<Rightarrow> string list \<times> exn option \<times> aggregator \<times> db" where
  "live_breakout_job bl regime u now feed symbol timeframe ag d =
     (case evaluate_live_breakout bl regime u now feed symbol timeframe ag d of
        (Inr None, ag', d') \<Rightarrow> ([], None, ag', d')
      | (Inr (Some s), ag', d') \<Rightarrow> (case notify_all [s] d' of (ids, x, d2) \<Rightarrow> (ids, x, ag', d2))
      | (Inl x, ag', d') \<Rightarrow> ([], Some x, ag', d'))"

text \<open>The route \<open>/generate\<close> of \<open>apps/api/routers/signals.py\<close> runs the baseline on the closed candles.\<close>

definition generate_signal_now ::
  "baseline \<Rightarrow> (bar list \<Rightarrow> string) \<Rightarrow> string \<Rightarrow> string \<Rightarrow> string \<Rightarrow> db \<Rightarrow> string list \<times> exn option \<times> db" where
  "generate_signal_now bl regime u symbol timeframe d =
     (case generate_and_persist_signal (baseline_run bl) regime u symbol timeframe d of
        Inl x \<Rightarrow> ([], Some x, d)
      | Inr (None, d') \<Rightarrow> ([], None, d')
      | Inr (Some s, d') \<Rightarrow> notify_all [s] d')"

definition outcome_evaluation_job :: "string \<Rightarrow> string \<Rightarrow> db \<Rightarrow> (nat \<times> db) result" where
  "outcome_evaluation_job symbol timeframe d =
     evaluate_pending_signal_outcomes symbol timeframe DEFAULT_MAX_HORIZON_BARS d"

section \<open>The forming candle summarises its ticks\<close>

definition run_ticks :: "(f64 \<times> datetime) list \<Rightarrow> aggregator \<Rightarrow> aggregator" where
  "run_ticks ticks ag = foldl (\<lambda>ag (p, t). snd (on_tick p t ag)) ag ticks"

text \<open>The prices of the last ticks that fall in one bucket.\<close>

definition last_bucket :: "aggregator \<Rightarrow> (f64 \<times> datetime) list \<Rightarrow> f64 list" where
  "last_bucket ag ticks =
     map fst (rev (takeWhile (\<lambda>pt. bucket_start ag (snd pt) = bucket_start ag (snd (last ticks))) (rev ticks)))"

lemma bucket_start_frame [simp]: "bucket_start (ag\<lparr>ag_current := c\<rparr>) = bucket_start ag"
  by (intro ext) (simp add: bucket_start_def)

lemma run_ticks_bucket [simp]: "bucket_start (run_ticks ticks ag) = bucket_start ag"
  by (induction ticks arbitrary: ag) (auto simp: run_ticks_def on_tick_def Let_def)

lemma last_bucket_snoc:
  "last_bucket ag (ticks @ [(p, t)]) =
     (if ticks \<noteq> [] \<and> bucket_start ag (snd (last ticks)) = bucket_start ag t then last_bucket ag ticks @ [p] else [p])"
  by (cases ticks rule: rev_cases) (auto simp: last_bucket_def)

lemma last_bucket_ne: "ticks \<noteq> [] \<Longrightarrow> last_bucket ag ticks \<noteq> []"
  by (cases ticks rule: rev_cases) (auto simp: last_bucket_def)

lemma run_ticks_current:
  assumes "ticks \<noteq> []" "ag_current ag = None"
  shows "ag_current (run_ticks ticks ag) =
    Some \<lparr>fc_open_time = bucket_start ag (snd (last ticks)), fc_open = hd (last_bucket ag ticks),
      fc_high = Max (set (last_bucket ag ticks)), fc_low = Min (set (last_bucket ag ticks)),
      fc_close = last (last_bucket ag ticks), fc_tick_count = length (last_bucket ag ticks)\<rparr>"
  using assms(1)
proof (induction ticks rule: rev_induct)
  case (snoc tick ticks)
  obtain p t where tick: "tick = (p, t)" by fastforce
  show ?case
  proof (cases "ticks = []")
    case True
    then show ?thesis using assms(2) tick
      by (simp add: run_ticks_def on_tick_def next_forming_def last_bucket_def Let_def)
  next
    case False
    have r: "run_ticks (ticks @ [(p, t)]) ag = snd (on_tick p t (run_ticks ticks ag))" by (simp add: run_ticks_def)
    have "set (last_bucket ag ticks) \<noteq> {}" using last_bucket_ne [OF False] by simp
    then show ?thesis using snoc False last_bucket_ne [OF False]
      by (simp add: r on_tick_def next_forming_def Let_def tick last_bucket_snoc max.commute min.commute)
  qed
qed simp

lemma bucket_start_aligned:
  "\<exists>k. bucket_start ag t = k * (ag_interval_seconds ag * second_us)"
  by (auto simp: bucket_start_def intro!: exI [of _ "\<lfloor>total_seconds t / of_int (ag_interval_seconds ag)\<rfloor>"])

text \<open>
  C29: after any ticks the current candle of a new aggregator is the bar of the prices of the last
  ticks in one bucket: opened at the start of that bucket, which is a multiple of the interval,
  with their first, highest, lowest and last price and their number; so it is a well-formed bar,
  low at most open and close, high at least both.
\<close>

theorem forming_candle_ohlc:
  assumes "new_aggregator timeframe = Inr ag" "ticks \<noteq> []"
  shows "\<exists>c. ag_current (run_ticks ticks ag) = Some c \<and>
    c = \<lparr>fc_open_time = bucket_start ag (snd (last ticks)), fc_open = hd (last_bucket ag ticks),
      fc_high = Max (set (last_bucket ag ticks)), fc_low = Min (set (last_bucket ag ticks)),
      fc_close = last (last_bucket ag ticks), fc_tick_count = length (last_bucket ag ticks)\<rparr> \<and>
    (\<exists>k. fc_open_time c = k * (ag_interval_seconds ag * second_us)) \<and> 0 < fc_tick_count c \<and>
    fc_low c \<le> min (fc_open c) (fc_close c) \<and> max (fc_open c) (fc_close c) \<le> fc_high c"
proof -
  have "ag_current ag = None" using assms(1) by (auto simp: new_aggregator_def split: option.splits)
  from run_ticks_current [OF assms(2) this] show ?thesis
    using last_bucket_ne [OF assms(2), of ag] bucket_start_aligned [of ag] by (simp add: last_bucket_ne)
qed

text \<open>Three ticks, the last two in the second hour.\<close>

theorem forming_candle_ohlc_witness:
  "\<exists>ag c. new_aggregator ''1h'' = Inr ag \<and> ag_current (run_ticks [(100, 10), (102, 3600 * second_us), (101, 3601 * second_us)] ag) = Some c \<and>
     fc_low c \<le> fc_close c"
proof -
  have "new_aggregator ''1h'' = Inr \<lparr>ag_interval_seconds = 3600, ag_current = None\<rparr>"
    by (simp add: new_aggregator_def TIMEFRAME_SECONDS_def)
  from forming_candle_ohlc [OF this, of "[(100, 10), (102, 3600 * second_us), (101, 3601 * second_us)]"] this
  show ?thesis by fastforce
qed

section \<open>One signal for a candle, one alert for a signal\<close>

definition signal_alert_keys :: "db \<Rightarrow> string list" where
  "signal_alert_keys d =
     filter (\<lambda>k. take 13 k = ''signal_alert:'') (map nl_message_type (db_notifications d))"

text \<open>
  One transaction after another: the jobs and the route, candle ingestion, the pause switch, and
  any other writer that leaves the signals and the alerts on signals alone.  The list holds the
  identifiers of the signals announced so far.
\<close>

inductive signal_step :: "db \<times> string list \<Rightarrow> db \<times> string list \<Rightarrow> bool" where
  route: "generate_signal_now bl regime u symbol tf d = (ids, x, d') \<Longrightarrow> signal_step (d, al) (d', al @ ids)"
| job: "signal_generation_job run uid symbol tf d = (ids, x, d') \<Longrightarrow> signal_step (d, al) (d', al @ ids)"
| live: "live_breakout_job bl regime u now feed symbol tf ag d = (ids, x, ag', d') \<Longrightarrow> signal_step (d, al) (d', al @ ids)"
| outcomes: "outcome_evaluation_job symbol tf d = Inr (k, d') \<Longrightarrow> signal_step (d, al) (d', al)"
| pause: "signal_step (d, al) (set_signal_generation_paused p d, al)"
| other: "db_signals d' = db_signals d \<Longrightarrow> signal_alert_keys d' = signal_alert_keys d \<Longrightarrow> signal_step (d, al) (d', al)"

definition signals_once :: "db \<times> string list \<Rightarrow> bool" where
  "signals_once s \<longleftrightarrow> distinct (slots (fst s)) \<and> distinct (signal_alert_keys (fst s)) \<and> distinct (snd s) \<and>
     signal_alert_key ` set (snd s) \<subseteq> set (signal_alert_keys (fst s))"

lemma filter_key_count: "P k \<Longrightarrow> length (filter (\<lambda>x. f x = k) xs) = count_list (filter P (map f xs)) k"
  by (induction xs) auto

lemma already_logged_signal:
  assumes "distinct (signal_alert_keys d)"
  shows "already_logged d (signal_alert_key i) = Inr (signal_alert_key i \<in> set (signal_alert_keys d))"
proof -
  let ?ns = "filter (\<lambda>n. nl_message_type n = signal_alert_key i) (db_notifications d)"
  have k: "take 13 (signal_alert_key i) = ''signal_alert:''" by (simp add: signal_alert_key_def)
  have "length ?ns = count_list (signal_alert_keys d) (signal_alert_key i)"
    unfolding signal_alert_keys_def by (rule filter_key_count) (rule k)
  also have "\<dots> = (if signal_alert_key i \<in> set (signal_alert_keys d) then 1 else 0)"
    by (rule count_list_distinct [OF assms])
  finally show ?thesis
    by (cases ?ns; cases "tl ?ns") (auto simp: already_logged_def split: if_splits)
qed

lemma signal_alert_key_prefix [simp]: "take 13 (signal_alert_key i) = ''signal_alert:''"
  by (simp add: signal_alert_key_def)

lemma signal_alert_key_inj [simp]: "signal_alert_key i = signal_alert_key j \<longleftrightarrow> i = j"
  by (simp add: signal_alert_key_def)

lemma notify_keeps_once:
  assumes "signals_once (d, al)"
  shows "\<exists>sent d'. notify_new_signal s d = Inr (sent, d') \<and>
    signals_once (d', al @ (if sent then [sg_signal_id s] else [])) \<and> db_signals d' = db_signals d"
proof -
  let ?k = "signal_alert_key (sg_signal_id s)"
  have e: "already_logged d ?k = Inr (?k \<in> set (signal_alert_keys d))"
    using assms by (intro already_logged_signal) (simp add: signals_once_def)
  show ?thesis
  proof (cases "sg_signal_type s = ''NO_TRADE'' \<or> ?k \<in> set (signal_alert_keys d)")
    case True
    then show ?thesis using assms e by (auto simp: notify_new_signal_def)
  next
    case False
    let ?d = "d\<lparr>db_notifications := db_notifications d @
      [\<lparr>nl_signal_id = Some (sg_signal_id s), nl_channel = ''telegram'', nl_message_type = ?k, nl_status = ''sent''\<rparr>]\<rparr>"
    have "notify_new_signal s d = Inr (True, ?d)" using False e by (simp add: notify_new_signal_def)
    moreover have "signal_alert_keys ?d = signal_alert_keys d @ [?k]" by (simp add: signal_alert_keys_def)
    moreover have "slots ?d = slots d" by (simp add: slots_def)
    moreover have "sg_signal_id s \<notin> set al" using assms False by (auto simp: signals_once_def)
    ultimately show ?thesis using assms False by (auto simp: signals_once_def)
  qed
qed

lemma notify_all_once:
  assumes "signals_once (d, al)" "notify_all ss d = (ids, x, d')"
  shows "signals_once (d', al @ ids) \<and> x = None \<and> db_signals d' = db_signals d"
  using assms
proof (induction ss arbitrary: d al ids)
  case (Cons s ss)
  obtain sent d1 where n: "notify_new_signal s d = Inr (sent, d1)" "db_signals d1 = db_signals d"
    "signals_once (d1, al @ (if sent then [sg_signal_id s] else []))"
    using notify_keeps_once [OF Cons.prems(1), of s] by blast
  obtain ids1 where r: "notify_all ss d1 = (ids1, x, d')" "ids = (if sent then [sg_signal_id s] else []) @ ids1"
    using Cons.prems(2) n(1) by (auto split: prod.splits)
  show ?case using Cons.IH [OF n(3) r(1)] n(2) r(2) by simp
qed simp

lemma once_cong: "db_signals d' = db_signals d \<Longrightarrow> signal_alert_keys d' = signal_alert_keys d \<Longrightarrow> signals_once (d', al) = signals_once (d, al)"
  by (simp add: signals_once_def slots_def)

lemma keys_cong: "db_notifications d' = db_notifications d \<Longrightarrow> signal_alert_keys d' = signal_alert_keys d"
  by (simp add: signal_alert_keys_def)

lemma generate_notifications:
  "generate_and_persist_signal gen regime u symbol tf d = Inr (so, d') \<Longrightarrow> db_notifications d' = db_notifications d"
  by (auto simp: generate_and_persist_signal_def Let_def dest: persist_rows(8) split: if_splits sum.splits bool.splits)

lemma evaluate_definitions_notifications:
  "evaluate_definitions run uid symbol tf df df_1d regime sds d = (r, d') \<Longrightarrow> db_notifications d' = db_notifications d"
  by (induction sds arbitrary: uid d r)
    (force simp: Let_def dest: persist_rows(8) split: if_splits option.splits sum.splits prod.splits bool.splits)+

lemma baseline_name: "ss_strategy_name (baseline_run bl df) = BASELINE_NAME"
  by (simp add: baseline_run_def baseline_generate_def no_trade_signal_def Let_def split: option.splits)

lemma persist_error: "persist_new_signal u r symbol tf t regime d = Inl x \<Longrightarrow> x = IntegrityError"
  by (auto simp: persist_new_signal_def Let_def insert_defs split: sum.splits if_splits)

lemma live_keeps_distinct:
  assumes "evaluate_live_breakout bl regime u now feed symbol tf ag d = (r, ag', d')" "distinct (slots d)"
  shows "distinct (slots d') \<and> db_notifications d' = db_notifications d \<and> r \<noteq> Inl MultipleResultsFound"
proof -
  consider (none) "d' = d" "r \<noteq> Inl MultipleResultsFound"
    | (stored) df t s rg where "persist_new_signal u (baseline_run bl df) symbol tf t rg d = Inr (s, d')" "r = Inr (Some s)"
        "(symbol, Some tf, Some BASELINE_NAME, t) \<notin> set (slots d)"
    using assms(1)
    by (auto simp: evaluate_live_breakout_def Let_def exists_when_distinct [OF assms(2)] dest: persist_error
        split: if_splits option.splits prod.splits sum.splits bool.splits)
  then show ?thesis
  proof cases
    case stored
    then show ?thesis using assms(2) persist_rows(5,8) [OF stored(1)] by (simp add: baseline_name)
  qed (use assms(2) in simp)
qed

lemma signal_step_once: "signal_step s s' \<Longrightarrow> signals_once s \<Longrightarrow> signals_once s'"
proof (induction rule: signal_step.induct)
  case (route bl regime u symbol tf d ids x d' al)
  then have dist: "distinct (slots d)" by (simp add: signals_once_def)
  show ?case
  proof (cases "generate_and_persist_signal (baseline_run bl) regime u symbol tf d")
    case (Inr p)
    then obtain so d1 where p: "generate_and_persist_signal (baseline_run bl) regime u symbol tf d = Inr (so, d1)"
      by (cases p) auto
    have "signals_once (d1, al)"
      using route(2) generate_keeps_distinct [OF p dist] keys_cong [OF generate_notifications [OF p]]
      by (simp add: signals_once_def)
    then show ?thesis using route(1) p notify_all_once [of d1 al "case so of None \<Rightarrow> [] | Some s \<Rightarrow> [s]" ids x d']
      by (cases so) (auto simp: generate_signal_now_def)
  qed (use route in \<open>auto simp: generate_signal_now_def\<close>)
next
  case (job run uid symbol tf d ids x d' al)
  then have dist: "distinct (slots d)" by (simp add: signals_once_def)
  obtain r d1 where e: "evaluate_all_strategies_for_timeframe run uid symbol tf d = (r, d1)" by fastforce
  then have "distinct (slots d1) \<and> db_notifications d1 = db_notifications d"
    using evaluate_definitions_distinct [OF _ dist] evaluate_definitions_notifications dist
    by (auto simp: evaluate_all_strategies_for_timeframe_def Let_def split: if_splits)
  then have "signals_once (d1, al)" using job(2) keys_cong [of d1 d] by (simp add: signals_once_def)
  then show ?case using job(1) e notify_all_once [of d1 al _ ids x d']
    by (auto simp: signal_generation_job_def split: sum.splits)
next
  case (live bl regime u now feed symbol tf ag d ids x ag' d' al)
  then have dist: "distinct (slots d)" by (simp add: signals_once_def)
  obtain r ag1 d1 where e: "evaluate_live_breakout bl regime u now feed symbol tf ag d = (r, ag1, d1)" by (metis prod_cases3)
  have "signals_once (d1, al)"
    using live_keeps_distinct [OF e dist] live(2) keys_cong [of d1 d] by (simp add: signals_once_def)
  then show ?case using live(1) e notify_all_once [of d1 al _ ids x d']
    by (auto simp: live_breakout_job_def simp del: notify_all.simps split: sum.splits option.splits prod.splits)
next
  case (outcomes symbol tf d k d' al)
  then obtain os where "d' = d\<lparr>db_outcomes := os\<rparr>"
    using evaluate_outcomes_rows unfolding outcome_evaluation_job_def evaluate_pending_signal_outcomes_def by blast
  then show ?case using outcomes(2) once_cong [of d' d al] by (simp add: signal_alert_keys_def)
next
  case (pause d al p)
  then show ?case using once_cong [of "set_signal_generation_paused p d" d al]
    by (simp add: set_signal_generation_paused_def bot_put_def signal_alert_keys_def split: option.splits)
next
  case (other d' d al)
  then show ?case using once_cong by blast
qed

lemma signal_run_once: "signal_step\<^sup>*\<^sup>* s s' \<Longrightarrow> signals_once s \<Longrightarrow> signals_once s'"
  by (induction rule: rtranclp_induct) (auto intro: signal_step_once)

text \<open>
  C27: along every run of whole transactions, from a database without duplicates, at most one signal
  that trades is stored for a symbol, time frame, strategy and candle, whichever of the route, the
  scheduled generation and the intrabar check finds it; the check for an existing signal
  never raises; and every signal is announced at most once and is on record as announced.
\<close>

theorem one_signal_per_candle:
  assumes "signal_step\<^sup>*\<^sup>* (d, []) (d', announced)" "distinct (slots d)" "distinct (signal_alert_keys d)"
  shows "distinct (slots d') \<and> distinct announced \<and>
    signal_already_exists_for_candle d' symbol tf st t = Inr ((symbol, Some tf, Some st, t) \<in> set (slots d')) \<and>
    (\<forall>i \<in> set announced. already_logged d' (signal_alert_key i) = Inr True)"
proof -
  have "signals_once (d', announced)"
    using signal_run_once [OF assms(1)] assms(2,3) by (simp add: signals_once_def)
  then show ?thesis
    using exists_when_distinct [of d'] already_logged_signal [of d'] by (auto simp: signals_once_def)
qed

definition demo_baseline :: baseline where
  "demo_baseline = \<lparr>bl_setup = (\<lambda>_. Some \<lparr>rw_signal_type = ''LONG'', rw_stop_loss = Some 95, rw_take_profit_1 = Some 110,
     rw_take_profit_2 = None, rw_take_profit_3 = None, rw_long_probability = 0, rw_short_probability = 0\<rparr>),
     bl_adx = (\<lambda>_. None), bl_threshold = 25\<rparr>"

text \<open>The route called twice on the same candle: the first call stores and announces, the second does neither.\<close>

theorem one_signal_per_candle_witness:
  "\<exists>d1 d2. generate_signal_now demo_baseline (\<lambda>_. ''UNCERTAIN'') ''01'' ''BTC/USDT'' ''4h'' demo_race_db = ([''SIG-01''], None, d1) \<and>
     generate_signal_now demo_baseline (\<lambda>_. ''UNCERTAIN'') ''02'' ''BTC/USDT'' ''4h'' d1 = ([], None, d2) \<and>
     length (slots d2) = 1 \<and> distinct (slots d2)"
proof -
  let ?df = "load_recent_candles demo_race_db ''BTC/USDT'' ''4h'' DEFAULT_LOOKBACK_BARS"
  have n: "length ?df = 60"
    by (simp add: load_recent_candles_def demo_race_db_def demo_history_def demo_bar_def filter_map o_def DEFAULT_LOOKBACK_BARS_def)
  have b: "ss_signal_type (baseline_run demo_baseline df) = ''LONG''" for df
    by (simp add: baseline_run_def baseline_generate_def demo_baseline_def Let_def)
  let ?t = "b_timestamp (last ?df)"
  obtain s d0 where p: "persist_new_signal ''01'' (baseline_run demo_baseline ?df) ''BTC/USDT'' ''4h'' ?t ''UNCERTAIN'' demo_race_db = Inr (s, d0)"
    by (simp add: persist_new_signal_def Let_def insert_defs demo_race_db_def empty_db_def)
  note rows = persist_rows [OF p]
  have e0: "slots demo_race_db = []" by (simp add: slots_def demo_race_db_def empty_db_def)
  have unpaused: "\<not> is_signal_generation_paused demo_race_db"
    by (simp add: is_signal_generation_paused_def bot_get_def demo_race_db_def empty_db_def)
  have g1: "generate_and_persist_signal (baseline_run demo_baseline) (\<lambda>_. ''UNCERTAIN'') ''01'' ''BTC/USDT'' ''4h'' demo_race_db = Inr (Some s, d0)"
    using n b p unpaused by (simp add: generate_and_persist_signal_def MIN_BARS_REQUIRED_def Let_def exists_when_distinct e0)
  have sent: "sg_signal_id s = ''SIG-01''" "sg_signal_type s = ''LONG''"
    using rows(1) b by (simp_all add: new_signal_def signal_id_of_def)
  obtain d1 where d1: "notify_new_signal s d0 = Inr (True, d1)" "slots d1 = slots d0" "db_candles d1 = db_candles d0" "db_bot d1 = db_bot d0"
    using sent(2) rows(8) by (simp add: notify_new_signal_def already_logged_def demo_race_db_def empty_db_def slots_def Let_def)
  have r1: "generate_signal_now demo_baseline (\<lambda>_. ''UNCERTAIN'') ''01'' ''BTC/USDT'' ''4h'' demo_race_db = ([''SIG-01''], None, d1)"
    by (simp add: generate_signal_now_def g1 d1(1) sent)
  have "load_recent_candles d1 ''BTC/USDT'' ''4h'' DEFAULT_LOOKBACK_BARS = ?df"
    using d1(3) rows(6) by (simp add: load_recent_candles_def)
  moreover have "\<not> is_signal_generation_paused d1"
    using unpaused d1(4) rows(7) by (simp add: is_signal_generation_paused_def bot_get_def)
  moreover have sl: "slots d1 = [(''BTC/USDT'', Some ''4h'', Some BASELINE_NAME, ?t)]"
    using rows(5) d1(2) e0 b by (simp add: baseline_name)
  ultimately have r2: "generate_signal_now demo_baseline (\<lambda>_. ''UNCERTAIN'') ''02'' ''BTC/USDT'' ''4h'' d1 = ([], None, d1)"
    using n b by (simp add: generate_signal_now_def generate_and_persist_signal_def MIN_BARS_REQUIRED_def Let_def exists_when_distinct baseline_name)
  have "signal_step\<^sup>*\<^sup>* (demo_race_db, []) (d1, [''SIG-01''])"
    using signal_step.route [OF r1, of "[]"] by auto
  from one_signal_per_candle [OF this] have "distinct (slots d1)"
    by (simp add: e0 signal_alert_keys_def demo_race_db_def empty_db_def slots_def)
  then show ?thesis using r1 r2 sl by auto
qed

section \<open>Freshness does not cover the last price\<close>

text \<open>
  one time of receipt serves both prices.  After a message with nothing but a mark
  price for the instrument the feed counts as live, although its last traded price is the old one,
  of whatever age; and the intrabar check then enters that old price into the candle as a tick at
  the time of the mark price.
\<close>

theorem old_price_drives_breakout:
  assumes "mf_connected m" "mk_last_price_usdt (mf_state m) = Some p"
    "json_get data ''prices'' JNull = JObj kvs" "json_get (JObj kvs) (mf_instrument m) JNull = JObj entry"
    "json_get (JObj entry) ''mp'' JNull = JNum q" "ms_to_dt rt (json_get data ''ts'' JNull) = Inr ts"
    "handle_current_prices rt now data m = (m', x)"
    "\<not> is_signal_generation_paused d" "MIN_BARS_REQUIRED \<le> length (load_recent_candles d symbol tf DEFAULT_LOOKBACK_BARS)"
  shows "connection_status now DEFAULT_STALE_AFTER m' = CN_LIVE \<and> mk_last_price_usdt (mf_state m') = Some p \<and>
    fst (snd (evaluate_live_breakout bl regime u now m' symbol tf ag d)) = snd (on_tick p now ag)"
proof -
  have "entry \<noteq> []" using assms(5) by auto
  then have m': "m' = m\<lparr>mf_state := (mf_state m)\<lparr>mk_mark_price_usdt := Some q,
      mk_event_timestamp := (case ts of None \<Rightarrow> mk_event_timestamp (mf_state m) | Some t \<Rightarrow> Some t),
      mk_received_at := Some now\<rparr>\<rparr>"
    using assms(3-7) by (cases ts) (auto simp: handle_current_prices_def Let_def obj_get_def json_float_def stamp_def)
  then have live: "connection_status now DEFAULT_STALE_AFTER m' = CN_LIVE"
    using assms(1) by (simp add: connection_status_def DEFAULT_STALE_AFTER_def second_us_def)
  have st: "mk_last_price_usdt (mf_state m') = Some p" "mk_received_at (mf_state m') = Some now"
    using m' assms(2) by simp_all
  have "fst (snd (evaluate_live_breakout bl regime u now m' symbol tf ag d)) = snd (on_tick p now ag)"
    using live st assms(8,9)
    by (auto simp: evaluate_live_breakout_def Let_def split: option.splits sum.splits bool.splits prod.splits)
  then show ?thesis using live st by blast
qed

text \<open>A feed whose only price is of the first second, a mark price a day later.\<close>

definition demo_feed :: market_feed where
  "demo_feed = fst (handle_price_change (\<lambda>_. None) second_us (JObj [(''p'', JNum 100), (''T'', JNum 1000)])
     (fst (on_connect True 0 (new_feed ''BTC/USDT'') empty_db)))"

theorem old_price_drives_breakout_witness:
  "\<exists>m'. handle_current_prices (\<lambda>_. None) day_us
       (JObj [(''ts'', JNull), (''prices'', JObj [(''B-BTC_USDT'', JObj [(''mp'', JNum 90)])])]) demo_feed = (m', None) \<and>
     connection_status day_us DEFAULT_STALE_AFTER demo_feed = CN_STALE \<and>
     connection_status day_us DEFAULT_STALE_AFTER m' = CN_LIVE \<and> mk_last_price_usdt (mf_state m') = Some 100"
proof -
  let ?msg = "JObj [(''ts'', JNull), (''prices'', JObj [(''B-BTC_USDT'', JObj [(''mp'', JNum 90)])])]"
  have i: "normalize_symbol ''BTC/USDT'' ''USDT'' = ''B-BTC_USDT''" by code_simp
  have u: "\<bar>fdiv 1000 1000\<bar> < 67768036191676800" "timedelta_seconds (fdiv 1000 1000) = second_us"
    using round_half_even_of_int [of 0] by (simp_all add: fdiv_def timedelta_seconds_def py_int_def)
  have f: "demo_feed = \<lparr>mf_instrument = ''B-BTC_USDT'', mf_state = \<lparr>mk_event_timestamp = Some second_us,
      mk_last_price_usdt = Some 100, mk_mark_price_usdt = None, mk_received_at = Some second_us\<rparr>,
      mf_connected = True, mf_ever_connected = True, mf_last_notified_status = Some CN_LIVE, mf_pinging = True\<rparr>"
    using u by (simp add: demo_feed_def on_connect_def maybe_notify_transition_def new_feed_def i handle_price_change_def
        stamp_def ms_to_dt_def json_float_def bindr_def utcfromtimestamp_def Let_def second_us_def)
  obtain m' where m': "handle_current_prices (\<lambda>_. None) day_us ?msg demo_feed = (m', None)"
    by (simp add: f handle_current_prices_def Let_def obj_get_def json_float_def stamp_def ms_to_dt_def bindr_def)
  have "MIN_BARS_REQUIRED \<le> length (load_recent_candles demo_race_db ''BTC/USDT'' ''4h'' DEFAULT_LOOKBACK_BARS)"
    by (simp add: load_recent_candles_def demo_race_db_def demo_history_def demo_bar_def filter_map o_def
        DEFAULT_LOOKBACK_BARS_def MIN_BARS_REQUIRED_def)
  then have "connection_status day_us DEFAULT_STALE_AFTER m' = CN_LIVE \<and> mk_last_price_usdt (mf_state m') = Some 100"
    using old_price_drives_breakout [OF _ _ _ _ _ _ m', of 100 "[(''B-BTC_USDT'', JObj [(''mp'', JNum 90)])]" "[(''mp'', JNum 90)]" 90 None demo_race_db]
    by (simp add: f ms_to_dt_def json_float_def bindr_def is_signal_generation_paused_def bot_get_def demo_race_db_def empty_db_def)
  moreover have "connection_status day_us DEFAULT_STALE_AFTER demo_feed = CN_STALE"
    by (simp add: f connection_status_def DEFAULT_STALE_AFTER_def time_units)
  ultimately show ?thesis using m' by blast
qed

end
