(* ===== verification/Regime.thy ===== *)
theory Regime
  imports LiveBreakout
begin

text \<open>
  \<open>services/signal_engine/regime.py\<close>: the market regime of a frame of indicator columns, computed for
  its last row and, for research, for every row at once.  A missing cell of a pandas column is
  \<open>None\<close>.  The aggregates that pandas computes (mean, sum, quantile, and their rolling
  forms) are a parameter.
\<close>

section \<open>Frames\<close>

type_synonym frame_row = "string \<Rightarrow> f64 option"

record frame =
  fm_columns :: "string list"
  fm_rows :: "frame_row list"

definition has_column :: "frame \<Rightarrow> string \<Rightarrow> bool" where
  "has_column fm c \<longleftrightarrow> c \<in> set (fm_columns fm)"

definition cells :: "string \<Rightarrow> frame_row list \<Rightarrow> f64 option list" where
  "cells c rs = map (\<lambda>r. r c) rs"

text \<open>\<open>dropna()\<close>\<close>

definition known :: "string \<Rightarrow> frame_row list \<Rightarrow> f64 list" where
  "known c rs = List.map_filter (\<lambda>r. r c) rs"

definition last_rows :: "nat \<Rightarrow> 'a list \<Rightarrow> 'a list" where
  "last_rows n xs = drop (length xs - n) xs"

record pandas =
  pd_mean :: "f64 list \<Rightarrow> f64"
  pd_sum :: "f64 list \<Rightarrow> f64"
  pd_quantile :: "f64 \<Rightarrow> f64 list \<Rightarrow> f64"
  pd_rolling_mean :: "nat \<Rightarrow> f64 option list \<Rightarrow> f64 option list"
  pd_rolling_sum :: "nat \<Rightarrow> f64 option list \<Rightarrow> f64 option list"
  pd_rolling_quantile :: "nat \<Rightarrow> f64 \<Rightarrow> f64 option list \<Rightarrow> f64 option list"

section \<open>The regime of the last row\<close>

datatype volatility = VOL_HIGH | VOL_LOW | VOL_NORMAL
datatype trend = TREND_BULLISH | TREND_BEARISH | TREND_NONE

datatype regime =
    TRENDING_BULLISH | TRENDING_BEARISH | RANGING | HIGH_VOLATILITY | LOW_VOLATILITY
  | BREAKOUT | POST_LIQUIDATION | UNCERTAIN

fun regime_text :: "regime \<Rightarrow> string" where
  "regime_text TRENDING_BULLISH = ''TRENDING_BULLISH''"
| "regime_text TRENDING_BEARISH = ''TRENDING_BEARISH''"
| "regime_text RANGING = ''RANGING''"
| "regime_text HIGH_VOLATILITY = ''HIGH_VOLATILITY''"
| "regime_text LOW_VOLATILITY = ''LOW_VOLATILITY''"
| "regime_text BREAKOUT = ''BREAKOUT''"
| "regime_text POST_LIQUIDATION = ''POST_LIQUIDATION''"
| "regime_text UNCERTAIN = ''UNCERTAIN''"

text \<open>The two tests the scalar and the vectorised detector share: the ratio of the realised volatilities, and
  the average true range against its mean.\<close>

definition ratio_volatility :: "frame_row \<Rightarrow> volatility option" where
  "ratio_volatility r =
     (case (r ''realized_vol_10'', r ''realized_vol_50'') of
        (Some a, Some b) \<Rightarrow>
          let ratio = fdiv a (max b (fl (1/100)))
          in Some (if 3/2 < ratio then VOL_HIGH else if ratio < fl (6/10) then VOL_LOW else VOL_NORMAL)
      | _ \<Rightarrow> None)"

definition atr_volatility :: "f64 \<Rightarrow> f64 \<Rightarrow> volatility" where
  "atr_volatility current mean =
     (if fmul mean 2 < current then VOL_HIGH else if current < fmul mean (1/2) then VOL_LOW else VOL_NORMAL)"

definition has_ratio :: "frame \<Rightarrow> bool" where
  "has_ratio fm \<longleftrightarrow> has_column fm ''realized_vol_10'' \<and> has_column fm ''realized_vol_50''"

definition detect_volatility_regime :: "pandas \<Rightarrow> frame \<Rightarrow> volatility" where
  "detect_volatility_regime pd fm =
     (let latest = last (fm_rows fm); recent = last_rows 20 (fm_rows fm);
          by_atr = (if has_column fm ''atr_14'' \<and> known ''atr_14'' recent \<noteq> []
                    then atr_volatility (last (known ''atr_14'' recent)) (pd_mean pd (known ''atr_14'' recent))
                    else VOL_NORMAL)
      in if has_ratio fm then
           (case ratio_volatility latest of Some VOL_HIGH \<Rightarrow> VOL_HIGH | Some VOL_LOW \<Rightarrow> VOL_LOW | _ \<Rightarrow> by_atr)
         else by_atr)"

definition strong_adx :: "frame \<Rightarrow> frame_row \<Rightarrow> bool" where
  "strong_adx fm r \<longleftrightarrow> has_column fm ''adx_14'' \<and> (case r ''adx_14'' of None \<Rightarrow> False | Some a \<Rightarrow> 25 < a)"

definition marked :: "frame_row \<Rightarrow> string \<Rightarrow> bool" where
  "marked r c \<longleftrightarrow> r c = Some 1"

definition structure_trend :: "frame \<Rightarrow> frame_row \<Rightarrow> trend" where
  "structure_trend fm r =
     (if has_column fm ''uptrend'' \<and> has_column fm ''downtrend'' then
        if marked r ''uptrend'' then TREND_BULLISH else if marked r ''downtrend'' then TREND_BEARISH else TREND_NONE
      else TREND_NONE)"

definition detect_trend_regime :: "frame \<Rightarrow> frame_row \<Rightarrow> trend" where
  "detect_trend_regime fm r =
     (let by_ema =
        (if has_column fm ''ema_50'' \<and> has_column fm ''ema_200'' then
           (case (r ''ema_50'', r ''ema_200'') of
              (Some a, Some b) \<Rightarrow>
                if b < a then if strong_adx fm r then TREND_BULLISH else TREND_NONE
                else if a < b then if strong_adx fm r then TREND_BEARISH else TREND_NONE
                else TREND_NONE
            | _ \<Rightarrow> TREND_NONE)
         else TREND_NONE)
      in if by_ema \<noteq> TREND_NONE then by_ema else structure_trend fm r)"

definition is_ranging :: "frame \<Rightarrow> bool" where
  "is_ranging fm \<longleftrightarrow>
     (let recent = last_rows 20 (fm_rows fm)
      in (has_column fm ''adx_14'' \<and> known ''adx_14'' recent \<noteq> [] \<and> last (known ''adx_14'' recent) < 20) \<or>
         (has_column fm ''consolidation'' \<and> marked (last recent) ''consolidation''))"

definition is_post_liquidation :: "pandas \<Rightarrow> frame \<Rightarrow> bool" where
  "is_post_liquidation pd fm \<longleftrightarrow>
     has_column fm ''liq_spike'' \<and> 0 < pd_sum pd (known ''liq_spike'' (last_rows 5 (fm_rows fm)))"

definition is_breakout_imminent :: "pandas \<Rightarrow> frame \<Rightarrow> bool" where
  "is_breakout_imminent pd fm \<longleftrightarrow>
     (let widths = known ''bb_width'' (last_rows 20 (fm_rows fm))
      in has_column fm ''bb_width'' \<and> widths \<noteq> [] \<and> last widths < pd_quantile pd (fl (2/10)) widths)"

definition detect :: "pandas \<Rightarrow> frame \<Rightarrow> regime" where
  "detect pd fm =
     (if length (fm_rows fm) < 50 then UNCERTAIN
      else case detect_volatility_regime pd fm of
        VOL_HIGH \<Rightarrow> if is_post_liquidation pd fm then POST_LIQUIDATION else HIGH_VOLATILITY
      | VOL_LOW \<Rightarrow> if is_breakout_imminent pd fm then BREAKOUT else LOW_VOLATILITY
      | VOL_NORMAL \<Rightarrow>
          (case detect_trend_regime fm (last (fm_rows fm)) of
             TREND_BULLISH \<Rightarrow> TRENDING_BULLISH
           | TREND_BEARISH \<Rightarrow> TRENDING_BEARISH
           | TREND_NONE \<Rightarrow> if is_ranging fm then RANGING else UNCERTAIN))"

section \<open>The regime of every row\<close>

definition atr_fallback :: "pandas \<Rightarrow> frame \<Rightarrow> nat \<Rightarrow> volatility" where
  "atr_fallback pd fm i =
     (case ((fm_rows fm ! i) ''atr_14'', pd_rolling_mean pd 20 (cells ''atr_14'' (fm_rows fm)) ! i) of
        (Some a, Some m) \<Rightarrow> atr_volatility a m
      | _ \<Rightarrow> VOL_NORMAL)"

definition series_volatility :: "pandas \<Rightarrow> frame \<Rightarrow> nat \<Rightarrow> volatility" where
  "series_volatility pd fm i =
     (if has_ratio fm then
        (case ratio_volatility (fm_rows fm ! i) of
           Some v \<Rightarrow> v
         | None \<Rightarrow> if has_column fm ''atr_14'' then atr_fallback pd fm i else VOL_NORMAL)
      else if has_column fm ''atr_14'' then atr_fallback pd fm i
      else VOL_NORMAL)"

definition series_trend :: "frame \<Rightarrow> nat \<Rightarrow> trend" where
  "series_trend fm i =
     (let r = fm_rows fm ! i;
          by_ema = (if has_column fm ''ema_50'' \<and> has_column fm ''ema_200'' \<and> has_column fm ''adx_14'' then
              (case (r ''ema_50'', r ''ema_200'') of
                 (Some a, Some b) \<Rightarrow>
                   if b < a \<and> strong_adx fm r then TREND_BULLISH
                   else if a < b \<and> strong_adx fm r then TREND_BEARISH else TREND_NONE
               | _ \<Rightarrow> TREND_NONE)
            else TREND_NONE)
      in if by_ema = TREND_NONE then structure_trend fm r else by_ema)"

definition series_post_liquidation :: "pandas \<Rightarrow> frame \<Rightarrow> nat \<Rightarrow> bool" where
  "series_post_liquidation pd fm i \<longleftrightarrow> has_column fm ''liq_spike'' \<and>
     (case pd_rolling_sum pd 5 (cells ''liq_spike'' (fm_rows fm)) ! i of None \<Rightarrow> False | Some s \<Rightarrow> 0 < s)"

definition series_ranging :: "frame \<Rightarrow> nat \<Rightarrow> bool" where
  "series_ranging fm i \<longleftrightarrow>
     (let r = fm_rows fm ! i
      in (has_column fm ''adx_14'' \<and> (case r ''adx_14'' of None \<Rightarrow> False | Some a \<Rightarrow> a < 20)) \<or>
         (has_column fm ''consolidation'' \<and> marked r ''consolidation''))"

definition series_breakout :: "pandas \<Rightarrow> frame \<Rightarrow> nat \<Rightarrow> bool" where
  "series_breakout pd fm i \<longleftrightarrow> has_column fm ''bb_width'' \<and>
     (case ((fm_rows fm ! i) ''bb_width'', pd_rolling_quantile pd 20 (fl (2/10)) (cells ''bb_width'' (fm_rows fm)) ! i) of
        (Some w, Some q) \<Rightarrow> w < q
      | _ \<Rightarrow> False)"

definition detect_regime_series :: "pandas \<Rightarrow> frame \<Rightarrow> regime list" where
  "detect_regime_series pd fm =
     map (\<lambda>i. if i < 49 then UNCERTAIN
              else case series_volatility pd fm i of
                VOL_HIGH \<Rightarrow> if series_post_liquidation pd fm i then POST_LIQUIDATION else HIGH_VOLATILITY
              | VOL_LOW \<Rightarrow> if series_breakout pd fm i then BREAKOUT else LOW_VOLATILITY
              | VOL_NORMAL \<Rightarrow>
                  (case series_trend fm i of
                     TREND_BULLISH \<Rightarrow> TRENDING_BULLISH
                   | TREND_BEARISH \<Rightarrow> TRENDING_BEARISH
                   | TREND_NONE \<Rightarrow> if series_ranging fm i then RANGING else UNCERTAIN))
       [0..<length (fm_rows fm)]"

section \<open>The vectorised form against the scalar one\<close>

text \<open>
  What pandas documents of \<open>rolling(n)\<close>: the value at a row is the aggregate of the \<open>n\<close> rows that end
  there, missing while there are fewer of them or one of them is missing.
\<close>

definition window :: "nat \<Rightarrow> nat \<Rightarrow> 'a list \<Rightarrow> 'a list" where
  "window n i xs = last_rows n (take (Suc i) xs)"

definition rolling_value :: "(f64 list \<Rightarrow> f64) \<Rightarrow> nat \<Rightarrow> f64 option list \<Rightarrow> nat \<Rightarrow> f64 option" where
  "rolling_value agg n xs i =
     (if Suc i < n \<or> None \<in> set (window n i xs) then None else Some (agg (map the (window n i xs))))"

definition rolls_windows :: "pandas \<Rightarrow> bool" where
  "rolls_windows pd \<longleftrightarrow> (\<forall>xs i. i < length xs \<longrightarrow>
     pd_rolling_mean pd 20 xs ! i = rolling_value (pd_mean pd) 20 xs i \<and>
     pd_rolling_sum pd 5 xs ! i = rolling_value (pd_sum pd) 5 xs i \<and>
     pd_rolling_quantile pd 20 (fl (2/10)) xs ! i = rolling_value (pd_quantile pd (fl (2/10))) 20 xs i)"

definition complete :: "frame \<Rightarrow> bool" where
  "complete fm \<longleftrightarrow> (\<forall>r \<in> set (fm_rows fm). \<forall>c \<in> set (fm_columns fm). r c \<noteq> None)"

definition up_to :: "nat \<Rightarrow> frame \<Rightarrow> frame" where
  "up_to i fm = fm\<lparr>fm_rows := take (Suc i) (fm_rows fm)\<rparr>"

text \<open>The rows where the scalar detector asks the average true range and the vectorised one does not.\<close>

definition overlooked :: "pandas \<Rightarrow> frame \<Rightarrow> nat \<Rightarrow> bool" where
  "overlooked pd fm i \<longleftrightarrow> 49 \<le> i \<and> has_ratio fm \<and> has_column fm ''atr_14'' \<and>
     ratio_volatility (fm_rows fm ! i) = Some VOL_NORMAL \<and>
     atr_volatility (the ((fm_rows fm ! i) ''atr_14'')) (pd_mean pd (known ''atr_14'' (window 20 i (fm_rows fm)))) \<noteq> VOL_NORMAL"

lemma up_to_simps [simp]:
  "fm_rows (up_to i fm) = take (Suc i) (fm_rows fm)" "fm_columns (up_to i fm) = fm_columns fm"
  "has_column (up_to i fm) c = has_column fm c" "has_ratio (up_to i fm) = has_ratio fm"
  "strong_adx (up_to i fm) = strong_adx fm" "structure_trend (up_to i fm) = structure_trend fm"
  by (simp_all add: up_to_def has_column_def has_ratio_def fun_eq_iff strong_adx_def structure_trend_def)

lemma window_facts:
  assumes "i < length xs" "0 < n"
  shows "window n i xs \<noteq> []" "last (window n i xs) = xs ! i" "set (window n i xs) \<subseteq> set xs"
proof -
  have l: "length (window n i xs) = min n (Suc i)" using assms by (simp add: window_def last_rows_def)
  then show ne: "window n i xs \<noteq> []" using assms by auto
  have "last (take (Suc i) xs) = xs ! i" using assms(1) by (simp add: take_Suc_conv_app_nth)
  then show "last (window n i xs) = xs ! i"
    using ne unfolding window_def last_rows_def by (subst last_drop) (auto simp del: length_take)
  show "set (window n i xs) \<subseteq> set xs"
    unfolding window_def last_rows_def by (meson set_drop_subset set_take_subset subset_trans)
qed

lemma window_map: "window n i (map f xs) = map f (window n i xs)"
  by (simp add: window_def last_rows_def take_map drop_map)

lemma known_complete: "\<forall>r \<in> set rs. r c \<noteq> None \<Longrightarrow> known c rs = map (\<lambda>r. the (r c)) rs"
  by (induction rs) (auto simp: known_def map_filter_simps)

lemma complete_cell: "complete fm \<Longrightarrow> has_column fm c \<Longrightarrow> r \<in> set (fm_rows fm) \<Longrightarrow> \<exists>x. r c = Some x"
  by (auto simp: complete_def has_column_def)

lemma known_window:
  assumes "complete fm" "has_column fm c" "i < length (fm_rows fm)" "0 < n"
  shows "known c (window n i (fm_rows fm)) \<noteq> []"
    "last (known c (window n i (fm_rows fm))) = the ((fm_rows fm ! i) c)"
    "\<exists>x. (fm_rows fm ! i) c = Some x"
    "n \<le> Suc i \<Longrightarrow> rolling_value agg n (cells c (fm_rows fm)) i = Some (agg (known c (window n i (fm_rows fm))))"
proof -
  note w = window_facts [OF assms(3,4)]
  have some: "\<forall>r \<in> set (window n i (fm_rows fm)). r c \<noteq> None" using complete_cell [OF assms(1,2)] w(3) by fastforce
  note k = known_complete [OF some]
  show "known c (window n i (fm_rows fm)) \<noteq> []" using w(1) by (simp add: k)
  show "last (known c (window n i (fm_rows fm))) = the ((fm_rows fm ! i) c)" using w(1,2) by (simp add: k last_map)
  show "\<exists>x. (fm_rows fm ! i) c = Some x" using complete_cell [OF assms(1,2)] assms(3) by simp
  show "rolling_value agg n (cells c (fm_rows fm)) i = Some (agg (known c (window n i (fm_rows fm))))" if "n \<le> Suc i"
    using that some by (auto simp: rolling_value_def cells_def window_map k comp_def image_iff)
qed

lemma last_up_to: "i < length xs \<Longrightarrow> last (take (Suc i) xs) = xs ! i"
  by (simp add: take_Suc_conv_app_nth)

lemma same_trend: "i < length (fm_rows fm) \<Longrightarrow> series_trend fm i = detect_trend_regime (up_to i fm) (fm_rows fm ! i)"
  by (auto simp: series_trend_def detect_trend_regime_def Let_def strong_adx_def split: option.splits)

lemma rolled:
  assumes "rolls_windows pd" "complete fm" "has_column fm c" "i < length (fm_rows fm)" "49 \<le> i"
  shows "pd_rolling_mean pd 20 (cells c (fm_rows fm)) ! i = Some (pd_mean pd (known c (window 20 i (fm_rows fm))))"
    "pd_rolling_sum pd 5 (cells c (fm_rows fm)) ! i = Some (pd_sum pd (known c (window 5 i (fm_rows fm))))"
    "pd_rolling_quantile pd 20 (fl (2/10)) (cells c (fm_rows fm)) ! i =
       Some (pd_quantile pd (fl (2/10)) (known c (window 20 i (fm_rows fm))))"
  using assms(1,4,5) known_window(4) [OF assms(2-4)] by (simp_all add: rolls_windows_def cells_def)

lemma same_post_liquidation:
  assumes "rolls_windows pd" "complete fm" "i < length (fm_rows fm)" "49 \<le> i"
  shows "is_post_liquidation pd (up_to i fm) = series_post_liquidation pd fm i"
  using rolled(2) [OF assms(1,2) _ assms(3,4)]
  by (auto simp: is_post_liquidation_def series_post_liquidation_def window_def [symmetric])

lemma same_breakout:
  assumes "rolls_windows pd" "complete fm" "i < length (fm_rows fm)" "49 \<le> i"
  shows "is_breakout_imminent pd (up_to i fm) = series_breakout pd fm i"
proof (cases "has_column fm ''bb_width''")
  case True
  obtain x where "(fm_rows fm ! i) ''bb_width'' = Some x" using known_window(3) [OF assms(2) True assms(3)] by blast
  then show ?thesis
    using rolled(3) [OF assms(1,2) True assms(3,4)] known_window(1,2) [OF assms(2) True assms(3), of 20] True
    by (simp add: is_breakout_imminent_def series_breakout_def Let_def window_def [symmetric])
qed (simp add: is_breakout_imminent_def series_breakout_def Let_def)

lemma same_ranging:
  assumes "complete fm" "i < length (fm_rows fm)"
  shows "is_ranging (up_to i fm) = series_ranging fm i"
proof -
  have "known ''adx_14'' (window 20 i (fm_rows fm)) \<noteq> [] \<and> last (known ''adx_14'' (window 20 i (fm_rows fm))) < 20 \<longleftrightarrow>
      (case (fm_rows fm ! i) ''adx_14'' of None \<Rightarrow> False | Some a \<Rightarrow> a < 20)" if "has_column fm ''adx_14''"
    using known_window(1-3) [OF assms(1) that assms(2), of 20] by auto
  then show ?thesis
    using window_facts(2) [OF assms(2), of 20]
    by (auto simp: is_ranging_def series_ranging_def Let_def window_def [symmetric])
qed

lemma detect_volatility:
  assumes "rolls_windows pd" "complete fm" "i < length (fm_rows fm)" "49 \<le> i"
  shows "detect_volatility_regime pd (up_to i fm) =
    (if overlooked pd fm i
     then atr_volatility (the ((fm_rows fm ! i) ''atr_14'')) (pd_mean pd (known ''atr_14'' (window 20 i (fm_rows fm))))
     else series_volatility pd fm i)"
proof -
  have atr: "last (known ''atr_14'' (window 20 i (fm_rows fm))) = the ((fm_rows fm ! i) ''atr_14'')"
    "known ''atr_14'' (window 20 i (fm_rows fm)) \<noteq> []"
    "atr_fallback pd fm i = atr_volatility (the ((fm_rows fm ! i) ''atr_14'')) (pd_mean pd (known ''atr_14'' (window 20 i (fm_rows fm))))"
    if "has_column fm ''atr_14''"
    using known_window(1-3) [OF assms(2) that assms(3), of 20] rolled(1) [OF assms(1,2) that assms(3,4)]
    by (auto simp: atr_fallback_def)
  have w: "last_rows 20 (take (Suc i) (fm_rows fm)) = window 20 i (fm_rows fm)" by (simp add: window_def)
  show ?thesis
    using assms(4) atr
    by (auto simp: detect_volatility_regime_def series_volatility_def overlooked_def Let_def w last_up_to [OF assms(3)]
        split: option.splits volatility.splits)
qed

text \<open>
  The vectorised detector gives a row the regime that the scalar one gives the frame up to
  that row, on a frame without missing cells, at all rows but those where the ratio of the realised volatilities is
  ordinary while the average true range is far from its mean: there the scalar detector reports
  a high or low volatility and the vectorised one never does.
\<close>

theorem regime_series_parity:
  assumes "rolls_windows pd" "complete fm" "i < length (fm_rows fm)"
  shows "detect_regime_series pd fm ! i = detect pd (up_to i fm) \<longleftrightarrow> \<not> overlooked pd fm i"
proof (cases "i < 49")
  case True
  then show ?thesis using assms(3) by (simp add: detect_regime_series_def detect_def overlooked_def)
next
  case False
  then have i: "49 \<le> i" by simp
  note same = same_trend [OF assms(3)] same_post_liquidation [OF assms i] same_breakout [OF assms i]
    same_ranging [OF assms(2,3)] detect_volatility [OF assms i] last_up_to [OF assms(3)]
  have long: "\<not> length (take (Suc i) (fm_rows fm)) < 50" using i assms(3) by simp
  have ordinary: "series_volatility pd fm i = VOL_NORMAL" if "overlooked pd fm i"
    using that by (auto simp: overlooked_def series_volatility_def split: option.splits)
  have unusual: "atr_volatility (the ((fm_rows fm ! i) ''atr_14'')) (pd_mean pd (known ''atr_14'' (window 20 i (fm_rows fm)))) \<noteq> VOL_NORMAL"
    if "overlooked pd fm i" using that by (simp add: overlooked_def)
  show ?thesis
    using assms(3) i long ordinary unusual
    by (cases "overlooked pd fm i")
      (auto simp: detect_regime_series_def detect_def same split: volatility.splits trend.splits)
qed

definition demo_pandas :: pandas where
  "demo_pandas =
     (let mean = (\<lambda>xs. fdiv (foldl fadd 0 xs) (float_of_int (int (length xs)))); lower = (\<lambda>q xs. hd (sort xs));
          roll = (\<lambda>agg n xs. map (rolling_value agg n xs) [0..<length xs])
      in \<lparr>pd_mean = mean, pd_sum = foldl fadd 0, pd_quantile = lower, pd_rolling_mean = roll mean,
          pd_rolling_sum = roll (foldl fadd 0), pd_rolling_quantile = (\<lambda>n q. roll (lower q) n)\<rparr>)"

definition demo_frame_row :: "f64 \<Rightarrow> frame_row" where
  "demo_frame_row a = (\<lambda>c. Some (if c = ''atr_14'' then a else 1))"

definition demo_frame :: frame where
  "demo_frame = \<lparr>fm_columns = [''realized_vol_10'', ''realized_vol_50'', ''atr_14''],
     fm_rows = replicate 49 (demo_frame_row 0) @ [demo_frame_row 40]\<rparr>"

theorem regime_series_parity_witness:
  "detect_regime_series demo_pandas demo_frame ! 49 \<noteq> detect demo_pandas (up_to 49 demo_frame)"
proof -
  have law: "rolls_windows demo_pandas" by (simp add: rolls_windows_def demo_pandas_def Let_def)
  have full: "complete demo_frame" by (auto simp: complete_def demo_frame_def demo_frame_row_def)
  have "known ''atr_14'' (window 20 49 (fm_rows demo_frame)) = replicate 19 0 @ [40]"
    by (simp add: window_def last_rows_def demo_frame_def known_def eval_nat_numeral map_filter_simps demo_frame_row_def)
  moreover have "ratio_volatility (demo_frame_row 40) = Some VOL_NORMAL" by code_simp
  moreover have "pd_mean demo_pandas (replicate 19 0 @ [40]) = 2" by code_simp
  moreover have "atr_volatility 40 2 = VOL_HIGH" by code_simp
  moreover have "fm_rows demo_frame ! 49 = demo_frame_row 40" "fm_columns demo_frame = [''realized_vol_10'', ''realized_vol_50'', ''atr_14'']"
    by (simp_all add: demo_frame_def nth_append)
  moreover have "demo_frame_row 40 ''atr_14'' = Some 40" by (simp add: demo_frame_row_def)
  ultimately have "overlooked demo_pandas demo_frame 49"
    by (simp add: overlooked_def has_ratio_def has_column_def)
  with regime_series_parity [OF law full, of 49] show ?thesis by (simp add: demo_frame_def)
qed

section \<open>Live signals\<close>

text \<open>The frame that the signal paths pass to the detector, as \<open>_load_recent_candles\<close> builds it.\<close>

definition candle_cell :: "bar \<Rightarrow> frame_row" where
  "candle_cell b = (\<lambda>_. None)(''timestamp'' := Some (of_int (b_timestamp b)), ''open'' := Some (b_open b),
     ''high'' := Some (b_high b), ''low'' := Some (b_low b), ''close'' := Some (b_close b), ''volume'' := Some (b_volume b))"

definition candle_frame :: "bar list \<Rightarrow> frame" where
  "candle_frame df = \<lparr>fm_columns = [''timestamp'', ''open'', ''high'', ''low'', ''close'', ''volume''],
     fm_rows = map candle_cell df\<rparr>"

definition detected_regime :: "pandas \<Rightarrow> bar list \<Rightarrow> string" where
  "detected_regime pd df = regime_text (detect pd (candle_frame df))"

lemma detected_uncertain: "detected_regime pd df = ''UNCERTAIN''"
  by (simp add: detected_regime_def detect_def candle_frame_def detect_volatility_regime_def detect_trend_regime_def
      structure_trend_def is_ranging_def has_ratio_def has_column_def Let_def)

lemma persisted_regime: "persist_new_signal u r symbol tf t regime d = Inr (s, d') \<Longrightarrow>
    sg_market_regime s = regime \<and> db_signals d' = db_signals d @ [s]"
  by (auto simp: persist_new_signal_def Let_def new_signal_def insert_defs split: sum.splits if_splits)

lemma evaluate_definitions_regime:
  "evaluate_definitions run uid symbol tf df df_1d regime sds d = (r, d') \<Longrightarrow>
     \<exists>new. db_signals d' = db_signals d @ new \<and> (\<forall>s \<in> set new. sg_market_regime s = regime)"
proof (induction sds arbitrary: uid tf regime d r d')
  case (Cons sd sds)
  show ?case using Cons.prems
    by (auto simp: Let_def dest!: persisted_regime Cons.IH split: if_splits option.splits sum.splits bool.splits prod.splits)
qed simp

text \<open>
  As the frames of the signal paths have no indicator column, every signal that the
  route, the scheduled generation of all strategies and the intrabar check store carries the regime UNCERTAIN,
  whatever the market does, and the detector is never asked anything else.
\<close>

theorem live_regime_uncertain:
  fixes pd :: pandas
  defines "regime \<equiv> detected_regime pd"
  shows "(case generate_and_persist_signal gen regime u symbol tf d of
       Inr (Some s, d1) \<Rightarrow> sg_market_regime s = ''UNCERTAIN'' \<and> db_signals d1 = db_signals d @ [s]
     | _ \<Rightarrow> True) \<and>
    (case evaluate_live_breakout bl regime u now feed symbol tf ag d of
       (Inr (Some s), _, d1) \<Rightarrow> sg_market_regime s = ''UNCERTAIN'' \<and> db_signals d1 = db_signals d @ [s]
     | _ \<Rightarrow> True) \<and>
    (\<exists>new. db_signals (snd (evaluate_all_strategies_for_timeframe (run\<lparr>sr_regime := regime\<rparr>) uid symbol tf d)) =
        db_signals d @ new \<and> (\<forall>s \<in> set new. sg_market_regime s = ''UNCERTAIN''))"
proof (intro conjI)
  show "case generate_and_persist_signal gen regime u symbol tf d of
       Inr (Some s, d1) \<Rightarrow> sg_market_regime s = ''UNCERTAIN'' \<and> db_signals d1 = db_signals d @ [s] | _ \<Rightarrow> True"
    using detected_uncertain [of pd]
    by (auto simp: generate_and_persist_signal_def Let_def regime_def dest!: persisted_regime
        split: if_splits sum.splits bool.splits option.splits)
  show "case evaluate_live_breakout bl regime u now feed symbol tf ag d of
       (Inr (Some s), _, d1) \<Rightarrow> sg_market_regime s = ''UNCERTAIN'' \<and> db_signals d1 = db_signals d @ [s] | _ \<Rightarrow> True"
    using detected_uncertain [of pd]
    by (auto simp: evaluate_live_breakout_def Let_def regime_def dest!: persisted_regime
        split: if_splits sum.splits bool.splits option.splits prod.splits)
  obtain res d' where e: "evaluate_all_strategies_for_timeframe (run\<lparr>sr_regime := regime\<rparr>) uid symbol tf d = (res, d')" by fastforce
  then show "\<exists>new. db_signals (snd (evaluate_all_strategies_for_timeframe (run\<lparr>sr_regime := regime\<rparr>) uid symbol tf d)) =
      db_signals d @ new \<and> (\<forall>s \<in> set new. sg_market_regime s = ''UNCERTAIN'')"
    using detected_uncertain [of pd]
    by (auto simp: evaluate_all_strategies_for_timeframe_def Let_def regime_def dest!: evaluate_definitions_regime
        split: if_splits)
qed

end
