(* ===== verification/PaperTrader.thy ===== *)
theory PaperTrader
  imports RiskEngine Pnl
begin

text \<open>
  \<open>services/paper_trader/engine.py\<close>: the simulated trader.  A position object lives in the
  trader's dictionary, here an association list in insertion order; a method that mutates a
  position returns the trader with that entry replaced.  A method that can raise returns the
  trader as it stands when the exception leaves it; \<open>open_position\<close> can only raise before it
  changes anything but the day of the risk counters, which the next call resets again.
\<close>

section \<open>Trade identifiers\<close>

fun dec_digits :: "nat \<Rightarrow> string" where
  "dec_digits n = (if n < 10 then [char_of (48 + n)] else dec_digits (n div 10) @ [char_of (48 + n mod 10)])"

declare dec_digits.simps [simp del]

text \<open>\<open>f"PAPER-{n:06d}"\<close>\<close>

definition paper_trade_id :: "nat \<Rightarrow> string" where
  "paper_trade_id n = ''PAPER-'' @ replicate (6 - length (dec_digits n)) CHR ''0'' @ dec_digits n"

definition undigits :: "string \<Rightarrow> nat" where
  "undigits s = foldl (\<lambda>a c. 10 * a + (of_char c - 48)) 0 s"

lemma undigits_snoc: "undigits (s @ [c]) = 10 * undigits s + (of_char c - 48)"
  by (simp add: undigits_def)

lemma undigits_zeros: "undigits (replicate k CHR ''0'' @ s) = undigits s"
  by (induction k) (simp_all add: undigits_def)

lemma undigits_dec_digits: "undigits (dec_digits n) = n"
proof (induction n rule: dec_digits.induct)
  case (1 n)
  show ?case
  proof (cases "n < 10")
    case True
    then show ?thesis by (simp add: dec_digits.simps [of n] undigits_def)
  next
    case False
    have "undigits (dec_digits n) = 10 * undigits (dec_digits (n div 10)) + n mod 10"
      using False by (subst dec_digits.simps) (simp add: undigits_snoc)
    then show ?thesis using 1 False by simp
  qed
qed

lemma paper_trade_id_inj: "paper_trade_id m = paper_trade_id n \<Longrightarrow> m = n"
  unfolding paper_trade_id_def by simp (metis undigits_zeros undigits_dec_digits)

section \<open>Positions\<close>

definition slice_fractions :: "nat \<Rightarrow> f64 list" where
  "slice_fractions n =
     (if n = 2 then [1/2, 1/2] else if n = 3 then [fl (4/10), fl (3/10), fl (3/10)] else [1])"

record paper_position =
  pp_trade_id :: string
  pp_signal_id :: string
  pp_side :: string
  pp_entry_price :: f64
  pp_entry_time :: datetime
  pp_stop_loss :: f64
  pp_take_profit_1 :: "f64 option"
  pp_take_profit_2 :: "f64 option"
  pp_take_profit_3 :: "f64 option"
  pp_quantity :: f64
  pp_leverage :: int
  pp_market_regime :: string
  pp_strategy_name :: "string option"
  pp_remaining_quantity :: f64
  pp_slices :: "f64 list"
  pp_next_target_idx :: nat
  pp_realized_pnl :: f64
  pp_realized_fees :: f64

definition present :: "'a option list \<Rightarrow> 'a list" where
  "present xs = map the (filter (\<lambda>x. x \<noteq> None) xs)"

definition targets :: "paper_position \<Rightarrow> f64 list" where
  "targets p = present [pp_take_profit_1 p, pp_take_profit_2 p, pp_take_profit_3 p]"

text \<open>The generated constructor and \<open>__post_init__\<close>.\<close>

definition new_position ::
  "string \<Rightarrow> string \<Rightarrow> string \<Rightarrow> f64 \<Rightarrow> datetime \<Rightarrow> f64 \<Rightarrow> f64 option \<Rightarrow> f64 option \<Rightarrow> f64 option
     \<Rightarrow> f64 \<Rightarrow> int \<Rightarrow> string \<Rightarrow> string option \<Rightarrow> paper_position" where
  "new_position tid sid side entry t sl tp1 tp2 tp3 quantity leverage regime strategy =
     (let ts = present [tp1, tp2, tp3];
          n = (if ts = [] then 1 else length ts)
      in \<lparr>pp_trade_id = tid, pp_signal_id = sid, pp_side = side, pp_entry_price = entry,
          pp_entry_time = t, pp_stop_loss = sl, pp_take_profit_1 = tp1, pp_take_profit_2 = tp2,
          pp_take_profit_3 = tp3, pp_quantity = quantity, pp_leverage = leverage,
          pp_market_regime = regime, pp_strategy_name = strategy,
          pp_remaining_quantity = quantity,
          pp_slices = map (fmul quantity) (slice_fractions n),
          pp_next_target_idx = 0, pp_realized_pnl = 0, pp_realized_fees = 0\<rparr>)"

section \<open>Events\<close>

datatype exit_reason = EXIT_STOP_LOSS | EXIT_TAKE_PROFIT

record partial_exit_event =
  px_trade_id :: string
  px_signal_id :: string
  px_side :: string
  px_exit_price :: f64
  px_exit_time :: datetime
  px_quantity :: f64
  px_target_index :: nat
  px_pnl :: f64
  px_fees :: f64
  px_equity_after :: f64

record exit_event =
  ex_trade_id :: string
  ex_signal_id :: string
  ex_side :: string
  ex_entry_price :: f64
  ex_exit_price :: f64
  ex_entry_time :: datetime
  ex_exit_time :: datetime
  ex_quantity :: f64
  ex_leverage :: int
  ex_pnl :: f64
  ex_pnl_pct :: f64
  ex_r_multiple :: f64
  ex_fees :: f64
  ex_reason :: exit_reason
  ex_equity_after :: f64

datatype paper_event = PartialExit partial_exit_event | Exit exit_event

section \<open>The trader\<close>

record paper_trader =
  pt_risk :: risk_engine
  pt_initial_equity :: f64
  pt_equity :: f64
  pt_positions :: "(string \<times> paper_position) list"
  pt_closed_trades :: "exit_event list"
  pt_trade_counter :: nat
  pt_is_paused :: bool

definition new_paper_trader :: "risk_config \<Rightarrow> f64 \<Rightarrow> date \<Rightarrow> paper_trader" where
  "new_paper_trader config initial_equity today =
     \<lparr>pt_risk = new_risk_engine config initial_equity today, pt_initial_equity = initial_equity,
      pt_equity = initial_equity, pt_positions = [], pt_closed_trades = [], pt_trade_counter = 0,
      pt_is_paused = False\<rparr>"

text \<open>\<open>self.positions[key] = position\<close>, and the same object seen through the dictionary.\<close>

definition put_position :: "string \<Rightarrow> paper_position \<Rightarrow> paper_trader \<Rightarrow> paper_trader" where
  "put_position k p tr =
     tr\<lparr>pt_positions := (if k \<in> fst ` set (pt_positions tr)
                         then update_where (\<lambda>kp. fst kp = k) (\<lambda>_. (k, p)) (pt_positions tr)
                         else pt_positions tr @ [(k, p)])\<rparr>"

definition open_paper_position ::
  "datetime \<Rightarrow> signal \<Rightarrow> paper_trader \<Rightarrow> (paper_trader \<times> paper_position option) result" where
  "open_paper_position now sg tr =
     (if pt_is_paused tr then Inr (tr, None)
      else let (risk, ok, reason) = can_trade now (pt_risk tr); tr = tr\<lparr>pt_risk := risk\<rparr>
      in if \<not> ok then Inr (tr, None)
      else case (sg_entry_price sg, sg_stop_loss sg, sg_take_profit_1 sg) of
        (Some entry, Some sl, Some tp1) \<Rightarrow>
          let leverage = min 1 (rc_max_leverage (re_config risk))
          in (case calculate_position_size risk entry sl leverage of
                Inl x \<Rightarrow> Inl x
              | Inr quantity \<Rightarrow>
                  if quantity \<le> 0 then Inr (tr, None)
                  else let n = pt_trade_counter tr + 1;
                           tid = paper_trade_id n;
                           p = new_position tid (sg_signal_id sg) (sg_signal_type sg) entry (sg_timestamp sg) sl
                                 (sg_take_profit_1 sg) (sg_take_profit_2 sg) (sg_take_profit_3 sg)
                                 quantity leverage (sg_market_regime sg) (sg_strategy_name sg);
                           tr = put_position tid p (tr\<lparr>pt_trade_counter := n\<rparr>)
                       in Inr (tr\<lparr>pt_risk := record_position_open (pt_risk tr)\<rparr>, Some p))
      | _ \<Rightarrow> Inr (tr, None))"

definition partial_exit ::
  "paper_position \<Rightarrow> f64 \<Rightarrow> datetime \<Rightarrow> nat \<Rightarrow> paper_trader \<Rightarrow> paper_trader \<times> paper_position \<times> paper_event" where
  "partial_exit p exit_price t idx tr =
     (let slice_qty = pp_slices p ! idx;
          slice = compute_slice_pnl (pp_side p) (pp_entry_price p) exit_price slice_qty (pp_leverage p) DEFAULT_FEE_RATE;
          p' = p\<lparr>pp_remaining_quantity := fsub (pp_remaining_quantity p) slice_qty,
                 pp_realized_pnl := fadd (pp_realized_pnl p) (sp_pnl slice),
                 pp_realized_fees := fadd (pp_realized_fees p) (sp_fees slice)\<rparr>;
          equity = fadd (pt_equity tr) (sp_pnl slice)
      in ((put_position (pp_trade_id p) p' tr)\<lparr>pt_equity := equity\<rparr>, p',
          PartialExit \<lparr>px_trade_id = pp_trade_id p, px_signal_id = pp_signal_id p, px_side = pp_side p,
            px_exit_price = exit_price, px_exit_time = t, px_quantity = slice_qty,
            px_target_index = idx + 1, px_pnl = pyround 2 (sp_pnl slice),
            px_fees = pyround 2 (sp_fees slice), px_equity_after = pyround 2 equity\<rparr>))"

definition close_remaining ::
  "datetime \<Rightarrow> paper_position \<Rightarrow> f64 \<Rightarrow> datetime \<Rightarrow> exit_reason \<Rightarrow> paper_trader \<Rightarrow> paper_trader \<times> exit_event result" where
  "close_remaining now p exit_price t reason tr =
     (let qty = pp_remaining_quantity p;
          slice = compute_slice_pnl (pp_side p) (pp_entry_price p) exit_price qty (pp_leverage p) DEFAULT_FEE_RATE;
          equity = fadd (pt_equity tr) (sp_pnl slice);
          tr1 = tr\<lparr>pt_equity := equity\<rparr>;
          total_pnl = fadd (pp_realized_pnl p) (sp_pnl slice);
          total_fees = fadd (pp_realized_fees p) (sp_fees slice);
          original_notional = fmul (pp_entry_price p) (pp_quantity p);
          total_pnl_pct = (if 0 < original_notional then fmul (fdiv total_pnl original_notional) 100 else 0)
      in case compute_r_multiple (pp_entry_price p) (pp_stop_loss p) (pp_quantity p) total_pnl of
           Inl x \<Rightarrow> (tr1, Inl x)
         | Inr r_multiple \<Rightarrow>
             let event = \<lparr>ex_trade_id = pp_trade_id p, ex_signal_id = pp_signal_id p, ex_side = pp_side p,
                   ex_entry_price = pp_entry_price p, ex_exit_price = exit_price,
                   ex_entry_time = pp_entry_time p, ex_exit_time = t, ex_quantity = qty,
                   ex_leverage = pp_leverage p, ex_pnl = pyround 2 total_pnl,
                   ex_pnl_pct = pyround 4 total_pnl_pct, ex_r_multiple = pyround 2 r_multiple,
                   ex_fees = pyround 2 total_fees, ex_reason = reason, ex_equity_after = pyround 2 equity\<rparr>
             in (tr1\<lparr>pt_risk := record_position_close (record_trade_result total_pnl_pct now (pt_risk tr1)),
                     pt_positions := filter (\<lambda>kp. fst kp \<noteq> pp_trade_id p) (pt_positions tr1),
                     pt_closed_trades := pt_closed_trades tr1 @ [event]\<rparr>, Inr event))"

definition stop_hit :: "candle \<Rightarrow> paper_position \<Rightarrow> bool" where
  "stop_hit c p \<longleftrightarrow> (if pp_side p = ''LONG'' then cd_low c \<le> pp_stop_loss p else cd_high c \<ge> pp_stop_loss p)"

definition target_hit :: "candle \<Rightarrow> paper_position \<Rightarrow> f64 \<Rightarrow> bool" where
  "target_hit c p target \<longleftrightarrow> (if pp_side p = ''LONG'' then cd_high c \<ge> target else cd_low c \<le> target)"

text \<open>
  The \<open>while\<close> loop over the targets still ahead: the list argument is
  \<open>pos.targets()[pos._next_target_idx:]\<close>, so its length is what decreases.
\<close>

fun walk_targets ::
  "datetime \<Rightarrow> candle \<Rightarrow> f64 list \<Rightarrow> paper_position \<Rightarrow> paper_trader \<Rightarrow> paper_trader \<times> paper_event list \<times> exn option" where
  "walk_targets now c [] p tr = (tr, [], None)"
| "walk_targets now c (target # rest) p tr =
     (if \<not> target_hit c p target then (tr, [], None)
      else if rest = [] then
        (case close_remaining now p target (cd_timestamp c) EXIT_TAKE_PROFIT tr of
           (tr', Inr ev) \<Rightarrow> (tr', [Exit ev], None)
         | (tr', Inl x) \<Rightarrow> (tr', [], Some x))
      else
        let (tr1, p1, ev) = partial_exit p target (cd_timestamp c) (pp_next_target_idx p) tr;
            p2 = p1\<lparr>pp_next_target_idx := pp_next_target_idx p1 + 1\<rparr>;
            tr2 = put_position (pp_trade_id p2) p2 tr1;
            (tr3, evs, x) = walk_targets now c rest p2 tr2
        in (tr3, ev # evs, x))"

definition process_position ::
  "datetime \<Rightarrow> candle \<Rightarrow> paper_position \<Rightarrow> paper_trader \<Rightarrow> paper_trader \<times> paper_event list \<times> exn option" where
  "process_position now c p tr =
     (if stop_hit c p then
        (case close_remaining now p (pp_stop_loss p) (cd_timestamp c) EXIT_STOP_LOSS tr of
           (tr', Inr ev) \<Rightarrow> (tr', [Exit ev], None)
         | (tr', Inl x) \<Rightarrow> (tr', [], Some x))
      else walk_targets now c (drop (pp_next_target_idx p) (targets p)) p tr)"

text \<open>The loop over a snapshot of the positions; an exception leaves the method and loses the events.\<close>

fun process_positions ::
  "datetime \<Rightarrow> candle \<Rightarrow> paper_position list \<Rightarrow> paper_trader \<Rightarrow> paper_trader \<times> paper_event list \<times> exn option" where
  "process_positions now c [] tr = (tr, [], None)"
| "process_positions now c (p # ps) tr =
     (case process_position now c p tr of
        (tr', evs, Some x) \<Rightarrow> (tr', [], Some x)
      | (tr', evs, None) \<Rightarrow>
          (case process_positions now c ps tr' of
             (tr'', evs', Some x) \<Rightarrow> (tr'', [], Some x)
           | (tr'', evs', None) \<Rightarrow> (tr'', evs @ evs', None)))"

definition process_candle :: "datetime \<Rightarrow> candle \<Rightarrow> paper_trader \<Rightarrow> paper_trader \<times> paper_event list result" where
  "process_candle now c tr =
     (if pt_is_paused tr then (tr, Inr [])
      else case process_positions now c (map snd (pt_positions tr)) tr of
             (tr', evs, None) \<Rightarrow> (tr', Inr evs)
           | (tr', evs, Some x) \<Rightarrow> (tr', Inl x))"

record trader_status =
  ts_equity :: f64
  ts_initial_equity :: f64
  ts_total_pnl :: f64
  ts_total_pnl_pct :: f64
  ts_open_positions :: nat
  ts_closed_trades :: nat
  ts_is_paused :: bool
  ts_risk :: risk_report

definition trader_get_status :: "datetime \<Rightarrow> paper_trader \<Rightarrow> paper_trader \<times> trader_status result" where
  "trader_get_status now tr =
     (case py_div (fsub (pt_equity tr) (pt_initial_equity tr)) (pt_initial_equity tr) of
        Inl x \<Rightarrow> (tr, Inl x)
      | Inr r \<Rightarrow>
          (let (risk, report) = get_status now (pt_risk tr)
           in (tr\<lparr>pt_risk := risk\<rparr>,
               Inr \<lparr>ts_equity = pyround 2 (pt_equity tr), ts_initial_equity = pt_initial_equity tr,
                    ts_total_pnl = pyround 2 (fsub (pt_equity tr) (pt_initial_equity tr)),
                    ts_total_pnl_pct = pyround 4 (fmul r 100), ts_open_positions = length (pt_positions tr),
                    ts_closed_trades = length (pt_closed_trades tr), ts_is_paused = pt_is_paused tr,
                    ts_risk = report\<rparr>)))"

definition pause_trader :: "paper_trader \<Rightarrow> paper_trader" where
  "pause_trader tr = tr\<lparr>pt_is_paused := True\<rparr>"

definition resume_trader :: "paper_trader \<Rightarrow> paper_trader" where
  "resume_trader tr = tr\<lparr>pt_is_paused := False\<rparr>"

section \<open>The book of positions\<close>

abbreviation ids :: "paper_trader \<Rightarrow> string list" where "ids tr \<equiv> map fst (pt_positions tr)"
abbreviation closed_ids :: "paper_trader \<Rightarrow> string list" where "closed_ids tr \<equiv> map ex_trade_id (pt_closed_trades tr)"
abbreviation others :: "string \<Rightarrow> paper_trader \<Rightarrow> (string \<times> paper_position) list" where
  "others k tr \<equiv> filter (\<lambda>kp. fst kp \<noteq> k) (pt_positions tr)"

definition position_ok :: "paper_position \<Rightarrow> bool" where
  "position_ok p \<longleftrightarrow> length (pp_slices p) = max 1 (length (targets p)) \<and>
     (targets p \<noteq> [] \<longrightarrow> pp_next_target_idx p < length (targets p))"

text \<open>
  Every trade ever opened is either in the book, under its own identifier, or closed, exactly once;
  the risk engine counts the book.
\<close>

definition ids_ok :: "string list \<Rightarrow> string list \<Rightarrow> nat \<Rightarrow> bool" where
  "ids_ok opens closes n \<longleftrightarrow>
     distinct (opens @ closes) \<and> set (opens @ closes) = paper_trade_id ` {1..n}"

definition entries_ok :: "(string \<times> paper_position) list \<Rightarrow> bool" where
  "entries_ok kps \<longleftrightarrow> (\<forall>kp \<in> set kps. fst kp = pp_trade_id (snd kp) \<and> position_ok (snd kp))"

definition trader_inv :: "paper_trader \<Rightarrow> bool" where
  "trader_inv tr \<longleftrightarrow>
     ids_ok (ids tr) (closed_ids tr) (pt_trade_counter tr) \<and>
     entries_ok (pt_positions tr) \<and>
     rs_positions_open (re_state (pt_risk tr)) = int (length (pt_positions tr)) \<and>
     int (length (pt_positions tr)) \<le> max 0 (rc_max_positions (re_config (pt_risk tr))) \<and>
     risk_inv (pt_risk tr)"

lemma ids_ok_close:
  "ids_ok I C n \<Longrightarrow> k \<in> set I \<Longrightarrow> ids_ok (filter (\<lambda>x. x \<noteq> k) I) (C @ [k]) n"
  by (auto simp: ids_ok_def)

lemma ids_ok_fresh:
  assumes "ids_ok I C n"
  shows "paper_trade_id (Suc n) \<notin> set (I @ C)"
proof
  assume "paper_trade_id (Suc n) \<in> set (I @ C)"
  then have "paper_trade_id (Suc n) \<in> paper_trade_id ` {1..n}" using assms by (simp only: ids_ok_def)
  then show False by (auto dest: paper_trade_id_inj)
qed

lemma ids_ok_open: "ids_ok I C n \<Longrightarrow> ids_ok (I @ [paper_trade_id (Suc n)]) C (Suc n)"
  using ids_ok_fresh [of I C n] by (auto simp: ids_ok_def atLeastAtMostSuc_conv)

lemma ids_ok_count:
  assumes "ids_ok I C n"
  shows "length I + length C = n"
proof -
  have "length (I @ C) = card (paper_trade_id ` {1..n})"
    using assms unfolding ids_ok_def by (metis distinct_card)
  also have "\<dots> = n" by (subst card_image) (auto intro: inj_onI dest: paper_trade_id_inj)
  finally show ?thesis by simp
qed

lemma entries_ok_filter: "entries_ok kps \<Longrightarrow> entries_ok (filter P kps)"
  by (simp add: entries_ok_def)

lemma others_of_update [simp]:
  "filter (\<lambda>kp. fst kp \<noteq> k) (update_where (\<lambda>kp. fst kp = k) (\<lambda>_. (k, p)) xs) = filter (\<lambda>kp. fst kp \<noteq> k) xs"
  by (induction xs) auto

lemma map_fst_update [simp]: "map fst (update_where (\<lambda>kp. fst kp = k) (\<lambda>_. (k, p)) xs) = map fst xs"
  by (rule map_update_where) simp

lemma put_position_fields [simp]:
  "pt_risk (put_position k p tr) = pt_risk tr" "pt_equity (put_position k p tr) = pt_equity tr"
  "pt_closed_trades (put_position k p tr) = pt_closed_trades tr"
  "pt_trade_counter (put_position k p tr) = pt_trade_counter tr"
  "pt_initial_equity (put_position k p tr) = pt_initial_equity tr"
  "pt_is_paused (put_position k p tr) = pt_is_paused tr"
  by (simp_all add: put_position_def)

lemma put_position_present:
  assumes "k \<in> set (ids tr)"
  shows "ids (put_position k p tr) = ids tr" "others k (put_position k p tr) = others k tr"
    "(k, p) \<in> set (pt_positions (put_position k p tr))"
    "length (pt_positions (put_position k p tr)) = length (pt_positions tr)"
    "\<And>kp. kp \<in> set (pt_positions (put_position k p tr)) \<Longrightarrow> kp = (k, p) \<or> kp \<in> set (pt_positions tr)"
  using assms by (auto simp: put_position_def set_update_where image_iff)

lemma put_position_inv:
  assumes "trader_inv tr" "pp_trade_id p \<in> set (ids tr)" "position_ok p"
  shows "trader_inv (put_position (pp_trade_id p) p tr)"
proof -
  have "entries_ok (pt_positions (put_position (pp_trade_id p) p tr))"
    using put_position_present(5) [OF assms(2), where p = p] assms(1,3)
    by (fastforce simp: trader_inv_def entries_ok_def)
  then show ?thesis using assms(1) put_position_present(1,4) [OF assms(2), where p = p]
    unfolding trader_inv_def by simp
qed

lemma equity_inv [simp]: "trader_inv (tr\<lparr>pt_equity := e\<rparr>) = trader_inv tr"
  by (simp add: trader_inv_def)

lemma filter_key_length:
  assumes "distinct (map fst xs)" "k \<in> set (map fst xs)"
  shows "length (filter (\<lambda>kp. fst kp \<noteq> k) xs) = length xs - 1"
proof -
  obtain kp where "kp \<in> set xs" "fst kp = k" using assms(2) by auto
  then have "filter (\<lambda>y. fst y = k) xs = [kp]"
    using distinct_map_filter_key [OF assms(1), of kp] by simp
  then show ?thesis using sum_length_filter_compl [of "\<lambda>kp. fst kp = k" xs] by simp
qed

text \<open>What a close does to the trader, whatever the numbers are.\<close>

lemma close_remaining_effect:
  assumes "close_remaining now p x t r tr = (tr', res)"
  obtains (raised) e q where "res = Inl e" "tr' = tr\<lparr>pt_equity := q\<rparr>"
  | (closed) ev q m where "res = Inr ev" "ex_trade_id ev = pp_trade_id p" "ex_reason ev = r"
      "ex_exit_price ev = x" "ex_quantity ev = pp_remaining_quantity p"
      "tr' = tr\<lparr>pt_equity := q, pt_risk := record_position_close (record_trade_result m now (pt_risk tr)),
               pt_positions := others (pp_trade_id p) tr, pt_closed_trades := pt_closed_trades tr @ [ev]\<rparr>"
proof -
  let ?s = "compute_slice_pnl (pp_side p) (pp_entry_price p) x (pp_remaining_quantity p) (pp_leverage p) DEFAULT_FEE_RATE"
  let ?r = "compute_r_multiple (pp_entry_price p) (pp_stop_loss p) (pp_quantity p) (fadd (pp_realized_pnl p) (sp_pnl ?s))"
  show thesis
  proof (cases ?r)
    case (Inl e)
    then show thesis using assms by (intro raised) (auto simp: close_remaining_def Let_def)
  next
    case (Inr m)
    then show thesis using assms by (intro closed [OF _ _ _ _ _ _]) (auto simp: close_remaining_def Let_def)
  qed
qed

lemma close_remaining_inv:
  assumes inv: "trader_inv tr" and mem: "pp_trade_id p \<in> set (ids tr)"
    and c: "close_remaining now p x t r tr = (tr', res)"
  shows "trader_inv tr'" "others (pp_trade_id p) tr' = others (pp_trade_id p) tr"
    "re_config (pt_risk tr') = re_config (pt_risk tr)"
proof -
  define k where "k = pp_trade_id p"
  from c have "trader_inv tr' \<and> others k tr' = others k tr \<and> re_config (pt_risk tr') = re_config (pt_risk tr)"
  proof (cases rule: close_remaining_effect)
    case raised
    then show ?thesis using inv by simp
  next
    case (closed ev q m)
    note 2 = closed [folded k_def]
    have d: "distinct (ids tr)" and k: "k \<in> set (ids tr)" using inv mem by (simp_all add: trader_inv_def ids_ok_def k_def)
    have ids: "map fst (others k tr) = filter (\<lambda>x. x \<noteq> k) (ids tr)"
      by (simp add: filter_map o_def)
    have len: "int (length (others k tr)) = max 0 (int (length (pt_positions tr)) - 1)"
      using filter_key_length [OF d k] k by (cases "pt_positions tr") auto
    have r: "risk_inv (record_position_close (record_trade_result m now (pt_risk tr)))"
      using risk_inv_apply [of "record_trade_result m now (pt_risk tr)" RE_position_close]
        risk_inv_record [of "pt_risk tr"] inv by (simp add: trader_inv_def)
    have "ids_ok (ids tr') (closed_ids tr') (pt_trade_counter tr')"
      using inv ids_ok_close [of "ids tr" "closed_ids tr" "pt_trade_counter tr" k] k 2
      by (simp add: trader_inv_def ids)
    then show ?thesis using inv 2 len r
      by (simp add: trader_inv_def entries_ok_filter)
  qed
  then show "trader_inv tr'" "others (pp_trade_id p) tr' = others (pp_trade_id p) tr"
    "re_config (pt_risk tr') = re_config (pt_risk tr)" by (simp_all add: k_def)
qed

lemma targets_update [simp]:
  "targets (p\<lparr>pp_remaining_quantity := a, pp_realized_pnl := b, pp_realized_fees := c\<rparr>) = targets p"
  "targets (p\<lparr>pp_next_target_idx := i\<rparr>) = targets p"
  by (simp_all add: targets_def)

lemma partial_exit_effect:
  assumes "partial_exit p x t i tr = (tr', p', ev)" "trader_inv tr" "pp_trade_id p \<in> set (ids tr)" "position_ok p"
  shows "trader_inv tr'" "others (pp_trade_id p) tr' = others (pp_trade_id p) tr" "ids tr' = ids tr"
    "re_config (pt_risk tr') = re_config (pt_risk tr)"
    "targets p' = targets p" "pp_slices p' = pp_slices p" "pp_next_target_idx p' = pp_next_target_idx p"
    "pp_trade_id p' = pp_trade_id p" "pp_side p' = pp_side p"
    "\<exists>e. ev = PartialExit e \<and> px_trade_id e = pp_trade_id p \<and> px_exit_price e = x \<and> px_target_index e = i + 1"
proof -
  define slice where "slice = compute_slice_pnl (pp_side p) (pp_entry_price p) x (pp_slices p ! i) (pp_leverage p) DEFAULT_FEE_RATE"
  have p': "p' = p\<lparr>pp_remaining_quantity := fsub (pp_remaining_quantity p) (pp_slices p ! i),
      pp_realized_pnl := fadd (pp_realized_pnl p) (sp_pnl slice),
      pp_realized_fees := fadd (pp_realized_fees p) (sp_fees slice)\<rparr>"
    and tr': "tr' = (put_position (pp_trade_id p) p' tr)\<lparr>pt_equity := fadd (pt_equity tr) (sp_pnl slice)\<rparr>"
    using assms(1) by (auto simp: partial_exit_def Let_def slice_def)
  show "\<exists>e. ev = PartialExit e \<and> px_trade_id e = pp_trade_id p \<and> px_exit_price e = x \<and> px_target_index e = i + 1"
    using assms(1) by (auto simp: partial_exit_def Let_def)
  show t: "targets p' = targets p" "pp_slices p' = pp_slices p" "pp_next_target_idx p' = pp_next_target_idx p"
    "pp_trade_id p' = pp_trade_id p" "pp_side p' = pp_side p" by (simp_all add: p')
  have "position_ok p'" using assms(4) t by (simp add: position_ok_def)
  then have "trader_inv (put_position (pp_trade_id p) p' tr)"
    using put_position_inv [OF assms(2), of p'] assms(3) t(4) by simp
  then show "trader_inv tr'" by (simp add: tr')
  show "others (pp_trade_id p) tr' = others (pp_trade_id p) tr" "ids tr' = ids tr"
    "re_config (pt_risk tr') = re_config (pt_risk tr)"
    using put_position_present(1,2) [OF assms(3), where p = p'] by (simp_all add: tr')
qed

fun event_price :: "paper_event \<Rightarrow> f64" where
  "event_price (PartialExit e) = px_exit_price e"
| "event_price (Exit e) = ex_exit_price e"

fun event_trade :: "paper_event \<Rightarrow> string" where
  "event_trade (PartialExit e) = px_trade_id e"
| "event_trade (Exit e) = ex_trade_id e"

fun is_exit :: "paper_event \<Rightarrow> bool" where
  "is_exit (PartialExit _) = False"
| "is_exit (Exit _) = True"

text \<open>The walk over the targets: the invariant, the frame, and which events it produces.\<close>

lemma target_hit_side: "pp_side q = pp_side p \<Longrightarrow> target_hit c q = target_hit c p"
  by (rule ext) (simp add: target_hit_def)

lemma close_remaining_removes:
  assumes "close_remaining now p x t r tr = (tr', Inr ev)"
  shows "pp_trade_id p \<notin> set (ids tr')" "ex_trade_id ev = pp_trade_id p" "ex_exit_price ev = x"
    "ex_reason ev = r" "ex_quantity ev = pp_remaining_quantity p"
  using assms by (auto elim!: close_remaining_effect)

lemma close_remaining_returns:
  assumes "fmul \<bar>fsub (pp_entry_price p) (pp_stop_loss p)\<bar> (pp_quantity p) \<noteq> 0"
  shows "\<exists>tr' ev. close_remaining now p x t r tr = (tr', Inr ev)"
proof -
  have "\<exists>m. compute_r_multiple (pp_entry_price p) (pp_stop_loss p) (pp_quantity p) y = Inr m" for y
    using assms by (simp add: compute_r_multiple_def py_div_def Let_def)
  then show ?thesis by (auto simp: close_remaining_def Let_def split: sum.splits) (metis sum.distinct(1))
qed

lemma walk_targets_effect:
  assumes "walk_targets now c ts p tr = (tr', evs, x)" "ts = drop (pp_next_target_idx p) (targets p)"
    and "trader_inv tr" "pp_trade_id p \<in> set (ids tr)" "position_ok p"
  shows "trader_inv tr' \<and> others (pp_trade_id p) tr' = others (pp_trade_id p) tr \<and>
     re_config (pt_risk tr') = re_config (pt_risk tr) \<and>
     (x = None \<longrightarrow> map event_price evs = takeWhile (target_hit c p) ts \<and>
        (pp_trade_id p \<in> set (ids tr') \<longleftrightarrow> ts = [] \<or> (\<exists>t \<in> set ts. \<not> target_hit c p t)))"
  using assms
proof (induction ts arbitrary: p tr tr' evs x)
  case Nil
  then show ?case by simp
next
  case (Cons target rest)
  show ?case
  proof (cases "target_hit c p target")
    case False
    then have "tr' = tr" "evs = []" using Cons.prems(1) by simp_all
    then show ?thesis using False Cons.prems(3,4) by simp
  next
    case hit: True
    show ?thesis
    proof (cases "rest = []")
      case True
      obtain tr1 res where c: "close_remaining now p target (cd_timestamp c) EXIT_TAKE_PROFIT tr = (tr1, res)"
        by fastforce
      note inv = close_remaining_inv [OF Cons.prems(3,4) c]
      show ?thesis
        using Cons.prems(1) hit True inv c close_remaining_removes [of now p target "cd_timestamp c" EXIT_TAKE_PROFIT tr tr1]
        by (auto split: sum.splits)
    next
      case False
      obtain tr1 p1 ev where pe: "partial_exit p target (cd_timestamp c) (pp_next_target_idx p) tr = (tr1, p1, ev)"
        by (metis prod_cases3)
      note eff = partial_exit_effect [OF pe Cons.prems(3-5)]
      define p2 where "p2 = p1\<lparr>pp_next_target_idx := pp_next_target_idx p1 + 1\<rparr>"
      define tr2 where "tr2 = put_position (pp_trade_id p2) p2 tr1"
      obtain tr3 evs3 x3 where w: "walk_targets now c rest p2 tr2 = (tr3, evs3, x3)" by (metis prod_cases3)
      have res: "tr' = tr3" "evs = ev # evs3" "x = x3"
        using Cons.prems(1) hit False pe w by (simp_all add: p2_def tr2_def Let_def)
      have p2: "pp_trade_id p2 = pp_trade_id p" "pp_side p2 = pp_side p" "targets p2 = targets p"
        "pp_next_target_idx p2 = Suc (pp_next_target_idx p)" "pp_slices p2 = pp_slices p"
        using eff by (simp_all add: p2_def)
      have rest: "rest = drop (Suc (pp_next_target_idx p)) (targets p)"
        using Cons.prems(2) by (metis list.sel(3) drop_Suc tl_drop)
      have "Suc (pp_next_target_idx p) < length (targets p)"
        using rest False by (metis drop_all not_le)
      then have ok2: "position_ok p2" using Cons.prems(5) p2 by (auto simp: position_ok_def)
      have mem: "pp_trade_id p2 \<in> set (ids tr1)" using Cons.prems(4) eff(3) p2 by simp
      have inv2: "trader_inv tr2" unfolding tr2_def by (rule put_position_inv [OF eff(1) mem ok2])
      note pres = put_position_present [OF mem, where p = p2, folded tr2_def]
      have "trader_inv tr3 \<and> others (pp_trade_id p2) tr3 = others (pp_trade_id p2) tr2 \<and>
          re_config (pt_risk tr3) = re_config (pt_risk tr2) \<and>
          (x3 = None \<longrightarrow> map event_price evs3 = takeWhile (target_hit c p2) rest \<and>
            (pp_trade_id p2 \<in> set (ids tr3) \<longleftrightarrow> rest = [] \<or> (\<exists>t \<in> set rest. \<not> target_hit c p2 t)))"
        using rest p2 mem by (intro Cons.IH [OF w _ inv2 _ ok2]) (simp_all add: pres(1))
      moreover have "re_config (pt_risk tr2) = re_config (pt_risk tr)"
        "others (pp_trade_id p) tr2 = others (pp_trade_id p) tr"
        using eff(2,4) pres(2) p2(1) by (simp_all add: tr2_def)
      moreover have "event_price ev = target" using eff(10) by auto
      ultimately show ?thesis
        using hit False by (simp add: res p2 target_hit_side [OF p2(2)])
    qed
  qed
qed

lemma process_position_effect:
  assumes "process_position now c p tr = (tr', evs, x)"
    and "trader_inv tr" "(pp_trade_id p, p) \<in> set (pt_positions tr)"
  shows "trader_inv tr'" "others (pp_trade_id p) tr' = others (pp_trade_id p) tr"
    "re_config (pt_risk tr') = re_config (pt_risk tr)"
proof -
  have ok: "position_ok p" and mem: "pp_trade_id p \<in> set (ids tr)"
    using assms(2,3) by (force simp: trader_inv_def entries_ok_def)+
  have "trader_inv tr' \<and> others (pp_trade_id p) tr' = others (pp_trade_id p) tr \<and>
    re_config (pt_risk tr') = re_config (pt_risk tr)"
  proof (cases "stop_hit c p")
    case True
    obtain tr1 res where cl: "close_remaining now p (pp_stop_loss p) (cd_timestamp c) EXIT_STOP_LOSS tr = (tr1, res)"
      by fastforce
    then show ?thesis using close_remaining_inv [OF assms(2) mem cl] assms(1) True
      by (auto simp: process_position_def split: sum.splits)
  next
    case False
    then show ?thesis using walk_targets_effect [OF _ refl assms(2) mem ok] assms(1)
      by (simp add: process_position_def)
  qed
  then show "trader_inv tr'" "others (pp_trade_id p) tr' = others (pp_trade_id p) tr"
    "re_config (pt_risk tr') = re_config (pt_risk tr)" by simp_all
qed

text \<open>Processing one position leaves every other entry of the snapshot in place.\<close>

lemma process_positions_inv:
  assumes "process_positions now c ps tr = (tr', evs, x)" "trader_inv tr"
    and "\<And>p. p \<in> set ps \<Longrightarrow> (pp_trade_id p, p) \<in> set (pt_positions tr)" "distinct (map pp_trade_id ps)"
  shows "trader_inv tr' \<and> re_config (pt_risk tr') = re_config (pt_risk tr)"
  using assms
proof (induction ps arbitrary: tr tr' evs x)
  case Nil
  then show ?case by simp
next
  case (Cons p ps)
  obtain tr1 evs1 x1 where s: "process_position now c p tr = (tr1, evs1, x1)" by (metis prod_cases3)
  have mem: "(pp_trade_id p, p) \<in> set (pt_positions tr)" using Cons.prems(3) by simp
  note eff = process_position_effect [OF s Cons.prems(2) mem]
  have keep: "(pp_trade_id q, q) \<in> set (pt_positions tr1)" if "q \<in> set ps" for q
  proof -
    have "(pp_trade_id q, q) \<in> set (others (pp_trade_id p) tr)"
      using that Cons.prems(3) [of q] Cons.prems(4) by (auto simp: image_iff)
    then have "(pp_trade_id q, q) \<in> set (others (pp_trade_id p) tr1)" using eff(2) by simp
    then show ?thesis by simp
  qed
  obtain tr2 evs2 x2 where r: "process_positions now c ps tr1 = (tr2, evs2, x2)" by (metis prod_cases3)
  have "trader_inv tr2 \<and> re_config (pt_risk tr2) = re_config (pt_risk tr1)"
    using Cons.prems(4) by (intro Cons.IH [OF r eff(1) keep]) simp_all
  then show ?case using Cons.prems(1) s r eff by (auto split: option.splits)
qed

lemma process_candle_inv:
  assumes "trader_inv tr"
  shows "trader_inv (fst (process_candle now c tr))"
    "re_config (pt_risk (fst (process_candle now c tr))) = re_config (pt_risk tr)"
proof -
  obtain tr' evs x where r: "process_positions now c (map snd (pt_positions tr)) tr = (tr', evs, x)"
    by (metis prod_cases3)
  have keys: "map pp_trade_id (map snd (pt_positions tr)) = ids tr"
    using assms by (simp add: trader_inv_def entries_ok_def)
  have "distinct (ids tr)" using assms by (simp add: trader_inv_def ids_ok_def)
  then have "trader_inv tr' \<and> re_config (pt_risk tr') = re_config (pt_risk tr)"
    using assms by (intro process_positions_inv [OF r assms])
      (fastforce simp: trader_inv_def entries_ok_def, simp only: keys)
  then show "trader_inv (fst (process_candle now c tr))"
    "re_config (pt_risk (fst (process_candle now c tr))) = re_config (pt_risk tr)"
    using assms r by (auto simp: process_candle_def split: option.splits)
qed

section \<open>Opening a position\<close>

lemma slice_fractions_length: "n \<in> {1, 2, 3} \<Longrightarrow> length (slice_fractions n) = n"
  by (auto simp: slice_fractions_def)

lemma present_length: "length (present xs) \<le> length xs"
  by (simp add: present_def)

lemma new_position_targets [simp]: "targets (new_position tid sid side e t sl a b c q l r st) = present [a, b, c]"
  by (simp add: new_position_def Let_def targets_def)

lemma new_position_id [simp]: "pp_trade_id (new_position tid sid side e t sl a b c q l r st) = tid"
  by (simp add: new_position_def Let_def)

lemma new_position_ok: "position_ok (new_position tid sid side e t sl a b c q l r st)"
proof -
  let ?ts = "present [a, b, c]"
  have "length ?ts \<le> 3" using present_length [of "[a, b, c]"] by simp
  then have "length (slice_fractions (if ?ts = [] then 1 else length ?ts)) = max 1 (length ?ts)"
    by (subst slice_fractions_length) (cases ?ts, auto simp: le_Suc_eq numeral_3_eq_3 max_def)
  then show ?thesis unfolding position_ok_def new_position_targets
    by (simp add: new_position_def Let_def)
qed

lemma put_position_fresh:
  "k \<notin> set (ids tr) \<Longrightarrow> pt_positions (put_position k p tr) = pt_positions tr @ [(k, p)]"
  by (auto simp: put_position_def)

text \<open>The possible effects of an opening: none, the day's reset alone, or one new entry.\<close>

lemma open_paper_position_cases:
  assumes "open_paper_position now sg tr = Inr (tr', r)"
  obtains "tr' = tr" | "tr' = tr\<lparr>pt_risk := fst (can_trade now (pt_risk tr))\<rparr>"
    | p where "fst (snd (can_trade now (pt_risk tr)))" "pp_trade_id p = paper_trade_id (pt_trade_counter tr + 1)"
      "position_ok p"
      "tr' = (put_position (paper_trade_id (pt_trade_counter tr + 1)) p
                (tr\<lparr>pt_risk := fst (can_trade now (pt_risk tr)), pt_trade_counter := pt_trade_counter tr + 1\<rparr>))
              \<lparr>pt_risk := record_position_open (fst (can_trade now (pt_risk tr)))\<rparr>"
proof -
  obtain risk ok v where g: "can_trade now (pt_risk tr) = (risk, ok, v)" by (metis prod_cases3)
  show thesis
  proof (cases "pt_is_paused tr \<or> \<not> ok \<or> sg_entry_price sg = None \<or> sg_stop_loss sg = None \<or> sg_take_profit_1 sg = None")
    case True
    then show thesis using assms that(1,2) g
      by (auto simp: open_paper_position_def Let_def split: option.splits if_splits)
  next
    case False
    then obtain entry sl tp1 where s: "sg_entry_price sg = Some entry" "sg_stop_loss sg = Some sl"
      "sg_take_profit_1 sg = Some tp1" by auto
    obtain q where q: "calculate_position_size risk entry sl (min 1 (rc_max_leverage (re_config risk))) = Inr q"
      using assms False s g by (cases "calculate_position_size risk entry sl (min 1 (rc_max_leverage (re_config risk)))")
        (simp_all add: open_paper_position_def Let_def)
    show thesis
    proof (cases "q \<le> 0")
      case True
      then show thesis using assms False s g q that(2) by (simp add: open_paper_position_def Let_def)
    next
      case pos: False
      show thesis
        using assms False s g q pos by (intro that(3) [OF _ new_position_id new_position_ok])
          (auto simp: open_paper_position_def Let_def)
    qed
  qed
qed

lemma open_paper_position_inv:
  assumes inv: "trader_inv tr" and o: "open_paper_position now sg tr = Inr (tr', r)"
  shows "trader_inv tr' \<and> re_config (pt_risk tr') = re_config (pt_risk tr)"
proof -
  define risk where "risk = fst (can_trade now (pt_risk tr))"
  have risk: "risk = reset_daily now (pt_risk tr)" by (simp add: risk_def)
  have inv1: "trader_inv (tr\<lparr>pt_risk := risk\<rparr>)"
    using inv risk_inv_reset [of "pt_risk tr" now] by (simp add: trader_inv_def risk)
  from o show ?thesis
  proof (cases rule: open_paper_position_cases)
    case 1 then show ?thesis using inv by simp
  next
    case 2 then show ?thesis using inv1 by (simp add: risk)
  next
    case (3 p)
    note 3 = 3 [folded risk_def]
    let ?k = "paper_trade_id (pt_trade_counter tr + 1)"
    have ids: "ids_ok (ids tr) (closed_ids tr) (pt_trade_counter tr)" using inv by (simp add: trader_inv_def)
    have fresh: "?k \<notin> set (ids tr)" using ids_ok_fresh [OF ids] by simp
    have pos: "pt_positions tr' = pt_positions tr @ [(?k, p)]"
      using fresh by (simp add: 3 put_position_fresh)
    have gate: "rs_positions_open (re_state (record_position_open risk)) \<le> rc_max_positions (re_config risk)"
      using risk.guarded_open_within [OF 3(1)] by (simp add: risk)
    have "risk_inv (record_position_open risk)"
      using inv risk_inv_apply [of risk RE_position_open] risk_inv_reset [of "pt_risk tr" now]
      by (simp add: trader_inv_def risk)
    then show ?thesis using inv ids_ok_open [OF ids] gate 3(2,3) pos
      by (simp add: trader_inv_def 3(4) risk entries_ok_def)
  qed
qed

section \<open>Runs of the trader\<close>

datatype trader_op =
    TO_open datetime signal
  | TO_candle datetime candle
  | TO_status datetime
  | TO_pause
  | TO_resume

fun trader_apply :: "trader_op \<Rightarrow> paper_trader \<Rightarrow> paper_trader" where
  "trader_apply (TO_open now sg) tr =
     (case open_paper_position now sg tr of Inl _ \<Rightarrow> tr | Inr (tr', _) \<Rightarrow> tr')"
| "trader_apply (TO_candle now c) tr = fst (process_candle now c tr)"
| "trader_apply (TO_status now) tr = fst (trader_get_status now tr)"
| "trader_apply TO_pause tr = pause_trader tr"
| "trader_apply TO_resume tr = resume_trader tr"

lemma trader_apply_inv:
  assumes "trader_inv tr"
  shows "trader_inv (trader_apply op tr) \<and> re_config (pt_risk (trader_apply op tr)) = re_config (pt_risk tr)"
proof (cases op)
  case (TO_open now sg)
  show ?thesis
  proof (cases "open_paper_position now sg tr")
    case (Inl x)
    then show ?thesis using TO_open assms by simp
  next
    case (Inr r)
    then show ?thesis using TO_open open_paper_position_inv [OF assms, of now sg "fst r" "snd r"]
      by (simp add: case_prod_beta)
  qed
next
  case (TO_candle now c)
  then show ?thesis using process_candle_inv [OF assms, of now c] by simp
next
  case (TO_status now)
  have "pt_risk (fst (trader_get_status now tr)) = reset_daily now (pt_risk tr) \<and>
      fst (trader_get_status now tr) = tr\<lparr>pt_risk := reset_daily now (pt_risk tr)\<rparr> \<or>
      fst (trader_get_status now tr) = tr"
    by (auto simp: trader_get_status_def get_status_def Let_def split: sum.splits)
  then show ?thesis using TO_status assms risk_inv_reset [of "pt_risk tr" now]
    by (auto simp: trader_inv_def)
qed (use assms in \<open>simp_all add: pause_trader_def resume_trader_def trader_inv_def\<close>)

lemma trader_inv_new: "trader_inv (new_paper_trader c eq today)"
  by (simp add: trader_inv_def new_paper_trader_def ids_ok_def entries_ok_def risk_inv_new)
    (simp add: new_risk_engine_def new_risk_state_def)

lemma trader_run_inv:
  "trader_inv tr \<Longrightarrow> trader_inv (fold trader_apply ops tr) \<and>
     re_config (pt_risk (fold trader_apply ops tr)) = re_config (pt_risk tr)"
  by (induction ops arbitrary: tr) (simp_all add: trader_apply_inv)

section \<open>Properties\<close>

text \<open>
  C5: The book is complete.  After any sequence of openings, candles, status reads, pauses and
  resumes from a fresh trader, every trade ever opened is either in the book or among the closed
  trades and in exactly one place, under a distinct identifier; the risk engine counts exactly the
  book; and with a non-negative configured maximum the book never holds more positions than it.
\<close>

theorem paper_trader_book:
  assumes "0 \<le> rc_max_positions config"
  shows "let tr = fold trader_apply ops (new_paper_trader config eq today)
    in length (pt_positions tr) + length (pt_closed_trades tr) = pt_trade_counter tr \<and>
       distinct (map fst (pt_positions tr) @ map ex_trade_id (pt_closed_trades tr)) \<and>
       rs_positions_open (re_state (pt_risk tr)) = int (length (pt_positions tr)) \<and>
       int (length (pt_positions tr)) \<le> rc_max_positions config"
proof -
  define tr where "tr = fold trader_apply ops (new_paper_trader config eq today)"
  have inv: "trader_inv tr" and c: "re_config (pt_risk tr) = config"
    using trader_run_inv [OF trader_inv_new, of ops config eq today]
    by (simp_all add: tr_def) (simp add: new_paper_trader_def new_risk_engine_def)
  then have "ids_ok (ids tr) (closed_ids tr) (pt_trade_counter tr)" by (simp add: trader_inv_def)
  then show ?thesis using inv assms ids_ok_count [of "ids tr" "closed_ids tr" "pt_trade_counter tr"]
    by (simp add: Let_def trader_inv_def c flip: tr_def) (simp add: ids_ok_def)
qed

theorem paper_trader_book_witness:
  "let tr = fold trader_apply [TO_pause, TO_resume] (new_paper_trader default_risk_config 10000 0)
   in length (pt_positions tr) + length (pt_closed_trades tr) = pt_trade_counter tr"
proof -
  have "0 \<le> rc_max_positions default_risk_config" by (simp add: default_risk_config_def)
  from paper_trader_book [OF this, of "[TO_pause, TO_resume]" 10000 0] show ?thesis
    by (simp only: Let_def)
qed

text \<open>
  C30: The order of exits within a candle.  A candle that touches the stop closes the whole
  remaining quantity at the stop, in one event, whatever targets it also reaches.  Otherwise the
  events are exits at exactly the targets still ahead that the candle reaches, in order, up to the
  first one it does not reach, and the position leaves the book exactly when none is left.  No
  other position changes.
\<close>

theorem candle_exit_order:
  assumes "trader_inv tr" and "(pp_trade_id p, p) \<in> set (pt_positions tr)"
    and "process_position now c p tr = (tr', evs, None)"
  shows "(stop_hit c p \<longrightarrow> (\<exists>e. evs = [Exit e] \<and> ex_exit_price e = pp_stop_loss p \<and>
            ex_reason e = EXIT_STOP_LOSS \<and> ex_quantity e = pp_remaining_quantity p \<and>
            pp_trade_id p \<notin> fst ` set (pt_positions tr'))) \<and>
    (\<not> stop_hit c p \<longrightarrow>
       map event_price evs = takeWhile (target_hit c p) (drop (pp_next_target_idx p) (targets p)) \<and>
       (pp_trade_id p \<in> fst ` set (pt_positions tr') \<longleftrightarrow>
          drop (pp_next_target_idx p) (targets p) = [] \<or>
          (\<exists>t \<in> set (drop (pp_next_target_idx p) (targets p)). \<not> target_hit c p t))) \<and>
    filter (\<lambda>kp. fst kp \<noteq> pp_trade_id p) (pt_positions tr') = filter (\<lambda>kp. fst kp \<noteq> pp_trade_id p) (pt_positions tr)"
proof -
  have ok: "position_ok p" and mem: "pp_trade_id p \<in> set (ids tr)"
    using assms(1,2) by (force simp: trader_inv_def entries_ok_def)+
  have "\<exists>e. evs = [Exit e] \<and> ex_exit_price e = pp_stop_loss p \<and> ex_reason e = EXIT_STOP_LOSS \<and>
      ex_quantity e = pp_remaining_quantity p \<and> pp_trade_id p \<notin> fst ` set (pt_positions tr')" if "stop_hit c p"
    using assms(3) that close_remaining_removes [of now p "pp_stop_loss p" "cd_timestamp c" EXIT_STOP_LOSS tr]
    by (auto simp: process_position_def split: prod.splits sum.splits)
  moreover have "walk_targets now c (drop (pp_next_target_idx p) (targets p)) p tr = (tr', evs, None)"
    if "\<not> stop_hit c p" using assms(3) that by (simp add: process_position_def)
  ultimately show ?thesis
    using walk_targets_effect [OF _ refl assms(1) mem ok, of now c tr' evs None]
      process_position_effect(2) [OF assms(3,1,2)] by auto
qed

definition demo_position :: paper_position where
  "demo_position = new_position (paper_trade_id 1) ''s'' ''LONG'' 100 0 90 (Some 110) (Some 120) None 1 1 ''TREND'' None"

definition demo_trader :: paper_trader where
  "demo_trader = (new_paper_trader default_risk_config 10000 0)
     \<lparr>pt_positions := [(paper_trade_id 1, demo_position)], pt_trade_counter := 1,
      pt_risk := record_position_open (new_risk_engine default_risk_config 10000 0)\<rparr>"

definition demo_candle :: candle where
  "demo_candle = \<lparr>cd_timestamp = 5, cd_timeframe = ''4h'', cd_open = 100, cd_high = 130, cd_low = 80,
     cd_close = 100, cd_volume = 1, cd_symbol = ''BTC/USDT'', cd_quality_status = ''valid''\<rparr>"

lemma demo_trader_inv: "trader_inv demo_trader"
proof -
  have "risk_inv (record_position_open (new_risk_engine default_risk_config 10000 0))"
    using risk_inv_apply [OF risk_inv_new, of RE_position_open] by simp
  then show ?thesis
    by (simp add: trader_inv_def demo_trader_def new_paper_trader_def ids_ok_def entries_ok_def
        demo_position_def new_position_ok) (simp add: new_risk_engine_def new_risk_state_def default_risk_config_def)
qed

theorem candle_exit_order_witness:
  "stop_hit demo_candle demo_position \<and>
   (\<exists>e. fst (snd (process_position 7 demo_candle demo_position demo_trader)) = [Exit e] \<and> ex_exit_price e = 90)"
proof -
  have mem: "(pp_trade_id demo_position, demo_position) \<in> set (pt_positions demo_trader)"
    by (simp add: demo_trader_def demo_position_def)
  have s: "stop_hit demo_candle demo_position" by code_simp
  have "fmul \<bar>fsub (pp_entry_price demo_position) (pp_stop_loss demo_position)\<bar> (pp_quantity demo_position) \<noteq> 0"
    by code_simp
  then obtain tr' ev where "close_remaining 7 demo_position (pp_stop_loss demo_position) (cd_timestamp demo_candle)
      EXIT_STOP_LOSS demo_trader = (tr', Inr ev)"
    using close_remaining_returns by blast
  then have p: "process_position 7 demo_candle demo_position demo_trader = (tr', [Exit ev], None)"
    using s by (simp add: process_position_def)
  have "pp_stop_loss demo_position = 90" by code_simp
  with candle_exit_order [OF demo_trader_inv mem p] s show ?thesis by (auto simp: p)
qed

text \<open>
  Scaling out never oversells.  For a position opened with any targets and any representable
  quantity above the smallest considered, each slice is a non-negative amount and after any number
  of partial exits short of the last slice the remaining quantity, as the floating-point
  subtraction computes it, is not negative.
\<close>

theorem slices_never_oversell:
  assumes "p = new_position tid sid side entry t sl a b c q lev regime st"
    and "fl q = q" "1 / 10 ^ 20 \<le> q" and "n < length (pp_slices p)"
  shows "0 \<le> foldl fsub (pp_remaining_quantity p) (take n (pp_slices p)) \<and> (\<forall>s \<in> set (pp_slices p). 0 \<le> s)"
proof -
  let ?f4 = "fl (4 / 10)" and ?f3 = "fl (3 / 10)"
  have f: "?f4 \<le> 41 / 100" "39 / 100 \<le> ?f4" "?f3 \<le> 31 / 100" "0 \<le> ?f3" by code_simp+
  have q: "0 \<le> q" using assms(3) by (rule order_trans [rotated]) simp
  have below: "fmul q r \<le> q" if "r \<le> 1" "0 \<le> r" for r
    using fl_mono [of "q * r" q] assms(2) that q by (simp add: fmul_def mult_left_le)
  have two: "fmul q ?f3 \<le> fsub q (fmul q ?f4)"
  proof -
    have "1 / 10 ^ 30 \<le> q * ?f4"
    proof -
      have "(1 :: rat) / 10 ^ 30 \<le> 1 / 10 ^ 20 * (39 / 100)" by simp
      also have "\<dots> \<le> q * ?f4" using assms(3) f(2) q by (intro mult_mono) simp_all
      finally show ?thesis .
    qed
    then have "fmul q ?f4 \<le> q * ?f4 * (1 + 1 / 2 ^ 53)"
      unfolding fmul_def by (intro fl_upper normal_bound)
    also have "\<dots> \<le> q * (41 / 100) * 2" using f(1,2) q by (intro mult_mono mult_left_mono) simp_all
    also have "\<dots> = 82 / 100 * q" by simp
    finally have u: "fmul q ?f4 \<le> q * ?f4 * (1 + 1 / 2 ^ 53)" using \<open>fmul q ?f4 \<le> q * ?f4 * (1 + 1 / 2 ^ 53)\<close> by simp
    have "q * ?f4 * (1 + 1 / 2 ^ 53) \<le> q * (41 / 100) * (11 / 10)"
      using f(1,2) q by (intro mult_mono mult_left_mono) simp_all
    moreover have "q * ?f3 \<le> q * (31 / 100)" using f(3) q by (rule mult_left_mono)
    ultimately have "q * ?f3 \<le> q - fmul q ?f4" using u q by linarith
    then show ?thesis unfolding fsub_def fmul_def [of q ?f3] by (rule fl_mono)
  qed
  obtain k where k: "pp_slices p = map (fmul q) (slice_fractions k)" "pp_remaining_quantity p = q"
    by (auto simp: assms(1) new_position_def Let_def)
  consider "k = 2" | "k = 3" | "slice_fractions k = [1]" by (cases "k = 2"; cases "k = 3") (simp_all add: slice_fractions_def)
  then show ?thesis
  proof cases
    case 1
    then show ?thesis using assms(4) q below [of "1/2"]
      by (auto simp: k slice_fractions_def less_Suc_eq intro!: fsub_nonneg fmul_nonneg)
  next
    case 2
    then show ?thesis using assms(4) q below [of ?f4] f two
      by (auto simp: k slice_fractions_def less_Suc_eq numeral_3_eq_3 numeral_2_eq_2 intro!: fsub_nonneg fmul_nonneg)
  next
    case 3
    then show ?thesis using assms(4) q by (auto simp: k intro!: fmul_nonneg)
  qed
qed

theorem slices_never_oversell_witness:
  "0 \<le> foldl fsub (pp_remaining_quantity demo_position) (take 1 (pp_slices demo_position))"
proof -
  have "fl (1::rat) = 1" "(1::rat) / 10 ^ 20 \<le> 1" by simp_all
  moreover have "1 < length (pp_slices demo_position)" by code_simp
  ultimately show ?thesis using slices_never_oversell [OF demo_position_def] by blast
qed

end
