(* ===== verification/PaperPersistence.thy ===== *)
theory PaperPersistence
  imports PaperTrader TradeJournal
begin

text \<open>
  \<open>services/paper_trader/persistence.py\<close>: the mirror of the paper trader's decisions in the tables
  of trades and executions.  The main result is a simulation: as long as every event of the trader
  is persisted, the table shows a trade open exactly while the trader holds it, and closed with
  the trader's own numbers afterwards.
\<close>

section \<open>Operations\<close>

definition get_open_paper_trade :: "db \<Rightarrow> string \<Rightarrow> trade_source option \<Rightarrow> trade option" where
  "get_open_paper_trade d symbol source =
     first (order_desc tr_entry_time
       (filter (\<lambda>t. tr_symbol t = symbol \<and> tr_mode t = ''paper'' \<and>
                   tr_status t \<in> {TS_OPEN, TS_PARTIALLY_CLOSED} \<and>
                   (case source of None \<Rightarrow> True | Some s \<Rightarrow> tr_source t = s)) (db_trades d)))"

definition paper_row :: "paper_position \<Rightarrow> string \<Rightarrow> trade_source \<Rightarrow> trade" where
  "paper_row p symbol source = default_trade
     \<lparr>tr_trade_id := pp_trade_id p, tr_signal_id := Some (pp_signal_id p), tr_symbol := symbol,
      tr_side := pp_side p, tr_status := TS_OPEN, tr_mode := ''paper'',
      tr_entry_price := pp_entry_price p, tr_stop_loss := Some (pp_stop_loss p),
      tr_take_profit_1 := pp_take_profit_1 p, tr_take_profit_2 := pp_take_profit_2 p,
      tr_take_profit_3 := pp_take_profit_3 p, tr_quantity := pp_quantity p,
      tr_leverage := pp_leverage p, tr_entry_time := pp_entry_time p,
      tr_market_regime := Some (pp_market_regime p), tr_is_manual_entry := False,
      tr_source := source, tr_data_source := DS_SYNCED\<rparr>"

definition persist_paper_open :: "paper_position \<Rightarrow> string \<Rightarrow> trade_source \<Rightarrow> db \<Rightarrow> (trade \<times> db) result" where
  "persist_paper_open p symbol source d =
     (case insert_trade (paper_row p symbol source) d of
        Inl x \<Rightarrow> Inl x
      | Inr d' \<Rightarrow> Inr (paper_row p symbol source, d'\<lparr>db_executions := db_executions d' @
          [\<lparr>te_trade_id = pp_trade_id p, te_execution_type = ET_ENTRY, te_price = pp_entry_price p,
            te_quantity = pp_quantity p, te_timestamp = pp_entry_time p,
            te_exchange_transaction_id = None\<rparr>]\<rparr>))"

fun exit_reason_text :: "exit_reason \<Rightarrow> string" where
  "exit_reason_text EXIT_STOP_LOSS = ''stop_loss''"
| "exit_reason_text EXIT_TAKE_PROFIT = ''take_profit''"

definition exited_row :: "exit_event \<Rightarrow> trade \<Rightarrow> trade" where
  "exited_row e t = t\<lparr>tr_status := TS_CLOSED, tr_exit_price := Some (ex_exit_price e),
     tr_exit_time := Some (ex_exit_time e), tr_pnl := Some (ex_pnl e), tr_pnl_pct := Some (ex_pnl_pct e),
     tr_fees := Some (ex_fees e), tr_r_multiple := Some (ex_r_multiple e),
     tr_exit_reason := Some (exit_reason_text (ex_reason e))\<rparr>"

fun persist_paper_event :: "paper_event \<Rightarrow> db \<Rightarrow> db" where
  "persist_paper_event (PartialExit e) d =
     (case lookup_trade (px_trade_id e) d of
        None \<Rightarrow> d
      | Some t \<Rightarrow> (update_trade (px_trade_id e) (\<lambda>_. t\<lparr>tr_status := TS_PARTIALLY_CLOSED\<rparr>) d)
          \<lparr>db_executions := db_executions d @
            [\<lparr>te_trade_id = px_trade_id e, te_execution_type = ET_PARTIAL_EXIT, te_price = px_exit_price e,
              te_quantity = px_quantity e, te_timestamp = px_exit_time e,
              te_exchange_transaction_id = None\<rparr>]\<rparr>)"
| "persist_paper_event (Exit e) d =
     (case lookup_trade (ex_trade_id e) d of
        None \<Rightarrow> d
      | Some t \<Rightarrow> (update_trade (ex_trade_id e) (\<lambda>_. exited_row e t) d)
          \<lparr>db_executions := db_executions d @
            [\<lparr>te_trade_id = ex_trade_id e, te_execution_type = ET_EXIT, te_price = ex_exit_price e,
              te_quantity = ex_quantity e, te_timestamp = ex_exit_time e,
              te_exchange_transaction_id = None\<rparr>]\<rparr>)"

section \<open>Lookups after an event\<close>

lemma paper_row_id [simp]: "tr_trade_id (paper_row p symbol source) = pp_trade_id p"
  by (simp add: paper_row_def)

lemma new_position_side [simp]: "pp_side (new_position tid sid side e t sl a b c q l r st) = side"
  by (simp add: new_position_def Let_def)

lemma lookup_persist_partial:
  "lookup_trade k (persist_paper_event (PartialExit e) d) =
     (if k = px_trade_id e then map_option (\<lambda>t. t\<lparr>tr_status := TS_PARTIALLY_CLOSED\<rparr>) (lookup_trade k d)
      else lookup_trade k d)"
  using lookup_trade_id [of "px_trade_id e" d]
  by (auto simp: lookup_trade_update split: option.splits)

lemma lookup_persist_exit:
  "lookup_trade k (persist_paper_event (Exit e) d) =
     (if k = ex_trade_id e then map_option (exited_row e) (lookup_trade k d) else lookup_trade k d)"
  using lookup_trade_id [of "ex_trade_id e" d]
  by (auto simp: lookup_trade_update exited_row_def split: option.splits)

lemma lookup_persist_other: "event_trade e \<noteq> k \<Longrightarrow> lookup_trade k (persist_paper_event e d) = lookup_trade k d"
  by (cases e) (auto simp: lookup_persist_partial lookup_persist_exit simp del: persist_paper_event.simps)

declare persist_paper_event.simps [simp del]

lemma lookup_persist_open:
  assumes "persist_paper_open p symbol source d = Inr (t, d')"
  shows "lookup_trade k d' = (if k = pp_trade_id p then Some (paper_row p symbol source) else lookup_trade k d)"
proof -
  obtain d1 where i: "insert_trade (paper_row p symbol source) d = Inr d1"
    and d': "lookup_trade k d' = lookup_trade k d1"
    using assms by (auto simp: persist_paper_open_def split: sum.splits)
  show ?thesis unfolding d' using trades.lookup_added [OF i] trades.lookup_other [OF i, of k]
    by (simp add: lookup_trade_def paper_row_def)
qed

section \<open>The mirror\<close>

definition shown_open :: "db \<Rightarrow> string \<Rightarrow> bool" where
  "shown_open d k \<longleftrightarrow> (case lookup_trade k d of None \<Rightarrow> False | Some t \<Rightarrow> tr_status t \<in> {TS_OPEN, TS_PARTIALLY_CLOSED})"

definition shown_closed :: "db \<Rightarrow> exit_event \<Rightarrow> bool" where
  "shown_closed d e \<longleftrightarrow>
     (case lookup_trade (ex_trade_id e) d of
        None \<Rightarrow> False
      | Some t \<Rightarrow> tr_status t = TS_CLOSED \<and> tr_pnl t = Some (ex_pnl e) \<and> tr_fees t = Some (ex_fees e) \<and>
          tr_exit_price t = Some (ex_exit_price e) \<and> tr_pnl_pct t = Some (ex_pnl_pct e))"

definition mirrors :: "paper_trader \<Rightarrow> db \<Rightarrow> bool" where
  "mirrors tr d \<longleftrightarrow>
     (\<forall>k \<in> set (ids tr). shown_open d k) \<and> (\<forall>e \<in> set (pt_closed_trades tr). shown_closed d e) \<and>
     (\<forall>n > pt_trade_counter tr. lookup_trade (paper_trade_id n) d = None)"

text \<open>What the events of one position say about the trader.\<close>

definition events_ok :: "string \<Rightarrow> paper_event list \<Rightarrow> paper_trader \<Rightarrow> paper_trader \<Rightarrow> bool" where
  "events_ok k evs tr tr' \<longleftrightarrow>
     (\<forall>e \<in> set evs. event_trade e = k) \<and> pt_trade_counter tr' = pt_trade_counter tr \<and>
     ((\<exists>pre ev. evs = pre @ [Exit ev] \<and> (\<forall>e \<in> set pre. \<not> is_exit e) \<and>
        pt_closed_trades tr' = pt_closed_trades tr @ [ev] \<and> ids tr' = filter (\<lambda>x. x \<noteq> k) (ids tr)) \<or>
      (\<forall>e \<in> set evs. \<not> is_exit e) \<and> pt_closed_trades tr' = pt_closed_trades tr \<and> ids tr' = ids tr)"

lemma events_ok_Cons:
  assumes "events_ok k evs tr1 tr'" "event_trade ev = k" "\<not> is_exit ev" "pt_trade_counter tr1 = pt_trade_counter tr"
    "pt_closed_trades tr1 = pt_closed_trades tr" "ids tr1 = ids tr"
  shows "events_ok k (ev # evs) tr tr'"
  using assms unfolding events_ok_def by (auto intro: exI [of _ "ev # _"])

lemma close_remaining_events:
  assumes "close_remaining now p x t r tr = (tr', Inr ev)"
  shows "events_ok (pp_trade_id p) [Exit ev] tr tr'"
  using assms by (rule close_remaining_effect) (auto simp: events_ok_def filter_map o_def)

lemma walk_targets_events:
  assumes "walk_targets now c ts p tr = (tr', evs, None)" "pp_trade_id p \<in> set (ids tr)"
  shows "events_ok (pp_trade_id p) evs tr tr'"
  using assms
proof (induction ts arbitrary: p tr tr' evs)
  case Nil
  then show ?case by (simp add: events_ok_def)
next
  case (Cons target rest)
  show ?case
  proof (cases "target_hit c p target")
    case False
    then show ?thesis using Cons.prems by (simp add: events_ok_def)
  next
    case hit: True
    show ?thesis
    proof (cases "rest = []")
      case True
      then show ?thesis using Cons.prems(1) hit close_remaining_events
        by (auto split: prod.splits sum.splits)
    next
      case False
      obtain tr1 p1 ev where pe: "partial_exit p target (cd_timestamp c) (pp_next_target_idx p) tr = (tr1, p1, ev)"
        by (metis prod_cases3)
      define p2 where "p2 = p1\<lparr>pp_next_target_idx := pp_next_target_idx p1 + 1\<rparr>"
      define tr2 where "tr2 = put_position (pp_trade_id p2) p2 tr1"
      obtain tr3 evs3 x3 where w: "walk_targets now c rest p2 tr2 = (tr3, evs3, x3)" by (metis prod_cases3)
      have res: "tr' = tr3" "evs = ev # evs3" "x3 = None"
        using Cons.prems(1) hit False pe w by (simp_all add: p2_def tr2_def Let_def)
      have p1: "pp_trade_id p1 = pp_trade_id p" "event_trade ev = pp_trade_id p" "\<not> is_exit ev"
        "tr1 = (put_position (pp_trade_id p) p1 tr)\<lparr>pt_equity := pt_equity tr1\<rparr>"
        using pe by (auto simp: partial_exit_def Let_def)
      have tr1: "ids tr1 = ids tr" "pt_closed_trades tr1 = pt_closed_trades tr" "pt_trade_counter tr1 = pt_trade_counter tr"
        using put_position_present(1) [OF Cons.prems(2), where p = p1] p1(4)
        by (metis (no_types, lifting) paper_trader.select_convs(4) paper_trader.surjective paper_trader.update_convs(3)
            put_position_fields(3,4) paper_trader.select_convs(5,6))+
      have mem: "pp_trade_id p2 \<in> set (ids tr1)" using Cons.prems(2) p1(1) tr1(1) by (simp add: p2_def)
      have tr2: "ids tr2 = ids tr" "pt_closed_trades tr2 = pt_closed_trades tr" "pt_trade_counter tr2 = pt_trade_counter tr"
        using put_position_present(1) [OF mem, where p = p2] tr1 by (simp_all add: tr2_def)
      have "events_ok (pp_trade_id p2) evs3 tr2 tr3"
        using w res mem by (intro Cons.IH) (simp_all add: tr1(1) tr2(1))
      then show ?thesis using events_ok_Cons [of "pp_trade_id p" evs3 tr2 tr' ev tr] p1 tr2
        by (simp add: res p2_def)
    qed
  qed
qed

lemma process_position_events:
  assumes "process_position now c p tr = (tr', evs, None)" "pp_trade_id p \<in> set (ids tr)"
  shows "events_ok (pp_trade_id p) evs tr tr'"
  using assms walk_targets_events [of now c _ p tr tr' evs] close_remaining_events
  by (auto simp: process_position_def split: if_splits prod.splits sum.splits)

section \<open>The simulation\<close>

lemma fold_persist_other:
  "(\<And>e. e \<in> set evs \<Longrightarrow> event_trade e \<noteq> k) \<Longrightarrow> lookup_trade k (fold persist_paper_event evs d) = lookup_trade k d"
  by (induction evs arbitrary: d) (simp_all add: lookup_persist_other)

lemma fold_persist_partials:
  "(\<And>e. e \<in> set evs \<Longrightarrow> event_trade e = k \<and> \<not> is_exit e) \<Longrightarrow> shown_open d k \<Longrightarrow>
     shown_open (fold persist_paper_event evs d) k"
proof (induction evs arbitrary: d)
  case (Cons e evs)
  obtain x where e: "e = PartialExit x" using Cons.prems(1) [of e] by (cases e) auto
  have "shown_open (persist_paper_event e d) k"
    using Cons.prems(2) by (auto simp: e shown_open_def lookup_persist_partial split: option.splits)
  then show ?case using Cons by simp
qed simp

lemma shown_open_cong: "lookup_trade k d' = lookup_trade k d \<Longrightarrow> shown_open d' k = shown_open d k"
  by (simp add: shown_open_def)

lemma shown_closed_cong: "lookup_trade (ex_trade_id e) d' = lookup_trade (ex_trade_id e) d \<Longrightarrow> shown_closed d' e = shown_closed d e"
  by (simp add: shown_closed_def)

lemma persist_exit_closed:
  "shown_open d (ex_trade_id ev) \<Longrightarrow> shown_closed (persist_paper_event (Exit ev) d) ev"
  by (auto simp: shown_open_def shown_closed_def lookup_persist_exit exited_row_def split: option.splits)

lemma mirrors_events:
  assumes inv: "trader_inv tr" and m: "mirrors tr d" and k: "k \<in> set (ids tr)" and ev: "events_ok k evs tr tr'"
  shows "mirrors tr' (fold persist_paper_event evs d)"
proof -
  let ?d = "fold persist_paper_event evs d"
  have tid: "\<And>e. e \<in> set evs \<Longrightarrow> event_trade e = k" and counter: "pt_trade_counter tr' = pt_trade_counter tr"
    using ev by (auto simp: events_ok_def)
  have other: "lookup_trade j ?d = lookup_trade j d" if "j \<noteq> k" for j
    using that tid by (intro fold_persist_other) auto
  have ids: "ids_ok (ids tr) (closed_ids tr) (pt_trade_counter tr)" using inv by (simp add: trader_inv_def)
  have old: "ex_trade_id e \<noteq> k" if "e \<in> set (pt_closed_trades tr)" for e
    using that k ids by (auto simp: ids_ok_def)
  have fresh: "paper_trade_id n \<noteq> k" if "n > pt_trade_counter tr" for n
  proof
    assume n: "paper_trade_id n = k"
    have "k \<in> paper_trade_id ` {1..pt_trade_counter tr}" using k ids by (auto simp: ids_ok_def)
    then show False using that n by (auto dest: paper_trade_id_inj)
  qed
  have closed: "shown_closed ?d e" if "e \<in> set (pt_closed_trades tr)" for e
    using that m other [OF old [OF that]] by (simp add: mirrors_def shown_closed_cong [of e ?d d])
  have opens: "shown_open ?d j" if "j \<in> set (ids tr)" "j \<noteq> k" for j
  proof -
    have "shown_open d j" using that(1) m unfolding mirrors_def by blast
    then show ?thesis by (simp add: shown_open_cong [OF other [OF that(2)]])
  qed
  have ok: "shown_open d k" using m k unfolding mirrors_def by blast
  consider pre e where "evs = pre @ [Exit e]" "\<forall>e \<in> set pre. \<not> is_exit e"
      "pt_closed_trades tr' = pt_closed_trades tr @ [e]" "ids tr' = filter (\<lambda>x. x \<noteq> k) (ids tr)"
    | "\<forall>e \<in> set evs. \<not> is_exit e" "pt_closed_trades tr' = pt_closed_trades tr" "ids tr' = ids tr"
    using ev unfolding events_ok_def by blast
  then show ?thesis
  proof cases
    case 1
    have "shown_open (fold persist_paper_event pre d) k"
      using 1 tid ok by (intro fold_persist_partials) auto
    moreover have "ex_trade_id e = k" using tid [of "Exit e"] 1(1) by simp
    ultimately have "shown_closed ?d e" using persist_exit_closed [of "fold persist_paper_event pre d" e] 1(1)
      by simp
    then show ?thesis using closed opens m fresh other
      by (auto simp: mirrors_def 1 counter)
  next
    case 2
    have "shown_open ?d k" using 2 tid ok by (intro fold_persist_partials) auto
    then show ?thesis using closed opens m fresh other
      by (auto simp: mirrors_def 2 counter)
  qed
qed

lemma mirrors_positions:
  assumes "process_positions now c ps tr = (tr', evs, None)" "trader_inv tr" "mirrors tr d"
    and "\<And>p. p \<in> set ps \<Longrightarrow> (pp_trade_id p, p) \<in> set (pt_positions tr)" "distinct (map pp_trade_id ps)"
  shows "mirrors tr' (fold persist_paper_event evs d)"
  using assms
proof (induction ps arbitrary: tr tr' evs d)
  case Nil
  then show ?case by simp
next
  case (Cons p ps)
  obtain tr1 evs1 x1 where s: "process_position now c p tr = (tr1, evs1, x1)" by (metis prod_cases3)
  obtain tr2 evs2 x2 where r: "process_positions now c ps tr1 = (tr2, evs2, x2)" by (metis prod_cases3)
  have x: "x1 = None" "x2 = None" "tr' = tr2" "evs = evs1 @ evs2"
    using Cons.prems(1) s r by (auto split: option.splits)
  have mem: "(pp_trade_id p, p) \<in> set (pt_positions tr)" using Cons.prems(4) by simp
  then have k: "pp_trade_id p \<in> set (ids tr)" by force
  note eff = process_position_effect [OF s Cons.prems(2) mem]
  have keep: "(pp_trade_id q, q) \<in> set (pt_positions tr1)" if "q \<in> set ps" for q
  proof -
    have "(pp_trade_id q, q) \<in> set (others (pp_trade_id p) tr)"
      using that Cons.prems(4) [of q] Cons.prems(5) by (auto simp: image_iff)
    then have "(pp_trade_id q, q) \<in> set (others (pp_trade_id p) tr1)" using eff(2) by simp
    then show ?thesis by simp
  qed
  have "mirrors tr1 (fold persist_paper_event evs1 d)"
    using process_position_events [OF s [unfolded x(1)] k] by (rule mirrors_events [OF Cons.prems(2,3) k])
  then have "mirrors tr2 (fold persist_paper_event evs2 (fold persist_paper_event evs1 d))"
    using Cons.prems(5) by (intro Cons.IH [OF r [unfolded x(2)] eff(1) _ keep]) simp_all
  then show ?case by (simp add: x)
qed

lemma mirrors_candle:
  assumes inv: "trader_inv tr" and m: "mirrors tr d" and p: "process_candle now c tr = (tr', Inr evs)"
  shows "mirrors tr' (fold persist_paper_event evs d)"
proof (cases "pt_is_paused tr")
  case True
  then show ?thesis using p m by (simp add: process_candle_def)
next
  case False
  then have r: "process_positions now c (map snd (pt_positions tr)) tr = (tr', evs, None)"
    using p by (auto simp: process_candle_def split: prod.splits option.splits)
  have keys: "map pp_trade_id (map snd (pt_positions tr)) = ids tr"
    using inv by (simp add: trader_inv_def entries_ok_def)
  have "distinct (ids tr)" using inv by (simp add: trader_inv_def ids_ok_def)
  then show ?thesis
    by (intro mirrors_positions [OF r inv m])
      (use inv in \<open>fastforce simp: trader_inv_def entries_ok_def\<close>, simp only: keys)
qed

lemma mirrors_risk [simp]: "mirrors (tr\<lparr>pt_risk := r\<rparr>) d = mirrors tr d"
  by (simp add: mirrors_def)

lemma put_position_positions [simp]:
  "pt_positions (put_position k p (tr\<lparr>pt_risk := r, pt_trade_counter := n\<rparr>)) = pt_positions (put_position k p tr)"
  "pt_positions (put_position k p (tr\<lparr>pt_trade_counter := n, pt_risk := r\<rparr>)) = pt_positions (put_position k p tr)"
  by (simp_all add: put_position_def)

lemma open_returns_position:
  assumes "open_paper_position now sg tr = Inr (tr', r)"
  shows "case r of None \<Rightarrow> mirrors tr' d = mirrors tr d
    | Some p \<Rightarrow> pp_trade_id p = paper_trade_id (pt_trade_counter tr + 1) \<and> pp_side p = sg_signal_type sg \<and>
        pt_trade_counter tr' = pt_trade_counter tr + 1 \<and> pt_closed_trades tr' = pt_closed_trades tr \<and>
        pt_positions tr' = pt_positions (put_position (paper_trade_id (pt_trade_counter tr + 1)) p tr)"
proof -
  obtain risk ok v where g: "can_trade now (pt_risk tr) = (risk, ok, v)" by (metis prod_cases3)
  show ?thesis
    using assms g
    by (cases "sg_entry_price sg"; cases "sg_stop_loss sg"; cases "sg_take_profit_1 sg")
      (auto simp: open_paper_position_def Let_def split: if_splits sum.splits)
qed

lemma mirrors_open:
  assumes inv: "trader_inv tr" and m: "mirrors tr d" and o: "open_paper_position now sg tr = Inr (tr', Some p)"
  shows "\<exists>t d'. persist_paper_open p symbol source d = Inr (t, d') \<and> mirrors tr' d'"
proof -
  let ?k = "paper_trade_id (pt_trade_counter tr + 1)"
  note r = open_returns_position [OF o, simplified]
  have none: "lookup_trade ?k d = None" using m by (simp add: mirrors_def)
  have "\<exists>d1. insert_trade (paper_row p symbol source) d = Inr d1"
    using none by (simp add: trades.add_row_iff lookup_trade_def paper_row_def r)
  then obtain t d' where pd: "persist_paper_open p symbol source d = Inr (t, d')"
    by (auto simp: persist_paper_open_def)
  note look = lookup_persist_open [OF pd]
  have ids: "ids_ok (ids tr) (closed_ids tr) (pt_trade_counter tr)" using inv by (simp add: trader_inv_def)
  have fresh: "?k \<notin> set (ids tr @ closed_ids tr)" using ids_ok_fresh [OF ids] by simp
  then have "ids tr' = ids tr @ [?k]" using r by (simp add: put_position_fresh)
  moreover have "shown_open d' ?k" using look r by (simp add: shown_open_def paper_row_def)
  moreover have "shown_open d' j" if "j \<in> set (ids tr)" for j
  proof -
    have "j \<noteq> ?k" using that fresh by (metis UnI1 set_append)
    then have "lookup_trade j d' = lookup_trade j d" using look r by simp
    moreover have "shown_open d j" using that m unfolding mirrors_def by blast
    ultimately show ?thesis by (simp add: shown_open_cong [of j d' d])
  qed
  moreover have "shown_closed d' e" if "e \<in> set (pt_closed_trades tr)" for e
  proof -
    have "ex_trade_id e \<in> set (closed_ids tr)" using that by simp
    then have "ex_trade_id e \<noteq> ?k" using fresh by (metis UnI2 set_append)
    then have "lookup_trade (ex_trade_id e) d' = lookup_trade (ex_trade_id e) d" using look r by simp
    then show ?thesis using that m by (simp add: mirrors_def shown_closed_cong [of e d' d])
  qed
  moreover have "lookup_trade (paper_trade_id n) d' = None" if "n > pt_trade_counter tr'" for n
    using that look r m by (auto simp: mirrors_def dest: paper_trade_id_inj)
  ultimately have "mirrors tr' d'" using r by (auto simp: mirrors_def)
  then show ?thesis using pd by blast
qed

text \<open>The paper trader and its table driven together, as the trading job drives them.\<close>

datatype paper_op = PJ_open datetime signal string trade_source | PJ_candle datetime candle

fun paper_step :: "paper_op \<Rightarrow> paper_trader \<times> db \<Rightarrow> (paper_trader \<times> db) result" where
  "paper_step (PJ_open now sg symbol source) (tr, d) =
     (case open_paper_position now sg tr of
        Inl x \<Rightarrow> Inl x
      | Inr (tr', None) \<Rightarrow> Inr (tr', d)
      | Inr (tr', Some p) \<Rightarrow> (case persist_paper_open p symbol source d of
          Inl x \<Rightarrow> Inl x | Inr (_, d') \<Rightarrow> Inr (tr', d')))"
| "paper_step (PJ_candle now c) (tr, d) =
     (case process_candle now c tr of
        (tr', Inl x) \<Rightarrow> Inl x
      | (tr', Inr evs) \<Rightarrow> Inr (tr', fold persist_paper_event evs d))"

fun paper_steps :: "paper_op list \<Rightarrow> paper_trader \<times> db \<Rightarrow> (paper_trader \<times> db) result" where
  "paper_steps [] s = Inr s"
| "paper_steps (op # ops) s = (case paper_step op s of Inl x \<Rightarrow> Inl x | Inr s' \<Rightarrow> paper_steps ops s')"

lemma paper_step_mirrors:
  assumes "paper_step op (tr, d) = Inr (tr', d')" "trader_inv tr" "mirrors tr d"
  shows "trader_inv tr' \<and> mirrors tr' d'"
proof (cases op)
  case (PJ_open now sg symbol source)
  then obtain tr1 r where o: "open_paper_position now sg tr = Inr (tr1, r)"
    using assms(1) by (cases "open_paper_position now sg tr") auto
  have inv: "trader_inv tr1" using open_paper_position_inv [OF assms(2) o] by simp
  show ?thesis
  proof (cases r)
    case None
    then show ?thesis using assms PJ_open o inv open_returns_position [OF o, of d] by simp
  next
    case (Some p)
    then show ?thesis using assms PJ_open o inv mirrors_open [OF assms(2,3) o [unfolded Some], of symbol source]
      by auto
  qed
next
  case (PJ_candle now c)
  then show ?thesis
    using assms process_candle_inv(1) [OF assms(2), of now c] mirrors_candle [OF assms(2,3), of now c tr']
    by (auto split: prod.splits sum.splits)
qed

lemma paper_steps_mirrors:
  "paper_steps ops (tr, d) = Inr (tr', d') \<Longrightarrow> trader_inv tr \<Longrightarrow> mirrors tr d \<Longrightarrow> trader_inv tr' \<and> mirrors tr' d'"
proof (induction ops arbitrary: tr d)
  case (Cons op ops)
  then show ?case using paper_step_mirrors [of op tr d] by (auto split: sum.splits)
qed simp

section \<open>Properties\<close>

text \<open>
  C4: The table mirrors the trader.  Starting from a fresh trader and a table that holds none of
  its identifiers, after any sequence of openings and candles whose decisions are persisted, every
  position the trader holds is shown as open or partially closed, and every trade it has closed is
  shown as closed with exactly the profit, percentage, fees and exit price the trader reported.
\<close>

theorem paper_table_mirrors:
  assumes "\<And>n. lookup_trade (paper_trade_id n) d = None"
    and "paper_steps ops (new_paper_trader config eq today, d) = Inr (tr', d')"
  shows "(\<forall>k \<in> fst ` set (pt_positions tr'). shown_open d' k) \<and> (\<forall>e \<in> set (pt_closed_trades tr'). shown_closed d' e)"
proof -
  have "mirrors (new_paper_trader config eq today) d"
    using assms(1) by (simp add: mirrors_def new_paper_trader_def)
  then show ?thesis using paper_steps_mirrors [OF assms(2) trader_inv_new] by (simp add: mirrors_def)
qed

definition demo_signal :: signal where
  "demo_signal = \<lparr>sg_signal_id = ''SIG-1'', sg_timestamp = 0, sg_symbol = ''BTC/USDT'', sg_signal_type = ''LONG'',
     sg_confidence = 1, sg_entry_price = Some 100, sg_stop_loss = Some 95, sg_take_profit_1 = Some 110,
     sg_take_profit_2 = None, sg_take_profit_3 = None, sg_risk_reward = Some 2, sg_market_regime = ''TREND'',
     sg_is_active = True, sg_quality = None, sg_strategy_name = None, sg_timeframe = Some ''4h'', sg_model_version = None\<rparr>"

lemma demo_open:
  obtains tr' p where "open_paper_position 0 demo_signal (new_paper_trader default_risk_config 10000 0) = Inr (tr', Some p)"
proof -
  have e: "reset_daily 0 (new_risk_engine default_risk_config 10000 0) = new_risk_engine default_risk_config 10000 0"
    by (simp add: reset_daily_def new_risk_engine_def dt_date_def)
  have size: "calculate_position_size (new_risk_engine default_risk_config 10000 0) 100 95 1 = Inr 10"
    by code_simp
  have gate: "can_trade 0 (new_risk_engine default_risk_config 10000 0) = (new_risk_engine default_risk_config 10000 0, True, V_OK)"
    by (simp add: can_trade_def Let_def e)
      (simp add: new_risk_engine_def new_risk_state_def default_risk_config_def cooling_down_def)
  have lev: "min 1 (rc_max_leverage (re_config (new_risk_engine default_risk_config 10000 0))) = 1"
    by (simp add: new_risk_engine_def default_risk_config_def)
  show thesis
    by (rule that) (simp add: open_paper_position_def new_paper_trader_def gate Let_def demo_signal_def size lev)
qed

theorem paper_table_mirrors_witness:
  "\<exists>tr' d'. paper_steps [PJ_open 0 demo_signal ''BTC/USDT'' SRC_AI_PAPER]
       (new_paper_trader default_risk_config 10000 0, empty_db) = Inr (tr', d') \<and>
     paper_trade_id 1 \<in> fst ` set (pt_positions tr') \<and> shown_open d' (paper_trade_id 1)"
proof -
  let ?tr = "new_paper_trader default_risk_config 10000 0"
  have none: "lookup_trade (paper_trade_id n) empty_db = None" for n
    by (simp add: lookup_trade_def lookup_by_def empty_db_def)
  obtain tr' p where o: "open_paper_position 0 demo_signal ?tr = Inr (tr', Some p)" by (rule demo_open)
  have "mirrors ?tr empty_db" using none by (simp add: mirrors_def new_paper_trader_def)
  then obtain t d' where "persist_paper_open p ''BTC/USDT'' SRC_AI_PAPER empty_db = Inr (t, d')"
    using mirrors_open [OF trader_inv_new _ o] by blast
  then have steps: "paper_steps [PJ_open 0 demo_signal ''BTC/USDT'' SRC_AI_PAPER] (?tr, empty_db) = Inr (tr', d')"
    by (simp add: o)
  have mem: "paper_trade_id 1 \<in> fst ` set (pt_positions tr')"
    using open_returns_position [OF o] by (simp add: new_paper_trader_def put_position_def)
  then have "shown_open d' (paper_trade_id 1)"
    using paper_table_mirrors [OF none steps] by blast
  with steps mem show ?thesis by blast
qed

text \<open>
  A restart collides.  The counter behind the identifiers restarts at zero with the process:
  if the table already holds the first identifier, the first position that a restarted trader
  opens is in its book, but persisting it raises IntegrityError.
\<close>

theorem paper_restart_collides:
  assumes "lookup_trade (paper_trade_id 1) d = Some t"
    and "open_paper_position now sg (new_paper_trader config eq today) = Inr (tr', Some p)"
  shows "persist_paper_open p symbol source d = Inl IntegrityError \<and> map fst (pt_positions tr') = [paper_trade_id 1]"
proof -
  note r = open_returns_position [OF assms(2), simplified]
  have id: "pp_trade_id p = paper_trade_id 1" using r by (simp add: new_paper_trader_def)
  have "tr_trade_id (paper_row p symbol source) \<in> tr_trade_id ` set (db_trades d)"
    using lookup_trade_id [OF assms(1)] id by (metis image_eqI paper_row_id)
  then have "insert_trade (paper_row p symbol source) d = Inl IntegrityError" by (rule trades.add_duplicate)
  moreover have "map fst (pt_positions tr') = [paper_trade_id 1]"
    using r by (simp add: new_paper_trader_def put_position_def)
  ultimately show ?thesis by (simp add: persist_paper_open_def)
qed

theorem paper_restart_collides_witness:
  "\<exists>tr' p. open_paper_position 0 demo_signal (new_paper_trader default_risk_config 10000 0) = Inr (tr', Some p) \<and>
     persist_paper_open p ''BTC/USDT'' SRC_AI_PAPER
       (empty_db\<lparr>db_trades := [default_trade\<lparr>tr_trade_id := paper_trade_id 1\<rparr>]\<rparr>) = Inl IntegrityError"
proof -
  obtain tr' p where o: "open_paper_position 0 demo_signal (new_paper_trader default_risk_config 10000 0) = Inr (tr', Some p)"
    by (rule demo_open)
  have "lookup_trade (paper_trade_id 1) (empty_db\<lparr>db_trades := [default_trade\<lparr>tr_trade_id := paper_trade_id 1\<rparr>]\<rparr>)
      = Some (default_trade\<lparr>tr_trade_id := paper_trade_id 1\<rparr>)"
    by (simp add: lookup_trade_def lookup_by_def)
  from paper_restart_collides [OF this o] o show ?thesis by blast
qed

end
