(* ===== verification/ModelMonitor.thy ===== *)
theory ModelMonitor
  imports PaperPersistence
begin

text \<open>
  \<open>services/model_monitor/monitor.py\<close>: the health of the AI paper trading, read from the last closed paper trades and the
  last predictions.  A disabled model is refused new positions by the paper trading job.
\<close>

datatype model_health = MH_HEALTHY | MH_WARNING | MH_DEGRADED | MH_DISABLED

datatype health_reason = HR_DISABLED nat | HR_DEGRADED nat | HR_WARNING nat | HR_DOMINANT nat string

record health_report =
  hr_status :: model_health
  hr_reasons :: "health_reason list"
  hr_recent_paper_trades :: nat
  hr_recent_win_rate :: "f64 option"
  hr_recent_profit_factor :: "f64 option"
  hr_recent_max_drawdown_pct :: "f64 option"
  hr_class_distribution :: "(string \<times> f64) list option"
  hr_lookback_trades :: nat

definition MIN_TRADES_FOR_EVALUATION :: nat where "MIN_TRADES_FOR_EVALUATION = 15"
definition LOOKBACK_TRADES :: nat where "LOOKBACK_TRADES = 30"
definition DISABLED_PF_THRESHOLD :: f64 where "DISABLED_PF_THRESHOLD = fl (4/10)"
definition DISABLED_DRAWDOWN_PCT :: f64 where "DISABLED_DRAWDOWN_PCT = 25"
definition DEGRADED_PF_THRESHOLD :: f64 where "DEGRADED_PF_THRESHOLD = fl (7/10)"
definition DEGRADED_DRAWDOWN_PCT :: f64 where "DEGRADED_DRAWDOWN_PCT = 15"
definition WARNING_PF_THRESHOLD :: f64 where "WARNING_PF_THRESHOLD = 1"
definition WARNING_DRAWDOWN_PCT :: f64 where "WARNING_DRAWDOWN_PCT = 10"
definition PREDICTION_CLASS_IMBALANCE_WARNING :: f64 where "PREDICTION_CLASS_IMBALANCE_WARNING = fl (9/10)"
definition DRAWDOWN_REFERENCE_EQUITY :: f64 where "DRAWDOWN_REFERENCE_EQUITY = 10000"

text \<open>The last closed paper trades of the AI, the latest first.  A closed trade has a time of exit.\<close>

definition recent_ai_trades :: "db \<Rightarrow> trade list" where
  "recent_ai_trades d =
     take LOOKBACK_TRADES (order_desc tr_exit_time
       (filter (\<lambda>t. tr_mode t = ''paper'' \<and> tr_source t = SRC_AI_PAPER \<and> tr_status t = TS_CLOSED) (db_trades d)))"

text \<open>A sum of columns: a missing number raises.\<close>

definition sum_pnl :: "trade list \<Rightarrow> f64 result" where
  "sum_pnl ts = (if \<exists>t \<in> set ts. tr_pnl t = None then Inl TypeError else Inr (fsum (map (\<lambda>t. the (tr_pnl t)) ts)))"

definition drawdown_step :: "f64 \<times> f64 \<times> f64 \<Rightarrow> f64 \<Rightarrow> f64 \<times> f64 \<times> f64" where
  "drawdown_step = (\<lambda>(equity, peak, worst) pnl.
     let equity = fadd equity pnl; peak = max peak equity
     in (equity, peak, if 0 < peak then max worst (fmul (fdiv (fsub peak equity) peak) 100) else worst))"

definition trade_drawdown :: "trade list \<Rightarrow> f64" where
  "trade_drawdown ts =
     (case foldl drawdown_step (DRAWDOWN_REFERENCE_EQUITY, DRAWDOWN_REFERENCE_EQUITY, 0)
             (map (\<lambda>t. or_zero (tr_pnl t)) (sort_key tr_exit_time ts)) of
        (_, _, worst) \<Rightarrow> worst)"

definition trade_profit_factor :: "trade list \<Rightarrow> f64 option result" where
  "trade_profit_factor ts =
     (let wins = filter (\<lambda>t. 0 < or_zero (tr_pnl t)) ts; losses = filter (\<lambda>t. or_zero (tr_pnl t) \<le> 0) ts
      in case (sum_pnl wins, sum_pnl losses) of
           (Inr gross_profit, Inr lost) \<Rightarrow>
             let gross_loss = \<bar>lost\<bar> in Inr (if 0 < gross_loss then Some (fdiv gross_profit gross_loss) else None)
         | (Inl x, _) \<Rightarrow> Inl x
         | (_, Inl x) \<Rightarrow> Inl x)"

definition health_breach :: "f64 option \<Rightarrow> f64 \<Rightarrow> f64 \<Rightarrow> f64 \<Rightarrow> bool" where
  "health_breach pf dd pf_threshold dd_threshold \<longleftrightarrow>
     (case pf of None \<Rightarrow> False | Some p \<Rightarrow> p < pf_threshold) \<or> dd_threshold \<le> dd"

definition trade_health :: "f64 option \<Rightarrow> f64 \<Rightarrow> model_health" where
  "trade_health pf dd =
     (if health_breach pf dd DISABLED_PF_THRESHOLD DISABLED_DRAWDOWN_PCT then MH_DISABLED
      else if health_breach pf dd DEGRADED_PF_THRESHOLD DEGRADED_DRAWDOWN_PCT then MH_DEGRADED
      else if health_breach pf dd WARNING_PF_THRESHOLD WARNING_DRAWDOWN_PCT then MH_WARNING
      else MH_HEALTHY)"

fun health_reasons :: "nat \<Rightarrow> model_health \<Rightarrow> health_reason list" where
  "health_reasons n MH_DISABLED = [HR_DISABLED n]"
| "health_reasons n MH_DEGRADED = [HR_DEGRADED n]"
| "health_reasons n MH_WARNING = [HR_WARNING n]"
| "health_reasons n MH_HEALTHY = []"

definition health_of_trades :: "trade list \<Rightarrow> health_report result" where
  "health_of_trades ts =
     (let n = length ts;
          blank = \<lparr>hr_status = MH_HEALTHY, hr_reasons = [], hr_recent_paper_trades = 0, hr_recent_win_rate = None,
                   hr_recent_profit_factor = None, hr_recent_max_drawdown_pct = None, hr_class_distribution = None,
                   hr_lookback_trades = n\<rparr>
      in if n < MIN_TRADES_FOR_EVALUATION then Inr blank
         else case trade_profit_factor ts of
           Inl x \<Rightarrow> Inl x
         | Inr pf \<Rightarrow>
             let dd = trade_drawdown ts; wins = length (filter (\<lambda>t. 0 < or_zero (tr_pnl t)) ts);
                 win_rate = fmul (fdiv (float_of_int (int wins)) (float_of_int (int n))) 100;
                 status = trade_health pf dd
             in Inr (blank\<lparr>hr_status := status, hr_reasons := health_reasons n status, hr_recent_paper_trades := n,
                  hr_recent_win_rate := Some (pyround 2 win_rate), hr_recent_profit_factor := map_option (pyround 2) pf,
                  hr_recent_max_drawdown_pct := Some (pyround 2 dd)\<rparr>))"

text \<open>\<open>counts[k] = counts.get(k, 0) + 1\<close> on a dictionary in insertion order.\<close>

definition count_class :: "string \<Rightarrow> (string \<times> nat) list \<Rightarrow> (string \<times> nat) list" where
  "count_class k kvs =
     (if k \<in> fst ` set kvs then map (\<lambda>(j, v). (j, if j = k then v + 1 else v)) kvs else kvs @ [(k, 1)])"

definition class_counts :: "prediction list \<Rightarrow> (string \<times> nat) list" where
  "class_counts ps =
     fold (\<lambda>p. count_class (pr_signal_type p)) ps [(''LONG'', 0), (''SHORT'', 0), (''NO_TRADE'', 0)]"

text \<open>The first key with the greatest value.\<close>

definition dominant_class :: "(string \<times> f64) list \<Rightarrow> string \<times> f64" where
  "dominant_class kvs = foldl (\<lambda>best kv. if snd best < snd kv then kv else best) (hd kvs) (tl kvs)"

definition with_predictions :: "prediction list \<Rightarrow> health_report \<Rightarrow> health_report" where
  "with_predictions ps report =
     (if length ps < MIN_TRADES_FOR_EVALUATION then report
      else let n = length ps;
               distribution = map (\<lambda>(k, v). (k, pyround 3 (fdiv (float_of_int (int v)) (float_of_int (int n))))) (class_counts ps);
               (dominant, share) = dominant_class distribution;
               report = report\<lparr>hr_class_distribution := Some distribution\<rparr>
      in if PREDICTION_CLASS_IMBALANCE_WARNING \<le> share
         then report\<lparr>hr_status := (if hr_status report = MH_HEALTHY then MH_WARNING else hr_status report),
                     hr_reasons := hr_reasons report @ [HR_DOMINANT n dominant]\<rparr>
         else report)"

definition evaluate_model_health :: "db \<Rightarrow> health_report result" where
  "evaluate_model_health d =
     (case health_of_trades (recent_ai_trades d) of
        Inl x \<Rightarrow> Inl x
      | Inr report \<Rightarrow> Inr (with_predictions (take LOOKBACK_TRADES (order_desc pr_timestamp (db_predictions d))) report))"

section \<open>A losing model\<close>

lemma foldl_losses:
  assumes "\<forall>x \<in> set xs. x \<le> 0 \<and> fl x = x" "s \<le> 0" "fl s = s"
  shows "foldl fadd s xs \<le> s \<and> (\<forall>x \<in> set xs. foldl fadd s xs \<le> x)"
  using assms
proof (induction xs arbitrary: s)
  case (Cons x xs)
  have x: "x \<le> 0" "fl x = x" using Cons.prems(1) by simp_all
  have "fadd s x \<le> fl s" unfolding fadd_def by (rule fl_mono) (use x in simp)
  moreover have "fadd s x \<le> fl x" unfolding fadd_def by (rule fl_mono) (use Cons.prems(2) in simp)
  ultimately have "fadd s x \<le> s" "fadd s x \<le> x" using x Cons.prems(3) by simp_all
  moreover have "foldl fadd (fadd s x) xs \<le> fadd s x \<and> (\<forall>y \<in> set xs. foldl fadd (fadd s x) xs \<le> y)"
    using Cons.prems calculation by (intro Cons.IH) (auto simp: fadd_def fl_idem)
  ultimately show ?case by auto
qed simp

lemma losing_trades_disabled:
  assumes "15 \<le> length ts" "\<forall>t \<in> set ts. \<exists>x. tr_pnl t = Some x \<and> x \<le> 0 \<and> fl x = x" "t0 \<in> set ts" "tr_pnl t0 \<noteq> Some 0"
  shows "\<exists>r. health_of_trades ts = Inr r \<and> hr_status r = MH_DISABLED"
proof -
  have none: "filter (\<lambda>t. 0 < or_zero (tr_pnl t)) ts = []" "filter (\<lambda>t. or_zero (tr_pnl t) \<le> 0) ts = ts"
    using assms(2) by (fastforce simp: filter_empty_conv filter_id_conv or_zero_def)+
  define lost where "lost = fsum (map (\<lambda>t. the (tr_pnl t)) ts)"
  obtain x where x: "tr_pnl t0 = Some x" "x < 0" using assms(2-4) by (metis order_le_less)
  have "\<forall>y \<in> set (map (\<lambda>t. the (tr_pnl t)) ts). y \<le> 0 \<and> fl y = y" using assms(2) by fastforce
  then have "lost \<le> x"
    using foldl_losses [of "map (\<lambda>t. the (tr_pnl t)) ts" 0] assms(3) x(1) by (force simp: lost_def fsum_def)
  then have neg: "lost < 0" using x(2) by simp
  have "sum_pnl ts = Inr lost" using assms(2) by (fastforce simp: sum_pnl_def lost_def)
  then have "trade_profit_factor ts = Inr (Some 0)"
    using neg none by (simp add: trade_profit_factor_def Let_def sum_pnl_def)
  moreover have "0 < DISABLED_PF_THRESHOLD" by code_simp
  ultimately show ?thesis
    using assms(1) by (simp add: health_of_trades_def Let_def MIN_TRADES_FOR_EVALUATION_def trade_health_def health_breach_def)
qed

lemma with_predictions_disabled: "hr_status (with_predictions ps r) = MH_DISABLED \<longleftrightarrow> hr_status r = MH_DISABLED"
  by (simp add: with_predictions_def Let_def case_prod_beta)

end
