(* ===== verification/AiPaper.thy ===== *)
theory AiPaper
  imports Regime ModelMonitor
begin

text \<open>
  \<open>services/signal_engine/ai_orchestrator.py\<close> and the paper trading job of
  \<open>services/scheduler/jobs.py\<close>: each signal of the last closed candle is enriched with what a deployed
  model says of it and offered to the paper trader.  The trained model (its file, the assembly of
  its features and \<open>predict_proba\<close>) and the average true range that pandas computes are parameters.

  When storing a prediction fails, the session's transaction is rolled back, which expires every
  object it loaded; the handler does not roll the session back, and the next use of the signal, just
  after it, has to load it again, which the session refuses: \<open>PendingRollbackError\<close>.
\<close>

section \<open>The deployed model\<close>

definition DEPLOYED_MODEL_KEY :: string where "DEPLOYED_MODEL_KEY = ''deployed_model_metadata''"

record deployed_model =
  dm_predict :: "bar list \<Rightarrow> (f64 \<times> f64 \<times> f64) option result"
  dm_version :: "string option"
  dm_feature_version :: "string option"
  dm_tp_atr_multiple :: f64
  dm_sl_atr_multiple :: f64

text \<open>The process-wide cache: what was found at the first look stays until the process restarts.\<close>

record model_cache =
  mc_loaded :: bool
  mc_model :: "deployed_model option"

record ai_env =
  ae_load :: "json \<Rightarrow> deployed_model option"
  ae_atr :: "bar list \<Rightarrow> f64 option"
  ae_pandas :: pandas

record ai_world =
  aw_trader :: paper_trader
  aw_db :: db
  aw_cache :: model_cache

definition load_deployed_model :: "ai_env \<Rightarrow> ai_world \<Rightarrow> deployed_model option \<times> ai_world" where
  "load_deployed_model E w =
     (if mc_loaded (aw_cache w) then (mc_model (aw_cache w), w)
      else let model = (case bot_get (aw_db w) DEPLOYED_MODEL_KEY of None \<Rightarrow> None | Some meta \<Rightarrow> ae_load E meta)
      in (model, w\<lparr>aw_cache := \<lparr>mc_loaded = True, mc_model = model\<rparr>\<rparr>))"

section \<open>Evidence\<close>

definition expected_value_r :: "f64 \<Rightarrow> f64 \<Rightarrow> f64 \<Rightarrow> f64 \<Rightarrow> f64" where
  "expected_value_r p_favorable reward_r risk_r cost_haircut_r =
     fsub (fsub (fmul p_favorable reward_r) (fmul (fsub 1 p_favorable) risk_r)) cost_haircut_r"

datatype ai_confidence = CALIBRATED_PROBABILITY f64 | QUALITY_TIER string

record ai_evidence =
  av_probabilities :: "(f64 \<times> f64 \<times> f64) option"
  av_expected_return :: "f64 option"
  av_model_version :: "string option"
  av_model_backed :: bool

record ai_decision =
  ad_symbol :: string
  ad_timeframe :: string
  ad_strategy :: "string option"
  ad_direction :: string
  ad_evidence :: ai_evidence
  ad_expected_volatility :: "f64 option"
  ad_regime :: string
  ad_confidence :: ai_confidence
  ad_entry :: f64
  ad_stop_loss :: "f64 option"
  ad_take_profit_1 :: "f64 option"
  ad_take_profit_2 :: "f64 option"
  ad_take_profit_3 :: "f64 option"
  ad_risk_reward :: "f64 option"
  ad_timestamp :: datetime

text \<open>The favoured class; at equal probabilities the earlier of short, none and long.\<close>

definition predicted_class :: "f64 \<times> f64 \<times> f64 \<Rightarrow> string" where
  "predicted_class = (\<lambda>(s, n, l).
     if s < n then (if n < l then ''LONG'' else ''NO_TRADE'') else if s < l then ''LONG'' else ''SHORT'')"

definition new_prediction :: "signal \<Rightarrow> string \<Rightarrow> string \<Rightarrow> deployed_model \<Rightarrow> f64 \<times> f64 \<times> f64 \<Rightarrow> prediction" where
  "new_prediction sg symbol regime m = (\<lambda>(s, n, l).
     \<lparr>pr_signal_id = sg_signal_id sg, pr_timestamp = sg_timestamp sg, pr_symbol = symbol,
      pr_signal_type = predicted_class (s, n, l), pr_long_probability = l, pr_short_probability = s,
      pr_no_trade_probability = n, pr_confidence = max l (max s n), pr_market_regime = regime,
      pr_model_version = dm_version m, pr_feature_version = dm_feature_version m\<rparr>)"

definition favourable :: "signal \<Rightarrow> f64 \<times> f64 \<times> f64 \<Rightarrow> f64" where
  "favourable sg = (\<lambda>(s, n, l). if sg_signal_type sg = ''LONG'' then l else s)"

text \<open>
  Every exception of the model's evaluation is caught, and what was assigned before it stays assigned; only the failed
  insert of the prediction also costs the session.
\<close>

definition model_evidence ::
  "deployed_model option \<Rightarrow> bar list \<Rightarrow> signal \<Rightarrow> string \<Rightarrow> string \<Rightarrow> db \<Rightarrow> (ai_evidence \<times> db) result" where
  "model_evidence model df sg symbol regime d =
     (let nothing = \<lparr>av_probabilities = None, av_expected_return = None, av_model_version = None, av_model_backed = False\<rparr>
      in case model of
           None \<Rightarrow> Inr (nothing, d)
         | Some m \<Rightarrow>
             (case dm_predict m df of
                Inl x \<Rightarrow> Inr (nothing, d)
              | Inr None \<Rightarrow> Inr (nothing, d)
              | Inr (Some ps) \<Rightarrow>
                  let backed = nothing\<lparr>av_probabilities := Some ps, av_model_version := dm_version m, av_model_backed := True\<rparr>
                  in case py_div (dm_tp_atr_multiple m) (dm_sl_atr_multiple m) of
                       Inl x \<Rightarrow> Inr (backed, d)
                     | Inr reward_r \<Rightarrow>
                         (case insert_prediction (new_prediction sg symbol regime m ps) d of
                            Inl x \<Rightarrow> Inl PendingRollbackError
                          | Inr d' \<Rightarrow> Inr (backed\<lparr>av_expected_return :=
                               Some (pyround 3 (expected_value_r (favourable sg ps) reward_r 1 (fl (5/100))))\<rparr>, d'))))"

definition evidence_risk_reward :: "signal \<Rightarrow> f64 option" where
  "evidence_risk_reward sg =
     (case (sg_entry_price sg, sg_stop_loss sg, sg_take_profit_1 sg) of
        (Some e, Some s, Some t) \<Rightarrow>
          if e \<noteq> 0 \<and> s \<noteq> 0 \<and> t \<noteq> 0 \<and> 0 < \<bar>fsub e s\<bar> then Some (pyround 2 (fdiv \<bar>fsub t e\<bar> \<bar>fsub e s\<bar>)) else None
      | _ \<Rightarrow> None)"

definition enrich_signal_with_ai_evidence ::
  "ai_env \<Rightarrow> bar list \<Rightarrow> signal \<Rightarrow> string \<Rightarrow> ai_world \<Rightarrow> ai_decision result \<times> ai_world" where
  "enrich_signal_with_ai_evidence E df sg symbol w =
     (let last_close = b_close (last df);
          regime = detected_regime (ae_pandas E) df;
          volatility = (case ae_atr E df of
              Some a \<Rightarrow> if a \<noteq> 0 \<and> last_close \<noteq> 0 then Some (pyround 5 (fdiv a last_close)) else None
            | None \<Rightarrow> None)
      in case load_deployed_model E w of (model, w1) \<Rightarrow>
           (case model_evidence model df sg symbol regime (aw_db w1) of
              Inl x \<Rightarrow> (Inl x, w1)
            | Inr (ev, d) \<Rightarrow> (Inr \<lparr>ad_symbol = symbol,
                  ad_timeframe = (case sg_timeframe sg of Some tf \<Rightarrow> if tf \<noteq> [] then tf else ''4h'' | None \<Rightarrow> ''4h''),
                  ad_strategy = sg_strategy_name sg, ad_direction = sg_signal_type sg, ad_evidence = ev,
                  ad_expected_volatility = volatility, ad_regime = regime,
                  ad_confidence = (case (av_model_backed ev, av_probabilities ev) of
                      (True, Some ps) \<Rightarrow> CALIBRATED_PROBABILITY (favourable sg ps)
                    | _ \<Rightarrow> QUALITY_TIER (case sg_quality sg of Some q \<Rightarrow> if q \<noteq> [] then q else ''LOW'' | None \<Rightarrow> ''LOW'')),
                  ad_entry = (case sg_entry_price sg of Some e \<Rightarrow> e | None \<Rightarrow> last_close),
                  ad_stop_loss = sg_stop_loss sg, ad_take_profit_1 = sg_take_profit_1 sg,
                  ad_take_profit_2 = sg_take_profit_2 sg, ad_take_profit_3 = sg_take_profit_3 sg,
                  ad_risk_reward = evidence_risk_reward sg, ad_timestamp = sg_timestamp sg\<rparr>, w1\<lparr>aw_db := d\<rparr>)))"

section \<open>The paper trading job\<close>

definition candle_of_bar :: "string \<Rightarrow> string \<Rightarrow> bar \<Rightarrow> candle" where
  "candle_of_bar symbol timeframe b =
     \<lparr>cd_timestamp = b_timestamp b, cd_timeframe = timeframe, cd_open = b_open b, cd_high = b_high b, cd_low = b_low b,
      cd_close = b_close b, cd_volume = b_volume b, cd_symbol = symbol, cd_quality_status = ''valid''\<rparr>"

definition candle_signals :: "db \<Rightarrow> string \<Rightarrow> string \<Rightarrow> datetime \<Rightarrow> signal list" where
  "candle_signals d symbol timeframe t =
     filter (\<lambda>s. sg_symbol s = symbol \<and> sg_timeframe s = Some timeframe \<and> sg_timestamp s = t \<and>
       sg_signal_type s \<in> {''LONG'', ''SHORT''}) (db_signals d)"

fun offer_signals :: "ai_env \<Rightarrow> datetime \<Rightarrow> bar list \<Rightarrow> string \<Rightarrow> signal list \<Rightarrow> ai_world \<Rightarrow> ai_decision list result \<times> ai_world" where
  "offer_signals E now df symbol [] w = (Inr [], w)"
| "offer_signals E now df symbol (s # ss) w =
     (case enrich_signal_with_ai_evidence E df s symbol w of
        (Inl x, w1) \<Rightarrow> (Inl x, w1)
      | (Inr decision, w1) \<Rightarrow>
          (case open_paper_position now s (aw_trader w1) of
             Inl x \<Rightarrow> (Inl x, w1)
           | Inr (tr, None) \<Rightarrow> offer_signals E now df symbol ss (w1\<lparr>aw_trader := tr\<rparr>)
           | Inr (tr, Some p) \<Rightarrow>
               (case persist_paper_open p symbol SRC_AI_PAPER (aw_db w1) of
                  Inl x \<Rightarrow> (Inl x, w1\<lparr>aw_trader := tr\<rparr>)
                | Inr (_, d) \<Rightarrow>
                    (case offer_signals E now df symbol ss (w1\<lparr>aw_trader := tr, aw_db := d\<rparr>) of
                       (Inl x, w2) \<Rightarrow> (Inl x, w2)
                     | (Inr ds, w2) \<Rightarrow> (Inr (decision # ds), w2)))))"

text \<open>
  An exception of \<open>process_candle\<close> or of the health check leaves the job with the trader as it
  stands.
\<close>

definition ai_paper_trading_job ::
  "ai_env \<Rightarrow> datetime \<Rightarrow> string \<Rightarrow> string \<Rightarrow> ai_world \<Rightarrow> ai_decision list result \<times> ai_world" where
  "ai_paper_trading_job E now symbol timeframe w =
     (let df = load_recent_candles (aw_db w) symbol timeframe DEFAULT_LOOKBACK_BARS
      in if length df < MIN_BARS_REQUIRED then (Inr [], w)
         else case process_candle now (candle_of_bar symbol timeframe (last df)) (aw_trader w) of
                (tr, Inl x) \<Rightarrow> (Inl x, w\<lparr>aw_trader := tr\<rparr>)
              | (tr, Inr evs) \<Rightarrow>
                  let w1 = w\<lparr>aw_trader := tr, aw_db := fold persist_paper_event evs (aw_db w)\<rparr>
                  in case evaluate_model_health (aw_db w1) of
                       Inl x \<Rightarrow> (Inl x, w1)
                     | Inr health \<Rightarrow>
                         if hr_status health = MH_DISABLED then (Inr [], w1)
                         else offer_signals E now df symbol
                                (candle_signals (aw_db w1) symbol timeframe (b_timestamp (last df))) w1)"

section \<open>What a tick leaves alone\<close>

definition same_market :: "db \<Rightarrow> db \<Rightarrow> bool" where
  "same_market d d' \<longleftrightarrow> db_candles d' = db_candles d \<and> db_signals d' = db_signals d \<and> db_bot d' = db_bot d"

lemma same_market_trans: "same_market d d1 \<Longrightarrow> same_market d1 d2 \<Longrightarrow> same_market d d2"
  by (simp add: same_market_def)

lemma same_market_reads:
  assumes "same_market d d'"
  shows "load_recent_candles d' symbol tf n = load_recent_candles d symbol tf n" "candle_signals d' symbol tf t = candle_signals d symbol tf t"
  using assms by (simp_all add: same_market_def load_recent_candles_def candle_signals_def)

lemma persist_event_frame: "same_market d (persist_paper_event e d) \<and> db_predictions (persist_paper_event e d) = db_predictions d"
  by (cases e) (auto simp: persist_paper_event.simps same_market_def update_trade_def split: option.splits)

lemma persist_events_frame: "same_market d (fold persist_paper_event evs d) \<and> db_predictions (fold persist_paper_event evs d) = db_predictions d"
proof (induction evs arbitrary: d)
  case (Cons e evs)
  then show ?case using persist_event_frame [of d e] same_market_trans by fastforce
qed (simp add: same_market_def)

lemma persist_open_frame:
  "persist_paper_open p symbol src d = Inr (t, d') \<Longrightarrow> same_market d d' \<and> db_predictions d' = db_predictions d"
  by (auto simp: persist_paper_open_def same_market_def insert_defs split: sum.splits if_splits)

text \<open>The model that a tick works with: the cached one, or what the first look finds.\<close>

definition model_in :: "ai_env \<Rightarrow> ai_world \<Rightarrow> deployed_model option" where
  "model_in E w = fst (load_deployed_model E w)"

lemma model_in_cong: "aw_cache w' = aw_cache w \<Longrightarrow> db_bot (aw_db w') = db_bot (aw_db w) \<Longrightarrow> model_in E w' = model_in E w"
  by (simp add: model_in_def load_deployed_model_def Let_def bot_get_def)

definition backs :: "deployed_model option \<Rightarrow> bar list \<Rightarrow> bool" where
  "backs model df \<longleftrightarrow> (case model of None \<Rightarrow> False
     | Some m \<Rightarrow> dm_sl_atr_multiple m \<noteq> 0 \<and> (case dm_predict m df of Inr (Some ps) \<Rightarrow> True | _ \<Rightarrow> False))"

definition predicted_ids :: "db \<Rightarrow> string set" where
  "predicted_ids d = pr_signal_id ` set (db_predictions d)"

lemma evidence_frame:
  assumes "model_evidence model df sg symbol regime d = Inr (ev, d')"
  shows "same_market d d' \<and> db_trades d' = db_trades d \<and>
    (if backs model df then predicted_ids d' = insert (sg_signal_id sg) (predicted_ids d) \<and> sg_signal_id sg \<notin> predicted_ids d else d' = d)"
proof (cases "backs model df")
  case False
  then show ?thesis using assms
    by (auto simp: model_evidence_def backs_def same_market_def py_div_def Let_def split: option.splits sum.splits if_splits)
next
  case True
  then obtain m ps where m: "model = Some m" "dm_predict m df = Inr (Some ps)" "dm_sl_atr_multiple m \<noteq> 0"
    by (auto simp: backs_def split: option.splits sum.splits)
  obtain d1 where "insert_prediction (new_prediction sg symbol regime m ps) d = Inr d1" "d' = d1"
    using assms m by (auto simp: model_evidence_def py_div_def Let_def split: sum.splits)
  then show ?thesis using True
    by (auto simp: same_market_def predicted_ids_def insert_defs new_prediction_def case_prod_beta split: if_splits)
qed

lemma enrich_frame:
  assumes "enrich_signal_with_ai_evidence E df sg symbol w = (Inr dec, w')"
  shows "aw_trader w' = aw_trader w" "model_in E w' = model_in E w" "same_market (aw_db w) (aw_db w')"
    "db_trades (aw_db w') = db_trades (aw_db w)"
    "backs (model_in E w) df \<Longrightarrow> predicted_ids (aw_db w') = insert (sg_signal_id sg) (predicted_ids (aw_db w))"
    "\<not> backs (model_in E w) df \<Longrightarrow> aw_db w' = aw_db w"
proof -
  obtain model w1 where l: "load_deployed_model E w = (model, w1)" by fastforce
  have w1: "aw_trader w1 = aw_trader w" "aw_db w1 = aw_db w" "mc_loaded (aw_cache w1)" "mc_model (aw_cache w1) = model"
    using l by (auto simp: load_deployed_model_def Let_def split: if_splits)
  obtain ev d where e: "model_evidence model df sg symbol (detected_regime (ae_pandas E) df) (aw_db w) = Inr (ev, d)"
      and w': "w' = w1\<lparr>aw_db := d\<rparr>"
    using assms l w1 by (auto simp: enrich_signal_with_ai_evidence_def Let_def split: sum.splits)
  have m: "model_in E w = model" by (simp add: model_in_def l)
  show "aw_trader w' = aw_trader w" using w' w1 by simp
  show "model_in E w' = model_in E w" using w' w1 m by (simp add: model_in_def load_deployed_model_def)
  note f = evidence_frame [OF e]
  show "same_market (aw_db w) (aw_db w')" "db_trades (aw_db w') = db_trades (aw_db w)"
    "backs (model_in E w) df \<Longrightarrow> predicted_ids (aw_db w') = insert (sg_signal_id sg) (predicted_ids (aw_db w))"
    "\<not> backs (model_in E w) df \<Longrightarrow> aw_db w' = aw_db w"
    using f w' m by simp_all
qed

lemma enrich_again:
  assumes "backs (model_in E w) df" "sg_signal_id sg \<in> predicted_ids (aw_db w)"
  shows "\<exists>w'. enrich_signal_with_ai_evidence E df sg symbol w = (Inl PendingRollbackError, w') \<and> aw_trader w' = aw_trader w"
proof -
  obtain model w1 where l: "load_deployed_model E w = (model, w1)" by fastforce
  have w1: "aw_trader w1 = aw_trader w" "aw_db w1 = aw_db w"
    using l by (auto simp: load_deployed_model_def Let_def split: if_splits)
  obtain m ps where m: "model = Some m" "dm_predict m df = Inr (Some ps)" "dm_sl_atr_multiple m \<noteq> 0"
    using assms(1) l by (auto simp: model_in_def backs_def split: option.splits sum.splits)
  have "pr_signal_id (new_prediction sg symbol r m ps) \<in> pr_signal_id ` set (db_predictions (aw_db w))" for r
    using assms(2) by (simp add: new_prediction_def predicted_ids_def case_prod_beta)
  then have "insert_prediction (new_prediction sg symbol r m ps) (aw_db w) = Inl IntegrityError" for r
    by (rule predictions.add_duplicate)
  then have "model_evidence model df sg symbol r (aw_db w) = Inl PendingRollbackError" for r
    using m by (simp add: model_evidence_def py_div_def Let_def)
  then show ?thesis using l w1 by (simp add: enrich_signal_with_ai_evidence_def Let_def)
qed

section \<open>The table of an AI tick\<close>

lemma mirrors_trades: "db_trades d' = db_trades d \<Longrightarrow> mirrors tr d' = mirrors tr d"
  by (simp add: mirrors_def shown_open_def shown_closed_def lookup_trade_def)

lemma opened_step:
  assumes "open_paper_position now s tr = Inr (tr', r)"
  shows "pt_closed_trades tr' = pt_closed_trades tr"
    "(k, p) \<in> set (pt_positions tr') \<Longrightarrow> (k, p) \<in> set (pt_positions tr) \<or>
       (r = Some p \<and> pp_entry_time p = sg_timestamp s \<and> pp_signal_id p = sg_signal_id s)"
  using assms
  by (auto simp: open_paper_position_def Let_def new_position_def put_position_def set_update_where
      split: if_splits option.splits sum.splits prod.splits)

lemma enrich_error:
  assumes "enrich_signal_with_ai_evidence E df sg symbol w = (Inl x, w')"
  shows "x = PendingRollbackError" "aw_trader w' = aw_trader w" "aw_db w' = aw_db w"
proof -
  obtain model w1 where l: "load_deployed_model E w = (model, w1)" by fastforce
  then have "aw_trader w1 = aw_trader w \<and> aw_db w1 = aw_db w" by (auto simp: load_deployed_model_def Let_def split: if_splits)
  then show "x = PendingRollbackError" "aw_trader w' = aw_trader w" "aw_db w' = aw_db w"
    using assms l
    by (auto simp: enrich_signal_with_ai_evidence_def model_evidence_def Let_def split: option.splits sum.splits)
qed

lemma open_error: "open_paper_position now s tr = Inl x \<Longrightarrow> x \<noteq> IntegrityError"
  by (auto simp: open_paper_position_def calculate_position_size_def py_div_def Let_def
      split: if_splits option.splits sum.splits prod.splits)

lemma offer_cases:
  assumes "offer_signals E now df symbol (s # ss) w = (res, w')"
  obtains (refused) x where "enrich_signal_with_ai_evidence E df s symbol w = (Inl x, w')" "res = Inl x"
  | (failed) dec x where "enrich_signal_with_ai_evidence E df s symbol w = (Inr dec, w')"
      "open_paper_position now s (aw_trader w') = Inl x" "res = Inl x"
  | (skipped) dec w1 tr where "enrich_signal_with_ai_evidence E df s symbol w = (Inr dec, w1)"
      "open_paper_position now s (aw_trader w1) = Inr (tr, None)"
      "offer_signals E now df symbol ss (w1\<lparr>aw_trader := tr\<rparr>) = (res, w')"
  | (collided) dec w1 tr p x where "enrich_signal_with_ai_evidence E df s symbol w = (Inr dec, w1)"
      "open_paper_position now s (aw_trader w1) = Inr (tr, Some p)"
      "persist_paper_open p symbol SRC_AI_PAPER (aw_db w1) = Inl x" "res = Inl x" "w' = w1\<lparr>aw_trader := tr\<rparr>"
  | (opened) dec w1 tr p t d res1 where "enrich_signal_with_ai_evidence E df s symbol w = (Inr dec, w1)"
      "open_paper_position now s (aw_trader w1) = Inr (tr, Some p)"
      "persist_paper_open p symbol SRC_AI_PAPER (aw_db w1) = Inr (t, d)"
      "offer_signals E now df symbol ss (w1\<lparr>aw_trader := tr, aw_db := d\<rparr>) = (res1, w')"
      "res = (case res1 of Inl x \<Rightarrow> Inl x | Inr ds \<Rightarrow> Inr (dec # ds))"
proof -
  obtain r1 w1 where e: "enrich_signal_with_ai_evidence E df s symbol w = (r1, w1)" by fastforce
  show thesis
  proof (cases r1)
    case (Inl x)
    then show thesis using assms e refused by auto
  next
    case (Inr dec)
    note e = e [unfolded Inr]
    show thesis
    proof (cases "open_paper_position now s (aw_trader w1)")
      case (Inl x)
      then show thesis using assms e failed by auto
    next
      case (Inr q)
      then obtain tr r where o: "open_paper_position now s (aw_trader w1) = Inr (tr, r)" by (cases q) simp
      show thesis
      proof (cases r)
        case None
        then show thesis using assms e o skipped by auto
      next
        case (Some p)
        note o = o [unfolded Some]
        show thesis
        proof (cases "persist_paper_open p symbol SRC_AI_PAPER (aw_db w1)")
          case (Inl x)
          then show thesis using assms e o collided by auto
        next
          case (Inr td)
          obtain t d where td: "td = (t, d)" by fastforce
          obtain res1 w2 where rest: "offer_signals E now df symbol ss (w1\<lparr>aw_trader := tr, aw_db := d\<rparr>) = (res1, w2)" by fastforce
          have "w2 = w'" "res = (case res1 of Inl x \<Rightarrow> Inl x | Inr ds \<Rightarrow> Inr (dec # ds))"
            using assms e o Inr td rest by (auto split: sum.splits)
          with rest show thesis by (intro opened [OF e o Inr [unfolded td]]) simp_all
        qed
      qed
    qed
  qed
qed

text \<open>Whatever an offer ends with, the table still mirrors the trader, and its rows never collide.\<close>

lemma offer_mirrors:
  "offer_signals E now df symbol ss w = (res, w') \<Longrightarrow> trader_inv (aw_trader w) \<Longrightarrow> mirrors (aw_trader w) (aw_db w) \<Longrightarrow>
     trader_inv (aw_trader w') \<and> mirrors (aw_trader w') (aw_db w') \<and> res \<noteq> Inl IntegrityError"
proof (induction ss arbitrary: w res)
  case (Cons s ss)
  have enriched: "trader_inv (aw_trader w1) \<and> mirrors (aw_trader w1) (aw_db w1)"
    if "enrich_signal_with_ai_evidence E df s symbol w = (Inr dec, w1)" for dec w1
    using Cons.prems(2,3) enrich_frame(1) [OF that] mirrors_trades [OF enrich_frame(4) [OF that]] by simp
  from Cons.prems(1) show ?case
  proof (cases rule: offer_cases)
    case (refused x)
    then show ?thesis using Cons.prems(2,3) enrich_error [OF refused(1)] by simp
  next
    case (failed dec x)
    then show ?thesis using enriched open_error by blast
  next
    case (skipped dec w1 tr)
    have "trader_inv tr" "mirrors tr (aw_db w1)"
      using enriched [OF skipped(1)] open_paper_position_inv [OF _ skipped(2)] open_returns_position [OF skipped(2), of "aw_db w1"]
      by simp_all
    then show ?thesis using Cons.IH [OF skipped(3)] by simp
  next
    case (collided dec w1 tr p x)
    then show ?thesis using enriched [OF collided(1)] mirrors_open [OF _ _ collided(2), of "aw_db w1" symbol SRC_AI_PAPER] by auto
  next
    case (opened dec w1 tr p t d res1)
    have "trader_inv tr" "mirrors tr d"
      using enriched [OF opened(1)] open_paper_position_inv [OF _ opened(2)]
        mirrors_open [OF _ _ opened(2), of "aw_db w1" symbol SRC_AI_PAPER] opened(3) by auto
    then show ?thesis using Cons.IH [OF opened(4)] opened(5) by (auto split: sum.splits)
  qed
qed simp

text \<open>The state after the candle and before the health check, and the rest of the job from there.\<close>

definition after_candle :: "datetime \<Rightarrow> candle \<Rightarrow> ai_world \<Rightarrow> exn option \<times> ai_world" where
  "after_candle now c w =
     (case process_candle now c (aw_trader w) of
        (tr, Inl x) \<Rightarrow> (Some x, w\<lparr>aw_trader := tr\<rparr>)
      | (tr, Inr evs) \<Rightarrow> (None, w\<lparr>aw_trader := tr, aw_db := fold persist_paper_event evs (aw_db w)\<rparr>))"

abbreviation tick_bars :: "db \<Rightarrow> string \<Rightarrow> string \<Rightarrow> bar list" where
  "tick_bars d symbol tf \<equiv> load_recent_candles d symbol tf DEFAULT_LOOKBACK_BARS"

abbreviation tick_candle :: "db \<Rightarrow> string \<Rightarrow> string \<Rightarrow> candle" where
  "tick_candle d symbol tf \<equiv> candle_of_bar symbol tf (last (tick_bars d symbol tf))"

lemma job_stages:
  "ai_paper_trading_job E now symbol tf w =
     (let df = tick_bars (aw_db w) symbol tf
      in if length df < MIN_BARS_REQUIRED then (Inr [], w)
         else case after_candle now (tick_candle (aw_db w) symbol tf) w of
           (Some x, w1) \<Rightarrow> (Inl x, w1)
         | (None, w1) \<Rightarrow>
             (case evaluate_model_health (aw_db w1) of
                Inl x \<Rightarrow> (Inl x, w1)
              | Inr health \<Rightarrow>
                  if hr_status health = MH_DISABLED then (Inr [], w1)
                  else offer_signals E now df symbol (candle_signals (aw_db w1) symbol tf (b_timestamp (last df))) w1))"
  by (simp add: ai_paper_trading_job_def after_candle_def Let_def split: prod.splits sum.splits)

lemma after_candle_frame:
  assumes "after_candle now c w = (x, w1)"
  shows "same_market (aw_db w) (aw_db w1)" "db_predictions (aw_db w1) = db_predictions (aw_db w)" "aw_cache w1 = aw_cache w"
    "x = None \<Longrightarrow> trader_inv (aw_trader w) \<Longrightarrow> mirrors (aw_trader w) (aw_db w) \<Longrightarrow>
       trader_inv (aw_trader w1) \<and> mirrors (aw_trader w1) (aw_db w1)"
  using assms persist_events_frame process_candle_inv(1) [of "aw_trader w" now c] mirrors_candle [of "aw_trader w" "aw_db w" now c]
  by (auto simp: after_candle_def same_market_def split: prod.splits sum.splits)


section \<open>A losing model is refused\<close>

text \<open>
  A model that only loses is disabled.  When none of the last closed AI paper trades, up to thirty
  and at least fifteen, made a profit and one made a loss, a tick still manages the open
  positions with its candle and stores what it did, but offers no signal: no position is opened, no model asked.
\<close>

theorem losing_model_opens_nothing:
  assumes "after_candle now (tick_candle (aw_db w) symbol tf) w = (None, w1)"
    "MIN_BARS_REQUIRED \<le> length (tick_bars (aw_db w) symbol tf)" "15 \<le> length (recent_ai_trades (aw_db w1))"
    "\<forall>t \<in> set (recent_ai_trades (aw_db w1)). \<exists>x. tr_pnl t = Some x \<and> x \<le> 0 \<and> fl x = x"
    "t0 \<in> set (recent_ai_trades (aw_db w1))" "tr_pnl t0 \<noteq> Some 0"
  shows "ai_paper_trading_job E now symbol tf w = (Inr [], w1)"
proof -
  obtain r where r: "health_of_trades (recent_ai_trades (aw_db w1)) = Inr r" "hr_status r = MH_DISABLED"
    using losing_trades_disabled [OF assms(3-6)] by blast
  then have "\<exists>h. evaluate_model_health (aw_db w1) = Inr h \<and> hr_status h = MH_DISABLED"
    by (simp add: evaluate_model_health_def with_predictions_disabled)
  then show ?thesis using assms(1,2) by (auto simp: job_stages Let_def)
qed

section \<open>The same candle twice\<close>

lemma close_fields:
  "close_remaining now p x t r tr = (tr', Inr ev) \<Longrightarrow>
     ex_exit_time ev = t \<and> ex_entry_time ev = pp_entry_time p \<and> pt_closed_trades tr' = pt_closed_trades tr @ [ev]"
  by (auto simp: close_remaining_def Let_def split: sum.splits)

lemma offer_closed: "offer_signals E now df symbol ss w = (res, w') \<Longrightarrow>
    pt_closed_trades (aw_trader w') = pt_closed_trades (aw_trader w)"
proof (induction ss arbitrary: w res)
  case (Cons s ss)
  from Cons.prems show ?case
    by (cases rule: offer_cases) (auto dest!: enrich_error(2) enrich_frame(1) opened_step(1) Cons.IH)
qed simp

lemma offer_positions: "offer_signals E now df symbol ss w = (res, w') \<Longrightarrow> (k, p) \<in> set (pt_positions (aw_trader w')) \<Longrightarrow>
    (k, p) \<in> set (pt_positions (aw_trader w)) \<or> (\<exists>s \<in> set ss. pp_entry_time p = sg_timestamp s)"
proof (induction ss arbitrary: w res)
  case (Cons s ss)
  from Cons.prems(1) show ?case
  proof (cases rule: offer_cases)
    case (skipped dec w1 tr)
    then show ?thesis using Cons.IH [OF skipped(3)] Cons.prems(2) opened_step(2) [OF skipped(2)] enrich_frame(1) [OF skipped(1)] by auto
  next
    case (collided dec w1 tr q x)
    then show ?thesis using Cons.prems(2) opened_step(2) [OF collided(2)] enrich_frame(1) [OF collided(1)] by auto
  next
    case (opened dec w1 tr q t d res1)
    then show ?thesis using Cons.IH [OF opened(4)] Cons.prems(2) opened_step(2) [OF opened(2)] enrich_frame(1) [OF opened(1)] by auto
  qed (use Cons.prems(2) in \<open>auto dest: enrich_error(2) enrich_frame(1)\<close>)
qed simp

lemma offer_market: "offer_signals E now df symbol ss w = (res, w') \<Longrightarrow> same_market (aw_db w) (aw_db w')"
proof (induction ss arbitrary: w res)
  case (Cons s ss)
  from Cons.prems show ?case
  proof (cases rule: offer_cases)
    case (refused x)
    then show ?thesis using enrich_error(3) [OF refused(1)] by (simp add: same_market_def)
  next
    case (opened dec w1 tr p t d res1)
    then show ?thesis
      using Cons.IH [OF opened(4)] enrich_frame(3) [OF opened(1)] persist_open_frame [OF opened(3)] by (simp add: same_market_def)
  qed (auto dest!: enrich_frame(3) Cons.IH simp: same_market_def)
qed (simp add: same_market_def)

lemma job_market:
  assumes "ai_paper_trading_job E now symbol tf w = (res, w')"
  shows "same_market (aw_db w) (aw_db w')"
proof -
  obtain x w1 where a: "after_candle now (tick_candle (aw_db w) symbol tf) w = (x, w1)" by fastforce
  show ?thesis
    using assms a after_candle_frame(1) [OF a] same_market_trans [OF after_candle_frame(1) [OF a] offer_market]
    by (auto simp: job_stages Let_def same_market_def split: if_splits option.splits sum.splits)
qed

text \<open>From an empty book a tick only opens positions of its own candle.\<close>

lemma opened_on_candle:
  assumes "ai_paper_trading_job E now symbol tf w = (res, w')" "pt_positions (aw_trader w) = []"
    "(k, p) \<in> set (pt_positions (aw_trader w'))"
  shows "pp_entry_time p = b_timestamp (last (tick_bars (aw_db w) symbol tf))"
    "MIN_BARS_REQUIRED \<le> length (tick_bars (aw_db w) symbol tf)"
proof -
  have "after_candle now c w = (None, w)" for c
    using assms(2) by (simp add: after_candle_def process_candle_def)
  then have offered: "MIN_BARS_REQUIRED \<le> length (tick_bars (aw_db w) symbol tf) \<and>
      (\<exists>res. offer_signals E now (tick_bars (aw_db w) symbol tf) symbol
        (candle_signals (aw_db w) symbol tf (b_timestamp (last (tick_bars (aw_db w) symbol tf)))) w = (res, w'))"
    using assms by (auto simp: job_stages Let_def split: if_splits sum.splits)
  then show "MIN_BARS_REQUIRED \<le> length (tick_bars (aw_db w) symbol tf)" by blast
  from offered obtain res1 where "offer_signals E now (tick_bars (aw_db w) symbol tf) symbol
        (candle_signals (aw_db w) symbol tf (b_timestamp (last (tick_bars (aw_db w) symbol tf)))) w = (res1, w')" by blast
  from offer_positions [OF this assms(3)] assms(2) show "pp_entry_time p = b_timestamp (last (tick_bars (aw_db w) symbol tf))"
    by (auto simp: candle_signals_def)
qed

text \<open>
  A tick re-applies the candle that it opened a position on.  When a tick opens a position
  on the closed candle of a signal and that candle, before its close, had touched the stop, the next
  tick, long before a new candle, closes the position at the stop, at the very
  time it was opened, and shows it closed: the loss of a price that had been before the entry.
\<close>

theorem same_candle_closes:
  assumes "ai_paper_trading_job E now1 symbol tf w = (res, w1)" "pt_positions (aw_trader w) = []"
    "pt_positions (aw_trader w1) = [(k, p)]" "stop_hit (tick_candle (aw_db w) symbol tf) p" "\<not> pt_is_paused (aw_trader w1)"
    "fmul \<bar>fsub (pp_entry_price p) (pp_stop_loss p)\<bar> (pp_quantity p) \<noteq> 0"
  shows "\<exists>e. pt_closed_trades (aw_trader (snd (ai_paper_trading_job E now2 symbol tf w1))) = pt_closed_trades (aw_trader w1) @ [e] \<and>
    ex_trade_id e = pp_trade_id p \<and> ex_reason e = EXIT_STOP_LOSS \<and> ex_exit_price e = pp_stop_loss p \<and>
    ex_exit_time e = ex_entry_time e"
proof -
  let ?c = "tick_candle (aw_db w) symbol tf"
  note entry = opened_on_candle [OF assms(1,2), of k p]
  note same = same_market_reads(1) [OF job_market [OF assms(1)]]
  obtain tr e where cl: "close_remaining now2 p (pp_stop_loss p) (cd_timestamp ?c) EXIT_STOP_LOSS (aw_trader w1) = (tr, Inr e)"
    using close_remaining_returns [OF assms(6)] by blast
  have pc: "process_candle now2 ?c (aw_trader w1) = (tr, Inr [Exit e])"
    using assms(3,4,5) cl by (simp add: process_candle_def process_position_def)
  obtain w2 where a: "after_candle now2 ?c w1 = (None, w2)" "aw_trader w2 = tr"
    using pc by (simp add: after_candle_def)
  have "pt_closed_trades (aw_trader (snd (ai_paper_trading_job E now2 symbol tf w1))) = pt_closed_trades tr"
    using entry assms(3) a
    by (auto simp: job_stages Let_def same split: sum.splits) (metis a(2) offer_closed prod.collapse)
  moreover note close_fields [OF cl] close_remaining_removes [OF cl]
  moreover have "cd_timestamp ?c = pp_entry_time p" using entry assms(3) by (simp add: candle_of_bar_def)
  ultimately show ?thesis by auto
qed

section \<open>The same prediction twice\<close>

lemma offer_predictions:
  "offer_signals E now df symbol ss w = (Inr ds, w') \<Longrightarrow> model_in E w' = model_in E w \<and>
     (if backs (model_in E w) df then predicted_ids (aw_db w') = sg_signal_id ` set ss \<union> predicted_ids (aw_db w)
      else db_predictions (aw_db w') = db_predictions (aw_db w))"
proof (induction ss arbitrary: w ds)
  case (Cons s ss)
  from Cons.prems show ?case
  proof (cases rule: offer_cases)
    case (skipped dec w1 tr)
    note e = enrich_frame [OF skipped(1)]
    have "model_in E (w1\<lparr>aw_trader := tr\<rparr>) = model_in E w1" by (rule model_in_cong) simp_all
    then show ?thesis using Cons.IH [OF skipped(3)] e(2,5,6) by auto
  next
    case (opened dec w1 tr p t d res1)
    note e = enrich_frame [OF opened(1)]
    obtain ds1 where r: "res1 = Inr ds1" using opened(5) by (cases res1) simp_all
    have d: "predicted_ids d = predicted_ids (aw_db w1)" "db_predictions d = db_predictions (aw_db w1)" "db_bot d = db_bot (aw_db w1)"
      using persist_open_frame [OF opened(3)] by (simp_all add: predicted_ids_def same_market_def)
    then have "model_in E (w1\<lparr>aw_trader := tr, aw_db := d\<rparr>) = model_in E w1"
      by (intro model_in_cong) simp_all
    then show ?thesis using Cons.IH [OF opened(4) [unfolded r]] e(2,5,6) d by auto
  qed simp_all
qed simp

text \<open>
  With a deployed model every tick of a candle but the first fails.  When a tick has stored a
  prediction, then the next tick on the same candle, if it gets as far as the signals, raises at the first of them,
  having opened nothing.
\<close>

theorem model_backed_second_tick_fails:
  assumes "ai_paper_trading_job E now1 symbol tf w = (Inr ds, w1)" "db_predictions (aw_db w1) \<noteq> db_predictions (aw_db w)"
  shows "case after_candle now2 (tick_candle (aw_db w) symbol tf) w1 of
      (Some x, w2) \<Rightarrow> ai_paper_trading_job E now2 symbol tf w1 = (Inl x, w2)
    | (None, w2) \<Rightarrow> (case evaluate_model_health (aw_db w2) of
          Inl x \<Rightarrow> ai_paper_trading_job E now2 symbol tf w1 = (Inl x, w2)
        | Inr h \<Rightarrow> hr_status h = MH_DISABLED \<or>
            (\<exists>w3. ai_paper_trading_job E now2 symbol tf w1 = (Inl PendingRollbackError, w3) \<and>
              pt_positions (aw_trader w3) = pt_positions (aw_trader w2)))"
proof -
  let ?df = "tick_bars (aw_db w) symbol tf" and ?c = "tick_candle (aw_db w) symbol tf"
  let ?ss = "candle_signals (aw_db w) symbol tf (b_timestamp (last ?df))"
  obtain x w1a where a: "after_candle now1 ?c w = (x, w1a)" by fastforce
  note fa = after_candle_frame [OF a]
  have off: "offer_signals E now1 ?df symbol ?ss w1a = (Inr ds, w1) \<and> \<not> length ?df < MIN_BARS_REQUIRED"
    using assms a fa(2) same_market_reads(2) [OF fa(1)]
    by (auto simp: job_stages Let_def split: if_splits option.splits sum.splits)
  have backed: "backs (model_in E w1a) ?df" "?ss \<noteq> []"
    using offer_predictions [OF off [THEN conjunct1]] off assms(2) fa(2) by (auto split: if_splits)
  then obtain s ss where ss: "?ss = s # ss" by (cases ?ss) auto
  note p1 = offer_predictions [OF off [THEN conjunct1]]
  note same = same_market_reads [OF job_market [OF assms(1)]]
  obtain y w2 where b: "after_candle now2 ?c w1 = (y, w2)" by fastforce
  note fb = after_candle_frame [OF b]
  have m: "model_in E w2 = model_in E w1a"
    using p1 model_in_cong [OF fb(3)] fb(1) by (simp add: same_market_def)
  have "sg_signal_id s \<in> predicted_ids (aw_db w2)"
    using p1 backed(1) ss fb(2) by (simp add: predicted_ids_def)
  then obtain w3 where "enrich_signal_with_ai_evidence E ?df s symbol w2 = (Inl PendingRollbackError, w3)" "aw_trader w3 = aw_trader w2"
    using enrich_again backed(1) m by metis
  then show ?thesis
    using b off same same_market_reads(2) [OF fb(1)] ss
    by (auto simp: job_stages Let_def split: option.splits sum.splits)
qed

section \<open>A first tick\<close>

text \<open>Sixty candles that reach down to a given low, and a long signal on the last with its stop at 95.\<close>

definition demo_market :: "f64 \<Rightarrow> db" where
  "demo_market low = empty_db\<lparr>db_candles := map (\<lambda>i. demo_bar (int i) low 105) [0..<60]\<rparr>"

definition demo_tick_signal :: "f64 \<Rightarrow> signal" where
  "demo_tick_signal low = demo_signal\<lparr>sg_timestamp := b_timestamp (last (tick_bars (demo_market low) ''BTC/USDT'' ''4h''))\<rparr>"

definition demo_env :: ai_env where
  "demo_env = \<lparr>ae_load = (\<lambda>_. None), ae_atr = (\<lambda>_. None), ae_pandas = demo_pandas\<rparr>"

definition demo_model :: deployed_model where
  "demo_model = \<lparr>dm_predict = (\<lambda>_. Inr (Some (0, 0, 1))), dm_version = Some ''v1'', dm_feature_version = None,
     dm_tp_atr_multiple = 2, dm_sl_atr_multiple = 1\<rparr>"

definition demo_world :: "deployed_model option \<Rightarrow> f64 \<Rightarrow> ai_world" where
  "demo_world model low = \<lparr>aw_trader = new_paper_trader default_risk_config 10000 0,
     aw_db = (demo_market low)\<lparr>db_signals := [demo_tick_signal low]\<rparr>, aw_cache = \<lparr>mc_loaded = True, mc_model = model\<rparr>\<rparr>"

lemma demo_market_bars:
  "length (tick_bars (demo_market low) ''BTC/USDT'' ''4h'') = 60"
  "b_low (last (tick_bars (demo_market low) ''BTC/USDT'' ''4h'')) = low"
  "b_high (last (tick_bars (demo_market low) ''BTC/USDT'' ''4h'')) = 105"
proof -
  show n: "length (tick_bars (demo_market low) ''BTC/USDT'' ''4h'') = 60"
    by (simp add: load_recent_candles_def demo_market_def demo_bar_def filter_map o_def DEFAULT_LOOKBACK_BARS_def)
  have "set (tick_bars (demo_market low) ''BTC/USDT'' ''4h'') \<subseteq> {b. b_low b = low \<and> b_high b = 105}"
    by (auto simp: load_recent_candles_def demo_market_def demo_bar_def bar_of_candle_def dest!: in_set_takeD)
  moreover have "last (tick_bars (demo_market low) ''BTC/USDT'' ''4h'') \<in> set (tick_bars (demo_market low) ''BTC/USDT'' ''4h'')"
    using n by (intro last_in_set) (metis list.size(3) zero_neq_numeral)
  ultimately show "b_low (last (tick_bars (demo_market low) ''BTC/USDT'' ''4h'')) = low"
    "b_high (last (tick_bars (demo_market low) ''BTC/USDT'' ''4h'')) = 105" by blast+
qed

lemma demo_opened:
  obtains tr' p where "open_paper_position 0 (demo_signal\<lparr>sg_timestamp := t\<rparr>) (new_paper_trader default_risk_config 10000 0) = Inr (tr', Some p)"
    "pp_side p = ''LONG''" "pp_stop_loss p = 95" "pp_entry_price p = 100" "pp_quantity p = 10" "targets p = [110]"
    "pp_next_target_idx p = 0" "pt_positions tr' = [(pp_trade_id p, p)]" "\<not> pt_is_paused tr'"
proof -
  let ?e = "new_risk_engine default_risk_config 10000 0"
  have e: "reset_daily 0 ?e = ?e" by (simp add: reset_daily_def new_risk_engine_def dt_date_def)
  have size: "calculate_position_size ?e 100 95 1 = Inr 10" by code_simp
  have gate: "can_trade 0 ?e = (?e, True, V_OK)"
    by (simp add: can_trade_def Let_def e) (simp add: new_risk_engine_def new_risk_state_def default_risk_config_def cooling_down_def)
  have lev: "min 1 (rc_max_leverage (re_config ?e)) = 1" by (simp add: new_risk_engine_def default_risk_config_def)
  have "\<exists>tr' p. open_paper_position 0 (demo_signal\<lparr>sg_timestamp := t\<rparr>) (new_paper_trader default_risk_config 10000 0) = Inr (tr', Some p) \<and>
    pp_side p = ''LONG'' \<and> pp_stop_loss p = 95 \<and> pp_entry_price p = 100 \<and> pp_quantity p = 10 \<and> targets p = [110] \<and>
    pp_next_target_idx p = 0 \<and> pt_positions tr' = [(pp_trade_id p, p)] \<and> \<not> pt_is_paused tr'"
    by (simp add: open_paper_position_def new_paper_trader_def gate Let_def demo_signal_def size lev
        new_position_def put_position_def targets_def present_def)
  then show thesis using that by blast
qed

lemma demo_first_tick:
  assumes "model = None \<or> model = Some demo_model"
  obtains ds w1 p where "ai_paper_trading_job demo_env 0 ''BTC/USDT'' ''4h'' (demo_world model low) = (Inr ds, w1)"
    "pp_side p = ''LONG''" "pp_stop_loss p = 95" "pp_entry_price p = 100" "pp_quantity p = 10" "targets p = [110]"
    "pp_next_target_idx p = 0" "pt_positions (aw_trader w1) = [(pp_trade_id p, p)]" "\<not> pt_is_paused (aw_trader w1)"
    "db_predictions (aw_db w1) = (if model = None then [] else [new_prediction (demo_tick_signal low) ''BTC/USDT'' ''UNCERTAIN'' demo_model (0, 0, 1)])"
    "length (db_trades (aw_db w1)) = 1"
proof -
  let ?w = "demo_world model low" and ?s = "demo_tick_signal low"
  obtain tr' p where o: "open_paper_position 0 ?s (new_paper_trader default_risk_config 10000 0) = Inr (tr', Some p)"
    and p: "pp_side p = ''LONG''" "pp_stop_loss p = 95" "pp_entry_price p = 100" "pp_quantity p = 10" "targets p = [110]"
      "pp_next_target_idx p = 0" "pt_positions tr' = [(pp_trade_id p, p)]" "\<not> pt_is_paused tr'"
    unfolding demo_tick_signal_def by (rule demo_opened)
  have bars: "tick_bars (aw_db ?w) ''BTC/USDT'' ''4h'' = tick_bars (demo_market low) ''BTC/USDT'' ''4h''"
    by (simp add: demo_world_def load_recent_candles_def)
  have a: "after_candle 0 c ?w = (None, ?w)" for c
    by (simp add: after_candle_def process_candle_def demo_world_def new_paper_trader_def)
  have h: "\<exists>h. evaluate_model_health (aw_db ?w) = Inr h \<and> hr_status h = MH_HEALTHY"
    by (simp add: evaluate_model_health_def health_of_trades_def recent_ai_trades_def with_predictions_def Let_def
        demo_world_def demo_market_def empty_db_def MIN_TRADES_FOR_EVALUATION_def order_desc_def)
  have ss: "candle_signals (aw_db ?w) ''BTC/USDT'' ''4h'' (b_timestamp (last (tick_bars (demo_market low) ''BTC/USDT'' ''4h''))) = [?s]"
    by (simp add: candle_signals_def demo_world_def demo_tick_signal_def demo_signal_def)
  have "\<exists>dec w1. enrich_signal_with_ai_evidence demo_env df ?s ''BTC/USDT'' ?w = (Inr dec, w1) \<and>
      db_predictions (aw_db w1) = (if model = None then [] else [new_prediction ?s ''BTC/USDT'' ''UNCERTAIN'' demo_model (0, 0, 1)]) \<and>
      aw_trader w1 = aw_trader ?w \<and> db_trades (aw_db w1) = []" for df
    using assms
    by (auto simp: enrich_signal_with_ai_evidence_def load_deployed_model_def model_evidence_def demo_world_def demo_env_def
        demo_model_def demo_market_def empty_db_def detected_uncertain insert_defs py_div_def Let_def)
  then obtain dec w1 where e: "enrich_signal_with_ai_evidence demo_env (tick_bars (demo_market low) ''BTC/USDT'' ''4h'') ?s ''BTC/USDT'' ?w = (Inr dec, w1)"
      "db_predictions (aw_db w1) = (if model = None then [] else [new_prediction ?s ''BTC/USDT'' ''UNCERTAIN'' demo_model (0, 0, 1)])"
      "aw_trader w1 = aw_trader ?w" "db_trades (aw_db w1) = []" by blast
  have tr: "aw_trader ?w = new_paper_trader default_risk_config 10000 0" by (simp add: demo_world_def)
  obtain t d where d: "persist_paper_open p ''BTC/USDT'' SRC_AI_PAPER (aw_db w1) = Inr (t, d)" "length (db_trades d) = 1"
    using e(4) by (simp add: persist_paper_open_def insert_defs)
  have "ai_paper_trading_job demo_env 0 ''BTC/USDT'' ''4h'' ?w = (Inr [dec], w1\<lparr>aw_trader := tr', aw_db := d\<rparr>)"
    using h demo_market_bars(1) [of low]
    by (auto simp: job_stages Let_def bars a ss e(1,3) tr o d MIN_BARS_REQUIRED_def)
  then show thesis by (rule that) (use p d persist_open_frame [OF d(1)] e(2) in simp_all)
qed


theorem same_candle_closes_witness:
  "\<exists>ds w1 e. ai_paper_trading_job demo_env 0 ''BTC/USDT'' ''4h'' (demo_world None 90) = (Inr ds, w1) \<and>
     pt_closed_trades (aw_trader (snd (ai_paper_trading_job demo_env minute_us ''BTC/USDT'' ''4h'' w1))) = pt_closed_trades (aw_trader w1) @ [e] \<and>
     ex_exit_price e = 95 \<and> ex_exit_time e = ex_entry_time e"
proof -
  obtain ds w1 p where t: "ai_paper_trading_job demo_env 0 ''BTC/USDT'' ''4h'' (demo_world None 90) = (Inr ds, w1)"
    and p: "pp_side p = ''LONG''" "pp_stop_loss p = 95" "pp_entry_price p = 100" "pp_quantity p = 10"
      "pt_positions (aw_trader w1) = [(pp_trade_id p, p)]" "\<not> pt_is_paused (aw_trader w1)"
    by (rule demo_first_tick [of None 90]) simp
  have "tick_bars (aw_db (demo_world None 90)) ''BTC/USDT'' ''4h'' = tick_bars (demo_market 90) ''BTC/USDT'' ''4h''"
    by (simp add: demo_world_def load_recent_candles_def)
  then have "stop_hit (tick_candle (aw_db (demo_world None 90)) ''BTC/USDT'' ''4h'') p"
    using demo_market_bars(2) [of 90] p by (simp add: stop_hit_def candle_of_bar_def)
  moreover have "fmul \<bar>fsub (100 :: rat) 95\<bar> 10 \<noteq> 0" by code_simp
  moreover have "pt_positions (aw_trader (demo_world None 90)) = []" by (simp add: demo_world_def new_paper_trader_def)
  ultimately show ?thesis using same_candle_closes [OF t _ p(5) _ p(6), of minute_us] p t by auto
qed

theorem model_backed_second_tick_fails_witness:
  "\<exists>ds w1 w3. ai_paper_trading_job demo_env 0 ''BTC/USDT'' ''4h'' (demo_world (Some demo_model) 96) = (Inr ds, w1) \<and>
     ai_paper_trading_job demo_env minute_us ''BTC/USDT'' ''4h'' w1 = (Inl PendingRollbackError, w3)"
proof -
  let ?w = "demo_world (Some demo_model) 96"
  obtain ds w1 p where t: "ai_paper_trading_job demo_env 0 ''BTC/USDT'' ''4h'' ?w = (Inr ds, w1)"
    and p: "pp_side p = ''LONG''" "pp_stop_loss p = 95" "targets p = [110]" "pp_next_target_idx p = 0"
      "pt_positions (aw_trader w1) = [(pp_trade_id p, p)]"
    and d: "db_predictions (aw_db w1) = [new_prediction (demo_tick_signal 96) ''BTC/USDT'' ''UNCERTAIN'' demo_model (0, 0, 1)]"
      "length (db_trades (aw_db w1)) = 1"
    by (rule demo_first_tick [of "Some demo_model" 96]) simp_all
  have "tick_bars (aw_db ?w) ''BTC/USDT'' ''4h'' = tick_bars (demo_market 96) ''BTC/USDT'' ''4h''"
    by (simp add: demo_world_def load_recent_candles_def)
  then have "after_candle minute_us (tick_candle (aw_db ?w) ''BTC/USDT'' ''4h'') w1 = (None, w1)"
    using p demo_market_bars(2,3) [of 96]
    by (simp add: after_candle_def process_candle_def process_position_def stop_hit_def target_hit_def candle_of_bar_def)
  moreover have "length (recent_ai_trades (aw_db w1)) \<le> 1"
    using d(2) length_filter_le [of "\<lambda>t. tr_mode t = ''paper'' \<and> tr_source t = SRC_AI_PAPER \<and> tr_status t = TS_CLOSED" "db_trades (aw_db w1)"]
    by (simp add: recent_ai_trades_def)
  then have "\<exists>h. evaluate_model_health (aw_db w1) = Inr h \<and> hr_status h = MH_HEALTHY"
    using d(1) by (simp add: evaluate_model_health_def health_of_trades_def with_predictions_def Let_def
        MIN_TRADES_FOR_EVALUATION_def LOOKBACK_TRADES_def)
  moreover have "db_predictions (aw_db w1) \<noteq> db_predictions (aw_db ?w)"
    using d(1) by (simp add: demo_world_def demo_market_def empty_db_def)
  ultimately show ?thesis using model_backed_second_tick_fails [OF t, of minute_us] t by auto
qed

definition demo_losses :: ai_world where
  "demo_losses = \<lparr>aw_trader = new_paper_trader default_risk_config 10000 0,
     aw_db = (demo_market 96)\<lparr>db_trades := replicate 15 (default_trade\<lparr>tr_source := SRC_AI_PAPER, tr_status := TS_CLOSED,
       tr_exit_time := Some 0, tr_pnl := Some (- 1)\<rparr>)\<rparr>, aw_cache = \<lparr>mc_loaded = True, mc_model = None\<rparr>\<rparr>"

theorem losing_model_opens_nothing_witness:
  "ai_paper_trading_job demo_env 0 ''BTC/USDT'' ''4h'' demo_losses = (Inr [], demo_losses)"
proof -
  let ?t = "default_trade\<lparr>tr_source := SRC_AI_PAPER, tr_status := TS_CLOSED, tr_exit_time := Some 0, tr_pnl := Some (- 1)\<rparr>"
  have all: "filter (\<lambda>t. tr_mode t = ''paper'' \<and> tr_source t = SRC_AI_PAPER \<and> tr_status t = TS_CLOSED) (replicate 15 ?t) = replicate 15 ?t"
    by (simp add: default_trade_def)
  have r: "length (recent_ai_trades (aw_db demo_losses)) = 15" "set (recent_ai_trades (aw_db demo_losses)) = {?t}"
    unfolding recent_ai_trades_def demo_losses_def by (simp_all add: all LOOKBACK_TRADES_def del: replicate.simps)
  have one: "fl (- 1) = - 1" by code_simp
  have a: "after_candle 0 c demo_losses = (None, demo_losses)" for c
    by (simp add: after_candle_def process_candle_def demo_losses_def new_paper_trader_def)
  have n: "length (tick_bars (aw_db demo_losses) ''BTC/USDT'' ''4h'') = 60"
    using demo_market_bars(1) [of 96] by (simp add: demo_losses_def load_recent_candles_def)
  show ?thesis
    by (rule losing_model_opens_nothing [OF a, of _ _ ?t]) (simp_all add: n r one MIN_BARS_REQUIRED_def)
qed

end
