(* ===== verification/Ingestion.thy ===== *)
theory Ingestion
  imports Tables
begin

text \<open>
  \<open>services/market_data/ingestion.py\<close> and the exchange client of \<open>services/market_data/binance.py\<close>: paging
  through an exchange's history and storing what is not stored yet.  The exchange's answers and the clock are
  functions of the number of the request, so that both may change while a back-fill runs.
\<close>

section \<open>Requests\<close>

record ohlcv =
  oh_timestamp :: datetime
  oh_open :: f64
  oh_high :: f64
  oh_low :: f64
  oh_close :: f64
  oh_volume :: f64
  oh_timeframe :: string
  oh_symbol :: string

record exchange_feed =
  xf_ohlcv :: "nat \<Rightarrow> string \<Rightarrow> string \<Rightarrow> datetime \<Rightarrow> nat \<Rightarrow> ohlcv list result"
  xf_funding :: "nat \<Rightarrow> string \<Rightarrow> datetime \<Rightarrow> nat \<Rightarrow> funding_rate list result"
  xf_open_interest :: "string \<Rightarrow> string \<Rightarrow> datetime \<Rightarrow> nat \<Rightarrow> open_interest_record list result"
  xf_liquidations :: "string \<Rightarrow> nat \<Rightarrow> liquidation_event list result"
  xf_now :: "nat \<Rightarrow> datetime"

text \<open>
  The client around the exchange library: at most three attempts, none after the library says that it does not support the
  call; the waits between them are part of the answer.
\<close>

datatype 'a call_outcome = CALL_OK 'a | CALL_NOT_SUPPORTED | CALL_FAILED

definition RETRYABLE_MAX_ATTEMPTS :: nat where "RETRYABLE_MAX_ATTEMPTS = 3"
definition RETRYABLE_BASE_DELAY_SECONDS :: int where "RETRYABLE_BASE_DELAY_SECONDS = 1"

fun retry_from :: "nat \<Rightarrow> nat \<Rightarrow> (nat \<Rightarrow> 'a call_outcome) \<Rightarrow> 'a result \<times> int list" where
  "retry_from 0 attempt fn = (Inl ExchangeDataUnavailable, [])"
| "retry_from (Suc left) attempt fn =
     (case fn attempt of
        CALL_OK a \<Rightarrow> (Inr a, [])
      | CALL_NOT_SUPPORTED \<Rightarrow> (Inl ExchangeCapabilityUnsupported, [])
      | CALL_FAILED \<Rightarrow>
          (let (r, waits) = retry_from left (attempt + 1) fn
           in (r, (if attempt < RETRYABLE_MAX_ATTEMPTS then [RETRYABLE_BASE_DELAY_SECONDS * 2 ^ (attempt - 1)] else []) @ waits)))"

definition with_retries :: "(nat \<Rightarrow> 'a call_outcome) \<Rightarrow> 'a result \<times> int list" where
  "with_retries fn = retry_from RETRYABLE_MAX_ATTEMPTS 1 fn"

text \<open>
  \<open>since.timestamp()\<close> reads a naive time as local time, \<open>offset\<close> ahead of UTC; a reply's
  milliseconds are read as UTC.
\<close>

definition since_ms :: "timedelta \<Rightarrow> datetime \<Rightarrow> int" where
  "since_ms offset since = py_int (fmul (total_seconds (since - offset)) 1000)"

definition ms_to_utc_naive :: "int \<Rightarrow> datetime" where
  "ms_to_utc_naive ms = timedelta_seconds (fdiv (float_of_int ms) 1000)"

section \<open>Inserting what is new\<close>

text \<open>\<open>INSERT ... ON CONFLICT DO NOTHING\<close> under a unique index on the key.\<close>

definition insert_ignoring_conflicts :: "('r \<Rightarrow> 'k) \<Rightarrow> 'r list \<Rightarrow> 'r list \<Rightarrow> 'r list" where
  "insert_ignoring_conflicts key new rows =
     foldl (\<lambda>rs r. if key r \<in> key ` set rs then rs else rs @ [r]) rows new"

definition candle_key :: "candle \<Rightarrow> string \<times> string \<times> datetime" where
  "candle_key c = (cd_symbol c, cd_timeframe c, cd_timestamp c)"

definition funding_key :: "funding_rate \<Rightarrow> string \<times> datetime" where
  "funding_key r = (fg_symbol r, fg_timestamp r)"

definition open_interest_key :: "open_interest_record \<Rightarrow> string \<times> datetime" where
  "open_interest_key r = (oi_symbol r, oi_timestamp r)"

definition candle_row :: "ohlcv \<Rightarrow> candle" where
  "candle_row c = \<lparr>cd_timestamp = oh_timestamp c, cd_timeframe = oh_timeframe c, cd_open = oh_open c, cd_high = oh_high c,
     cd_low = oh_low c, cd_close = oh_close c, cd_volume = oh_volume c, cd_symbol = oh_symbol c, cd_quality_status = ''valid''\<rparr>"

definition bulk_insert_candles :: "ohlcv list \<Rightarrow> db \<Rightarrow> nat \<times> db" where
  "bulk_insert_candles cs d =
     (let rows = insert_ignoring_conflicts candle_key (map candle_row cs) (db_candles d)
      in (length rows - length (db_candles d), d\<lparr>db_candles := rows\<rparr>))"

text \<open>\<open>rowcount if rowcount and rowcount >= 0 else len(rows)\<close>\<close>

definition reported_count :: "nat \<Rightarrow> nat \<Rightarrow> nat" where
  "reported_count rowcount n = (if rowcount \<noteq> 0 then rowcount else n)"

section \<open>Candles\<close>

definition TIMEFRAME_TO_TIMEDELTA :: "(string \<times> timedelta) list" where
  "TIMEFRAME_TO_TIMEDELTA = [(''1m'', minute_us), (''5m'', 5 * minute_us), (''15m'', 15 * minute_us), (''1h'', hour_us),
     (''4h'', 4 * hour_us), (''1d'', day_us), (''1w'', 7 * day_us)]"

definition timeframe_delta :: "string \<Rightarrow> timedelta" where
  "timeframe_delta tf = (case map_of TIMEFRAME_TO_TIMEDELTA tf of Some t \<Rightarrow> t | None \<Rightarrow> minute_us)"

lemma timeframe_delta_pos: "0 < timeframe_delta tf"
  by (simp add: timeframe_delta_def TIMEFRAME_TO_TIMEDELTA_def time_units)

text \<open>
  \<open>_backfill_range\<close>: \<open>n\<close> counts the requests, \<open>empties\<close> the empty pages in a row.  The loop
  ends because every page but one empty one moves \<open>since\<close> forward by at least the interval.
\<close>

function backfill_range ::
  "exchange_feed \<Rightarrow> string \<Rightarrow> string \<Rightarrow> datetime \<Rightarrow> datetime \<Rightarrow> nat \<Rightarrow> nat \<Rightarrow> nat \<Rightarrow> datetime \<Rightarrow> nat \<Rightarrow> db \<Rightarrow> nat result \<times> nat \<times> db" where
  "backfill_range X symbol tf a b page_limit n empties since total_stored d =
     (if b \<le> since then (Inr total_stored, n, d)
      else case xf_ohlcv X n symbol tf since page_limit of
        Inl x \<Rightarrow> (Inl x, n + 1, d)
      | Inr page \<Rightarrow>
          (let candles = filter (\<lambda>c. a \<le> oh_timestamp c \<and> oh_timestamp c \<le> b) page; interval = timeframe_delta tf
           in if candles = [] then
                if 2 \<le> empties + 1 then (Inr total_stored, n + 1, d)
                else backfill_range X symbol tf a b page_limit (n + 1) (empties + 1) (since + interval * int page_limit) total_stored d
              else let closed = filter (\<lambda>c. oh_timestamp c + interval \<le> xf_now X n) candles
              in if closed = [] then (Inr total_stored, n + 1, d)
              else let (stored, d') = bulk_insert_candles closed d; last_ts = oh_timestamp (last closed)
              in if last_ts < since then (Inr (total_stored + stored), n + 1, d')
                 else backfill_range X symbol tf a b page_limit (n + 1) 0 (last_ts + interval) (total_stored + stored) d'))"
  by pat_completeness auto

termination
proof (relation "measures [\<lambda>(X, symbol, tf, a, b, l, n, empties, since, t, d). nat (b - since),
    \<lambda>(X, symbol, tf, a, b, l, n, empties, since, t, d). 2 - empties]", goal_cases)
  case 1
  then show ?case by simp
next
  case (2 X symbol tf a b l n empties since t d page candles interval)
  then show ?case using timeframe_delta_pos [of tf] by (cases l) auto
next
  case (3 X symbol tf a b l n empties since t d page candles interval closed xa stored d' last_ts)
  then show ?case using timeframe_delta_pos [of tf] by simp
qed

declare backfill_range.simps [simp del]

definition stored_times :: "string \<Rightarrow> string \<Rightarrow> db \<Rightarrow> datetime set" where
  "stored_times symbol tf d = cd_timestamp ` set (filter (\<lambda>c. cd_symbol c = symbol \<and> cd_timeframe c = tf) (db_candles d))"

definition min_candle_timestamp :: "string \<Rightarrow> string \<Rightarrow> db \<Rightarrow> datetime option" where
  "min_candle_timestamp symbol tf d = (let ts = stored_times symbol tf d in if ts = {} then None else Some (Min ts))"

definition max_candle_timestamp :: "string \<Rightarrow> string \<Rightarrow> db \<Rightarrow> datetime option" where
  "max_candle_timestamp symbol tf d = (let ts = stored_times symbol tf d in if ts = {} then None else Some (Max ts))"

text \<open>First the gap before the earliest stored candle, then from the latest on.\<close>

definition backfill ::
  "exchange_feed \<Rightarrow> string \<Rightarrow> string \<Rightarrow> datetime \<Rightarrow> datetime \<Rightarrow> nat \<Rightarrow> db \<Rightarrow> nat result \<times> db" where
  "backfill X symbol tf start end_time page_limit d =
     (let interval = timeframe_delta tf; existing_max = max_candle_timestamp symbol tf d;
          (r1, n1, d1) = (case min_candle_timestamp symbol tf d of
              Some m \<Rightarrow> if start < m then backfill_range X symbol tf start (m - interval) page_limit 0 0 start 0 d else (Inr 0, 0, d)
            | None \<Rightarrow> (Inr 0, 0, d))
      in case r1 of
           Inl x \<Rightarrow> (Inl x, d1)
         | Inr s1 \<Rightarrow>
             let forward_start = (case existing_max of Some m \<Rightarrow> max start (m + interval) | None \<Rightarrow> start)
             in if forward_start < end_time
                then (case backfill_range X symbol tf forward_start end_time page_limit n1 0 forward_start 0 d1 of
                        (Inl x, _, d2) \<Rightarrow> (Inl x, d2) | (Inr s2, _, d2) \<Rightarrow> (Inr (s1 + s2), d2))
                else (Inr s1, d1))"

fun backfill_all_timeframes ::
  "(string \<Rightarrow> exchange_feed) \<Rightarrow> string \<Rightarrow> datetime \<Rightarrow> datetime \<Rightarrow> nat \<Rightarrow> string list \<Rightarrow> db \<Rightarrow> (string \<times> nat) list result \<times> db" where
  "backfill_all_timeframes X symbol start end_time page_limit [] d = (Inr [], d)"
| "backfill_all_timeframes X symbol start end_time page_limit (tf # tfs) d =
     (case backfill (X tf) symbol tf start end_time page_limit d of
        (Inl x, d1) \<Rightarrow> (Inl x, d1)
      | (Inr n, d1) \<Rightarrow>
          (case backfill_all_timeframes X symbol start end_time page_limit tfs d1 of
             (Inl x, d2) \<Rightarrow> (Inl x, d2) | (Inr rs, d2) \<Rightarrow> (Inr ((tf, n) # rs), d2)))"

definition fetch_and_store_candles ::
  "exchange_feed \<Rightarrow> string \<Rightarrow> string \<Rightarrow> datetime \<Rightarrow> nat \<Rightarrow> db \<Rightarrow> nat result \<times> db" where
  "fetch_and_store_candles X symbol tf since limit d =
     (case xf_ohlcv X 0 symbol tf since limit of
        Inl x \<Rightarrow> (Inl x, d)
      | Inr cs \<Rightarrow> let (stored, d') = bulk_insert_candles cs d in (Inr stored, d'))"

text \<open>The job that keeps the candles of the primary strategy up to date.\<close>

definition candle_ingestion_job :: "exchange_feed \<Rightarrow> datetime \<Rightarrow> string \<Rightarrow> string \<Rightarrow> int \<Rightarrow> db \<Rightarrow> nat result \<times> db" where
  "candle_ingestion_job X now symbol tf lookback_hours d = backfill X symbol tf (now - lookback_hours * hour_us) now 1000 d"

definition candle_ohlcv :: "candle \<Rightarrow> ohlcv" where
  "candle_ohlcv r = \<lparr>oh_timestamp = cd_timestamp r, oh_open = cd_open r, oh_high = cd_high r, oh_low = cd_low r, oh_close = cd_close r,
     oh_volume = cd_volume r, oh_timeframe = cd_timeframe r, oh_symbol = cd_symbol r\<rparr>"

definition get_stored_candles :: "db \<Rightarrow> string \<Rightarrow> string \<Rightarrow> datetime option \<Rightarrow> datetime option \<Rightarrow> ohlcv list" where
  "get_stored_candles d symbol tf start end_time =
     map candle_ohlcv (sort_key cd_timestamp (filter (\<lambda>c. cd_symbol c = symbol \<and> cd_timeframe c = tf \<and>
       (case start of None \<Rightarrow> True | Some s \<Rightarrow> s \<le> cd_timestamp c) \<and>
       (case end_time of None \<Rightarrow> True | Some e \<Rightarrow> cd_timestamp c \<le> e)) (db_candles d)))"

definition get_latest_candle :: "db \<Rightarrow> string \<Rightarrow> string \<Rightarrow> ohlcv option" where
  "get_latest_candle d symbol tf =
     map_option candle_ohlcv (first (order_desc cd_timestamp (filter (\<lambda>c. cd_symbol c = symbol \<and> cd_timeframe c = tf) (db_candles d))))"

section \<open>Funding rates, open interest and liquidations\<close>

definition FUNDING_INTERVAL :: timedelta where "FUNDING_INTERVAL = 8 * hour_us"

definition insert_funding :: "funding_rate list \<Rightarrow> db \<Rightarrow> nat \<times> db" where
  "insert_funding history d =
     (let rows = insert_ignoring_conflicts funding_key history (db_funding_rates d)
      in (reported_count (length rows - length (db_funding_rates d)) (length history), d\<lparr>db_funding_rates := rows\<rparr>))"

function backfill_funding_range ::
  "exchange_feed \<Rightarrow> string \<Rightarrow> datetime \<Rightarrow> datetime \<Rightarrow> nat \<Rightarrow> nat \<Rightarrow> nat \<Rightarrow> datetime \<Rightarrow> nat \<Rightarrow> db \<Rightarrow> nat result \<times> nat \<times> db" where
  "backfill_funding_range X symbol a b page_limit n empties since total_stored d =
     (if b \<le> since then (Inr total_stored, n, d)
      else case xf_funding X n symbol since page_limit of
        Inl x \<Rightarrow> (Inl x, n + 1, d)
      | Inr page \<Rightarrow>
          (let history = filter (\<lambda>h. a \<le> fg_timestamp h \<and> fg_timestamp h \<le> b) page
           in if history = [] then
                if 2 \<le> empties + 1 then (Inr total_stored, n + 1, d)
                else backfill_funding_range X symbol a b page_limit (n + 1) (empties + 1) (since + FUNDING_INTERVAL * int page_limit) total_stored d
              else let (stored, d') = insert_funding history d; last_ts = fg_timestamp (last history)
              in if last_ts < since then (Inr (total_stored + stored), n + 1, d')
                 else backfill_funding_range X symbol a b page_limit (n + 1) 0 (last_ts + FUNDING_INTERVAL) (total_stored + stored) d'))"
  by pat_completeness auto

termination
proof (relation "measures [\<lambda>(X, symbol, a, b, l, n, empties, since, t, d). nat (b - since),
    \<lambda>(X, symbol, a, b, l, n, empties, since, t, d). 2 - empties]", goal_cases)
  case 1
  then show ?case by simp
next
  case (2 X symbol a b l n empties since t d page history)
  then show ?case by (cases l) (auto simp: FUNDING_INTERVAL_def hour_us_def)
next
  case (3 X symbol a b l n empties since t d page history xa stored d' last_ts)
  then show ?case by (simp add: FUNDING_INTERVAL_def hour_us_def)
qed

declare backfill_funding_range.simps [simp del]

definition backfill_funding_rates :: "exchange_feed \<Rightarrow> string \<Rightarrow> datetime \<Rightarrow> datetime \<Rightarrow> nat \<Rightarrow> db \<Rightarrow> nat result \<times> db" where
  "backfill_funding_rates X symbol start end_time page_limit d =
     (let ts = fg_timestamp ` set (filter (\<lambda>r. fg_symbol r = symbol) (db_funding_rates d));
          (r1, n1, d1) = (if ts \<noteq> {} \<and> start < Min ts
             then backfill_funding_range X symbol start (Min ts - second_us) page_limit 0 0 start 0 d else (Inr 0, 0, d))
      in case r1 of
           Inl x \<Rightarrow> (Inl x, d1)
         | Inr s1 \<Rightarrow>
             let forward_start = (if ts \<noteq> {} then max start (Max ts + second_us) else start)
             in if forward_start < end_time
                then (case backfill_funding_range X symbol forward_start end_time page_limit n1 0 forward_start 0 d1 of
                        (Inl x, _, d2) \<Rightarrow> (Inl x, d2) | (Inr s2, _, d2) \<Rightarrow> (Inr (s1 + s2), d2))
                else (Inr s1, d1))"

definition backfill_open_interest ::
  "exchange_feed \<Rightarrow> string \<Rightarrow> datetime \<Rightarrow> datetime \<Rightarrow> string \<Rightarrow> nat \<Rightarrow> db \<Rightarrow> nat result \<times> db" where
  "backfill_open_interest X symbol start end_time tf page_limit d =
     (case xf_open_interest X symbol tf start page_limit of
        Inl x \<Rightarrow> (Inl x, d)
      | Inr page \<Rightarrow>
          let history = filter (\<lambda>h. start \<le> oi_timestamp h \<and> oi_timestamp h \<le> end_time) page
          in if history = [] then (Inr 0, d)
             else let rows = insert_ignoring_conflicts open_interest_key history (db_open_interest d)
                  in (Inr (reported_count (length rows - length (db_open_interest d)) (length history)), d\<lparr>db_open_interest := rows\<rparr>))"

text \<open>The index of the table of liquidations is not unique: no row ever conflicts.\<close>

definition fetch_recent_liquidations :: "exchange_feed \<Rightarrow> string \<Rightarrow> nat \<Rightarrow> db \<Rightarrow> nat result \<times> db" where
  "fetch_recent_liquidations X symbol limit d =
     (case xf_liquidations X symbol limit of
        Inl x \<Rightarrow> if x = ExchangeCapabilityUnsupported then (Inr 0, d) else (Inl x, d)
      | Inr ls \<Rightarrow> if ls = [] then (Inr 0, d)
          else (Inr (reported_count (length ls) (length ls)), d\<lparr>db_liquidations := db_liquidations d @ ls\<rparr>))"

section \<open>Inserts that ignore conflicts\<close>

locale ignoring_table =
  fixes key :: "'r \<Rightarrow> 'k"
begin

abbreviation ins :: "'r list \<Rightarrow> 'r list \<Rightarrow> 'r list" where "ins \<equiv> insert_ignoring_conflicts key"

lemma ins_Nil [simp]: "ins [] rows = rows" by (simp add: insert_ignoring_conflicts_def)

lemma ins_Cons: "ins (r # new) rows = ins new (if key r \<in> key ` set rows then rows else rows @ [r])"
  by (simp add: insert_ignoring_conflicts_def)

lemma ins_keys: "key ` set (ins new rows) = key ` set rows \<union> key ` set new"
  by (induction new arbitrary: rows) (auto simp: ins_Cons image_iff)

lemma ins_appends: "\<exists>added. ins new rows = rows @ added \<and> set added \<subseteq> set new"
proof (induction new arbitrary: rows)
  case (Cons r new)
  obtain added where "ins new (if key r \<in> key ` set rows then rows else rows @ [r]) =
      (if key r \<in> key ` set rows then rows else rows @ [r]) @ added" "set added \<subseteq> set new" using Cons by blast
  then show ?case by (auto simp: ins_Cons)
qed simp

lemma ins_distinct: "distinct (map key rows) \<Longrightarrow> distinct (map key (ins new rows))"
  by (induction new arbitrary: rows) (auto simp: ins_Cons)

lemma ins_again: "key ` set new \<subseteq> key ` set rows \<Longrightarrow> ins new rows = rows"
  by (induction new) (auto simp: ins_Cons)

lemma ins_twice: "ins new (ins new rows) = ins new rows"
  by (rule ins_again) (simp add: ins_keys)

end

interpretation candles: ignoring_table candle_key .
interpretation fundings: ignoring_table funding_key .
interpretation interests: ignoring_table open_interest_key .

lemma bulk_insert_rows:
  assumes "bulk_insert_candles cs d = (k, d')"
  shows "\<exists>added. db_candles d' = db_candles d @ added \<and> set added \<subseteq> candle_row ` set cs"
    "candle_key ` set (db_candles d') = candle_key ` set (db_candles d) \<union> (candle_key \<circ> candle_row) ` set cs"
    "distinct (map candle_key (db_candles d)) \<Longrightarrow> distinct (map candle_key (db_candles d'))"
    "d' = d\<lparr>db_candles := db_candles d'\<rparr>"
  using assms candles.ins_appends [of "map candle_row cs" "db_candles d"] candles.ins_keys [of "map candle_row cs" "db_candles d"]
    candles.ins_distinct [of "db_candles d" "map candle_row cs"]
  by (auto simp: bulk_insert_candles_def Let_def image_comp)

section \<open>An exchange that serves a history\<close>

definition serves :: "exchange_feed \<Rightarrow> string \<Rightarrow> string \<Rightarrow> ohlcv list \<Rightarrow> bool" where
  "serves X symbol tf H \<longleftrightarrow>
     (\<forall>n since limit. xf_ohlcv X n symbol tf since limit = Inr (take limit (filter (\<lambda>c. since \<le> oh_timestamp c) H)))"

definition on_grid :: "string \<Rightarrow> string \<Rightarrow> ohlcv list \<Rightarrow> bool" where
  "on_grid symbol tf H \<longleftrightarrow> sorted_wrt (\<lambda>c c'. oh_timestamp c + timeframe_delta tf \<le> oh_timestamp c') H \<and>
     list_all (\<lambda>c. oh_symbol c = symbol \<and> oh_timeframe c = tf) H"

definition candle_stored :: "db \<Rightarrow> ohlcv \<Rightarrow> bool" where
  "candle_stored d c \<longleftrightarrow> candle_key (candle_row c) \<in> candle_key ` set (db_candles d)"

definition closed_by :: "exchange_feed \<Rightarrow> string \<Rightarrow> ohlcv list \<Rightarrow> datetime \<Rightarrow> bool" where
  "closed_by X tf H b \<longleftrightarrow> (\<forall>n. list_all (\<lambda>c. oh_timestamp c \<le> b \<longrightarrow> oh_timestamp c + timeframe_delta tf \<le> xf_now X n) H)"

lemma sorted_prefix:
  assumes "sorted_wrt (\<lambda>c c'. f c + (g :: int) \<le> f c') H" "0 < g" "c \<in> set H" "s \<le> f c" "f c \<le> f z"
    "z \<in> set (take l (filter (\<lambda>c. s \<le> f c) H))"
  shows "c \<in> set (take l (filter (\<lambda>c. s \<le> f c) H))"
  using assms
proof (induction H arbitrary: l)
  case (Cons x H)
  show ?case
  proof (cases "s \<le> f x")
    case True
    then show ?thesis using Cons by (cases l) (auto dest: in_set_takeD)
  next
    case False
    then show ?thesis using Cons by auto
  qed
qed simp

lemma gap_to_next:
  assumes "sorted_wrt (\<lambda>c c'. f c + (g :: int) \<le> f c') H" "0 < g" "c \<in> set H" "z \<in> set H" "f z < f c"
  shows "f z + g \<le> f c"
  using assms by (induction H) fastforce+

lemma bulk_insert_stored:
  assumes "bulk_insert_candles cs d = (k, d')"
  shows "candle_stored d' c \<longleftrightarrow> candle_stored d c \<or> candle_key (candle_row c) \<in> (candle_key \<circ> candle_row) ` set cs"
  using bulk_insert_rows(2) [OF assms] by (simp add: candle_stored_def)

lemma range_page_step:
  assumes "on_grid symbol tf H" "a \<le> since" "since \<le> oh_timestamp c" "oh_timestamp c \<le> b" "c \<in> set H"
    and page: "cs = filter (\<lambda>c. a \<le> oh_timestamp c \<and> oh_timestamp c \<le> b) (take limit (filter (\<lambda>c. since \<le> oh_timestamp c) H))"
    and "0 < limit"
  shows "cs \<noteq> []" "c \<in> set cs \<or> oh_timestamp (last cs) + timeframe_delta tf \<le> oh_timestamp c"
proof -
  let ?P = "take limit (filter (\<lambda>c. since \<le> oh_timestamp c) H)"
  have s: "sorted_wrt (\<lambda>c c'. oh_timestamp c + timeframe_delta tf \<le> oh_timestamp c') H" using assms(1) by (simp add: on_grid_def)
  have cf: "c \<in> set (filter (\<lambda>c. since \<le> oh_timestamp c) H)" using assms by simp
  then obtain z zs where z: "filter (\<lambda>c. since \<le> oh_timestamp c) H = z # zs" by (cases "filter (\<lambda>c. since \<le> oh_timestamp c) H") auto
  have zP: "z \<in> set ?P" using z \<open>0 < limit\<close> by (cases limit) auto
  have "sorted_wrt (\<lambda>c c'. oh_timestamp c + timeframe_delta tf \<le> oh_timestamp c') (z # zs)"
    using sorted_wrt_filter [OF s, of "\<lambda>c. since \<le> oh_timestamp c"] by (simp add: z)
  then have zc: "oh_timestamp z \<le> oh_timestamp c" using cf timeframe_delta_pos [of tf] by (force simp: z)
  have zs: "since \<le> oh_timestamp z" using zP by (auto dest: in_set_takeD)
  have "z \<in> set cs" using zP zs zc assms(2,4) by (simp add: page)
  then show ne: "cs \<noteq> []" by auto
  show "c \<in> set cs \<or> oh_timestamp (last cs) + timeframe_delta tf \<le> oh_timestamp c"
  proof (cases "oh_timestamp c \<le> oh_timestamp (last cs)")
    case True
    have "last cs \<in> set ?P" using ne last_in_set [of cs] by (simp add: page)
    then have "c \<in> set ?P" using sorted_prefix [OF s timeframe_delta_pos] True assms(3,5) by blast
    then show ?thesis using assms(2,3,4) by (simp add: page)
  next
    case False
    have "last cs \<in> set H" using ne last_in_set [of cs] by (auto simp: page dest: in_set_takeD)
    then show ?thesis using gap_to_next [OF s timeframe_delta_pos \<open>c \<in> set H\<close>] False by auto
  qed
qed

lemma backfill_range_complete:
  assumes "serves X symbol tf H" "on_grid symbol tf H" "closed_by X tf H b" "0 < limit" "a \<le> since"
    "\<forall>c\<in>set H. a \<le> oh_timestamp c \<and> oh_timestamp c < since \<and> oh_timestamp c < b \<longrightarrow> candle_stored d c"
  shows "\<exists>k n' d'. backfill_range X symbol tf a b limit n empties since t d = (Inr k, n', d') \<and>
    (\<forall>c\<in>set H. a \<le> oh_timestamp c \<and> oh_timestamp c < b \<longrightarrow> candle_stored d' c) \<and> (\<forall>c. candle_stored d c \<longrightarrow> candle_stored d' c)"
  using assms
proof (induction X symbol tf a b limit n empties since t d rule: backfill_range.induct)
  case (1 X symbol tf a b limit n empties since t d)
  let ?page = "take limit (filter (\<lambda>c. since \<le> oh_timestamp c) H)"
  define cs where "cs = filter (\<lambda>c. a \<le> oh_timestamp c \<and> oh_timestamp c \<le> b) ?page"
  have page: "xf_ohlcv X n symbol tf since limit = Inr ?page" using 1(3) by (simp add: serves_def)
  have inH: "set cs \<subseteq> set H" by (auto simp: cs_def dest: in_set_takeD)
  show ?case
  proof (cases "b \<le> since")
    case True
    then show ?thesis using 1(8) by (subst backfill_range.simps) simp
  next
    case False
    note step = range_page_step [OF 1(4) 1(7) _ _ _ cs_def 1(6)]
    show ?thesis
    proof (cases "cs = []")
      case True
      have none: "\<forall>c\<in>set H. a \<le> oh_timestamp c \<and> oh_timestamp c < b \<longrightarrow> candle_stored d c"
        using step(1) True 1(8) by (metis linorder_not_le order_less_imp_le)
      show ?thesis
      proof (cases "2 \<le> empties + 1")
        case True
        then show ?thesis using none False page \<open>cs = []\<close> by (subst backfill_range.simps) (simp add: cs_def [symmetric])
      next
        case two: False
        have "a \<le> since + timeframe_delta tf * int limit" using 1(7) timeframe_delta_pos [of tf] by (simp add: add_increasing2)
        then show ?thesis using 1(1) [OF False page cs_def refl True two 1(3-6)] none False page True two
          by (subst backfill_range.simps) (simp add: cs_def [symmetric])
      qed
    next
      case ne: False
      have closed: "filter (\<lambda>c. oh_timestamp c + timeframe_delta tf \<le> xf_now X n) cs = cs"
        using 1(5) inH by (intro filter_True) (auto simp: closed_by_def list_all_iff cs_def)
      obtain k d' where ins: "bulk_insert_candles cs d = (k, d')" by (cases "bulk_insert_candles cs d")
      have mono: "candle_stored d c \<longrightarrow> candle_stored d' c" for c using bulk_insert_stored [OF ins] by simp
      have new: "c \<in> set cs \<longrightarrow> candle_stored d' c" for c using bulk_insert_stored [OF ins] by simp
      have last: "since \<le> oh_timestamp (last cs)"
        using last_in_set [OF ne] by (auto simp: cs_def dest: in_set_takeD)
      have upto_last: "\<forall>c\<in>set H. a \<le> oh_timestamp c \<and> oh_timestamp c < oh_timestamp (last cs) + timeframe_delta tf \<and> oh_timestamp c < b \<longrightarrow> candle_stored d' c"
        using step(2) 1(8) mono new by (metis linorder_not_le order_less_imp_le)
      have "a \<le> oh_timestamp (last cs) + timeframe_delta tf" using last 1(7) timeframe_delta_pos [of tf] by simp
      then show ?thesis
        using 1(2) [OF False page cs_def refl ne closed [symmetric] ne refl ins [symmetric] refl _ 1(3-6)] upto_last False page ne last mono
        by (subst backfill_range.simps) (fastforce simp: cs_def [symmetric] closed ins)
    qed
  qed
qed

lemma closed_by_mono: "closed_by X tf H b \<Longrightarrow> b' \<le> b \<Longrightarrow> closed_by X tf H b'"
  by (fastforce simp: closed_by_def list_all_iff)

text \<open>The part of \<open>backfill\<close> after the earlier gap.\<close>

lemma backfill_forward_complete:
  assumes "serves X symbol tf H" "on_grid symbol tf H" "closed_by X tf H e" "0 < limit"
    "\<forall>c\<in>set H. start \<le> oh_timestamp c \<and> oh_timestamp c < fs \<longrightarrow> oh_timestamp c < e \<longrightarrow> P c \<longrightarrow> candle_stored d c" "start \<le> fs"
  shows "\<exists>k d'. (if fs < e
      then (case backfill_range X symbol tf fs e limit n 0 fs 0 d of
              (Inl x, _, d2) \<Rightarrow> (Inl x, d2) | (Inr s2, _, d2) \<Rightarrow> (Inr (s1 + s2), d2))
      else (Inr s1, d)) = (Inr k, d') \<and>
    (\<forall>c\<in>set H. start \<le> oh_timestamp c \<and> oh_timestamp c < e \<and> P c \<longrightarrow> candle_stored d' c)"
proof (cases "fs < e")
  case True
  obtain k n' d' where "backfill_range X symbol tf fs e limit n 0 fs 0 d = (Inr k, n', d')"
      "\<forall>c\<in>set H. fs \<le> oh_timestamp c \<and> oh_timestamp c < e \<longrightarrow> candle_stored d' c" "\<forall>c. candle_stored d c \<longrightarrow> candle_stored d' c"
    using backfill_range_complete [OF assms(1-4) order_refl, of fs d n 0 0] by fastforce
  then show ?thesis using True assms(5) by (auto simp: not_less) (metis linorder_not_le)
next
  case False
  then show ?thesis using assms(5) by auto
qed

text \<open>
  C21: A back-fill stores everything that it was asked for: if the exchange serves its history page by page, the candles of the
  window have closed and what is stored has no hole, every candle from \<open>start\<close> to before
  \<open>end_time\<close> is in the table afterwards, except the one right before the earliest candle that was stored.
\<close>
theorem backfill_complete:
  assumes "serves X symbol tf H" "on_grid symbol tf H" "closed_by X tf H end_time" "0 < limit"
    "stored_times symbol tf d \<subseteq> oh_timestamp ` set H" "\<forall>m\<in>stored_times symbol tf d. m \<le> end_time"
    "\<forall>c\<in>set H. (\<exists>lo\<in>stored_times symbol tf d. lo \<le> oh_timestamp c) \<and> (\<exists>hi\<in>stored_times symbol tf d. oh_timestamp c \<le> hi) \<longrightarrow> candle_stored d c"
  shows "\<exists>k d'. backfill X symbol tf start end_time limit d = (Inr k, d') \<and>
    (\<forall>c\<in>set H. start \<le> oh_timestamp c \<and> oh_timestamp c < end_time \<and>
       min_candle_timestamp symbol tf d \<noteq> Some (oh_timestamp c + timeframe_delta tf) \<longrightarrow> candle_stored d' c)"
proof (cases "stored_times symbol tf d = {}")
  case True
  then show ?thesis
    using backfill_forward_complete [OF assms(1-4), of start start "\<lambda>_. True" d 0 0]
    by (fastforce simp: backfill_def min_candle_timestamp_def max_candle_timestamp_def)
next
  case False
  define lo where "lo = Min (stored_times symbol tf d)"
  define hi where "hi = Max (stored_times symbol tf d)"
  let ?I = "timeframe_delta tf"
  have fin: "finite (stored_times symbol tf d)" by (simp add: stored_times_def)
  have lo: "lo \<in> stored_times symbol tf d" and hi: "hi \<in> stored_times symbol tf d" using fin False by (auto simp: lo_def hi_def)
  have mm: "min_candle_timestamp symbol tf d = Some lo" "max_candle_timestamp symbol tf d = Some hi"
    using False by (simp_all add: min_candle_timestamp_def max_candle_timestamp_def lo_def hi_def Let_def)
  have s: "sorted_wrt (\<lambda>c c'. oh_timestamp c + ?I \<le> oh_timestamp c') H" using assms(2) by (simp add: on_grid_def)
  have stored: "candle_stored d c" if "c \<in> set H" "lo \<le> oh_timestamp c" "oh_timestamp c < hi + ?I" for c
  proof -
    obtain z where "z \<in> set H" "oh_timestamp z = hi" using hi assms(5) by auto
    then have "oh_timestamp c \<le> hi" using gap_to_next [OF s timeframe_delta_pos \<open>c \<in> set H\<close>, of z] that(3) by fastforce
    then show ?thesis using assms(7) that lo hi by blast
  qed
  have before: "oh_timestamp c + ?I \<le> lo" if "c \<in> set H" "oh_timestamp c < lo" for c
    using lo assms(5) gap_to_next [OF s timeframe_delta_pos _ that(1)] that(2) by auto
  obtain r1 n1 d1 where r1: "(if start < lo then backfill_range X symbol tf start (lo - ?I) limit 0 0 start 0 d else (Inr 0, 0, d)) = (Inr r1, n1, d1)"
    and d1: "\<forall>c\<in>set H. start \<le> oh_timestamp c \<and> oh_timestamp c < lo - ?I \<longrightarrow> candle_stored d1 c" "\<forall>c. candle_stored d c \<longrightarrow> candle_stored d1 c"
  proof (cases "start < lo")
    case True
    have "closed_by X tf H (lo - ?I)" using closed_by_mono [OF assms(3)] assms(6) lo timeframe_delta_pos [of tf] by fastforce
    from backfill_range_complete [OF assms(1,2) this assms(4), of start start d 0 0 0] that True show ?thesis by fastforce
  next
    case False
    then show ?thesis using that timeframe_delta_pos [of tf] by fastforce
  qed
  have fwd: "\<forall>c\<in>set H. start \<le> oh_timestamp c \<and> oh_timestamp c < max start (hi + ?I) \<longrightarrow> oh_timestamp c < end_time \<longrightarrow>
      lo \<noteq> oh_timestamp c + ?I \<longrightarrow> candle_stored d1 c"
    using stored before d1 by (smt (verit, best))
  show ?thesis
    using backfill_forward_complete [OF assms(1-4) fwd, of r1 n1] by (simp add: backfill_def mm Let_def r1 split del: if_split)
qed

section \<open>What a back-fill may store\<close>

text \<open>Rows are only appended, each a closed candle of the window that the exchange returned; no key is stored twice.\<close>

definition appends_closed :: "exchange_feed \<Rightarrow> string \<Rightarrow> datetime \<Rightarrow> datetime \<Rightarrow> db \<Rightarrow> db \<Rightarrow> bool" where
  "appends_closed X tf a b d d' \<longleftrightarrow>
     d' = d\<lparr>db_candles := db_candles d'\<rparr> \<and>
     (\<exists>added. db_candles d' = db_candles d @ added \<and>
        (\<forall>r\<in>set added. a \<le> cd_timestamp r \<and> cd_timestamp r \<le> b \<and> cd_quality_status r = ''valid'' \<and>
           (\<exists>n. cd_timestamp r + timeframe_delta tf \<le> xf_now X n))) \<and>
     (distinct (map candle_key (db_candles d)) \<longrightarrow> distinct (map candle_key (db_candles d')))"

lemma appends_closed_refl [simp]: "appends_closed X tf a b d d"
  by (simp add: appends_closed_def)

lemma appends_closed_trans:
  assumes "appends_closed X tf a b d d'" "appends_closed X tf a' b' d' d''" "lo \<le> a" "lo \<le> a'" "b \<le> hi" "b' \<le> hi"
  shows "appends_closed X tf lo hi d d''"
proof -
  obtain as bs where "db_candles d' = db_candles d @ as" "db_candles d'' = db_candles d' @ bs"
    "\<forall>r\<in>set as. a \<le> cd_timestamp r \<and> cd_timestamp r \<le> b \<and> cd_quality_status r = ''valid'' \<and> (\<exists>n. cd_timestamp r + timeframe_delta tf \<le> xf_now X n)"
    "\<forall>r\<in>set bs. a' \<le> cd_timestamp r \<and> cd_timestamp r \<le> b' \<and> cd_quality_status r = ''valid'' \<and> (\<exists>n. cd_timestamp r + timeframe_delta tf \<le> xf_now X n)"
    using assms(1,2) unfolding appends_closed_def by blast
  then have "db_candles d'' = db_candles d @ (as @ bs)"
    "\<forall>r\<in>set (as @ bs). lo \<le> cd_timestamp r \<and> cd_timestamp r \<le> hi \<and> cd_quality_status r = ''valid'' \<and> (\<exists>n. cd_timestamp r + timeframe_delta tf \<le> xf_now X n)"
    using assms(3-6) by fastforce+
  moreover have "d'' = d\<lparr>db_candles := db_candles d''\<rparr>"
  proof -
    have "d'' = d'\<lparr>db_candles := db_candles d''\<rparr>" using assms(2) by (simp add: appends_closed_def)
    also have "\<dots> = d\<lparr>db_candles := db_candles d'\<rparr>\<lparr>db_candles := db_candles d''\<rparr>"
      by (rule arg_cong [where f = "db_candles_update (\<lambda>_. db_candles d'')"]) (use assms(1) in \<open>simp add: appends_closed_def\<close>)
    finally show ?thesis by simp
  qed
  moreover have "distinct (map candle_key (db_candles d)) \<longrightarrow> distinct (map candle_key (db_candles d''))"
    using assms(1,2) unfolding appends_closed_def by blast
  ultimately show ?thesis unfolding appends_closed_def by blast
qed

lemma bulk_insert_closed:
  assumes "bulk_insert_candles cs d = (k, d')"
    "\<forall>c\<in>set cs. a \<le> oh_timestamp c \<and> oh_timestamp c \<le> b \<and> oh_timestamp c + timeframe_delta tf \<le> xf_now X n"
  shows "appends_closed X tf a b d d'"
proof -
  obtain added where "db_candles d' = db_candles d @ added" "set added \<subseteq> candle_row ` set cs"
    using bulk_insert_rows(1) [OF assms(1)] by blast
  moreover then have "\<forall>r\<in>set added. a \<le> cd_timestamp r \<and> cd_timestamp r \<le> b \<and> cd_quality_status r = ''valid'' \<and>
      cd_timestamp r + timeframe_delta tf \<le> xf_now X n"
    using assms(2) by (fastforce simp: candle_row_def)
  ultimately show ?thesis unfolding appends_closed_def using bulk_insert_rows(3,4) [OF assms(1)] by blast
qed

lemma backfill_range_appends:
  "appends_closed X tf a b d (snd (snd (backfill_range X symbol tf a b limit n empties since t d)))"
proof (induction X symbol tf a b limit n empties since t d rule: backfill_range.induct)
  case (1 X symbol tf a b limit n empties since t d)
  show ?case
  proof (cases "b \<le> since \<or> (\<exists>x. xf_ohlcv X n symbol tf since limit = Inl x)")
    case True
    then show ?thesis by (subst backfill_range.simps) auto
  next
    case False
    then obtain page where F: "\<not> b \<le> since" and page: "xf_ohlcv X n symbol tf since limit = Inr page" by (cases "xf_ohlcv X n symbol tf since limit") auto
    define cs where "cs = filter (\<lambda>c. a \<le> oh_timestamp c \<and> oh_timestamp c \<le> b) page"
    define closed where "closed = filter (\<lambda>c. oh_timestamp c + timeframe_delta tf \<le> xf_now X n) cs"
    obtain k d' where ins: "bulk_insert_candles closed d = (k, d')" by (cases "bulk_insert_candles closed d")
    have one: "appends_closed X tf a b d d'"
      by (rule bulk_insert_closed [OF ins, of a b tf X n]) (simp add: closed_def cs_def)
    note unf = F page cs_def [symmetric] closed_def [symmetric] ins
    consider "cs = []" "2 \<le> empties + 1" | "cs = []" "\<not> 2 \<le> empties + 1" | "cs \<noteq> []" "closed = []"
      | "cs \<noteq> []" "closed \<noteq> []" "oh_timestamp (last closed) < since"
      | "cs \<noteq> []" "closed \<noteq> []" "\<not> oh_timestamp (last closed) < since" by blast
    then show ?thesis
    proof cases
      case 2
      from 1(1) [OF F page cs_def refl 2] show ?thesis using 2 by (subst backfill_range.simps) (simp add: unf)
    next
      case 5
      from 1(2) [OF F page cs_def refl 5(1) closed_def 5(2) refl ins [symmetric] refl 5(3)]
      show ?thesis using 5 appends_closed_trans [OF one] by (subst backfill_range.simps) (simp add: unf)
    qed (subst backfill_range.simps; simp add: unf one)+
  qed
qed

lemma backfill_range_appends':
  "backfill_range X symbol tf a b limit n empties since t d = (r, n', d') \<Longrightarrow> appends_closed X tf a b d d'"
  using backfill_range_appends [of X tf a b d symbol limit n empties since t] by simp

lemma backfill_forward_appends:
  assumes "forward_start \<le> end_time \<longrightarrow> lo \<le> forward_start" "end_time \<le> hi"
    "appends_closed X tf lo b0 d d1" "b0 \<le> hi"
  shows "appends_closed X tf lo hi d (snd (if forward_start < end_time
      then (case backfill_range X symbol tf forward_start end_time limit n1 0 forward_start 0 d1 of
              (Inl x, _, d2) \<Rightarrow> (Inl x, d2) | (Inr s2, _, d2) \<Rightarrow> (Inr (s1 + s2), d2))
      else (Inr s1, d1)))"
proof (cases "forward_start < end_time")
  case True
  obtain r n' d2 where r: "backfill_range X symbol tf forward_start end_time limit n1 0 forward_start 0 d1 = (r, n', d2)"
    by (cases "backfill_range X symbol tf forward_start end_time limit n1 0 forward_start 0 d1")
  from appends_closed_trans [OF assms(3) backfill_range_appends' [OF r], of lo hi] show ?thesis
    using True assms by (cases r) (simp_all add: r)
next
  case False
  then show ?thesis using appends_closed_trans [OF assms(3) appends_closed_refl, of lo lo hi b0] assms by simp
qed

text \<open>
  Whatever the exchange answers, a back-fill only appends: rows from \<open>start\<close> on, none after
  \<open>end_time\<close> (or the earliest stored candle, if that is later), each of them closed by the clock that the service read, and
  no candle is stored twice.
\<close>
theorem backfill_appends_closed:
  "appends_closed X tf start (case min_candle_timestamp symbol tf d of None \<Rightarrow> end_time | Some m \<Rightarrow> max m end_time) d
     (snd (backfill X symbol tf start end_time limit d))"
proof (cases "min_candle_timestamp symbol tf d")
  case None
  then have "stored_times symbol tf d = {}" by (simp add: min_candle_timestamp_def Let_def split: if_splits)
  then show ?thesis using backfill_forward_appends [where forward_start = start and lo = start and hi = end_time and ?b0.0 = end_time and ?d1.0 = d and d = d
        and ?n1.0 = 0 and ?s1.0 = 0 and X = X and tf = tf and symbol = symbol and limit = limit and end_time = end_time] None
    by (cases "start < end_time") (simp_all add: backfill_def max_candle_timestamp_def)
next
  case (Some m)
  then obtain hi where hi: "max_candle_timestamp symbol tf d = Some hi"
    by (auto simp: min_candle_timestamp_def max_candle_timestamp_def Let_def split: if_splits)
  obtain r1 n1 d1 where r1: "(if start < m then backfill_range X symbol tf start (m - timeframe_delta tf) limit 0 0 start 0 d else (Inr 0, 0, d)) = (r1, n1, d1)"
    by (metis prod_cases3)
  then have a: "appends_closed X tf start m d d1"
    using backfill_range_appends' [of X symbol tf start "m - timeframe_delta tf" limit 0 0 start 0 d r1 n1 d1] timeframe_delta_pos [of tf]
      appends_closed_trans [OF _ appends_closed_refl, of X tf start "m - timeframe_delta tf" d d1 start start m m]
    by (auto split: if_splits)
  have a': "appends_closed X tf start (max m end_time) d d1"
    by (rule appends_closed_trans [OF a appends_closed_refl, of start start "max m end_time" m]) simp_all
  show ?thesis
  proof (cases r1)
    case (Inl x)
    then show ?thesis using a' by (simp add: backfill_def Some r1)
  next
    case (Inr s1)
    show ?thesis
      using backfill_forward_appends [OF _ _ a, where forward_start = "max start (hi + timeframe_delta tf)" and end_time = end_time and hi = "max m end_time"
        and symbol = symbol and limit = limit and ?n1.0 = n1 and ?s1.0 = s1]
      by (simp add: backfill_def Some hi r1 Inr Let_def split del: if_split)
  qed
qed

text \<open>
  A back-fill that is to start one candle before the earliest stored one never asks for it: the range that it pages
  through is empty, and the other one starts after the latest stored candle.
\<close>
theorem candle_before_earliest_missed:
  assumes "min_candle_timestamp symbol tf d = Some (start + timeframe_delta tf)"
    "oh_symbol c = symbol" "oh_timeframe c = tf" "oh_timestamp c = start"
  shows "\<not> candle_stored (snd (backfill X symbol tf start end_time limit d)) c"
proof -
  let ?I = "timeframe_delta tf"
  have ne: "stored_times symbol tf d \<noteq> {}" and mn: "Min (stored_times symbol tf d) = start + ?I"
    using assms(1) by (auto simp: min_candle_timestamp_def Let_def split: if_splits)
  have fin: "finite (stored_times symbol tf d)" by (simp add: stored_times_def)
  define hi where "hi = Max (stored_times symbol tf d)"
  have mx: "max_candle_timestamp symbol tf d = Some hi" using ne by (simp add: max_candle_timestamp_def hi_def Let_def)
  have "start + ?I \<le> hi" using Min_le [OF fin, of hi] ne Max_in [OF fin ne] mn by (simp add: hi_def)
  have mx2: "max start (hi + ?I) = hi + ?I" using \<open>start + ?I \<le> hi\<close> timeframe_delta_pos [of tf] by simp
  have not_in: "start \<notin> stored_times symbol tf d" using Min_le [OF fin, of start] mn timeframe_delta_pos [of tf] by auto
  have "backfill_range X symbol tf start start limit 0 0 start 0 d = (Inr 0, 0, d)" by (subst backfill_range.simps) simp
  then have "appends_closed X tf (hi + ?I) (max end_time (hi + ?I)) d (snd (backfill X symbol tf start end_time limit d))"
    using backfill_forward_appends [where forward_start = "hi + ?I" and end_time = end_time and lo = "hi + ?I" and hi = "max end_time (hi + ?I)" and X = X
        and tf = tf and ?b0.0 = "hi + ?I" and d = d and ?d1.0 = d and symbol = symbol and limit = limit and ?n1.0 = 0 and ?s1.0 = 0]
      \<open>start + ?I \<le> hi\<close> timeframe_delta_pos [of tf]
    by (simp add: backfill_def assms(1) mx Let_def mx2 split del: if_split)
  then have "\<forall>r\<in>set (db_candles (snd (backfill X symbol tf start end_time limit d))). r \<in> set (db_candles d) \<or> hi + ?I \<le> cd_timestamp r"
    by (auto simp: appends_closed_def)
  then show ?thesis using not_in assms(2-4) \<open>start + ?I \<le> hi\<close> timeframe_delta_pos [of tf]
    by (fastforce simp: candle_stored_def candle_key_def candle_row_def stored_times_def)
qed

section \<open>Running an ingestion again\<close>

text \<open>
  Fetching the same page again stores nothing: the candles report that, the open interest
  reports all records of the page as stored.
\<close>
theorem ingested_again:
  "(case fetch_and_store_candles X symbol tf since limit d of (Inl x, d1) \<Rightarrow> d1 = d
    | (Inr k, d1) \<Rightarrow> fetch_and_store_candles X symbol tf since limit d1 = (Inr 0, d1)) \<and>
   (case backfill_open_interest X symbol start end_time tf limit d of (Inl x, d1) \<Rightarrow> d1 = d
    | (Inr k, d1) \<Rightarrow> backfill_open_interest X symbol start end_time tf limit d1 =
        (Inr (length (filter (\<lambda>h. start \<le> oi_timestamp h \<and> oi_timestamp h \<le> end_time)
           (case xf_open_interest X symbol tf start limit of Inl x \<Rightarrow> [] | Inr page \<Rightarrow> page))), d1))"
  by (auto simp: fetch_and_store_candles_def bulk_insert_candles_def backfill_open_interest_def reported_count_def Let_def
      candles.ins_twice interests.ins_twice split: sum.splits)

text \<open>
  Liquidations are stored again with every fetch.
\<close>
theorem liquidations_stored_again:
  assumes "xf_liquidations X symbol limit = Inr ls"
  shows "count_list (db_liquidations (snd (fetch_recent_liquidations X symbol limit d))) l = count_list (db_liquidations d) l + count_list ls l"
  using assms by (simp add: fetch_recent_liquidations_def)

section \<open>Times\<close>

text \<open>
  What is asked for and what comes back are the same instant only where local time is UTC: elsewhere the exchange is asked for
  candles from a time that is off by the local offset.
\<close>
theorem requested_instant:
  assumes "\<bar>s\<bar> \<le> 2 ^ 40"
  shows "ms_to_utc_naive (since_ms offset (offset + s * second_us)) = s * second_us"
proof -
  have b: "\<bar>s * 1000\<bar> \<le> 2 ^ 53" using assms by (simp add: abs_mult)
  have s1: "fl (of_int s) = of_int s" using assms by (intro fl_of_int) simp
  have s2: "fl (of_int s * 1000) = of_int s * 1000" using fl_of_int [OF b] by simp
  have "since_ms offset (offset + s * second_us) = s * 1000"
    by (simp add: since_ms_def total_seconds_def fmul_def second_us_def s1 s2 py_int_def)
       (metis of_int_numeral of_int_mult floor_of_int ceiling_of_int)
  then show ?thesis
    by (simp add: ms_to_utc_naive_def float_of_int_def fdiv_def s1 s2 timedelta_seconds_of_int)
qed

section \<open>Witnesses\<close>

definition demo_minute :: "int \<Rightarrow> ohlcv" where
  "demo_minute k = \<lparr>oh_timestamp = k * minute_us, oh_open = 1, oh_high = 1, oh_low = 1, oh_close = 1, oh_volume = 1,
     oh_timeframe = ''1m'', oh_symbol = ''BTC''\<rparr>"

definition demo_history :: "ohlcv list" where "demo_history = map demo_minute [0, 1, 2, 3]"

definition demo_feed :: exchange_feed where
  "demo_feed = \<lparr>xf_ohlcv = \<lambda>n symbol tf since limit. Inr (take limit (filter (\<lambda>c. since \<le> oh_timestamp c) demo_history)),
     xf_funding = \<lambda>n symbol since limit. Inr [], xf_open_interest = \<lambda>symbol tf since limit. Inr [],
     xf_liquidations = \<lambda>symbol limit. Inr [\<lparr>li_symbol = symbol, li_timestamp = 0, li_side = ''long'', li_price = 1, li_quantity = 1\<rparr>],
     xf_now = \<lambda>n. day_us\<rparr>"

definition demo_candles_db :: db where "demo_candles_db = empty_db\<lparr>db_candles := [candle_row (demo_minute 2)]\<rparr>"

lemmas demo_ingestion_simps = demo_feed_def demo_history_def demo_minute_def candle_row_def time_units
  demo_candles_db_def stored_times_def timeframe_delta_def TIMEFRAME_TO_TIMEDELTA_def

lemma demo_minute_times: "stored_times ''BTC'' ''1m'' demo_candles_db = {2 * minute_us}"
  by (simp add: demo_ingestion_simps)

theorem backfill_complete_witness:
  "\<exists>k d'. backfill demo_feed ''BTC'' ''1m'' 0 (4 * minute_us) 2 demo_candles_db = (Inr k, d') \<and>
     candle_stored d' (demo_minute 0) \<and> candle_stored d' (demo_minute 3)"
proof -
  have "serves demo_feed ''BTC'' ''1m'' demo_history" by (simp add: serves_def demo_feed_def)
  moreover have "on_grid ''BTC'' ''1m'' demo_history" by (simp add: on_grid_def demo_ingestion_simps)
  moreover have "closed_by demo_feed ''1m'' demo_history (4 * minute_us)" by (simp add: closed_by_def demo_ingestion_simps)
  moreover have "stored_times ''BTC'' ''1m'' demo_candles_db \<subseteq> oh_timestamp ` set demo_history"
    by (simp add: demo_minute_times) (simp add: demo_ingestion_simps)
  moreover have "\<forall>m\<in>stored_times ''BTC'' ''1m'' demo_candles_db. m \<le> 4 * minute_us" by (simp add: demo_minute_times time_units)
  moreover have "\<forall>c\<in>set demo_history. (\<exists>lo\<in>stored_times ''BTC'' ''1m'' demo_candles_db. lo \<le> oh_timestamp c) \<and>
      (\<exists>hi\<in>stored_times ''BTC'' ''1m'' demo_candles_db. oh_timestamp c \<le> hi) \<longrightarrow> candle_stored demo_candles_db c"
    by (simp add: demo_minute_times) (simp add: demo_ingestion_simps candle_stored_def candle_key_def)
  ultimately obtain k d' where "backfill demo_feed ''BTC'' ''1m'' 0 (4 * minute_us) 2 demo_candles_db = (Inr k, d')"
    "\<forall>c\<in>set demo_history. 0 \<le> oh_timestamp c \<and> oh_timestamp c < 4 * minute_us \<and>
       min_candle_timestamp ''BTC'' ''1m'' demo_candles_db \<noteq> Some (oh_timestamp c + timeframe_delta ''1m'') \<longrightarrow> candle_stored d' c"
    using backfill_complete [of demo_feed "''BTC''" "''1m''" demo_history "4 * minute_us" 2 demo_candles_db 0] by auto
  moreover have "min_candle_timestamp ''BTC'' ''1m'' demo_candles_db = Some (2 * minute_us)"
    by (simp add: min_candle_timestamp_def demo_minute_times)
  ultimately show ?thesis by (simp add: demo_ingestion_simps)
qed

theorem candle_before_earliest_missed_witness:
  "\<not> candle_stored (snd (backfill demo_feed ''BTC'' ''1m'' minute_us (4 * minute_us) 2 demo_candles_db)) (demo_minute 1)"
  by (rule candle_before_earliest_missed)
    (simp_all add: min_candle_timestamp_def demo_minute_times, simp_all add: demo_ingestion_simps)

theorem liquidations_stored_again_witness:
  "count_list (db_liquidations (snd (fetch_recent_liquidations demo_feed ''BTC'' 5 (snd (fetch_recent_liquidations demo_feed ''BTC'' 5 empty_db)))))
     \<lparr>li_symbol = ''BTC'', li_timestamp = 0, li_side = ''long'', li_price = 1, li_quantity = 1\<rparr> = 2"
proof -
  have "xf_liquidations demo_feed ''BTC'' 5 = Inr [\<lparr>li_symbol = ''BTC'', li_timestamp = 0, li_side = ''long'', li_price = 1, li_quantity = 1\<rparr>]"
    by (simp add: demo_feed_def)
  from liquidations_stored_again [OF this] show ?thesis by (simp add: empty_db_def)
qed

theorem requested_instant_witness:
  "ms_to_utc_naive (since_ms (19800 * second_us) (1700000000 * second_us)) = 1699980200 * second_us"
  using requested_instant [of 1699980200 "19800 * second_us"] by (simp add: second_us_def)

end
