(* ===== verification/Runner.thy ===== *)
theory Runner
  imports CircuitBreaker AccountSync AiPaper Ingestion
begin

text \<open>
  \<open>services/scheduler/runner.py\<close> and the remaining jobs of \<open>services/scheduler/jobs.py\<close>: eight jobs behind
  eight circuit breakers, seven loops that run them, the watchdog that cuts a tick after a minute, and the heartbeat.  A tick is one step;
  what the world answers during a tick, and where the tick hangs if it does, is part of the event that
  starts it.
\<close>

section \<open>Jobs\<close>

datatype job = ACCOUNT_SYNC | EXIT_ALERTS | SIGNAL_GENERATION | SIGNAL_GENERATION_15M | OUTCOME_EVALUATION
  | CANDLE_INGESTION | LIVE_BREAKOUT | AI_PAPER_TRADING

definition CANDLE_INGESTION_SYMBOL :: string where "CANDLE_INGESTION_SYMBOL = ''BTC/USDT''"
definition CANDLE_INGESTION_TIMEFRAME :: string where "CANDLE_INGESTION_TIMEFRAME = ''4h''"
definition CANDLE_INGESTION_LOOKBACK_HOURS :: int where "CANDLE_INGESTION_LOOKBACK_HOURS = 24"

record outside =
  os_api :: coindcx_api
  os_account_id :: string
  os_uid :: "nat \<Rightarrow> string"
  os_strategies :: strategy_runner
  os_ai :: ai_env
  os_exchange :: exchange_feed
  os_feed :: market_feed
  os_baseline :: baseline
  os_regime :: "bar list \<Rightarrow> string"
  os_delivers :: bool
  os_time :: datetime

record world =
  wd_ai :: ai_world
  wd_aggregator :: aggregator
  wd_exit_alerts :: "exit_alert list"
  wd_paper_signals :: "ai_decision list"

abbreviation wd_db :: "world \<Rightarrow> db" where "wd_db w \<equiv> aw_db (wd_ai w)"

definition with_db :: "db \<Rightarrow> world \<Rightarrow> world" where "with_db d w = w\<lparr>wd_ai := (wd_ai w)\<lparr>aw_db := d\<rparr>\<rparr>"

definition account_sync_job :: "outside \<Rightarrow> db \<Rightarrow> exn option \<times> db" where
  "account_sync_job os d =
     (case sync_balance (os_api os) (os_account_id os) (os_time os) d of
        (Inl x, d1) \<Rightarrow> (Some x, d1)
      | (Inr b, d1) \<Rightarrow>
          if bl_status b \<noteq> BL_OK then (None, d1)
          else case sync_positions (os_api os) (os_uid os) (os_account_id os) (os_time os) d1 of
                 (Inl x, d2) \<Rightarrow> (Some x, d2)
               | (Inr _, d2) \<Rightarrow>
                   (case sync_trade_fills (os_api os) (os_time os) ''BTC/USDT'' d2 of
                      Inl x \<Rightarrow> (Some x, d2) | Inr (_, d3) \<Rightarrow> (None, d3)))"

definition latest_price :: "db \<Rightarrow> string \<Rightarrow> f64 option" where
  "latest_price d symbol = map_option cd_close (first (order_desc cd_timestamp (filter (\<lambda>c. cd_symbol c = symbol) (db_candles d))))"

definition exit_alert_job :: "string \<Rightarrow> datetime \<Rightarrow> string \<Rightarrow> f64 option \<Rightarrow> db \<Rightarrow> exit_alert list result \<times> db" where
  "exit_alert_job i now symbol current_price d =
     (case (case current_price of Some p \<Rightarrow> Some p | None \<Rightarrow> latest_price d symbol) of
        None \<Rightarrow> (Inr [], d)
      | Some price \<Rightarrow>
          (case get_new_exit_alerts i now price symbol d of
             Inl x \<Rightarrow> (Inl x, snd (get_or_create_default_account i now d))
           | Inr (new, d') \<Rightarrow> (Inr new, d')))"

text \<open>Telegram's \<open>_send\<close> catches every error: a message that is not delivered is lost.\<close>

definition send_each :: "bool \<Rightarrow> 'a list \<Rightarrow> 'a list" where
  "send_each delivers messages = (if delivers then messages else [])"

fun job_body :: "job \<Rightarrow> outside \<Rightarrow> world \<Rightarrow> exn option \<times> world" where
  "job_body ACCOUNT_SYNC os w = (case account_sync_job os (wd_db w) of (x, d) \<Rightarrow> (x, with_db d w))"
| "job_body EXIT_ALERTS os w =
     (case exit_alert_job (os_account_id os) (os_time os) ''BTC/USDT'' None (wd_db w) of
        (Inl x, d) \<Rightarrow> (Some x, with_db d w)
      | (Inr alerts, d) \<Rightarrow> (None, (with_db d w)\<lparr>wd_exit_alerts := wd_exit_alerts w @ send_each (os_delivers os) alerts\<rparr>))"
| "job_body SIGNAL_GENERATION os w =
     (case signal_generation_job (os_strategies os) (os_uid os) ''BTC/USDT'' ''4h'' (wd_db w) of (_, x, d) \<Rightarrow> (x, with_db d w))"
| "job_body SIGNAL_GENERATION_15M os w =
     (case signal_generation_job (os_strategies os) (os_uid os) ''BTC/USDT'' ''15m'' (wd_db w) of (_, x, d) \<Rightarrow> (x, with_db d w))"
| "job_body OUTCOME_EVALUATION os w =
     (case outcome_evaluation_job ''BTC/USDT'' ''4h'' (wd_db w) of Inl x \<Rightarrow> (Some x, w) | Inr (_, d) \<Rightarrow> (None, with_db d w))"
| "job_body CANDLE_INGESTION os w =
     (case candle_ingestion_job (os_exchange os) (os_time os) CANDLE_INGESTION_SYMBOL CANDLE_INGESTION_TIMEFRAME
             CANDLE_INGESTION_LOOKBACK_HOURS (wd_db w) of
        (Inl x, d) \<Rightarrow> (Some x, with_db d w) | (Inr _, d) \<Rightarrow> (None, with_db d w))"
| "job_body LIVE_BREAKOUT os w =
     (case live_breakout_job (os_baseline os) (os_regime os) (os_uid os 0) (os_time os) (os_feed os) ''BTC/USDT'' ''4h''
             (wd_aggregator w) (wd_db w) of
        (_, x, ag, d) \<Rightarrow> (x, (with_db d w)\<lparr>wd_aggregator := ag\<rparr>))"
| "job_body AI_PAPER_TRADING os w =
     (case ai_paper_trading_job (os_ai os) (os_time os) ''BTC/USDT'' ''4h'' (wd_ai w) of
        (Inl x, a) \<Rightarrow> (Some x, w\<lparr>wd_ai := a\<rparr>)
      | (Inr opened, a) \<Rightarrow> (None, w\<lparr>wd_ai := a, wd_paper_signals := wd_paper_signals w @ send_each (os_delivers os) opened\<rparr>))"

section \<open>Ticks\<close>

text \<open>
  How a tick ends: it returns, an exception leaves it, or it waits until the watchdog cancels it; the exception of the
  cancellation is not caught by the handlers of a tick.
\<close>

datatype tick_end = RETURNS | RAISES exn | HANGS

record scheduler =
  sc_breakers :: "job \<Rightarrow> breaker"
  sc_last_tick :: "job \<Rightarrow> datetime option"
  sc_running :: bool
  sc_loops :: "job list"

definition set_breaker :: "job \<Rightarrow> breaker \<Rightarrow> scheduler \<Rightarrow> scheduler" where
  "set_breaker j b s = s\<lparr>sc_breakers := (sc_breakers s)(j := b)\<rparr>"

text \<open>A tick happens in an environment: where it hangs, and in which world, or what is outside.\<close>

record tick_env =
  te_start :: datetime
  te_end :: datetime
  te_outside :: outside
  te_hangs :: "job \<Rightarrow> world option"

definition attempt_body :: "job \<Rightarrow> tick_env \<Rightarrow> world \<Rightarrow> tick_end \<times> world" where
  "attempt_body j te w =
     (case te_hangs te j of
        Some w' \<Rightarrow> (HANGS, w')
      | None \<Rightarrow> (case job_body j (te_outside te) w of (None, w') \<Rightarrow> (RETURNS, w') | (Some x, w') \<Rightarrow> (RAISES x, w')))"

text \<open>The pattern of every \<open>run_once_*\<close>: the guard, the body, and its outcome recorded at the breaker.\<close>

definition guarded ::
  "job \<Rightarrow> tick_env \<Rightarrow> (scheduler \<Rightarrow> world \<Rightarrow> tick_end \<times> scheduler \<times> world) \<Rightarrow> scheduler \<Rightarrow> world \<Rightarrow> tick_end \<times> scheduler \<times> world" where
  "guarded j te body s w =
     (case can_attempt (te_start te) (sc_breakers s j) of (b, go) \<Rightarrow>
        if \<not> go then (RETURNS, set_breaker j b s, w)
        else case body (set_breaker j b s) w of
               (HANGS, s1, w1) \<Rightarrow> (HANGS, s1, w1)
             | (RETURNS, s1, w1) \<Rightarrow> (RETURNS, set_breaker j (record_success (sc_breakers s1 j)) s1, w1)
             | (RAISES x, s1, w1) \<Rightarrow>
                 (case record_failure (te_end te) (sc_breakers s1 j) of (b', y) \<Rightarrow>
                    ((case y of None \<Rightarrow> RETURNS | Some e \<Rightarrow> RAISES e), set_breaker j b' s1, w1)))"

definition run_once :: "job \<Rightarrow> tick_env \<Rightarrow> scheduler \<Rightarrow> world \<Rightarrow> tick_end \<times> scheduler \<times> world" where
  "run_once j te = guarded j te (\<lambda>s w. case attempt_body j te w of (r, w1) \<Rightarrow> (r, s, w1))"

text \<open>The paper trading job runs inside the tick of the 4h signals, behind its own breaker.\<close>

definition run_once_signal_generation :: "tick_env \<Rightarrow> scheduler \<Rightarrow> world \<Rightarrow> tick_end \<times> scheduler \<times> world" where
  "run_once_signal_generation te =
     guarded SIGNAL_GENERATION te (\<lambda>s w.
       case attempt_body SIGNAL_GENERATION te w of
         (RETURNS, w1) \<Rightarrow> run_once AI_PAPER_TRADING te s w1
       | (r, w1) \<Rightarrow> (r, s, w1))"

definition tick_fn :: "job \<Rightarrow> tick_env \<Rightarrow> scheduler \<Rightarrow> world \<Rightarrow> tick_end \<times> scheduler \<times> world" where
  "tick_fn j = (if j = SIGNAL_GENERATION then run_once_signal_generation else run_once j)"

section \<open>Loops\<close>

definition LOOPS :: "job list" where
  "LOOPS = [ACCOUNT_SYNC, EXIT_ALERTS, SIGNAL_GENERATION, SIGNAL_GENERATION_15M, OUTCOME_EVALUATION, CANDLE_INGESTION, LIVE_BREAKOUT]"

definition new_scheduler :: scheduler where
  "new_scheduler = \<lparr>sc_breakers = \<lambda>_. new_breaker default_breaker_config, sc_last_tick = \<lambda>_. None, sc_running = False, sc_loops = []\<rparr>"

definition start_scheduler :: "scheduler \<Rightarrow> scheduler" where
  "start_scheduler s = (if sc_running s then s else s\<lparr>sc_running := True, sc_loops := LOOPS\<rparr>)"

definition stop_scheduler :: "scheduler \<Rightarrow> scheduler" where
  "stop_scheduler s = s\<lparr>sc_running := False, sc_loops := []\<rparr>"

text \<open>
  One iteration of a loop: the heartbeat is stamped first; the watchdog's timeout is caught, any other exception ends the task.
\<close>

definition loop_iteration :: "job \<Rightarrow> tick_env \<Rightarrow> scheduler \<Rightarrow> world \<Rightarrow> scheduler \<times> world" where
  "loop_iteration j te s w =
     (if \<not> sc_running s \<or> j \<notin> set (sc_loops s) then (s, w)
      else case tick_fn j te (s\<lparr>sc_last_tick := (sc_last_tick s)(j \<mapsto> te_start te)\<rparr>) w of
             (RAISES x, s1, w1) \<Rightarrow> (s1\<lparr>sc_loops := removeAll j (sc_loops s1)\<rparr>, w1)
           | (_, s1, w1) \<Rightarrow> (s1, w1))"

fun run_loops :: "(job \<times> tick_env) list \<Rightarrow> scheduler \<Rightarrow> world \<Rightarrow> scheduler \<times> world" where
  "run_loops [] s w = (s, w)"
| "run_loops ((j, te) # es) s w = (case loop_iteration j te s w of (s1, w1) \<Rightarrow> run_loops es s1 w1)"

record heartbeat =
  hb_last_tick_at :: "datetime option"
  hb_seconds_since :: "f64 option"
  hb_circuit_state :: circuit_state
  hb_consecutive_failures :: int

definition job_heartbeat :: "datetime \<Rightarrow> scheduler \<Rightarrow> job \<Rightarrow> heartbeat" where
  "job_heartbeat now s j =
     (let last_tick = sc_last_tick s (if j = AI_PAPER_TRADING then SIGNAL_GENERATION else j)
      in \<lparr>hb_last_tick_at = last_tick, hb_seconds_since = map_option (\<lambda>t. total_seconds (now - t)) last_tick,
          hb_circuit_state = br_state (sc_breakers s j), hb_consecutive_failures = br_consecutive_failures (sc_breakers s j)\<rparr>)"

definition get_heartbeat :: "datetime \<Rightarrow> scheduler \<Rightarrow> bool \<times> (job \<times> heartbeat) list" where
  "get_heartbeat now s = (sc_running s, map (\<lambda>j. (j, job_heartbeat now s j)) (LOOPS @ [AI_PAPER_TRADING]))"

section \<open>What a tick touches\<close>

abbreviation failures :: "scheduler \<Rightarrow> job \<Rightarrow> int" where "failures s j \<equiv> br_consecutive_failures (sc_breakers s j)"

definition touches :: "job set \<Rightarrow> scheduler \<Rightarrow> scheduler \<Rightarrow> bool" where
  "touches J s s' \<longleftrightarrow> s' = s\<lparr>sc_breakers := sc_breakers s'\<rparr> \<and> (\<forall>k. k \<notin> J \<longrightarrow> sc_breakers s' k = sc_breakers s k) \<and>
     (\<forall>k. br_config (sc_breakers s' k) = br_config (sc_breakers s k)) \<and> (\<forall>k. failures s' k \<le> max 0 (failures s k + 1))"

lemma touches_refl [simp]: "touches J s s"
  by (simp add: touches_def le_max_iff_disj)

lemma touches_frame:
  assumes "touches J s s'"
  shows "sc_running s' = sc_running s" "sc_loops s' = sc_loops s" "sc_last_tick s' = sc_last_tick s"
    "k \<notin> J \<Longrightarrow> sc_breakers s' k = sc_breakers s k" "br_config (sc_breakers s' k) = br_config (sc_breakers s k)"
  using assms unfolding touches_def by (simp_all) (metis scheduler.select_convs scheduler.update_convs(1) scheduler.surjective)+

lemma set_breaker_simps [simp]:
  "sc_breakers (set_breaker j b s) k = (if k = j then b else sc_breakers s k)"
  "sc_running (set_breaker j b s) = sc_running s" "sc_loops (set_breaker j b s) = sc_loops s"
  "sc_last_tick (set_breaker j b s) = sc_last_tick s"
  by (simp_all add: set_breaker_def)

lemma touches_guard:
  assumes "touches J (set_breaker j b s) s1" "j \<notin> J" "br_config b = br_config (sc_breakers s j)" "br_consecutive_failures b = failures s j"
    "br_config b' = br_config b" "br_consecutive_failures b' \<le> max 0 (failures s j + 1)"
  shows "touches (insert j J) s (set_breaker j b' s1)"
proof -
  obtain f where s1: "s1 = s\<lparr>sc_breakers := f\<rparr>"
    using assms(1) unfolding touches_def set_breaker_def by (metis scheduler.update_convs(1) scheduler.surjective)
  have f: "k \<notin> J \<Longrightarrow> k \<noteq> j \<Longrightarrow> f k = sc_breakers s k" "br_config (f k) = br_config (sc_breakers s k)"
      "k \<noteq> j \<Longrightarrow> br_consecutive_failures (f k) \<le> max 0 (failures s k + 1)" for k
    using assms(1,3) unfolding touches_def s1 by (auto dest: spec [of _ k] split: if_splits)
  show ?thesis using assms(3-6) f unfolding touches_def s1 by (auto simp: set_breaker_def)
qed

lemma guarded_touches:
  assumes "guarded j te body s w = (r, s', w')" "j \<notin> J"
    "\<And>s w r s' w'. body s w = (r, s', w') \<Longrightarrow> touches J s s'"
  shows "touches (insert j J) s s'"
proof -
  obtain b go where g: "can_attempt (te_start te) (sc_breakers s j) = (b, go)" by fastforce
  have b: "br_config b = br_config (sc_breakers s j)" "br_consecutive_failures b = failures s j"
    using can_attempt_frame [of "te_start te" "sc_breakers s j"] by (simp_all add: g)
  obtain r1 s1 w1 where body: "body (set_breaker j b s) w = (r1, s1, w1)" by (metis prod_cases3)
  note t = assms(3) [OF body]
  have keep: "sc_breakers s1 j = b" using touches_frame(4) [OF t assms(2)] by simp
  have same: "set_breaker j b s1 = s1" by (simp add: set_breaker_def keep [symmetric])
  have skip: "touches (insert j J) s (set_breaker j b s)"
    using touches_guard [of J j b s "set_breaker j b s" b] assms(2) b by (simp add: le_max_iff_disj set_breaker_def)
  have hang: "touches (insert j J) s s1" using touches_guard [OF t assms(2) b refl] b(2) by (simp add: same le_max_iff_disj)
  have ok: "touches (insert j J) s (set_breaker j (record_success b) s1)"
    by (rule touches_guard [OF t assms(2) b]) (simp_all add: record_success_def)
  have fail: "touches (insert j J) s (set_breaker j (fst (record_failure (te_end te) b)) s1)"
    by (rule touches_guard [OF t assms(2) b]) (simp_all add: b(2))
  show ?thesis using assms(1) skip hang ok fail
    by (auto simp: guarded_def g body keep split: if_splits tick_end.splits prod.splits)
qed

lemma run_once_touches: "run_once j te s w = (r, s', w') \<Longrightarrow> touches {j} s s'"
  unfolding run_once_def by (erule guarded_touches [where J = "{}"]) (auto split: prod.splits)

lemma signal_tick_touches: "run_once_signal_generation te s w = (r, s', w') \<Longrightarrow> touches {SIGNAL_GENERATION, AI_PAPER_TRADING} s s'"
  unfolding run_once_signal_generation_def
  by (erule guarded_touches [where J = "{AI_PAPER_TRADING}"])
    (auto split: prod.splits tick_end.splits dest: run_once_touches)

definition own_breakers :: "job \<Rightarrow> job set" where
  "own_breakers j = (if j = SIGNAL_GENERATION then {SIGNAL_GENERATION, AI_PAPER_TRADING} else {j})"

lemma tick_touches: "tick_fn j te s w = (r, s', w') \<Longrightarrow> touches (own_breakers j) s s'"
  by (auto simp: tick_fn_def own_breakers_def dest: signal_tick_touches run_once_touches split: if_splits)

section \<open>When an exception leaves a tick\<close>

lemma record_failure_raises:
  "snd (record_failure now b) =
     (if 1024 \<le> br_consecutive_failures b + 1 - bc_failure_threshold (br_config b) then Some OverflowError else None)"
proof -
  let ?b = "b\<lparr>br_consecutive_failures := br_consecutive_failures b + 1, br_state := CB_OPEN, br_opened_at := Some now\<rparr>"
  have "backoff_seconds ?b = Inl OverflowError" if "1024 \<le> br_consecutive_failures b + 1 - bc_failure_threshold (br_config b)"
    using that by (simp add: backoff_cases Let_def)
  moreover have "\<exists>s. backoff_seconds ?b = Inr s" if "\<not> 1024 \<le> br_consecutive_failures b + 1 - bc_failure_threshold (br_config b)"
    using that by (simp add: backoff_cases Let_def)
  ultimately show ?thesis by (auto simp: record_failure_def Let_def)
qed

definition overflows :: "scheduler \<Rightarrow> job \<Rightarrow> bool" where
  "overflows s j \<longleftrightarrow> 1024 \<le> failures s j + 1 - bc_failure_threshold (br_config (sc_breakers s j))"

lemma guarded_returns:
  assumes "guarded j te body s w = (r, s', w')" "\<not> overflows s j" "j \<notin> J"
    "\<And>s w r s' w'. body s w = (r, s', w') \<Longrightarrow> touches J s s'"
  shows "r = RETURNS \<or> r = HANGS"
proof -
  obtain b go where g: "can_attempt (te_start te) (sc_breakers s j) = (b, go)" by fastforce
  have b: "br_config b = br_config (sc_breakers s j)" "br_consecutive_failures b = failures s j"
    using can_attempt_frame [of "te_start te" "sc_breakers s j"] by (simp_all add: g)
  obtain r1 s1 w1 where body: "body (set_breaker j b s) w = (r1, s1, w1)" by (metis prod_cases3)
  have keep: "sc_breakers s1 j = b" using touches_frame(4) [OF assms(4) [OF body] assms(3)] by simp
  have "snd (record_failure (te_end te) b) = None" using assms(2) b by (simp add: record_failure_raises overflows_def)
  then show ?thesis using assms(1)
    by (auto simp: guarded_def g body keep split: if_splits tick_end.splits prod.splits option.splits)
qed

lemma run_once_returns: "run_once j te s w = (r, s', w') \<Longrightarrow> \<not> overflows s j \<Longrightarrow> r = RETURNS \<or> r = HANGS"
  unfolding run_once_def by (erule guarded_returns [where J = "{}"]) (auto split: prod.splits)

lemma tick_returns: "tick_fn j te s w = (r, s', w') \<Longrightarrow> \<not> overflows s j \<Longrightarrow> r = RETURNS \<or> r = HANGS"
  unfolding tick_fn_def run_once_signal_generation_def
  by (cases "j = SIGNAL_GENERATION")
    (simp_all add: run_once_returns, erule guarded_returns [where J = "{AI_PAPER_TRADING}"],
     auto split: prod.splits tick_end.splits dest: run_once_touches)
section \<open>Loops that go on and loops that end\<close>

lemma tick_ok:
  assumes "tick_fn j te s w = (r, s', w')" "\<forall>k. br_config (sc_breakers s k) = default_breaker_config \<and> failures s k \<le> int m" "m < 1028"
  shows "r = RETURNS \<or> r = HANGS" "\<forall>k. br_config (sc_breakers s' k) = default_breaker_config \<and> failures s' k \<le> int (Suc m)"
    "sc_running s' = sc_running s" "sc_loops s' = sc_loops s" "sc_last_tick s' = sc_last_tick s"
proof -
  note t = tick_touches [OF assms(1)]
  have "\<not> overflows s j" using assms(2) [rule_format, of j] assms(3) by (simp add: overflows_def default_breaker_config_def)
  then show "r = RETURNS \<or> r = HANGS" by (rule tick_returns [OF assms(1)])
  have "failures s' k \<le> max 0 (failures s k + 1)" for k using t by (simp add: touches_def)
  moreover have "max 0 (failures s k + 1) \<le> int (Suc m)" for k using assms(2) by simp
  ultimately show "\<forall>k. br_config (sc_breakers s' k) = default_breaker_config \<and> failures s' k \<le> int (Suc m)"
    using touches_frame(5) [OF t] assms(2) by (metis order_trans)
  show "sc_running s' = sc_running s" "sc_loops s' = sc_loops s" "sc_last_tick s' = sc_last_tick s" using touches_frame [OF t] by auto
qed

definition starts :: "(job \<times> tick_env) list \<Rightarrow> (job \<times> datetime) list" where
  "starts es = map (\<lambda>(j, te). (j, te_start te)) es"

lemma run_loops_survive:
  assumes "\<forall>k. br_config (sc_breakers s k) = default_breaker_config \<and> failures s k \<le> int m" "m + length es \<le> 1028"
    "sc_running s" "set LOOPS \<subseteq> set (sc_loops s)" "run_loops es s w = (s', w')" "j \<in> set LOOPS"
  shows "sc_running s' \<and> j \<in> set (sc_loops s') \<and> sc_last_tick s' j = (sc_last_tick s ++ map_of (rev (starts es))) j"
  using assms
proof (induction es arbitrary: s w m)
  case Nil
  then show ?case by (auto simp: starts_def)
next
  case (Cons e es)
  obtain k te where e: "e = (k, te)" by fastforce
  show ?case
  proof (cases "k \<in> set (sc_loops s)")
    case False
    then have "loop_iteration k te s w = (s, w)" by (simp add: loop_iteration_def)
    then have r: "run_loops es s w = (s', w')" using Cons.prems(5) by (simp add: e)
    have "k \<noteq> j" using False Cons.prems(4,6) by auto
    moreover have "sc_running s' \<and> j \<in> set (sc_loops s') \<and> sc_last_tick s' j = (sc_last_tick s ++ map_of (rev (starts es))) j"
      by (rule Cons.IH [OF Cons.prems(1) _ Cons.prems(3,4) r Cons.prems(6)]) (use Cons.prems(2) in simp)
    ultimately show ?thesis by (simp add: e starts_def map_add_def split: option.splits)
  next
    case True
    let ?s = "s\<lparr>sc_last_tick := (sc_last_tick s)(k \<mapsto> te_start te)\<rparr>"
    obtain r s1 w1 where t: "tick_fn k te ?s w = (r, s1, w1)" by (metis prod_cases3)
    have "\<forall>j. br_config (sc_breakers ?s j) = default_breaker_config \<and> failures ?s j \<le> int m" "m < 1028" using Cons.prems(1,2) by auto
    note ok = tick_ok [OF t this]
    have "loop_iteration k te s w = (s1, w1)" using True Cons.prems(3) ok(1) by (auto simp: loop_iteration_def t split: tick_end.splits)
    then have r: "run_loops es s1 w1 = (s', w')" using Cons.prems(5) by (simp add: e)
    have "sc_running s' \<and> j \<in> set (sc_loops s') \<and> sc_last_tick s' j = (sc_last_tick s1 ++ map_of (rev (starts es))) j"
      by (rule Cons.IH [OF ok(2) _ _ _ r Cons.prems(6)]) (use Cons.prems ok in auto)
    then show ?thesis using ok(5) by (simp add: e starts_def map_add_def split: option.splits)
  qed
qed


lemma ended_loop:
  "j \<notin> set (sc_loops s) \<Longrightarrow> run_loops es s w = (s', w') \<Longrightarrow>
     j \<notin> set (sc_loops s') \<and> sc_last_tick s' j = sc_last_tick s j \<and> sc_running s' = sc_running s"
proof (induction es arbitrary: s w)
  case (Cons e es)
  obtain k te where e: "e = (k, te)" by fastforce
  obtain s1 w1 where i: "loop_iteration k te s w = (s1, w1)" by fastforce
  have "j \<notin> set (sc_loops s1) \<and> sc_last_tick s1 j = sc_last_tick s j \<and> sc_running s1 = sc_running s"
  proof (cases "\<not> sc_running s \<or> k \<notin> set (sc_loops s)")
    case True
    then show ?thesis using i Cons.prems(1) by (auto simp: loop_iteration_def)
  next
    case False
    obtain r s2 w2 where t: "tick_fn k te (s\<lparr>sc_last_tick := (sc_last_tick s)(k \<mapsto> te_start te)\<rparr>) w = (r, s2, w2)" by (metis prod_cases3)
    show ?thesis using i False Cons.prems(1) touches_frame(1-3) [OF tick_touches [OF t]]
      by (auto simp: loop_iteration_def t split: tick_end.splits if_splits)
  qed
  then show ?case using Cons.IH [of s1 w1] Cons.prems(2) by (simp add: e i)
qed simp

lemma guarded_overflow:
  assumes "snd (can_attempt (te_start te) (sc_breakers s j))" "overflows s j"
    "body (set_breaker j (fst (can_attempt (te_start te) (sc_breakers s j))) s) w = (RAISES x, s1, w1)"
    "sc_breakers s1 j = fst (can_attempt (te_start te) (sc_breakers s j))"
  shows "fst (guarded j te body s w) = RAISES OverflowError"
proof -
  obtain b where g: "can_attempt (te_start te) (sc_breakers s j) = (b, True)" using assms(1) by (cases "can_attempt (te_start te) (sc_breakers s j)") auto
  have "br_config b = br_config (sc_breakers s j)" "br_consecutive_failures b = failures s j"
    using can_attempt_frame [of "te_start te" "sc_breakers s j"] by (simp_all add: g)
  then have "snd (record_failure (te_end te) b) = Some OverflowError" using assms(2) by (simp add: record_failure_raises overflows_def)
  then show ?thesis using assms(3,4) by (auto simp: guarded_def g split: prod.splits)
qed

lemma failed_tick_overflows:
  assumes "snd (can_attempt (te_start te) (sc_breakers s j))" "overflows s j" "te_hangs te j = None"
    "fst (job_body j (te_outside te) w) = Some x"
  shows "fst (tick_fn j te s w) = RAISES OverflowError"
  using assms
  by (cases "job_body j (te_outside te) w")
    (auto simp: tick_fn_def run_once_signal_generation_def run_once_def attempt_body_def intro!: guarded_overflow)

text \<open>
  C40: A loop ends unnoticed: from 1024 failures beyond the threshold on, a failing tick raises out of its own handler and the
  loop, which catches only the watchdog's timeout, is gone: its job never runs again while the scheduler
  still reports that it is running.
\<close>
theorem loop_ends_unnoticed:
  assumes "sc_running s" "j \<in> set (sc_loops s)" "snd (can_attempt (te_start te) (sc_breakers s j))" "overflows s j"
    "te_hangs te j = None" "fst (job_body j (te_outside te) w) = Some x" "run_loops ((j, te) # es) s w = (s', w')"
  shows "j \<notin> set (sc_loops s') \<and> sc_last_tick s' j = Some (te_start te) \<and> fst (get_heartbeat now s')"
proof -
  let ?s = "s\<lparr>sc_last_tick := (sc_last_tick s)(j \<mapsto> te_start te)\<rparr>"
  have "fst (tick_fn j te ?s w) = RAISES OverflowError"
    by (rule failed_tick_overflows) (use assms in \<open>simp_all add: overflows_def\<close>)
  then obtain s1 w1 where t: "tick_fn j te ?s w = (RAISES OverflowError, s1, w1)" by (metis fst_conv prod_cases3)
  have "run_loops es (s1\<lparr>sc_loops := removeAll j (sc_loops s1)\<rparr>) w1 = (s', w')"
    using assms(1,2,7) by (simp add: loop_iteration_def t)
  with ended_loop [OF _ this, of j] touches_frame(1-3) [OF tick_touches [OF t]] assms(1) show ?thesis
    by (simp add: get_heartbeat_def)
qed

section \<open>The paper trading job inside the tick of the signals\<close>

lemma run_once_no_hang: "run_once j te s w = (r, s', w') \<Longrightarrow> te_hangs te j = None \<Longrightarrow> r \<noteq> HANGS"
  by (auto simp: run_once_def guarded_def attempt_body_def split: prod.splits if_splits option.splits tick_end.splits)

lemma run_once_world: "run_once j te s w = (r, s', w') \<Longrightarrow> te_hangs te j = None \<Longrightarrow> w' = w \<or> w' = snd (job_body j (te_outside te) w)"
  by (auto simp: run_once_def guarded_def attempt_body_def split: prod.splits if_splits option.splits tick_end.splits)

lemma ai_body_market: "same_market (wd_db w) (wd_db (snd (job_body AI_PAPER_TRADING os w)))"
proof -
  obtain r a where a: "ai_paper_trading_job (os_ai os) (os_time os) ''BTC/USDT'' ''4h'' (wd_ai w) = (r, a)" by fastforce
  show ?thesis using job_market [OF a] by (cases r) (simp_all add: a)
qed

text \<open>
  Paper trading never disturbs the signals: as long as its own breaker does not overflow and it does not hang, the tick of the 4h signals
  ends as it would without paper trading, with the same breakers, signals and candles.
\<close>
theorem paper_trading_isolated:
  assumes "te_hangs te AI_PAPER_TRADING = None" "\<not> overflows s AI_PAPER_TRADING"
    "run_once_signal_generation te s w = (r1, s1, w1)" "run_once SIGNAL_GENERATION te s w = (r2, s2, w2)"
  shows "r1 = r2 \<and> (\<forall>k. k \<noteq> AI_PAPER_TRADING \<longrightarrow> sc_breakers s1 k = sc_breakers s2 k) \<and>
    db_signals (wd_db w1) = db_signals (wd_db w2) \<and> db_candles (wd_db w1) = db_candles (wd_db w2)"
proof -
  let ?j = SIGNAL_GENERATION
  obtain b go where g: "can_attempt (te_start te) (sc_breakers s ?j) = (b, go)" by fastforce
  obtain r wa where a: "attempt_body ?j te w = (r, wa)" by fastforce
  show ?thesis
  proof (cases "go \<and> r = RETURNS")
    case False
    then show ?thesis using assms(3,4)
      by (auto simp: run_once_signal_generation_def run_once_def guarded_def g a split: if_splits tick_end.splits prod.splits)
  next
    case True
    let ?s = "set_breaker ?j b s"
    obtain r3 s3 w3 where p: "run_once AI_PAPER_TRADING te ?s wa = (r3, s3, w3)" by (metis prod_cases3)
    have "\<not> overflows ?s AI_PAPER_TRADING" using assms(2) by (simp add: overflows_def)
    then have "r3 = RETURNS" using run_once_returns [OF p] run_once_no_hang [OF p assms(1)] by blast
    moreover have "same_market (wd_db wa) (wd_db w3)"
      using run_once_world [OF p assms(1)] ai_body_market [of wa "te_outside te"] by (auto simp: same_market_def)
    moreover have "k \<noteq> AI_PAPER_TRADING \<Longrightarrow> sc_breakers s3 k = (if k = ?j then b else sc_breakers s k)" for k
      using touches_frame(4) [OF run_once_touches [OF p], of k] by simp
    ultimately show ?thesis using assms(3,4) True
      by (auto simp: run_once_signal_generation_def run_once_def [of ?j] guarded_def g a p same_market_def)
  qed
qed

text \<open>
  The isolation ends with the breaker's overflow: from then on a failure of paper trading leaves its
  handler, and the breaker of the signals counts a failure of a job that had succeeded.
\<close>
theorem paper_trading_overflow_spreads:
  assumes "snd (can_attempt (te_start te) (sc_breakers s SIGNAL_GENERATION))" "te_hangs te SIGNAL_GENERATION = None"
    "job_body SIGNAL_GENERATION (te_outside te) w = (None, wa)"
    "snd (can_attempt (te_start te) (sc_breakers s AI_PAPER_TRADING))" "te_hangs te AI_PAPER_TRADING = None"
    "fst (job_body AI_PAPER_TRADING (te_outside te) wa) = Some x" "overflows s AI_PAPER_TRADING"
  shows "failures (fst (snd (run_once_signal_generation te s w))) SIGNAL_GENERATION = failures s SIGNAL_GENERATION + 1"
proof -
  let ?j = SIGNAL_GENERATION
  obtain b where g: "can_attempt (te_start te) (sc_breakers s ?j) = (b, True)" using assms(1) by (cases "can_attempt (te_start te) (sc_breakers s ?j)") auto
  let ?s = "set_breaker ?j b s"
  have c: "br_consecutive_failures b = failures s ?j" using can_attempt_frame(1) [of "te_start te" "sc_breakers s ?j"] by (simp add: g)
  have "fst (tick_fn AI_PAPER_TRADING te ?s wa) = RAISES OverflowError"
    by (rule failed_tick_overflows) (use assms in \<open>simp_all add: overflows_def\<close>)
  then obtain s3 w3 where p: "run_once AI_PAPER_TRADING te ?s wa = (RAISES OverflowError, s3, w3)"
    by (cases "run_once AI_PAPER_TRADING te ?s wa") (simp add: tick_fn_def)
  have a: "attempt_body ?j te w = (RETURNS, wa)" using assms(2,3) by (simp add: attempt_body_def)
  have "sc_breakers s3 ?j = b" using touches_frame(4) [OF run_once_touches [OF p], of ?j] by simp
  then show ?thesis using record_failure_count [of "te_end te" b] c
    by (cases "record_failure (te_end te) b") (simp add: run_once_signal_generation_def guarded_def g a p)
qed

section \<open>What the breakers do not see\<close>

text \<open>
  An unreachable exchange never opens the circuit: a failed balance request is a status, not an exception, so the
  tick counts as a success, however long the exchange stays away.
\<close>
theorem unreachable_exchange_counts_as_success:
  assumes "is_configured (os_api (te_outside te))" "\<forall>body. ca_wallets (os_api (te_outside te)) \<noteq> RP_body body"
    "te_hangs te ACCOUNT_SYNC = None" "snd (can_attempt (te_start te) (sc_breakers s ACCOUNT_SYNC))"
    "run_once ACCOUNT_SYNC te s w = (r, s', w')"
  shows "r = RETURNS \<and> failures s' ACCOUNT_SYNC = 0 \<and> br_state (sc_breakers s' ACCOUNT_SYNC) = CB_CLOSED \<and>
    se_status (last (db_sync_events (wd_db w'))) = SY_FAILED"
proof -
  let ?os = "te_outside te"
  obtain b where g: "can_attempt (te_start te) (sc_breakers s ACCOUNT_SYNC) = (b, True)"
    using assms(4) by (cases "can_attempt (te_start te) (sc_breakers s ACCOUNT_SYNC)") auto
  have bal: "get_balance (os_api ?os) = Inr (no_balance BL_UNAVAILABLE)"
    using assms(1,2) by (auto simp: get_balance_def split: http_reply.splits)
  obtain account d0 where acc: "get_or_create_default_account (os_account_id ?os) (os_time ?os) (wd_db w) = (account, d0)" by fastforce
  have "account_sync_job ?os (wd_db w) = (None, note_event SY_FAILED (os_time ?os) (update_account (ac_id account) (\<lambda>a. a\<lparr>ac_connection_status := CN_DISCONNECTED\<rparr>) d0))"
    by (simp add: account_sync_job_def sync_balance_def acc bal no_balance_def)
  then show ?thesis using assms(3,5)
    by (auto simp: run_once_def guarded_def g attempt_body_def record_success_def with_db_def note_event_def)
qed

text \<open>
  A job that hangs never opens its circuit: the watchdog ends its ticks one by one, none of them is counted as a failure,
  and every iteration tries again.
\<close>
theorem hanging_job_never_opens:
  assumes "\<forall>(k, te) \<in> set es. k = j \<longrightarrow> te_hangs te j \<noteq> None" "br_state (sc_breakers s j) = CB_CLOSED" "j \<noteq> AI_PAPER_TRADING"
    "run_loops es s w = (s', w')"
  shows "sc_breakers s' j = sc_breakers s j \<and> snd (can_attempt now (sc_breakers s' j))"
  using assms
proof (induction es arbitrary: s w)
  case Nil
  then show ?case by (simp add: can_attempt_def)
next
  case (Cons e es)
  obtain k te where e: "e = (k, te)" by fastforce
  obtain s1 w1 where i: "loop_iteration k te s w = (s1, w1)" by fastforce
  have "sc_breakers s1 j = sc_breakers s j"
  proof (cases "sc_running s \<and> k \<in> set (sc_loops s)")
    case False
    then show ?thesis using i by (auto simp: loop_iteration_def)
  next
    case True
    let ?s = "s\<lparr>sc_last_tick := (sc_last_tick s)(k \<mapsto> te_start te)\<rparr>"
    obtain r s2 w2 where t: "tick_fn k te ?s w = (r, s2, w2)" by (metis prod_cases3)
    have "sc_breakers s2 j = sc_breakers s j"
    proof (cases "k = j")
      case False
      then have "j \<notin> own_breakers k" using Cons.prems(3) by (auto simp: own_breakers_def)
      from touches_frame(4) [OF tick_touches [OF t] this] show ?thesis by simp
    next
      case True
      then obtain wh where "te_hangs te j = Some wh" using Cons.prems(1) by (auto simp: e)
      then show ?thesis using t True Cons.prems(2)
        by (auto simp: tick_fn_def run_once_signal_generation_def run_once_def guarded_def can_attempt_def attempt_body_def split: if_splits)
    qed
    then show ?thesis using i True by (auto simp: loop_iteration_def t split: tick_end.splits)
  qed
  then show ?case using Cons.IH [of s1 w1] Cons.prems by (auto simp: e i)
qed

text \<open>
  An exit alert that Telegram does not take is lost: it is recorded before it is sent, and no later check raises it again.
\<close>
theorem exit_alert_lost:
  assumes "logged_once (wd_db w)" "first (sort_key ac_created_at (db_accounts (wd_db w))) = Some acc" "\<not> os_delivers os"
    "xk_trades k = db_trades (wd_db w)" "xk_symbol k = ''BTC/USDT''" "xk_now k = os_time os"
    "latest_price (wd_db w) ''BTC/USDT'' = Some (xk_price k)" "a \<in> set (breaches (ac_id acc) k)"
    "job_body EXIT_ALERTS os w = (x, w1)"
  shows "x = None \<and> wd_exit_alerts w1 = wd_exit_alerts w \<and>
    (case run_exit_checks i ks (wd_db w1) of Inl e \<Rightarrow> False | Inr (later, _) \<Rightarrow> dedup_key a \<notin> dedup_key ` set later)"
proof -
  have same: "wd_db w = (wd_db w)\<lparr>db_trades := xk_trades k\<rparr>" using assms(4) by simp
  obtain new d1 where r: "record_new_alerts (breaches (ac_id acc) k) (wd_db w) = Inr (new, d1)" "logged_once d1"
      "logged d1 = logged (wd_db w) \<union> dedup_key ` set (breaches (ac_id acc) k)" "d1 = (wd_db w)\<lparr>db_notifications := db_notifications d1\<rparr>"
    by (rule record_new_alerts_once [OF assms(1), of "breaches (ac_id acc) k"])
  have "get_new_exit_alerts (os_account_id os) (os_time os) (xk_price k) ''BTC/USDT'' (wd_db w) = Inr (new, d1)"
    using check_with_account [OF assms(2), of "os_account_id os" k] r(1) unfolding same [symmetric] assms(5,6) by (simp add: get_new_exit_alerts_def)
  then have w1: "x = None" "wd_exit_alerts w1 = wd_exit_alerts w" "wd_db w1 = d1"
    using assms(3,9) by (auto simp: exit_alert_job_def assms(7) send_each_def with_db_def)
  have "db_accounts d1 = db_accounts ((wd_db w)\<lparr>db_notifications := db_notifications d1\<rparr>)" using r(4) by (rule arg_cong)
  then have acc: "first (sort_key ac_created_at (db_accounts d1)) = Some acc" using assms(2) by simp
  obtain later d2 where "run_exit_checks i ks d1 = Inr (later, d2)"
      "dedup_key ` set later = (\<Union>k \<in> set ks. dedup_key ` set (breaches (ac_id acc) k)) - logged d1"
    using run_exit_checks_once [OF r(2) acc, of i ks] by (elim exE conjE)
  moreover have "dedup_key a \<in> logged d1" using assms(8) r(3) by blast
  ultimately show ?thesis using w1 by simp
qed

section \<open>Witnesses\<close>

definition offline_feed :: exchange_feed where
  "offline_feed = \<lparr>xf_ohlcv = \<lambda>_ _ _ _ _. Inl ExchangeDataUnavailable, xf_funding = \<lambda>_ _ _ _. Inl ExchangeDataUnavailable,
     xf_open_interest = \<lambda>_ _ _ _. Inl ExchangeDataUnavailable, xf_liquidations = \<lambda>_ _. Inl ExchangeDataUnavailable, xf_now = \<lambda>_. 0\<rparr>"

definition demo_outside :: outside where
  "demo_outside = \<lparr>os_api = demo_api, os_account_id = ''acc'', os_uid = \<lambda>n. replicate n CHR ''0'',
     os_strategies = \<lparr>sr_generate = \<lambda>_ _. no_trade_signal [] None, sr_generate_with_daily = \<lambda>_ _ _. no_trade_signal [] None, sr_regime = \<lambda>_. ''UNCERTAIN''\<rparr>,
     os_ai = demo_env, os_exchange = offline_feed, os_feed = new_feed ''BTC/USDT'', os_baseline = demo_baseline,
     os_regime = \<lambda>_. ''UNCERTAIN'', os_delivers = False, os_time = day_us\<rparr>"

definition demo_tick :: "(job \<Rightarrow> world option) \<Rightarrow> tick_env" where
  "demo_tick hangs = \<lparr>te_start = day_us, te_end = day_us, te_outside = demo_outside, te_hangs = hangs\<rparr>"

text \<open>Fifteen closed paper trades without a recorded profit, on which the health check raises; signal generation is paused.\<close>

definition demo_runner_world :: world where
  "demo_runner_world = \<lparr>wd_ai = \<lparr>aw_trader = new_paper_trader default_risk_config 10000 0,
       aw_db = set_signal_generation_paused True ((demo_market 96)\<lparr>db_trades := replicate 15 (default_trade\<lparr>tr_source := SRC_AI_PAPER,
         tr_status := TS_CLOSED, tr_exit_time := Some 0, tr_pnl := None\<rparr>)\<rparr>), aw_cache = \<lparr>mc_loaded = True, mc_model = None\<rparr>\<rparr>,
     wd_aggregator = \<lparr>ag_interval_seconds = 14400, ag_current = None\<rparr>, wd_exit_alerts = [], wd_paper_signals = []\<rparr>"

definition demo_empty_world :: world where "demo_empty_world = with_db empty_db demo_runner_world"

definition demo_failing :: "scheduler" where
  "demo_failing = (start_scheduler new_scheduler)\<lparr>sc_breakers := \<lambda>_. new_breaker default_breaker_config\<lparr>br_consecutive_failures := 1028\<rparr>\<rparr>"

lemma demo_failing_overflows: "overflows demo_failing j" "snd (can_attempt t (sc_breakers demo_failing j))" "sc_running demo_failing"
    "sc_loops demo_failing = LOOPS" "failures demo_failing j = 1028"
  by (simp_all add: overflows_def demo_failing_def start_scheduler_def new_scheduler_def new_breaker_def default_breaker_config_def can_attempt_def)


lemma offline_ingestion_raises: "fst (job_body CANDLE_INGESTION demo_outside demo_empty_world) = Some ExchangeDataUnavailable"
proof -
  have "backfill_range offline_feed s tf a b l n e a t d = (Inl ExchangeDataUnavailable, n + 1, d)" if "a < b" for s tf a b l n e t d
    using that by (subst backfill_range.simps) (simp add: offline_feed_def)
  then show ?thesis
    by (simp add: demo_outside_def candle_ingestion_job_def backfill_def min_candle_timestamp_def max_candle_timestamp_def
        stored_times_def demo_empty_world_def with_db_def empty_db_def CANDLE_INGESTION_LOOKBACK_HOURS_def time_units)
qed

theorem loop_ends_unnoticed_witness:
  "CANDLE_INGESTION \<notin> set (sc_loops (fst (run_loops [(CANDLE_INGESTION, demo_tick (\<lambda>_. None)), (CANDLE_INGESTION, demo_tick (\<lambda>_. None))]
     demo_failing demo_empty_world)))"
proof -
  let ?es = "[(CANDLE_INGESTION, demo_tick (\<lambda>_. None))]"
  obtain s' w' where r: "run_loops ((CANDLE_INGESTION, demo_tick (\<lambda>_. None)) # ?es) demo_failing demo_empty_world = (s', w')" by fastforce
  from loop_ends_unnoticed [OF _ _ _ _ _ _ r, of ExchangeDataUnavailable] show ?thesis
    unfolding r by (simp add: demo_failing_overflows LOOPS_def demo_tick_def offline_ingestion_raises del: job_body.simps)
qed

lemma paused_signals: "job_body SIGNAL_GENERATION demo_outside demo_runner_world = (None, demo_runner_world)"
proof -
  have "is_signal_generation_paused (wd_db demo_runner_world)"
    by (simp add: demo_runner_world_def is_signal_generation_paused_def set_signal_generation_paused_def bot_get_def bot_put_eq)
  then show ?thesis by (simp add: signal_generation_job_def evaluate_all_strategies_for_timeframe_def with_db_def)
qed

lemma broken_health: "fst (job_body AI_PAPER_TRADING demo_outside demo_runner_world) = Some TypeError"
proof -
  let ?a = "wd_ai demo_runner_world"
  let ?t = "default_trade\<lparr>tr_source := SRC_AI_PAPER, tr_status := TS_CLOSED, tr_exit_time := Some 0, tr_pnl := None\<rparr>"
  have all: "filter (\<lambda>t. tr_mode t = ''paper'' \<and> tr_source t = SRC_AI_PAPER \<and> tr_status t = TS_CLOSED) (replicate 15 ?t) = replicate 15 ?t"
    by (simp add: default_trade_def)
  have r: "length (recent_ai_trades (aw_db ?a)) = 15" "set (recent_ai_trades (aw_db ?a)) = {?t}"
    unfolding recent_ai_trades_def demo_runner_world_def
    by (simp_all add: all LOOKBACK_TRADES_def set_signal_generation_paused_def bot_put_eq del: replicate.simps)
  then have "evaluate_model_health (aw_db ?a) = Inl TypeError"
    by (simp add: evaluate_model_health_def health_of_trades_def MIN_TRADES_FOR_EVALUATION_def trade_profit_factor_def sum_pnl_def Let_def
        default_trade_def split: sum.splits)
  moreover have "after_candle day_us c ?a = (None, ?a)" for c
    by (simp add: after_candle_def process_candle_def demo_runner_world_def new_paper_trader_def)
  moreover have "length (tick_bars (aw_db ?a) ''BTC/USDT'' ''4h'') = 60"
    using demo_market_bars(1) [of 96] by (simp add: demo_runner_world_def load_recent_candles_def set_signal_generation_paused_def bot_put_eq)
  ultimately have "fst (ai_paper_trading_job demo_env day_us ''BTC/USDT'' ''4h'' ?a) = Inl TypeError"
    by (simp add: job_stages Let_def MIN_BARS_REQUIRED_def)
  then show ?thesis by (cases "ai_paper_trading_job demo_env day_us ''BTC/USDT'' ''4h'' ?a") (simp add: demo_outside_def)
qed

theorem paper_trading_isolated_witness:
  "fst (run_once_signal_generation (demo_tick (\<lambda>_. None)) new_scheduler demo_runner_world) = RETURNS"
proof -
  let ?te = "demo_tick (\<lambda>_. None)"
  obtain r1 s1 w1 where 1: "run_once_signal_generation ?te new_scheduler demo_runner_world = (r1, s1, w1)" by (metis prod_cases3)
  obtain r2 s2 w2 where 2: "run_once SIGNAL_GENERATION ?te new_scheduler demo_runner_world = (r2, s2, w2)" by (metis prod_cases3)
  have "r1 = r2" using paper_trading_isolated [OF _ _ 1 2]
    by (simp add: demo_tick_def overflows_def new_scheduler_def new_breaker_def default_breaker_config_def)
  moreover have "r2 = RETURNS" using 2
    by (auto simp: run_once_def guarded_def new_scheduler_def new_breaker_def can_attempt_def attempt_body_def demo_tick_def paused_signals simp del: job_body.simps)
  ultimately show ?thesis by (simp add: 1)
qed

theorem paper_trading_overflow_spreads_witness:
  "failures (fst (snd (run_once_signal_generation (demo_tick (\<lambda>_. None)) demo_failing demo_runner_world))) SIGNAL_GENERATION = 1029"
  using paper_trading_overflow_spreads [of "demo_tick (\<lambda>_. None)" demo_failing demo_runner_world demo_runner_world TypeError]
  by (simp add: demo_failing_overflows demo_tick_def paused_signals broken_health del: job_body.simps)

theorem unreachable_exchange_counts_as_success_witness:
  "failures (fst (snd (run_once ACCOUNT_SYNC (demo_tick (\<lambda>_. None)) demo_failing demo_runner_world))) ACCOUNT_SYNC = 0"
proof -
  obtain r s w where 1: "run_once ACCOUNT_SYNC (demo_tick (\<lambda>_. None)) demo_failing demo_runner_world = (r, s, w)" by (metis prod_cases3)
  show ?thesis unfolding 1 using unreachable_exchange_counts_as_success [OF _ _ _ _ 1]
    by (simp add: demo_failing_overflows demo_tick_def demo_outside_def demo_api_def is_configured_def)
qed

theorem hanging_job_never_opens_witness:
  "sc_breakers (fst (run_loops (replicate 100 (CANDLE_INGESTION, demo_tick (\<lambda>_. Some demo_runner_world))) (start_scheduler new_scheduler) demo_runner_world))
     CANDLE_INGESTION = new_breaker default_breaker_config"
proof -
  let ?es = "replicate 100 (CANDLE_INGESTION, demo_tick (\<lambda>_. Some demo_runner_world))"
  obtain s' w' where r: "run_loops ?es (start_scheduler new_scheduler) demo_runner_world = (s', w')" by fastforce
  have "\<forall>(k, te) \<in> set ?es. k = CANDLE_INGESTION \<longrightarrow> te_hangs te CANDLE_INGESTION \<noteq> None" by (simp add: demo_tick_def)
  from hanging_job_never_opens [OF this _ _ r, of 0] show ?thesis
    unfolding r by (simp add: start_scheduler_def new_scheduler_def new_breaker_def)
qed


definition demo_breached_world :: world where
  "demo_breached_world = with_db (empty_db\<lparr>db_accounts := [demo_account], db_trades := [demo_open],
     db_candles := [candle_row (demo_minute 0)\<lparr>cd_symbol := ''BTC/USDT'', cd_close := 85\<rparr>]\<rparr>) demo_runner_world"

theorem exit_alert_lost_witness:
  "wd_exit_alerts (snd (job_body EXIT_ALERTS demo_outside demo_breached_world)) = []"
proof -
  let ?k = "\<lparr>xk_trades = [demo_open], xk_price = 85, xk_symbol = ''BTC/USDT'', xk_now = day_us\<rparr>"
  let ?a = "make_alert demo_open STOP_LOSS_HIT 90 85"
  obtain x w1 where b: "job_body EXIT_ALERTS demo_outside demo_breached_world = (x, w1)" by fastforce
  have "logged_once (wd_db demo_breached_world)" by (simp add: logged_once_def demo_breached_world_def with_db_def empty_db_def)
  moreover have "first (sort_key ac_created_at (db_accounts (wd_db demo_breached_world))) = Some demo_account"
    by (simp add: demo_breached_world_def with_db_def first_def)
  moreover have "latest_price (wd_db demo_breached_world) ''BTC/USDT'' = Some 85"
    by (simp add: latest_price_def demo_breached_world_def with_db_def order_desc_def first_def)
  moreover have "?a \<in> set (breaches (ac_id demo_account) ?k)"
    unfolding breaches_iff
    by (simp add: demo_open_def demo_account_def new_account_def default_trade_def check_trade_def reached_def)
  ultimately have "wd_exit_alerts w1 = wd_exit_alerts demo_breached_world"
    using exit_alert_lost [where k = ?k and ks = "[]" and i = "''acc''", OF _ _ _ _ _ _ _ _ b]
    by (simp add: demo_outside_def demo_breached_world_def with_db_def)
  then show ?thesis unfolding b by (simp add: demo_breached_world_def with_db_def demo_runner_world_def)
qed

end
