(* ===== verification/Portfolio.thy ===== *)
theory Portfolio
  imports PaperTrader TradeJournal SignalStore "HOL-Library.AList" "HOL-Library.Multiset"
begin

text \<open>
  \<open>services/portfolio/service.py\<close>: what the user earned, what the signals would have earned, the result of a
  back-test, the equity curve, the breakdown by period and the reconciliation with the reported
  equity.  Where rows are ordered by an exit time that may be missing, \<open>nulls_last\<close> is the database's
  order of missing values: true on PostgreSQL, false on SQLite.
\<close>

section \<open>Periods\<close>

text \<open>
  \<open>strftime\<close> and \<open>isocalendar\<close>: year, month and day of the Gregorian calendar from the
  number of days since 1970-01-01, and back.
\<close>

definition civil_of_days :: "int \<Rightarrow> int \<times> int \<times> int" where
  "civil_of_days z0 =
     (let z = z0 + 719468; era = z div 146097; doe = z mod 146097;
          yoe = (doe - doe div 1460 + doe div 36524 - doe div 146096) div 365;
          doy = doe - (365 * yoe + yoe div 4 - yoe div 100); mp = (5 * doy + 2) div 153;
          d = doy - (153 * mp + 2) div 5 + 1; m = (if mp < 10 then mp + 3 else mp - 9)
      in (yoe + era * 400 + (if m \<le> 2 then 1 else 0), m, d))"

definition days_of_civil :: "int \<Rightarrow> int \<Rightarrow> int \<Rightarrow> int" where
  "days_of_civil y0 m d =
     (let y = (if m \<le> 2 then y0 - 1 else y0); era = y div 400; yoe = y mod 400;
          doy = (153 * (if 2 < m then m - 3 else m + 9) + 2) div 5 + d - 1;
          doe = yoe * 365 + yoe div 4 - yoe div 100 + doy
      in era * 146097 + doe - 719468)"

definition padded :: "nat \<Rightarrow> int \<Rightarrow> string" where
  "padded width n = (let s = dec_digits (nat n) in replicate (width - length s) CHR ''0'' @ s)"

definition iso_week :: "date \<Rightarrow> int \<times> int" where
  "iso_week z =
     (let thursday = z - (z + 3) mod 7 + 3; y = fst (civil_of_days thursday)
      in (y, (thursday - days_of_civil y 1 1) div 7 + 1))"

definition period_key :: "datetime \<Rightarrow> string \<Rightarrow> string result" where
  "period_key t period =
     (case civil_of_days (dt_date t) of (y, m, d) \<Rightarrow>
        if period = ''daily'' then Inr (padded 4 y @ ''-'' @ padded 2 m @ ''-'' @ padded 2 d)
        else if period = ''weekly'' then (case iso_week (dt_date t) of (iy, w) \<Rightarrow> Inr (padded 1 iy @ ''-W'' @ padded 2 w))
        else if period = ''monthly'' then Inr (padded 4 y @ ''-'' @ padded 2 m)
        else Inl ValueError)"

text \<open>\<open>None.strftime\<close> raises; an unknown period raises before the time is used.\<close>

definition exit_period :: "trade \<Rightarrow> string \<Rightarrow> string result" where
  "exit_period t period =
     (case tr_exit_time t of
        Some e \<Rightarrow> period_key e period
      | None \<Rightarrow> if period \<in> {''daily'', ''weekly'', ''monthly''} then Inl AttributeError else Inl ValueError)"

section \<open>Performance\<close>

definition closed_trades :: "db \<Rightarrow> string option \<Rightarrow> trade list" where
  "closed_trades d account_id =
     filter (\<lambda>t. tr_status t \<in> {TS_CLOSED, TS_PARTIALLY_CLOSED} \<and>
                (case account_id of None \<Rightarrow> True | Some a \<Rightarrow> tr_account_id t = Some a)) (db_trades d)"

definition ratio_of :: "nat \<Rightarrow> nat \<Rightarrow> f64" where "ratio_of a b = fl (of_nat a / of_nat b)"

record user_performance =
  up_total_trades :: nat
  up_total_pnl :: f64
  up_total_fees :: f64
  up_total_funding :: f64
  up_winning_trades :: nat
  up_losing_trades :: nat
  up_win_rate :: "f64 option"
  up_average_r :: "f64 option"
  up_profit_factor :: "f64 option"

definition get_user_actual_performance :: "db \<Rightarrow> string option \<Rightarrow> user_performance" where
  "get_user_actual_performance d account_id =
     (let trades = closed_trades d account_id; total_trades = length trades
      in if total_trades = 0
         then \<lparr>up_total_trades = 0, up_total_pnl = 0, up_total_fees = 0, up_total_funding = 0, up_winning_trades = 0,
               up_losing_trades = 0, up_win_rate = None, up_average_r = None, up_profit_factor = None\<rparr>
         else let wins = filter (\<lambda>t. 0 < or_zero (tr_pnl t)) trades; losses = filter (\<lambda>t. or_zero (tr_pnl t) < 0) trades;
                  gross_win = fsum (map (\<lambda>t. or_zero (tr_pnl t)) wins); gross_loss = \<bar>fsum (map (\<lambda>t. or_zero (tr_pnl t)) losses)\<bar>;
                  r_values = filter (\<lambda>r. r \<noteq> 0) (map (\<lambda>t. or_zero (tr_r_multiple t)) trades)
              in \<lparr>up_total_trades = total_trades,
                  up_total_pnl = fsum (map (\<lambda>t. or_zero (tr_pnl t)) trades),
                  up_total_fees = fsum (map (\<lambda>t. or_zero (tr_fees t)) trades),
                  up_total_funding = fsum (map (\<lambda>t. or_zero (tr_funding t)) trades),
                  up_winning_trades = length wins, up_losing_trades = length losses,
                  up_win_rate = Some (ratio_of (length wins) total_trades),
                  up_average_r = (if r_values = [] then None else Some (fdiv (fsum r_values) (float_of_int (int (length r_values))))),
                  up_profit_factor = (if 0 < gross_loss then Some (fdiv gross_win gross_loss) else None)\<rparr>)"

record signal_performance =
  sf_total_signals :: nat
  sf_resolved_signals :: nat
  sf_total_hypothetical_pnl_pct :: "f64 option"
  sf_win_rate :: "f64 option"
  sf_no_trade_rate :: "f64 option"

definition known_pcts :: "signal_outcome list \<Rightarrow> f64 list" where
  "known_pcts os = List.map_filter so_hypothetical_pnl_pct os"

definition sum_known :: "f64 list \<Rightarrow> f64 option" where
  "sum_known xs = (if xs = [] then None else Some (fsum xs))"

definition get_alphaone_signal_performance :: "db \<Rightarrow> signal_performance" where
  "get_alphaone_signal_performance d =
     (let outcomes = filter (\<lambda>q. so_outcome q \<noteq> OC_PENDING) (db_outcomes d);
          evaluated = filter (\<lambda>q. so_outcome q \<noteq> OC_EXPIRED) outcomes
      in if outcomes = []
         then \<lparr>sf_total_signals = 0, sf_resolved_signals = 0, sf_total_hypothetical_pnl_pct = None, sf_win_rate = None, sf_no_trade_rate = None\<rparr>
         else let wins = filter (\<lambda>q. so_outcome q = OC_WIN) evaluated; losses = filter (\<lambda>q. so_outcome q = OC_LOSS) evaluated;
                  resolved = wins @ losses
              in \<lparr>sf_total_signals = length outcomes, sf_resolved_signals = length resolved,
                  sf_total_hypothetical_pnl_pct = sum_known (known_pcts resolved),
                  sf_win_rate = (if resolved = [] then None else Some (ratio_of (length wins) (length resolved))),
                  sf_no_trade_rate = Some (ratio_of (length (filter (\<lambda>q. so_outcome q = OC_NO_TRADE) outcomes)) (length outcomes))\<rparr>)"

record outcome_summary =
  os_count :: nat
  os_win_rate :: "f64 option"
  os_total_pnl_pct :: "f64 option"

definition summary :: "signal_outcome list \<Rightarrow> outcome_summary" where
  "summary rows =
     (if rows = [] then \<lparr>os_count = 0, os_win_rate = None, os_total_pnl_pct = None\<rparr>
      else \<lparr>os_count = length rows, os_win_rate = Some (ratio_of (length (filter (\<lambda>q. so_outcome q = OC_WIN) rows)) (length rows)),
            os_total_pnl_pct = sum_known (known_pcts rows)\<rparr>)"

record missed_report =
  mr_all_signals :: outcome_summary
  mr_user_taken :: outcome_summary
  mr_missed :: outcome_summary

definition get_missed_signals :: "db \<Rightarrow> missed_report" where
  "get_missed_signals d =
     (let outcomes = filter (\<lambda>q. so_outcome q \<in> {OC_WIN, OC_LOSS}) (db_outcomes d)
      in \<lparr>mr_all_signals = summary outcomes, mr_user_taken = summary (filter so_was_taken_by_user outcomes),
          mr_missed = summary (filter (\<lambda>q. \<not> so_was_taken_by_user q) outcomes)\<rparr>)"

text \<open>\<open>scalar_one_or_none\<close> on the primary key; the latest run and the latest metric otherwise.\<close>

definition get_backtest_performance :: "db \<Rightarrow> string option \<Rightarrow> (backtest_run \<times> backtest_metric) option" where
  "get_backtest_performance d run_id =
     (case (case run_id of Some i \<Rightarrow> first (filter (\<lambda>r. bn_id r = i) (db_backtest_runs d))
            | None \<Rightarrow> first (order_desc bn_created_at (db_backtest_runs d))) of
        None \<Rightarrow> None
      | Some run \<Rightarrow> map_option (Pair run) (first (order_desc bm_created_at (filter (\<lambda>m. bm_run_id m = bn_id run) (db_backtest_metrics d)))))"

section \<open>Equity, breakdown and reconciliation\<close>

definition by_exit_time :: "bool \<Rightarrow> trade list \<Rightarrow> trade list" where
  "by_exit_time nulls_last ts =
     (let missing = filter (\<lambda>t. tr_exit_time t = None) ts; known = sort_key tr_exit_time (filter (\<lambda>t. tr_exit_time t \<noteq> None) ts)
      in if nulls_last then known @ missing else missing @ known)"

fun equity_points :: "f64 \<Rightarrow> trade list \<Rightarrow> (datetime option \<times> f64 \<times> string) list" where
  "equity_points running [] = []"
| "equity_points running (t # ts) =
     (let running = fadd running (or_zero (tr_pnl t)) in (tr_exit_time t, running, tr_trade_id t) # equity_points running ts)"

definition get_equity_curve :: "bool \<Rightarrow> db \<Rightarrow> string \<Rightarrow> f64 \<Rightarrow> (datetime option \<times> f64 \<times> string) list" where
  "get_equity_curve nulls_last d account_id initial_equity =
     equity_points initial_equity (by_exit_time nulls_last (closed_trades d (Some account_id)))"

record bucket =
  bu_net :: f64
  bu_fees :: f64
  bu_funding :: f64
  bu_trades :: nat

definition empty_bucket :: bucket where "empty_bucket = \<lparr>bu_net = 0, bu_fees = 0, bu_funding = 0, bu_trades = 0\<rparr>"

definition book :: "trade \<Rightarrow> bucket \<Rightarrow> bucket" where
  "book t b = \<lparr>bu_net = fadd (bu_net b) (or_zero (tr_pnl t)), bu_fees = fadd (bu_fees b) (or_zero (tr_fees t)),
     bu_funding = fadd (bu_funding b) (or_zero (tr_funding t)), bu_trades = bu_trades b + 1\<rparr>"

fun fill_buckets :: "string \<Rightarrow> trade list \<Rightarrow> (string \<times> bucket) list \<Rightarrow> (string \<times> bucket) list result" where
  "fill_buckets period [] bs = Inr bs"
| "fill_buckets period (t # ts) bs =
     (case exit_period t period of
        Inl x \<Rightarrow> Inl x
      | Inr key \<Rightarrow> fill_buckets period ts
          (AList.update key (book t (case map_of bs key of None \<Rightarrow> empty_bucket | Some b \<Rightarrow> b)) bs))"

record period_row =
  pq_period :: string
  pq_gross :: f64
  pq_fees :: f64
  pq_funding :: f64
  pq_net :: f64
  pq_trades :: nat

definition period_row_of :: "string \<times> bucket \<Rightarrow> period_row" where
  "period_row_of = (\<lambda>(key, b). \<lparr>pq_period = key, pq_gross = fadd (fadd (bu_net b) (bu_fees b)) (bu_funding b),
     pq_fees = bu_fees b, pq_funding = bu_funding b, pq_net = bu_net b, pq_trades = bu_trades b\<rparr>)"

definition get_pnl_breakdown :: "bool \<Rightarrow> db \<Rightarrow> string \<Rightarrow> string \<Rightarrow> period_row list result" where
  "get_pnl_breakdown nulls_last d account_id period =
     (case fill_buckets period (by_exit_time nulls_last (closed_trades d (Some account_id))) [] of
        Inl x \<Rightarrow> Inl x | Inr bs \<Rightarrow> Inr (map period_row_of (sort_key fst bs)))"

datatype reconcile_status = RS_NO_SNAPSHOT | RS_OK | RS_MISMATCH

record account_reconciliation =
  rn_status :: reconcile_status
  rn_theoretical :: f64
  rn_reported :: "f64 option"
  rn_difference :: "f64 option"
  rn_is_mismatched :: "bool option"

definition reconcile_account :: "db \<Rightarrow> string \<Rightarrow> f64 \<Rightarrow> f64 \<Rightarrow> account_reconciliation" where
  "reconcile_account d account_id initial_equity tolerance =
     (let amounts = (\<lambda>cms. fsum (map cm_amount (filter (\<lambda>c. cm_account_id c = account_id) cms)));
          theoretical = fadd (fsub (fadd initial_equity (amounts (db_deposits d))) (amounts (db_withdrawals d)))
                          (fsum (map (\<lambda>t. or_zero (tr_pnl t)) (closed_trades d (Some account_id))))
      in case first (order_desc as_timestamp (filter (\<lambda>s. as_account_id s = account_id) (db_snapshots d))) of
           None \<Rightarrow> \<lparr>rn_status = RS_NO_SNAPSHOT, rn_theoretical = theoretical, rn_reported = None, rn_difference = None, rn_is_mismatched = None\<rparr>
         | Some s \<Rightarrow>
             let difference = fsub (as_equity s) theoretical
             in \<lparr>rn_status = (if \<bar>difference\<bar> \<le> tolerance then RS_OK else RS_MISMATCH), rn_theoretical = theoretical,
                 rn_reported = Some (as_equity s), rn_difference = Some difference, rn_is_mismatched = Some (\<bar>difference\<bar> > tolerance)\<rparr>)"

section \<open>The breakdown groups the trades\<close>

lemma set_by_exit_time [simp]: "set (by_exit_time nulls_last ts) = set ts"
  by (auto simp: by_exit_time_def Let_def)

lemma length_by_exit_time [simp]: "length (by_exit_time nulls_last ts) = length ts"
  using sum_length_filter_compl [of "\<lambda>t. tr_exit_time t = None" ts] by (simp add: by_exit_time_def Let_def)

lemma exit_period_known:
  assumes "tr_exit_time t \<noteq> None" "period \<in> {''daily'', ''weekly'', ''monthly''}"
  shows "\<exists>k. exit_period t period = Inr k"
  using assms by (auto simp: exit_period_def period_key_def split: prod.splits)

lemma fill_buckets_groups:
  assumes "\<forall>t\<in>set ts. \<exists>k. exit_period t period = Inr k" "distinct (map fst bs)"
  shows "\<exists>bs'. fill_buckets period ts bs = Inr bs' \<and> distinct (map fst bs') \<and>
    fst ` set bs' = fst ` set bs \<union> {k. \<exists>t\<in>set ts. exit_period t period = Inr k} \<and>
    (\<forall>k. map_of bs' k = (if \<exists>t\<in>set ts. exit_period t period = Inr k
       then Some (fold book (filter (\<lambda>t. exit_period t period = Inr k) ts) (case map_of bs k of None \<Rightarrow> empty_bucket | Some b \<Rightarrow> b))
       else map_of bs k))"
  using assms
proof (induction ts arbitrary: bs)
  case (Cons t ts)
  obtain key where key: "exit_period t period = Inr key" using Cons.prems(1) by auto
  let ?bs = "AList.update key (book t (case map_of bs key of None \<Rightarrow> empty_bucket | Some b \<Rightarrow> b)) bs"
  have "\<forall>t\<in>set ts. \<exists>k. exit_period t period = Inr k" "distinct (map fst ?bs)"
    using Cons.prems by (auto simp: distinct_update)
  from Cons.IH [OF this] obtain bs' where bs': "fill_buckets period ts ?bs = Inr bs'" "distinct (map fst bs')"
      "fst ` set bs' = fst ` set ?bs \<union> {k. \<exists>t\<in>set ts. exit_period t period = Inr k}"
      "\<And>k. map_of bs' k = (if \<exists>t\<in>set ts. exit_period t period = Inr k
         then Some (fold book (filter (\<lambda>t. exit_period t period = Inr k) ts) (case map_of ?bs k of None \<Rightarrow> empty_bucket | Some b \<Rightarrow> b))
         else map_of ?bs k)" by blast
  have none: "filter (\<lambda>t. exit_period t period = Inr k) ts = []" if "\<not> (\<exists>t\<in>set ts. exit_period t period = Inr k)" for k
    using that by (auto simp: filter_empty_conv)
  have "map_of bs' k = (if \<exists>t'\<in>set (t # ts). exit_period t' period = Inr k
       then Some (fold book (filter (\<lambda>t. exit_period t period = Inr k) (t # ts)) (case map_of bs k of None \<Rightarrow> empty_bucket | Some b \<Rightarrow> b))
       else map_of bs k)" for k
    unfolding bs'(4) by (cases "key = k") (auto simp: key update_conv' none)
  moreover have "fst ` set bs' = fst ` set bs \<union> {k. \<exists>t'\<in>set (t # ts). exit_period t' period = Inr k}"
    unfolding bs'(3) by (auto simp: key dom_update)
  ultimately show ?case using bs'(1,2) by (auto simp: key)
qed simp

lemma lengths_by_key:
  assumes "finite K" "\<forall>t\<in>set ts. key t \<in> Inr ` K"
  shows "(\<Sum>k\<in>K. length (filter (\<lambda>t. key t = Inr k) ts)) = length ts"
  using assms
proof (induction ts)
  case (Cons t ts)
  then obtain k0 where k0: "k0 \<in> K" "key t = Inr k0" by auto
  have "(\<Sum>k\<in>K. length (filter (\<lambda>t. key t = Inr k) (t # ts))) = (\<Sum>k\<in>K. (if k = k0 then 1 else 0) + length (filter (\<lambda>t. key t = Inr k) ts))"
    by (intro sum.cong refl) (auto simp: k0)
  also have "\<dots> = 1 + (\<Sum>k\<in>K. length (filter (\<lambda>t. key t = Inr k) ts))" using k0(1) Cons.prems(1) by (simp add: sum.distrib)
  finally show ?case using Cons by simp
qed simp

lemma fold_book_trades: "bu_trades (fold book ts b) = bu_trades b + length ts"
  by (induction ts arbitrary: b) (simp_all add: book_def)



text \<open>
  A partial close breaks the breakdown: after the journal has booked one, the account's breakdown raises, because the
  trade counts as closed and has no exit time.
\<close>
theorem partial_close_breaks_breakdown:
  assumes "record_exit tid price quantity t reason d = Inr (tr, d')" "tr_status tr = TS_PARTIALLY_CLOSED"
    "tr_account_id tr = Some a" "tr_exit_time tr = None" "period \<in> {''daily'', ''weekly'', ''monthly''}"
  shows "get_pnl_breakdown nulls_last d' a period = Inl AttributeError"
proof -
  have raise: "fill_buckets period ts bs = Inl AttributeError" if "\<exists>t\<in>set ts. tr_exit_time t = None" for ts bs
    using that
  proof (induction ts arbitrary: bs)
    case (Cons t ts)
    show ?case
    proof (cases "tr_exit_time t = None")
      case True
      then show ?thesis using assms(5) by (auto simp: exit_period_def)
    next
      case False
      then have "\<exists>t\<in>set ts. tr_exit_time t = None" using Cons.prems by auto
      from Cons.IH [OF this] show ?thesis using exit_period_known [OF False assms(5)] by auto
    qed
  qed simp
  have "tr \<in> set (db_trades d')"
  proof (rule record_exit_cases [OF assms(1)])
    fix trade full
    assume "lookup_trade tid d = Some trade" and d': "d' = (update_trade tid (\<lambda>_. tr) d)\<lparr>db_executions := db_executions d @
       [\<lparr>te_trade_id = tid, te_execution_type = (if full then ET_EXIT else ET_PARTIAL_EXIT),
         te_price = price, te_quantity = quantity, te_timestamp = t, te_exchange_transaction_id = None\<rparr>]\<rparr>"
    then have "trade \<in> set (db_trades d)" "tr_trade_id trade = tid" by (simp_all add: lookup_trade_id)
    then show ?thesis by (force simp: d' update_trade_def set_update_where)
  qed
  then have "tr \<in> set (by_exit_time nulls_last (closed_trades d' (Some a)))"
    using assms(2,3) by (simp add: closed_trades_def)
  with assms(4) have "\<exists>t\<in>set (by_exit_time nulls_last (closed_trades d' (Some a))). tr_exit_time t = None" by blast
  from raise [OF this] show ?thesis by (simp add: get_pnl_breakdown_def)
qed

section \<open>Ranges\<close>

lemma ratio_bounds: "a \<le> b \<Longrightarrow> 0 < b \<Longrightarrow> 0 \<le> ratio_of a b \<and> ratio_of a b \<le> 1"
  using fl_mono [of "of_nat a / of_nat b" 1] fl_nonneg [of "of_nat a / of_nat b"] by (simp add: ratio_of_def)

text \<open>
  The numbers of the user's performance are numbers of a performance: winners and losers are at most the trades, the win rate is
  a proportion and the profit factor is not negative.
\<close>
theorem user_performance_ranges:
  "(case get_user_actual_performance d account_id of p \<Rightarrow>
     up_winning_trades p + up_losing_trades p \<le> up_total_trades p \<and>
     (case up_win_rate p of None \<Rightarrow> up_total_trades p = 0 | Some r \<Rightarrow> 0 \<le> r \<and> r \<le> 1) \<and>
     (case up_profit_factor p of None \<Rightarrow> True | Some f \<Rightarrow> 0 \<le> f))"
proof -
  let ?ts = "closed_trades d account_id"
  let ?w = "filter (\<lambda>t. 0 < or_zero (tr_pnl t)) ?ts" and ?l = "filter (\<lambda>t. or_zero (tr_pnl t) < 0) ?ts"
  have "length (filter (\<lambda>t. 0 < or_zero (tr_pnl t)) ts) + length (filter (\<lambda>t. or_zero (tr_pnl t) < 0) ts) \<le> length ts" for ts
    by (induction ts) auto
  then have wl: "length ?w + length ?l \<le> length ?ts" .
  have "0 \<le> fsum (map (\<lambda>t. or_zero (tr_pnl t)) ?w)" by (rule fsum_nonneg) auto
  then have "0 \<le> fdiv (fsum (map (\<lambda>t. or_zero (tr_pnl t)) ?w)) \<bar>fsum (map (\<lambda>t. or_zero (tr_pnl t)) ?l)\<bar>"
    by (rule fdiv_nonneg) simp
  moreover have "?ts \<noteq> [] \<Longrightarrow> 0 \<le> ratio_of (length ?w) (length ?ts) \<and> ratio_of (length ?w) (length ?ts) \<le> 1"
    using ratio_bounds [of "length ?w" "length ?ts"] wl by auto
  ultimately show ?thesis using wl by (simp add: get_user_actual_performance_def Let_def)
qed

section \<open>Signals that were taken\<close>

lemma evaluate_keeps_untaken:
  "evaluate_outcomes symbol timeframe n ps d = Inr (k, d') \<Longrightarrow> \<forall>q\<in>set (db_outcomes d). \<not> so_was_taken_by_user q \<Longrightarrow>
     \<forall>q\<in>set (db_outcomes d'). \<not> so_was_taken_by_user q"
proof (induction symbol timeframe n ps d arbitrary: k d' rule: evaluate_outcomes.induct)
  case (2 symbol timeframe n o1 s ps d)
  let ?d1 = "\<lambda>r. d\<lparr>db_outcomes := update_where (\<lambda>o2. so_signal_id o2 = so_signal_id o1) (resolved_outcome s r) (db_outcomes d)\<rparr>"
  obtain m where m: "resolve s (candles_after d symbol timeframe (sg_timestamp s) n) n = Inr m" using 2(3) by (auto split: sum.splits)
  show ?case
  proof (cases m)
    case None
    then show ?thesis using 2(1) [OF m None] 2(3,4) m by simp
  next
    case (Some r)
    then obtain k1 where "evaluate_outcomes symbol timeframe n ps (?d1 r) = Inr (k1, d')" using 2(3) m by (auto split: sum.splits)
    moreover have "\<forall>q\<in>set (db_outcomes (?d1 r)). \<not> so_was_taken_by_user q"
      using 2(4) by (auto simp: set_update_where resolved_outcome_def)
    ultimately show ?thesis using 2(2) [OF m Some] by blast
  qed
qed simp

text \<open>
  A signal that the user took counts as missed: linking a trade to a signal leaves the mark of its outcome unset, no other operation sets it, so
  the report of missed signals shows every resolved signal as missed and none as taken.
\<close>
theorem taken_signal_counted_missed:
  assumes "\<forall>q\<in>set (db_outcomes d). \<not> so_was_taken_by_user q"
    "persist_new_signal u r symbol timeframe candle_time regime d = Inr (s, d1)"
    "set_signal_match tid (sg_signal_id s) confidence d1 = Inr (t, d2)"
    "evaluate_pending_signal_outcomes symbol timeframe n d2 = Inr (k, d3)"
  shows "mr_user_taken (get_missed_signals d3) = summary [] \<and> mr_missed (get_missed_signals d3) = mr_all_signals (get_missed_signals d3)"
proof -
  have "\<forall>q\<in>set (db_outcomes d1). \<not> so_was_taken_by_user q"
    using assms(1,2) by (auto simp: persist_new_signal_def insert_defs new_outcome_def Let_def split: sum.splits option.splits if_splits)
  then have "\<forall>q\<in>set (db_outcomes d2). \<not> so_was_taken_by_user q"
    using assms(3) by (auto simp: set_signal_match_def update_trade_def Let_def split: option.splits)
  from evaluate_keeps_untaken [OF assms(4) [unfolded evaluate_pending_signal_outcomes_def] this]
  have untaken: "\<forall>q\<in>set (db_outcomes d3). \<not> so_was_taken_by_user q" .
  then have "filter so_was_taken_by_user (filter (\<lambda>q. so_outcome q \<in> {OC_WIN, OC_LOSS}) (db_outcomes d3)) = []"
    "filter (\<lambda>q. \<not> so_was_taken_by_user q) (filter (\<lambda>q. so_outcome q \<in> {OC_WIN, OC_LOSS}) (db_outcomes d3)) =
       filter (\<lambda>q. so_outcome q \<in> {OC_WIN, OC_LOSS}) (db_outcomes d3)"
    by (simp add: filter_empty_conv) (rule filter_True, use untaken in auto)
  then show ?thesis by (simp only: get_missed_signals_def Let_def missed_report.select_convs)
qed

section \<open>Witnesses\<close>

definition demo_closed :: "datetime \<Rightarrow> trade" where
  "demo_closed e = default_trade\<lparr>tr_trade_id := ''C'', tr_status := TS_CLOSED, tr_account_id := Some ''acc'', tr_exit_time := Some e, tr_pnl := Some 5\<rparr>"


definition demo_held :: trade where
  "demo_held = default_trade\<lparr>tr_trade_id := ''T'', tr_side := ''LONG'', tr_entry_price := 100, tr_quantity := 2, tr_account_id := Some ''acc''\<rparr>"

theorem partial_close_breaks_breakdown_witness:
  "\<exists>tr d'. record_exit ''T'' 110 1 7 None (empty_db\<lparr>db_trades := [demo_held]\<rparr>) = Inr (tr, d') \<and>
     get_pnl_breakdown True d' ''acc'' ''daily'' = Inl AttributeError"
proof -
  let ?d = "empty_db\<lparr>db_trades := [demo_held]\<rparr>"
  have c: "closed_quantity ?d ''T'' = 0" by (simp add: closed_quantity_def empty_db_def)
  have f: "\<not> fadd (fsub 2 0) quantity_epsilon < 1" "\<not> fsub (fsub 2 0) quantity_epsilon \<le> 1" "fadd 0 1 \<noteq> 0" "fmul 100 2 \<noteq> 0"
    by code_simp+
  have "\<exists>tr. exited_trade 0 110 1 7 None False demo_held = Inr tr \<and> tr_status tr = TS_PARTIALLY_CLOSED \<and>
      tr_account_id tr = Some ''acc'' \<and> tr_exit_time tr = None"
    by (simp add: exited_trade_def Let_def py_div_def f(3,4) journal_pnl_pct_def demo_held_def default_trade_def)
  then obtain tr where tr: "exited_trade 0 110 1 7 None False demo_held = Inr tr" "tr_status tr = TS_PARTIALLY_CLOSED"
      "tr_account_id tr = Some ''acc''" "tr_exit_time tr = None" by blast
  have l: "lookup_trade ''T'' ?d = Some demo_held" by (simp add: lookup_trade_def lookup_by_def demo_held_def)
  have q: "tr_quantity demo_held = 2" "tr_status demo_held = TS_OPEN" by (simp_all add: demo_held_def default_trade_def)
  obtain d' where r: "record_exit ''T'' 110 1 7 None ?d = Inr (tr, d')"
    by (simp add: record_exit_def l c q f(1,2) tr(1) Let_def)
  from partial_close_breaks_breakdown [OF this tr(2-4), of "''daily''" True] show ?thesis using r by simp
qed

theorem taken_signal_counted_missed_witness:
  "\<exists>s d1 t d2 k d3. persist_new_signal ''01'' demo_setup ''BTC/USDT'' ''4h'' 0 ''UNCERTAIN'' (empty_db\<lparr>db_trades := [demo_held]\<rparr>) = Inr (s, d1) \<and>
     set_signal_match ''T'' (sg_signal_id s) None d1 = Inr (t, d2) \<and>
     evaluate_pending_signal_outcomes ''BTC/USDT'' ''4h'' 30 d2 = Inr (k, d3) \<and>
     mr_user_taken (get_missed_signals d3) = summary []"
proof -
  let ?d = "empty_db\<lparr>db_trades := [demo_held]\<rparr>"
  obtain s d1 where p: "persist_new_signal ''01'' demo_setup ''BTC/USDT'' ''4h'' 0 ''UNCERTAIN'' ?d = Inr (s, d1)" and rows: "db_trades d1 = [demo_held]"
      "db_candles d1 = []"
    by (simp add: persist_new_signal_def Let_def insert_defs empty_db_def)
  obtain t d2 where m: "set_signal_match ''T'' (sg_signal_id s) None d1 = Inr (t, d2)" and d2: "db_candles d2 = []"
    using rows by (simp add: set_signal_match_def lookup_trade_def lookup_by_def demo_held_def update_trade_def Let_def)
  have "resolve s [] 30 = Inr None" for s by (auto simp: resolve_def split: option.splits)
  then have "evaluate_outcomes ''BTC/USDT'' ''4h'' 30 ps d2 = Inr (0, d2)" for ps
    using d2 by (intro evaluate_nothing) (auto simp: candles_after_def)
  then have e: "evaluate_pending_signal_outcomes ''BTC/USDT'' ''4h'' 30 d2 = Inr (0, d2)" by (simp add: evaluate_pending_signal_outcomes_def)
  have "\<forall>q\<in>set (db_outcomes ?d). \<not> so_was_taken_by_user q" by (simp add: empty_db_def)
  from taken_signal_counted_missed [OF this p m e] show ?thesis using p m e by blast
qed

end
