(* ===== verification/RiskStore.thy ===== *)
theory RiskStore
  imports BotState RiskEngine
begin

text \<open>
  \<open>services/risk_engine/state_store.py\<close>: the risk engine as a row of the key-value table.  The
  payload is the JSON object the source builds; reading it back raises \<open>KeyError\<close> for a missing
  key; a value of the wrong kind, which Python would carry on until its first use, raises
  \<open>TypeError\<close> here.
\<close>

section \<open>Serialisation\<close>

definition STATE_KEY :: string where "STATE_KEY = ''risk_engine_state''"

definition iso_or_none :: "datetime option \<Rightarrow> json" where
  "iso_or_none t = (case t of None \<Rightarrow> JNull | Some t' \<Rightarrow> JIso t')"

definition serialize_config :: "risk_config \<Rightarrow> json" where
  "serialize_config c = JObj
     [(''risk_per_trade_pct'', JNum (rc_risk_per_trade_pct c)),
      (''max_daily_loss_pct'', JNum (rc_max_daily_loss_pct c)),
      (''max_drawdown_pct'', JNum (rc_max_drawdown_pct c)),
      (''max_leverage'', JInt (rc_max_leverage c)),
      (''max_positions'', JInt (rc_max_positions c)),
      (''max_daily_trades'', JInt (rc_max_daily_trades c)),
      (''cooldown_consecutive_losses'', JInt (rc_cooldown_consecutive_losses c)),
      (''cooldown_minutes'', JInt (rc_cooldown_minutes c)),
      (''breakeven_resets_consecutive_losses'', JBool (rc_breakeven_resets c))]"

definition serialize_state :: "risk_state \<Rightarrow> json" where
  "serialize_state s = JObj
     [(''daily_pnl_pct'', JNum (rs_daily_pnl_pct s)),
      (''daily_trades'', JInt (rs_daily_trades s)),
      (''current_drawdown_pct'', JNum (rs_current_drawdown_pct s)),
      (''peak_equity'', JNum (rs_peak_equity s)),
      (''current_equity'', JNum (rs_current_equity s)),
      (''consecutive_losses'', JInt (rs_consecutive_losses s)),
      (''last_loss_time'', iso_or_none (rs_last_loss_time s)),
      (''cooldown_until'', iso_or_none (rs_cooldown_until s)),
      (''kill_switch'', JBool (rs_kill_switch s)),
      (''positions_open'', JInt (rs_positions_open s))]"

definition serialize :: "risk_engine \<Rightarrow> json" where
  "serialize e = JObj
     [(''initial_equity'', JNum (re_initial_equity e)),
      (''trade_date'', JDate (re_trade_date e)),
      (''config'', serialize_config (re_config e)),
      (''state'', serialize_state (re_state e))]"

section \<open>Reading back\<close>

definition item :: "string \<Rightarrow> json \<Rightarrow> json result" where
  "item k j = (case j of JObj kvs \<Rightarrow> (case map_of kvs k of None \<Rightarrow> Inl KeyError | Some v \<Rightarrow> Inr v)
               | _ \<Rightarrow> Inl TypeError)"

definition as_num :: "json \<Rightarrow> f64 result" where
  "as_num j = (case j of JNum x \<Rightarrow> Inr x | JInt n \<Rightarrow> Inr (float_of_int n) | _ \<Rightarrow> Inl TypeError)"
definition as_int :: "json \<Rightarrow> int result" where
  "as_int j = (case j of JInt n \<Rightarrow> Inr n | _ \<Rightarrow> Inl TypeError)"
definition as_bool :: "json \<Rightarrow> bool result" where
  "as_bool j = (case j of JBool b \<Rightarrow> Inr b | _ \<Rightarrow> Inl TypeError)"

text \<open>\<open>datetime.fromisoformat(s) if s else None\<close>\<close>

definition as_iso_or_none :: "json \<Rightarrow> datetime option result" where
  "as_iso_or_none j =
     (if json_truthy j then (case j of JIso t \<Rightarrow> Inr (Some t) | JStr _ \<Rightarrow> Inl ValueError | _ \<Rightarrow> Inl TypeError)
      else Inr None)"

definition as_date :: "json \<Rightarrow> date result" where
  "as_date j = (case j of JDate d \<Rightarrow> Inr d | JStr _ \<Rightarrow> Inl ValueError | _ \<Rightarrow> Inl TypeError)"

definition bind_result :: "'a result \<Rightarrow> ('a \<Rightarrow> 'b result) \<Rightarrow> 'b result" where
  "bind_result r f = (case r of Inl x \<Rightarrow> Inl x | Inr v \<Rightarrow> f v)"

definition field :: "string \<Rightarrow> (json \<Rightarrow> 'a result) \<Rightarrow> json \<Rightarrow> 'a result" where
  "field k conv j = bind_result (item k j) conv"

lemma bind_result_Inr [simp]: "bind_result (Inr v) f = f v"
  by (simp add: bind_result_def)

definition deserialize_config :: "json \<Rightarrow> risk_config result" where
  "deserialize_config j =
     bind_result (field ''risk_per_trade_pct'' as_num j) (\<lambda>a.
     bind_result (field ''max_daily_loss_pct'' as_num j) (\<lambda>b.
     bind_result (field ''max_drawdown_pct'' as_num j) (\<lambda>c.
     bind_result (field ''max_leverage'' as_int j) (\<lambda>d.
     bind_result (field ''max_positions'' as_int j) (\<lambda>e.
     bind_result (field ''max_daily_trades'' as_int j) (\<lambda>f.
     bind_result (field ''cooldown_consecutive_losses'' as_int j) (\<lambda>g.
     bind_result (field ''cooldown_minutes'' as_int j) (\<lambda>h.
     bind_result (field ''breakeven_resets_consecutive_losses'' as_bool j) (\<lambda>i.
       Inr \<lparr>rc_risk_per_trade_pct = a, rc_max_daily_loss_pct = b, rc_max_drawdown_pct = c,
            rc_max_leverage = d, rc_max_positions = e, rc_max_daily_trades = f,
            rc_cooldown_consecutive_losses = g, rc_cooldown_minutes = h, rc_breakeven_resets = i\<rparr>)))))))))"

definition deserialize_state :: "json \<Rightarrow> risk_state result" where
  "deserialize_state j =
     bind_result (field ''daily_pnl_pct'' as_num j) (\<lambda>a.
     bind_result (field ''daily_trades'' as_int j) (\<lambda>b.
     bind_result (field ''current_drawdown_pct'' as_num j) (\<lambda>c.
     bind_result (field ''peak_equity'' as_num j) (\<lambda>d.
     bind_result (field ''current_equity'' as_num j) (\<lambda>e.
     bind_result (field ''consecutive_losses'' as_int j) (\<lambda>f.
     bind_result (field ''last_loss_time'' as_iso_or_none j) (\<lambda>g.
     bind_result (field ''cooldown_until'' as_iso_or_none j) (\<lambda>h.
     bind_result (field ''kill_switch'' as_bool j) (\<lambda>i.
     bind_result (field ''positions_open'' as_int j) (\<lambda>k.
       Inr \<lparr>rs_daily_pnl_pct = a, rs_daily_trades = b, rs_current_drawdown_pct = c, rs_peak_equity = d,
            rs_current_equity = e, rs_consecutive_losses = f, rs_last_loss_time = g,
            rs_cooldown_until = h, rs_kill_switch = i, rs_positions_open = k\<rparr>))))))))))"

text \<open>The engine is constructed with today's date, then its date and state are overwritten.\<close>

definition deserialize :: "date \<Rightarrow> json \<Rightarrow> risk_engine result" where
  "deserialize today payload =
     bind_result (field ''config'' deserialize_config payload) (\<lambda>config.
     bind_result (field ''initial_equity'' as_num payload) (\<lambda>equity.
     bind_result (field ''trade_date'' as_date payload) (\<lambda>d.
     bind_result (field ''state'' deserialize_state payload) (\<lambda>s.
       Inr ((new_risk_engine config equity today)\<lparr>re_trade_date := d, re_state := s\<rparr>)))))"

section \<open>The table\<close>

definition load_risk_engine :: "db \<Rightarrow> risk_config \<Rightarrow> f64 \<Rightarrow> date \<Rightarrow> risk_engine result" where
  "load_risk_engine d config initial_equity today =
     (case bot_get d STATE_KEY of
        None \<Rightarrow> Inr (new_risk_engine config initial_equity today)
      | Some v \<Rightarrow> deserialize today v)"

definition save_risk_engine :: "risk_engine \<Rightarrow> db \<Rightarrow> db" where
  "save_risk_engine e d = bot_put STATE_KEY (serialize e) d"

section \<open>Round trip\<close>

lemma as_iso_roundtrip [simp]: "as_iso_or_none (iso_or_none t) = Inr t"
  by (cases t) (simp_all add: iso_or_none_def as_iso_or_none_def)

lemma field_hit: "map_of kvs k = Some v \<Longrightarrow> field k conv (JObj kvs) = conv v"
  by (simp add: field_def item_def)

lemma deserialize_serialize_config: "deserialize_config (serialize_config c) = Inr c"
  by (simp add: deserialize_config_def serialize_config_def field_def item_def as_num_def as_int_def as_bool_def)

lemma deserialize_serialize_state: "deserialize_state (serialize_state s) = Inr s"
  by (simp add: deserialize_state_def serialize_state_def field_def item_def as_num_def as_int_def as_bool_def)

lemma deserialize_serialize: "deserialize today (serialize e) = Inr e"
  by (simp add: deserialize_def serialize_def field_def item_def as_num_def as_date_def
      deserialize_serialize_config deserialize_serialize_state new_risk_engine_def)

section \<open>Properties\<close>

text \<open>
  C37: Saving and loading the risk engine is lossless and survives every write to another row: the
  engine loaded after any sequence of writes to other keys is the engine saved, on any later day
  and with any default configuration; in particular a hard kill survives a restart.
\<close>

theorem risk_engine_roundtrip:
  assumes "STATE_KEY \<notin> fst ` set kvs"
  shows "load_risk_engine (fold (\<lambda>(k, v). bot_put k v) kvs (save_risk_engine e d)) c eq today = Inr e"
  using assms
  by (simp add: load_risk_engine_def save_risk_engine_def bot.puts_frame bot.get_put_same deserialize_serialize)

theorem risk_engine_roundtrip_witness:
  "load_risk_engine (bot_put ''deployed_model_metadata'' JNull
      (save_risk_engine (activate_kill_switch (new_risk_engine default_risk_config 10000 0)) empty_db))
      default_risk_config 10000 7
    = Inr (activate_kill_switch (new_risk_engine default_risk_config 10000 0))"
proof -
  have "STATE_KEY \<notin> fst ` set [(''deployed_model_metadata'', JNull)]" by (simp add: STATE_KEY_def)
  from risk_engine_roundtrip [OF this] show ?thesis by simp
qed

end
