(* ===== verification/LiveExecution.thy ===== *)
theory LiveExecution
  imports LiveControls LiveSizing Scanner Tables
begin

text \<open>
  \<open>services/live_execution/gates.py\<close> and \<open>executor.py\<close>: the eighteen gates of a live candidate,
  the executor that turns a candidate into one durable row, and the same executor as workers that
  interleave at every commit.  A gate result is its name and its verdict; the texts of the reasons
  are left out, the name of the first gate that failed is kept as the reason of a rejection.
\<close>

section \<open>Candidates and gates\<close>

definition MAX_ENTRY_DEVIATION_PCT :: f64 where "MAX_ENTRY_DEVIATION_PCT = 3/2"
definition MAX_SIGNAL_AGE_SECONDS :: f64 where "MAX_SIGNAL_AGE_SECONDS = 300"
definition ORDER_CONTRACT_VERIFIED :: bool where "ORDER_CONTRACT_VERIFIED = False"

record live_candidate =
  lc_source :: string
  lc_symbol :: string
  lc_direction :: string
  lc_entry_price :: f64
  lc_stop_loss :: "f64 option"
  lc_take_profit_1 :: "f64 option"
  lc_take_profit_2 :: "f64 option"
  lc_take_profit_3 :: "f64 option"
  lc_signal_timestamp :: "datetime option"
  lc_signal_id :: "string option"
  lc_instrument :: "string option"
  lc_instrument_eligible :: bool
  lc_current_market_price :: "f64 option"
  lc_instrument_metadata :: "instrument option"

text \<open>The arguments that the caller must have determined before.\<close>

record gate_inputs =
  gi_usdt_inr_rate :: "f64 option"
  gi_market_data_healthy :: bool
  gi_coindcx_account_healthy :: bool
  gi_daily_loss_ok :: bool
  gi_reconciliation_ok :: bool

type_synonym gate_result = "string \<times> bool"

definition validate_sl_tp_structure :: "string \<Rightarrow> f64 \<Rightarrow> f64 option \<Rightarrow> f64 option \<Rightarrow> bool" where
  "validate_sl_tp_structure direction entry stop_loss take_profit_1 =
     (case (stop_loss, take_profit_1) of
        (Some sl, Some tp) \<Rightarrow>
          if direction = ''LONG'' then sl < entry \<and> entry < tp
          else if direction = ''SHORT'' then sl > entry \<and> entry > tp
          else False
      | _ \<Rightarrow> False)"

definition count_open_live_positions :: "db \<Rightarrow> int" where
  "count_open_live_positions d = int (length (open_live_rows d))"

definition has_conflicting_open_position :: "db \<Rightarrow> string \<Rightarrow> bool" where
  "has_conflicting_open_position d symbol \<longleftrightarrow> filter (\<lambda>l. lx_symbol l = symbol) (open_live_rows d) \<noteq> []"

definition signal_fresh :: "datetime option \<Rightarrow> datetime \<Rightarrow> bool" where
  "signal_fresh t now = (case t of None \<Rightarrow> False
     | Some t \<Rightarrow> 0 \<le> total_seconds (now - t) \<and> total_seconds (now - t) \<le> MAX_SIGNAL_AGE_SECONDS)"

definition entry_deviation_ok :: "f64 option \<Rightarrow> f64 \<Rightarrow> bool" where
  "entry_deviation_ok price entry = (case price of None \<Rightarrow> False
     | Some p \<Rightarrow> p > 0 \<and> entry > 0 \<and> fmul (fdiv \<bar>fsub p entry\<bar> entry) 100 \<le> MAX_ENTRY_DEVIATION_PCT)"

text \<open>
  The gates in the order of the source, all evaluated.  The last one is a constant of the source;
  it is an argument here so that the effect of the others can be stated too.
\<close>

definition live_gates ::
  "bool \<Rightarrow> settings \<Rightarrow> live_candidate \<Rightarrow> gate_inputs \<Rightarrow> datetime \<Rightarrow> db \<Rightarrow> gate_result list" where
  "live_gates contract_verified st c gi now d =
     (let sl_ok = validate_sl_tp_structure (lc_direction c) (lc_entry_price c) (lc_stop_loss c) (lc_take_profit_1 c);
          sizing = calculate_precision_sized_quantity (Some (lc_entry_price c)) (gi_usdt_inr_rate gi)
                     (lc_instrument_metadata c) FIXED_MARGIN_INR FIXED_LEVERAGE;
          risk_check = check_fixed_margin_trade d (Some (lc_entry_price c)) (gi_usdt_inr_rate gi) now
      in [(''AUTOMATIC_TRADING_ENABLED'', st_automatic_trading_enabled st),
          (''LIVE_EXECUTION_ARMED'', st_live_execution_armed st),
          (''EMERGENCY_STOP_CLEAR'', \<not> is_emergency_stop_active d),
          (''MARKET_DATA_HEALTHY'', gi_market_data_healthy gi),
          (''COINDCX_ACCOUNT_HEALTHY'', gi_coindcx_account_healthy gi),
          (''INSTRUMENT_ELIGIBLE'', lc_instrument_eligible c),
          (''SIGNAL_FRESH'', signal_fresh (lc_signal_timestamp c) now),
          (''VALID_SL'', lc_stop_loss c \<noteq> None \<and> sl_ok),
          (''VALID_TP'', lc_take_profit_1 c \<noteq> None \<and> sl_ok),
          (''POSITION_LIMIT_OK'', count_open_live_positions d < st_max_open_positions_live st),
          (''NO_CONFLICTING_POSITION'', \<not> has_conflicting_open_position d (lc_symbol c)),
          (''ENTRY_DEVIATION_OK'', entry_deviation_ok (lc_current_market_price c) (lc_entry_price c)),
          (''QUANTITY_VALID'', ps_approved sizing),
          (''DAILY_LOSS_LIMIT_OK'', gi_daily_loss_ok gi),
          (''RECONCILIATION_OK'', gi_reconciliation_ok gi),
          (''RISK_ENGINE_APPROVED'', fc_approved risk_check),
          (''DAILY_LIMIT_NOT_EXCEEDED'',
             (case fc_budget risk_check of None \<Rightarrow> False | Some b \<Rightarrow> can_open_new_entry b)),
          (''ORDER_CONTRACT_VERIFIED'', contract_verified)])"

definition gates_approved :: "gate_result list \<Rightarrow> bool" where
  "gates_approved results = list_all snd results"

definition first_failure :: "gate_result list \<Rightarrow> string option" where
  "first_failure results = map_option fst (find (\<lambda>r. \<not> snd r) results)"

definition check_all_live_execution_gates ::
  "settings \<Rightarrow> live_candidate \<Rightarrow> gate_inputs \<Rightarrow> datetime \<Rightarrow> db \<Rightarrow> gate_result list" where
  "check_all_live_execution_gates = live_gates ORDER_CONTRACT_VERIFIED"

section \<open>The executor\<close>

definition get_existing_execution :: "db \<Rightarrow> string \<Rightarrow> live_execution option" where
  "get_existing_execution d k = lookup_by lx_idempotency_key k (db_live d)"

definition candidate_key :: "live_candidate \<Rightarrow> string" where
  "candidate_key c = compute_idempotency_key (lc_source c) (lc_symbol c) (lc_signal_id c) None None"

definition received_row :: "live_candidate \<Rightarrow> live_execution" where
  "received_row c =
     \<lparr>lx_idempotency_key = candidate_key c, lx_source = lc_source c, lx_signal_id = lc_signal_id c,
      lx_symbol = lc_symbol c, lx_instrument = lc_instrument c, lx_direction = lc_direction c,
      lx_status = LX_RECEIVED, lx_rejected_by = None, lx_gate_results = None,
      lx_entry_price = Some (lc_entry_price c), lx_stop_loss = lc_stop_loss c,
      lx_take_profit_1 = lc_take_profit_1 c, lx_take_profit_2 = lc_take_profit_2 c,
      lx_take_profit_3 = lc_take_profit_3 c, lx_quantity = None\<rparr>"

definition save_live :: "live_execution \<Rightarrow> db \<Rightarrow> db" where
  "save_live r d = d\<lparr>db_live := update_where (\<lambda>l. lx_idempotency_key l = lx_idempotency_key r) (\<lambda>_. r) (db_live d)\<rparr>"

text \<open>The decision on a parsed row: the gate results, and the rejection or the approval.\<close>

definition decide_row :: "gate_result list \<Rightarrow> live_execution \<Rightarrow> live_execution" where
  "decide_row results r =
     (if \<not> gates_approved results
      then r\<lparr>lx_gate_results := Some results, lx_status := LX_REJECTED, lx_rejected_by := first_failure results\<rparr>
      else r\<lparr>lx_gate_results := Some results, lx_status := LX_RISK_APPROVED\<rparr>)"

definition submit_row :: "live_candidate \<Rightarrow> live_execution \<Rightarrow> live_execution" where
  "submit_row c r =
     (case submit_futures_order (text_or (lc_instrument c) (lc_symbol c))
             (if lc_direction c = ''LONG'' then ''buy'' else ''sell'') 0 10
             (lc_stop_loss c) (lc_take_profit_1 c) (Some (lx_idempotency_key r)) of
        Inl _ \<Rightarrow> r\<lparr>lx_status := LX_REJECTED, lx_rejected_by := Some ''OrderContractNotVerifiedError''\<rparr>
      | Inr _ \<Rightarrow> r)"

text \<open>
  The executor of one worker, a step per commit.  \<open>W_done\<close> carries the row returned; the third
  component of a step is the keys under which an order was submitted.
\<close>

datatype worker =
    W_start
  | W_insert
  | W_lost
  | W_inserted live_execution
  | W_parsed live_execution
  | W_approved live_execution
  | W_attempted live_execution
  | W_done live_execution

fun worker_step ::
  "bool \<Rightarrow> settings \<Rightarrow> live_candidate \<Rightarrow> gate_inputs \<Rightarrow> datetime \<Rightarrow> worker \<Rightarrow> db \<Rightarrow> worker \<times> db \<times> string list" where
  "worker_step v st c gi now W_start d =
     (case get_existing_execution d (candidate_key c) of
        Some r \<Rightarrow> (W_done r, d, []) | None \<Rightarrow> (W_insert, d, []))"
| "worker_step v st c gi now W_insert d =
     (case insert_live (received_row c) d of
        Inr d' \<Rightarrow> (W_inserted (received_row c), d', []) | Inl _ \<Rightarrow> (W_lost, d, []))"
| "worker_step v st c gi now W_lost d =
     (case get_existing_execution d (candidate_key c) of
        Some r \<Rightarrow> (W_done r, d, []) | None \<Rightarrow> (W_done (received_row c), d, []))"
| "worker_step v st c gi now (W_inserted r) d =
     (let r' = r\<lparr>lx_status := LX_PARSED\<rparr> in (W_parsed r', save_live r' d, []))"
| "worker_step v st c gi now (W_parsed r) d =
     (let results = live_gates v st c gi now d; r' = decide_row results r
      in (if gates_approved results then W_approved r' else W_done r', save_live r' d, []))"
| "worker_step v st c gi now (W_approved r) d =
     (let r' = r\<lparr>lx_status := LX_EXECUTION_ATTEMPTED\<rparr> in (W_attempted r', save_live r' d, []))"
| "worker_step v st c gi now (W_attempted r) d =
     (let r' = submit_row c r in (W_done r', save_live r' d, [lx_idempotency_key r]))"
| "worker_step v st c gi now (W_done r) d = (W_done r, d, [])"

text \<open>One worker alone: at most seven steps.\<close>

fun worker_run :: "nat \<Rightarrow> bool \<Rightarrow> settings \<Rightarrow> live_candidate \<Rightarrow> gate_inputs \<Rightarrow> datetime \<Rightarrow> worker \<Rightarrow> db \<Rightarrow> worker \<times> db" where
  "worker_run 0 v st c gi now w d = (w, d)"
| "worker_run (Suc n) v st c gi now w d =
     (let (w', d', _) = worker_step v st c gi now w d in worker_run n v st c gi now w' d')"

definition process_live_execution_candidate ::
  "settings \<Rightarrow> live_candidate \<Rightarrow> gate_inputs \<Rightarrow> datetime \<Rightarrow> db \<Rightarrow> live_execution \<times> db" where
  "process_live_execution_candidate st c gi now d =
     (case worker_run 7 ORDER_CONTRACT_VERIFIED st c gi now W_start d of
        (W_done r, d') \<Rightarrow> (r, d')
      | (_, d') \<Rightarrow> (received_row c, d'))"

section \<open>Workers side by side\<close>

text \<open>
  Any number of workers, each with its own candidate, inputs and clock, over one database.  A step
  is a step of one worker, a worker that crashes and is started again on the same candidate (a
  retry of the scheduler, a redelivered message), or a change by anybody else that leaves the
  table of live executions as it is.
\<close>

record exec_setup =
  xs_contract_verified :: bool
  xs_settings :: "nat \<Rightarrow> settings"
  xs_candidate :: "nat \<Rightarrow> live_candidate"
  xs_inputs :: "nat \<Rightarrow> gate_inputs"
  xs_now :: "nat \<Rightarrow> datetime"

record exec_state =
  xs_db :: db
  xs_worker :: "nat \<Rightarrow> worker"
  xs_submitted :: "string list"

definition exec_init :: "db \<Rightarrow> exec_state" where
  "exec_init d = \<lparr>xs_db = d, xs_worker = (\<lambda>_. W_start), xs_submitted = []\<rparr>"

inductive exec_step :: "exec_setup \<Rightarrow> exec_state \<Rightarrow> exec_state \<Rightarrow> bool" for X where
  exec_work: "worker_step (xs_contract_verified X) (xs_settings X i) (xs_candidate X i) (xs_inputs X i) (xs_now X i)
      (xs_worker s i) (xs_db s) = (w', d', ks) \<Longrightarrow>
    exec_step X s \<lparr>xs_db = d', xs_worker = (xs_worker s)(i := w'), xs_submitted = ks @ xs_submitted s\<rparr>"
| exec_restart: "exec_step X s (s\<lparr>xs_worker := (xs_worker s)(i := W_start)\<rparr>)"
| exec_other: "db_live d' = db_live (xs_db s) \<Longrightarrow> exec_step X s (s\<lparr>xs_db := d'\<rparr>)"

inductive exec_reach :: "exec_setup \<Rightarrow> db \<Rightarrow> exec_state \<Rightarrow> bool" for X d0 where
  reach_init: "exec_reach X d0 (exec_init d0)"
| reach_step: "exec_reach X d0 s \<Longrightarrow> exec_step X s s' \<Longrightarrow> exec_reach X d0 s'"

section \<open>Lemmas\<close>

abbreviation live_keys :: "db \<Rightarrow> string set" where
  "live_keys d \<equiv> lx_idempotency_key ` set (db_live d)"

fun owned :: "worker \<Rightarrow> live_execution option" where
  "owned (W_inserted r) = Some r"
| "owned (W_parsed r) = Some r"
| "owned (W_approved r) = Some r"
| "owned (W_attempted r) = Some r"
| "owned _ = None"

lemma live_row_keys [simp]:
  "lx_idempotency_key (received_row c) = candidate_key c"
  "lx_idempotency_key (decide_row rs r) = lx_idempotency_key r"
  "lx_idempotency_key (submit_row c r) = lx_idempotency_key r"
  by (simp_all add: received_row_def decide_row_def submit_row_def split: sum.splits)

lemma save_live_keys [simp]: "map lx_idempotency_key (db_live (save_live r d)) = map lx_idempotency_key (db_live d)"
  by (simp add: save_live_def map_update_where)

lemma save_live_key_set [simp]: "live_keys (save_live r d) = live_keys d"
  using save_live_keys [of r d] by (metis list.set_map)

lemma save_live_keeps: "x \<in> set (db_live d) \<Longrightarrow> lx_idempotency_key x \<noteq> lx_idempotency_key r \<Longrightarrow> x \<in> set (db_live (save_live r d))"
  by (simp add: save_live_def set_update_where)

lemma get_existing_None: "get_existing_execution d k = None \<longleftrightarrow> k \<notin> live_keys d"
  by (simp add: get_existing_execution_def lookup_by_None)

lemma get_existing_Some:
  "get_existing_execution d k = Some r \<Longrightarrow> r \<in> set (db_live d) \<and> lx_idempotency_key r = k \<and> k \<in> live_keys d"
  unfolding get_existing_execution_def by (drule lookup_by_Some) blast

definition worker_ok :: "live_candidate \<Rightarrow> db \<Rightarrow> worker \<Rightarrow> bool" where
  "worker_ok c d w = (case w of W_start \<Rightarrow> True | W_insert \<Rightarrow> True | W_lost \<Rightarrow> candidate_key c \<in> live_keys d
     | W_inserted r \<Rightarrow> lx_idempotency_key r = candidate_key c \<and> candidate_key c \<in> live_keys d
     | W_parsed r \<Rightarrow> lx_idempotency_key r = candidate_key c \<and> candidate_key c \<in> live_keys d
     | W_approved r \<Rightarrow> lx_idempotency_key r = candidate_key c \<and> candidate_key c \<in> live_keys d
     | W_attempted r \<Rightarrow> lx_idempotency_key r = candidate_key c \<and> candidate_key c \<in> live_keys d
     | W_done r \<Rightarrow> lx_idempotency_key r = candidate_key c \<and> candidate_key c \<in> live_keys d)"

text \<open>What a step of a worker can do to the table: nothing, one new row, or a write to the row it owns.\<close>

lemma worker_step_effect:
  assumes "worker_step v st c gi now w d = (w', d', ks)" and ok: "worker_ok c d w"
  obtains (keep) "d' = d" "ks = []" "owned w = None" "owned w' = None" "worker_ok c d' w'"
  | (insert) "owned w = None" "owned w' = Some (received_row c)" "candidate_key c \<notin> live_keys d"
      "db_live d' = db_live d @ [received_row c]" "ks = []" "worker_ok c d' w'"
  | (save) r r' where "owned w = Some r" "d' = save_live r' d" "lx_idempotency_key r = candidate_key c"
      "lx_idempotency_key r' = candidate_key c"
      "owned w' = None \<or> owned w' = Some r' \<and> ks = []" "ks = [] \<or> ks = [candidate_key c]" "worker_ok c d' w'"
proof (cases w)
  case W_start
  then show ?thesis using assms
    by (intro keep) (auto simp: worker_ok_def split: option.splits dest!: get_existing_Some)
next
  case W_insert
  show ?thesis
  proof (cases "insert_live (received_row c) d")
    case (Inl x)
    then have "candidate_key c \<in> live_keys d"
      using live.add_fresh [of "received_row c" d] by force
    then show ?thesis using assms(1) Inl W_insert by (intro keep) (auto simp: worker_ok_def)
  next
    case (Inr d1)
    note rows = live.add_row_rows [OF Inr]
    show ?thesis using assms(1) Inr W_insert rows by (intro insert) (auto simp: worker_ok_def)
  qed
next
  case W_lost
  then obtain r where "get_existing_execution d (candidate_key c) = Some r"
    using ok get_existing_None [of d "candidate_key c"] by (auto simp: worker_ok_def)
  then show ?thesis using assms(1) W_lost ok get_existing_Some [of d "candidate_key c" r]
    by (intro keep) (auto simp: worker_ok_def)
next
  case (W_inserted r)
  then show ?thesis using assms by (intro save [of r "r\<lparr>lx_status := LX_PARSED\<rparr>"]) (auto simp: worker_ok_def Let_def)
next
  case (W_parsed r)
  then show ?thesis using assms
    by (intro save [of r "decide_row (live_gates v st c gi now d) r"]) (auto simp: worker_ok_def Let_def split: if_splits)
next
  case (W_approved r)
  then show ?thesis using assms by (intro save [of r "r\<lparr>lx_status := LX_EXECUTION_ATTEMPTED\<rparr>"]) (auto simp: worker_ok_def Let_def)
next
  case (W_attempted r)
  then show ?thesis using assms by (intro save [of r "submit_row c r"]) (auto simp: worker_ok_def Let_def)
next
  case (W_done r)
  then show ?thesis using assms by (intro keep) auto
qed

lemma worker_step_unverified:
  "worker_step False st c gi now w d = (w', d', ks) \<Longrightarrow> \<not> (\<exists>r. w = W_approved r \<or> w = W_attempted r) \<Longrightarrow>
     ks = [] \<and> \<not> (\<exists>r. w' = W_approved r \<or> w' = W_attempted r)"
  by (cases w) (auto simp: Let_def live_gates_def gates_approved_def split: option.splits sum.splits)

lemma worker_ok_mono: "worker_ok c d w \<Longrightarrow> live_keys d \<subseteq> live_keys d' \<Longrightarrow> worker_ok c d' w"
  by (cases w) (auto simp: worker_ok_def)

definition exec_inv :: "exec_setup \<Rightarrow> db \<Rightarrow> exec_state \<Rightarrow> bool" where
  "exec_inv X d0 s \<longleftrightarrow>
     distinct (map lx_idempotency_key (db_live (xs_db s))) \<and>
     set (db_live d0) \<subseteq> set (db_live (xs_db s)) \<and>
     (\<forall>i. worker_ok (xs_candidate X i) (xs_db s) (xs_worker s i)) \<and>
     (\<forall>i. owned (xs_worker s i) \<noteq> None \<longrightarrow>
        candidate_key (xs_candidate X i) \<notin> live_keys d0 \<union> set (xs_submitted s)) \<and>
     (\<forall>i j. owned (xs_worker s i) \<noteq> None \<and> owned (xs_worker s j) \<noteq> None \<and>
        candidate_key (xs_candidate X i) = candidate_key (xs_candidate X j) \<longrightarrow> i = j) \<and>
     distinct (xs_submitted s) \<and> set (xs_submitted s) \<subseteq> live_keys (xs_db s) - live_keys d0"

lemma exec_inv_init: "distinct (map lx_idempotency_key (db_live d)) \<Longrightarrow> exec_inv X d (exec_init d)"
  by (simp add: exec_inv_def exec_init_def worker_ok_def)

lemma exec_inv_step:
  assumes "exec_step X s s'" and inv: "exec_inv X d0 s"
  shows "exec_inv X d0 s'"
  using assms(1)
proof cases
  case (exec_work i w' d' ks)
  have ok: "worker_ok (xs_candidate X i) (xs_db s) (xs_worker s i)" using inv by (simp add: exec_inv_def)
  let ?k = "candidate_key (xs_candidate X i)"
  from exec_work(2) ok show ?thesis
  proof (cases rule: worker_step_effect)
    case keep
    then show ?thesis using inv by (auto simp: exec_work(1) exec_inv_def)
  next
    case insert
    have sub: "live_keys (xs_db s) \<subseteq> live_keys d'" using insert by auto
    have own: "owned (xs_worker s j) = None" if "candidate_key (xs_candidate X j) = ?k" for j
    proof -
      have "worker_ok (xs_candidate X j) (xs_db s) (xs_worker s j)" using inv by (simp add: exec_inv_def)
      then show ?thesis using that insert(3) by (cases "xs_worker s j") (auto simp: worker_ok_def)
    qed
    have "live_keys d0 \<subseteq> live_keys (xs_db s)" using inv by (auto simp: exec_inv_def)
    then show ?thesis using inv insert own worker_ok_mono [OF _ sub] unfolding exec_work(1) exec_inv_def
      by (auto simp del: owned.simps)
  next
    case (save r r')
    have k: "?k \<in> live_keys (xs_db s)" using save(1) ok by (cases "xs_worker s i") (auto simp: worker_ok_def)
    have k0: "?k \<notin> live_keys d0" using save(1) inv by (auto simp: exec_inv_def)
    then have "set (db_live d0) \<subseteq> set (db_live (save_live r' (xs_db s)))"
      using inv save(4) by (auto simp: exec_inv_def image_iff intro!: save_live_keeps)
    moreover have "worker_ok c (save_live r' (xs_db s)) w" if "worker_ok c (xs_db s) w" for c w
      using worker_ok_mono [OF that, of "save_live r' (xs_db s)"] by simp
    ultimately show ?thesis using inv save k k0 unfolding exec_work(1) exec_inv_def
      by (auto simp del: owned.simps) (metis imageI)+
  qed
next
  case (exec_restart i)
  then show ?thesis using inv by (auto simp: exec_inv_def worker_ok_def)
next
  case (exec_other d')
  then show ?thesis using inv worker_ok_mono [of _ "xs_db s" _ d'] by (auto simp: exec_inv_def)
qed

lemma exec_inv_reach:
  "exec_reach X d0 s \<Longrightarrow> distinct (map lx_idempotency_key (db_live d0)) \<Longrightarrow> exec_inv X d0 s"
  by (induction rule: exec_reach.induct) (auto intro: exec_inv_init exec_inv_step)

lemma exec_unverified_reach:
  "exec_reach X d0 s \<Longrightarrow> \<not> xs_contract_verified X \<Longrightarrow>
     xs_submitted s = [] \<and> (\<forall>i r. xs_worker s i \<noteq> W_approved r \<and> xs_worker s i \<noteq> W_attempted r)"
proof (induction rule: exec_reach.induct)
  case (reach_step s s')
  from reach_step(2) show ?case
  proof cases
    case (exec_work i w' d' ks)
    then show ?thesis using reach_step worker_step_unverified [of "xs_settings X i" "xs_candidate X i" "xs_inputs X i"
        "xs_now X i" "xs_worker s i" "xs_db s" w' d' ks] by auto
  qed (use reach_step in auto)
qed (simp add: exec_init_def)

lemma open_live_rows_append:
  "lx_status r \<notin> {LX_POSITION_OPEN, LX_PARTIAL_EXIT} \<Longrightarrow>
     open_live_rows (d\<lparr>db_live := db_live d @ [r]\<rparr>) = open_live_rows d"
  by (simp add: open_live_rows_def)

lemma live_gates_append:
  "lx_status r \<notin> {LX_POSITION_OPEN, LX_PARTIAL_EXIT} \<Longrightarrow>
     live_gates v st c gi now (d\<lparr>db_live := db_live d @ [r]\<rparr>) = live_gates v st c gi now d"
  by (simp add: live_gates_def count_open_live_positions_def has_conflicting_open_position_def
      open_live_rows_append is_emergency_stop_active_def bot_get_def check_fixed_margin_trade_def
      get_daily_trade_budget_def Let_def)

lemma live_gates_length: "length (live_gates v st c gi now d) = 18"
  by (simp add: live_gates_def Let_def)

lemma not_approved_first: "\<not> gates_approved rs \<longleftrightarrow> (\<exists>n. first_failure rs = Some n)"
  by (induction rs) (auto simp: gates_approved_def first_failure_def)

lemma unverified_not_approved: "\<not> gates_approved (live_gates False st c gi now d)"
  by (simp add: live_gates_def gates_approved_def Let_def)

text \<open>The path of a worker alone whose gates refuse.\<close>

lemma save_appended:
  assumes "lx_idempotency_key r \<notin> live_keys d" "lx_idempotency_key r' = lx_idempotency_key r"
  shows "save_live r' (d\<lparr>db_live := db_live d @ [r]\<rparr>) = d\<lparr>db_live := db_live d @ [r']\<rparr>"
proof -
  have "update_where (\<lambda>l. lx_idempotency_key l = lx_idempotency_key r') (\<lambda>_. r') (db_live d) = db_live d"
    using assms by (intro update_where_none) (auto simp: image_iff)
  then show ?thesis using assms by (simp add: save_live_def)
qed

lemma insert_fresh_row: "lx_idempotency_key r \<notin> live_keys d \<Longrightarrow> insert_live r d = Inr (d\<lparr>db_live := db_live d @ [r]\<rparr>)"
  by (simp add: insert_defs)

lemma process_fresh:
  assumes "candidate_key c \<notin> live_keys d"
  shows "process_live_execution_candidate st c gi now d =
     (let r = decide_row (check_all_live_execution_gates st c gi now d) (received_row c\<lparr>lx_status := LX_PARSED\<rparr>)
      in (r, d\<lparr>db_live := db_live d @ [r]\<rparr>))"
proof -
  let ?p = "received_row c\<lparr>lx_status := LX_PARSED\<rparr>"
  let ?r = "decide_row (live_gates False st c gi now d) ?p"
  have g: "live_gates False st c gi now (d\<lparr>db_live := db_live d @ [?p]\<rparr>) = live_gates False st c gi now d"
    by (rule live_gates_append) simp
  have k: "get_existing_execution d (candidate_key c) = None" using assms by (simp add: get_existing_None)
  have i: "insert_live (received_row c) d = Inr (d\<lparr>db_live := db_live d @ [received_row c]\<rparr>)"
    using assms by (intro insert_fresh_row) simp
  have s1: "save_live ?p (d\<lparr>db_live := db_live d @ [received_row c]\<rparr>) = d\<lparr>db_live := db_live d @ [?p]\<rparr>"
    using assms by (intro save_appended) simp_all
  have s2: "save_live ?r (d\<lparr>db_live := db_live d @ [?p]\<rparr>) = d\<lparr>db_live := db_live d @ [?r]\<rparr>"
    using assms by (intro save_appended) simp_all
  show ?thesis
    by (simp add: process_live_execution_candidate_def check_all_live_execution_gates_def ORDER_CONTRACT_VERIFIED_def
        numeral_eq_Suc k i s1 g s2 unverified_not_approved Let_def)
qed

lemma process_existing:
  "get_existing_execution d (candidate_key c) = Some r \<Longrightarrow> process_live_execution_candidate st c gi now d = (r, d)"
  by (simp add: process_live_execution_candidate_def numeral_eq_Suc)

lemma total_seconds_window: "0 \<le> total_seconds x \<and> total_seconds x \<le> 300 \<longleftrightarrow> 0 \<le> x \<and> x \<le> 300 * second_us"
proof -
  have neg: "total_seconds x < 0" if "x \<le> - 1"
  proof -
    have "(of_int x :: rat) / 1000000 \<le> - 1 / 1000000" using that by simp
    then have "total_seconds x \<le> fl (- 1 / 1000000)" unfolding total_seconds_def by (rule fl_mono)
    also have "\<dots> < 0" by code_simp
    finally show ?thesis .
  qed
  have late: "300 < total_seconds x" if "300000001 \<le> x"
  proof -
    have "(300 :: rat) < fl (300000001 / 1000000)" by code_simp
    also have "(300000001 :: rat) / 1000000 \<le> of_int x / 1000000" using that by simp
    then have "fl (300000001 / 1000000) \<le> total_seconds x" unfolding total_seconds_def by (rule fl_mono)
    finally show ?thesis .
  qed
  have within: "0 \<le> total_seconds x \<and> total_seconds x \<le> 300" if "0 \<le> x" "x \<le> 300000000"
  proof -
    have "0 \<le> (of_int x :: rat) / 1000000" "(of_int x :: rat) / 1000000 \<le> of_int 300" using that by simp_all
    then show ?thesis using fl_mono [of "of_int x / 1000000" "of_int 300"] fl_of_int [of 300]
      by (auto simp: total_seconds_def intro: fl_nonneg)
  qed
  consider "x \<le> - 1" | "300000001 \<le> x" | "0 \<le> x" "x \<le> 300000000" by linarith
  then show ?thesis by cases (use neg late within in \<open>force simp: second_us_def\<close>)+
qed

section \<open>Properties\<close>

text \<open>
  C6: One signal, one row, one order.  However the workers interleave, crash and start again, and
  whatever else changes in the database, the table of live executions never holds an idempotency
  key twice, keeps every row it held at the start unchanged, an order is submitted at most once per
  key and only for a row of the table that was new, and a finished worker returns a row that
  carries the key of its candidate.  While the order contract is unverified nothing is submitted.
\<close>

theorem live_execution_exclusive:
  assumes "exec_reach X d0 s" and "distinct (map lx_idempotency_key (db_live d0))"
  shows "distinct (map lx_idempotency_key (db_live (xs_db s))) \<and>
    set (db_live d0) \<subseteq> set (db_live (xs_db s)) \<and>
    distinct (xs_submitted s) \<and>
    set (xs_submitted s) \<subseteq> lx_idempotency_key ` set (db_live (xs_db s)) - lx_idempotency_key ` set (db_live d0) \<and>
    (\<forall>i r. xs_worker s i = W_done r \<longrightarrow> lx_idempotency_key r = candidate_key (xs_candidate X i) \<and>
       lx_idempotency_key r \<in> lx_idempotency_key ` set (db_live (xs_db s))) \<and>
    (\<not> xs_contract_verified X \<longrightarrow> xs_submitted s = [])"
proof -
  have inv: "exec_inv X d0 s" using exec_inv_reach [OF assms] .
  have "lx_idempotency_key r = candidate_key (xs_candidate X i) \<and>
      lx_idempotency_key r \<in> lx_idempotency_key ` set (db_live (xs_db s))" if "xs_worker s i = W_done r" for i r
  proof -
    have "worker_ok (xs_candidate X i) (xs_db s) (xs_worker s i)" using inv by (simp add: exec_inv_def)
    then show ?thesis by (simp add: worker_ok_def that)
  qed
  then show ?thesis using inv exec_unverified_reach [OF assms(1)] unfolding exec_inv_def by blast
qed

definition demo_candidate :: live_candidate where
  "demo_candidate =
     \<lparr>lc_source = ''TELEGRAM_EXTERNAL'', lc_symbol = ''BTC/USDT'', lc_direction = ''LONG'', lc_entry_price = 5,
      lc_stop_loss = Some 4, lc_take_profit_1 = Some 6, lc_take_profit_2 = None, lc_take_profit_3 = None,
      lc_signal_timestamp = Some 0, lc_signal_id = Some ''1'', lc_instrument = None, lc_instrument_eligible = True,
      lc_current_market_price = Some 5, lc_instrument_metadata = Some demo_instrument\<rparr>"

definition demo_inputs :: gate_inputs where
  "demo_inputs = \<lparr>gi_usdt_inr_rate = Some 100, gi_market_data_healthy = True, gi_coindcx_account_healthy = True,
     gi_daily_loss_ok = True, gi_reconciliation_ok = True\<rparr>"

definition armed_settings :: settings where
  "armed_settings = default_settings\<lparr>st_automatic_trading_enabled := True, st_live_execution_armed := True\<rparr>"

definition demo_setup :: exec_setup where
  "demo_setup = \<lparr>xs_contract_verified = True, xs_settings = (\<lambda>_. armed_settings),
     xs_candidate = (\<lambda>_. demo_candidate), xs_inputs = (\<lambda>_. demo_inputs), xs_now = (\<lambda>_. 0)\<rparr>"

text \<open>Two workers on one candidate both pass the first look-up; the second loses the insert.\<close>

theorem live_execution_exclusive_witness:
  "\<exists>s. exec_reach demo_setup empty_db s \<and> xs_worker s 0 = W_inserted (received_row demo_candidate) \<and>
     xs_worker s 1 = W_lost \<and> distinct (map lx_idempotency_key (db_live (xs_db s)))"
proof -
  let ?r = "received_row demo_candidate"
  define s1 where "s1 = \<lparr>xs_db = empty_db, xs_worker = (\<lambda>_. W_start)(0 := W_insert), xs_submitted = []\<rparr>"
  define s2 where "s2 = \<lparr>xs_db = empty_db, xs_worker = (\<lambda>_. W_start)(0 := W_insert, 1 := W_insert), xs_submitted = []\<rparr>"
  define s3 where "s3 = \<lparr>xs_db = empty_db\<lparr>db_live := [?r]\<rparr>,
    xs_worker = (\<lambda>_. W_start)(0 := W_inserted ?r, 1 := W_insert), xs_submitted = []\<rparr>"
  define s4 where "s4 = \<lparr>xs_db = empty_db\<lparr>db_live := [?r]\<rparr>,
    xs_worker = (\<lambda>_. W_start)(0 := W_inserted ?r, 1 := W_lost), xs_submitted = []\<rparr>"
  have "exec_step demo_setup (exec_init empty_db) s1"
    using exec_work [of demo_setup 0 "exec_init empty_db" W_insert empty_db "[]"]
    by (simp add: exec_init_def s1_def demo_setup_def empty_db_def get_existing_execution_def lookup_by_def)
  moreover have "exec_step demo_setup s1 s2"
    using exec_work [of demo_setup 1 s1 W_insert empty_db "[]"]
    by (simp add: s1_def s2_def demo_setup_def empty_db_def get_existing_execution_def lookup_by_def)
  moreover have "exec_step demo_setup s2 s3"
    using exec_work [of demo_setup 0 s2 "W_inserted ?r" "empty_db\<lparr>db_live := [?r]\<rparr>" "[]"]
    by (simp add: s2_def s3_def demo_setup_def empty_db_def insert_defs fun_upd_twist)
  moreover have "exec_step demo_setup s3 s4"
    using exec_work [of demo_setup 1 s3 "W_lost" "empty_db\<lparr>db_live := [?r]\<rparr>" "[]"]
    by (simp add: s3_def s4_def demo_setup_def empty_db_def insert_defs)
  ultimately have r: "exec_reach demo_setup empty_db s4"
    by (rule reach_step [OF reach_step [OF reach_step [OF reach_step [OF reach_init]]]])
  then have "distinct (map lx_idempotency_key (db_live (xs_db s4)))"
    using live_execution_exclusive [OF r] by (simp add: empty_db_def)
  then show ?thesis using r by (intro exI [of _ s4]) (simp add: s4_def)
qed

text \<open>
  C13: Every candidate ends as exactly one durable row, and today as a rejection.  A candidate whose
  key is known gets the row that exists and changes nothing; a new one adds exactly one row, with
  the verdicts of all eighteen gates as they were before the row existed, rejected by the first
  gate that failed, and processing the same signal again, at any later time and under any inputs
  and settings, returns that row and changes nothing.
\<close>

theorem live_candidate_rejected:
  "case get_existing_execution d (candidate_key c) of
     Some r \<Rightarrow> process_live_execution_candidate st c gi now d = (r, d)
   | None \<Rightarrow> \<exists>r failed. process_live_execution_candidate st c gi now d = (r, d\<lparr>db_live := db_live d @ [r]\<rparr>) \<and>
       lx_idempotency_key r = candidate_key c \<and> lx_status r = LX_REJECTED \<and>
       lx_gate_results r = Some (check_all_live_execution_gates st c gi now d) \<and>
       length (check_all_live_execution_gates st c gi now d) = 18 \<and>
       lx_rejected_by r = Some failed \<and>
       first_failure (check_all_live_execution_gates st c gi now d) = Some failed \<and>
       process_live_execution_candidate st' c gi' now' (d\<lparr>db_live := db_live d @ [r]\<rparr>) =
         (r, d\<lparr>db_live := db_live d @ [r]\<rparr>)"
proof (cases "get_existing_execution d (candidate_key c)")
  case None
  let ?g = "check_all_live_execution_gates st c gi now d"
  let ?r = "decide_row ?g (received_row c\<lparr>lx_status := LX_PARSED\<rparr>)"
  have fresh: "candidate_key c \<notin> live_keys d" using None by (simp add: get_existing_None)
  have refused: "\<not> gates_approved ?g"
    by (simp add: check_all_live_execution_gates_def ORDER_CONTRACT_VERIFIED_def unverified_not_approved)
  then obtain n where n: "first_failure ?g = Some n" using not_approved_first by blast
  have "get_existing_execution (d\<lparr>db_live := db_live d @ [?r]\<rparr>) (candidate_key c) = Some ?r"
    using None by (simp add: get_existing_execution_def lookup_by_append)
  note again = process_existing [OF this]
  have len: "length ?g = 18" by (simp add: check_all_live_execution_gates_def live_gates_length)
  show ?thesis unfolding None option.case
    by (rule exI [of _ ?r], rule exI [of _ n]) (simp add: process_fresh [OF fresh] Let_def again len n, simp add: decide_row_def refused n)
qed (simp add: process_existing)

text \<open>
  C14: What an approval of all gates would mean.  If the gates approve a candidate then the contract
  is verified, both switches are on and the emergency stop is clear; the signal is neither from
  the future nor more than 300 seconds old, to the microsecond; a stop and a first target exist on
  the correct sides of the entry; fewer live positions than the maximum are open and none on the
  symbol; fewer than fifteen paper entries were made on the day; and the quantity is approved by
  the precision sizing for 200 rupees at leverage ten.
\<close>

theorem live_gates_safe:
  assumes "gates_approved (live_gates v st c gi now d)"
  shows "v \<and> st_automatic_trading_enabled st \<and> st_live_execution_armed st \<and> \<not> is_emergency_stop_active d \<and>
    (\<exists>t. lc_signal_timestamp c = Some t \<and> t \<le> now \<and> now \<le> t + 300 * second_us) \<and>
    (\<exists>sl tp. lc_stop_loss c = Some sl \<and> lc_take_profit_1 c = Some tp \<and>
       (lc_direction c = ''LONG'' \<and> sl < lc_entry_price c \<and> lc_entry_price c < tp \<or>
        lc_direction c = ''SHORT'' \<and> tp < lc_entry_price c \<and> lc_entry_price c < sl)) \<and>
    int (length (open_live_rows d)) < st_max_open_positions_live st \<and>
    lc_symbol c \<notin> lx_symbol ` set (open_live_rows d) \<and>
    entries_on d (dt_date now) < 15 \<and>
    ps_approved (calculate_precision_sized_quantity (Some (lc_entry_price c)) (gi_usdt_inr_rate gi)
      (lc_instrument_metadata c) 200 10)"
proof -
  note a = assms [unfolded live_gates_def gates_approved_def Let_def, simplified]
  from a have fresh: "signal_fresh (lc_signal_timestamp c) now" by simp
  then obtain t where t: "lc_signal_timestamp c = Some t" "0 \<le> total_seconds (now - t) \<and> total_seconds (now - t) \<le> 300"
    by (auto simp: signal_fresh_def MAX_SIGNAL_AGE_SECONDS_def split: option.splits)
  then have time: "t \<le> now \<and> now \<le> t + 300 * second_us" using total_seconds_window [of "now - t"] by linarith
  from a obtain sl tp where st: "lc_stop_loss c = Some sl" "lc_take_profit_1 c = Some tp"
    and g: "validate_sl_tp_structure (lc_direction c) (lc_entry_price c) (lc_stop_loss c) (lc_take_profit_1 c)" by blast
  have geo: "lc_direction c = ''LONG'' \<and> sl < lc_entry_price c \<and> lc_entry_price c < tp \<or>
        lc_direction c = ''SHORT'' \<and> tp < lc_entry_price c \<and> lc_entry_price c < sl"
    using g by (auto simp: st validate_sl_tp_structure_def split: if_splits)
  have sym: "lc_symbol c \<notin> lx_symbol ` set (open_live_rows d)"
    using a by (auto simp: has_conflicting_open_position_def filter_empty_conv)
  show ?thesis using a t(1) time st geo sym can_open_iff [of d now]
    by (simp add: count_open_live_positions_def FIXED_MARGIN_INR_def FIXED_LEVERAGE_def)
qed

theorem live_gates_safe_witness:
  "gates_approved (live_gates True armed_settings demo_candidate demo_inputs 0 empty_db) \<and> entries_on empty_db 0 < 15"
proof -
  have a: "gates_approved (live_gates True armed_settings demo_candidate demo_inputs 0 empty_db)" by code_simp
  have "dt_date 0 = 0" by (simp add: dt_date_def)
  then show ?thesis using a live_gates_safe [OF a] by simp
qed

text \<open>
  The emergency stop holds until it is cleared.  After an activation no writes to other keys of
  the table, however many, let the gates approve any candidate, even with the contract verified;
  a clear lets exactly that gate pass again, and a clear without an activation writes nothing.
\<close>

theorem emergency_stop_holds:
  assumes "EMERGENCY_STOP_KEY \<notin> fst ` set kvs"
  shows "\<not> gates_approved (live_gates v st c gi now
      (fold (\<lambda>(k, x). bot_put k x) kvs (activate_emergency_stop reason t d))) \<and>
    (''EMERGENCY_STOP_CLEAR'', True) \<in> set (live_gates v st c gi now (clear_emergency_stop t' d)) \<and>
    (bot_get d EMERGENCY_STOP_KEY = None \<longrightarrow> clear_emergency_stop t' d = d)"
proof -
  have "is_emergency_stop_active (fold (\<lambda>(k, x). bot_put k x) kvs (activate_emergency_stop reason t d))"
    using bot.puts_frame [OF assms] emergency_activate [of reason t d] by (simp add: is_emergency_stop_active_def)
  then have "\<not> gates_approved (live_gates v st c gi now
      (fold (\<lambda>(k, x). bot_put k x) kvs (activate_emergency_stop reason t d)))"
    by (simp add: gates_approved_def live_gates_def Let_def)
  then show ?thesis by (simp add: live_gates_def Let_def emergency_clear) (simp add: clear_emergency_stop_def)
qed

theorem emergency_stop_holds_witness:
  "\<not> gates_approved (live_gates True armed_settings demo_candidate demo_inputs 0
     (bot_put ''paused'' (JBool False) (activate_emergency_stop ''test'' 0 empty_db)))"
  using emergency_stop_holds [of "[(''paused'', JBool False)]" True armed_settings demo_candidate demo_inputs 0]
  by (simp add: EMERGENCY_STOP_KEY_def)

end
