(* ===== verification/ApiRoutes.thy ===== *)
theory ApiRoutes
  imports Runner Portfolio RiskStore LiveExecution "HOL-Library.AList"
begin

text \<open>
  \<open>apps/api/routers/\<close>: the routes that write (journal, accounts, risk, settings) and those that read (trades, model,
  live execution, health, dashboard, chart).  A route answers with an error or a value and leaves a database; what it
  commits before an error stays.
\<close>

section \<open>Requests and replies\<close>

text \<open>A journal error is answered with 400, an unknown trade with 404, an amount that is not positive with 400, an exception with 500.\<close>

datatype http_error = HTTP_journal journal_error | HTTP_bad_amount | HTTP_not_found | HTTP_raised exn

type_synonym 'a reply = "http_error + 'a"

text \<open>The clock, and the identifiers generated when a row is added.\<close>

record request_env =
  rq_now :: datetime
  rq_account_id :: string
  rq_trade_id :: string

definition journal_reply :: "(trade \<times> db) journal_result \<Rightarrow> db \<Rightarrow> trade reply \<times> db" where
  "journal_reply r d = (case r of Inl (JE_raised x) \<Rightarrow> (Inl (HTTP_raised x), d) | Inl e \<Rightarrow> (Inl (HTTP_journal e), d) | Inr (t, d') \<Rightarrow> (Inr t, d'))"

section \<open>The journal\<close>

record open_payload =
  op_symbol :: string
  op_side :: string
  op_entry_price :: f64
  op_quantity :: f64
  op_entry_time :: "datetime option"
  op_stop_loss :: "f64 option"
  op_take_profit_1 :: "f64 option"
  op_take_profit_2 :: "f64 option"
  op_take_profit_3 :: "f64 option"
  op_leverage :: int
  op_signal_id :: "string option"
  op_confidence :: "f64 option"

definition open_request_of :: "open_payload \<Rightarrow> string \<Rightarrow> datetime \<Rightarrow> string option \<times> f64 option \<Rightarrow> open_request" where
  "open_request_of p account_id entry_time = (\<lambda>(signal_id, confidence).
     \<lparr>oq_symbol = op_symbol p, oq_side = op_side p, oq_entry_price = op_entry_price p, oq_quantity = op_quantity p,
      oq_entry_time = entry_time, oq_stop_loss = op_stop_loss p, oq_take_profit_1 = op_take_profit_1 p,
      oq_take_profit_2 = op_take_profit_2 p, oq_take_profit_3 = op_take_profit_3 p, oq_leverage = op_leverage p,
      oq_signal_id = signal_id, oq_account_id = Some account_id, oq_confidence = confidence\<rparr>)"

text \<open>Without a signal in the payload a confident match is linked; otherwise the candidates are returned, none is guessed.\<close>

definition open_manual_trade :: "request_env \<Rightarrow> open_payload \<Rightarrow> db \<Rightarrow> (trade \<times> match_candidate list) reply \<times> db" where
  "open_manual_trade env p d =
     (let (account, d0) = get_or_create_default_account (rq_account_id env) (rq_now env) d;
          entry_time = (case op_entry_time p of None \<Rightarrow> rq_now env | Some t \<Rightarrow> t);
          candidates = (if op_signal_id p = None then find_candidate_signals d0 (op_symbol p) (op_side p) (op_entry_price p) entry_time else []);
          link = (case op_signal_id p of
                    Some s \<Rightarrow> (Some s, op_confidence p)
                  | None \<Rightarrow> (case pick_confident_match candidates of
                      Some c \<Rightarrow> (Some (mc_signal_id c), Some (mc_confidence c)) | None \<Rightarrow> (None, op_confidence p)))
      in case journal_reply (open_trade (rq_trade_id env) (open_request_of p (ac_id account) entry_time link) d0) d0 of
           (Inl e, d1) \<Rightarrow> (Inl e, d1)
         | (Inr t, d1) \<Rightarrow> (Inr (t, if fst link = None then candidates else []), d1))"

definition get_match_candidates :: "string \<Rightarrow> db \<Rightarrow> match_candidate list reply" where
  "get_match_candidates tid d =
     (case lookup_trade tid d of
        None \<Rightarrow> Inl HTTP_not_found
      | Some t \<Rightarrow> Inr (find_candidate_signals d (tr_symbol t) (tr_side t) (tr_entry_price t) (tr_entry_time t)))"

definition confirm_match :: "string \<Rightarrow> string \<Rightarrow> f64 option \<Rightarrow> db \<Rightarrow> trade reply \<times> db" where
  "confirm_match tid signal_id confidence d = journal_reply (set_signal_match tid signal_id confidence d) d"

text \<open>\<open>(trade.pnl or 0) / current_equity * 100 if current_equity else 0.0\<close>\<close>

definition equity_relative_pct :: "trade \<Rightarrow> risk_engine \<Rightarrow> f64" where
  "equity_relative_pct t e =
     (let equity = rs_current_equity (re_state e) in if equity \<noteq> 0 then fmul (fdiv (or_zero (tr_pnl t)) equity) 100 else 0)"

definition book_closed_trade :: "datetime \<Rightarrow> trade \<Rightarrow> risk_engine \<Rightarrow> risk_engine" where
  "book_closed_trade now t e =
     record_trade_result (equity_relative_pct t e) (case tr_exit_time t of None \<Rightarrow> now | Some x \<Rightarrow> x) e"

text \<open>The exit is committed before the risk engine is loaded: an unreadable engine is a 500 after the trade is closed.\<close>

definition exit_manual_trade ::
  "request_env \<Rightarrow> string \<Rightarrow> f64 \<Rightarrow> f64 \<Rightarrow> datetime option \<Rightarrow> string option \<Rightarrow> db \<Rightarrow> trade reply \<times> db" where
  "exit_manual_trade env tid exit_price quantity timestamp reason d =
     (case journal_reply (record_exit tid exit_price quantity (case timestamp of None \<Rightarrow> rq_now env | Some t \<Rightarrow> t) reason d) d of
        (Inl e, d1) \<Rightarrow> (Inl e, d1)
      | (Inr t, d1) \<Rightarrow>
          if tr_status t \<noteq> TS_CLOSED then (Inr t, d1)
          else case load_risk_engine d1 default_risk_config 10000 (dt_date (rq_now env)) of
                 Inl x \<Rightarrow> (Inl (HTTP_raised x), d1)
               | Inr e \<Rightarrow> (Inr t, save_risk_engine (book_closed_trade (rq_now env) t e) d1))"

definition cancel_manual_trade :: "request_env \<Rightarrow> string \<Rightarrow> string option \<Rightarrow> db \<Rightarrow> trade reply \<times> db" where
  "cancel_manual_trade env tid reason d = journal_reply (cancel_trade tid reason (rq_now env) d) d"

text \<open>The alerts are stored, then sent one by one; the price is the one asked for, or the newest candle's close.\<close>

definition exit_alerts_route :: "request_env \<Rightarrow> f64 option \<Rightarrow> string \<Rightarrow> db \<Rightarrow> (exit_alert list \<times> f64 option) reply \<times> db" where
  "exit_alerts_route env current_price symbol d =
     (case (case current_price of Some p \<Rightarrow> Some p | None \<Rightarrow> latest_price d symbol) of
        None \<Rightarrow> (Inr ([], None), d)
      | Some price \<Rightarrow>
          (case get_new_exit_alerts (rq_account_id env) (rq_now env) price symbol d of
             Inl x \<Rightarrow> (Inl (HTTP_raised x), snd (get_or_create_default_account (rq_account_id env) (rq_now env) d))
           | Inr (alerts, d') \<Rightarrow> (Inr (alerts, Some price), d')))"

section \<open>Risk\<close>

text \<open>Reading the status resets the day of the loaded copy only.\<close>

definition risk_status_route :: "request_env \<Rightarrow> db \<Rightarrow> risk_report result" where
  "risk_status_route env d =
     (case load_risk_engine d default_risk_config 10000 (dt_date (rq_now env)) of
        Inl x \<Rightarrow> Inl x | Inr e \<Rightarrow> Inr (snd (get_status (rq_now env) e)))"

definition reset_hard_kill_route :: "request_env \<Rightarrow> db \<Rightarrow> risk_report reply \<times> db" where
  "reset_hard_kill_route env d =
     (case load_risk_engine d default_risk_config 10000 (dt_date (rq_now env)) of
        Inl x \<Rightarrow> (Inl (HTTP_raised x), d)
      | Inr e \<Rightarrow> (Inr (snd (get_status (rq_now env) (reset_hard_kill e))), save_risk_engine (reset_hard_kill e) d))"

section \<open>Accounts\<close>

definition add_snapshot :: "request_env \<Rightarrow> f64 \<Rightarrow> datetime option \<Rightarrow> string option \<Rightarrow> db \<Rightarrow> unit reply \<times> db" where
  "add_snapshot env equity timestamp note d =
     (let (account, d0) = get_or_create_default_account (rq_account_id env) (rq_now env) d
      in if equity \<le> 0 then (Inl HTTP_bad_amount, d0)
         else (Inr (), d0\<lparr>db_snapshots := db_snapshots d0 @
           [\<lparr>as_account_id = ac_id account, as_timestamp = (case timestamp of None \<Rightarrow> rq_now env | Some t \<Rightarrow> t), as_equity = equity,
             as_available_balance = None, as_used_margin = None, as_source = DS_MANUAL, as_note = note\<rparr>]\<rparr>))"

definition movement :: "request_env \<Rightarrow> account \<Rightarrow> f64 \<Rightarrow> datetime option \<Rightarrow> string option \<Rightarrow> cash_movement" where
  "movement env account amount timestamp note =
     \<lparr>cm_account_id = ac_id account, cm_amount = amount, cm_time = (case timestamp of None \<Rightarrow> rq_now env | Some t \<Rightarrow> t), cm_note = note\<rparr>"

definition add_deposit :: "request_env \<Rightarrow> f64 \<Rightarrow> datetime option \<Rightarrow> string option \<Rightarrow> db \<Rightarrow> unit reply \<times> db" where
  "add_deposit env amount timestamp note d =
     (let (account, d0) = get_or_create_default_account (rq_account_id env) (rq_now env) d
      in if amount \<le> 0 then (Inl HTTP_bad_amount, d0)
         else (Inr (), d0\<lparr>db_deposits := db_deposits d0 @ [movement env account amount timestamp note]\<rparr>))"

definition add_withdrawal :: "request_env \<Rightarrow> f64 \<Rightarrow> datetime option \<Rightarrow> string option \<Rightarrow> db \<Rightarrow> unit reply \<times> db" where
  "add_withdrawal env amount timestamp note d =
     (let (account, d0) = get_or_create_default_account (rq_account_id env) (rq_now env) d
      in if amount \<le> 0 then (Inl HTTP_bad_amount, d0)
         else (Inr (), d0\<lparr>db_withdrawals := db_withdrawals d0 @ [movement env account amount timestamp note]\<rparr>))"

definition list_snapshots :: "request_env \<Rightarrow> db \<Rightarrow> account_snapshot list \<times> db" where
  "list_snapshots env d =
     (let (account, d0) = get_or_create_default_account (rq_account_id env) (rq_now env) d
      in (sort_key as_timestamp (filter (\<lambda>s. as_account_id s = ac_id account) (db_snapshots d0)), d0))"

definition list_movements :: "(db \<Rightarrow> cash_movement list) \<Rightarrow> request_env \<Rightarrow> db \<Rightarrow> cash_movement list \<times> db" where
  "list_movements table env d =
     (let (account, d0) = get_or_create_default_account (rq_account_id env) (rq_now env) d
      in (sort_key cm_time (filter (\<lambda>m. cm_account_id m = ac_id account) (table d0)), d0))"

definition reconcile_route :: "request_env \<Rightarrow> f64 \<Rightarrow> f64 \<Rightarrow> db \<Rightarrow> account_reconciliation \<times> db" where
  "reconcile_route env initial_equity tolerance d =
     (let (account, d0) = get_or_create_default_account (rq_account_id env) (rq_now env) d
      in (reconcile_account d0 (ac_id account) initial_equity tolerance, d0))"

text \<open>Positions are synchronised only after a readable balance; the counts are those of the report.\<close>

definition sync_account_route ::
  "request_env \<Rightarrow> coindcx_api \<Rightarrow> (nat \<Rightarrow> string) \<Rightarrow> db \<Rightarrow> (balance \<times> (nat \<times> nat \<times> nat) option) reply \<times> db" where
  "sync_account_route env api uid d =
     (case sync_balance api (rq_account_id env) (rq_now env) d of
        (Inl x, d1) \<Rightarrow> (Inl (HTTP_raised x), d1)
      | (Inr b, d1) \<Rightarrow>
          if bl_status b \<noteq> BL_OK then (Inr (b, None), d1)
          else case sync_positions api uid (rq_account_id env) (rq_now env) d1 of
                 (Inl x, d2) \<Rightarrow> (Inl (HTTP_raised x), d2)
               | (Inr r, d2) \<Rightarrow> (Inr (b, Some (length (sy_opened r), length (sy_updated r), length (sy_closed r))), d2))"

text \<open>\<open>get_last_sync_event\<close>: the newest event of any source.\<close>

definition get_last_sync_event :: "db \<Rightarrow> sync_event option" where
  "get_last_sync_event d = first (order_desc se_timestamp (db_sync_events d))"

definition event_is_stale :: "sync_event option \<Rightarrow> datetime \<Rightarrow> bool" where
  "event_is_stale event now = sync_is_stale (map_option se_timestamp event) now"

definition sync_status_route :: "request_env \<Rightarrow> db \<Rightarrow> (sync_status \<times> datetime) option \<times> bool" where
  "sync_status_route env d =
     (let event = get_last_sync_event d in (map_option (\<lambda>e. (se_status e, se_timestamp e)) event, event_is_stale event (rq_now env)))"

section \<open>Settings\<close>

text \<open>
  The environment's values; the three of the dictionary \<open>_MUTABLE_DEFAULTS\<close> can be changed.  A dictionary display
  \<open>{**a, **b}\<close> keeps the place of a key it already has.
\<close>

definition SETTINGS_KEY :: string where "SETTINGS_KEY = ''user_settings''"

record env_settings =
  en_trading_mode :: string
  en_max_leverage :: int
  en_risk_per_trade_pct :: f64
  en_max_daily_loss_pct :: f64
  en_prediction_threshold :: f64
  en_telegram_enabled :: bool

definition mutable_defaults :: "env_settings \<Rightarrow> (string \<times> json) list" where
  "mutable_defaults env =
     [(''prediction_threshold'', JNum (en_prediction_threshold env)), (''telegram_enabled'', JBool (en_telegram_enabled env)),
      (''min_signal_quality'', JStr ''MEDIUM'')]"

definition merge_dicts :: "(string \<times> json) list \<Rightarrow> (string \<times> json) list \<Rightarrow> (string \<times> json) list" where
  "merge_dicts a b = foldl (\<lambda>m (k, v). AList.update k v m) a b"

definition get_settings_route :: "env_settings \<Rightarrow> db \<Rightarrow> (string \<times> json) list result" where
  "get_settings_route env d =
     (let fixed = [(''trading_mode'', JStr (en_trading_mode env)), (''max_leverage'', JInt (en_max_leverage env)),
                   (''risk_per_trade_pct'', JNum (en_risk_per_trade_pct env)), (''max_daily_loss_pct'', JNum (en_max_daily_loss_pct env))]
      in case bot_get d SETTINGS_KEY of
           None \<Rightarrow> Inr (merge_dicts fixed (mutable_defaults env))
         | Some (JObj kvs) \<Rightarrow> Inr (merge_dicts fixed kvs)
         | Some _ \<Rightarrow> Inl TypeError)"

definition update_settings :: "env_settings \<Rightarrow> (string \<times> json) list \<Rightarrow> db \<Rightarrow> (string \<times> json) list reply \<times> db" where
  "update_settings env payload d =
     (let allowed = filter (\<lambda>(k, _). k \<in> fst ` set (mutable_defaults env)) payload;
          store = (\<lambda>old. let merged = merge_dicts (merge_dicts (mutable_defaults env) old) allowed
                          in (Inr merged, bot_put SETTINGS_KEY (JObj merged) d))
      in case bot_get d SETTINGS_KEY of
           None \<Rightarrow> store []
         | Some (JObj kvs) \<Rightarrow> store kvs
         | Some _ \<Rightarrow> (Inl (HTTP_raised TypeError), d))"

section \<open>Live execution, health and the model\<close>

datatype automatic_trading = AT_DISABLED | AT_ARMED | AT_ACTIVE

record live_report =
  lv_automatic_trading :: automatic_trading
  lv_emergency_stop :: bool
  lv_emergency_reason :: "json option"
  lv_budget :: daily_budget
  lv_margin_inr :: f64
  lv_leverage :: int
  lv_max_open_positions :: int
  lv_open_positions :: int

definition live_execution_status :: "settings \<Rightarrow> datetime \<Rightarrow> db \<Rightarrow> live_report" where
  "live_execution_status st now d =
     \<lparr>lv_automatic_trading =
        (if \<not> st_automatic_trading_enabled st \<or> \<not> st_live_execution_armed st then AT_DISABLED
         else if \<not> ORDER_CONTRACT_VERIFIED then AT_ARMED else AT_ACTIVE),
      lv_emergency_stop = is_emergency_stop_active d,
      lv_emergency_reason =
        (if is_emergency_stop_active d
         then (case get_emergency_stop_detail d of None \<Rightarrow> None | Some v \<Rightarrow> Some (json_get v ''reason'' JNull)) else None),
      lv_budget = get_daily_trade_budget d now, lv_margin_inr = FIXED_MARGIN_INR, lv_leverage = FIXED_LEVERAGE,
      lv_max_open_positions = st_max_open_positions_live st, lv_open_positions = count_open_live_positions d\<rparr>"

text \<open>Readiness: whether a query answers, and the account provider's connection.\<close>

definition compute_readiness :: "bool \<Rightarrow> coindcx_api \<Rightarrow> bool \<times> bool \<times> connection_report" where
  "compute_readiness query_answers api =
     (let c = get_connection_status api in (query_answers \<and> c \<in> {CR_OK, CR_NOT_CONFIGURED}, query_answers, c))"

definition get_model_info :: "db \<Rightarrow> json option" where "get_model_info d = bot_get d DEPLOYED_MODEL_KEY"

definition get_feature_importance :: "db \<Rightarrow> json" where
  "get_feature_importance d = (case bot_get d DEPLOYED_MODEL_KEY of None \<Rightarrow> JArr [] | Some v \<Rightarrow> json_get v ''feature_importance'' (JArr []))"

definition get_ai_status :: "datetime \<Rightarrow> paper_trader \<Rightarrow> db \<Rightarrow> (bool \<times> health_report \<times> trader_status) result \<times> paper_trader" where
  "get_ai_status now trader d =
     (case evaluate_model_health d of
        Inl x \<Rightarrow> (Inl x, trader)
      | Inr health \<Rightarrow>
          (case trader_get_status now trader of
             (trader', Inl x) \<Rightarrow> (Inl x, trader')
           | (trader', Inr status) \<Rightarrow> (Inr (bot_get d DEPLOYED_MODEL_KEY \<noteq> None, health, status), trader')))"

section \<open>Trades and signals\<close>

definition get_trades :: "nat \<Rightarrow> db \<Rightarrow> trade list" where "get_trades limit d = take limit (order_desc tr_entry_time (db_trades d))"

definition open_trades_route :: "request_env \<Rightarrow> db \<Rightarrow> trade list \<times> db" where
  "open_trades_route env d =
     (let (account, d0) = get_or_create_default_account (rq_account_id env) (rq_now env) d in (get_open_trades d0 (Some (ac_id account)), d0))"

definition get_trade :: "string \<Rightarrow> db \<Rightarrow> (trade \<times> trade_execution list) reply" where
  "get_trade tid d =
     (case lookup_trade tid d of None \<Rightarrow> Inl HTTP_not_found | Some t \<Rightarrow> Inr (t, get_trade_executions d tid))"

definition get_signals :: "nat \<Rightarrow> db \<Rightarrow> signal list" where "get_signals limit d = take limit (order_desc sg_timestamp (db_signals d))"

definition get_latest_signal :: "db \<Rightarrow> signal option" where "get_latest_signal d = first (order_desc sg_timestamp (db_signals d))"

definition get_signal :: "string \<Rightarrow> db \<Rightarrow> (signal \<times> signal_outcome option) reply" where
  "get_signal i d =
     (case lookup_by sg_signal_id i (db_signals d) of
        None \<Rightarrow> Inl HTTP_not_found | Some s \<Rightarrow> Inr (s, lookup_by so_signal_id i (db_outcomes d)))"

section \<open>The dashboard\<close>

datatype price_source = PS_FEED connection_state | PS_SYNCED | PS_STALE | PS_UNAVAILABLE

record dashboard =
  ds_account_connection_status :: connection_state
  ds_account_data_source :: connection_state
  ds_last_synced_at :: "datetime option"
  ds_price_usdt :: "f64 option"
  ds_price_inr :: "f64 option"
  ds_price_source :: price_source
  ds_price_updated_at :: "datetime option"
  ds_market_data_status :: connection_state
  ds_mark_price :: "f64 option"
  ds_conversion :: conversion_meta
  ds_signal :: "signal option"
  ds_signal_levels_inr :: "f64 option list"
  ds_open_positions :: nat
  ds_unrealized_pnl :: "f64 option"
  ds_daily_pnl :: f64
  ds_daily_pnl_synced :: bool
  ds_risk_status :: risk_status

text \<open>The provider's credentials decide first; then the account's stored status and the age of the newest synchronisation event.\<close>

definition account_data_source :: "coindcx_api \<Rightarrow> account \<Rightarrow> sync_event option \<Rightarrow> datetime \<Rightarrow> connection_state" where
  "account_data_source api account event now =
     (if \<not> is_configured api then CN_NOT_CONFIGURED
      else if ac_connection_status account = CN_LIVE \<and> \<not> event_is_stale event now then CN_LIVE
      else if ac_connection_status account = CN_LIVE then CN_STALE else CN_DISCONNECTED)"

text \<open>Price, its source and its time: the feed's last price of any age, or else the newest stored candle of any time frame.\<close>

definition dashboard_price :: "market_feed \<Rightarrow> candle option \<Rightarrow> datetime \<Rightarrow> f64 option \<times> price_source \<times> datetime option" where
  "dashboard_price feed latest_candle now =
     (case mk_last_price_usdt (mf_state feed) of
        Some p \<Rightarrow> (Some p, PS_FEED (connection_status now DEFAULT_STALE_AFTER feed), mk_received_at (mf_state feed))
      | None \<Rightarrow>
          (case latest_candle of
             None \<Rightarrow> (None, PS_UNAVAILABLE, None)
           | Some c \<Rightarrow>
               (Some (cd_close c),
                if fdiv (total_seconds (now - cd_timestamp c)) 60 < 120 then PS_SYNCED else PS_STALE, Some (cd_timestamp c))))"

definition signal_levels :: "signal \<Rightarrow> f64 option list" where
  "signal_levels s = [sg_entry_price s, sg_stop_loss s, sg_take_profit_1 s, sg_take_profit_2 s, sg_take_profit_3 s]"

text \<open>
  \<open>fx\<close> is the exchange's ticker reply, the cached rate and the clock in seconds; the rate is only asked for when there is
  something to convert.  The value is the reply, the cache and the database.
\<close>

definition get_dashboard ::
  "request_env \<Rightarrow> coindcx_api \<Rightarrow> bool \<Rightarrow> market_feed \<Rightarrow> fx_row list option \<times> conversion_rate option \<times> f64 \<Rightarrow> db
     \<Rightarrow> dashboard result \<times> conversion_rate option \<times> db" where
  "get_dashboard env api nulls_last feed fx d =
     (let (account, d0) = get_or_create_default_account (rq_account_id env) (rq_now env) d; now = rq_now env;
          (reply, cache, clock) = fx;
          latest_candle = first (order_desc cd_timestamp (filter (\<lambda>c. cd_symbol c = ''BTC/USDT'') (db_candles d0)));
          latest_signal = get_latest_signal d0;
          open_positions = filter (\<lambda>t. tr_account_id t = Some (ac_id account) \<and> tr_source t = SRC_COINDCX_SYNC \<and>
                                        tr_status t \<in> {TS_OPEN, TS_PARTIALLY_CLOSED}) (db_trades d0);
          (price, source, updated_at) = dashboard_price feed latest_candle now
      in case (period_key now ''daily'', get_pnl_breakdown nulls_last d0 (ac_id account) ''daily'') of
           (Inl x, _) \<Rightarrow> (Inl x, cache, d0)
         | (Inr _, Inl x) \<Rightarrow> (Inl x, cache, d0)
         | (Inr today, Inr breakdown) \<Rightarrow>
             (case load_risk_engine d0 default_risk_config 10000 (dt_date now) of
                Inl x \<Rightarrow> (Inl x, cache, d0)
              | Inr e \<Rightarrow>
                  let today_row = find (\<lambda>r. pq_period r = today) breakdown;
                      (rate, cache') = (if price = None \<and> latest_signal = None then (None, cache) else get_usdt_inr_rate clock reply cache)
                  in (Inr \<lparr>ds_account_connection_status = ac_connection_status account,
                           ds_account_data_source = account_data_source api account (get_last_sync_event d0) now,
                           ds_last_synced_at = ac_last_synced_at account,
                           ds_price_usdt = price, ds_price_inr = convert_usdt_to_inr price rate, ds_price_source = source,
                           ds_price_updated_at = updated_at, ds_market_data_status = connection_status now DEFAULT_STALE_AFTER feed,
                           ds_mark_price = mk_mark_price_usdt (mf_state feed), ds_conversion = conversion_meta_of rate clock,
                           ds_signal = latest_signal,
                           ds_signal_levels_inr =
                             (case latest_signal of None \<Rightarrow> replicate 5 None | Some s \<Rightarrow> map (\<lambda>l. convert_usdt_to_inr l rate) (signal_levels s)),
                           ds_open_positions = length open_positions,
                           ds_unrealized_pnl =
                             (if open_positions = [] then None else Some (fsum (map (\<lambda>t. or_zero (tr_unrealized_pnl t)) open_positions))),
                           ds_daily_pnl = (case today_row of None \<Rightarrow> 0 | Some r \<Rightarrow> pq_net r), ds_daily_pnl_synced = (today_row \<noteq> None),
                           ds_risk_status = snd (get_risk_status now e)\<rparr>, cache', d0)))"

section \<open>The chart\<close>

record chart =
  ch_candles :: "(candle \<times> f64 option list) list"
  ch_markers :: "(signal \<times> f64 option) list"
  ch_forming :: "(forming_candle \<times> f64 option list) option"
  ch_status :: connection_state
  ch_conversion :: conversion_meta

definition candle_prices :: "candle \<Rightarrow> f64 list" where "candle_prices c = [cd_open c, cd_high c, cd_low c, cd_close c]"

definition forming_prices :: "forming_candle \<Rightarrow> f64 list" where "forming_prices c = [fc_open c, fc_high c, fc_low c, fc_close c]"

text \<open>
  \<open>aggregators\<close> is the registry the live breakout job shares, by time frame: every request for BTC/USDT enters the feed's
  last price as a tick while the feed is live.
\<close>

definition live_tick :: "datetime \<Rightarrow> string \<Rightarrow> string \<Rightarrow> market_feed \<Rightarrow> (string \<Rightarrow> aggregator option) \<Rightarrow> (aggregator \<times> f64 \<times> datetime) option" where
  "live_tick now symbol timeframe feed aggregators =
     (if symbol = ''BTC/USDT'' \<and> connection_status now DEFAULT_STALE_AFTER feed = CN_LIVE
      then (case (aggregators timeframe, mk_last_price_usdt (mf_state feed), mk_received_at (mf_state feed)) of
              (Some ag, Some price, Some received) \<Rightarrow> Some (ag, price, received) | _ \<Rightarrow> None)
      else None)"

definition get_candles ::
  "datetime \<Rightarrow> string \<Rightarrow> string \<Rightarrow> nat \<Rightarrow> market_feed \<Rightarrow> (string \<Rightarrow> aggregator option) \<Rightarrow> fx_row list option \<times> conversion_rate option \<times> f64
     \<Rightarrow> db \<Rightarrow> chart \<times> (string \<Rightarrow> aggregator option) \<times> conversion_rate option" where
  "get_candles now symbol timeframe limit feed aggregators fx d =
     (let (reply, cache, clock) = fx;
          rows = rev (take limit (order_desc cd_timestamp (filter (\<lambda>c. cd_symbol c = symbol \<and> cd_timeframe c = timeframe \<and>
                   cd_quality_status c = ''valid'') (db_candles d))));
          signals = take 50 (order_desc sg_timestamp (filter (\<lambda>s. sg_symbol s = symbol \<and> sg_signal_type s \<in> {''LONG'', ''SHORT''}) (db_signals d)));
          live = live_tick now symbol timeframe feed aggregators;
          (rate, cache') = (if rows = [] \<and> live = None then (None, cache) else get_usdt_inr_rate clock reply cache);
          inr = map (\<lambda>p. convert_usdt_to_inr (Some p) rate);
          (forming, aggregators') =
            (case live of
               None \<Rightarrow> (None, aggregators)
             | Some (ag, price, received) \<Rightarrow>
                 let (c, ag') = on_tick price received ag in (Some (c, inr (forming_prices c)), aggregators(timeframe := Some ag')))
      in (\<lparr>ch_candles = map (\<lambda>c. (c, inr (candle_prices c))) rows,
           ch_markers = map (\<lambda>s. (s, convert_usdt_to_inr (sg_entry_price s) rate)) signals,
           ch_forming = forming, ch_status = connection_status now DEFAULT_STALE_AFTER feed, ch_conversion = conversion_meta_of rate clock\<rparr>, aggregators', cache'))"

section \<open>Runs of requests\<close>

datatype api_request =
    RQ_OPEN open_payload
  | RQ_CONFIRM string string "f64 option"
  | RQ_EXIT string f64 f64 "datetime option" "string option"
  | RQ_CANCEL string "string option"
  | RQ_ALERTS "f64 option" string
  | RQ_RESET_HARD_KILL
  | RQ_SETTINGS env_settings "(string \<times> json) list"
  | RQ_SNAPSHOT f64 "datetime option" "string option"
  | RQ_DEPOSIT f64 "datetime option" "string option"
  | RQ_WITHDRAWAL f64 "datetime option" "string option"

fun api_step :: "request_env \<Rightarrow> api_request \<Rightarrow> db \<Rightarrow> db" where
  "api_step env (RQ_OPEN p) d = snd (open_manual_trade env p d)"
| "api_step env (RQ_CONFIRM tid sid c) d = snd (confirm_match tid sid c d)"
| "api_step env (RQ_EXIT tid x q t r) d = snd (exit_manual_trade env tid x q t r d)"
| "api_step env (RQ_CANCEL tid r) d = snd (cancel_manual_trade env tid r d)"
| "api_step env (RQ_ALERTS price symbol) d = snd (exit_alerts_route env price symbol d)"
| "api_step env RQ_RESET_HARD_KILL d = snd (reset_hard_kill_route env d)"
| "api_step env (RQ_SETTINGS es kvs) d = snd (update_settings es kvs d)"
| "api_step env (RQ_SNAPSHOT v t n) d = snd (add_snapshot env v t n d)"
| "api_step env (RQ_DEPOSIT v t n) d = snd (add_deposit env v t n d)"
| "api_step env (RQ_WITHDRAWAL v t n) d = snd (add_withdrawal env v t n d)"

definition api_run :: "(request_env \<times> api_request) list \<Rightarrow> db \<Rightarrow> db" where
  "api_run xs d = foldl (\<lambda>d (env, rq). api_step env rq d) d xs"

text \<open>What the risk engine should hear of: a reply that closes a trade, and a reset.\<close>

datatype risk_news = NEWS_CLOSED datetime trade | NEWS_RESET

fun apply_news :: "risk_news \<Rightarrow> risk_engine \<Rightarrow> risk_engine" where
  "apply_news (NEWS_CLOSED now t) e = book_closed_trade now t e"
| "apply_news NEWS_RESET e = reset_hard_kill e"

fun news_of :: "request_env \<Rightarrow> api_request \<Rightarrow> db \<Rightarrow> risk_news list" where
  "news_of env (RQ_EXIT tid x q t r) d =
     (case exit_manual_trade env tid x q t r d of
        (Inr t', _) \<Rightarrow> if tr_status t' = TS_CLOSED then [NEWS_CLOSED (rq_now env) t'] else []
      | _ \<Rightarrow> [])"
| "news_of env RQ_RESET_HARD_KILL d = [NEWS_RESET]"
| "news_of env _ d = []"

fun risk_log :: "(request_env \<times> api_request) list \<Rightarrow> db \<Rightarrow> risk_news list" where
  "risk_log [] d = []"
| "risk_log ((env, rq) # xs) d = news_of env rq d @ risk_log xs (api_step env rq d)"

fun news_trade :: "risk_news \<Rightarrow> trade option" where
  "news_trade (NEWS_CLOSED _ t) = Some t"
| "news_trade NEWS_RESET = None"

definition fed :: "risk_news list \<Rightarrow> trade list" where "fed news = List.map_filter news_trade news"

lemma fed_simps [simp]: "fed [] = []" "fed (NEWS_CLOSED now t # l) = t # fed l" "fed (NEWS_RESET # l) = fed l" "fed (l @ l') = fed l @ fed l'"
  by (simp_all add: fed_def List.map_filter_def)

definition closed_in :: "db \<Rightarrow> string \<Rightarrow> bool" where
  "closed_in d tid \<longleftrightarrow> (\<exists>t. lookup_trade tid d = Some t \<and> tr_status t = TS_CLOSED)"

text \<open>What a trade becomes when only its signal match changes.\<close>

definition rematched :: "trade \<Rightarrow> trade \<Rightarrow> bool" where
  "rematched t t' \<longleftrightarrow> t' = t\<lparr>tr_signal_id := tr_signal_id t', tr_matched_signal_confidence := tr_matched_signal_confidence t'\<rparr>"

lemma rematched_refl [simp]: "rematched t t"
  by (simp add: rematched_def)

lemma rematched_update [simp]: "rematched t (t\<lparr>tr_signal_id := sid, tr_matched_signal_confidence := c\<rparr>)"
  by (simp add: rematched_def)

lemma rematched_trans:
  assumes "rematched t t'" "rematched t' t''"
  shows "rematched t t''"
proof -
  have "t'' = t'\<lparr>tr_signal_id := tr_signal_id t'', tr_matched_signal_confidence := tr_matched_signal_confidence t''\<rparr>"
    using assms(2) unfolding rematched_def .
  also have "\<dots> = t\<lparr>tr_signal_id := tr_signal_id t'', tr_matched_signal_confidence := tr_matched_signal_confidence t''\<rparr>"
    by (subst assms(1) [unfolded rematched_def]) simp
  finally show ?thesis unfolding rematched_def .
qed

lemma rematched_same:
  assumes "rematched t t'"
  shows "tr_status t' = tr_status t" "tr_trade_id t' = tr_trade_id t"
  by (subst assms [unfolded rematched_def], simp)+

lemma lookup_cong: "db_trades d' = db_trades d \<Longrightarrow> lookup_trade tid d' = lookup_trade tid d"
  by (simp add: lookup_trade_def)

text \<open>Steps that close no trade and leave closed ones and the key-value table alone.\<close>

definition quiet :: "db \<Rightarrow> db \<Rightarrow> bool" where
  "quiet d d' \<longleftrightarrow> (\<forall>tid. closed_in d' tid = closed_in d tid) \<and>
     (\<forall>tid t. lookup_trade tid d = Some t \<and> tr_status t = TS_CLOSED \<longrightarrow> (\<exists>t'. lookup_trade tid d' = Some t' \<and> rematched t t'))"

lemma quiet_same: "db_trades d' = db_trades d \<Longrightarrow> quiet d d'"
  by (simp add: quiet_def closed_in_def lookup_trade_def)

lemma quiet_cong: "db_trades d1 = db_trades d \<Longrightarrow> db_trades d2 = db_trades d' \<Longrightarrow> quiet d1 d2 = quiet d d'"
  by (simp add: quiet_def closed_in_def lookup_trade_def)

lemma closed_kept:
  assumes "lookup_trade tid d = Some t" "tr_status t = TS_CLOSED"
  shows "\<exists>t'. lookup_trade tid (journal_apply op d) = Some t' \<and> rematched t t'"
proof -
  have "tr_status t \<in> {TS_CLOSED, TS_CANCELLED}" using assms(2) by simp
  then obtain sid c where "lookup_trade tid (journal_apply op d) = Some (t\<lparr>tr_signal_id := sid, tr_matched_signal_confidence := c\<rparr>)"
    using terminal_step [OF assms(1), of op] by blast
  then show ?thesis using rematched_update by blast
qed

lemma closed_stays:
  assumes "closed_in d tid"
  shows "closed_in (journal_apply op d) tid"
proof -
  obtain t where t: "lookup_trade tid d = Some t" "tr_status t = TS_CLOSED" using assms by (auto simp: closed_in_def)
  then obtain t' where "lookup_trade tid (journal_apply op d) = Some t'" "rematched t t'" using closed_kept by blast
  then show ?thesis using rematched_same(1) [of t t'] t(2) by (auto simp: closed_in_def)
qed

lemma quiet_journal:
  assumes "\<And>tid. closed_in (journal_apply op d) tid \<Longrightarrow> closed_in d tid"
  shows "quiet d (journal_apply op d)"
  unfolding quiet_def using assms closed_stays closed_kept by blast

lemma quiet_open: "quiet d (journal_apply (JO_open tid q) d)"
proof (rule quiet_journal)
  fix k assume "closed_in (journal_apply (JO_open tid q) d) k"
  then obtain t where t: "lookup_trade k (journal_apply (JO_open tid q) d) = Some t" "tr_status t = TS_CLOSED" by (auto simp: closed_in_def)
  show "closed_in d k"
  proof (cases "open_trade tid q d")
    case (Inl e)
    then show ?thesis using t by (auto simp: closed_in_def commit_def)
  next
    case (Inr r)
    then obtain d1 where d1: "insert_trade (opened_trade tid q) d = Inr d1" "db_trades (snd r) = db_trades d1"
      by (auto simp: open_trade_def split: if_splits sum.splits)
    have "lookup_by tr_trade_id k (db_trades d @ [opened_trade tid q]) = Some t"
      using t(1) Inr d1(2) trades.add_row_rows [OF d1(1)] by (cases r) (simp add: commit_def lookup_trade_def)
    moreover have "tr_status (opened_trade tid q) = TS_OPEN" by (simp add: opened_trade_def)
    ultimately show ?thesis using t(2) by (auto simp: closed_in_def lookup_trade_def lookup_by_append split: option.splits if_splits)
  qed
qed

lemma quiet_update:
  assumes "lookup_trade tid d = Some trade" "tr_trade_id trade' = tid" "tr_status trade' = TS_CLOSED \<Longrightarrow> tr_status trade = TS_CLOSED"
    "db_trades (journal_apply op d) = db_trades (update_trade tid (\<lambda>_. trade') d)"
  shows "quiet d (journal_apply op d)"
  using assms(1-3)
  by (intro quiet_journal) (auto simp: closed_in_def lookup_cong [OF assms(4)] lookup_trade_update [OF assms(2)] split: if_splits)

lemma quiet_match: "quiet d (journal_apply (JO_match tid sid c) d)"
proof (cases "lookup_trade tid d")
  case (Some t)
  then show ?thesis using lookup_trade_id [OF Some]
    by (intro quiet_update [OF Some, of "t\<lparr>tr_signal_id := Some sid, tr_matched_signal_confidence := c\<rparr>"])
      (simp_all add: commit_def set_signal_match_def Let_def)
qed (simp add: commit_def set_signal_match_def quiet_same)

lemma quiet_cancel: "quiet d (journal_apply (JO_cancel tid r now) d)"
proof (cases "cancel_trade tid r now d")
  case (Inr p)
  then obtain t t' where t: "lookup_trade tid d = Some t" "tr_trade_id t' = tr_trade_id t" "tr_status t' = TS_CANCELLED" "p = (t', update_trade tid (\<lambda>_. t') d)"
    by (auto simp: cancel_trade_def Let_def split: option.splits if_splits)
  then show ?thesis using lookup_trade_id [OF t(1)] Inr
    by (intro quiet_update [OF t(1), of t']) (simp_all add: commit_def)
qed (simp add: commit_def quiet_same)

text \<open>An exit: a partial one is quiet, a full one closes exactly its trade.\<close>

lemma exit_effect:
  assumes "record_exit tid x q t r d = Inr (t', d')"
  shows "tr_trade_id t' = tid" "\<not> closed_in d tid" "lookup_trade tid d' = Some t'" "\<And>k. k \<noteq> tid \<Longrightarrow> lookup_trade k d' = lookup_trade k d"
    "db_bot d' = db_bot d"
proof -
  obtain trade full where c: "lookup_trade tid d = Some trade" "tr_status trade \<notin> {TS_CLOSED, TS_CANCELLED}"
      "exited_trade (closed_quantity d tid) x q t r full trade = Inr t'" "db_trades d' = db_trades (update_trade tid (\<lambda>_. t') d)" "db_bot d' = db_bot d"
    by (rule record_exit_cases [OF assms]) (simp add: update_trade_def)
  then show *: "tr_trade_id t' = tid" using exited_trade_effect(1) [OF c(3)] lookup_trade_id [OF c(1)] by simp
  show "\<not> closed_in d tid" "db_bot d' = db_bot d" using c by (auto simp: closed_in_def)
  show "lookup_trade tid d' = Some t'" "k \<noteq> tid \<Longrightarrow> lookup_trade k d' = lookup_trade k d" for k
    using c(1) by (simp_all add: lookup_cong [OF c(4)] lookup_trade_update [OF *])
qed

lemma snd_journal_reply: "snd (journal_reply r d) = commit r d"
  by (auto simp: journal_reply_def commit_def split: sum.splits journal_error.splits)

lemma journal_bot: "db_bot (journal_apply op d) = db_bot d"
  by (cases op d rule: journal_apply_cases) (auto simp: update_trade_def dest: insert_trade_frame)

lemma account_tables:
  assumes "get_or_create_default_account i now d = (a, d0)"
  shows "db_trades d0 = db_trades d" "db_bot d0 = db_bot d"
  using arg_cong [OF default_account_frame [OF assms], of db_trades] arg_cong [OF default_account_frame [OF assms], of db_bot] by simp_all

lemma record_new_alerts_frame: "record_new_alerts as d = Inr (new, d') \<Longrightarrow> db_trades d' = db_trades d \<and> db_bot d' = db_bot d"
  by (induction as arbitrary: d new) (auto split: sum.splits bool.splits prod.splits)

definition undisturbed :: "db \<Rightarrow> db \<Rightarrow> bool" where "undisturbed d d' \<longleftrightarrow> quiet d d' \<and> db_bot d' = db_bot d"

lemma undisturbed_same: "db_trades d' = db_trades d \<Longrightarrow> db_bot d' = db_bot d \<Longrightarrow> undisturbed d d'"
  by (simp add: undisturbed_def quiet_same)

lemma undisturbed_open: "undisturbed d (snd (open_manual_trade env p d))"
proof -
  obtain a d0 where acc: "get_or_create_default_account (rq_account_id env) (rq_now env) d = (a, d0)" by fastforce
  have tail: "snd (case x of (Inl e, d1) \<Rightarrow> (Inl e, d1) | (Inr t, d1) \<Rightarrow> (Inr (f t), d1)) = snd x"
    for x :: "trade reply \<times> db" and f :: "trade \<Rightarrow> trade \<times> match_candidate list"
    by (auto split: prod.splits sum.splits)
  have "\<exists>q. snd (open_manual_trade env p d) = journal_apply (JO_open (rq_trade_id env) q) d0"
    unfolding open_manual_trade_def acc Let_def prod.case tail snd_journal_reply journal_apply.simps by (intro exI) (rule refl)
  then obtain q where "snd (open_manual_trade env p d) = journal_apply (JO_open (rq_trade_id env) q) d0" ..
  then show ?thesis
    using quiet_open [of d0 "rq_trade_id env" q] quiet_cong [OF account_tables(1) [OF acc] refl]
    by (simp add: undisturbed_def journal_bot account_tables(2) [OF acc] del: journal_apply.simps)
qed

lemma undisturbed_match: "undisturbed d (snd (confirm_match tid sid c d))"
  using quiet_match [of d tid sid c] journal_bot [of "JO_match tid sid c" d] by (simp add: undisturbed_def confirm_match_def snd_journal_reply)

lemma undisturbed_cancel: "undisturbed d (snd (cancel_manual_trade env tid r d))"
  using quiet_cancel [of d tid r "rq_now env"] journal_bot [of "JO_cancel tid r (rq_now env)" d]
  by (simp add: undisturbed_def cancel_manual_trade_def snd_journal_reply)

lemma undisturbed_rest:
  "undisturbed d (snd (exit_alerts_route env price symbol d))" "undisturbed d (snd (add_snapshot env v t n d))"
  "undisturbed d (snd (add_deposit env v t n d))" "undisturbed d (snd (add_withdrawal env v t n d))"
  by (rule undisturbed_same;
      auto simp: exit_alerts_route_def add_snapshot_def add_deposit_def add_withdrawal_def get_new_exit_alerts_def check_open_positions_def Let_def
        dest!: record_new_alerts_frame dest: account_tables split: prod.splits sum.splits option.splits)+

text \<open>One request: what it tells the risk engine is what it does to the stored engine and to the closed trades.\<close>

definition news_effect :: "risk_news list \<Rightarrow> db \<Rightarrow> db \<Rightarrow> bool" where
  "news_effect news d d' \<longleftrightarrow>
     (case fed news of
        [] \<Rightarrow> quiet d d'
      | t # ts \<Rightarrow> ts = [] \<and> \<not> closed_in d (tr_trade_id t) \<and> tr_status t = TS_CLOSED \<and> lookup_trade (tr_trade_id t) d' = Some t \<and>
          (\<forall>k. k \<noteq> tr_trade_id t \<longrightarrow> lookup_trade k d' = lookup_trade k d))"

lemma load_stored: "bot_get d STATE_KEY = Some (serialize e) \<Longrightarrow> load_risk_engine d c eq today = Inr e"
  by (simp add: load_risk_engine_def deserialize_serialize)

lemma exit_step:
  fixes env tid x q t r
  assumes row: "bot_get d STATE_KEY = Some (serialize e)"
  defines "news \<equiv> news_of env (RQ_EXIT tid x q t r) d" and "d' \<equiv> snd (exit_manual_trade env tid x q t r d)"
  shows "bot_get d' STATE_KEY = Some (serialize (fold apply_news news e)) \<and> news_effect news d d'"
proof (cases "record_exit tid x q (case t of None \<Rightarrow> rq_now env | Some t \<Rightarrow> t) r d")
  case (Inl je)
  then have "news = []" "d' = d"
    by (auto simp: news_def d'_def exit_manual_trade_def journal_reply_def split: journal_error.splits)
  then show ?thesis using row by (simp add: news_effect_def quiet_same)
next
  case (Inr p)
  then obtain t' d1 where p: "record_exit tid x q (case t of None \<Rightarrow> rq_now env | Some t \<Rightarrow> t) r d = Inr (t', d1)" by (cases p) auto
  note eff = exit_effect [OF p]
  have row1: "bot_get d1 STATE_KEY = Some (serialize e)" using row eff(5) by (simp add: bot_get_def)
  show ?thesis
  proof (cases "tr_status t' = TS_CLOSED")
    case True
    then have n: "news = [NEWS_CLOSED (rq_now env) t']" and d': "d' = save_risk_engine (book_closed_trade (rq_now env) t' e) d1"
      by (simp_all add: news_def d'_def exit_manual_trade_def journal_reply_def p load_stored [OF row1])
    have "lookup_trade k d' = lookup_trade k d1" for k by (simp add: d' save_risk_engine_def lookup_trade_def)
    then show ?thesis using eff True by (simp add: n d' news_effect_def save_risk_engine_def bot.get_put_same)
  next
    case False
    then have n: "news = []" and d': "d' = d1" by (simp_all add: news_def d'_def exit_manual_trade_def journal_reply_def p)
    have op: "d1 = journal_apply (JO_exit tid x q (case t of None \<Rightarrow> rq_now env | Some t \<Rightarrow> t) r) d" by (simp add: commit_def p)
    have "closed_in d1 k \<Longrightarrow> closed_in d k" for k using False eff(3,4) by (cases "k = tid") (auto simp: closed_in_def)
    then have "quiet d d1" unfolding op by (rule quiet_journal)
    then show ?thesis using row1 by (simp add: n d' news_effect_def)
  qed
qed

lemma undisturbed_settings: "quiet d (snd (update_settings es kvs d)) \<and> bot_get (snd (update_settings es kvs d)) STATE_KEY = bot_get d STATE_KEY"
  by (auto simp: update_settings_def Let_def quiet_same bot.get_put_other STATE_KEY_def SETTINGS_KEY_def split: option.splits json.splits)

lemma api_step_effect:
  assumes row: "bot_get d STATE_KEY = Some (serialize e)"
  shows "bot_get (api_step env rq d) STATE_KEY = Some (serialize (fold apply_news (news_of env rq d) e)) \<and>
    news_effect (news_of env rq d) d (api_step env rq d)"
proof -
  have still: ?thesis if "news_of env rq d = []" "undisturbed d (api_step env rq d)"
    using that row by (simp add: news_effect_def undisturbed_def bot_get_def)
  show ?thesis
  proof (cases rq)
    case (RQ_EXIT tid x q t r)
    then show ?thesis using exit_step [OF row, of env tid x q t r] by simp
  next
    case RQ_RESET_HARD_KILL
    then show ?thesis
      by (simp add: reset_hard_kill_route_def load_stored [OF row] news_effect_def save_risk_engine_def bot.get_put_same quiet_same)
  next
    case (RQ_SETTINGS es kvs)
    then show ?thesis using undisturbed_settings [of d es kvs] row by (simp add: news_effect_def)
  qed (rule still; simp add: undisturbed_open undisturbed_match undisturbed_cancel undisturbed_rest)+
qed

text \<open>The effects of a run of requests compose.\<close>

lemma api_run_effect:
  assumes "bot_get d STATE_KEY = Some (serialize e)"
  shows "bot_get (api_run xs d) STATE_KEY = Some (serialize (fold apply_news (risk_log xs d) e)) \<and>
    distinct (map tr_trade_id (fed (risk_log xs d))) \<and>
    (\<forall>k. closed_in (api_run xs d) k \<longleftrightarrow> closed_in d k \<or> k \<in> tr_trade_id ` set (fed (risk_log xs d))) \<and>
    (\<forall>t\<in>set (fed (risk_log xs d)). \<not> closed_in d (tr_trade_id t) \<and> (\<exists>t'. lookup_trade (tr_trade_id t) (api_run xs d) = Some t' \<and> rematched t t')) \<and>
    (\<forall>k t. lookup_trade k d = Some t \<and> tr_status t = TS_CLOSED \<longrightarrow> (\<exists>t'. lookup_trade k (api_run xs d) = Some t' \<and> rematched t t'))"
  using assms
proof (induction xs arbitrary: d e)
  case Nil
  then show ?case by (simp add: api_run_def)
next
  case (Cons x xs)
  obtain env rq where x: "x = (env, rq)" by fastforce
  let ?d = "api_step env rq d" and ?n = "news_of env rq d"
  have row: "bot_get ?d STATE_KEY = Some (serialize (fold apply_news ?n e))" and eff: "news_effect ?n d ?d"
    using api_step_effect [OF Cons.prems, of env rq] by simp_all
  have run: "api_run (x # xs) d = api_run xs ?d" "risk_log (x # xs) d = ?n @ risk_log xs ?d" by (simp_all add: api_run_def x)
  note ih = Cons.IH [OF row]
  have later: "\<forall>k t. lookup_trade k ?d = Some t \<and> tr_status t = TS_CLOSED \<longrightarrow> (\<exists>t'. lookup_trade k (api_run xs ?d) = Some t' \<and> rematched t t')"
    using ih by (elim conjE)
  show ?case
  proof (cases "fed ?n")
    case Nil
    then have q: "quiet d ?d" using eff by (simp add: news_effect_def)
    have kept: "\<exists>t'. lookup_trade k (api_run xs ?d) = Some t' \<and> rematched t t'" if t: "lookup_trade k d = Some t" "tr_status t = TS_CLOSED" for k t
    proof -
      obtain t1 where t1: "lookup_trade k ?d = Some t1" "rematched t t1" using q t unfolding quiet_def by blast
      have "tr_status t1 = TS_CLOSED" using rematched_same(1) [OF t1(2)] t(2) by simp
      then obtain t2 where "lookup_trade k (api_run xs ?d) = Some t2" "rematched t1 t2" using later t1(1) by blast
      then show ?thesis using rematched_trans [OF t1(2)] by blast
    qed
    have same: "closed_in ?d k = closed_in d k" for k using q by (simp add: quiet_def)
    show ?thesis unfolding run using ih kept by (simp add: Nil same)
  next
    case (Cons t ts)
    then have t: "ts = []" "\<not> closed_in d (tr_trade_id t)" "tr_status t = TS_CLOSED" "lookup_trade (tr_trade_id t) ?d = Some t"
        "\<And>k. k \<noteq> tr_trade_id t \<Longrightarrow> lookup_trade k ?d = lookup_trade k d"
      using eff by (simp_all add: news_effect_def)
    have now: "closed_in ?d k \<longleftrightarrow> closed_in d k \<or> k = tr_trade_id t" for k
      using t(3,4) t(5) [of k] by (cases "k = tr_trade_id t") (auto simp: closed_in_def)
    have kept: "\<exists>t'. lookup_trade k (api_run xs ?d) = Some t' \<and> rematched u t'" if u: "lookup_trade k d = Some u" "tr_status u = TS_CLOSED" for k u
    proof -
      have "k \<noteq> tr_trade_id t" using t(2) u by (auto simp: closed_in_def)
      then show ?thesis using later u t(5) by metis
    qed
    have fresh: "tr_trade_id t \<notin> tr_trade_id ` set (fed (risk_log xs ?d))" using ih now by force
    show ?thesis unfolding run using ih kept fresh t(2,3,4) by (simp add: Cons t(1) now)
  qed
qed


definition demo_env :: request_env where "demo_env = \<lparr>rq_now = 5, rq_account_id = ''acct'', rq_trade_id = ''MANUAL-2''\<rparr>"

definition demo_risk_engine :: risk_engine where "demo_risk_engine = new_risk_engine default_risk_config 10000 0"

definition demo_journal_db :: db where
  "demo_journal_db = (save_risk_engine demo_risk_engine empty_db)\<lparr>db_trades := [opened_trade ''MANUAL-1'' demo_request]\<rparr>"

lemma demo_exit: "\<exists>t d'. record_exit ''MANUAL-1'' 100 2 5 None demo_journal_db = Inr (t, d') \<and> tr_status t = TS_CLOSED"
proof -
  have "fadd 2 quantity_epsilon \<ge> 2" "fsub 2 quantity_epsilon \<le> 2"
    using fl_mono [of 2 "2 + quantity_epsilon"] fl_mono [of "2 - quantity_epsilon" 2] fl_nonneg [of "1 / 10 ^ 9"]
    by (simp_all add: fadd_def fsub_def quantity_epsilon_def fl_numeral)
  moreover have "closed_quantity demo_journal_db ''MANUAL-1'' = 0"
    by (simp add: closed_quantity_def demo_journal_db_def save_risk_engine_def empty_db_def fsum_def)
  moreover have "lookup_trade ''MANUAL-1'' demo_journal_db = Some (opened_trade ''MANUAL-1'' demo_request)"
    by (simp add: demo_journal_db_def lookup_trade_def lookup_by_def opened_trade_def)
  ultimately show ?thesis
    by (simp add: record_exit_def exited_trade_def opened_trade_def demo_request_def default_trade_def Let_def py_div_def journal_pnl_pct_def
        journal_r_multiple_def fadd_def fsub_def fmul_def fl_numeral)
qed


section \<open>When the engine cannot be read\<close>

text \<open>
  An exit that closes a trade is committed before the risk engine is loaded.  If the stored engine cannot be read, the request is
  answered with 500 although the trade is closed, the engine does not hear of it, and repeating the request is refused.
\<close>

theorem closed_trade_lost_to_risk:
  assumes "record_exit tid x q now reason d = Inr (t, d1)" "tr_status t = TS_CLOSED"
    "load_risk_engine d default_risk_config 10000 (dt_date now) = Inl err" "rq_now env = now"
  shows "exit_manual_trade env tid x q None reason d = (Inl (HTTP_raised err), d1) \<and> closed_in d1 tid \<and>
    (\<forall>env' x' q' now' reason'. exit_manual_trade env' tid x' q' now' reason' d1 = (Inl (HTTP_journal (JE_already_closed TS_CLOSED)), d1))"
proof -
  note eff = exit_effect [OF assms(1)]
  have "load_risk_engine d1 default_risk_config 10000 (dt_date now) = Inl err"
    using assms(3) eff(5) by (simp add: load_risk_engine_def bot_get_def)
  then show ?thesis
    using assms(1,2,4) eff(3) by (simp add: exit_manual_trade_def journal_reply_def closed_in_def record_exit_def)
qed

theorem closed_trade_lost_to_risk_witness:
  "\<exists>d1. exit_manual_trade demo_env ''MANUAL-1'' 100 2 None None (bot_put STATE_KEY JNull demo_journal_db) = (Inl (HTTP_raised TypeError), d1) \<and>
     closed_in d1 ''MANUAL-1''"
proof -
  let ?d = "bot_put STATE_KEY JNull demo_journal_db"
  obtain t d' where t: "record_exit ''MANUAL-1'' 100 2 5 None demo_journal_db = Inr (t, d')" "tr_status t = TS_CLOSED" using demo_exit by blast
  then obtain d1 where "record_exit ''MANUAL-1'' 100 2 5 None ?d = Inr (t, d1)"
    by (auto simp: record_exit_def lookup_trade_def bot_put_eq closed_quantity_def Let_def split: option.splits if_splits sum.splits)
  moreover have "load_risk_engine ?d default_risk_config 10000 (dt_date 5) = Inl TypeError"
    by (simp add: load_risk_engine_def bot.get_put_same deserialize_def field_def item_def bind_result_def)
  ultimately show ?thesis using closed_trade_lost_to_risk [OF _ t(2), of "''MANUAL-1''" 100 2 5 None ?d _ TypeError demo_env] by (auto simp: demo_env_def)
qed

section \<open>The chart shares its candle with the breakout check\<close>

text \<open>Two candles that differ in their tick count only.\<close>

definition same_candle :: "forming_candle \<Rightarrow> forming_candle \<Rightarrow> bool" where
  "same_candle c c' \<longleftrightarrow> forming_bar c' = forming_bar c"

lemma tick_again:
  assumes "on_tick p r ag = (c, ag1)" "on_tick p r ag1 = (c', ag2)"
  shows "same_candle c c'"
  using assms by (auto simp: on_tick_def next_forming_def same_candle_def forming_bar_def bucket_start_def Let_def split: option.splits if_splits)

text \<open>What the check answers depends on the forming candle only through its bar.\<close>

lemma breakout_same_candle:
  assumes "\<And>p r c c' g g'. on_tick p r ag = (c, g) \<Longrightarrow> on_tick p r ag' = (c', g') \<Longrightarrow>
      mk_last_price_usdt (mf_state feed) = Some p \<Longrightarrow> mk_received_at (mf_state feed) = Some r \<Longrightarrow> same_candle c c'"
    and "evaluate_live_breakout bl regime u now feed symbol tf ag d = (x, ag1, d1)"
    and "evaluate_live_breakout bl regime u now feed symbol tf ag' d = (x', ag2, d2)"
  shows "x' = x \<and> d2 = d1"
proof (cases "(mk_last_price_usdt (mf_state feed), mk_received_at (mf_state feed))")
  case (Pair po ro)
  show ?thesis
  proof (cases "is_signal_generation_paused d \<or> connection_status now DEFAULT_STALE_AFTER feed \<noteq> CN_LIVE \<or> po = None \<or> ro = None \<or>
      length (load_recent_candles d symbol tf DEFAULT_LOOKBACK_BARS) < MIN_BARS_REQUIRED")
    case True
    then show ?thesis using assms(2,3) Pair
      by (cases po; cases ro) (auto simp: evaluate_live_breakout_def Let_def split: if_splits)
  next
    case False
    then obtain p r where pr: "po = Some p" "ro = Some r" by auto
    obtain c g c' g' where t: "on_tick p r ag = (c, g)" "on_tick p r ag' = (c', g')" by fastforce
    have bar: "forming_bar c' = forming_bar c" using assms(1) [OF t] Pair pr by (simp add: same_candle_def)
    then have "fc_open_time c' = fc_open_time c" by (simp add: forming_bar_def)
    then show ?thesis using assms(2,3) Pair False
      by (simp add: evaluate_live_breakout_def pr t Let_def bar split: option.splits sum.splits bool.splits if_splits prod.splits)
  qed
qed

lemma get_candles_registry:
  assumes "get_candles now symbol timeframe limit feed aggs fx d = (chart, aggs', cache)"
  shows "aggs' = (case live_tick now symbol timeframe feed aggs of
      None \<Rightarrow> aggs | Some (ag, p, t) \<Rightarrow> aggs(timeframe := Some (snd (on_tick p t ag))))"
  using assms by (cases fx) (auto simp: get_candles_def Let_def split: prod.splits option.splits)


text \<open>The witness: a chart of the 4h candle with a live feed, then the check.\<close>

definition demo_live_feed :: market_feed where
  "demo_live_feed = (new_feed ''BTC/USDT'')\<lparr>mf_connected := True,
     mf_state := \<lparr>mk_event_timestamp = None, mk_last_price_usdt = Some 100, mk_mark_price_usdt = None, mk_received_at = Some 0\<rparr>\<rparr>"

definition demo_registry :: "string \<Rightarrow> aggregator option" where
  "demo_registry = [''4h'' \<mapsto> \<lparr>ag_interval_seconds = 14400, ag_current = None\<rparr>]"

definition demo_silent :: baseline where
  "demo_silent = \<lparr>bl_setup = (\<lambda>_. None), bl_adx = (\<lambda>_. None), bl_threshold = 0\<rparr>"


section \<open>The market feed makes the account look synchronised\<close>

text \<open>
  The newest event of any source decides whether the account's data are fresh, and the market feed writes its connection changes
  to the same table: when the feed is lost or comes back, the dashboard shows an account whose last good
  synchronisation is arbitrarily old as live for another hour.
\<close>

theorem feed_event_freshens_account:
  assumes "is_configured api" "ac_connection_status account = CN_LIVE"
    "on_disconnect True t m d = (m', d', alerts)" "mf_last_notified_status m = Some CN_LIVE"
    "\<forall>e\<in>set (db_sync_events d). se_timestamp e < t" "now \<le> t + hour_us"
  shows "account_data_source api account (get_last_sync_event d') now = CN_LIVE \<and>
    (\<forall>e. get_last_sync_event d' = Some e \<longrightarrow> se_source e = ''coindcx_market_ws'' \<and> se_status e = SY_FAILED)"
proof -
  let ?row = "\<lparr>se_source = ''coindcx_market_ws'', se_status = SY_FAILED, se_timestamp = t\<rparr>"
  have events: "db_sync_events d' = db_sync_events d @ [?row]"
    using assms(3,4) by (auto simp: on_disconnect_def maybe_notify_transition_def on_connection_transition_def)
  have "get_last_sync_event d' \<noteq> None" using events by (simp add: get_last_sync_event_def) (metis length_order_desc length_0_conv append_is_Nil_conv list.discI)
  then obtain e where e: "get_last_sync_event d' = Some e" by blast
  have "se_timestamp ?row \<le> se_timestamp e"
    using order_desc_first [of se_timestamp "db_sync_events d'" e ?row] e by (simp add: get_last_sync_event_def events)
  moreover have "e \<in> set (db_sync_events d')" using e first_in by (fastforce simp: get_last_sync_event_def)
  ultimately have "e = ?row" using assms(5) by (auto simp: events)
  then show ?thesis using assms(1,2,6) e by (simp add: account_data_source_def event_is_stale_def sync_is_stale_def SYNC_STALE_AFTER_def)
qed

theorem feed_event_freshens_account_witness:
  "\<exists>d'. account_data_source demo_api \<lparr>ac_id = ''acct'', ac_connection_status = CN_LIVE, ac_last_synced_at = Some 0, ac_created_at = 0\<rparr>
      (get_last_sync_event d') (100 * day_us) = CN_LIVE"
proof -
  let ?m = "(new_feed ''BTC/USDT'')\<lparr>mf_connected := True, mf_last_notified_status := Some CN_LIVE\<rparr>"
  obtain m' d' al where o: "on_disconnect True (100 * day_us) ?m empty_db = (m', d', al)" by (cases rule: prod_cases3)
  show ?thesis
    using feed_event_freshens_account [OF _ _ o, of demo_api "\<lparr>ac_id = ''acct'', ac_connection_status = CN_LIVE, ac_last_synced_at = Some 0, ac_created_at = 0\<rparr>" "100 * day_us"]
    by (auto simp: demo_api_def is_configured_def empty_db_def hour_us_def)
qed

end
