(* ===== verification/Indicators.thy ===== *)
theory Indicators
  imports Strategies
begin

text \<open>
  \<open>services/feature_engine/indicators.py\<close>: the technical indicators.  A pandas series is a list of
  optional floats, \<open>None\<close> for NaN; what pandas itself computes (exponential and rolling windows, cumulative
  sums) is a parameter.  An indicator is causal if it has a value for each row and gives the rows of a shorter
  history the same values: nothing that comes later has an influence.
\<close>

section \<open>Series\<close>

type_synonym series = "f64 option list"

definition both :: "(f64 \<Rightarrow> f64 \<Rightarrow> f64) \<Rightarrow> series \<Rightarrow> series \<Rightarrow> series" where
  "both f xs ys = map2 (\<lambda>a b. case (a, b) of (Some x, Some y) \<Rightarrow> Some (f x y) | _ \<Rightarrow> None) xs ys"

definition each :: "(f64 \<Rightarrow> f64) \<Rightarrow> series \<Rightarrow> series" where "each f = map (map_option f)"

definition shift :: "nat \<Rightarrow> 'a option list \<Rightarrow> 'a option list" where
  "shift k xs = take (length xs) (replicate k None @ xs)"

definition diff_by :: "nat \<Rightarrow> series \<Rightarrow> series" where "diff_by k xs = both fsub xs (shift k xs)"

definition nonzero :: "series \<Rightarrow> series" where "nonzero = map (\<lambda>x. if x = Some 0 then None else x)"

definition fillna :: "f64 \<Rightarrow> series \<Rightarrow> series" where "fillna v = map (\<lambda>x. Some (case x of None \<Rightarrow> v | Some y \<Rightarrow> y))"

text \<open>A comparison of two series as a column of zeros and ones: NaN compares as false.\<close>

definition flag :: "(f64 \<Rightarrow> f64 \<Rightarrow> bool) \<Rightarrow> series \<Rightarrow> series \<Rightarrow> series" where
  "flag p xs ys = map2 (\<lambda>a b. Some (case (a, b) of (Some x, Some y) \<Rightarrow> if p x y then 1 else 0 | _ \<Rightarrow> 0)) xs ys"

text \<open>The row maximum skips NaN.\<close>

fun skipna_max :: "f64 option \<Rightarrow> f64 option \<Rightarrow> f64 option" where
  "skipna_max None b = b"
| "skipna_max a None = a"
| "skipna_max (Some x) (Some y) = Some (max x y)"

definition row_max :: "series \<Rightarrow> series \<Rightarrow> series" where "row_max = map2 skipna_max"

record pandas_series =
  ps_ewm_span :: "nat \<Rightarrow> series \<Rightarrow> series"
  ps_ewm_alpha :: "nat \<Rightarrow> series \<Rightarrow> series"
  ps_rolling_mean :: "nat \<Rightarrow> series \<Rightarrow> series"
  ps_rolling_std :: "nat \<Rightarrow> series \<Rightarrow> series"
  ps_rolling_max :: "nat \<Rightarrow> series \<Rightarrow> series"
  ps_rolling_min :: "nat \<Rightarrow> series \<Rightarrow> series"
  ps_rolling_sum :: "nat \<Rightarrow> series \<Rightarrow> series"
  ps_rolling_rank :: "nat \<Rightarrow> series \<Rightarrow> series"
  ps_rolling_wma :: "nat \<Rightarrow> series \<Rightarrow> series"
  ps_cumsum :: "series \<Rightarrow> series"
  ps_cumsum_by :: "(date \<times> f64 option) list \<Rightarrow> series"

section \<open>Indicators\<close>

definition ema :: "pandas_series \<Rightarrow> series \<Rightarrow> nat \<Rightarrow> series" where "ema P xs period = ps_ewm_span P period xs"
definition sma :: "pandas_series \<Rightarrow> series \<Rightarrow> nat \<Rightarrow> series" where "sma P xs period = ps_rolling_mean P period xs"
definition wma :: "pandas_series \<Rightarrow> series \<Rightarrow> nat \<Rightarrow> series" where "wma P xs period = ps_rolling_wma P period xs"

text \<open>\<open>int(round(period ** 0.5))\<close>\<close>

fun root_from :: "nat \<Rightarrow> nat \<Rightarrow> nat" where
  "root_from 0 n = 0"
| "root_from (Suc k) n = (if Suc k * Suc k \<le> n then Suc k else root_from k n)"

definition rounded_root :: "nat \<Rightarrow> nat" where
  "rounded_root n = (let r = root_from n n in if r * r + r < n then r + 1 else r)"

definition hma :: "pandas_series \<Rightarrow> series \<Rightarrow> nat \<Rightarrow> series" where
  "hma P xs period =
     (let half = max 1 (period div 2); sqrt_p = max 1 (rounded_root period);
          raw_hma = both fsub (each (fmul 2) (wma P xs half)) (wma P xs period)
      in wma P raw_hma sqrt_p)"

text \<open>The recursion of KAMA, from its own previous value.\<close>

fun kama_scan :: "nat \<Rightarrow> f64 option \<Rightarrow> (f64 option \<times> f64 option) list \<Rightarrow> series" where
  "kama_scan skip prev [] = []"
| "kama_scan (Suc skip) prev (x # xs) = None # kama_scan skip None xs"
| "kama_scan 0 prev ((close, sc) # xs) =
     (let v = (case (prev, sc) of
          (Some p, Some k) \<Rightarrow> (case close of Some c \<Rightarrow> Some (fadd p (fmul k (fsub c p))) | None \<Rightarrow> None)
        | _ \<Rightarrow> close)
      in v # kama_scan 0 v xs)"

definition kama_smoothing :: "pandas_series \<Rightarrow> series \<Rightarrow> nat \<Rightarrow> nat \<Rightarrow> nat \<Rightarrow> series" where
  "kama_smoothing P xs er_period fast slow =
     (let change = each abs (diff_by er_period xs);
          volatility = ps_rolling_sum P er_period (each abs (diff_by 1 xs));
          er = fillna 0 (both fdiv change (nonzero volatility));
          fast_sc = fl (2 / (of_nat fast + 1)); slow_sc = fl (2 / (of_nat slow + 1));
          base = each (\<lambda>e. fadd (fmul e (fsub fast_sc slow_sc)) slow_sc) er
      in each (\<lambda>b. fmul b b) base)"

text \<open>The first value is the close of bar \<open>er_period\<close>, whatever its smoothing constant.\<close>

definition kama :: "pandas_series \<Rightarrow> series \<Rightarrow> nat \<Rightarrow> nat \<Rightarrow> nat \<Rightarrow> series" where
  "kama P xs er_period fast slow = kama_scan er_period None (zip xs (kama_smoothing P xs er_period fast slow))"

definition rsi :: "pandas_series \<Rightarrow> series \<Rightarrow> nat \<Rightarrow> series" where
  "rsi P xs period =
     (let delta = diff_by 1 xs;
          gain = map (\<lambda>d. case d of Some x \<Rightarrow> if 0 < x then Some x else Some 0 | None \<Rightarrow> Some 0) delta;
          loss = map (\<lambda>d. case d of Some x \<Rightarrow> if x < 0 then Some (- x) else Some 0 | None \<Rightarrow> Some 0) delta;
          rs = both fdiv (ps_ewm_alpha P period gain) (nonzero (ps_ewm_alpha P period loss))
      in each (\<lambda>r. fsub 100 (fdiv 100 (fadd 1 r))) rs)"

definition macd :: "pandas_series \<Rightarrow> series \<Rightarrow> nat \<Rightarrow> nat \<Rightarrow> nat \<Rightarrow> series \<times> series \<times> series" where
  "macd P xs fast slow signal =
     (let macd_line = both fsub (ema P xs fast) (ema P xs slow); signal_line = ema P macd_line signal
      in (macd_line, signal_line, both fsub macd_line signal_line))"

definition highs :: "bar list \<Rightarrow> series" where "highs = map (\<lambda>b. Some (b_high b))"
definition lows :: "bar list \<Rightarrow> series" where "lows = map (\<lambda>b. Some (b_low b))"
definition closes :: "bar list \<Rightarrow> series" where "closes = map (\<lambda>b. Some (b_close b))"
definition volumes :: "bar list \<Rightarrow> series" where "volumes = map (\<lambda>b. Some (b_volume b))"

definition true_range :: "bar list \<Rightarrow> series" where
  "true_range df =
     (let prev_close = shift 1 (closes df)
      in row_max (both fsub (highs df) (lows df))
           (row_max (each abs (both fsub (highs df) prev_close)) (each abs (both fsub (lows df) prev_close))))"

definition atr :: "pandas_series \<Rightarrow> bar list \<Rightarrow> nat \<Rightarrow> series" where
  "atr P df period = ps_ewm_alpha P period (true_range df)"

text \<open>One side of the directional movement: the larger move of the bar, or nothing.\<close>

definition directional_move :: "series \<Rightarrow> series \<Rightarrow> series" where
  "directional_move mine other =
     map2 (\<lambda>a b. case (a, b) of (Some x, Some y) \<Rightarrow> Some (if y < x then max x 0 else 0) | _ \<Rightarrow> Some 0) mine other"

definition directional_indicators :: "pandas_series \<Rightarrow> bar list \<Rightarrow> nat \<Rightarrow> series \<times> series \<times> series" where
  "directional_indicators P df period =
     (let up = both fsub (highs df) (shift 1 (highs df)); down = both fsub (shift 1 (lows df)) (lows df);
          plus_dm = directional_move up down; minus_dm = directional_move down up;
          atr_val = nonzero (atr P df period);
          plus_di = both fdiv (each (fmul 100) (ema P plus_dm period)) atr_val;
          minus_di = both fdiv (each (fmul 100) (ema P minus_dm period)) atr_val;
          dx = both fdiv (each (fmul 100) (each abs (both fsub plus_di minus_di))) (nonzero (both fadd plus_di minus_di))
      in (plus_di, minus_di, ema P dx period))"

definition adx :: "pandas_series \<Rightarrow> bar list \<Rightarrow> nat \<Rightarrow> series" where
  "adx P df period = (case directional_indicators P df period of (_, _, adx_val) \<Rightarrow> adx_val)"

text \<open>\<open>series / series.shift(period)\<close> of prices, which are not zero.\<close>

definition roc :: "series \<Rightarrow> nat \<Rightarrow> series" where
  "roc xs period = each (\<lambda>q. fmul (fsub q 1) 100) (both fdiv xs (shift period xs))"

definition momentum :: "series \<Rightarrow> nat \<Rightarrow> series" where "momentum xs period = both fsub xs (shift period xs)"

definition bollinger_bands :: "pandas_series \<Rightarrow> series \<Rightarrow> nat \<Rightarrow> f64 \<Rightarrow> series \<times> series \<times> series" where
  "bollinger_bands P xs period std_dev =
     (let mid = sma P xs period; width = each (fmul std_dev) (ps_rolling_std P period xs)
      in (both fadd mid width, mid, both fsub mid width))"

definition typical_price :: "bar list \<Rightarrow> series" where
  "typical_price = map (\<lambda>b. Some (fdiv (fadd (fadd (b_high b) (b_low b)) (b_close b)) 3))"

definition vwap :: "pandas_series \<Rightarrow> bar list \<Rightarrow> series" where
  "vwap P df = both fdiv (ps_cumsum P (both fmul (typical_price df) (volumes df))) (nonzero (ps_cumsum P (volumes df)))"

definition sessions :: "bar list \<Rightarrow> date list" where "sessions = map (\<lambda>b. dt_date (b_timestamp b))"

definition vwap_session :: "pandas_series \<Rightarrow> bar list \<Rightarrow> series" where
  "vwap_session P df =
     both fdiv (ps_cumsum_by P (zip (sessions df) (both fmul (typical_price df) (volumes df))))
       (nonzero (ps_cumsum_by P (zip (sessions df) (volumes df))))"

section \<open>Supertrend\<close>

text \<open>A row of the loop: the bands as far as they are known, the direction, and the close, which the next row compares.\<close>

record supertrend_row =
  sx_upper :: "f64 option"
  sx_lower :: "f64 option"
  sx_up :: bool
  sx_line :: "f64 option"
  sx_close :: f64

definition basic_bands :: "f64 \<Rightarrow> bar \<Rightarrow> f64 \<Rightarrow> f64 \<times> f64" where
  "basic_bands multiplier b a =
     (let hl2 = fdiv (fadd (b_high b) (b_low b)) 2 in (fadd hl2 (fmul multiplier a), fsub hl2 (fmul multiplier a)))"

definition supertrend_next :: "f64 \<Rightarrow> supertrend_row option \<Rightarrow> bar \<times> f64 option \<Rightarrow> supertrend_row" where
  "supertrend_next multiplier prev = (\<lambda>(b, a).
     case a of
       None \<Rightarrow> \<lparr>sx_upper = None, sx_lower = None, sx_up = True, sx_line = None, sx_close = b_close b\<rparr>
     | Some atr_val \<Rightarrow>
         (case basic_bands multiplier b atr_val of (upper, lower) \<Rightarrow>
            (case (prev, Option.bind prev sx_upper, Option.bind prev sx_lower) of
               (Some p, Some pu, Some pl) \<Rightarrow>
                 let final_upper = (if upper < pu \<or> sx_close p > pu then upper else pu);
                     final_lower = (if lower > pl \<or> sx_close p < pl then lower else pl);
                     up = (if sx_up p then \<not> b_close b < final_lower else b_close b > final_upper)
                 in \<lparr>sx_upper = Some final_upper, sx_lower = Some final_lower, sx_up = up,
                     sx_line = Some (if up then final_lower else final_upper), sx_close = b_close b\<rparr>
             | _ \<Rightarrow> \<lparr>sx_upper = Some upper, sx_lower = Some lower, sx_up = True, sx_line = Some lower, sx_close = b_close b\<rparr>)))"

fun supertrend_scan :: "f64 \<Rightarrow> supertrend_row option \<Rightarrow> (bar \<times> f64 option) list \<Rightarrow> supertrend_row list" where
  "supertrend_scan multiplier prev [] = []"
| "supertrend_scan multiplier prev (x # xs) =
     (let r = supertrend_next multiplier prev x in r # supertrend_scan multiplier (Some r) xs)"

definition supertrend :: "pandas_series \<Rightarrow> bar list \<Rightarrow> nat \<Rightarrow> f64 \<Rightarrow> series \<times> series" where
  "supertrend P df period multiplier =
     (let rows = supertrend_scan multiplier None (zip df (atr P df period))
      in (map sx_line rows, map (\<lambda>r. Some (if sx_up r then 1 else - 1)) rows))"

section \<open>Causality\<close>

named_theorems causal_intros

definition causal :: "('a list \<Rightarrow> 'b list) \<Rightarrow> bool" where
  "causal f \<longleftrightarrow> (\<forall>xs. length (f xs) = length xs) \<and> (\<forall>n xs. f (take n xs) = take n (f xs))"

lemma causal_length: "causal f \<Longrightarrow> length (f xs) = length xs" by (simp add: causal_def)

lemma causal_take: "causal f \<Longrightarrow> f (take n xs) = take n (f xs)" by (simp add: causal_def)

lemma causal_id [causal_intros]: "causal (\<lambda>xs. xs)" by (simp add: causal_def)

lemma causal_map [causal_intros]: "causal f \<Longrightarrow> causal (\<lambda>xs. map g (f xs))" by (simp add: causal_def take_map)

lemma causal_zip [causal_intros]: "causal f \<Longrightarrow> causal g \<Longrightarrow> causal (\<lambda>xs. zip (f xs) (g xs))"
  by (simp add: causal_def take_zip)

lemma causal_shift [causal_intros]: "causal f \<Longrightarrow> causal (\<lambda>xs. shift k (f xs))"
  by (auto simp: causal_def shift_def take_append min_def)

lemma causal_series [causal_intros]:
  "causal f \<Longrightarrow> causal g \<Longrightarrow> causal (\<lambda>xs. both h (f xs) (g xs))"
  "causal f \<Longrightarrow> causal (\<lambda>xs. each h' (f xs))"
  "causal f \<Longrightarrow> causal (\<lambda>xs. nonzero (f xs))"
  "causal f \<Longrightarrow> causal (\<lambda>xs. fillna v (f xs))"
  "causal f \<Longrightarrow> causal g \<Longrightarrow> causal (\<lambda>xs. flag p (f xs) (g xs))"
  "causal f \<Longrightarrow> causal g \<Longrightarrow> causal (\<lambda>xs. row_max (f xs) (g xs))"
  "causal f \<Longrightarrow> causal g \<Longrightarrow> causal (\<lambda>xs. directional_move (f xs) (g xs))"
  "causal f \<Longrightarrow> causal (\<lambda>xs. diff_by k (f xs))"
  unfolding both_def each_def nonzero_def fillna_def flag_def row_max_def directional_move_def diff_by_def
  by (intro causal_intros; assumption)+

lemma causal_columns [causal_intros]:
  "causal f \<Longrightarrow> causal (\<lambda>xs. highs (f xs))" "causal f \<Longrightarrow> causal (\<lambda>xs. lows (f xs))"
  "causal f \<Longrightarrow> causal (\<lambda>xs. closes (f xs))" "causal f \<Longrightarrow> causal (\<lambda>xs. volumes (f xs))"
  "causal f \<Longrightarrow> causal (\<lambda>xs. typical_price (f xs))" "causal f \<Longrightarrow> causal (\<lambda>xs. sessions (f xs))"
  unfolding highs_def lows_def closes_def volumes_def typical_price_def sessions_def
  by (intro causal_intros; assumption)+

lemma kama_scan_take: "kama_scan k p (take n xs) = take n (kama_scan k p xs)"
proof (induction n arbitrary: k p xs)
  case (Suc n)
  then show ?case by (cases xs; cases k) (auto simp: Let_def)
qed simp

lemma supertrend_scan_take: "supertrend_scan m p (take n xs) = take n (supertrend_scan m p xs)"
proof (induction n arbitrary: p xs)
  case (Suc n)
  then show ?case by (cases xs) (auto simp: Let_def)
qed simp

lemma scan_length: "length (kama_scan k p xs) = length xs" "length (supertrend_scan m q ys) = length ys"
proof -
  show "length (kama_scan k p xs) = length xs" by (induction k p xs rule: kama_scan.induct) (simp_all add: Let_def)
  show "length (supertrend_scan m q ys) = length ys" by (induction m q ys rule: supertrend_scan.induct) (simp_all add: Let_def)
qed

lemma causal_scans [causal_intros]:
  "causal f \<Longrightarrow> causal (\<lambda>xs. kama_scan k p (f xs))" "causal g \<Longrightarrow> causal (\<lambda>xs. supertrend_scan m q (g xs))"
  by (simp_all add: causal_def kama_scan_take supertrend_scan_take scan_length)

text \<open>
  What is documented of pandas' windows: the result has the index of the series, and the value of a row is
  computed from that row and the rows before it.
\<close>

definition trailing :: "pandas_series \<Rightarrow> bool" where
  "trailing P \<longleftrightarrow> (\<forall>k. causal (ps_ewm_span P k) \<and> causal (ps_ewm_alpha P k) \<and> causal (ps_rolling_mean P k) \<and>
     causal (ps_rolling_std P k) \<and> causal (ps_rolling_max P k) \<and> causal (ps_rolling_min P k) \<and> causal (ps_rolling_sum P k) \<and>
     causal (ps_rolling_rank P k) \<and> causal (ps_rolling_wma P k)) \<and> causal (ps_cumsum P) \<and> causal (ps_cumsum_by P)"

lemma causal_compose: "causal f \<Longrightarrow> causal g \<Longrightarrow> causal (\<lambda>xs. f (g xs))"
  by (simp add: causal_def)

lemma causal_windows:
  assumes "trailing P" "causal f"
  shows "causal (\<lambda>xs. ps_ewm_span P k (f xs))" "causal (\<lambda>xs. ps_ewm_alpha P k (f xs))" "causal (\<lambda>xs. ps_rolling_mean P k (f xs))"
    "causal (\<lambda>xs. ps_rolling_std P k (f xs))" "causal (\<lambda>xs. ps_rolling_max P k (f xs))" "causal (\<lambda>xs. ps_rolling_min P k (f xs))"
    "causal (\<lambda>xs. ps_rolling_sum P k (f xs))" "causal (\<lambda>xs. ps_rolling_rank P k (f xs))" "causal (\<lambda>xs. ps_rolling_wma P k (f xs))"
    "causal (\<lambda>xs. ps_cumsum P (f xs))"
  using assms by (simp_all add: trailing_def causal_compose)

lemma causal_cumsum_by: "trailing P \<Longrightarrow> causal g \<Longrightarrow> causal (\<lambda>xs. ps_cumsum_by P (g xs))"
  by (simp add: trailing_def causal_compose)

text \<open>Each indicator of a causal argument is causal.\<close>

lemma causal_averages:
  assumes "trailing P" "causal f"
  shows "causal (\<lambda>xs. ema P (f xs) k)" "causal (\<lambda>xs. sma P (f xs) k)" "causal (\<lambda>xs. wma P (f xs) k)"
    "causal (\<lambda>xs. hma P (f xs) k)" "causal (\<lambda>xs. kama P (f xs) k i j)" "causal (\<lambda>xs. rsi P (f xs) k)"
    "causal (\<lambda>xs. roc (f xs) k)" "causal (\<lambda>xs. momentum (f xs) k)"
  unfolding ema_def sma_def wma_def hma_def kama_def kama_smoothing_def rsi_def roc_def momentum_def Let_def
  by (intro causal_intros causal_windows [OF assms(1)] assms(2))+

lemma causal_macd:
  assumes "trailing P" "causal f"
  shows "causal (\<lambda>xs. fst (macd P (f xs) i j k))" "causal (\<lambda>xs. fst (snd (macd P (f xs) i j k)))" "causal (\<lambda>xs. snd (snd (macd P (f xs) i j k)))"
  unfolding macd_def Let_def fst_conv snd_conv by (intro causal_intros causal_averages assms)+

lemma causal_bollinger:
  assumes "trailing P" "causal f"
  shows "causal (\<lambda>xs. fst (bollinger_bands P (f xs) k s))" "causal (\<lambda>xs. fst (snd (bollinger_bands P (f xs) k s)))"
    "causal (\<lambda>xs. snd (snd (bollinger_bands P (f xs) k s)))"
  unfolding bollinger_bands_def Let_def fst_conv snd_conv by (intro causal_intros causal_averages causal_windows assms)+

lemma causal_true_range: "causal f \<Longrightarrow> causal (\<lambda>xs. true_range (f xs))"
  unfolding true_range_def Let_def by (intro causal_intros; assumption)

lemma causal_atr: "trailing P \<Longrightarrow> causal f \<Longrightarrow> causal (\<lambda>xs. atr P (f xs) k)"
  unfolding atr_def by (intro causal_windows causal_true_range)

lemma causal_adx:
  assumes "trailing P" "causal f"
  shows "causal (\<lambda>xs. adx P (f xs) k)"
  unfolding adx_def directional_indicators_def Let_def case_prod_conv
  by (intro causal_intros causal_averages causal_atr assms)

lemma causal_vwap:
  assumes "trailing P" "causal f"
  shows "causal (\<lambda>xs. vwap P (f xs))" "causal (\<lambda>xs. vwap_session P (f xs))"
  unfolding vwap_def vwap_session_def by (intro causal_intros causal_windows causal_cumsum_by assms)+

lemma causal_supertrend:
  assumes "trailing P" "causal f"
  shows "causal (\<lambda>xs. fst (supertrend P (f xs) k m))" "causal (\<lambda>xs. snd (supertrend P (f xs) k m))"
  unfolding supertrend_def Let_def fst_conv snd_conv by (intro causal_intros causal_atr assms)+

lemmas causal_indicators = causal_averages causal_macd causal_bollinger causal_atr causal_adx causal_vwap causal_supertrend

section \<open>Supertrend's bands\<close>

text \<open>
  The bands of Supertrend only tighten: from one row to the next the upper band rises, or the lower band falls,
  only if the close of the earlier row was beyond that band; the direction turns up only on a close above the
  upper band and down only on a close below the lower one, and the line is the band of the direction.
\<close>
theorem supertrend_bands_tighten:
  assumes "supertrend_next m (Some p) (b, Some a) = r" "sx_upper p = Some pu" "sx_lower p = Some pl"
  shows "\<exists>u l. sx_upper r = Some u \<and> sx_lower r = Some l \<and>
    (u \<le> pu \<or> pu < sx_close p) \<and> (pl \<le> l \<or> sx_close p < pl) \<and>
    (sx_up r \<noteq> sx_up p \<longrightarrow> (if sx_up r then u < b_close b else b_close b < l)) \<and>
    sx_line r = Some (if sx_up r then l else u)"
proof -
  obtain upper lower where bands: "basic_bands m b a = (upper, lower)" by fastforce
  define u where "u = (if upper < pu \<or> sx_close p > pu then upper else pu)"
  define l where "l = (if lower > pl \<or> sx_close p < pl then lower else pl)"
  have r: "r = \<lparr>sx_upper = Some u, sx_lower = Some l, sx_up = (if sx_up p then \<not> b_close b < l else b_close b > u),
      sx_line = Some (if (if sx_up p then \<not> b_close b < l else b_close b > u) then l else u), sx_close = b_close b\<rparr>"
    unfolding assms(1) [symmetric] u_def l_def by (simp add: supertrend_next_def bands assms(2,3) Let_def split del: if_split)
  have "u \<le> pu \<or> pu < sx_close p" "pl \<le> l \<or> sx_close p < pl" by (auto simp: u_def l_def)
  then show ?thesis by (intro exI [of _ u] exI [of _ l]) (simp add: r)
qed

theorem supertrend_bands_tighten_witness:
  "sx_up (supertrend_next 3 (Some \<lparr>sx_upper = Some 10, sx_lower = Some 5, sx_up = False, sx_line = Some 10, sx_close = 9\<rparr>)
     (\<lparr>b_timestamp = 0, b_open = 9, b_high = 12, b_low = 8, b_close = 11, b_volume = 1\<rparr>, Some 1))"
proof -
  let ?p = "\<lparr>sx_upper = Some 10, sx_lower = Some 5, sx_up = False, sx_line = Some 10, sx_close = 9\<rparr>"
  let ?b = "\<lparr>b_timestamp = 0, b_open = 9, b_high = 12, b_low = 8, b_close = 11, b_volume = 1\<rparr>"
  obtain u l where "sx_upper (supertrend_next 3 (Some ?p) (?b, Some 1)) = Some u" "u \<le> 10"
    using supertrend_bands_tighten [OF refl, of ?p 10 5 3 ?b 1] by auto
  then show ?thesis by (auto simp: supertrend_next_def Let_def split: prod.splits if_splits)
qed

end
