(* ===== verification/StrategySignals.thy ===== *)
theory StrategySignals
  imports Indicators
begin

text \<open>
  \<open>ml/evaluation/multi_strategy_signals.py\<close>: the columns that each strategy of the registry computes from the candles
  and the set-up that it finds in the last rows.  A prepared row is a candle with named columns, \<open>None\<close> for NaN.
\<close>

section \<open>Prepared frames\<close>

record prepared_row =
  pw_bar :: bar
  pw_col :: "string \<Rightarrow> f64 option"

definition bare :: "bar list \<Rightarrow> prepared_row list" where "bare = map (\<lambda>b. \<lparr>pw_bar = b, pw_col = \<lambda>_. None\<rparr>)"

definition add_column :: "string \<Rightarrow> series \<Rightarrow> prepared_row list \<Rightarrow> prepared_row list" where
  "add_column name s rows = map2 (\<lambda>r v. r\<lparr>pw_col := (pw_col r)(name := v)\<rparr>) rows s"

text \<open>\<open>df.iloc[-k]\<close>\<close>

definition row_back :: "nat \<Rightarrow> prepared_row list \<Rightarrow> prepared_row" where "row_back k rows = rows ! (length rows - k)"

definition found :: "string \<Rightarrow> f64 option \<Rightarrow> f64 option \<Rightarrow> f64 option \<Rightarrow> f64 option \<Rightarrow> raw_setup" where
  "found side sl t1 t2 t3 = \<lparr>rw_signal_type = side, rw_stop_loss = sl, rw_take_profit_1 = t1, rw_take_profit_2 = t2,
     rw_take_profit_3 = t3, rw_long_probability = 0, rw_short_probability = 0\<rparr>"

definition atr_sl_tp :: "f64 \<Rightarrow> f64 \<Rightarrow> string \<Rightarrow> f64 \<Rightarrow> f64 \<times> f64 \<times> f64 \<Rightarrow> raw_setup" where
  "atr_sl_tp entry atr_val side sl_mult = (\<lambda>(m1, m2, m3).
     if side = ''LONG''
     then found side (Some (fsub entry (fmul sl_mult atr_val))) (Some (fadd entry (fmul m1 atr_val)))
            (Some (fadd entry (fmul m2 atr_val))) (Some (fadd entry (fmul m3 atr_val)))
     else found side (Some (fadd entry (fmul sl_mult atr_val))) (Some (fsub entry (fmul m1 atr_val)))
            (Some (fsub entry (fmul m2 atr_val))) (Some (fsub entry (fmul m3 atr_val))))"

definition default_levels :: "f64 \<Rightarrow> f64 \<Rightarrow> string \<Rightarrow> raw_setup" where
  "default_levels entry atr_val side = atr_sl_tp entry atr_val side 2 (3/2, 5/2, 7/2)"

section \<open>S01 to S04, on 15 minutes\<close>

definition precompute_momentum_breakout :: "nat \<Rightarrow> pandas_series \<Rightarrow> bar list \<Rightarrow> prepared_row list" where
  "precompute_momentum_breakout lookback P df =
     add_column ''_vol_sma_20'' (sma P (volumes df) 20) (add_column ''_range_low'' (ps_rolling_min P lookback (lows df))
       (add_column ''_range_high'' (ps_rolling_max P lookback (highs df)) (add_column ''_atr_14'' (atr P df 14) (bare df))))"

definition momentum_breakout_signal :: "nat \<Rightarrow> f64 \<Rightarrow> nat \<Rightarrow> prepared_row list \<Rightarrow> raw_setup option" where
  "momentum_breakout_signal lookback volume_mult atr_lookback df =
     (if length df < lookback + atr_lookback + 5 then None
      else let last1 = row_back 1 df; prev = row_back 2 df
      in case (pw_col prev ''_range_high'', pw_col prev ''_range_low'', pw_col last1 ''_atr_14'', pw_col last1 ''_vol_sma_20'',
               pw_col (row_back (1 + atr_lookback) df) ''_atr_14'') of
        (Some range_high, Some range_low, Some a, Some vol, Some earlier) \<Rightarrow>
          if a \<le> 0 \<or> vol \<le> 0 then None
          else if \<not> (a > earlier \<and> b_volume (pw_bar last1) > fmul volume_mult vol) then None
          else let entry = b_close (pw_bar last1)
               in if entry > range_high then Some (default_levels entry a ''LONG'')
                  else if entry < range_low then Some (default_levels entry a ''SHORT'') else None
      | _ \<Rightarrow> None)"

definition precompute_ema_pullback :: "pandas_series \<Rightarrow> bar list \<Rightarrow> prepared_row list" where
  "precompute_ema_pullback P df =
     add_column ''_rsi_14'' (rsi P (closes df) 14) (add_column ''_atr_14'' (atr P df 14)
       (add_column ''_ema_50'' (ema P (closes df) 50) (add_column ''_ema_20'' (ema P (closes df) 20) (bare df))))"

definition ema_pullback_signal :: "f64 \<Rightarrow> f64 \<Rightarrow> prepared_row list \<Rightarrow> raw_setup option" where
  "ema_pullback_signal rsi_floor rsi_ceiling df =
     (if length df < 55 then None
      else let last1 = row_back 1 df; prev = row_back 2 df
      in case (pw_col last1 ''_ema_20'', pw_col last1 ''_ema_50'', pw_col last1 ''_atr_14'', pw_col last1 ''_rsi_14'',
               pw_col prev ''_ema_20'', pw_col prev ''_ema_50'', pw_col prev ''_atr_14'', pw_col prev ''_rsi_14'') of
        (Some e20, Some e50, Some a, Some r, Some p20, Some _, Some _, Some _) \<Rightarrow>
          if a \<le> 0 then None
          else let entry = b_close (pw_bar last1)
               in if e20 > e50 \<and> b_low (pw_bar prev) \<le> p20 \<and> b_close (pw_bar prev) \<ge> fmul p20 (fl (999/1000)) \<and> entry > e20 \<and> r > rsi_floor
                  then Some (default_levels entry a ''LONG'')
                  else if e20 < e50 \<and> b_high (pw_bar prev) \<ge> p20 \<and> b_close (pw_bar prev) \<le> fmul p20 (fl (1001/1000)) \<and> entry < e20 \<and> r < rsi_ceiling
                  then Some (default_levels entry a ''SHORT'') else None
      | _ \<Rightarrow> None)"

definition precompute_vwap_reversion :: "pandas_series \<Rightarrow> bar list \<Rightarrow> prepared_row list" where
  "precompute_vwap_reversion P df = add_column ''_atr_14'' (atr P df 14) (add_column ''_vwap'' (vwap_session P df) (bare df))"

definition vwap_reversion_signal :: "f64 \<Rightarrow> prepared_row list \<Rightarrow> raw_setup option" where
  "vwap_reversion_signal deviation_atr_mult df =
     (if length df < 30 then None
      else let last1 = row_back 1 df; prev = row_back 2 df
      in case (pw_col last1 ''_vwap'', pw_col last1 ''_atr_14'', pw_col prev ''_vwap'') of
        (Some v, Some a, Some pv) \<Rightarrow>
          if a \<le> 0 then None
          else let entry = b_close (pw_bar last1); deviation = fsub entry v; prev_deviation = fsub (b_close (pw_bar prev)) pv;
                   threshold = fmul deviation_atr_mult a
               in if deviation < - threshold \<and> deviation > prev_deviation
                  then Some (found ''LONG'' (Some (fsub entry (fmul (3/2) a))) (Some v) (Some (fadd v (fmul (1/2) a))) None)
                  else if deviation > threshold \<and> deviation < prev_deviation
                  then Some (found ''SHORT'' (Some (fadd entry (fmul (3/2) a))) (Some v) (Some (fsub v (fmul (1/2) a))) None)
                  else None
      | _ \<Rightarrow> None)"

definition precompute_rsi_bollinger :: "pandas_series \<Rightarrow> bar list \<Rightarrow> prepared_row list" where
  "precompute_rsi_bollinger P df =
     (let bands = bollinger_bands P (closes df) 20 2
      in add_column ''_atr_14'' (atr P df 14) (add_column ''_bb_lower'' (snd (snd bands)) (add_column ''_bb_mid'' (fst (snd bands))
           (add_column ''_bb_upper'' (fst bands) (add_column ''_rsi_14'' (rsi P (closes df) 14) (bare df))))))"

definition rsi_bollinger_signal :: "f64 \<Rightarrow> f64 \<Rightarrow> prepared_row list \<Rightarrow> raw_setup option" where
  "rsi_bollinger_signal rsi_oversold rsi_overbought df =
     (if length df < 25 then None
      else let last1 = row_back 1 df; prev = row_back 2 df
      in case (pw_col last1 ''_rsi_14'', pw_col last1 ''_bb_upper'', pw_col last1 ''_bb_mid'', pw_col last1 ''_bb_lower'', pw_col last1 ''_atr_14'',
               pw_col prev ''_rsi_14'', pw_col prev ''_bb_upper'', pw_col prev ''_bb_mid'', pw_col prev ''_bb_lower'', pw_col prev ''_atr_14'') of
        (Some _, Some upper, Some mid, Some lower, Some a, Some pr, Some pu, Some _, Some pl, Some _) \<Rightarrow>
          if a \<le> 0 then None
          else let entry = b_close (pw_bar last1)
               in if b_close (pw_bar prev) < pl \<and> entry \<ge> lower \<and> pr < rsi_oversold
                  then Some (found ''LONG'' (Some (min (b_low (pw_bar prev)) (fsub entry (fmul (3/2) a)))) (Some mid) (Some upper) None)
                  else if b_close (pw_bar prev) > pu \<and> entry \<le> upper \<and> pr > rsi_overbought
                  then Some (found ''SHORT'' (Some (max (b_high (pw_bar prev)) (fadd entry (fmul (3/2) a)))) (Some mid) (Some lower) None)
                  else None
      | _ \<Rightarrow> None)"

section \<open>S06 to S10, on 4 hours\<close>

definition precompute_supertrend :: "nat \<Rightarrow> f64 \<Rightarrow> pandas_series \<Rightarrow> bar list \<Rightarrow> prepared_row list" where
  "precompute_supertrend period multiplier P df =
     (let st = supertrend P df period multiplier
      in add_column ''_atr_14'' (atr P df 14) (add_column ''_st_dir'' (snd st) (add_column ''_st_line'' (fst st) (bare df))))"

definition supertrend_signal :: "prepared_row list \<Rightarrow> raw_setup option" where
  "supertrend_signal df =
     (if length df < 15 then None
      else let last1 = row_back 1 df; prev = row_back 2 df
      in case (pw_col last1 ''_st_dir'', pw_col prev ''_st_dir'', pw_col last1 ''_atr_14'') of
        (Some d, Some pd, Some a) \<Rightarrow>
          if a \<le> 0 then None
          else let entry = b_close (pw_bar last1)
               in if pd = - 1 \<and> d = 1
                  then Some (found ''LONG'' (pw_col last1 ''_st_line'') (Some (fadd entry (fmul (3/2) a))) (Some (fadd entry (fmul (5/2) a)))
                         (Some (fadd entry (fmul 4 a))))
                  else if pd = 1 \<and> d = - 1
                  then Some (found ''SHORT'' (pw_col last1 ''_st_line'') (Some (fsub entry (fmul (3/2) a))) (Some (fsub entry (fmul (5/2) a)))
                         (Some (fsub entry (fmul 4 a))))
                  else None
      | _ \<Rightarrow> None)"

definition precompute_macd_momentum :: "pandas_series \<Rightarrow> bar list \<Rightarrow> prepared_row list" where
  "precompute_macd_momentum P df =
     (let m = macd P (closes df) 12 26 9
      in add_column ''_atr_14'' (atr P df 14) (add_column ''_ema_200'' (ema P (closes df) 200) (add_column ''_ema_50'' (ema P (closes df) 50)
           (add_column ''_macd_hist'' (snd (snd m)) (add_column ''_macd_signal'' (fst (snd m)) (add_column ''_macd'' (fst m) (bare df)))))))"

definition macd_momentum_signal :: "prepared_row list \<Rightarrow> raw_setup option" where
  "macd_momentum_signal df =
     (if length df < 210 then None
      else let last1 = row_back 1 df; prev = row_back 2 df
      in case (pw_col last1 ''_macd'', pw_col last1 ''_macd_signal'', pw_col last1 ''_ema_50'', pw_col last1 ''_ema_200'', pw_col last1 ''_atr_14'',
               pw_col prev ''_macd'', pw_col prev ''_macd_signal'', pw_col prev ''_ema_50'', pw_col prev ''_ema_200'', pw_col prev ''_atr_14'') of
        (Some m, Some s, Some e50, Some e200, Some a, Some pm, Some ps, Some _, Some _, Some _) \<Rightarrow>
          if a \<le> 0 then None
          else let entry = b_close (pw_bar last1)
               in if e50 > e200 \<and> pm \<le> ps \<and> m > s then Some (default_levels entry a ''LONG'')
                  else if e50 < e200 \<and> pm \<ge> ps \<and> m < s then Some (default_levels entry a ''SHORT'') else None
      | _ \<Rightarrow> None)"

definition precompute_ema_structure :: "pandas_series \<Rightarrow> bar list \<Rightarrow> prepared_row list" where
  "precompute_ema_structure P df =
     add_column ''_atr_14'' (atr P df 14) (add_column ''_adx_14'' (adx P df 14) (add_column ''_ema_50'' (ema P (closes df) 50)
       (add_column ''_ema_20'' (ema P (closes df) 20) (add_column ''_ema_9'' (ema P (closes df) 9) (bare df)))))"

definition ema_structure_adx_signal :: "f64 \<Rightarrow> prepared_row list \<Rightarrow> raw_setup option" where
  "ema_structure_adx_signal adx_threshold df =
     (if length df < 55 then None
      else let last1 = row_back 1 df; prev = row_back 2 df
      in case (pw_col last1 ''_ema_9'', pw_col last1 ''_ema_20'', pw_col last1 ''_ema_50'', pw_col last1 ''_adx_14'', pw_col last1 ''_atr_14'',
               pw_col prev ''_ema_9'', pw_col prev ''_ema_20'', pw_col prev ''_ema_50'', pw_col prev ''_adx_14'', pw_col prev ''_atr_14'') of
        (Some e9, Some e20, Some e50, Some x, Some a, Some _, Some p20, Some _, Some _, Some _) \<Rightarrow>
          if a \<le> 0 \<or> x < adx_threshold then None
          else let entry = b_close (pw_bar last1)
               in if e9 > e20 \<and> e20 > e50 \<and> b_low (pw_bar prev) \<le> p20 \<and> entry > e20 then Some (default_levels entry a ''LONG'')
                  else if e9 < e20 \<and> e20 < e50 \<and> b_high (pw_bar prev) \<ge> p20 \<and> entry < e20 then Some (default_levels entry a ''SHORT'') else None
      | _ \<Rightarrow> None)"

definition precompute_atr_volatility_breakout :: "pandas_series \<Rightarrow> bar list \<Rightarrow> prepared_row list" where
  "precompute_atr_volatility_breakout P df =
     (let bands = bollinger_bands P (closes df) 20 2;
          width = both fdiv (both fsub (fst bands) (snd (snd bands))) (nonzero (fst (snd bands)))
      in add_column ''_atr_14'' (atr P df 14) (add_column ''_bb_width_pctile'' (ps_rolling_rank P 50 width) (add_column ''_bb_width'' width
           (add_column ''_bb_lower'' (snd (snd bands)) (add_column ''_bb_upper'' (fst bands) (bare df))))))"

definition atr_volatility_breakout_signal :: "f64 \<Rightarrow> nat \<Rightarrow> prepared_row list \<Rightarrow> raw_setup option" where
  "atr_volatility_breakout_signal squeeze_pctile atr_lookback df =
     (if length df < 55 then None
      else let last1 = row_back 1 df; prev = row_back 2 df
      in case (pw_col last1 ''_bb_upper'', pw_col last1 ''_bb_lower'', pw_col last1 ''_bb_width_pctile'', pw_col last1 ''_atr_14'',
               pw_col prev ''_bb_upper'', pw_col prev ''_bb_lower'', pw_col prev ''_bb_width_pctile'', pw_col prev ''_atr_14'',
               if length df < atr_lookback + 1 then None else pw_col (row_back (1 + atr_lookback) df) ''_atr_14'') of
        (Some upper, Some lower, Some _, Some a, Some _, Some _, Some pctile, Some _, Some earlier) \<Rightarrow>
          if a \<le> 0 \<or> \<not> (pctile \<le> squeeze_pctile \<and> a > earlier) then None
          else let entry = b_close (pw_bar last1)
               in if entry > upper then Some (default_levels entry a ''LONG'')
                  else if entry < lower then Some (default_levels entry a ''SHORT'') else None
      | _ \<Rightarrow> None)"

text \<open>
  The daily trend of a 4h bar: the flag of each day is shifted to the next day's row, and a bar takes the
  row of the last day that began strictly before it (\<open>merge_asof\<close>, backward, no exact match).
\<close>

definition daily_flags :: "pandas_series \<Rightarrow> nat \<Rightarrow> bar list \<Rightarrow> series" where
  "daily_flags P ema_period daily = flag (\<lambda>c e. e < c) (closes daily) (ema P (closes daily) ema_period)"

definition daily_trend_up :: "pandas_series \<Rightarrow> nat \<Rightarrow> bar list \<Rightarrow> datetime \<Rightarrow> f64 option" where
  "daily_trend_up P ema_period df_1d t =
     (let daily = sort_key b_timestamp df_1d;
          lookup = filter (\<lambda>(d, v). v \<noteq> None \<and> d < t) (zip (map b_timestamp daily) (shift 1 (daily_flags P ema_period daily)))
      in if lookup = [] then None else snd (last lookup))"

definition precompute_mtf_trend :: "pandas_series \<Rightarrow> bar list \<Rightarrow> bar list \<Rightarrow> nat \<Rightarrow> prepared_row list" where
  "precompute_mtf_trend P df_4h df_1d breakout_period =
     (let df = sort_key b_timestamp df_4h
      in add_column ''_atr_14'' (atr P df 14) (add_column ''_adx_14'' (adx P df 14)
           (add_column ''_donchian_low'' (ps_rolling_min P breakout_period (lows df))
           (add_column ''_donchian_high'' (ps_rolling_max P breakout_period (highs df))
           (add_column ''_daily_trend_up'' (map (\<lambda>b. daily_trend_up P 50 df_1d (b_timestamp b)) df) (bare df))))))"

definition mtf_trend_signal :: "nat \<Rightarrow> f64 \<Rightarrow> prepared_row list \<Rightarrow> raw_setup option" where
  "mtf_trend_signal breakout_period adx_threshold df =
     (if length df < breakout_period + 20 then None
      else let last1 = row_back 1 df; prev = row_back 2 df
      in case (pw_col last1 ''_adx_14'', pw_col last1 ''_atr_14'', pw_col prev ''_donchian_high'', pw_col prev ''_donchian_low'',
               pw_col last1 ''_daily_trend_up'') of
        (Some x, Some a, Some high, Some low, Some up) \<Rightarrow>
          if a \<le> 0 \<or> x < adx_threshold then None
          else let entry = b_close (pw_bar last1)
               in if up \<noteq> 0 \<and> entry > high then Some (default_levels entry a ''LONG'')
                  else if \<not> up \<noteq> 0 \<and> entry < low then Some (default_levels entry a ''SHORT'') else None
      | _ \<Rightarrow> None)"

section \<open>S11, S12 and the later candidates\<close>

definition precompute_zscore_reversion :: "nat \<Rightarrow> pandas_series \<Rightarrow> bar list \<Rightarrow> prepared_row list" where
  "precompute_zscore_reversion period P df =
     (let roll_mean = ps_rolling_mean P period (closes df); roll_std = ps_rolling_std P period (closes df)
      in add_column ''_atr_14'' (atr P df 14) (add_column ''_zscore'' (both fdiv (both fsub (closes df) roll_mean) (nonzero roll_std)) (bare df)))"

definition zscore_reversion_signal :: "f64 \<Rightarrow> prepared_row list \<Rightarrow> raw_setup option" where
  "zscore_reversion_signal z_entry df =
     (if length df < 55 then None
      else let last1 = row_back 1 df; prev = row_back 2 df
      in case (pw_col last1 ''_zscore'', pw_col prev ''_zscore'', pw_col last1 ''_atr_14'') of
        (Some z, Some pz, Some a) \<Rightarrow>
          if a \<le> 0 then None
          else let entry = b_close (pw_bar last1)
               in if pz < - z_entry \<and> z > pz then Some (atr_sl_tp entry a ''LONG'' (3/2) (1, 2, 3))
                  else if pz > z_entry \<and> z < pz then Some (atr_sl_tp entry a ''SHORT'' (3/2) (1, 2, 3)) else None
      | _ \<Rightarrow> None)"

definition precompute_structure_retest :: "nat \<Rightarrow> pandas_series \<Rightarrow> bar list \<Rightarrow> prepared_row list" where
  "precompute_structure_retest swing_period P df =
     add_column ''_atr_14'' (atr P df 14) (add_column ''_swing_low'' (ps_rolling_min P swing_period (lows df))
       (add_column ''_swing_high'' (ps_rolling_max P swing_period (highs df)) (bare df)))"

definition structure_retest_signal :: "nat \<Rightarrow> f64 \<Rightarrow> prepared_row list \<Rightarrow> raw_setup option" where
  "structure_retest_signal lookback_break retest_atr_mult df =
     (if length df < lookback_break + 30 then None
      else let last1 = row_back 1 df; level = row_back (lookback_break + 2) df;
               window = take lookback_break (drop (length df - (lookback_break + 1)) df)
      in case (pw_col last1 ''_atr_14'', pw_col level ''_swing_high'', pw_col level ''_swing_low'') of
        (Some a, Some prior_high, Some prior_low) \<Rightarrow>
          if a \<le> 0 then None
          else let entry = b_close (pw_bar last1); above = fsub entry prior_high; below = fsub prior_low entry
               in if list_ex (\<lambda>r. b_close (pw_bar r) > prior_high) window \<and> 0 \<le> above \<and> above \<le> fmul retest_atr_mult a
                  then Some (default_levels entry a ''LONG'')
                  else if list_ex (\<lambda>r. b_close (pw_bar r) < prior_low) window \<and> 0 \<le> below \<and> below \<le> fmul retest_atr_mult a
                  then Some (default_levels entry a ''SHORT'') else None
      | _ \<Rightarrow> None)"

definition precompute_kama_trend :: "nat \<Rightarrow> pandas_series \<Rightarrow> bar list \<Rightarrow> prepared_row list" where
  "precompute_kama_trend period P df =
     add_column ''_atr_14'' (atr P df 14) (add_column ''_kama'' (kama P (closes df) period 2 30) (bare df))"

definition kama_trend_signal :: "nat \<Rightarrow> prepared_row list \<Rightarrow> raw_setup option" where
  "kama_trend_signal flat_bars df =
     (if length df < 40 then None
      else let last1 = row_back 1 df; prev = row_back 2 df
      in case (pw_col last1 ''_kama'', pw_col prev ''_kama'', pw_col last1 ''_atr_14'',
               if length df < flat_bars + 1 then None else pw_col (row_back (1 + flat_bars) df) ''_kama'') of
        (Some k, Some pk, Some a, Some earlier) \<Rightarrow>
          if a \<le> 0 then None
          else let entry = b_close (pw_bar last1); slope = fsub k earlier
               in if b_close (pw_bar prev) \<le> pk \<and> entry > k \<and> slope > 0 then Some (default_levels entry a ''LONG'')
                  else if b_close (pw_bar prev) \<ge> pk \<and> entry < k \<and> slope < 0 then Some (default_levels entry a ''SHORT'') else None
      | _ \<Rightarrow> None)"

definition precompute_range_expansion_breakout :: "nat \<Rightarrow> pandas_series \<Rightarrow> bar list \<Rightarrow> prepared_row list" where
  "precompute_range_expansion_breakout range_period P df =
     (let tr = true_range df
      in add_column ''_atr_14'' (atr P df 14) (add_column ''_range_low'' (ps_rolling_min P range_period (lows df))
           (add_column ''_range_high'' (ps_rolling_max P range_period (highs df))
           (add_column ''_tr_ratio'' (both fdiv tr (nonzero (ps_rolling_mean P 20 tr))) (bare df)))))"

definition range_expansion_breakout_signal :: "f64 \<Rightarrow> prepared_row list \<Rightarrow> raw_setup option" where
  "range_expansion_breakout_signal tr_ratio_mult df =
     (if length df < 30 then None
      else let last1 = row_back 1 df; prev = row_back 2 df
      in case (pw_col last1 ''_tr_ratio'', pw_col last1 ''_range_high'', pw_col last1 ''_range_low'', pw_col last1 ''_atr_14'',
               pw_col prev ''_range_high'', pw_col prev ''_range_low'') of
        (Some ratio, Some _, Some _, Some a, Some high, Some low) \<Rightarrow>
          if a \<le> 0 \<or> ratio < tr_ratio_mult then None
          else let entry = b_close (pw_bar last1)
               in if entry > high then Some (default_levels entry a ''LONG'')
                  else if entry < low then Some (default_levels entry a ''SHORT'') else None
      | _ \<Rightarrow> None)"

definition precompute_hma_trend :: "nat \<Rightarrow> pandas_series \<Rightarrow> bar list \<Rightarrow> prepared_row list" where
  "precompute_hma_trend period P df =
     add_column ''_atr_14'' (atr P df 14) (add_column ''_hma'' (hma P (closes df) period) (bare df))"

definition hma_trend_signal :: "prepared_row list \<Rightarrow> raw_setup option" where
  "hma_trend_signal df =
     (if length df < 40 then None
      else let last1 = row_back 1 df; prev = row_back 2 df
      in case (pw_col last1 ''_hma'', pw_col prev ''_hma'', pw_col last1 ''_atr_14'') of
        (Some h, Some ph, Some a) \<Rightarrow>
          if a \<le> 0 then None
          else let entry = b_close (pw_bar last1); rising = (h > ph)
               in if b_close (pw_bar prev) \<le> ph \<and> entry > h \<and> rising then Some (default_levels entry a ''LONG'')
                  else if b_close (pw_bar prev) \<ge> ph \<and> entry < h \<and> \<not> rising then Some (default_levels entry a ''SHORT'') else None
      | _ \<Rightarrow> None)"

section \<open>The registry\<close>

record multi_strategy =
  mx_display_name :: string
  mx_timeframe :: string
  mx_precompute :: "(pandas_series \<Rightarrow> bar list \<Rightarrow> prepared_row list) option"
  mx_signal :: "prepared_row list \<Rightarrow> raw_setup option"

definition multi :: "string \<Rightarrow> string \<Rightarrow> (pandas_series \<Rightarrow> bar list \<Rightarrow> prepared_row list) option \<Rightarrow> (prepared_row list \<Rightarrow> raw_setup option) \<Rightarrow> multi_strategy" where
  "multi name tf pre sig = \<lparr>mx_display_name = name, mx_timeframe = tf, mx_precompute = pre, mx_signal = sig\<rparr>"

definition MULTI_STRATEGIES :: "(string \<times> multi_strategy) list" where
  "MULTI_STRATEGIES =
    [(''S01_MOMENTUM_BREAKOUT_15M'', multi ''Momentum / Volatility Breakout'' ''15m'' (Some (precompute_momentum_breakout 20)) (momentum_breakout_signal 20 (3/2) 5)),
     (''S02_EMA_PULLBACK_15M'', multi ''EMA Pullback / Trend Continuation'' ''15m'' (Some precompute_ema_pullback) (ema_pullback_signal 40 60)),
     (''S03_VWAP_REVERSION_15M'', multi ''VWAP Mean Reversion'' ''15m'' (Some precompute_vwap_reversion) (vwap_reversion_signal (5/2))),
     (''S04_RSI_BB_15M'', multi ''RSI + Bollinger Momentum/Reversal'' ''15m'' (Some precompute_rsi_bollinger) (rsi_bollinger_signal 30 70)),
     (''S06_SUPERTREND_ATR_4H'', multi ''Supertrend + ATR'' ''4h'' (Some (precompute_supertrend 10 3)) supertrend_signal),
     (''S07_MACD_MOMENTUM_4H'', multi ''MACD Trend Momentum'' ''4h'' (Some precompute_macd_momentum) macd_momentum_signal),
     (''S08_EMA_ADX_4H'', multi ''EMA Structure + ADX'' ''4h'' (Some precompute_ema_structure) (ema_structure_adx_signal 20)),
     (''S09_ATR_BREAKOUT_4H'', multi ''ATR Volatility Breakout'' ''4h'' (Some precompute_atr_volatility_breakout) (atr_volatility_breakout_signal (1/4) 3)),
     (''S10_MTF_TREND_4H'', multi ''Multi-Timeframe Trend Confirmation'' ''4h'' None (mtf_trend_signal 20 20)),
     (''S11_ZSCORE_REVERSION_15M'', multi ''Z-Score Mean Reversion'' ''15m'' (Some (precompute_zscore_reversion 50)) (zscore_reversion_signal 2)),
     (''S12_STRUCTURE_RETEST_4H'', multi ''Structure Breakout + Retest'' ''4h'' (Some (precompute_structure_retest 20)) (structure_retest_signal 8 (3/4))),
     (''V3_KAMA_TREND_4H'', multi ''KAMA Adaptive Trend'' ''4h'' (Some (precompute_kama_trend 10)) (kama_trend_signal 3)),
     (''V3_RANGE_EXPANSION_4H'', multi ''Range Expansion Breakout'' ''4h'' (Some (precompute_range_expansion_breakout 20)) (range_expansion_breakout_signal 2)),
     (''V3_HMA_TREND_4H'', multi ''Hull MA Trend'' ''4h'' (Some (precompute_hma_trend 15)) hma_trend_signal)]"

section \<open>No look-ahead\<close>

lemma causal_frame [causal_intros]:
  "causal f \<Longrightarrow> causal (\<lambda>xs. bare (f xs))"
  "causal s \<Longrightarrow> causal f' \<Longrightarrow> causal (\<lambda>xs. add_column name (s xs) (f' xs))"
  unfolding bare_def add_column_def by (intro causal_intros; assumption)+

lemmas prepared_defs = precompute_momentum_breakout_def precompute_ema_pullback_def precompute_vwap_reversion_def
  precompute_rsi_bollinger_def precompute_supertrend_def precompute_macd_momentum_def precompute_ema_structure_def
  precompute_atr_volatility_breakout_def precompute_zscore_reversion_def precompute_structure_retest_def precompute_kama_trend_def
  precompute_range_expansion_breakout_def precompute_hma_trend_def

lemma causal_precompute:
  assumes "trailing P"
  shows "causal (precompute_momentum_breakout k P)" "causal (precompute_ema_pullback P)" "causal (precompute_vwap_reversion P)"
    "causal (precompute_rsi_bollinger P)" "causal (precompute_supertrend k m P)" "causal (precompute_macd_momentum P)"
    "causal (precompute_ema_structure P)" "causal (precompute_atr_volatility_breakout P)" "causal (precompute_zscore_reversion k P)"
    "causal (precompute_structure_retest k P)" "causal (precompute_kama_trend k P)" "causal (precompute_range_expansion_breakout k P)"
    "causal (precompute_hma_trend k P)"
  unfolding prepared_defs Let_def
  by (intro causal_intros causal_indicators causal_windows causal_true_range assms)+

lemma registry_precompute:
  assumes "(sid, m) \<in> set MULTI_STRATEGIES" "mx_precompute m = Some pre" "trailing P"
  shows "causal (pre P)"
  using assms causal_precompute [OF assms(3)] by (auto simp: MULTI_STRATEGIES_def multi_def)

text \<open>
  C17: No strategy of the registry looks ahead: for each one that prepares its columns on the whole history, the
  set-up that is found on the first k prepared rows, as a backtest does, is the one that is found when only
  the first k candles are known and prepared, as the live engine does.
\<close>
theorem prepared_history_is_live:
  assumes "(sid, m) \<in> set MULTI_STRATEGIES" "mx_precompute m = Some pre" "trailing P"
  shows "mx_signal m (take k (pre P df)) = mx_signal m (pre P (take k df))"
  using registry_precompute [OF assms] by (simp add: causal_take)

text \<open>Windows to evaluate the strategies with: pandas' weighted mean, and statistics of the last \<open>k\<close> rows.\<close>

fun ewm_scan :: "f64 \<Rightarrow> nat \<Rightarrow> f64 \<times> f64 \<Rightarrow> series \<Rightarrow> series" where
  "ewm_scan alpha n aw [] = []"
| "ewm_scan alpha n (avg, w) (x # xs) =
     (let w1 = fmul w (fsub 1 alpha);
          avg1 = (case x of None \<Rightarrow> avg | Some v \<Rightarrow> fdiv (fadd (fmul w1 avg) v) (fadd w1 1))
      in (if n \<le> 1 then Some avg1 else None) # ewm_scan alpha (n - 1) (avg1, fadd w1 1) xs)"

definition rolling :: "(f64 list \<Rightarrow> f64) \<Rightarrow> nat \<Rightarrow> series \<Rightarrow> series" where
  "rolling g k xs = map (\<lambda>i. let w = drop (i + 1 - k) (take (i + 1) xs) in if length w < k \<or> None \<in> set w then None else Some (g (map the w)))
     [0..<length xs]"

definition list_max :: "f64 list \<Rightarrow> f64" where "list_max ws = foldr max ws (hd ws)"

definition list_min :: "f64 list \<Rightarrow> f64" where "list_min ws = foldr min ws (hd ws)"

definition sample_windows :: pandas_series where
  "sample_windows =
     \<lparr>ps_ewm_span = \<lambda>k. ewm_scan (fdiv 2 (of_nat k + 1)) 0 (0, 0), ps_ewm_alpha = \<lambda>k. ewm_scan (fdiv 1 (of_nat k)) k (0, 0),
      ps_rolling_mean = rolling (\<lambda>w. fdiv (fsum w) (of_nat (length w))), ps_rolling_std = rolling (\<lambda>w. fsub (list_max w) (list_min w)),
      ps_rolling_max = rolling list_max, ps_rolling_min = rolling list_min, ps_rolling_sum = rolling fsum,
      ps_rolling_rank = rolling (\<lambda>w. fdiv (of_nat (length (filter (\<lambda>v. v \<le> last w) w))) (of_nat (length w))),
      ps_rolling_wma = rolling last, ps_cumsum = \<lambda>xs. rolling fsum 1 xs, ps_cumsum_by = map snd\<rparr>"

lemma causal_rolling: "causal (rolling g k)"
  by (auto simp: causal_def rolling_def take_map min_def take_upt intro!: map_cong)

lemma ewm_scan_take: "ewm_scan alpha n aw (take j xs) = take j (ewm_scan alpha n aw xs)"
proof (induction j arbitrary: n aw xs)
  case (Suc j)
  then show ?case by (cases xs; cases aw) (auto simp: Let_def)
qed simp

lemma causal_ewm: "causal (ewm_scan alpha n aw)"
proof -
  have "length (ewm_scan alpha n aw xs) = length xs" for xs
    by (induction alpha n aw xs rule: ewm_scan.induct) (simp_all add: Let_def)
  then show ?thesis by (simp add: causal_def ewm_scan_take)
qed

lemma sample_trailing: "trailing sample_windows"
  using causal_rolling causal_ewm causal_map [OF causal_id] by (simp add: trailing_def sample_windows_def)

definition flat_bar :: "f64 \<Rightarrow> bar" where
  "flat_bar c = \<lparr>b_timestamp = 0, b_open = c, b_high = c, b_low = c, b_close = c, b_volume = 1\<rparr>"

theorem prepared_history_is_live_witness:
  "hma_trend_signal (take 2 (precompute_hma_trend 15 sample_windows (map flat_bar [100, 101, 99]))) =
   hma_trend_signal (precompute_hma_trend 15 sample_windows (map flat_bar [100, 101]))"
proof -
  let ?m = "multi ''Hull MA Trend'' ''4h'' (Some (precompute_hma_trend 15)) hma_trend_signal"
  have "(''V3_HMA_TREND_4H'', ?m) \<in> set MULTI_STRATEGIES" by (simp add: MULTI_STRATEGIES_def)
  then show ?thesis
    using prepared_history_is_live [OF _ _ sample_trailing, of "''V3_HMA_TREND_4H''" ?m "precompute_hma_trend 15" 2 "map flat_bar [100, 101, 99]"]
    by (simp add: multi_def numeral_2_eq_2)
qed

section \<open>Levels\<close>

text \<open>The stop is not beyond the entry, and no target is behind it.\<close>

definition sided :: "f64 \<Rightarrow> raw_setup \<Rightarrow> bool" where
  "sided entry r \<longleftrightarrow>
     (let targets = List.map_filter (\<lambda>t. t) [rw_take_profit_1 r, rw_take_profit_2 r, rw_take_profit_3 r]
      in if rw_signal_type r = ''LONG'' then pred_option (\<lambda>s. s \<le> entry) (rw_stop_loss r) \<and> list_all (\<lambda>t. entry \<le> t) targets
         else rw_signal_type r = ''SHORT'' \<and> pred_option (\<lambda>s. entry \<le> s) (rw_stop_loss r) \<and> list_all (\<lambda>t. t \<le> entry) targets)"

lemma sided_atr:
  assumes "fl e = e" "0 < a" "0 \<le> k" "0 \<le> m1" "0 \<le> m2" "0 \<le> m3" "side = ''LONG'' \<or> side = ''SHORT''"
  shows "sided e (atr_sl_tp e a side k (m1, m2, m3))"
proof -
  have up: "e \<le> fadd e (fmul m a)" and down: "fsub e (fmul m a) \<le> e" if "0 \<le> m" for m
  proof -
    have "0 \<le> fmul m a" using that assms(2) by (simp add: fmul_nonneg)
    then show "e \<le> fadd e (fmul m a)" "fsub e (fmul m a) \<le> e"
      using fl_mono [of e "e + fmul m a"] fl_mono [of "e - fmul m a" e] by (simp_all add: fadd_def fsub_def assms(1))
  qed
  show ?thesis using assms(3-7) by (auto simp: sided_def atr_sl_tp_def found_def up down map_filter_simps)
qed

lemma sided_default: "fl e = e \<Longrightarrow> 0 < a \<Longrightarrow> sided e (default_levels e a ''LONG'') \<and> sided e (default_levels e a ''SHORT'')"
  by (simp add: default_levels_def sided_atr)

text \<open>The set-ups of a strategy that has the usual levels, at the close of the last row.\<close>

definition at_default :: "(prepared_row list \<Rightarrow> raw_setup option) \<Rightarrow> bool" where
  "at_default sig \<longleftrightarrow> (\<forall>df r. sig df = Some r \<longrightarrow>
     (\<exists>a > 0. r = default_levels (b_close (pw_bar (row_back 1 df))) a ''LONG'' \<or> r = default_levels (b_close (pw_bar (row_back 1 df))) a ''SHORT''))"

lemma at_default_signals:
  "at_default (momentum_breakout_signal n v k)" "at_default (ema_pullback_signal f c)" "at_default macd_momentum_signal"
  "at_default (ema_structure_adx_signal t)" "at_default (atr_volatility_breakout_signal f k)" "at_default (mtf_trend_signal n t)"
  "at_default (structure_retest_signal n f)" "at_default (kama_trend_signal n)" "at_default (range_expansion_breakout_signal f)"
  "at_default hma_trend_signal"
  unfolding at_default_def
  by (force simp: momentum_breakout_signal_def ema_pullback_signal_def macd_momentum_signal_def ema_structure_adx_signal_def
        atr_volatility_breakout_signal_def mtf_trend_signal_def structure_retest_signal_def kama_trend_signal_def
        range_expansion_breakout_signal_def hma_trend_signal_def Let_def not_le split: if_splits option.splits)+

lemma sided_vwap:
  assumes "vwap_reversion_signal k df = Some r" "fl e = e" "e = b_close (pw_bar (row_back 1 df))" "0 \<le> k"
  shows "sided e r"
proof -
  have shifted: "x \<le> e \<Longrightarrow> fsub x (fmul c a) \<le> e" "e \<le> x \<Longrightarrow> e \<le> fadd x (fmul c a)" if "0 < a" "0 \<le> c" for a c x
    using that fmul_nonneg [of c a] fl_mono [of "x - fmul c a" e] fl_mono [of e "x + fmul c a"]
    by (simp_all add: fadd_def fsub_def assms(2))
  have order: "e < v" if "fsub e v < - fmul k a" "0 < a" for v a
    using that fsub_nonneg [of v e] fmul_nonneg [of k a] assms(4) by force
  have order': "v < e" if "fmul k a < fsub e v" "0 < a" for v a
    using that fsub_nonpos [of e v] fmul_nonneg [of k a] assms(4) by force
  have e: "b_close (pw_bar (row_back (Suc 0) df)) = e" by (simp add: assms(3))
  show ?thesis using assms(1)
    by (auto simp: vwap_reversion_signal_def Let_def sided_def found_def map_filter_simps not_le e shifted assms(2)
          dest!: order order' split: if_splits option.splits)
qed

lemma sided_zscore:
  assumes "zscore_reversion_signal k df = Some r" "fl e = e" "e = b_close (pw_bar (row_back 1 df))"
  shows "sided e r"
  using assms by (auto simp: zscore_reversion_signal_def Let_def not_le intro!: sided_atr split: if_splits option.splits)

lemma registry_signals:
  "list_all (\<lambda>(sid, m). sid = ''S04_RSI_BB_15M'' \<or> sid = ''S06_SUPERTREND_ATR_4H'' \<or> at_default (mx_signal m) \<or>
     mx_signal m = vwap_reversion_signal (5/2) \<or> mx_signal m = zscore_reversion_signal 2) MULTI_STRATEGIES"
  by (simp add: MULTI_STRATEGIES_def multi_def at_default_signals)

text \<open>
  Apart from S04 and S06, each strategy of the registry puts its levels on the right side of the price: the
  set-up is a LONG or a SHORT at the close of the last row, its stop is not beyond that price and
  none of its targets is behind it, whatever the candles and the indicator values.
\<close>
theorem strategy_levels_sided:
  assumes "(sid, m) \<in> set MULTI_STRATEGIES" "sid \<noteq> ''S04_RSI_BB_15M''" "sid \<noteq> ''S06_SUPERTREND_ATR_4H''"
    "mx_signal m df = Some r" "fl (b_close (pw_bar (row_back 1 df))) = b_close (pw_bar (row_back 1 df))"
  shows "sided (b_close (pw_bar (row_back 1 df))) r"
proof -
  consider "at_default (mx_signal m)" | "mx_signal m = vwap_reversion_signal (5/2)" | "mx_signal m = zscore_reversion_signal 2"
    using registry_signals assms(1-3) by (fastforce simp: list_all_iff)
  then show ?thesis
  proof cases
    case 1
    then show ?thesis using assms(4) sided_default [OF assms(5)] by (auto simp: at_default_def)
  next
    case 2
    then show ?thesis using sided_vwap [OF _ assms(5) refl, of "5/2"] assms(4) by simp
  next
    case 3
    then show ?thesis using sided_zscore [OF _ assms(5) refl, of 2] assms(4) by simp
  qed
qed

theorem strategy_levels_sided_witness:
  "sided 100 (atr_sl_tp 100 1 ''LONG'' (3/2) (1, 2, 3))"
proof -
  let ?row = "\<lambda>z. \<lparr>pw_bar = \<lparr>b_timestamp = 0, b_open = 100, b_high = 101, b_low = 99, b_close = 100, b_volume = 1\<rparr>,
     pw_col = [''_zscore'' \<mapsto> z, ''_atr_14'' \<mapsto> 1]\<rparr>"
  let ?df = "replicate 54 (?row (- 3)) @ [?row (- 2)]"
  let ?m = "multi ''Z-Score Mean Reversion'' ''15m'' (Some (precompute_zscore_reversion 50)) (zscore_reversion_signal 2)"
  have rows: "row_back (Suc 0) ?df = ?row (- 2)" "row_back 2 ?df = ?row (- 3)" by (simp_all add: row_back_def nth_append)
  have found: "mx_signal ?m ?df = Some (atr_sl_tp 100 1 ''LONG'' (3/2) (1, 2, 3))"
    by (simp add: multi_def zscore_reversion_signal_def Let_def rows)
  show ?thesis
    using strategy_levels_sided [OF _ _ _ found, of "''S11_ZSCORE_REVERSION_15M''"] by (simp add: rows fl_numeral MULTI_STRATEGIES_def)
qed

lemma column_lengths: "length (add_column name s rows) = min (length rows) (length s)" "length (bare df) = length df"
  by (simp_all add: add_column_def bare_def)

lemma row_back_columns:
  "0 < k \<Longrightarrow> k \<le> length rows \<Longrightarrow> length s = length rows \<Longrightarrow> row_back k (add_column name s rows) =
     (row_back k rows)\<lparr>pw_col := (pw_col (row_back k rows))(name := s ! (length s - k))\<rparr>"
  "0 < k \<Longrightarrow> k \<le> length df \<Longrightarrow> row_back k (bare df) = \<lparr>pw_bar = df ! (length df - k), pw_col = \<lambda>_. None\<rparr>"
  by (simp_all add: row_back_def add_column_def bare_def)

lemma butlast_last: "length xs = Suc n \<Longrightarrow> last xs = x \<Longrightarrow> xs = butlast xs @ [x]"
  by (cases xs rule: rev_cases) auto

lemma supertrend_scan_snoc:
  "supertrend_scan m q (xs @ [x]) =
     (let rs = supertrend_scan m q xs in rs @ [supertrend_next m (if rs = [] then q else Some (last rs)) x])"
  by (induction xs arbitrary: q) (auto simp: Let_def)

lemma basic_bands_ordered: "0 \<le> m \<Longrightarrow> 0 \<le> a \<Longrightarrow> snd (basic_bands m b a) \<le> fst (basic_bands m b a)"
  using fmul_nonneg [of m a] by (simp add: basic_bands_def Let_def fadd_def fsub_def fl_mono)

lemma supertrend_flips_up:
  assumes "\<not> sx_up p" "sx_upper p = Some u" "sx_lower p = Some l" "sx_close p \<le> u" "0 \<le> m" "0 \<le> a"
    "u < b_close b" "b_close b < snd (basic_bands m b a)"
  shows "sx_up (supertrend_next m (Some p) (b, Some a))"
    "\<exists>s. sx_line (supertrend_next m (Some p) (b, Some a)) = Some s \<and> b_close b < s"
proof -
  obtain upper lower where bands: "basic_bands m b a = (upper, lower)" by fastforce
  then have "\<not> upper < u" using basic_bands_ordered [OF assms(5,6), of b] assms(7,8) by simp
  then have "sx_up (supertrend_next m (Some p) (b, Some a)) \<and>
      sx_line (supertrend_next m (Some p) (b, Some a)) = Some (if lower > l \<or> sx_close p < l then lower else l)"
    using assms(1-4,7) by (simp add: supertrend_next_def bands Let_def)
  then show "sx_up (supertrend_next m (Some p) (b, Some a))"
    "\<exists>s. sx_line (supertrend_next m (Some p) (b, Some a)) = Some s \<and> b_close b < s"
    using assms(8) by (auto simp: bands)
qed

text \<open>
  The stop of Supertrend's LONG can lie above the price: if the last bar closes above the upper band, which turns
  the direction up, and is so wide that its close is still below its own lower basic band, then that
  band becomes the line, and the set-up has it as its stop.
\<close>
theorem supertrend_stop_above_entry:
  assumes "trailing P" "14 \<le> length bs" "p = last (supertrend_scan 3 None (zip bs (butlast (atr P (bs @ [b]) 10))))"
    "\<not> sx_up p" "sx_upper p = Some u" "sx_lower p = Some l" "sx_close p \<le> u"
    "last (atr P (bs @ [b]) 10) = Some a" "0 \<le> a" "last (atr P (bs @ [b]) 14) = Some a'" "0 < a'"
    "u < b_close b" "b_close b < snd (basic_bands 3 b a)"
  shows "\<exists>r s. supertrend_signal (precompute_supertrend 10 3 P (bs @ [b])) = Some r \<and> rw_signal_type r = ''LONG'' \<and>
    rw_stop_loss r = Some s \<and> b_close b < s"
proof -
  let ?df = "bs @ [b]" and ?rows = "supertrend_scan 3 None (zip bs (butlast (atr P (bs @ [b]) 10)))"
  let ?r = "supertrend_next 3 (Some p) (b, Some a)"
  obtain s where flip: "sx_up ?r" "sx_line ?r = Some s" "b_close b < s"
    using supertrend_flips_up [OF assms(4-7) _ assms(9,12,13)] by auto
  have len: "length (atr P ?df k) = Suc (length bs)" for k
    using causal_length [OF causal_atr [OF assms(1) causal_id]] by simp
  then have last: "atr P ?df 10 = butlast (atr P ?df 10) @ [Some a]" "atr P ?df 14 = butlast (atr P ?df 14) @ [Some a']"
    using butlast_last [OF len assms(8)] butlast_last [OF len assms(10)] by simp_all
  have lrows: "length ?rows = length bs" by (simp add: scan_length len)
  have "zip ?df (atr P ?df 10) = zip bs (butlast (atr P ?df 10)) @ [(b, Some a)]"
    by (subst last(1)) (simp add: len)
  then have scan: "supertrend_scan 3 None (zip ?df (atr P ?df 10)) = ?rows @ [?r]"
    using assms(2,3) lrows by (auto simp: supertrend_scan_snoc Let_def)
  have st: "supertrend P ?df 10 3 = (map sx_line ?rows @ [Some s], map (\<lambda>r. Some (if sx_up r then 1 else - 1)) ?rows @ [Some 1])"
    unfolding supertrend_def Let_def scan by (simp add: flip)
  have p: "map (\<lambda>r. Some (if sx_up r then 1 else - 1)) ?rows ! (length bs - Suc 0) = Some (- 1 :: f64)"
  proof -
    have "?rows \<noteq> []" using assms(2) lrows by auto
    then show ?thesis using assms(2-4) lrows by (simp add: last_conv_nth)
  qed
  have a': "atr P ?df 14 ! length bs = Some a'" by (subst last(2)) (simp add: nth_append len)
  have "pw_bar (row_back 1 (precompute_supertrend 10 3 P ?df)) = b \<and>
     pw_col (row_back 1 (precompute_supertrend 10 3 P ?df)) ''_st_dir'' = Some 1 \<and>
     pw_col (row_back 1 (precompute_supertrend 10 3 P ?df)) ''_st_line'' = Some s \<and>
     pw_col (row_back 1 (precompute_supertrend 10 3 P ?df)) ''_atr_14'' = Some a' \<and>
     pw_col (row_back 2 (precompute_supertrend 10 3 P ?df)) ''_st_dir'' = Some (- 1) \<and>
     length (precompute_supertrend 10 3 P ?df) = Suc (length bs)"
    using p a' lrows len assms(2) unfolding precompute_supertrend_def Let_def st
    by (simp add: row_back_columns column_lengths nth_append)
  then show ?thesis using assms(2,11) flip by (auto simp: supertrend_signal_def Let_def found_def)
qed

lemma last_supertrend_scan:
  "last (supertrend_scan m q (x # xs)) = foldl (\<lambda>p. supertrend_next m (Some p)) (supertrend_next m q x) xs"
  by (induction xs arbitrary: q x) (simp_all add: Let_def)

definition quiet_market :: "bar list" where "quiet_market = replicate 10 (flat_bar 100) @ replicate 5 (flat_bar 90)"

definition wide_bar :: bar where "wide_bar = (flat_bar 92)\<lparr>b_high := 200, b_close := 95\<rparr>"

definition mean_windows :: pandas_series where
  "mean_windows = sample_windows\<lparr>ps_ewm_alpha := rolling (\<lambda>w. fdiv (fsum w) (of_nat (length w)))\<rparr>"

lemma quiet_market_atr:
  "atr mean_windows (quiet_market @ [wide_bar]) 10 = replicate 9 None @ [Some 0, Some 1, Some 1, Some 1, Some 1, Some 1, Some 12]"
  "last (atr mean_windows (quiet_market @ [wide_bar]) 14) = Some (fdiv 120 14)"
proof -
  have tr: "true_range (quiet_market @ [wide_bar]) = replicate 10 (Some 0) @ Some 10 # replicate 4 (Some 0) @ [Some 110]"
    by (simp add: true_range_def quiet_market_def wide_bar_def flat_bar_def Let_def highs_def lows_def closes_def shift_def both_def
          each_def row_max_def eval_nat_numeral fsub_def fl_numeral fl_minus)
  show "atr mean_windows (quiet_market @ [wide_bar]) 10 = replicate 9 None @ [Some 0, Some 1, Some 1, Some 1, Some 1, Some 1, Some 12]"
    by (simp add: atr_def tr mean_windows_def rolling_def eval_nat_numeral fsum_def fadd_def fdiv_def fl_numeral)
  show "last (atr mean_windows (quiet_market @ [wide_bar]) 14) = Some (fdiv 120 14)"
    by (simp add: atr_def tr mean_windows_def rolling_def eval_nat_numeral fsum_def fadd_def fl_numeral)
qed

lemma quiet_market_trend:
  "last (supertrend_scan 3 None (zip quiet_market (butlast (atr mean_windows (quiet_market @ [wide_bar]) 10)))) =
     \<lparr>sx_upper = Some 93, sx_lower = Some 87, sx_up = False, sx_line = Some 93, sx_close = 90\<rparr>"
proof -
  define row0 where "row0 = \<lparr>sx_upper = None, sx_lower = None, sx_up = True, sx_line = None, sx_close = 100 :: f64\<rparr>"
  define row1 where "row1 = \<lparr>sx_upper = Some 100, sx_lower = Some 100, sx_up = True, sx_line = Some 100, sx_close = 100 :: f64\<rparr>"
  define row2 where "row2 = \<lparr>sx_upper = Some 93, sx_lower = Some 100, sx_up = False, sx_line = Some 93, sx_close = 90 :: f64\<rparr>"
  define row3 where "row3 = \<lparr>sx_upper = Some 93, sx_lower = Some 87, sx_up = False, sx_line = Some 93, sx_close = 90 :: f64\<rparr>"
  have bands: "basic_bands 3 (flat_bar 100) 0 = (100, 100)" "basic_bands 3 (flat_bar 90) 1 = (93, 87)"
    by (simp_all add: basic_bands_def flat_bar_def Let_def fadd_def fsub_def fmul_def fdiv_def fl_numeral)
  have "supertrend_next 3 q (flat_bar 100, None) = row0" for q by (simp add: supertrend_next_def row0_def flat_bar_def)
  moreover have "supertrend_next 3 (Some row0) (flat_bar 100, Some 0) = row1" "supertrend_next 3 (Some row1) (flat_bar 90, Some 1) = row2"
    "supertrend_next 3 (Some row2) (flat_bar 90, Some 1) = row3" "supertrend_next 3 (Some row3) (flat_bar 90, Some 1) = row3"
    by (simp_all add: supertrend_next_def bands Let_def row0_def row1_def row2_def row3_def) (simp_all add: flat_bar_def)
  moreover have "zip quiet_market (butlast (atr mean_windows (quiet_market @ [wide_bar]) 10)) =
      (flat_bar 100, None) # replicate 8 (flat_bar 100, None) @ [(flat_bar 100, Some 0), (flat_bar 90, Some 1), (flat_bar 90, Some 1),
       (flat_bar 90, Some 1), (flat_bar 90, Some 1), (flat_bar 90, Some 1)]"
    unfolding quiet_market_atr(1) by (simp add: quiet_market_def eval_nat_numeral)
  moreover have "foldl (\<lambda>p. supertrend_next 3 (Some p)) row0 (replicate 8 (flat_bar 100, None)) = row0"
    using calculation(1) by (simp add: eval_nat_numeral)
  ultimately have "last (supertrend_scan 3 None (zip quiet_market (butlast (atr mean_windows (quiet_market @ [wide_bar]) 10)))) = row3"
    by (simp add: last_supertrend_scan del: supertrend_scan.simps)
  then show ?thesis by (simp add: row3_def)
qed

theorem supertrend_stop_above_entry_witness:
  "\<exists>r s. supertrend_signal (precompute_supertrend 10 3 mean_windows (quiet_market @ [wide_bar])) = Some r \<and>
     rw_stop_loss r = Some s \<and> 95 < s"
proof -
  have trail: "trailing mean_windows" using sample_trailing causal_rolling by (simp add: trailing_def mean_windows_def)
  have pos: "0 < fdiv 120 14" using fl_mono [of 1 "120 / 14"] by (simp add: fdiv_def)
  have band: "snd (basic_bands 3 wide_bar 12) = 110"
    by (simp add: basic_bands_def wide_bar_def flat_bar_def Let_def fadd_def fsub_def fmul_def fdiv_def fl_numeral)
  have close: "b_close wide_bar = 95" by (simp add: wide_bar_def flat_bar_def)
  have size: "14 \<le> length quiet_market" by (simp add: quiet_market_def)
  have recent: "last (atr mean_windows (quiet_market @ [wide_bar]) 10) = Some 12" unfolding quiet_market_atr(1) by simp
  show ?thesis
    using supertrend_stop_above_entry [OF trail size quiet_market_trend [symmetric] _ _ _ _ recent _ quiet_market_atr(2) pos, of 93 87]
    by (auto simp: band close)
qed

section \<open>The daily trend of S10\<close>

lemma filter_sorted_take:
  assumes "sorted ks" "length ks = length vs"
  shows "filter (\<lambda>(d, v). p v \<and> d < t) (zip ks vs) =
    filter (\<lambda>(d, v). p v) (take (length (takeWhile (\<lambda>d. d < t) ks)) (zip ks vs))"
  using assms(2,1)
proof (induction ks vs rule: list_induct2)
  case (Cons k ks v vs)
  show ?case
  proof (cases "k < t")
    case False
    then have "\<forall>d \<in> set ks. \<not> d < t" using Cons(3) by auto
    then show ?thesis using False by (auto simp: filter_empty_conv dest!: set_zip_leftD)
  qed (use Cons in auto)
qed simp

definition daily_spaced :: "bar list \<Rightarrow> bool" where
  "daily_spaced D \<longleftrightarrow> (\<forall>i. Suc i < length D \<longrightarrow> b_timestamp (D ! i) + day_us \<le> b_timestamp (D ! Suc i))"

lemma daily_spaced_sorted: "daily_spaced D \<Longrightarrow> sorted (map b_timestamp D)"
  by (auto simp: daily_spaced_def sorted_iff_nth_Suc day_us_def)

text \<open>The rows that begin before \<open>t\<close> carry flags of days that are over.\<close>

lemma daily_trend_prefix:
  assumes "trailing P" "daily_spaced D"
  assumes n_def: "n = length (takeWhile (\<lambda>d. d < t) (map b_timestamp D))"
  shows "daily_trend_up P k D t =
    (let lookup = filter (\<lambda>(d, v). v \<noteq> None)
         (zip (take n (map b_timestamp D)) (take n (None # daily_flags P k (take (n - 1) D))))
     in if lookup = [] then None else snd (last lookup))"
proof -
  have causal: "causal (daily_flags P k)"
    unfolding daily_flags_def by (intro causal_intros causal_averages assms(1))
  have len: "length (daily_flags P k D) = length D" using causal by (rule causal_length)
  have n: "n \<le> length D" unfolding n_def using length_takeWhile_le [of _ "map b_timestamp D"] by simp
  have "take n (shift 1 (daily_flags P k D)) = take n (None # daily_flags P k (take (n - 1) D))"
    using n causal_take [OF causal] by (cases n) (simp_all add: shift_def len min_def)
  moreover have "sort_key b_timestamp D = D" using daily_spaced_sorted [OF assms(2)] by (simp add: sort_key_id_if_sorted)
  ultimately show ?thesis
    using filter_sorted_take [OF daily_spaced_sorted [OF assms(2)], of "shift 1 (daily_flags P k D)" "\<lambda>v. v \<noteq> None" t] len
    by (simp add: daily_trend_up_def Let_def shift_def take_zip n_def)
qed

text \<open>
  The daily trend of S10 has no influence from a day that is not over: two daily histories with the same timestamps, one
  day or more apart, that agree on the days that ended at or before t give a bar of time t the same trend.
\<close>
theorem daily_trend_ignores_open_day:
  assumes "trailing P" "daily_spaced D" "map b_timestamp D = map b_timestamp D'"
    "\<And>i. i < length D \<Longrightarrow> b_timestamp (D ! i) + day_us \<le> t \<Longrightarrow> D ! i = D' ! i"
  shows "daily_trend_up P k D t = daily_trend_up P k D' t"
proof -
  let ?n = "length (takeWhile (\<lambda>d. d < t) (map b_timestamp D))"
  have len: "length D' = length D" using assms(3) by (metis length_map)
  have ts: "b_timestamp (D' ! i) = b_timestamp (D ! i)" if "i < length D" for i
    using assms(3) that len by (metis nth_map)
  have "daily_spaced D'" using assms(2) by (simp add: daily_spaced_def len ts)
  moreover have "take (?n - 1) D = take (?n - 1) D'"
  proof (rule nth_equalityI)
    fix i assume i: "i < length (take (?n - 1) D)"
    then have "Suc i < ?n" "Suc i < length D" using length_takeWhile_le [of "\<lambda>d. d < t" "map b_timestamp D"] by auto
    then have "b_timestamp (D ! Suc i) < t" using takeWhile_nth [of "Suc i" "\<lambda>d. d < t" "map b_timestamp D"] set_takeWhileD nth_mem by fastforce
    then have "b_timestamp (D ! i) + day_us \<le> t" using assms(2) \<open>Suc i < length D\<close> by (fastforce simp: daily_spaced_def)
    then show "take (?n - 1) D ! i = take (?n - 1) D' ! i" using assms(4) [of i] i by simp
  qed (simp add: len)
  ultimately show ?thesis using daily_trend_prefix [OF assms(1) assms(2) refl, of k t] daily_trend_prefix [OF assms(1) _ refl, of D' k t] assms(3) by simp
qed

theorem daily_trend_ignores_open_day_witness:
  "daily_trend_up sample_windows 50 [flat_bar 100, (flat_bar 100)\<lparr>b_timestamp := day_us\<rparr>] (day_us + hour_us) =
   daily_trend_up sample_windows 50 [flat_bar 100, (flat_bar 300)\<lparr>b_timestamp := day_us\<rparr>] (day_us + hour_us)"
proof (rule daily_trend_ignores_open_day [OF sample_trailing])
  fix i :: nat assume "i < length [flat_bar 100, (flat_bar 100)\<lparr>b_timestamp := day_us\<rparr>]"
    "b_timestamp ([flat_bar 100, (flat_bar 100)\<lparr>b_timestamp := day_us\<rparr>] ! i) + day_us \<le> day_us + hour_us"
  then show "[flat_bar 100, (flat_bar 100)\<lparr>b_timestamp := day_us\<rparr>] ! i = [flat_bar 100, (flat_bar 300)\<lparr>b_timestamp := day_us\<rparr>] ! i"
    by (cases i) (auto simp: flat_bar_def day_us_def hour_us_def)
qed (simp_all add: daily_spaced_def flat_bar_def day_us_def)

end
