(* ===== verification/Features.thy ===== *)
theory Features
  imports StrategySignals
begin

text \<open>
  \<open>services/feature_engine\<close>: the table of features that is computed from candles, funding rates, open interest and
  liquidations.  A table is a list of named series; what pandas and numpy compute (windows, correlation, group sums,
  logarithm, root) is a parameter.  A division by zero is \<open>None\<close>: the source replaces infinities by NaN at the end.
\<close>

section \<open>Tables\<close>

type_synonym table = "(string \<times> series) list"

record feature_math =
  fx_log :: "f64 \<Rightarrow> f64 option"
  fx_sqrt :: "f64 \<Rightarrow> f64 option"
  fx_corr :: "nat \<Rightarrow> (f64 option \<times> f64 option) list \<Rightarrow> series"
  fx_group_sum :: "f64 list \<Rightarrow> f64"

definition column :: "string \<Rightarrow> table \<Rightarrow> series" where "column c t = (case map_of t c of Some s \<Rightarrow> s | None \<Rightarrow> [])"

definition const :: "f64 \<Rightarrow> series \<Rightarrow> series" where "const v = map (\<lambda>_. Some v)"

definition partial :: "(f64 \<Rightarrow> f64 option) \<Rightarrow> series \<Rightarrow> series" where "partial f = map (\<lambda>x. Option.bind x f)"

definition quotient :: "series \<Rightarrow> series \<Rightarrow> series" where "quotient xs ys = both fdiv xs (nonzero ys)"

definition pct_change :: "nat \<Rightarrow> series \<Rightarrow> series" where "pct_change k xs = each (\<lambda>q. fsub q 1) (quotient xs (shift k xs))"

definition both_set :: "series \<Rightarrow> series \<Rightarrow> series" where
  "both_set xs ys = map2 (\<lambda>a b. Some (if a = Some 1 \<and> b = Some 1 then 1 else 0)) xs ys"

definition either_set :: "series \<Rightarrow> series \<Rightarrow> series" where
  "either_set xs ys = map2 (\<lambda>a b. Some (if a = Some 1 \<or> b = Some 1 then 1 else 0)) xs ys"

definition opens :: "bar list \<Rightarrow> series" where "opens = map (\<lambda>b. Some (b_open b))"

section \<open>Technical indicators\<close>

definition compute_technical_indicators :: "pandas_series \<Rightarrow> bar list \<Rightarrow> table" where
  "compute_technical_indicators P df =
     (let c = closes df; e9 = ema P c 9; e20 = ema P c 20; e50 = ema P c 50; e200 = ema P c 200; v = vwap P df;
          bb = bollinger_bands P c 20 2; m = macd P c 12 26 9; di = directional_indicators P df 14
      in [(''ema_9'', e9), (''ema_20'', e20), (''ema_50'', e50), (''ema_100'', ema P c 100), (''ema_200'', e200),
          (''sma_20'', sma P c 20), (''sma_50'', sma P c 50), (''rsi_14'', rsi P c 14), (''rsi_7'', rsi P c 7),
          (''macd'', fst m), (''macd_signal'', fst (snd m)), (''macd_histogram'', snd (snd m)),
          (''atr_14'', atr P df 14), (''atr_7'', atr P df 7),
          (''plus_di_14'', fst di), (''minus_di_14'', fst (snd di)), (''adx_14'', snd (snd di)),
          (''bb_upper'', fst bb), (''bb_mid'', fst (snd bb)), (''bb_lower'', snd (snd bb)),
          (''bb_width'', quotient (both fsub (fst bb) (snd (snd bb))) (fst (snd bb))),
          (''bb_pct'', quotient (both fsub c (snd (snd bb))) (both fsub (fst bb) (snd (snd bb)))),
          (''vwap'', v), (''vwap_session'', vwap_session P df),
          (''price_vs_ema9'', quotient (both fsub c e9) e9), (''price_vs_ema20'', quotient (both fsub c e20) e20),
          (''price_vs_ema50'', quotient (both fsub c e50) e50), (''price_vs_ema200'', quotient (both fsub c e200) e200),
          (''price_vs_vwap'', quotient (both fsub c v) v),
          (''ema9_above_ema20'', flag (>) e9 e20), (''ema20_above_ema50'', flag (>) e20 e50), (''ema50_above_ema200'', flag (>) e50 e200),
          (''rsi_overbought'', flag (>) (rsi P c 14) (const 70 c)), (''rsi_oversold'', flag (<) (rsi P c 14) (const 30 c)),
          (''macd_bullish'', flag (>) (fst m) (fst (snd m))), (''roc_10'', roc c 10), (''momentum_10'', momentum c 10)])"

section \<open>Market structure\<close>

text \<open>
  \<open>_detect_swings\<close> for one side: a bar that is the extreme of its centred window is stamped on the bar that
  confirms it, \<open>lookback\<close> bars later.
\<close>

definition detect_swings :: "(f64 list \<Rightarrow> f64) \<Rightarrow> nat \<Rightarrow> f64 list \<Rightarrow> f64 list" where
  "detect_swings extreme lookback xs =
     foldl (\<lambda>swings i. if xs ! i = extreme (take (2 * lookback + 1) (drop (i - lookback) xs)) then swings[i + lookback := xs ! i] else swings)
       (replicate (length xs) 0) [lookback..<length xs - lookback]"

record structure_state =
  sr_last_swing_high :: "f64 option"
  sr_last_swing_low :: "f64 option"
  sr_prev_swing_high :: "f64 option"
  sr_prev_swing_low :: "f64 option"

definition structure_next :: "f64 \<times> f64 \<Rightarrow> structure_state \<Rightarrow> structure_state" where
  "structure_next = (\<lambda>(h, l) s.
     let s1 = (if h > 0 then s\<lparr>sr_prev_swing_high := sr_last_swing_high s, sr_last_swing_high := Some h\<rparr> else s)
     in if l > 0 then s1\<lparr>sr_prev_swing_low := sr_last_swing_low s1, sr_last_swing_low := Some l\<rparr> else s1)"

text \<open>The states after each row; a comparison of two swings is zero until both are known.\<close>

fun structure_scan :: "structure_state \<Rightarrow> (f64 \<times> f64) list \<Rightarrow> structure_state list" where
  "structure_scan s [] = []"
| "structure_scan s (x # xs) = (let s1 = structure_next x s in s1 # structure_scan s1 xs)"

definition swing_flag :: "(f64 \<Rightarrow> f64 \<Rightarrow> bool) \<Rightarrow> f64 option \<Rightarrow> f64 option \<Rightarrow> f64 option" where
  "swing_flag p latest prev = Some (case (latest, prev) of (Some a, Some b) \<Rightarrow> if p a b then 1 else 0 | _ \<Rightarrow> 0)"

definition no_swings :: structure_state where
  "no_swings = \<lparr>sr_last_swing_high = None, sr_last_swing_low = None, sr_prev_swing_high = None, sr_prev_swing_low = None\<rparr>"

definition structure_rows :: "nat \<Rightarrow> bar list \<Rightarrow> structure_state list" where
  "structure_rows lookback df =
     structure_scan no_swings (zip (detect_swings list_max lookback (map b_high df)) (detect_swings list_min lookback (map b_low df)))"

definition detect_market_structure :: "pandas_series \<Rightarrow> nat \<Rightarrow> series \<Rightarrow> series \<Rightarrow> bar list \<Rightarrow> table" where
  "detect_market_structure P lookback e50 e200 df =
     (let rows = structure_rows lookback df; c = closes df;
          highest = ps_rolling_max P 20 (highs df); lowest = ps_rolling_min P 20 (lows df);
          hh = map (\<lambda>s. swing_flag (>) (sr_last_swing_high s) (sr_prev_swing_high s)) rows;
          lh = map (\<lambda>s. swing_flag (<) (sr_last_swing_high s) (sr_prev_swing_high s)) rows;
          hl = map (\<lambda>s. swing_flag (>) (sr_last_swing_low s) (sr_prev_swing_low s)) rows;
          ll = map (\<lambda>s. swing_flag (<) (sr_last_swing_low s) (sr_prev_swing_low s)) rows;
          cross_up = both_set (flag (>) e50 e200) (flag (\<le>) (shift 1 e50) (shift 1 e200));
          cross_down = both_set (flag (<) e50 e200) (flag (\<ge>) (shift 1 e50) (shift 1 e200))
      in [(''swing_high'', map Some (detect_swings list_max lookback (map b_high df))),
          (''swing_low'', map Some (detect_swings list_min lookback (map b_low df))),
          (''higher_high'', hh), (''higher_low'', hl), (''lower_high'', lh), (''lower_low'', ll),
          (''uptrend'', both_set hh hl), (''downtrend'', both_set lh ll),
          (''break_of_structure'', both fsub cross_up cross_down),
          (''near_resistance'', both_set (flag (\<ge>) c (each (\<lambda>h. fmul h (fl (995/1000))) highest)) (flag (\<le>) c highest)),
          (''near_support'', both_set (flag (\<le>) c (each (\<lambda>l. fmul l (fl (1005/1000))) lowest)) (flag (\<ge>) c lowest)),
          (''consolidation'', flag (<) (quotient (both fsub highest lowest) c) (const (fl (3/100)) c)),
          (''donchian_position_20'', quotient (both fsub c lowest) (both fsub highest lowest))])"

section \<open>Volume and volatility\<close>

definition differs :: "series \<Rightarrow> series \<Rightarrow> series" where
  "differs xs ys = map2 (\<lambda>a b. Some (case (a, b) of (Some x, Some y) \<Rightarrow> if x \<noteq> y then 1 else 0 | _ \<Rightarrow> 1)) xs ys"

definition compute_volume_features :: "pandas_series \<Rightarrow> bar list \<Rightarrow> table" where
  "compute_volume_features P df =
     (let v = volumes df; c = closes df; relative = quotient v (ps_rolling_mean P 20 v);
          price_up = flag (>) c (shift 1 c); on_up = both fmul v price_up; on_down = both fmul v (each (\<lambda>u. fsub 1 u) price_up)
      in [(''volume_sma_20'', ps_rolling_mean P 20 v), (''volume_sma_50'', ps_rolling_mean P 50 v), (''relative_volume'', relative),
          (''volume_change'', pct_change 1 v), (''volume_spike'', flag (>) relative (const 2 v)),
          (''volume_dry'', flag (<) relative (const (1/2) v)),
          (''obv'', ps_cumsum P (fillna 0 (both fmul (each sgn (diff_by 1 c)) v))),
          (''volume_price_divergence'', differs (each sgn (diff_by 5 c)) (each sgn (diff_by 5 v))),
          (''buy_sell_volume_ratio'', quotient (ps_rolling_sum P 20 on_up) (ps_rolling_sum P 20 on_down))])"

definition compute_volatility_features :: "pandas_series \<Rightarrow> feature_math \<Rightarrow> bar list \<Rightarrow> table" where
  "compute_volatility_features P M df =
     (let c = closes df; h = highs df; l = lows df; o1 = opens df; returns = pct_change 1 c;
          realized = (\<lambda>k. both fmul (ps_rolling_std P k returns) (map (\<lambda>_. fx_sqrt M 8760) c));
          high_low = quotient (both fsub h l) c; range_sma = ps_rolling_mean P 20 high_low; top = ps_rolling_max P 20 c;
          log_of = (\<lambda>xs ys. partial (fx_log M) (quotient xs ys));
          square = (\<lambda>xs. each (\<lambda>x. fmul x x) xs);
          weight = map (\<lambda>_. map_option (\<lambda>two. fsub (fmul 2 two) 1) (fx_log M 2)) c
      in [(''returns'', returns), (''log_returns'', log_of c (shift 1 c)),
          (''realized_vol_10'', realized 10), (''realized_vol_20'', realized 20), (''realized_vol_50'', realized 50),
          (''vol_ratio_short_long'', quotient (realized 10) (realized 50)),
          (''high_low_range'', high_low), (''range_sma_20'', range_sma),
          (''range_expanding'', flag (>) high_low (each (\<lambda>r. fmul r (3/2)) range_sma)),
          (''range_contracting'', flag (<) high_low (each (\<lambda>r. fmul r (1/2)) range_sma)),
          (''upper_shadow'', quotient (both fsub h (both max o1 c)) c), (''lower_shadow'', quotient (both fsub (both min o1 c) l) c),
          (''return_1'', pct_change 1 c), (''return_3'', pct_change 3 c), (''return_5'', pct_change 5 c),
          (''return_10'', pct_change 10 c), (''return_20'', pct_change 20 c),
          (''max_drawdown_20'', quotient (both fsub top c) top),
          (''garman_klass_vol'', partial (fx_sqrt M)
             (both fsub (each (fmul (1/2)) (square (log_of h l))) (both fmul weight (square (log_of c o1)))))])"

section \<open>Derivatives\<close>

text \<open>A reading of another source, with its own time.\<close>

type_synonym reading = "datetime \<times> f64 option"

text \<open>\<open>merge_asof\<close>, backward: the last reading at or before the candle's time, of readings sorted by time.\<close>

definition asof_merge_value :: "reading list \<Rightarrow> bar list \<Rightarrow> series" where
  "asof_merge_value source df =
     map (\<lambda>b. let past = filter (\<lambda>(t, _). t \<le> b_timestamp b) (sort_key fst source) in if past = [] then None else snd (last past)) df"

text \<open>Each liquidation is counted at the first candle whose time is not before it.\<close>

definition bucket_sum :: "feature_math \<Rightarrow> (datetime \<times> f64) list \<Rightarrow> bar list \<Rightarrow> series" where
  "bucket_sum M events df =
     (let ts = map b_timestamp df
      in map (\<lambda>i. let mine = filter (\<lambda>(t, _). find (\<lambda>j. t \<le> ts ! j) [0..<length ts] = Some i) (sort_key fst events)
                  in Some (if mine = [] then 0 else fx_group_sum M (map snd mine))) [0..<length ts])"

record liquidation =
  lq_timestamp :: datetime
  lq_side :: string
  lq_quantity :: f64

definition liquidations_of :: "string \<Rightarrow> liquidation list \<Rightarrow> (datetime \<times> f64) list" where
  "liquidations_of side ls = map (\<lambda>e. (lq_timestamp e, lq_quantity e)) (filter (\<lambda>e. lq_side e = side) (sort_key lq_timestamp ls))"

definition compute_derivatives_features ::
  "pandas_series \<Rightarrow> feature_math \<Rightarrow> reading list \<Rightarrow> reading list \<Rightarrow> liquidation list \<Rightarrow> bar list \<Rightarrow> table" where
  "compute_derivatives_features P M funding_rates open_interest liquidations df =
     (let zero = const 0 (closes df);
          rate = asof_merge_value funding_rates df; oi = asof_merge_value open_interest df; change = pct_change 1 oi;
          long = bucket_sum M (liquidations_of ''long'' liquidations) df; short = bucket_sum M (liquidations_of ''short'' liquidations) df;
          spike = (\<lambda>q. flag (>) q (each (\<lambda>m. fmul m 3) (ps_rolling_mean P 20 q)))
      in (if funding_rates = [] then map (\<lambda>c. (c, zero)) [''funding_rate'', ''funding_rate_sma_8'', ''funding_extreme_high'', ''funding_extreme_low'', ''funding_trend'']
          else [(''funding_rate'', rate), (''funding_rate_sma_8'', ps_rolling_mean P 8 rate),
                (''funding_extreme_high'', flag (>) rate (const (fl (1/1000)) rate)),
                (''funding_extreme_low'', flag (<) rate (const (- fl (1/1000)) rate)), (''funding_trend'', diff_by 3 rate)]) @
         (if open_interest = [] then map (\<lambda>c. (c, zero)) [''open_interest'', ''oi_change'', ''oi_change_sma'', ''oi_acceleration'', ''price_oi_corr'']
          else [(''open_interest'', oi), (''oi_change'', change), (''oi_change_sma'', ps_rolling_mean P 10 change),
                (''oi_acceleration'', diff_by 1 change), (''price_oi_corr'', fx_corr M 20 (zip (closes df) oi))]) @
         (if liquidations = [] then map (\<lambda>c. (c, zero)) [''long_liquidations'', ''short_liquidations'', ''liq_spike'']
          else [(''long_liquidations'', long), (''short_liquidations'', short), (''liq_spike'', either_set (spike long) (spike short))]))"

section \<open>The feature engine\<close>

definition compute_features ::
  "pandas_series \<Rightarrow> feature_math \<Rightarrow> reading list \<Rightarrow> reading list \<Rightarrow> liquidation list \<Rightarrow> bar list \<Rightarrow> table" where
  "compute_features P M funding_rates open_interest liquidations df0 =
     (if df0 = [] then []
      else let df = sort_key b_timestamp df0; technical = compute_technical_indicators P df
           in technical @ detect_market_structure P 5 (column ''ema_50'' technical) (column ''ema_200'' technical) df @
              compute_volume_features P df @ compute_derivatives_features P M funding_rates open_interest liquidations df @
              compute_volatility_features P M df)"

text \<open>The rows of the matrix: those that have all features.\<close>

definition get_feature_matrix :: "table \<Rightarrow> nat \<Rightarrow> (nat \<times> f64 list) list" where
  "get_feature_matrix t n =
     List.map_filter (\<lambda>i. if list_all (\<lambda>(_, s). s ! i \<noteq> None) t then Some (i, map (\<lambda>(_, s). the (s ! i)) t) else None) [0..<n]"

section \<open>Causal columns\<close>

lemma length_stamp: "length (foldl (\<lambda>sw i. if P i then sw[i + L := f i] else sw) zs is) = length zs"
  by (induction "is" arbitrary: zs) auto

lemma nth_stamp:
  assumes "j < length zs" "m + L \<le> length zs"
  shows "foldl (\<lambda>sw i. if P i then sw[i + L := f i] else sw) zs [a..<m] ! j =
    (if L \<le> j \<and> a \<le> j - L \<and> j - L < m \<and> P (j - L) then f (j - L) else zs ! j)"
  using assms(2)
proof (induction m)
  case (Suc m)
  then show ?case using assms(1) by (auto simp: length_stamp nth_list_update)
qed simp

text \<open>The stamp on row \<open>j\<close> looks at the window that ends with that row.\<close>

lemma detect_swings_nth:
  assumes "j < length xs"
  shows "detect_swings extreme L xs ! j =
    (if 2 * L \<le> j \<and> xs ! (j - L) = extreme (take (2 * L + 1) (drop (j - 2 * L) xs)) then xs ! (j - L) else 0)"
proof -
  have "L \<le> j \<and> L \<le> j - L \<and> j - L < length xs - L \<longleftrightarrow> 2 * L \<le> j" using assms by auto
  moreover have "j - L - L = j - 2 * L" by simp
  ultimately show ?thesis
    unfolding detect_swings_def using assms
    by (cases "L \<le> length xs") (auto simp: nth_stamp)
qed

lemma causal_detect_swings: "causal (detect_swings extreme L)"
proof -
  have len: "length (detect_swings extreme L xs) = length xs" for xs by (simp add: detect_swings_def length_stamp)
  have "detect_swings extreme L (take n xs) = take n (detect_swings extreme L xs)" for n xs
  proof (rule nth_equalityI)
    fix j assume "j < length (detect_swings extreme L (take n xs))"
    then have j: "j < n" "j < length xs" by (simp_all add: len)
    have "take (2 * L + 1) (drop (j - 2 * L) (take n xs)) = take (2 * L + 1) (drop (j - 2 * L) xs)" if "2 * L \<le> j"
    proof -
      have "2 * L + 1 \<le> n - (j - 2 * L)" using j that by simp
      then show ?thesis by (simp add: drop_take min_absorb1)
    qed
    then show "detect_swings extreme L (take n xs) ! j = take n (detect_swings extreme L xs) ! j"
      using j by (simp add: detect_swings_nth)
  qed (simp add: len)
  then show ?thesis by (simp add: causal_def len)
qed

lemma structure_scan_causal: "causal (structure_scan s)"
proof -
  have "length (structure_scan s xs) = length xs" for xs by (induction s xs rule: structure_scan.induct) (simp_all add: Let_def)
  moreover have "structure_scan s (take n xs) = take n (structure_scan s xs)" for n xs
    by (induction s xs arbitrary: n rule: structure_scan.induct) (auto simp: Let_def take_Cons split: nat.splits)
  ultimately show ?thesis by (simp add: causal_def)
qed

lemma causal_structure_rows: "causal (structure_rows L)"
  unfolding structure_rows_def
  by (intro causal_compose [OF structure_scan_causal] causal_intros causal_compose [OF causal_detect_swings])

lemma causal_bucket_sum: "causal (bucket_sum M events)"
proof -
  define F where "F ts i = (let mine = filter (\<lambda>(t, _). find (\<lambda>j. t \<le> ts ! j) [0..<length ts] = Some i) (sort_key fst events)
    in Some (if mine = [] then 0 else fx_group_sum M (map snd mine)))" for ts :: "datetime list" and i
  have bucket: "bucket_sum M events df = map (F (map b_timestamp df)) [0..<length df]" for df
    by (simp add: bucket_sum_def F_def Let_def)
  have "find (\<lambda>j. t \<le> take n ts ! j) [0..<min (length ts) n] = Some i \<longleftrightarrow> find (\<lambda>j. t \<le> ts ! j) [0..<length ts] = Some i"
    if "i < n" "i < length ts" for t n i and ts :: "datetime list"
    using that by (auto simp: find_Some_iff)
  then have F: "F (take n ts) i = F ts i" if "i < n" "i < length ts" for n i ts
    using that by (simp add: F_def case_prod_beta)
  have "bucket_sum M events (take n df) = take n (bucket_sum M events df)" for n df
    unfolding bucket using F by (intro nth_equalityI) (simp_all add: take_map [symmetric])
  then show ?thesis by (simp add: causal_def bucket)
qed

lemma causal_feature_series [causal_intros]:
  "causal f \<Longrightarrow> causal (\<lambda>xs. const v (f xs))" "causal f \<Longrightarrow> causal (\<lambda>xs. partial g (f xs))"
  "causal f \<Longrightarrow> causal f' \<Longrightarrow> causal (\<lambda>xs. quotient (f xs) (f' xs))" "causal f \<Longrightarrow> causal (\<lambda>xs. pct_change k (f xs))"
  "causal f \<Longrightarrow> causal f' \<Longrightarrow> causal (\<lambda>xs. both_set (f xs) (f' xs))" "causal f \<Longrightarrow> causal f' \<Longrightarrow> causal (\<lambda>xs. either_set (f xs) (f' xs))"
  "causal f \<Longrightarrow> causal f' \<Longrightarrow> causal (\<lambda>xs. differs (f xs) (f' xs))" "causal g' \<Longrightarrow> causal (\<lambda>xs. opens (g' xs))"
  "causal g' \<Longrightarrow> causal (\<lambda>xs. asof_merge_value source (g' xs))"
  unfolding const_def partial_def pct_change_def quotient_def both_set_def either_set_def differs_def opens_def asof_merge_value_def
  by (intro causal_intros; assumption)+

lemma causal_rows [causal_intros]:
  "causal f \<Longrightarrow> causal (\<lambda>xs. detect_swings extreme L (f xs))" "causal g \<Longrightarrow> causal (\<lambda>xs. structure_rows L (g xs))"
  "causal g \<Longrightarrow> causal (\<lambda>xs. bucket_sum M events (g xs))"
  by (intro causal_compose [OF causal_detect_swings] causal_compose [OF causal_structure_rows] causal_compose [OF causal_bucket_sum]; assumption)+

section \<open>Causal tables\<close>

definition truncate_table :: "nat \<Rightarrow> table \<Rightarrow> table" where "truncate_table n = map (\<lambda>(c, s). (c, take n s))"

definition causal_table :: "(bar list \<Rightarrow> table) \<Rightarrow> bool" where
  "causal_table F \<longleftrightarrow> (\<forall>n df. F (take n df) = truncate_table n (F df))"

named_theorems table_intros

lemma causal_table_parts [table_intros]:
  "causal_table (\<lambda>df. [])" "causal f \<Longrightarrow> causal_table F \<Longrightarrow> causal_table (\<lambda>df. (c, f df) # F df)"
  "causal_table F \<Longrightarrow> causal_table G \<Longrightarrow> causal_table (\<lambda>df. F df @ G df)"
  "causal_table F \<Longrightarrow> causal_table G \<Longrightarrow> causal_table (\<lambda>df. if q then F df else G df)"
  by (auto simp: causal_table_def truncate_table_def causal_def)

lemma causal_directional:
  assumes "trailing P"
  shows "causal (\<lambda>df. fst (directional_indicators P df k))" "causal (\<lambda>df. fst (snd (directional_indicators P df k)))"
    "causal (\<lambda>df. snd (snd (directional_indicators P df k)))"
  unfolding directional_indicators_def Let_def fst_conv snd_conv
  by (intro causal_intros causal_averages causal_atr assms)+

lemma causal_technical:
  assumes "trailing P"
  shows "causal_table (compute_technical_indicators P)"
  unfolding compute_technical_indicators_def Let_def
  by (intro table_intros causal_intros causal_indicators [OF assms] causal_directional assms)

lemma causal_structure:
  assumes "trailing P" "causal f" "causal g"
  shows "causal_table (\<lambda>df. detect_market_structure P L (f df) (g df) df)"
  unfolding detect_market_structure_def Let_def
  by (intro table_intros causal_intros causal_windows [OF assms(1)] assms(2,3))

lemma causal_volume:
  assumes "trailing P"
  shows "causal_table (compute_volume_features P)"
  unfolding compute_volume_features_def Let_def
  by (intro table_intros causal_intros causal_windows [OF assms])

lemma causal_volatility:
  assumes "trailing P"
  shows "causal_table (compute_volatility_features P M)"
  unfolding compute_volatility_features_def Let_def
  by (intro table_intros causal_intros causal_windows [OF assms])

lemma causal_derivatives:
  assumes "trailing P" "\<And>k. causal (fx_corr M k)"
  shows "causal_table (compute_derivatives_features P M fr oi lq)"
  unfolding compute_derivatives_features_def Let_def list.map
  by (intro table_intros causal_intros causal_windows [OF assms(1)] causal_compose [OF assms(2)])

lemma ema_columns:
  "column ''ema_50'' (compute_technical_indicators P df) = ema P (closes df) 50"
  "column ''ema_200'' (compute_technical_indicators P df) = ema P (closes df) 200"
  by (simp_all add: column_def compute_technical_indicators_def Let_def)

section \<open>Nothing later than the candle\<close>

definition known_by :: "datetime \<Rightarrow> (datetime \<times> 'a) list \<Rightarrow> (datetime \<times> 'a) list" where
  "known_by now = filter (\<lambda>(t, _). t \<le> now)"

definition liquidated_by :: "datetime \<Rightarrow> liquidation list \<Rightarrow> liquidation list" where
  "liquidated_by now = filter (\<lambda>e. lq_timestamp e \<le> now)"

lemma filter_known:
  assumes "\<And>t. p t \<Longrightarrow> t \<le> now"
  shows "filter (\<lambda>(t, _). p t) (sort_key fst (known_by now xs)) = filter (\<lambda>(t, _). p t) (sort_key fst xs)"
proof -
  have "filter (\<lambda>(t, _). p t) (known_by now xs) = filter (\<lambda>(t, _). p t) xs"
    unfolding known_by_def filter_filter by (rule filter_cong) (auto dest: assms)
  then show ?thesis by (simp add: filter_sort)
qed

lemma asof_known:
  assumes "\<And>b. b \<in> set df \<Longrightarrow> b_timestamp b \<le> now"
  shows "asof_merge_value (known_by now source) df = asof_merge_value source df"
proof -
  have "filter (\<lambda>(t, _). t \<le> b_timestamp b) (sort_key fst (known_by now source)) = filter (\<lambda>(t, _). t \<le> b_timestamp b) (sort_key fst source)"
    if "b \<in> set df" for b
    by (rule filter_known) (use assms [OF that] in simp)
  then show ?thesis by (auto simp: asof_merge_value_def Let_def)
qed

lemma bucket_known:
  assumes "\<And>b. b \<in> set df \<Longrightarrow> b_timestamp b \<le> now"
  shows "bucket_sum M (known_by now events) df = bucket_sum M events df"
proof -
  let ?ts = "map b_timestamp df"
  have "t \<le> now" if "find (\<lambda>j. t \<le> ?ts ! j) [0..<length ?ts] = Some i" for t i
  proof -
    have "i < length df" "t \<le> b_timestamp (df ! i)" using that by (auto simp: find_Some_iff)
    then show ?thesis using assms [of "df ! i"] by simp
  qed
  then have "filter (\<lambda>(t, _). find (\<lambda>j. t \<le> ?ts ! j) [0..<length ?ts] = Some i) (sort_key fst (known_by now events)) =
      filter (\<lambda>(t, _). find (\<lambda>j. t \<le> ?ts ! j) [0..<length ?ts] = Some i) (sort_key fst events)" for i
    by (rule filter_known)
  then show ?thesis by (simp add: bucket_sum_def Let_def)
qed

lemma liquidations_known: "liquidations_of side (liquidated_by now ls) = known_by now (liquidations_of side ls)"
  by (auto simp: liquidations_of_def liquidated_by_def known_by_def filter_map comp_def filter_sort filter_filter
      intro!: arg_cong [where f = "map _"] arg_cong [where f = "sort_key lq_timestamp"] filter_cong)

lemma derivatives_known:
  assumes "\<And>b. b \<in> set df \<Longrightarrow> b_timestamp b \<le> now"
    "known_by now fr = [] \<longleftrightarrow> fr = []" "known_by now oi = [] \<longleftrightarrow> oi = []" "liquidated_by now lq = [] \<longleftrightarrow> lq = []"
  shows "compute_derivatives_features P M (known_by now fr) (known_by now oi) (liquidated_by now lq) df = compute_derivatives_features P M fr oi lq df"
  by (simp only: compute_derivatives_features_def asof_known [OF assms(1)] bucket_known [OF assms(1)] liquidations_known assms(2-4))

text \<open>
  The features of a candle have no influence from later.  For candles in the order of time, the table computed from the first
  k candles and the funding rates, open interest and liquidations up to the time of the last of them is the table of
  the whole history cut after k rows: the swings, which need the bars around them, included.  Each source
  must have a reading by then, since a source without any makes its columns zero instead of missing.
\<close>
theorem features_no_lookahead:
  assumes "trailing P" "\<And>k. causal (fx_corr M k)" "sorted (map b_timestamp df)" "0 < k" "k \<le> length df"
    "now = b_timestamp (df ! (k - 1))"
    "known_by now fr = [] \<longleftrightarrow> fr = []" "known_by now oi = [] \<longleftrightarrow> oi = []" "liquidated_by now lq = [] \<longleftrightarrow> lq = []"
  shows "compute_features P M (known_by now fr) (known_by now oi) (liquidated_by now lq) (take k df) =
    map (\<lambda>(c, s). (c, take k s)) (compute_features P M fr oi lq df)"
proof -
  have early: "b_timestamp b \<le> now" if "b \<in> set (take k df)" for b
    using that assms(3-6) by (auto simp: in_set_conv_nth sorted_iff_nth_mono)
  have sorted: "sort_key b_timestamp (take k df) = take k df" "sort_key b_timestamp df = df"
    using assms(3) by (simp_all add: sort_key_id_if_sorted take_map [symmetric] sorted_wrt_take)
  let ?F = "\<lambda>df. compute_technical_indicators P df @ detect_market_structure P 5 (ema P (closes df) 50) (ema P (closes df) 200) df @
      compute_volume_features P df @ compute_derivatives_features P M fr oi lq df @ compute_volatility_features P M df"
  have "causal_table ?F"
    by (intro table_intros causal_technical causal_structure causal_volume causal_derivatives causal_volatility
        causal_averages causal_intros assms(1,2))
  then have "?F (take k df) = truncate_table k (?F df)" by (simp only: causal_table_def)
  moreover have "compute_features P M (known_by now fr) (known_by now oi) (liquidated_by now lq) (take k df) = ?F (take k df)"
    using assms(4,5) by (auto simp: compute_features_def Let_def sorted ema_columns derivatives_known [OF early assms(7-9)])
  moreover have "compute_features P M fr oi lq df = ?F df"
    using assms(4,5) by (auto simp: compute_features_def Let_def sorted ema_columns)
  ultimately show ?thesis by (simp add: truncate_table_def)
qed

definition demo_math :: feature_math where
  "demo_math = \<lparr>fx_log = \<lambda>x. if 0 < x then Some (fsub x 1) else None, fx_sqrt = \<lambda>x. if 0 \<le> x then Some x else None,
     fx_corr = \<lambda>_. map fst, fx_group_sum = fsum\<rparr>"

theorem features_no_lookahead_witness:
  "compute_features sample_windows demo_math [(0, Some 1)] [] [] [flat_bar 100] =
     map (\<lambda>(c, s). (c, take 1 s)) (compute_features sample_windows demo_math [(0, Some 1), (day_us, Some 2)] [] []
       [flat_bar 100, (flat_bar 300)\<lparr>b_timestamp := day_us\<rparr>])"
proof -
  have "causal (fx_corr demo_math k)" for k using causal_map [OF causal_id] by (simp add: demo_math_def)
  then show ?thesis
    using features_no_lookahead [OF sample_trailing, of demo_math "[flat_bar 100, (flat_bar 300)\<lparr>b_timestamp := day_us\<rparr>]" 1 0
        "[(0, Some 1), (day_us, Some 2)]" "[]" "[]"]
    by (simp add: known_by_def liquidated_by_def flat_bar_def day_us_def)
qed

end
