(* ===== verification/Labels.thy ===== *)
theory Labels
  imports AiPaper StrategySignals
begin

text \<open>
  \<open>ml/labeling.py\<close>, \<open>ml/datasets/loader.py\<close>, the splits of \<open>ml/evaluation/ml_pipeline.py\<close> and
  \<open>ml/signal.py\<close>: what the model of LONG, SHORT and NO_TRADE is trained on, how training, validation and test rows are
  kept apart, and when a prediction becomes a trade.  A frame is a list of bars with a list of ATR values beside it.
\<close>

section \<open>Triple-barrier labels\<close>

definition LONG_LABEL :: int where "LONG_LABEL = 1"
definition SHORT_LABEL :: int where "SHORT_LABEL = - 1"
definition NO_TRADE_LABEL :: int where "NO_TRADE_LABEL = 0"

record barrier_config =
  tb_horizon_bars :: nat
  tb_tp_atr_multiple :: f64
  tb_sl_atr_multiple :: f64
  tb_min_risk_reward :: f64

definition default_barrier_config :: barrier_config where
  "default_barrier_config = \<lparr>tb_horizon_bars = 12, tb_tp_atr_multiple = 2, tb_sl_atr_multiple = 1, tb_min_risk_reward = 3/2\<rparr>"

datatype barrier_hit = TP | SL

text \<open>A touch of both barriers by one bar counts as the stop.\<close>

definition long_touch :: "f64 \<Rightarrow> f64 \<Rightarrow> bar \<Rightarrow> barrier_hit option \<Rightarrow> barrier_hit option" where
  "long_touch sl tp b hit =
     (case hit of Some x \<Rightarrow> Some x | None \<Rightarrow> if b_low b \<le> sl then Some SL else if b_high b \<ge> tp then Some TP else None)"

definition short_touch :: "f64 \<Rightarrow> f64 \<Rightarrow> bar \<Rightarrow> barrier_hit option \<Rightarrow> barrier_hit option" where
  "short_touch sl tp b hit =
     (case hit of Some x \<Rightarrow> Some x | None \<Rightarrow> if b_high b \<ge> sl then Some SL else if b_low b \<le> tp then Some TP else None)"

text \<open>The levels of both hypothetical trades: target and stop of the long one, target and stop of the short one.\<close>

record barriers =
  lv_long_tp :: f64
  lv_long_sl :: f64
  lv_short_tp :: f64
  lv_short_sl :: f64

definition barriers_at :: "barrier_config \<Rightarrow> f64 \<Rightarrow> f64 \<Rightarrow> barriers" where
  "barriers_at cfg entry_price a =
     \<lparr>lv_long_tp = fadd entry_price (fmul (tb_tp_atr_multiple cfg) a), lv_long_sl = fsub entry_price (fmul (tb_sl_atr_multiple cfg) a),
      lv_short_tp = fsub entry_price (fmul (tb_tp_atr_multiple cfg) a), lv_short_sl = fadd entry_price (fmul (tb_sl_atr_multiple cfg) a)\<rparr>"

text \<open>The loop over the bars of the horizon, with the number of bars it has seen; it stops when both trades are decided.\<close>

fun walk_barriers :: "barriers \<Rightarrow> bar list \<Rightarrow> nat \<Rightarrow> barrier_hit option \<Rightarrow> barrier_hit option \<Rightarrow> barrier_hit option \<times> barrier_hit option \<times> nat" where
  "walk_barriers lv [] seen long_hit short_hit = (long_hit, short_hit, seen)"
| "walk_barriers lv (b # bs) seen long_hit short_hit =
     (let long_hit = long_touch (lv_long_sl lv) (lv_long_tp lv) b long_hit;
          short_hit = short_touch (lv_short_sl lv) (lv_short_tp lv) b short_hit
      in if long_hit \<noteq> None \<and> short_hit \<noteq> None then (long_hit, short_hit, seen + 1)
         else walk_barriers lv bs (seen + 1) long_hit short_hit)"

record label_row =
  lb_label :: int
  lb_outcome :: string
  lb_entry_price :: "f64 option"
  lb_barriers :: "barriers option"
  lb_end_idx :: nat

text \<open>Row \<open>t\<close>, none if too few bars follow; \<open>rr_ok\<close> is the test of the configured reward for the risk.\<close>

definition label_at :: "barrier_config \<Rightarrow> bool \<Rightarrow> bar list \<Rightarrow> f64 option list \<Rightarrow> nat \<Rightarrow> label_row option" where
  "label_at cfg rr_ok df atrs t =
     (let entry_idx = t + 1
      in if entry_idx + tb_horizon_bars cfg \<ge> length df then None
         else case atrs ! t of
           Some a \<Rightarrow>
             if a \<le> 0 \<or> \<not> rr_ok
             then Some \<lparr>lb_label = NO_TRADE_LABEL, lb_outcome = ''no_trade'', lb_entry_price = None, lb_barriers = None, lb_end_idx = entry_idx\<rparr>
             else let entry_price = b_open (df ! entry_idx); lv = barriers_at cfg entry_price a
                  in (case walk_barriers lv (take (tb_horizon_bars cfg + 1) (drop entry_idx df)) 0 None None of (long_hit, short_hit, seen) \<Rightarrow>
                        Some \<lparr>lb_label = (if long_hit = Some TP \<and> short_hit \<noteq> Some TP then LONG_LABEL
                                         else if short_hit = Some TP \<and> long_hit \<noteq> Some TP then SHORT_LABEL else NO_TRADE_LABEL),
                              lb_outcome = (if long_hit = Some TP \<and> short_hit \<noteq> Some TP then ''long_win''
                                           else if short_hit = Some TP \<and> long_hit \<noteq> Some TP then ''short_win'' else ''no_trade''),
                              lb_entry_price = Some entry_price, lb_barriers = Some lv, lb_end_idx = entry_idx + seen - 1\<rparr>)
         | None \<Rightarrow> Some \<lparr>lb_label = NO_TRADE_LABEL, lb_outcome = ''no_trade'', lb_entry_price = None, lb_barriers = None, lb_end_idx = entry_idx\<rparr>)"

text \<open>Rows without a label are dropped; what is kept is the row and its label.\<close>

definition compute_triple_barrier_labels :: "barrier_config \<Rightarrow> bar list \<Rightarrow> f64 option list \<Rightarrow> (bar \<times> label_row) list result" where
  "compute_triple_barrier_labels cfg df atrs =
     (if tb_sl_atr_multiple cfg = 0 then Inl ZeroDivisionError
      else let rr_ok = (fdiv (tb_tp_atr_multiple cfg) (tb_sl_atr_multiple cfg) \<ge> tb_min_risk_reward cfg)
           in Inr (List.map_filter (\<lambda>t. map_option (Pair (df ! t)) (label_at cfg rr_ok df atrs t)) [0..<length df - 1]))"

definition label_distribution :: "label_row list \<Rightarrow> f64 \<times> f64 \<times> f64" where
  "label_distribution rows =
     (let share = (\<lambda>l. if rows = [] then 0 else pyround 2 (fmul (fdiv (of_nat (length (filter (\<lambda>r. lb_label r = l) rows))) (of_nat (length rows))) 100))
      in (share LONG_LABEL, share SHORT_LABEL, share NO_TRADE_LABEL))"

section \<open>Labels of the forward return\<close>

text \<open>\<open>DatasetLoader.create_labels\<close>: the return over the next bars, none at the end; a comparison with NaN is false.\<close>

definition future_return :: "nat \<Rightarrow> f64 list \<Rightarrow> nat \<Rightarrow> f64 option" where
  "future_return forward_periods close t =
     (if t + forward_periods < length close then Some (fsub (fdiv (close ! (t + forward_periods)) (close ! t)) 1) else None)"

definition forward_label :: "f64 \<Rightarrow> f64 option \<Rightarrow> int" where
  "forward_label threshold r =
     (case r of None \<Rightarrow> 0 | Some x \<Rightarrow> if x > threshold then 1 else if x < - threshold then - 1 else 0)"

definition create_labels :: "nat \<Rightarrow> f64 \<Rightarrow> f64 list \<Rightarrow> (f64 \<times> int \<times> f64 option) list" where
  "create_labels forward_periods threshold close =
     map (\<lambda>t. (close ! t, forward_label threshold (future_return forward_periods close t), future_return forward_periods close t)) [0..<length close]"

section \<open>Splits\<close>

definition slice :: "nat \<times> nat \<Rightarrow> 'a list \<Rightarrow> 'a list" where "slice w xs = drop (fst w) (take (snd w) xs)"

definition share_of :: "nat \<Rightarrow> f64 \<Rightarrow> nat" where "share_of n pct = nat (py_int (fmul (of_nat n) pct))"

definition split_chronological :: "'a list \<Rightarrow> f64 \<Rightarrow> f64 \<Rightarrow> 'a list \<times> 'a list \<times> 'a list" where
  "split_chronological df train_pct val_pct =
     (let n = length df; train_end = share_of n train_pct; val_end = share_of n (fadd train_pct val_pct)
      in (slice (0, train_end) df, slice (train_end, val_end) df, drop val_end df))"

definition chronological_split_with_embargo :: "'a list \<Rightarrow> f64 \<Rightarrow> f64 \<Rightarrow> nat \<Rightarrow> 'a list \<times> 'a list \<times> 'a list" where
  "chronological_split_with_embargo df train_pct val_pct embargo =
     (let n = length df; train_end = share_of n train_pct; val_start = train_end + embargo;
          val_end = val_start + share_of n val_pct; test_start = val_end + embargo
      in (slice (0, train_end) df, slice (val_start, val_end) df, drop test_start df))"

text \<open>The loops end only if the step moves on or no window fits: a run without end is no value.\<close>

partial_function (option) walk_forward_splits :: "nat \<Rightarrow> nat \<Rightarrow> nat \<Rightarrow> nat \<Rightarrow> nat \<Rightarrow> nat \<Rightarrow> ((nat \<times> nat) \<times> (nat \<times> nat)) list option" where
  "walk_forward_splits n train_window test_window step embargo start =
     (if \<not> start + train_window + embargo + test_window \<le> n then Some []
      else let test_start = start + train_window + embargo
           in Option.bind (walk_forward_splits n train_window test_window step embargo (start + step))
                (\<lambda>ws. Some (((start, start + train_window), (test_start, test_start + test_window)) # ws)))"

partial_function (option) rolling_windows ::
  "nat \<Rightarrow> nat \<Rightarrow> nat \<Rightarrow> nat \<Rightarrow> nat \<Rightarrow> nat \<Rightarrow> nat \<Rightarrow> ((nat \<times> nat) \<times> (nat \<times> nat) \<times> (nat \<times> nat)) list option" where
  "rolling_windows n_rows train_window val_window test_window step embargo start =
     (let train_end = start + train_window; val_start = train_end + embargo; val_end = val_start + val_window;
          test_start = val_end + embargo; test_end = test_start + test_window
      in if test_end > n_rows then Some []
         else Option.bind (rolling_windows n_rows train_window val_window test_window step embargo (start + step))
                (\<lambda>ws. Some (((start, train_end), (val_start, val_end), (test_start, test_end)) # ws)))"

definition rolling_walk_forward_windows ::
  "nat \<Rightarrow> nat \<Rightarrow> nat \<Rightarrow> nat \<Rightarrow> nat \<Rightarrow> nat \<Rightarrow> ((nat \<times> nat) \<times> (nat \<times> nat) \<times> (nat \<times> nat)) list option" where
  "rolling_walk_forward_windows n_rows train_window val_window test_window step embargo =
     rolling_windows n_rows train_window val_window test_window step embargo 0"

section \<open>Signals of the model\<close>

record ml_signal_config =
  ml_probability_threshold :: f64
  ml_min_expected_value_r :: f64
  ml_cost_haircut_r :: f64

definition default_ml_signal_config :: ml_signal_config where
  "default_ml_signal_config =
     \<lparr>ml_probability_threshold = fl (45/100), ml_min_expected_value_r = fl (15/100), ml_cost_haircut_r = fl (5/100)\<rparr>"

record ml_row =
  mw_features :: "f64 option list"
  mw_atr :: "f64 option"
  mw_close :: f64

text \<open>The scaled model is a function of the feature vector to the probabilities of SHORT, NO_TRADE and LONG.\<close>

definition ml_signal_side :: "ml_signal_config \<Rightarrow> f64 \<Rightarrow> f64 \<Rightarrow> f64 \<Rightarrow> string option" where
  "ml_signal_side cfg reward_r short_p long_p =
     (let enough = (\<lambda>p. expected_value_r p reward_r 1 (ml_cost_haircut_r cfg) \<ge> ml_min_expected_value_r cfg)
      in if long_p \<ge> ml_probability_threshold cfg \<and> long_p > short_p then (if enough long_p then Some ''LONG'' else None)
         else if short_p \<ge> ml_probability_threshold cfg \<and> short_p > long_p then (if enough short_p then Some ''SHORT'' else None)
         else None)"

definition ml_levels :: "barrier_config \<Rightarrow> string \<Rightarrow> f64 \<Rightarrow> f64 \<Rightarrow> f64 \<Rightarrow> f64 \<Rightarrow> raw_setup" where
  "ml_levels cfg side entry_price a long_p short_p =
     (let sign = (if side = ''LONG'' then 1 else - 1);
          target = (\<lambda>m. fadd entry_price (fmul (fmul (fmul sign (tb_tp_atr_multiple cfg)) m) a))
      in \<lparr>rw_signal_type = side,
          rw_stop_loss = Some (if side = ''LONG'' then fsub entry_price (fmul (tb_sl_atr_multiple cfg) a)
                               else fadd entry_price (fmul (tb_sl_atr_multiple cfg) a)),
          rw_take_profit_1 = Some (fadd entry_price (fmul (fmul sign (tb_tp_atr_multiple cfg)) a)),
          rw_take_profit_2 = Some (target (3/2)), rw_take_profit_3 = Some (target 2),
          rw_long_probability = long_p, rw_short_probability = short_p\<rparr>)"

definition make_ml_signal_func ::
  "(f64 list \<Rightarrow> f64 \<times> f64 \<times> f64) \<Rightarrow> barrier_config \<Rightarrow> ml_signal_config \<Rightarrow> (ml_row list \<Rightarrow> raw_setup option) result" where
  "make_ml_signal_func predict_proba bc cfg =
     (if tb_sl_atr_multiple bc = 0 then Inl ZeroDivisionError
      else let reward_r = fdiv (tb_tp_atr_multiple bc) (tb_sl_atr_multiple bc)
           in Inr (\<lambda>d. if length d < 2 then None
                      else let row = last d
                           in if None \<in> set (mw_features row) then None
                              else case mw_atr row of
                                None \<Rightarrow> None
                              | Some a \<Rightarrow>
                                  if a \<le> 0 then None
                                  else case predict_proba (map the (mw_features row)) of
                                    (short_p, no_trade_p, long_p) \<Rightarrow>
                                      (case ml_signal_side cfg reward_r short_p long_p of
                                         None \<Rightarrow> None | Some side \<Rightarrow> Some (ml_levels bc side (mw_close row) a long_p short_p))))"

section \<open>What a label looks at\<close>

lemma walk_barriers_seen:
  "walk_barriers lv bs seen lh sh = (l, s, k) \<Longrightarrow> seen \<le> k \<and> k \<le> seen + length bs"
  by (induction lv bs seen lh sh rule: walk_barriers.induct) (fastforce simp: Let_def split: if_splits)+

lemma walk_barriers_window:
  assumes "walk_barriers lv bs seen lh sh = (l, s, k)" "take (k - seen) bs' = take (k - seen) bs" "length bs' = length bs"
  shows "walk_barriers lv bs' seen lh sh = (l, s, k)"
  using assms
proof (induction lv bs seen lh sh arbitrary: bs' rule: walk_barriers.induct)
  case (2 lv b bs seen lh sh)
  have "Suc seen \<le> k" using 2(2) walk_barriers_seen by (fastforce simp: Let_def split: if_splits)
  then have "k - seen = Suc (k - Suc seen)" by simp
  then obtain cs where bs': "bs' = b # cs" "take (k - Suc seen) cs = take (k - Suc seen) bs" "length cs = length bs"
    using 2(3,4) by (cases bs') auto
  show ?case using 2(1) [of _ _ cs] 2(2) bs'(2,3) by (auto simp: bs'(1) Let_def split: if_splits)
qed simp

text \<open>Both hits are those of all bars of the horizon: the loop only stops once both are decided.\<close>

lemma touch_decided: "fold (long_touch sl tp) bs (Some x) = Some x" "fold (short_touch sl tp) bs (Some x) = Some x"
  by (induction bs) (simp_all add: long_touch_def short_touch_def)

lemma walk_barriers_hits:
  "fst (walk_barriers lv bs seen lh sh) = fold (long_touch (lv_long_sl lv) (lv_long_tp lv)) bs lh"
  "fst (snd (walk_barriers lv bs seen lh sh)) = fold (short_touch (lv_short_sl lv) (lv_short_tp lv)) bs sh"
  by (induction lv bs seen lh sh rule: walk_barriers.induct) (auto simp: Let_def touch_decided)

definition first_reaches :: "(bar \<Rightarrow> bool) \<Rightarrow> (bar \<Rightarrow> bool) \<Rightarrow> bar list \<Rightarrow> bool" where
  "first_reaches good bad bs \<longleftrightarrow> (\<exists>i < length bs. good (bs ! i) \<and> (\<forall>j \<le> i. \<not> bad (bs ! j)))"

lemma first_reaches_simps [simp]:
  "\<not> first_reaches good bad []"
  "first_reaches good bad (b # bs) \<longleftrightarrow> \<not> bad b \<and> (good b \<or> first_reaches good bad bs)"
proof -
  show "\<not> first_reaches good bad []" by (simp add: first_reaches_def)
  show "first_reaches good bad (b # bs) \<longleftrightarrow> \<not> bad b \<and> (good b \<or> first_reaches good bad bs)"
    by (simp add: first_reaches_def less_Suc_eq_le [symmetric] Ex_less_Suc2 All_less_Suc2) blast
qed

lemma touch_first:
  "fold (long_touch sl tp) bs None = Some TP \<longleftrightarrow> first_reaches (\<lambda>b. tp \<le> b_high b) (\<lambda>b. b_low b \<le> sl) bs"
  "fold (short_touch sl tp) bs None = Some TP \<longleftrightarrow> first_reaches (\<lambda>b. b_low b \<le> tp) (\<lambda>b. sl \<le> b_high b) bs"
  by (induction bs) (auto simp: long_touch_def short_touch_def touch_decided)

lemma first_reaches_exclusive:
  assumes "first_reaches good bad bs" "first_reaches good' bad' bs" "\<And>b. good b \<Longrightarrow> bad' b" "\<And>b. good' b \<Longrightarrow> bad b"
  shows False
proof -
  obtain i j where "good (bs ! i)" "\<forall>k \<le> i. \<not> bad (bs ! k)" "good' (bs ! j)" "\<forall>k \<le> j. \<not> bad' (bs ! k)"
    using assms(1,2) by (auto simp: first_reaches_def)
  then show False using assms(3,4) by (cases i j rule: le_cases) blast+
qed

lemma label_window_exact:
  assumes "label_at cfg rr_ok df atrs t = Some r" "length df' = length df" "atrs' ! t = atrs ! t"
    "\<And>i. t < i \<Longrightarrow> i \<le> lb_end_idx r \<Longrightarrow> df' ! i = df ! i"
  shows "label_at cfg rr_ok df' atrs' t = Some r \<and> t < lb_end_idx r \<and> lb_end_idx r \<le> t + 1 + tb_horizon_bars cfg \<and> lb_end_idx r < length df"
proof -
  note r = assms(1) [unfolded label_at_def Let_def]
  let ?H = "tb_horizon_bars cfg" and ?e = "t + 1"
  have len: "?e + ?H < length df" using r by (auto split: if_splits)
  show ?thesis
  proof (cases "\<exists>a. atrs ! t = Some a \<and> \<not> a \<le> 0 \<and> rr_ok")
    case False
    then have "lb_end_idx r = ?e" "label_at cfg rr_ok df' atrs' t = Some r"
      using assms(1-3) by (auto simp: label_at_def Let_def split: option.splits if_splits)
    then show ?thesis using len by simp
  next
    case True
    then obtain a where a: "atrs ! t = Some a" "\<not> a \<le> 0" "rr_ok" by blast
    let ?bars = "\<lambda>df. take (?H + 1) (drop ?e df)" and ?lv = "barriers_at cfg (b_open (df ! ?e)) a"
    obtain l s k where walk: "walk_barriers ?lv (?bars df) 0 None None = (l, s, k)" by (metis prod_cases3)
    have ends: "lb_end_idx r = ?e + k - 1" using r a len walk by (auto split: if_splits)
    have "?bars df \<noteq> []" using len by auto
    then have "0 < k" using walk walk_barriers_seen [of ?lv "tl (?bars df)" 1] by (cases "?bars df") (fastforce simp: Let_def split: if_splits)+
    moreover have "k \<le> ?H + 1" using walk_barriers_seen [OF walk] by simp
    moreover have "take k (?bars df') = take k (?bars df)"
      using assms(2,4) ends len \<open>k \<le> ?H + 1\<close> by (intro nth_equalityI) auto
    ultimately have same: "walk_barriers ?lv (?bars df') 0 None None = (l, s, k)" "df' ! ?e = df ! ?e"
      using walk_barriers_window [OF walk, of "?bars df'"] assms(2,4) ends by auto
    have "label_at cfg rr_ok df' atrs' t = Some r"
      using assms(1-3) a len walk same by (simp add: label_at_def Let_def)
    then show ?thesis using ends len \<open>0 < k\<close> \<open>k \<le> ?H + 1\<close> by simp
  qed
qed

text \<open>
  A label's last index is the truth: the label of row t depends on the ATR of t and the bars after t up to that
  index, which is at most one bar beyond the horizon; any other history with these has the same label.
\<close>
theorem label_window:
  assumes "label_at cfg rr_ok df atrs t = Some r" "length df' = length df" "atrs' ! t = atrs ! t"
    "\<And>i. t < i \<Longrightarrow> i \<le> lb_end_idx r \<Longrightarrow> df' ! i = df ! i"
  shows "label_at cfg rr_ok df' atrs' t = Some r \<and> t < lb_end_idx r \<and> lb_end_idx r \<le> t + 1 + tb_horizon_bars cfg \<and> lb_end_idx r < length df"
  using assms by (rule label_window_exact)


section \<open>Folds\<close>

lemma filter_less_upt: "filter (\<lambda>t. t + c < m) [0..<k] = [0..<min (m - c) k]"
proof (induction k)
  case (Suc k)
  have "min (m - c) (Suc k) = (if k + c < m then Suc k else min (m - c) k)" by auto
  moreover have "min (m - c) k = k" if "k + c < m" using that by simp
  ultimately show ?case using Suc by simp
qed simp

lemma label_rows:
  assumes "compute_triple_barrier_labels cfg df atrs = Inr rows"
  defines "ok \<equiv> fdiv (tb_tp_atr_multiple cfg) (tb_sl_atr_multiple cfg) \<ge> tb_min_risk_reward cfg"
  shows "rows = map (\<lambda>t. (df ! t, the (label_at cfg ok df atrs t))) [0..<length df - Suc (tb_horizon_bars cfg)]"
    "t < length df - Suc (tb_horizon_bars cfg) \<Longrightarrow> label_at cfg ok df atrs t \<noteq> None"
proof -
  have some: "label_at cfg ok df atrs t \<noteq> None \<longleftrightarrow> t + Suc (tb_horizon_bars cfg) < length df" for t
    by (auto simp: label_at_def Let_def split: option.splits prod.splits)
  moreover have "the (map_option (Pair x) y) = (x, the y)" if "y \<noteq> None" for x :: bar and y :: "label_row option" using that by auto
  ultimately have "rows = map (\<lambda>t. (df ! t, the (label_at cfg ok df atrs t))) (filter (\<lambda>t. t + Suc (tb_horizon_bars cfg) < length df) [0..<length df - 1])"
    using assms(1) by (auto simp: compute_triple_barrier_labels_def Let_def List.map_filter_def ok_def comp_def split: if_splits
      intro!: map_cong filter_cong)
  then show "rows = map (\<lambda>t. (df ! t, the (label_at cfg ok df atrs t))) [0..<length df - Suc (tb_horizon_bars cfg)]"
    unfolding filter_less_upt by (simp add: min_def)
  show "t < length df - Suc (tb_horizon_bars cfg) \<Longrightarrow> label_at cfg ok df atrs t \<noteq> None" using some [of t] by simp
qed

text \<open>The windows in closed form: every start at a multiple of the step from which all three windows fit.\<close>

definition window_at :: "nat \<Rightarrow> nat \<Rightarrow> nat \<Rightarrow> nat \<Rightarrow> nat \<Rightarrow> (nat \<times> nat) \<times> (nat \<times> nat) \<times> (nat \<times> nat)" where
  "window_at tw vw sw embargo start =
     ((start, start + tw), (start + tw + embargo, start + tw + embargo + vw),
      (start + tw + embargo + vw + embargo, start + tw + embargo + vw + embargo + sw))"

lemma rolling_windows_closed:
  assumes "0 < step" "width = tw + embargo + vw + embargo + sw"
  shows "rolling_windows n tw vw sw step embargo start =
    Some (map (\<lambda>k. window_at tw vw sw embargo (start + k * step)) [0..<(if start + width \<le> n then (n - width - start) div step + 1 else 0)])"
proof (induction "Suc n - start" arbitrary: start rule: less_induct)
  case less
  show ?case
  proof (cases "start + width \<le> n")
    case False
    then show ?thesis by (subst rolling_windows.simps) (simp add: Let_def assms(2) algebra_simps)
  next
    case True
    let ?K = "\<lambda>start. if start + width \<le> n then (n - width - start) div step + 1 else 0"
    have IH: "rolling_windows n tw vw sw step embargo (start + step) =
        Some (map (\<lambda>k. window_at tw vw sw embargo (start + step + k * step)) [0..<?K (start + step)])"
      by (rule less) (use True assms(1) in simp)
    have "?K start = Suc (?K (start + step))"
      using True assms(1) le_div_geq [of step "n - width - start"] by (auto simp: ac_simps not_le)
    then have "[0..<?K start] = 0 # map Suc [0..<?K (start + step)]" by (simp add: upt_conv_Cons map_Suc_upt del: upt_Suc)
    then have "map (\<lambda>k. window_at tw vw sw embargo (start + k * step)) [0..<?K start] =
        window_at tw vw sw embargo start # map (\<lambda>k. window_at tw vw sw embargo (start + step + k * step)) [0..<?K (start + step)]"
      by (simp add: comp_def algebra_simps)
    then show ?thesis
      using True by (subst rolling_windows.simps) (simp only: Let_def IH, simp add: window_at_def assms(2) algebra_simps)
  qed
qed

lemma rolling_windows_exact:
  "rolling_walk_forward_windows n tw vw sw step embargo =
     (if step = 0 \<and> tw + embargo + vw + embargo + sw \<le> n then None
      else Some (map (\<lambda>k. window_at tw vw sw embargo (k * step))
        [0..<(if tw + embargo + vw + embargo + sw \<le> n then (n - (tw + embargo + vw + embargo + sw)) div step + 1 else 0)]))"
proof (cases "step = 0")
  case True
  have "rolling_windows n tw vw sw 0 embargo 0 \<noteq> Some ws" if fits: "tw + embargo + vw + embargo + sw \<le> n" for ws
  proof
    assume ws: "rolling_windows n tw vw sw 0 embargo 0 = Some ws"
    then have "ws = window_at tw vw sw embargo 0 # ws"
      using fits by (subst (asm) rolling_windows.simps) (simp add: ws Let_def window_at_def algebra_simps)
    then show False by (metis not_Cons_self2)
  qed
  then have "rolling_windows n tw vw sw 0 embargo 0 = None" if "tw + embargo + vw + embargo + sw \<le> n" using that
    by (cases "rolling_windows n tw vw sw 0 embargo 0") auto
  moreover have "rolling_windows n tw vw sw 0 embargo 0 = Some []" if "\<not> tw + embargo + vw + embargo + sw \<le> n"
    using that by (subst rolling_windows.simps) (simp add: Let_def algebra_simps)
  ultimately show ?thesis using True by (simp add: rolling_walk_forward_windows_def)
next
  case False
  then show ?thesis
    using rolling_windows_closed [of step "tw + embargo + vw + embargo + sw" tw embargo vw sw n 0]
    by (simp add: rolling_walk_forward_windows_def)
qed

text \<open>
  C33: The generator of folds ends exactly if it moves on or nothing fits: with a positive step it yields every start at a multiple of
  the step from which training, validation and test window with their embargoes fit, in order; with a step
  of zero and a window that fits it never returns.
\<close>
theorem rolling_windows_end:
  "rolling_walk_forward_windows n tw vw sw step embargo =
     (if step = 0 \<and> tw + embargo + vw + embargo + sw \<le> n then None
      else Some (map (\<lambda>k. window_at tw vw sw embargo (k * step))
        [0..<(if tw + embargo + vw + embargo + sw \<le> n then (n - (tw + embargo + vw + embargo + sw)) div step + 1 else 0)]))"
  by (rule rolling_windows_exact)

lemma rolling_window_shape:
  assumes "rolling_walk_forward_windows n tw vw sw step embargo = Some ws" "w \<in> set ws"
  obtains start where "w = window_at tw vw sw embargo start" "start + tw + embargo + vw + embargo + sw \<le> n"
proof -
  let ?width = "tw + embargo + vw + embargo + sw"
  have "0 < step \<or> \<not> ?width \<le> n" using assms(1) by (auto simp: rolling_windows_exact split: if_splits)
  then have ws: "ws = map (\<lambda>k. window_at tw vw sw embargo (k * step)) [0..<(if ?width \<le> n then (n - ?width) div step + 1 else 0)]"
    using assms(1) by (auto simp: rolling_windows_exact split: if_splits)
  then obtain k where k: "w = window_at tw vw sw embargo (k * step)" "?width \<le> n" "k \<le> (n - ?width) div step"
    using assms(2) by (auto split: if_splits)
  have "k * step \<le> (n - ?width) div step * step" using k(3) by (rule mult_le_mono1)
  also have "\<dots> \<le> n - ?width" by simp
  finally show ?thesis using that [OF k(1)] k(2) by simp
qed

text \<open>
  C20: No label of one window looks into the next.  With the embargo of the pipeline, the horizon and two bars, the labels of a training
  window are the same for every history that agrees with this one before the validation window begins, and the labels of a
  validation window for every history that agrees with it before the test window begins.
\<close>
theorem training_labels_purged:
  assumes "compute_triple_barrier_labels cfg df atrs = Inr rows" "compute_triple_barrier_labels cfg df' atrs' = Inr rows'" "length df' = length df"
    "rolling_walk_forward_windows (length rows) tw vw sw step (tb_horizon_bars cfg + 2) = Some ws" "(train, val, test) \<in> set ws"
  shows "((\<forall>i < fst val. df' ! i = df ! i \<and> atrs' ! i = atrs ! i) \<longrightarrow> slice train rows' = slice train rows) \<and>
    ((\<forall>i < fst test. df' ! i = df ! i \<and> atrs' ! i = atrs ! i) \<longrightarrow> slice val rows' = slice val rows)"
proof -
  let ?H = "tb_horizon_bars cfg"
  have rows: "length rows = length df - Suc ?H" "length rows' = length rows"
    using label_rows(1) [OF assms(1)] label_rows(1) [OF assms(2)] assms(3) by simp_all
  have same: "slice w rows' = slice w rows"
    if agree: "\<forall>i < snd w + ?H + 2. df' ! i = df ! i \<and> atrs' ! i = atrs ! i" and w: "snd w \<le> length rows" for w
  proof -
    let ?ok = "fdiv (tb_tp_atr_multiple cfg) (tb_sl_atr_multiple cfg) \<ge> tb_min_risk_reward cfg"
    have "rows' ! t = rows ! t" if t: "t < snd w" for t
    proof -
      have range: "t < length df - Suc ?H" using t w rows(1) by simp
      then obtain r where r: "label_at cfg ?ok df atrs t = Some r" using label_rows(2) [OF assms(1)] by blast
      have "lb_end_idx r \<le> t + 1 + ?H" using label_window_exact [OF r refl refl] by simp
      then have "label_at cfg ?ok df' atrs' t = Some r"
        using label_window_exact [OF r assms(3)] agree t by simp
      then show ?thesis
        using r range agree t assms(3) label_rows(1) [OF assms(1)] label_rows(1) [OF assms(2)] by simp
    qed
    then have "take (snd w) rows' = take (snd w) rows" using w rows(2) by (intro nth_equalityI) auto
    then show ?thesis by (simp add: slice_def)
  qed
  obtain start where "(train, val, test) = window_at tw vw sw (?H + 2) start" "start + tw + (?H + 2) + vw + (?H + 2) + sw \<le> length rows"
    by (rule rolling_window_shape [OF assms(4,5)])
  then show ?thesis using same [of train] same [of val] by (simp add: window_at_def)
qed

section \<open>Signals pass both gates\<close>

text \<open>
  A trade of the model has passed both gates: the probability of its side reaches the threshold and exceeds that of the other
  side, and its expected value, after costs, reaches the minimum; its stop is not beyond the price and its
  three targets lie ahead of it, each at least as far as the one before.
\<close>
theorem ml_signal_gated:
  assumes "make_ml_signal_func predict_proba bc cfg = Inr sig" "sig d = Some r" "0 \<le> tb_sl_atr_multiple bc" "0 \<le> tb_tp_atr_multiple bc"
    "fl (mw_close (last d)) = mw_close (last d)"
  defines "p \<equiv> (if rw_signal_type r = ''LONG'' then rw_long_probability r else rw_short_probability r)"
    and "q \<equiv> (if rw_signal_type r = ''LONG'' then rw_short_probability r else rw_long_probability r)"
  shows "ml_probability_threshold cfg \<le> p \<and> q < p \<and>
    ml_min_expected_value_r cfg \<le> expected_value_r p (fdiv (tb_tp_atr_multiple bc) (tb_sl_atr_multiple bc)) 1 (ml_cost_haircut_r cfg) \<and>
    sided (mw_close (last d)) r \<and>
    (\<exists>t1 t2 t3. rw_take_profit_1 r = Some t1 \<and> rw_take_profit_2 r = Some t2 \<and> rw_take_profit_3 r = Some t3 \<and>
       (if rw_signal_type r = ''LONG'' then t1 \<le> t2 \<and> t2 \<le> t3 else t3 \<le> t2 \<and> t2 \<le> t1))"
proof -
  let ?e = "mw_close (last d)" and ?R = "fdiv (tb_tp_atr_multiple bc) (tb_sl_atr_multiple bc)" and ?T = "fl (tb_tp_atr_multiple bc)"
  obtain a sp lp side where made: "0 < a" "ml_signal_side cfg ?R sp lp = Some side" "r = ml_levels bc side ?e a lp sp"
    using assms(1,2) by (auto simp: make_ml_signal_func_def Let_def not_le split: if_splits option.splits prod.splits)
  have side: "side = ''LONG'' \<or> side = ''SHORT''" using made(2) by (auto simp: ml_signal_side_def Let_def split: if_splits)
  have gates: "ml_probability_threshold cfg \<le> p \<and> q < p \<and> ml_min_expected_value_r cfg \<le> expected_value_r p ?R 1 (ml_cost_haircut_r cfg)"
    using made(2) by (auto simp: p_def q_def made(3) ml_levels_def ml_signal_side_def Let_def split: if_splits)
  have T: "0 \<le> ?T" using assms(4) by (rule fl_nonneg)
  have grow: "?T \<le> fmul ?T (3/2)" "fmul ?T (3/2) \<le> fmul ?T 2"
    using T fl_mono [of ?T "?T * (3/2)"] by (simp_all add: fmul_def fl_mono)
  then have steps: "0 \<le> fmul ?T a" "fmul ?T a \<le> fmul (fmul ?T (3/2)) a" "fmul (fmul ?T (3/2)) a \<le> fmul (fmul ?T 2) a"
    using T made(1) by (simp_all add: fmul_nonneg fmul_mono)
  have up: "?e \<le> fadd ?e x" "fsub ?e x \<le> ?e" if "0 \<le> x" for x
    using that fl_mono [of ?e "?e + x"] fl_mono [of "?e - x" ?e] by (simp_all add: fadd_def fsub_def assms(5))
  have neg: "fadd ?e (- x) = fsub ?e x" for x by (simp add: fadd_def fsub_def)
  have mono: "fadd ?e x \<le> fadd ?e y" "fsub ?e y \<le> fsub ?e x" if "x \<le> y" for x y using that by (simp_all add: fadd_def fsub_def fl_mono)
  have stop: "0 \<le> fmul (tb_sl_atr_multiple bc) a" using assms(3) made(1) by (simp add: fmul_nonneg)
  show ?thesis using gates side steps up(1) [OF stop] up(2) [OF stop]
    by (elim disjE) (simp_all add: made(3) ml_levels_def sided_def Let_def map_filter_simps fmul_minus neg up mono
        fmul_def [of 1] fmul_def [of "- 1"] fl_minus)
qed

section \<open>Witnesses\<close>

definition demo_barrier_config :: barrier_config where "demo_barrier_config = default_barrier_config\<lparr>tb_horizon_bars := 1\<rparr>"

definition demo_label_bar :: "f64 \<Rightarrow> bar" where
  "demo_label_bar h = \<lparr>b_timestamp = 0, b_open = 100, b_high = h, b_low = 100, b_close = 100, b_volume = 1\<rparr>"

definition demo_label_row :: label_row where
  "demo_label_row = \<lparr>lb_label = LONG_LABEL, lb_outcome = ''long_win'', lb_entry_price = Some 100,
     lb_barriers = Some (barriers_at demo_barrier_config 100 1), lb_end_idx = 1\<rparr>"

lemma demo_levels: "barriers_at demo_barrier_config 100 1 = \<lparr>lv_long_tp = 102, lv_long_sl = 99, lv_short_tp = 98, lv_short_sl = 101\<rparr>"
  by (simp add: barriers_at_def demo_barrier_config_def default_barrier_config_def fadd_def fsub_def fmul_def fl_numeral)

lemma demo_label:
  "label_at demo_barrier_config True [demo_label_bar 100, demo_label_bar 105, demo_label_bar 100, demo_label_bar 100] (replicate 4 (Some 1)) 0 =
     Some demo_label_row"
proof -
  have "tb_horizon_bars demo_barrier_config = 1" by (simp add: demo_barrier_config_def)
  then show ?thesis
    by (simp add: label_at_def demo_levels demo_label_row_def) (simp add: demo_label_bar_def demo_levels long_touch_def short_touch_def)
qed

theorem label_window_witness:
  "label_at demo_barrier_config True [demo_label_bar 100, demo_label_bar 105, demo_label_bar 300, demo_label_bar 7] (replicate 4 (Some 1)) 0 =
     Some demo_label_row"
proof -
  have "[demo_label_bar 100, demo_label_bar 105, demo_label_bar 300, demo_label_bar 7] ! i =
      [demo_label_bar 100, demo_label_bar 105, demo_label_bar 100, demo_label_bar 100] ! i" if "0 < i" "i \<le> lb_end_idx demo_label_row" for i
    using that by (simp add: demo_label_row_def le_Suc_eq)
  then show ?thesis using label_window [OF demo_label, of _ "replicate 4 (Some 1)"] by simp
qed


theorem training_labels_purged_witness:
  "\<exists>rows rows'. compute_triple_barrier_labels demo_barrier_config (replicate 11 (demo_label_bar 100)) (replicate 11 (Some 1)) = Inr rows \<and>
     compute_triple_barrier_labels demo_barrier_config (replicate 10 (demo_label_bar 100) @ [demo_label_bar 900]) (replicate 11 (Some 1)) = Inr rows' \<and>
     slice (0, 1) rows' = slice (0, 1) rows"
proof -
  let ?df = "replicate 11 (demo_label_bar 100)" and ?df' = "replicate 10 (demo_label_bar 100) @ [demo_label_bar 900]"
  have config: "tb_sl_atr_multiple demo_barrier_config \<noteq> 0" "tb_horizon_bars demo_barrier_config = 1"
    by (simp_all add: demo_barrier_config_def default_barrier_config_def)
  obtain rows rows' where rows: "compute_triple_barrier_labels demo_barrier_config ?df (replicate 11 (Some 1)) = Inr rows"
      "compute_triple_barrier_labels demo_barrier_config ?df' (replicate 11 (Some 1)) = Inr rows'"
    using config(1) by (simp add: compute_triple_barrier_labels_def Let_def)
  have "length rows = 9" using label_rows(1) [OF rows(1)] config(2) by simp
  then have "rolling_walk_forward_windows (length rows) 1 1 1 1 (tb_horizon_bars demo_barrier_config + 2) = Some [window_at 1 1 1 3 0]"
    by (simp add: rolling_windows_exact config(2) numeral_3_eq_3)
  then show ?thesis
    using training_labels_purged [OF rows, of 1 1 1 1 "[window_at 1 1 1 3 0]" "(0, 1)" "(4, 5)" "(8, 9)"] rows
    by (auto simp: window_at_def nth_append)
qed

definition demo_ml_rows :: "ml_row list" where "demo_ml_rows = replicate 2 \<lparr>mw_features = [Some 1], mw_atr = Some 1, mw_close = 100\<rparr>"

theorem ml_signal_gated_witness: "sided 100 (ml_levels default_barrier_config ''LONG'' 100 1 1 0)"
proof -
  let ?cfg = "\<lparr>ml_probability_threshold = 1/2, ml_min_expected_value_r = 1, ml_cost_haircut_r = 0\<rparr>"
  obtain sig where sig: "make_ml_signal_func (\<lambda>_. (0, 0, 1)) default_barrier_config ?cfg = Inr sig"
      "sig demo_ml_rows = Some (ml_levels default_barrier_config ''LONG'' 100 1 1 0)"
    by (simp add: make_ml_signal_func_def default_barrier_config_def demo_ml_rows_def numeral_2_eq_2 ml_signal_side_def expected_value_r_def
          fdiv_def fmul_def fsub_def fl_numeral Let_def)
  then show ?thesis using ml_signal_gated [OF sig] by (simp add: default_barrier_config_def demo_ml_rows_def fl_numeral numeral_2_eq_2)
qed

end
