(* ===== verification/Backtester.thy ===== *)
theory Backtester
  imports RiskEngine Strategies LiveSizing
begin

text \<open>
  \<open>services/backtester/engine.py\<close>, \<open>exchange_spec.py\<close> and \<open>sanity_checks.py\<close>: the bar-by-bar
  backtest over the risk engine, its statistics, and the checks a result must pass.  The strategy
  is a function of the bars it may see.  The mean of NumPy and the Sharpe and Sortino
  ratios of pandas are arguments.  A division by zero is an error here, also where the operand
  comes from a data frame and NumPy would give an infinity.
\<close>

section \<open>Configuration and data\<close>

record exchange_spec =
  xs_maker_fee :: f64
  xs_taker_fee :: f64
  xs_funding_interval_hours :: int
  xs_slippage_bps :: f64
  xs_spread_bps :: f64
  xs_tick_size :: f64
  xs_qty_precision :: nat
  xs_min_qty :: f64
  xs_max_leverage :: int
  xs_maintenance_margin_pct :: f64

definition default_exchange_spec :: exchange_spec where
  "default_exchange_spec =
     \<lparr>xs_maker_fee = fl (2 / 10000), xs_taker_fee = fl (4 / 10000), xs_funding_interval_hours = 8, xs_slippage_bps = 1,
      xs_spread_bps = 1/2, xs_tick_size = fl (1 / 10), xs_qty_precision = 3, xs_min_qty = fl (1 / 1000),
      xs_max_leverage = 5, xs_maintenance_margin_pct = 1/2\<rparr>"

definition xs_slippage_rate :: "exchange_spec \<Rightarrow> f64" where "xs_slippage_rate x = fdiv (xs_slippage_bps x) 10000"
definition xs_spread_rate :: "exchange_spec \<Rightarrow> f64" where "xs_spread_rate x = fdiv (xs_spread_bps x) 10000"

definition round_qty :: "exchange_spec \<Rightarrow> f64 \<Rightarrow> f64" where
  "round_qty x q = (let r = pyround (xs_qty_precision x) q in if r \<ge> xs_min_qty x then r else 0)"

text \<open>\<open>round(y)\<close> without a number of digits is an integer; multiplying converts it back.\<close>

definition round_price :: "exchange_spec \<Rightarrow> f64 \<Rightarrow> f64 result" where
  "round_price x price =
     (if xs_tick_size x \<le> 0 then Inr price
      else bindr (int_to_float (round_half_even (fdiv price (xs_tick_size x)))) (\<lambda>n. Inr (fmul n (xs_tick_size x))))"

record backtest_config =
  bk_initial_capital :: f64
  bk_exchange_spec :: exchange_spec
  bk_funding_rate_avg :: f64
  bk_risk_config :: risk_config

definition default_backtest_config :: backtest_config where
  "default_backtest_config =
     \<lparr>bk_initial_capital = 10000, bk_exchange_spec = default_exchange_spec, bk_funding_rate_avg = fl (1 / 10000),
      bk_risk_config = default_risk_config\<rparr>"

definition bk_fee_rate :: "backtest_config \<Rightarrow> f64" where "bk_fee_rate c = xs_taker_fee (bk_exchange_spec c)"
definition bk_slippage_rate :: "backtest_config \<Rightarrow> f64" where "bk_slippage_rate c = xs_slippage_rate (bk_exchange_spec c)"

definition bk_funding_interval_hours :: "backtest_config \<Rightarrow> int" where
  "bk_funding_interval_hours c = xs_funding_interval_hours (bk_exchange_spec c)"

text \<open>The dictionary a strategy returns: keys it leaves out take the value the engine falls back to.\<close>

record backtest_signal =
  bg_signal_type :: "string option"
  bg_stop_loss :: "f64 option"
  bg_take_profit_1 :: "f64 option"
  bg_leverage :: "int option"
  bg_position_pct :: "f64 option"
  bg_market_regime :: "string option"

record backtest_trade =
  bt_trade_id :: nat
  bt_side :: string
  bt_entry_price :: f64
  bt_entry_time :: datetime
  bt_exit_price :: "f64 option"
  bt_exit_time :: "datetime option"
  bt_stop_loss :: "f64 option"
  bt_take_profit :: "f64 option"
  bt_quantity :: f64
  bt_leverage :: int
  bt_pnl :: f64
  bt_pnl_pct :: f64
  bt_fees :: f64
  bt_funding :: f64
  bt_r_multiple :: f64
  bt_exit_reason :: string
  bt_market_regime :: string

record equity_point =
  ep_timestamp :: datetime
  ep_equity :: f64
  ep_price :: f64

text \<open>The variables of \<open>run\<close>; the pointer into the funding events is the list of those still to come.\<close>

record backtest_state =
  bs_trades :: "backtest_trade list"
  bs_equity_curve :: "equity_point list"
  bs_equity :: f64
  bs_open_trade :: "backtest_trade option"
  bs_pending_signal :: "backtest_signal option"
  bs_trade_counter :: nat
  bs_funding_events :: "(datetime \<times> f64) list"
  bs_risk_engine :: risk_engine

section \<open>Opening\<close>

definition open_backtest_trade ::
  "backtest_config \<Rightarrow> risk_engine \<Rightarrow> backtest_signal \<Rightarrow> f64 \<Rightarrow> datetime \<Rightarrow> nat \<Rightarrow> string \<Rightarrow> backtest_trade result" where
  "open_backtest_trade c e sg price timestamp n regime =
     (let side = (case bg_signal_type sg of None \<Rightarrow> ''LONG'' | Some s \<Rightarrow> s);
          sl = bg_stop_loss sg;
          leverage = min (case bg_leverage sg of None \<Rightarrow> 1 | Some l \<Rightarrow> l) (rc_max_leverage (bk_risk_config c));
          entry_price = (if side = ''LONG'' then fmul price (fadd 1 (bk_slippage_rate c))
                         else fmul price (fsub 1 (bk_slippage_rate c)));
          sized = (case bg_position_pct sg of
              Some pct \<Rightarrow>
                let notional = fmul (fmul (rs_current_equity (re_state e)) pct) (float_of_int leverage)
                in Inr (if 0 < entry_price then fdiv notional entry_price else 0)
            | None \<Rightarrow> if truthy sl then calculate_position_size e entry_price (the sl) leverage else Inr 0)
      in bindr sized (\<lambda>quantity.
           Inr \<lparr>bt_trade_id = n, bt_side = side, bt_entry_price = entry_price, bt_entry_time = timestamp,
                bt_exit_price = None, bt_exit_time = None, bt_stop_loss = sl, bt_take_profit = bg_take_profit_1 sg,
                bt_quantity = quantity, bt_leverage = leverage, bt_pnl = 0, bt_pnl_pct = 0,
                bt_fees = fmul (fmul entry_price quantity) (bk_fee_rate c), bt_funding = 0, bt_r_multiple = 0,
                bt_exit_reason = [], bt_market_regime = regime\<rparr>))"

text \<open>The order decided on the bar before is filled at the open of this bar, or dropped.\<close>

definition fill_pending :: "backtest_config \<Rightarrow> datetime \<Rightarrow> f64 \<Rightarrow> backtest_state \<Rightarrow> backtest_state result" where
  "fill_pending c timestamp open_price s =
     (case (bs_pending_signal s, bs_open_trade s) of
        (Some sg, None) \<Rightarrow>
          (let (e, allowed, _) = can_trade timestamp (bs_risk_engine s)
           in if \<not> allowed then Inr (s\<lparr>bs_pending_signal := None, bs_risk_engine := e\<rparr>)
              else let n = bs_trade_counter s + 1;
                       regime = (case bg_market_regime sg of None \<Rightarrow> ''UNCERTAIN'' | Some r \<Rightarrow> r)
              in bindr (open_backtest_trade c e sg open_price timestamp n regime) (\<lambda>t.
                   Inr (s\<lparr>bs_pending_signal := None, bs_trade_counter := n, bs_open_trade := Some t,
                          bs_risk_engine := record_position_open e\<rparr>)))
      | _ \<Rightarrow> Inr s)"

section \<open>Funding\<close>

definition funding_cost :: "backtest_trade \<Rightarrow> f64 \<Rightarrow> f64 \<Rightarrow> f64" where
  "funding_cost t mark_price rate =
     (let notional = fmul (bt_quantity t) mark_price
      in if bt_side t = ''LONG'' then fmul notional rate else fmul (- notional) rate)"

fun apply_funding_events ::
  "datetime \<Rightarrow> f64 \<Rightarrow> backtest_trade option \<Rightarrow> (datetime \<times> f64) list \<Rightarrow> backtest_trade option \<times> (datetime \<times> f64) list" where
  "apply_funding_events bar_timestamp mark_price t [] = (t, [])"
| "apply_funding_events bar_timestamp mark_price t ((ts, rate) # es) =
     (if bar_timestamp < ts then (t, (ts, rate) # es)
      else apply_funding_events bar_timestamp mark_price
             (case t of
                None \<Rightarrow> None
              | Some tr \<Rightarrow> if bt_entry_time tr < ts
                          then Some (tr\<lparr>bt_funding := fadd (bt_funding tr) (funding_cost tr mark_price rate)\<rparr>) else Some tr) es)"

definition estimate_flat_funding :: "backtest_config \<Rightarrow> backtest_trade \<Rightarrow> datetime \<Rightarrow> f64 result" where
  "estimate_flat_funding c t exit_time =
     bindr (py_div (fdiv (total_seconds (exit_time - bt_entry_time t)) 3600) (float_of_int (bk_funding_interval_hours c))) (\<lambda>q.
     bindr (int_to_float (max 1 (py_int q))) (\<lambda>periods.
       Inr (fmul (fmul (fmul (bt_entry_price t) (bt_quantity t)) (bk_funding_rate_avg c)) periods)))"

section \<open>Closing\<close>

definition calculate_pnl :: "backtest_trade \<Rightarrow> f64 \<Rightarrow> f64" where
  "calculate_pnl t exit_price =
     fmul (fmul (if bt_side t = ''LONG'' then fsub exit_price (bt_entry_price t) else fsub (bt_entry_price t) exit_price)
       (bt_quantity t)) (float_of_int (bt_leverage t))"

definition resolve_stop_fill :: "backtest_config \<Rightarrow> f64 \<Rightarrow> f64 \<Rightarrow> string \<Rightarrow> f64" where
  "resolve_stop_fill c open_price stop_loss side =
     (if side = ''LONG''
      then fmul (if open_price \<le> stop_loss then open_price else stop_loss) (fsub 1 (bk_slippage_rate c))
      else fmul (if open_price \<ge> stop_loss then open_price else stop_loss) (fadd 1 (bk_slippage_rate c)))"

text \<open>The price and the reason of an exit on a bar, if it has one: the stop is looked at first.\<close>

definition exit_on_bar :: "backtest_config \<Rightarrow> backtest_trade \<Rightarrow> bar \<Rightarrow> (f64 \<times> string) option" where
  "exit_on_bar c t b =
     (let sl = bt_stop_loss t; tp = bt_take_profit t
      in if bt_side t = ''LONG'' then
           if truthy sl \<and> b_low b \<le> the sl then Some (resolve_stop_fill c (b_open b) (the sl) ''LONG'', ''stop_loss'')
           else if truthy tp \<and> b_high b \<ge> the tp then Some (fmul (the tp) (fsub 1 (bk_slippage_rate c)), ''take_profit'')
           else None
         else
           if truthy sl \<and> b_high b \<ge> the sl then Some (resolve_stop_fill c (b_open b) (the sl) ''SHORT'', ''stop_loss'')
           else if truthy tp \<and> b_low b \<le> the tp then Some (fmul (the tp) (fadd 1 (bk_slippage_rate c)), ''take_profit'')
           else None)"

text \<open>What both kinds of closing do: the profit before costs, the exit fee, the funding, the profit after costs.\<close>

definition close_backtest_trade ::
  "backtest_config \<Rightarrow> bool \<Rightarrow> f64 \<Rightarrow> string \<Rightarrow> datetime \<Rightarrow> backtest_trade \<Rightarrow> backtest_trade result" where
  "close_backtest_trade c use_real_funding price reason timestamp t =
     (let fees = fadd (bt_fees t) (fmul (fmul price (bt_quantity t)) (bk_fee_rate c))
      in bindr (if use_real_funding then Inr (bt_funding t) else estimate_flat_funding c t timestamp) (\<lambda>funding.
           let pnl = fsub (calculate_pnl t price) (fadd fees funding);
               notional = fmul (bt_entry_price t) (bt_quantity t)
           in Inr (t\<lparr>bt_exit_price := Some price, bt_exit_time := Some timestamp, bt_exit_reason := reason,
                     bt_fees := fees, bt_funding := funding, bt_pnl := pnl,
                     bt_pnl_pct := (if 0 < notional then fmul (fdiv pnl notional) 100 else 0)\<rparr>)))"

definition trade_r_multiple :: "backtest_trade \<Rightarrow> f64 result" where
  "trade_r_multiple t =
     (let risk = (if truthy (bt_stop_loss t) then \<bar>fsub (bt_entry_price t) (the (bt_stop_loss t))\<bar> else 1)
      in if 0 < risk \<and> 0 < bt_quantity t then py_div (bt_pnl t) (fmul risk (bt_quantity t)) else Inr 0)"

definition manage_position ::
  "backtest_config \<Rightarrow> bool \<Rightarrow> backtest_trade \<Rightarrow> bar \<Rightarrow> f64 \<Rightarrow> risk_engine \<Rightarrow> (backtest_trade \<times> f64 \<times> risk_engine) result" where
  "manage_position c use_real_funding t b equity e =
     (case exit_on_bar c t b of
        None \<Rightarrow> Inr (t, equity, e)
      | Some (price, reason) \<Rightarrow>
          bindr (close_backtest_trade c use_real_funding price reason (b_timestamp b) t) (\<lambda>t1.
          bindr (trade_r_multiple t1) (\<lambda>r.
            Inr (t1\<lparr>bt_r_multiple := r\<rparr>, fadd equity (bt_pnl t1), record_position_close e))))"

definition equity_relative_pnl_pct :: "f64 \<Rightarrow> f64 \<Rightarrow> f64" where
  "equity_relative_pnl_pct pnl equity_before = (if 0 < equity_before then fmul (fdiv pnl equity_before) 100 else 0)"

section \<open>The run\<close>

definition manage_open :: "backtest_config \<Rightarrow> bool \<Rightarrow> bar \<Rightarrow> backtest_state \<Rightarrow> backtest_state result" where
  "manage_open c use_real_funding b s =
     (case bs_open_trade s of
        None \<Rightarrow> Inr s
      | Some t \<Rightarrow>
          bindr (manage_position c use_real_funding t b (bs_equity s) (bs_risk_engine s)) (\<lambda>(t1, equity, e).
            Inr (if bt_exit_price t1 = None then s\<lparr>bs_open_trade := Some t1, bs_equity := equity, bs_risk_engine := e\<rparr>
                 else s\<lparr>bs_trades := bs_trades s @ [t1], bs_open_trade := None, bs_equity := equity,
                        bs_risk_engine := record_trade_result (equity_relative_pnl_pct (bt_pnl t1) (bs_equity s)) (b_timestamp b) e\<rparr>)))"

definition decide :: "(bar list \<Rightarrow> backtest_signal option) \<Rightarrow> bar list \<Rightarrow> backtest_state \<Rightarrow> backtest_state" where
  "decide signal_func seen s =
     (case signal_func seen of
        None \<Rightarrow> s
      | Some sg \<Rightarrow> if bs_open_trade s = None then s\<lparr>bs_pending_signal := Some sg\<rparr> else s)"

definition run_bar ::
  "backtest_config \<Rightarrow> bool \<Rightarrow> (bar list \<Rightarrow> backtest_signal option) \<Rightarrow> bar list \<Rightarrow> nat \<Rightarrow> backtest_state \<Rightarrow> backtest_state result" where
  "run_bar c use_real_funding signal_func df i s =
     (let b = df ! i
      in bindr (fill_pending c (b_timestamp b) (b_open b) s) (\<lambda>s1.
         let (t, es) = apply_funding_events (b_timestamp b) (b_open b) (bs_open_trade s1) (bs_funding_events s1);
             s2 = s1\<lparr>bs_open_trade := t, bs_funding_events := es\<rparr>
         in bindr (manage_open c use_real_funding b s2) (\<lambda>s3.
            let s4 = decide signal_func (take (i + 1) df) s3
            in Inr (s4\<lparr>bs_equity_curve := bs_equity_curve s4 @
                 [\<lparr>ep_timestamp = b_timestamp b, ep_equity = bs_equity s4, ep_price = b_close b\<rparr>]\<rparr>))))"

fun run_bars ::
  "backtest_config \<Rightarrow> bool \<Rightarrow> (bar list \<Rightarrow> backtest_signal option) \<Rightarrow> bar list \<Rightarrow> nat \<Rightarrow> backtest_state \<Rightarrow> backtest_state result" where
  "run_bars c rf sf df 0 s = Inr s"
| "run_bars c rf sf df (Suc n) s =
     bindr (run_bars c rf sf df n s) (\<lambda>s1. if n = 0 then Inr s1 else run_bar c rf sf df n s1)"

definition start_backtest :: "backtest_config \<Rightarrow> risk_engine \<Rightarrow> (datetime \<times> f64) list \<Rightarrow> backtest_state" where
  "start_backtest c e funding =
     \<lparr>bs_trades = [], bs_equity_curve = [], bs_equity = bk_initial_capital c, bs_open_trade = None, bs_pending_signal = None,
      bs_trade_counter = 0, bs_funding_events = sort_key fst funding, bs_risk_engine = e\<rparr>"

text \<open>A position still open after the last bar is closed at its close; its R-multiple stays zero.\<close>

definition finish_backtest :: "backtest_config \<Rightarrow> bool \<Rightarrow> bar list \<Rightarrow> backtest_state \<Rightarrow> backtest_state result" where
  "finish_backtest c use_real_funding df s =
     (case bs_open_trade s of
        None \<Rightarrow> Inr s
      | Some t \<Rightarrow>
          let equity_before = (if bs_equity_curve s = [] then bk_initial_capital c else ep_equity (last (bs_equity_curve s)));
              b = last df
          in bindr (close_backtest_trade c use_real_funding (b_close b) ''end_of_data'' (b_timestamp b) t) (\<lambda>t1.
             let equity = fadd (bs_equity s) (bt_pnl t1)
             in Inr (s\<lparr>bs_trades := bs_trades s @ [t1], bs_open_trade := None, bs_equity := equity,
                       bs_equity_curve := bs_equity_curve s @
                         [\<lparr>ep_timestamp = b_timestamp b, ep_equity = equity, ep_price = b_close b\<rparr>],
                       bs_risk_engine := record_position_close
                         (record_trade_result (equity_relative_pnl_pct (bt_pnl t1) equity_before) (b_timestamp b) (bs_risk_engine s))\<rparr>)))"

definition run_backtest ::
  "backtest_config \<Rightarrow> risk_engine \<Rightarrow> (bar list \<Rightarrow> backtest_signal option) \<Rightarrow> bar list \<Rightarrow> (datetime \<times> f64) list \<Rightarrow> backtest_state result" where
  "run_backtest c e sf df funding =
     bindr (run_bars c (funding \<noteq> []) sf df (length df) (start_backtest c e funding)) (finish_backtest c (funding \<noteq> []) df)"

section \<open>Statistics\<close>

record backtest_result =
  bz_trades :: "backtest_trade list"
  bz_equity_curve :: "equity_point list"
  bz_total_pnl :: f64
  bz_total_pnl_pct :: f64
  bz_total_trades :: nat
  bz_winning_trades :: nat
  bz_losing_trades :: nat
  bz_win_rate :: f64
  bz_profit_factor :: f64
  bz_expectancy :: f64
  bz_average_r :: f64
  bz_sharpe_ratio :: f64
  bz_sortino_ratio :: f64
  bz_max_drawdown :: f64
  bz_max_drawdown_pct :: f64
  bz_recovery_factor :: f64
  bz_average_trade_pnl :: f64
  bz_average_winning_trade :: f64
  bz_average_losing_trade :: f64
  bz_largest_win :: f64
  bz_largest_loss :: f64
  bz_consecutive_wins :: nat
  bz_consecutive_losses :: nat
  bz_total_fees :: f64
  bz_total_funding :: f64
  bz_initial_capital :: f64
  bz_final_capital :: f64

text \<open>The peak so far, the largest drawdown and the largest drawdown in per cent.\<close>

definition drawdown_step :: "f64 \<times> f64 \<times> f64 \<Rightarrow> f64 \<Rightarrow> f64 \<times> f64 \<times> f64" where
  "drawdown_step s val =
     (case s of (peak0, max_dd, max_dd_pct) \<Rightarrow>
        let peak = (if peak0 < val then val else peak0); dd = fsub peak val;
            dd_pct = (if 0 < peak then fmul (fdiv dd peak) 100 else 0)
        in (peak, if max_dd < dd then dd else max_dd, if max_dd_pct < dd_pct then dd_pct else max_dd_pct))"

definition max_drawdowns :: "f64 list \<Rightarrow> f64 \<times> f64" where
  "max_drawdowns values = snd (foldl drawdown_step (hd values, 0, 0) values)"

text \<open>The streaks: current wins and losses, longest wins and losses.\<close>

definition streak_step :: "nat \<times> nat \<times> nat \<times> nat \<Rightarrow> f64 \<Rightarrow> nat \<times> nat \<times> nat \<times> nat" where
  "streak_step s p =
     (case s of (wins, losses, max_wins, max_losses) \<Rightarrow>
        if 0 < p then (wins + 1, 0, max max_wins (wins + 1), max_losses)
        else (0, losses + 1, max_wins, max max_losses (losses + 1)))"

definition longest_streaks :: "f64 list \<Rightarrow> nat \<times> nat" where
  "longest_streaks pnls = snd (snd (foldl streak_step (0, 0, 0, 0) pnls))"

definition count_float :: "nat \<Rightarrow> f64" where "count_float n = float_of_int (int n)"

definition empty_result :: "backtest_config \<Rightarrow> equity_point list \<Rightarrow> backtest_result" where
  "empty_result c curve =
     \<lparr>bz_trades = [], bz_equity_curve = curve, bz_total_pnl = 0, bz_total_pnl_pct = 0, bz_total_trades = 0,
      bz_winning_trades = 0, bz_losing_trades = 0, bz_win_rate = 0, bz_profit_factor = 0, bz_expectancy = 0,
      bz_average_r = 0, bz_sharpe_ratio = 0, bz_sortino_ratio = 0, bz_max_drawdown = 0, bz_max_drawdown_pct = 0,
      bz_recovery_factor = 0, bz_average_trade_pnl = 0, bz_average_winning_trade = 0, bz_average_losing_trade = 0,
      bz_largest_win = 0, bz_largest_loss = 0, bz_consecutive_wins = 0, bz_consecutive_losses = 0,
      bz_total_fees = 0, bz_total_funding = 0, bz_initial_capital = bk_initial_capital c,
      bz_final_capital = bk_initial_capital c\<rparr>"

definition compile_results ::
  "backtest_config \<Rightarrow> (f64 list \<Rightarrow> f64) \<Rightarrow> (equity_point list \<Rightarrow> f64 \<times> f64) \<Rightarrow> backtest_trade list \<Rightarrow> equity_point list
     \<Rightarrow> backtest_result result" where
  "compile_results c mean ratios trades curve =
     (if trades = [] then Inr (empty_result c curve)
      else
        let pnls = map bt_pnl trades; winners = filter (\<lambda>p. 0 < p) pnls; losers = filter (\<lambda>p. p \<le> 0) pnls;
            total_pnl = fsum pnls; wins = length winners; losses = length losers; total = wins + losses;
            gross_profit = (if winners \<noteq> [] then fsum winners else 0);
            gross_loss = (if losers \<noteq> [] then \<bar>fsum losers\<bar> else 1);
            (max_dd, max_dd_pct) = max_drawdowns (map ep_equity curve);
            (sharpe, sortino) = ratios curve;
            (max_wins, max_losses) = longest_streaks pnls
        in bindr (py_div total_pnl (bk_initial_capital c)) (\<lambda>growth.
           Inr \<lparr>bz_trades = trades, bz_equity_curve = curve, bz_total_pnl = pyround 2 total_pnl,
                bz_total_pnl_pct = pyround 2 (fmul growth 100), bz_total_trades = total,
                bz_winning_trades = wins, bz_losing_trades = losses,
                bz_win_rate = (if 0 < total then pyround 2 (fmul (fdiv (count_float wins) (count_float total)) 100) else 0),
                bz_profit_factor = (if 0 < gross_loss then pyround 2 (fdiv gross_profit gross_loss) else 0),
                bz_expectancy = (if 0 < total then pyround 2 (fdiv total_pnl (count_float total)) else 0),
                bz_average_r = pyround 2 (mean (map bt_r_multiple trades)),
                bz_sharpe_ratio = pyround 2 sharpe, bz_sortino_ratio = pyround 2 sortino,
                bz_max_drawdown = pyround 2 max_dd, bz_max_drawdown_pct = pyround 2 max_dd_pct,
                bz_recovery_factor = (if 0 < max_dd then pyround 2 (fdiv total_pnl max_dd) else 0),
                bz_average_trade_pnl = (if 0 < total then pyround 2 (fdiv total_pnl (count_float total)) else 0),
                bz_average_winning_trade = (if 0 < wins then pyround 2 (fdiv gross_profit (count_float wins)) else 0),
                bz_average_losing_trade = (if 0 < losses then pyround 2 (fdiv (- gross_loss) (count_float losses)) else 0),
                bz_largest_win = pyround 2 (Max (set pnls)), bz_largest_loss = pyround 2 (Min (set pnls)),
                bz_consecutive_wins = max_wins, bz_consecutive_losses = max_losses,
                bz_total_fees = pyround 2 (fsum (map bt_fees trades)),
                bz_total_funding = pyround 2 (fsum (map bt_funding trades)),
                bz_initial_capital = bk_initial_capital c,
                bz_final_capital = pyround 2 (fadd (bk_initial_capital c) total_pnl)\<rparr>))"

definition backtest ::
  "backtest_config \<Rightarrow> (f64 list \<Rightarrow> f64) \<Rightarrow> (equity_point list \<Rightarrow> f64 \<times> f64) \<Rightarrow> risk_engine
     \<Rightarrow> (bar list \<Rightarrow> backtest_signal option) \<Rightarrow> bar list \<Rightarrow> (datetime \<times> f64) list \<Rightarrow> backtest_result result" where
  "backtest c mean ratios e sf df funding =
     bindr (run_backtest c e sf df funding) (\<lambda>s. compile_results c mean ratios (bs_trades s) (bs_equity_curve s))"

section \<open>Sanity checks\<close>

datatype sanity_violation =
    SV_PROFIT_FACTOR
  | SV_WIN_RATE
  | SV_DRAWDOWN
  | SV_FINAL_CAPITAL
  | SV_FEES
  | SV_WIN_LOSS_SPLIT
  | SV_TRADE_COUNT
  | SV_EXIT_BEFORE_ENTRY nat
  | SV_QUANTITY nat
  | SV_LEVERAGE nat
  | SV_EQUITY_CURVE

definition trade_violations :: "backtest_config option \<Rightarrow> backtest_trade \<Rightarrow> sanity_violation list" where
  "trade_violations config t =
     (case bt_exit_time t of None \<Rightarrow> [] | Some x \<Rightarrow> if x < bt_entry_time t then [SV_EXIT_BEFORE_ENTRY (bt_trade_id t)] else []) @
     (if bt_quantity t < 0 then [SV_QUANTITY (bt_trade_id t)] else []) @
     (case config of None \<Rightarrow> []
      | Some c \<Rightarrow> if xs_max_leverage (bk_exchange_spec c) < bt_leverage t then [SV_LEVERAGE (bt_trade_id t)] else [])"

text \<open>The capital after each prefix of the trades.\<close>

definition running_capital :: "f64 \<Rightarrow> backtest_trade list \<Rightarrow> f64 list" where
  "running_capital start trades = map (\<lambda>n. foldl fadd start (map bt_pnl (take n trades))) [0..<Suc (length trades)]"

definition check_result_sanity :: "backtest_result \<Rightarrow> backtest_config option \<Rightarrow> sanity_violation list" where
  "check_result_sanity r config =
     (let expected = fadd (bz_initial_capital r) (bz_total_pnl r);
          tolerance = max (fl (1 / 100)) (fmul \<bar>expected\<bar> (fl (1 / 1000000)))
      in (if bz_profit_factor r < 0 then [SV_PROFIT_FACTOR] else []) @
         (if 0 \<le> bz_win_rate r \<and> bz_win_rate r \<le> 100 then [] else [SV_WIN_RATE]) @
         (if bz_max_drawdown r < 0 \<or> bz_max_drawdown_pct r < 0 then [SV_DRAWDOWN] else []) @
         (if tolerance < \<bar>fsub (bz_final_capital r) expected\<bar> then [SV_FINAL_CAPITAL] else []) @
         (if bz_total_fees r < 0 then [SV_FEES] else []) @
         (if bz_total_trades r \<noteq> bz_winning_trades r + bz_losing_trades r then [SV_WIN_LOSS_SPLIT] else []) @
         (if bz_total_trades r \<noteq> length (bz_trades r) then [SV_TRADE_COUNT] else []) @
         concat (map (trade_violations config) (bz_trades r)) @
         (if \<exists>p \<in> set (bz_equity_curve r).
               pyround 2 (ep_equity p) \<notin> pyround 2 ` set (running_capital (bz_initial_capital r) (bz_trades r))
          then [SV_EQUITY_CURVE] else []))"

definition assert_result_sane :: "backtest_result \<Rightarrow> backtest_config option \<Rightarrow> (sanity_violation list, unit) sum" where
  "assert_result_sane r config = (case check_result_sanity r config of [] \<Rightarrow> Inr () | vs \<Rightarrow> Inl vs)"

section \<open>No look-ahead\<close>

definition extend_funding :: "(datetime \<times> f64) list \<Rightarrow> backtest_state \<Rightarrow> backtest_state" where
  "extend_funding later s = s\<lparr>bs_funding_events := bs_funding_events s @ later\<rparr>"

lemma extend_select [simp]:
  "bs_trades (extend_funding later s) = bs_trades s" "bs_equity_curve (extend_funding later s) = bs_equity_curve s"
  "bs_equity (extend_funding later s) = bs_equity s" "bs_open_trade (extend_funding later s) = bs_open_trade s"
  "bs_pending_signal (extend_funding later s) = bs_pending_signal s" "bs_trade_counter (extend_funding later s) = bs_trade_counter s"
  "bs_risk_engine (extend_funding later s) = bs_risk_engine s" "bs_funding_events (extend_funding later s) = bs_funding_events s @ later"
  by (simp_all add: extend_funding_def)

definition mapr :: "('a \<Rightarrow> 'b) \<Rightarrow> 'a result \<Rightarrow> 'b result" where "mapr f r = bindr r (\<lambda>x. Inr (f x))"

lemma mapr_simps [simp]: "mapr f (Inl x) = Inl x" "mapr f (Inr y) = Inr (f y)"
  by (simp_all add: mapr_def bindr_def)

lemma map_result_bindr: "mapr f (bindr r g) = bindr r (\<lambda>x. mapr f (g x))"
  by (cases r) (simp_all add: bindr_def)

lemma bindr_map_result: "bindr (mapr f r) g = bindr r (\<lambda>x. g (f x))"
  by (cases r) (simp_all add: bindr_def)

lemma bindr_cong: "(\<And>x. r = Inr x \<Longrightarrow> f x = g x) \<Longrightarrow> bindr r f = bindr r g"
  by (cases r) (simp_all add: bindr_def)

lemma fill_pending_extend:
  "fill_pending c t p (extend_funding later s) = mapr (extend_funding later) (fill_pending c t p s)"
  by (auto simp: fill_pending_def Let_def map_result_bindr extend_funding_def case_prod_unfold intro!: bindr_cong split: option.splits)

lemma apply_funding_extend:
  assumes "\<forall>e \<in> set later. ts < fst e"
  shows "apply_funding_events ts m t (es @ later) =
     (case apply_funding_events ts m t es of (t', rest) \<Rightarrow> (t', rest @ later))"
  using assms
proof (induction ts m t es rule: apply_funding_events.induct)
  case (1 ts m t)
  then show ?case by (cases later) auto
qed auto

lemma manage_open_extend:
  "manage_open c rf b (extend_funding later s) = mapr (extend_funding later) (manage_open c rf b s)"
  by (auto simp: manage_open_def map_result_bindr extend_funding_def case_prod_unfold intro!: bindr_cong split: option.splits)

lemma decide_extend: "decide sf seen (extend_funding later s) = extend_funding later (decide sf seen s)"
  by (simp add: decide_def extend_funding_def split: option.splits)

lemma extend_updates:
  "(extend_funding later s)\<lparr>bs_open_trade := t, bs_funding_events := es @ later\<rparr> =
     extend_funding later (s\<lparr>bs_open_trade := t, bs_funding_events := es\<rparr>)"
  "(extend_funding later s)\<lparr>bs_equity_curve := q\<rparr> = extend_funding later (s\<lparr>bs_equity_curve := q\<rparr>)"
  by (simp_all add: extend_funding_def)

lemma run_bar_extend:
  assumes "\<forall>e \<in> set later. b_timestamp (df ! i) < fst e" "df ! i = df' ! i" "take (i + 1) df = take (i + 1) df'"
  shows "run_bar c rf sf df i (extend_funding later s) = mapr (extend_funding later) (run_bar c rf sf df' i s)"
proof -
  have "apply_funding_events (b_timestamp (df' ! i)) m t (es @ later) =
      (case apply_funding_events (b_timestamp (df' ! i)) m t es of (t', rest) \<Rightarrow> (t', rest @ later))" for m t es
    using apply_funding_extend assms(1,2) by simp
  then show ?thesis
    by (simp add: run_bar_def Let_def assms(2) assms(3) [simplified] fill_pending_extend map_result_bindr bindr_map_result
        manage_open_extend decide_extend case_prod_unfold extend_updates)
qed

lemma run_bars_extend:
  assumes "take n df = take n df'" "n \<le> length df" "n \<le> length df'" "\<forall>i<n. \<forall>e \<in> set later. b_timestamp (df ! i) < fst e"
  shows "run_bars c rf sf df n (extend_funding later s) = mapr (extend_funding later) (run_bars c rf sf df' n s)"
  using assms
proof (induction n)
  case (Suc n)
  have same: "df ! n = df' ! n" "take (n + 1) df = take (n + 1) df'"
    using arg_cong [OF Suc.prems(1), of "\<lambda>xs. xs ! n"] by simp (use Suc.prems(1) in simp)
  have "take n df = take n df'" using arg_cong [OF Suc.prems(1), of "take n"] by simp
  then have ih: "run_bars c rf sf df n (extend_funding later s) = mapr (extend_funding later) (run_bars c rf sf df' n s)"
    by (rule Suc.IH) (use Suc.prems in auto)
  have step: "run_bar c rf sf df n (extend_funding later s1) = mapr (extend_funding later) (run_bar c rf sf df' n s1)" for s1
    by (rule run_bar_extend [OF _ same]) (use Suc.prems(4) in blast)
  show ?case by (cases "n = 0") (simp_all add: ih bindr_map_result map_result_bindr step, simp add: bindr_def)
qed simp

lemma funding_split:
  fixes funding :: "(datetime \<times> f64) list"
  shows "sort_key fst funding =
     sort_key fst (filter (\<lambda>e. fst e \<le> T) funding) @ sort_key fst (filter (\<lambda>e. \<not> fst e \<le> T) funding)"
proof -
  have split: "xs = filter (\<lambda>e. fst e \<le> T) xs @ filter (\<lambda>e. \<not> fst e \<le> T) xs" if "sorted (map fst xs)" for xs :: "(datetime \<times> f64) list"
    using that
  proof (induction xs)
    case (Cons x xs)
    show ?case
    proof (cases "fst x \<le> T")
      case False
      then have "\<forall>y \<in> set xs. \<not> fst y \<le> T" using Cons.prems by fastforce
      then have "filter (\<lambda>e. fst e \<le> T) xs = []" "filter (\<lambda>e. \<not> fst e \<le> T) xs = xs"
        by (rule filter_False, rule filter_True)
      then show ?thesis using False by (simp del: filter_True filter_False)
    qed (use Cons in auto)
  qed simp
  show ?thesis by (rule trans [OF split [OF sorted_sort_key]]) (simp only: filter_sort)
qed

text \<open>What a run shows so far: everything but the funding events that are still to come.\<close>

definition visible :: "backtest_state \<Rightarrow> backtest_state" where "visible s = s\<lparr>bs_funding_events := []\<rparr>"

text \<open>
  C8: the backtest does not look ahead.  On two data sets that agree on the first \<open>n\<close> bars and on
  the funding rates up to the time of the last of them, and however they differ later, a run that has
  processed these bars is in the same state: the same closed trades, open position, equity
  curve, risk engine and pending order (or the same error).  And if the next bars agree just in
  time and open, the order pending is filled or refused in the same way, whatever the
  high, low and close of that bar are.
\<close>

theorem backtest_no_lookahead:
  assumes "take n df = take n df'" "n \<le> length df" "n \<le> length df'" "\<forall>i<n. b_timestamp (df ! i) \<le> T"
    "filter (\<lambda>e. fst e \<le> T) funding = filter (\<lambda>e. fst e \<le> T) funding'"
    "b_timestamp b = b_timestamp b'" "b_open b = b_open b'"
  shows "mapr visible (run_bars c rf sf df n (start_backtest c e funding)) =
     mapr visible (run_bars c rf sf df' n (start_backtest c e funding')) \<and>
    bindr (run_bars c rf sf df n (start_backtest c e funding)) (\<lambda>s. mapr visible (fill_pending c (b_timestamp b) (b_open b) s)) =
     bindr (run_bars c rf sf df' n (start_backtest c e funding')) (\<lambda>s. mapr visible (fill_pending c (b_timestamp b') (b_open b') s))"
proof -
  define es where "es = filter (\<lambda>e. fst e \<le> T) funding"
  define later where "later = (\<lambda>fs :: (datetime \<times> f64) list. sort_key fst (filter (\<lambda>e. \<not> fst e \<le> T) fs))"
  have v: "visible (extend_funding l s) = visible s" for l s by (simp add: visible_def extend_funding_def)
  have start: "start_backtest c e funding = extend_funding (later funding) (start_backtest c e es)"
    "start_backtest c e funding' = extend_funding (later funding') (start_backtest c e es)"
    using funding_split [of funding T] funding_split [of funding' T] assms(5)
    by (simp_all add: start_backtest_def extend_funding_def es_def later_def)
  have after: "\<forall>i<n. \<forall>x \<in> set (later fs). b_timestamp (df ! i) < fst x" for fs
    using assms(4) by (fastforce simp: later_def)
  moreover have "df' ! i = df ! i" if "i < n" for i
    using arg_cong [OF assms(1), of "\<lambda>xs. xs ! i"] that by simp
  ultimately have after': "\<forall>i<n. \<forall>x \<in> set (later fs). b_timestamp (df' ! i) < fst x" for fs by simp
  let ?s = "run_bars c rf sf df' n (start_backtest c e es)"
  have r: "run_bars c rf sf df n (start_backtest c e funding) = mapr (extend_funding (later funding)) ?s"
    "run_bars c rf sf df' n (start_backtest c e funding') = mapr (extend_funding (later funding')) ?s"
    unfolding start using run_bars_extend [OF assms(1-3) after] run_bars_extend [OF refl assms(3,3) after'] by blast+
  have m: "mapr visible (mapr (extend_funding l) x) = mapr visible x" for l x
    by (cases x) (simp_all add: v)
  show ?thesis
    unfolding r m bindr_map_result fill_pending_extend assms(6,7) by simp
qed

definition demo_backtest_bar :: "datetime \<Rightarrow> f64 \<Rightarrow> f64 \<Rightarrow> bar" where
  "demo_backtest_bar t lo hi = \<lparr>b_timestamp = t, b_open = 100, b_high = hi, b_low = lo, b_close = hi, b_volume = 1\<rparr>"

definition demo_order :: backtest_signal where
  "demo_order = \<lparr>bg_signal_type = Some ''LONG'', bg_stop_loss = Some 90, bg_take_profit_1 = Some 120, bg_leverage = None,
     bg_position_pct = None, bg_market_regime = None\<rparr>"

text \<open>Two markets that part on the third bar.\<close>

theorem backtest_no_lookahead_witness:
  "let e = new_risk_engine default_risk_config 10000 0;
       df = (\<lambda>lo hi. [demo_backtest_bar 0 99 101, demo_backtest_bar 1 99 101, demo_backtest_bar 2 lo hi]);
       run = (\<lambda>df. run_bars default_backtest_config False (\<lambda>_. Some demo_order) df 2 (start_backtest default_backtest_config e []))
   in df 50 100 \<noteq> df 100 200 \<and> mapr visible (run (df 50 100)) = mapr visible (run (df 100 200))"
  using backtest_no_lookahead [of 2 "[demo_backtest_bar 0 99 101, demo_backtest_bar 1 99 101, demo_backtest_bar 2 50 100]"
      "[demo_backtest_bar 0 99 101, demo_backtest_bar 1 99 101, demo_backtest_bar 2 100 200]" 1 "[]" "[]"
      "demo_backtest_bar 2 50 100" "demo_backtest_bar 2 100 200" default_backtest_config False "\<lambda>_. Some demo_order"
      "new_risk_engine default_risk_config 10000 0"]
  by (simp add: demo_backtest_bar_def Let_def less_Suc_eq numeral_2_eq_2)

section \<open>The book of a run\<close>

definition capital :: "backtest_config \<Rightarrow> backtest_trade list \<Rightarrow> f64" where
  "capital c trades = foldl fadd (bk_initial_capital c) (map bt_pnl trades)"

definition book_inv :: "backtest_config \<Rightarrow> datetime \<Rightarrow> backtest_state \<Rightarrow> bool" where
  "book_inv c T s \<longleftrightarrow>
     bs_equity s = capital c (bs_trades s) \<and>
     (\<forall>p \<in> set (bs_equity_curve s). \<exists>k \<le> length (bs_trades s). ep_equity p = capital c (take k (bs_trades s))) \<and>
     (\<forall>t \<in> set (bs_trades s). \<exists>x. bt_exit_time t = Some x \<and> bt_entry_time t \<le> x \<and> x \<le> T) \<and>
     sorted_wrt (\<lambda>t u. the (bt_exit_time t) < bt_entry_time u) (bs_trades s) \<and>
     (case bs_open_trade s of
        None \<Rightarrow> rs_positions_open (re_state (bs_risk_engine s)) = 0
      | Some t \<Rightarrow> rs_positions_open (re_state (bs_risk_engine s)) = 1 \<and> bt_entry_time t \<le> T \<and> bt_exit_price t = None \<and>
          (\<forall>u \<in> set (bs_trades s). the (bt_exit_time u) < bt_entry_time t))"

lemma positions_frame [simp]:
  "rs_positions_open (re_state (fst (can_trade now e))) = rs_positions_open (re_state e)"
  "rs_positions_open (re_state (record_trade_result x now e)) = rs_positions_open (re_state e)"
  by (simp_all add: can_trade_def reset_daily_def record_trade_result_def book_pnl_def book_streak_def book_kill_def Let_def)

lemma bindr_Inr_iff: "bindr r f = Inr y \<longleftrightarrow> (\<exists>x. r = Inr x \<and> f x = Inr y)"
  by (cases r) (simp_all add: bindr_def)

lemma opened_trade:
  assumes "open_backtest_trade c e sg p t n regime = Inr tr"
  shows "bt_entry_time tr = t" "bt_exit_price tr = None" "bt_exit_time tr = None"
    "bt_leverage tr = min (case bg_leverage sg of None \<Rightarrow> 1 | Some l \<Rightarrow> l) (rc_max_leverage (bk_risk_config c))"
    "bt_stop_loss tr = bg_stop_loss sg" "bt_take_profit tr = bg_take_profit_1 sg"
    "bt_fees tr = fmul (fmul (bt_entry_price tr) (bt_quantity tr)) (bk_fee_rate c)" "bt_funding tr = 0"
    "bt_entry_price tr = (if bt_side tr = ''LONG'' then fmul p (fadd 1 (bk_slippage_rate c)) else fmul p (fsub 1 (bk_slippage_rate c)))"
  using assms by (auto simp: open_backtest_trade_def Let_def bindr_Inr_iff)

lemma fill_pending_cases:
  assumes "fill_pending c t p s = Inr s1"
  obtains (same) "s1 = s"
  | (refused) sg where "bs_pending_signal s = Some sg" "bs_open_trade s = None"
      "s1 = s\<lparr>bs_pending_signal := None, bs_risk_engine := fst (can_trade t (bs_risk_engine s))\<rparr>"
  | (filled) sg tr regime where "bs_pending_signal s = Some sg" "bs_open_trade s = None" "fst (snd (can_trade t (bs_risk_engine s)))"
      "open_backtest_trade c (fst (can_trade t (bs_risk_engine s))) sg p t (bs_trade_counter s + 1) regime = Inr tr"
      "s1 = s\<lparr>bs_pending_signal := None, bs_trade_counter := bs_trade_counter s + 1, bs_open_trade := Some tr,
         bs_risk_engine := record_position_open (fst (can_trade t (bs_risk_engine s)))\<rparr>"
  using assms
  by (auto simp: fill_pending_def Let_def bindr_Inr_iff case_prod_unfold split: option.splits if_splits)

lemma fill_pending_book:
  assumes "book_inv c T s" "T < t" "fill_pending c t p s = Inr s1"
  shows "book_inv c t s1" "bs_trades s1 = bs_trades s" "bs_equity_curve s1 = bs_equity_curve s" "bs_equity s1 = bs_equity s"
proof -
  have later: "\<forall>u \<in> set (bs_trades s). \<exists>x. bt_exit_time u = Some x \<and> bt_entry_time u \<le> x \<and> x \<le> t \<and> x < t"
    using assms(1,2) by (force simp: book_inv_def)
  from assms(3) have "book_inv c t s1 \<and> bs_trades s1 = bs_trades s \<and> bs_equity_curve s1 = bs_equity_curve s \<and> bs_equity s1 = bs_equity s"
  proof (cases rule: fill_pending_cases)
    case same
    then show ?thesis using assms(1,2) later by (auto simp: book_inv_def split: option.splits)
  next
    case refused
    then show ?thesis using assms(1,2) later by (auto simp: book_inv_def)
  next
    case (filled sg tr regime)
    then show ?thesis using assms(1,2) later opened_trade [OF filled(4)]
      by (fastforce simp: book_inv_def record_position_open_def)
  qed
  then show "book_inv c t s1" "bs_trades s1 = bs_trades s" "bs_equity_curve s1 = bs_equity_curve s" "bs_equity s1 = bs_equity s" by auto
qed

lemma apply_funding_open:
  "apply_funding_events ts m t es = (t', rest) \<Longrightarrow> \<exists>f. t' = map_option (\<lambda>t. t\<lparr>bt_funding := f\<rparr>) t"
proof (induction ts m t es arbitrary: t' rule: apply_funding_events.induct)
  case (1 ts m t)
  then show ?case by (cases t) (auto intro: exI [of _ "bt_funding (the t)"])
next
  case (2 ts m t x rate es)
  show ?case
  proof (cases "ts < x")
    case True
    then show ?thesis using 2(2) by (cases t) (auto intro: exI [of _ "bt_funding (the t)"])
  next
    case False
    then show ?thesis using 2 by (cases t) (fastforce split: if_splits)+
  qed
qed

lemma closed_trade:
  assumes "close_backtest_trade c rf price reason ts t = Inr t1"
  shows "bt_exit_price t1 = Some price" "bt_exit_time t1 = Some ts" "bt_exit_reason t1 = reason" "bt_entry_time t1 = bt_entry_time t"
    "bt_fees t1 = fadd (bt_fees t) (fmul (fmul price (bt_quantity t)) (bk_fee_rate c))" "bt_quantity t1 = bt_quantity t"
    "bt_leverage t1 = bt_leverage t" "bt_entry_price t1 = bt_entry_price t" "bt_stop_loss t1 = bt_stop_loss t"
    "bt_side t1 = bt_side t" "bt_take_profit t1 = bt_take_profit t"
    "bt_pnl t1 = fsub (calculate_pnl t price) (fadd (bt_fees t1) (bt_funding t1))"
proof -
  let ?fees = "fadd (bt_fees t) (fmul (fmul price (bt_quantity t)) (bk_fee_rate c))"
  obtain f pct where "t1 = t\<lparr>bt_exit_price := Some price, bt_exit_time := Some ts, bt_exit_reason := reason,
      bt_fees := ?fees, bt_funding := f, bt_pnl := fsub (calculate_pnl t price) (fadd ?fees f), bt_pnl_pct := pct\<rparr>"
    using assms unfolding close_backtest_trade_def Let_def bindr_Inr_iff sum.inject by blast
  then show "bt_exit_price t1 = Some price" "bt_exit_time t1 = Some ts" "bt_exit_reason t1 = reason" "bt_entry_time t1 = bt_entry_time t"
    "bt_fees t1 = ?fees" "bt_quantity t1 = bt_quantity t"
    "bt_leverage t1 = bt_leverage t" "bt_entry_price t1 = bt_entry_price t" "bt_stop_loss t1 = bt_stop_loss t"
    "bt_side t1 = bt_side t" "bt_take_profit t1 = bt_take_profit t"
    "bt_pnl t1 = fsub (calculate_pnl t price) (fadd (bt_fees t1) (bt_funding t1))"
    by simp_all
qed

lemma manage_open_cases:
  assumes "manage_open c rf b s = Inr s1" "\<forall>t. bs_open_trade s = Some t \<longrightarrow> bt_exit_price t = None"
  obtains (none) "bs_open_trade s = None" "s1 = s"
  | (held) t where "bs_open_trade s = Some t" "exit_on_bar c t b = None" "s1 = s"
  | (exited) t price reason t1 r where "bs_open_trade s = Some t" "exit_on_bar c t b = Some (price, reason)"
      "close_backtest_trade c rf price reason (b_timestamp b) t = Inr t1" "trade_r_multiple t1 = Inr r"
      "s1 = s\<lparr>bs_trades := bs_trades s @ [t1\<lparr>bt_r_multiple := r\<rparr>], bs_open_trade := None, bs_equity := fadd (bs_equity s) (bt_pnl t1),
         bs_risk_engine := record_trade_result (equity_relative_pnl_pct (bt_pnl t1) (bs_equity s)) (b_timestamp b)
           (record_position_close (bs_risk_engine s))\<rparr>"
proof (cases "bs_open_trade s")
  case None
  then have "s1 = s" using assms(1) by (simp add: manage_open_def)
  then show thesis using none None by blast
next
  case (Some t)
  show thesis
  proof (cases "exit_on_bar c t b")
    case None
    have "s\<lparr>bs_open_trade := Some t\<rparr> = s" using Some by simp
    moreover have "s\<lparr>bs_open_trade := Some t\<rparr> = s1"
      using assms Some None by (simp add: manage_open_def manage_position_def bindr_def)
    ultimately have "s1 = s" by (rule trans [OF sym, rotated])
    then show thesis using held Some None by blast
  next
    case x: (Some pr)
    obtain price reason where pr: "pr = (price, reason)" by fastforce
    obtain q where q: "manage_position c rf t b (bs_equity s) (bs_risk_engine s) = Inr q"
        "(case q of (t1, equity, e) \<Rightarrow> (if bt_exit_price t1 = None then s\<lparr>bs_open_trade := Some t1, bs_equity := equity, bs_risk_engine := e\<rparr>
                 else s\<lparr>bs_trades := bs_trades s @ [t1], bs_open_trade := None, bs_equity := equity,
                        bs_risk_engine := record_trade_result (equity_relative_pnl_pct (bt_pnl t1) (bs_equity s)) (b_timestamp b) e\<rparr>)) = s1"
      using assms(1) by (cases "manage_position c rf t b (bs_equity s) (bs_risk_engine s)") (auto simp: manage_open_def Some bindr_def)
    obtain t1 r where c: "close_backtest_trade c rf price reason (b_timestamp b) t = Inr t1" "trade_r_multiple t1 = Inr r"
        "q = (t1\<lparr>bt_r_multiple := r\<rparr>, fadd (bs_equity s) (bt_pnl t1), record_position_close (bs_risk_engine s))"
      using q(1) unfolding manage_position_def x pr option.case prod.case bindr_Inr_iff by auto
    have "s1 = s\<lparr>bs_trades := bs_trades s @ [t1\<lparr>bt_r_multiple := r\<rparr>], bs_open_trade := None, bs_equity := fadd (bs_equity s) (bt_pnl t1),
         bs_risk_engine := record_trade_result (equity_relative_pnl_pct (bt_pnl t1) (bs_equity s)) (b_timestamp b)
           (record_position_close (bs_risk_engine s))\<rparr>"
      using q(2) closed_trade(1) [OF c(1)] by (simp add: c(3))
    then show thesis using exited [OF Some x [unfolded pr] c(1,2)] by blast
  qed
qed

lemma capital_snoc: "capital c (ts @ [t]) = fadd (capital c ts) (bt_pnl t)"
  by (simp add: capital_def)

lemma book_frame:
  assumes "book_inv c T s" "bs_open_trade s = Some t"
  shows "book_inv c T (s\<lparr>bs_open_trade := Some (t\<lparr>bt_funding := f\<rparr>), bs_funding_events := es\<rparr>)"
  using assms by (simp add: book_inv_def)

lemma funding_book:
  assumes "book_inv c T s" "apply_funding_events ts m (bs_open_trade s) es0 = (t, es)"
  shows "book_inv c T (s\<lparr>bs_open_trade := t, bs_funding_events := es\<rparr>)"
  using apply_funding_open [OF assms(2)] assms(1) by (cases "bs_open_trade s") (auto simp: book_inv_def)

lemma manage_open_book:
  assumes "book_inv c (b_timestamp b) s" "manage_open c rf b s = Inr s1"
  shows "book_inv c (b_timestamp b) s1" "bs_equity_curve s1 = bs_equity_curve s"
proof -
  have "\<forall>t. bs_open_trade s = Some t \<longrightarrow> bt_exit_price t = None" using assms(1) by (auto simp: book_inv_def)
  with assms(2) have "book_inv c (b_timestamp b) s1 \<and> bs_equity_curve s1 = bs_equity_curve s"
  proof (cases rule: manage_open_cases)
    case (exited t price reason t1 r)
    note ct = closed_trade [OF exited(3)]
    have e: "\<exists>k \<le> Suc (length (bs_trades s)). ep_equity p = capital c (take k (bs_trades s @ [t1\<lparr>bt_r_multiple := r\<rparr>]))"
      if "p \<in> set (bs_equity_curve s)" for p
    proof -
      obtain k where "k \<le> length (bs_trades s)" "ep_equity p = capital c (take k (bs_trades s))"
        using assms(1) \<open>p \<in> set (bs_equity_curve s)\<close> unfolding book_inv_def by blast
      then show ?thesis by (intro exI [of _ k]) simp
    qed
    have cp: "capital c (bs_trades s @ [t1\<lparr>bt_r_multiple := r\<rparr>]) = fadd (capital c (bs_trades s)) (bt_pnl t1)"
      by (simp add: capital_snoc)
    show ?thesis
      using assms(1) exited(1) ct(2,4) e cp
      by (auto simp: exited(5) book_inv_def sorted_wrt_append record_position_close_def)
  qed (use assms(1) in simp_all)
  then show "book_inv c (b_timestamp b) s1" "bs_equity_curve s1 = bs_equity_curve s" by auto
qed

lemma decide_frame:
  "bs_trades (decide sf seen s) = bs_trades s" "bs_equity (decide sf seen s) = bs_equity s"
  "bs_equity_curve (decide sf seen s) = bs_equity_curve s" "bs_open_trade (decide sf seen s) = bs_open_trade s"
  "bs_risk_engine (decide sf seen s) = bs_risk_engine s"
  by (simp_all add: decide_def split: option.splits)

lemma run_bar_book:
  assumes "book_inv c T s" "T < b_timestamp (df ! i)" "run_bar c rf sf df i s = Inr s'"
  shows "book_inv c (b_timestamp (df ! i)) s' \<and> bs_equity_curve s' \<noteq> [] \<and> ep_equity (last (bs_equity_curve s')) = bs_equity s'"
proof -
  let ?b = "df ! i"
  obtain s1 where s1: "fill_pending c (b_timestamp ?b) (b_open ?b) s = Inr s1" using assms(3) by (auto simp: run_bar_def Let_def bindr_Inr_iff)
  obtain t es where f: "apply_funding_events (b_timestamp ?b) (b_open ?b) (bs_open_trade s1) (bs_funding_events s1) = (t, es)" by fastforce
  let ?s2 = "s1\<lparr>bs_open_trade := t, bs_funding_events := es\<rparr>"
  obtain s3 where s3: "manage_open c rf ?b ?s2 = Inr s3" "s' = (decide sf (take (i + 1) df) s3)\<lparr>bs_equity_curve :=
      bs_equity_curve (decide sf (take (i + 1) df) s3) @ [\<lparr>ep_timestamp = b_timestamp ?b,
        ep_equity = bs_equity (decide sf (take (i + 1) df) s3), ep_price = b_close ?b\<rparr>]\<rparr>"
    using assms(3) s1 f by (auto simp: run_bar_def Let_def bindr_Inr_iff)
  have "book_inv c (b_timestamp ?b) s3"
    by (rule manage_open_book(1) [OF funding_book [OF fill_pending_book(1) [OF assms(1,2) s1] f] s3(1)])
  then show ?thesis by (cases "bs_open_trade s3") (auto simp: s3(2) book_inv_def decide_frame)
qed

lemma run_bars_book:
  assumes "run_bars c rf sf df n s0 = Inr s" "book_inv c (b_timestamp (df ! 0)) s0" "n \<le> length df"
    "sorted_wrt (<) (map b_timestamp df)"
  shows "book_inv c (b_timestamp (df ! (n - 1))) s \<and>
    (bs_equity_curve s0 = [] \<longrightarrow> (if n \<le> 1 then s = s0 else bs_equity_curve s \<noteq> [] \<and> ep_equity (last (bs_equity_curve s)) = bs_equity s))"
  using assms(1,3)
proof (induction n arbitrary: s)
  case 0
  then show ?case using assms(2) by simp
next
  case (Suc n)
  obtain s1 where s1: "run_bars c rf sf df n s0 = Inr s1" "if n = 0 then s = s1 else run_bar c rf sf df n s1 = Inr s"
    using Suc.prems(1) by (auto simp: bindr_Inr_iff split: if_splits)
  show ?case
  proof (cases "n = 0")
    case True
    then show ?thesis using s1 assms(2) by simp
  next
    case False
    then have "b_timestamp (df ! (n - 1)) < b_timestamp (df ! n)"
      using sorted_wrt_nth_less [OF assms(4), of "n - 1" n] Suc.prems(2) by simp
    then show ?thesis using run_bar_book [of c _ s1 df n rf sf s] Suc.IH [OF s1(1)] s1(2) False Suc.prems(2) by auto
  qed
qed

lemma finish_cases:
  assumes "finish_backtest c rf df s = Inr s'"
  obtains (none) "bs_open_trade s = None" "s' = s"
  | (closing) t t1 before where "bs_open_trade s = Some t" "close_backtest_trade c rf (b_close (last df)) ''end_of_data'' (b_timestamp (last df)) t = Inr t1"
     "s' = s\<lparr>bs_trades := bs_trades s @ [t1], bs_open_trade := None, bs_equity := fadd (bs_equity s) (bt_pnl t1),
        bs_equity_curve := bs_equity_curve s @ [\<lparr>ep_timestamp = b_timestamp (last df), ep_equity = fadd (bs_equity s) (bt_pnl t1),
          ep_price = b_close (last df)\<rparr>],
        bs_risk_engine := record_position_close
          (record_trade_result (equity_relative_pnl_pct (bt_pnl t1) before) (b_timestamp (last df)) (bs_risk_engine s))\<rparr>"
  using assms by (auto simp: finish_backtest_def Let_def bindr_Inr_iff split: option.splits)

lemma start_book: "rs_positions_open (re_state e) = 0 \<Longrightarrow> book_inv c T (start_backtest c e funding)"
  by (simp add: book_inv_def start_backtest_def capital_def)

lemma run_backtest_parts:
  assumes "run_backtest c e sf df funding = Inr s'"
  obtains s where "run_bars c (funding \<noteq> []) sf df (length df) (start_backtest c e funding) = Inr s"
    "finish_backtest c (funding \<noteq> []) df s = Inr s'"
  using assms by (auto simp: run_backtest_def bindr_Inr_iff)

lemma finish_book:
  assumes "book_inv c (b_timestamp (last df)) s" "finish_backtest c rf df s = Inr s'"
    "bs_equity_curve s \<noteq> [] \<Longrightarrow> ep_equity (last (bs_equity_curve s)) = bs_equity s"
  shows "book_inv c (b_timestamp (last df)) s' \<and> bs_open_trade s' = None \<and>
    (bs_equity_curve s' \<noteq> [] \<longrightarrow> ep_equity (last (bs_equity_curve s')) = bs_equity s')"
  using assms(2)
proof (cases rule: finish_cases)
  case none
  then show ?thesis using assms(1,3) by simp
next
  case (closing t t1 before)
  note ct = closed_trade [OF closing(2)]
  have e: "\<exists>k \<le> Suc (length (bs_trades s)). ep_equity p = capital c (take k (bs_trades s @ [t1]))"
    if "p \<in> set (bs_equity_curve s)" for p
  proof -
    obtain k where "k \<le> length (bs_trades s)" "ep_equity p = capital c (take k (bs_trades s))"
      using assms(1) \<open>p \<in> set (bs_equity_curve s)\<close> unfolding book_inv_def by blast
    then show ?thesis by (intro exI [of _ k]) simp
  qed
  have "fadd (bs_equity s) (bt_pnl t1) = capital c (take (Suc (length (bs_trades s))) (bs_trades s @ [t1]))"
    using assms(1) by (simp add: capital_snoc book_inv_def)
  then have "\<exists>k \<le> Suc (length (bs_trades s)). fadd (bs_equity s) (bt_pnl t1) = capital c (take k (bs_trades s @ [t1]))" by blast
  moreover have "fadd (bs_equity s) (bt_pnl t1) = capital c (bs_trades s @ [t1])"
    using assms(1) by (simp add: capital_snoc book_inv_def)
  moreover have "sorted_wrt (\<lambda>t u. the (bt_exit_time t) < bt_entry_time u) (bs_trades s @ [t1])"
    using assms(1) closing(1) ct(4) by (auto simp: book_inv_def sorted_wrt_append)
  moreover have "\<forall>t \<in> set (bs_trades s @ [t1]). \<exists>x. bt_exit_time t = Some x \<and> bt_entry_time t \<le> x \<and> x \<le> b_timestamp (last df)"
    using assms(1) closing(1) ct(2,4) by (auto simp: book_inv_def)
  moreover have "rs_positions_open (re_state (bs_risk_engine s)) = 1" using assms(1) closing(1) by (simp add: book_inv_def)
  ultimately show ?thesis using e unfolding closing(3) book_inv_def by (auto simp: record_position_close_def)
qed

lemma backtest_book_facts:
  assumes "run_backtest c e sf df funding = Inr s" "sorted_wrt (<) (map b_timestamp df)" "rs_positions_open (re_state e) = 0"
  shows "(\<forall>t \<in> set (bs_trades s). \<exists>x. bt_exit_time t = Some x \<and> bt_entry_time t \<le> x) \<and>
    sorted_wrt (\<lambda>t u. the (bt_exit_time t) < bt_entry_time u) (bs_trades s) \<and>
    bs_equity s = capital c (bs_trades s) \<and>
    (\<forall>p \<in> set (bs_equity_curve s). \<exists>k \<le> length (bs_trades s). ep_equity p = capital c (take k (bs_trades s))) \<and>
    (bs_equity_curve s \<noteq> [] \<longrightarrow> ep_equity (last (bs_equity_curve s)) = bs_equity s) \<and>
    bs_open_trade s = None \<and> rs_positions_open (re_state (bs_risk_engine s)) = 0"
proof -
  obtain s1 where s1: "run_bars c (funding \<noteq> []) sf df (length df) (start_backtest c e funding) = Inr s1"
    "finish_backtest c (funding \<noteq> []) df s1 = Inr s"
    using run_backtest_parts [OF assms(1)] by blast
  have st: "bs_equity_curve (start_backtest c e funding) = []" "bs_open_trade (start_backtest c e funding) = None"
    by (simp_all add: start_backtest_def)
  note r = run_bars_book [OF s1(1) start_book [OF assms(3)] order.refl assms(2)]
  have "book_inv c (b_timestamp (last df)) s1"
  proof (cases "df = []")
    case True
    then have "s1 = start_backtest c e funding" using s1(1) by simp
    then show ?thesis using start_book [OF assms(3)] by simp
  next
    case False
    then show ?thesis using r by (simp add: last_conv_nth)
  qed
  moreover have "bs_equity_curve s1 \<noteq> [] \<Longrightarrow> ep_equity (last (bs_equity_curve s1)) = bs_equity s1"
    using r st by (auto split: if_splits)
  ultimately have "book_inv c (b_timestamp (last df)) s \<and> bs_open_trade s = None \<and>
    (bs_equity_curve s \<noteq> [] \<longrightarrow> ep_equity (last (bs_equity_curve s)) = bs_equity s)"
    using finish_book [OF _ s1(2)] by blast
  then show ?thesis by (auto simp: book_inv_def)
qed

text \<open>
  C10: the book of a finished run over bars in time order.  Every trade is closed, not before it was
  opened, and before the next one is opened, so that never two positions are open; the final equity
  is the initial capital plus the profits of the trades in order; every point of the equity curve
  is the capital after some prefix of the trades and its last point is the final equity;
  the risk engine counts no open position.
\<close>

theorem backtest_book:
  assumes "run_backtest c e sf df funding = Inr s" "sorted_wrt (<) (map b_timestamp df)" "rs_positions_open (re_state e) = 0"
  shows "(\<forall>t \<in> set (bs_trades s). \<exists>x. bt_exit_time t = Some x \<and> bt_entry_time t \<le> x) \<and>
    sorted_wrt (\<lambda>t u. the (bt_exit_time t) < bt_entry_time u) (bs_trades s) \<and>
    bs_equity s = capital c (bs_trades s) \<and>
    (\<forall>p \<in> set (bs_equity_curve s). \<exists>k \<le> length (bs_trades s). ep_equity p = capital c (take k (bs_trades s))) \<and>
    (bs_equity_curve s \<noteq> [] \<longrightarrow> ep_equity (last (bs_equity_curve s)) = bs_equity s) \<and>
    bs_open_trade s = None \<and> rs_positions_open (re_state (bs_risk_engine s)) = 0"
  by (rule backtest_book_facts [OF assms])

section \<open>Results pass their checks\<close>

definition sound_backtest_config :: "backtest_config \<Rightarrow> bool" where
  "sound_backtest_config c \<longleftrightarrow>
     0 < bk_initial_capital c \<and> fl (bk_initial_capital c) = bk_initial_capital c \<and>
     0 \<le> bk_slippage_rate c \<and> bk_slippage_rate c \<le> 1 \<and> 0 \<le> bk_fee_rate c \<and>
     0 \<le> rc_risk_per_trade_pct (bk_risk_config c) \<and> rc_max_drawdown_pct (bk_risk_config c) \<le> 100 \<and>
     0 \<le> rc_max_leverage (bk_risk_config c) \<and>
     rc_max_leverage (bk_risk_config c) \<le> xs_max_leverage (bk_exchange_spec c)"

definition nonneg :: "f64 option \<Rightarrow> bool" where "nonneg x \<longleftrightarrow> (case x of None \<Rightarrow> True | Some v \<Rightarrow> 0 \<le> v)"

definition sound_order :: "backtest_signal \<Rightarrow> bool" where
  "sound_order sg \<longleftrightarrow> nonneg (bg_stop_loss sg) \<and> nonneg (bg_take_profit_1 sg) \<and> nonneg (bg_position_pct sg) \<and>
     (case bg_leverage sg of None \<Rightarrow> True | Some l \<Rightarrow> 0 \<le> l)"

definition sound_trade :: "backtest_config \<Rightarrow> backtest_trade \<Rightarrow> bool" where
  "sound_trade c t \<longleftrightarrow> 0 \<le> bt_quantity t \<and> 0 \<le> bt_fees t \<and> nonneg (bt_stop_loss t) \<and> nonneg (bt_take_profit t) \<and>
     bt_leverage t \<le> xs_max_leverage (bk_exchange_spec c)"

definition solvent :: "risk_config \<Rightarrow> risk_engine \<Rightarrow> bool" where
  "solvent rc e \<longleftrightarrow> re_config e = rc \<and> 0 < rs_peak_equity (re_state e) \<and> fl (rs_peak_equity (re_state e)) = rs_peak_equity (re_state e) \<and>
     (rs_kill_switch (re_state e) \<or> 0 < rs_current_equity (re_state e))"

definition sound_inv :: "backtest_config \<Rightarrow> backtest_state \<Rightarrow> bool" where
  "sound_inv c s \<longleftrightarrow> solvent (bk_risk_config c) (bs_risk_engine s) \<and> (\<forall>t \<in> set (bs_trades s). sound_trade c t) \<and>
     (case bs_open_trade s of None \<Rightarrow> True | Some t \<Rightarrow> sound_trade c t) \<and>
     (case bs_pending_signal s of None \<Rightarrow> True | Some sg \<Rightarrow> sound_order sg)"

lemma solvent_frame:
  "solvent rc (fst (can_trade now e)) = solvent rc e" "solvent rc (record_position_open e) = solvent rc e"
  "solvent rc (record_position_close e) = solvent rc e" "solvent rc (reset_daily now e) = solvent rc e"
  by (simp_all add: solvent_def can_trade_def reset_daily_def record_position_open_def record_position_close_def Let_def)

lemma ruin_kills:
  assumes "0 < peak" "fl peak = peak" "eq \<le> 0"
  shows "100 \<le> fmul (fdiv (fsub peak eq) peak) 100"
proof -
  have "peak \<le> fsub peak eq" using fl_mono [of peak "peak - eq"] assms by (simp add: fsub_def)
  then have "1 \<le> fdiv (fsub peak eq) peak" using fl_mono [of 1 "fsub peak eq / peak"] assms(1) by (simp add: fdiv_def)
  then show ?thesis using fl_mono [of 100 "fdiv (fsub peak eq) peak * 100"] fl_numeral [of "num.Bit0 (num.Bit0 (num.Bit1 (num.Bit0 (num.Bit0 (num.Bit1 num.One)))))"]
    by (simp add: fmul_def)
qed

lemma solvent_record:
  assumes "solvent rc e" "rc_max_drawdown_pct rc \<le> 100"
  shows "solvent rc (record_trade_result x now e)"
proof -
  let ?e = "reset_daily now e"
  let ?s = "re_state ?e"
  let ?eq = "fmul (rs_current_equity ?s) (fadd 1 (fdiv x 100))"
  have r: "re_config ?e = rc" "0 < rs_peak_equity ?s" "fl (rs_peak_equity ?s) = rs_peak_equity ?s"
    using assms(1) by (simp_all add: solvent_def reset_daily_def)
  have c: "re_config (record_trade_result x now e) = rc" using r(1) by (simp add: record_trade_result_def Let_def)
  have st: "re_state (record_trade_result x now e) = book_kill rc (book_streak rc x now (book_pnl x ?s))"
    using r(1) by (simp add: record_trade_result_def Let_def)
  have pk: "rs_peak_equity (re_state (record_trade_result x now e)) = (if rs_peak_equity ?s < ?eq then ?eq else rs_peak_equity ?s)"
    by (simp add: st book_kill_def book_streak_def book_pnl_def Let_def)
  have cur: "rs_current_equity (re_state (record_trade_result x now e)) = ?eq"
    by (simp add: st book_kill_def book_streak_def book_pnl_def Let_def)
  have "rs_kill_switch (re_state (record_trade_result x now e))" if "?eq \<le> 0"
  proof -
    have "rs_current_drawdown_pct (book_streak rc x now (book_pnl x ?s)) = fmul (fdiv (fsub (rs_peak_equity ?s) ?eq) (rs_peak_equity ?s)) 100"
      using that r(2) by (simp add: book_streak_def book_pnl_def Let_def)
    then show ?thesis using ruin_kills [OF r(2,3) that] assms(2) by (simp add: st book_kill_def)
  qed
  then show ?thesis using r(2,3) c by (fastforce simp: solvent_def pk cur)
qed

lemma opened_sound:
  assumes "open_backtest_trade c e sg p t n regime = Inr tr" "sound_backtest_config c" "sound_order sg" "0 \<le> p"
    "0 < rs_current_equity (re_state e)" "re_config e = bk_risk_config c"
  shows "sound_trade c tr"
proof -
  let ?lev = "min (case bg_leverage sg of None \<Rightarrow> 1 | Some l \<Rightarrow> l) (rc_max_leverage (bk_risk_config c))"
  have lev: "0 \<le> ?lev" using assms(2,3) by (auto simp: sound_backtest_config_def sound_order_def split: option.splits)
  then have lf: "0 \<le> float_of_int ?lev" "0 \<le> float_of_int (min ?lev (rc_max_leverage (re_config e)))"
    using assms(2) by (auto simp: float_of_int_def sound_backtest_config_def assms(6) intro!: fl_nonneg)
  have entry: "0 \<le> bt_entry_price tr"
    using opened_trade(9) [OF assms(1)] assms(2,4) by (auto simp: sound_backtest_config_def intro!: float_sign)
  have calc: "0 \<le> q" if "calculate_position_size e (bt_entry_price tr) sl ?lev = Inr q" for sl q
    using that lf entry assms(2,5)
    by (auto simp: calculate_position_size_def Let_def py_div_def sound_backtest_config_def assms(6) intro!: float_sign split: if_splits)
  have q: "0 \<le> bt_quantity tr"
  proof (cases "bg_position_pct sg")
    case None
    then show ?thesis using assms(1) calc lf
      by (auto simp: open_backtest_trade_def Let_def bindr_Inr_iff split: if_splits)
  next
    case (Some pct)
    then have "0 \<le> pct" using assms(3) by (simp add: sound_order_def nonneg_def)
    moreover have "0 \<le> bk_slippage_rate c" "bk_slippage_rate c \<le> 1" using assms(2) by (simp_all add: sound_backtest_config_def)
    ultimately show ?thesis using Some assms(1,4,5) lf
      by (auto simp: open_backtest_trade_def Let_def bindr_Inr_iff intro!: float_sign split: if_splits)
  qed
  show ?thesis
    using q entry lev assms(2,3,4) opened_trade [OF assms(1)]
    by (auto simp: sound_trade_def sound_backtest_config_def sound_order_def intro!: float_sign)
qed

lemma exit_price_nonneg:
  assumes "exit_on_bar c t b = Some (price, reason)" "sound_backtest_config c" "sound_trade c t" "0 \<le> b_open b"
  shows "0 \<le> price"
proof -
  have "0 \<le> the (bt_stop_loss t) \<or> \<not> truthy (bt_stop_loss t)" "0 \<le> the (bt_take_profit t) \<or> \<not> truthy (bt_take_profit t)"
    using assms(3) by (auto simp: sound_trade_def nonneg_def truthy_def split: option.splits)
  moreover have "0 \<le> fsub 1 (bk_slippage_rate c)" "0 \<le> fadd 1 (bk_slippage_rate c)"
    using assms(2) by (auto simp: sound_backtest_config_def intro!: float_sign)
  ultimately show ?thesis
    using assms(1,4) by (auto simp: exit_on_bar_def resolve_stop_fill_def Let_def intro!: fmul_nonneg split: if_splits)
qed

lemma closed_sound:
  assumes "close_backtest_trade c rf price reason ts t = Inr t1" "sound_trade c t" "sound_backtest_config c" "0 \<le> price"
  shows "sound_trade c t1" "sound_trade c (t1\<lparr>bt_r_multiple := r\<rparr>)"
  using assms closed_trade [OF assms(1)]
  by (auto simp: sound_trade_def sound_backtest_config_def intro!: float_sign)

lemma fill_pending_sound:
  assumes "sound_inv c s" "sound_backtest_config c" "0 \<le> p" "fill_pending c t p s = Inr s1"
  shows "sound_inv c s1"
  using assms(4)
proof (cases rule: fill_pending_cases)
  case same
  then show ?thesis using assms(1) by simp
next
  case refused
  then show ?thesis using assms(1) by (auto simp: sound_inv_def solvent_frame)
next
  case (filled sg tr regime)
  let ?e = "fst (can_trade t (bs_risk_engine s))"
  have e: "solvent (bk_risk_config c) ?e" using assms(1) by (simp add: sound_inv_def solvent_frame)
  have "\<not> rs_kill_switch (re_state ?e)" using filled(3) by (auto simp: can_trade_def Let_def split: if_splits)
  then have "0 < rs_current_equity (re_state ?e)" using e by (simp add: solvent_def)
  then have "sound_trade c tr"
    using opened_sound [OF filled(4) assms(2) _ assms(3)] assms(1) filled(1) e by (simp add: sound_inv_def solvent_def)
  then show ?thesis using assms(1) e by (auto simp: sound_inv_def filled(5) solvent_frame)
qed

lemma manage_open_sound:
  assumes "sound_inv c s" "sound_backtest_config c" "0 \<le> b_open b" "manage_open c rf b s = Inr s1"
    "\<forall>t. bs_open_trade s = Some t \<longrightarrow> bt_exit_price t = None"
  shows "sound_inv c s1"
  using assms(4,5)
proof (cases rule: manage_open_cases)
  case (exited t price reason t1 r)
  have t: "sound_trade c t" using assms(1) exited(1) by (simp add: sound_inv_def)
  have "sound_trade c (t1\<lparr>bt_r_multiple := r\<rparr>)"
    by (rule closed_sound(2) [OF exited(3) t assms(2) exit_price_nonneg [OF exited(2) assms(2) t assms(3)]])
  then show ?thesis
    using assms(1,2) by (auto simp: exited(5) sound_inv_def sound_backtest_config_def intro!: solvent_record simp: solvent_frame split: option.splits)
qed (use assms(1) in simp_all)

lemma sound_funding:
  assumes "sound_inv c s" "apply_funding_events ts m (bs_open_trade s) es0 = (t, es)"
  shows "sound_inv c (s\<lparr>bs_open_trade := t, bs_funding_events := es\<rparr>)"
  using apply_funding_open [OF assms(2)] assms(1)
  by (cases "bs_open_trade s") (auto simp: sound_inv_def sound_trade_def split: option.splits)

lemma decide_sound:
  assumes "sound_inv c s" "\<And>seen sg. sf seen = Some sg \<Longrightarrow> sound_order sg"
  shows "sound_inv c ((decide sf seen s)\<lparr>bs_equity_curve := q\<rparr>)"
  using assms by (auto simp: decide_def sound_inv_def split: option.splits)

lemma run_bar_sound:
  assumes "sound_inv c s" "book_inv c T s" "T < b_timestamp (df ! i)" "sound_backtest_config c" "0 \<le> b_open (df ! i)"
    "\<And>seen sg. sf seen = Some sg \<Longrightarrow> sound_order sg" "run_bar c rf sf df i s = Inr s'"
  shows "sound_inv c s'"
proof -
  let ?b = "df ! i"
  obtain s1 where s1: "fill_pending c (b_timestamp ?b) (b_open ?b) s = Inr s1" using assms(7) by (auto simp: run_bar_def Let_def bindr_Inr_iff)
  obtain t es where f: "apply_funding_events (b_timestamp ?b) (b_open ?b) (bs_open_trade s1) (bs_funding_events s1) = (t, es)" by fastforce
  let ?s2 = "s1\<lparr>bs_open_trade := t, bs_funding_events := es\<rparr>"
  obtain s3 where s3: "manage_open c rf ?b ?s2 = Inr s3" "s' = (decide sf (take (i + 1) df) s3)\<lparr>bs_equity_curve :=
      bs_equity_curve (decide sf (take (i + 1) df) s3) @ [\<lparr>ep_timestamp = b_timestamp ?b,
        ep_equity = bs_equity (decide sf (take (i + 1) df) s3), ep_price = b_close ?b\<rparr>]\<rparr>"
    using assms(7) s1 f by (auto simp: run_bar_def Let_def bindr_Inr_iff)
  have "book_inv c (b_timestamp ?b) ?s2" by (rule funding_book [OF fill_pending_book(1) [OF assms(2,3) s1] f])
  then have "\<forall>t. bs_open_trade ?s2 = Some t \<longrightarrow> bt_exit_price t = None" by (auto simp: book_inv_def)
  then have "sound_inv c s3"
    by (rule manage_open_sound [OF sound_funding [OF fill_pending_sound [OF assms(1,4,5) s1] f] assms(4,5) s3(1)])
  then show ?thesis unfolding s3(2) by (rule decide_sound) (rule assms(6))
qed

lemma run_bars_sound:
  assumes "run_bars c rf sf df n s0 = Inr s" "book_inv c (b_timestamp (df ! 0)) s0" "sound_inv c s0" "n \<le> length df"
    "sorted_wrt (<) (map b_timestamp df)" "sound_backtest_config c" "\<And>b. b \<in> set df \<Longrightarrow> 0 \<le> b_open b"
    "\<And>seen sg. sf seen = Some sg \<Longrightarrow> sound_order sg"
  shows "sound_inv c s"
  using assms(1,4)
proof (induction n arbitrary: s)
  case (Suc n)
  obtain s1 where s1: "run_bars c rf sf df n s0 = Inr s1" "if n = 0 then s = s1 else run_bar c rf sf df n s1 = Inr s"
    using Suc.prems(1) by (auto simp: bindr_Inr_iff split: if_splits)
  have ih: "sound_inv c s1" using Suc.IH [OF s1(1)] Suc.prems(2) by simp
  show ?case
  proof (cases "n = 0")
    case False
    have b: "book_inv c (b_timestamp (df ! (n - 1))) s1"
      using run_bars_book [OF s1(1) assms(2) _ assms(5)] Suc.prems(2) by simp
    have t: "b_timestamp (df ! (n - 1)) < b_timestamp (df ! n)"
      using sorted_wrt_nth_less [OF assms(5), of "n - 1" n] Suc.prems(2) False by simp
    have o: "0 \<le> b_open (df ! n)" using assms(7) Suc.prems(2) by simp
    have "run_bar c rf sf df n s1 = Inr s" using s1(2) False by simp
    from run_bar_sound [OF ih b t assms(6) o assms(8) this] show ?thesis .
  qed (use s1(2) ih in simp)
qed (use assms(3) in simp)

lemma foldl_drawdown_nonneg:
  "0 \<le> fst (snd p) \<Longrightarrow> 0 \<le> snd (snd p) \<Longrightarrow>
     0 \<le> fst (snd (foldl drawdown_step p vs)) \<and> 0 \<le> snd (snd (foldl drawdown_step p vs))"
  by (induction vs arbitrary: p) (auto simp: drawdown_step_def Let_def split: prod.splits)

lemma win_rate_bounds:
  assumes "wins \<le> m" "0 < m"
  shows "0 \<le> pyround 2 (fmul (fdiv (count_float wins) (count_float m)) 100)"
    "pyround 2 (fmul (fdiv (count_float wins) (count_float m)) 100) \<le> 100"
proof -
  have pos: "0 \<le> count_float wins" "1 \<le> count_float m" "count_float wins \<le> count_float m"
    using assms fl_mono [of 1 "of_int (int m)"] by (auto simp: count_float_def float_of_int_def intro!: fl_nonneg fl_mono)
  then show "0 \<le> pyround 2 (fmul (fdiv (count_float wins) (count_float m)) 100)"
    by (intro dec.rnd_nonneg float_sign) auto
  have "fdiv (count_float wins) (count_float m) \<le> 1"
    using fl_mono [of "count_float wins / count_float m" 1] pos by (simp add: fdiv_def)
  then have "fmul (fdiv (count_float wins) (count_float m)) 100 \<le> 100"
    using fmul_mono [of _ 1 100] fl_numeral [of "num.Bit0 (num.Bit0 (num.Bit1 (num.Bit0 (num.Bit0 (num.Bit1 num.One)))))"]
    by (force simp: fmul_def)
  moreover have "pyround 2 100 = 100"
    using round_half_even_of_int [of 10000] fl_numeral [of "num.Bit0 (num.Bit0 (num.Bit1 (num.Bit0 (num.Bit0 (num.Bit1 num.One)))))"]
    by (simp add: pyround_def)
  ultimately show "pyround 2 (fmul (fdiv (count_float wins) (count_float m)) 100) \<le> 100"
    using dec.rnd_mono [of _ 100 2] by metis
qed

lemma length_partition: "length (filter (\<lambda>p. 0 < p) xs) + length (filter (\<lambda>p. p \<le> (0 :: f64)) xs) = length xs"
  by (induction xs) auto

lemma sound_trade_violations:
  assumes "sound_trade c t" "\<exists>x. bt_exit_time t = Some x \<and> bt_entry_time t \<le> x"
  shows "trade_violations (Some c) t = []"
  using assms by (auto simp: trade_violations_def sound_trade_def)

lemma explained_points:
  assumes "\<forall>p \<in> set curve. \<exists>k \<le> length trades. ep_equity p = capital c (take k trades)"
  shows "\<not> (\<exists>p \<in> set curve. pyround 2 (ep_equity p) \<notin> pyround 2 ` set (running_capital (bk_initial_capital c) trades))"
proof -
  have "capital c (take k trades) \<in> set (running_capital (bk_initial_capital c) trades)" if "k \<le> length trades" for k
    using that by (auto simp: running_capital_def capital_def simp del: upt_Suc intro!: image_eqI [of _ _ k])
  then show ?thesis using assms by fastforce
qed

lemma start_sound:
  assumes "sound_backtest_config c"
  shows "sound_inv c (start_backtest c (new_risk_engine (bk_risk_config c) (bk_initial_capital c) today) funding)"
  using assms by (simp add: sound_inv_def start_backtest_def solvent_def new_risk_engine_def new_risk_state_def sound_backtest_config_def)

lemma finish_sound:
  assumes "sound_inv c s" "sound_backtest_config c" "0 \<le> b_close (last df)" "finish_backtest c rf df s = Inr s'"
  shows "\<forall>t \<in> set (bs_trades s'). sound_trade c t"
  using assms(4)
proof (cases rule: finish_cases)
  case none
  then show ?thesis using assms(1) by (simp add: sound_inv_def)
next
  case (closing t t1 before)
  have "sound_trade c t" using assms(1) closing(1) by (simp add: sound_inv_def)
  from closed_sound(1) [OF closing(2) this assms(2,3)] show ?thesis using assms(1) by (auto simp: sound_inv_def closing(3))
qed

text \<open>The result fields a check reads, for a non-empty list of trades.\<close>

lemma compiled_fields:
  assumes "compile_results c mean ratios trades curve = Inr r" "trades \<noteq> []"
  shows "bz_trades r = trades" "bz_equity_curve r = curve" "bz_initial_capital r = bk_initial_capital c"
    "bz_total_trades r = length trades" "bz_winning_trades r + bz_losing_trades r = length trades"
    "0 \<le> bz_profit_factor r" "0 \<le> bz_win_rate r" "bz_win_rate r \<le> 100" "0 \<le> bz_max_drawdown r" "0 \<le> bz_max_drawdown_pct r"
    "(\<And>t. t \<in> set trades \<Longrightarrow> 0 \<le> bt_fees t) \<Longrightarrow> 0 \<le> bz_total_fees r"
proof -
  let ?pnls = "map bt_pnl trades"
  let ?w = "filter (\<lambda>p. 0 < p) ?pnls" and ?l = "filter (\<lambda>p. p \<le> 0) ?pnls"
  have n: "length ?w + length ?l = length trades" using length_partition [of ?pnls] by simp
  have dd: "0 \<le> fst (max_drawdowns vs) \<and> 0 \<le> snd (max_drawdowns vs)" for vs
    using foldl_drawdown_nonneg [of "(hd vs, 0, 0)" vs] by (simp add: max_drawdowns_def)
  have fields: "bz_trades r = trades" "bz_equity_curve r = curve" "bz_initial_capital r = bk_initial_capital c"
    "bz_total_trades r = length ?w + length ?l" "bz_winning_trades r = length ?w" "bz_losing_trades r = length ?l"
    "bz_profit_factor r = (let gl = (if ?l \<noteq> [] then \<bar>fsum ?l\<bar> else 1) in if 0 < gl then pyround 2 (fdiv (if ?w \<noteq> [] then fsum ?w else 0) gl) else 0)"
    "bz_win_rate r = (if 0 < length ?w + length ?l then pyround 2 (fmul (fdiv (count_float (length ?w)) (count_float (length ?w + length ?l))) 100) else 0)"
    "bz_max_drawdown r = pyround 2 (fst (max_drawdowns (map ep_equity curve)))"
    "bz_max_drawdown_pct r = pyround 2 (snd (max_drawdowns (map ep_equity curve)))"
    "bz_total_fees r = pyround 2 (fsum (map bt_fees trades))"
    using assms unfolding compile_results_def Let_def case_prod_unfold bindr_Inr_iff
    by (simp_all only: if_False sum.inject bindr_Inr_iff) (elim exE conjE, hypsubst, simp add: Let_def)+
  show "bz_trades r = trades" "bz_equity_curve r = curve" "bz_initial_capital r = bk_initial_capital c" by (fact fields)+
  show "bz_total_trades r = length trades" "bz_winning_trades r + bz_losing_trades r = length trades"
    using n fields by simp_all
  have "0 \<le> fsum ?w" by (rule fsum_nonneg) auto
  then show "0 \<le> bz_profit_factor r" by (auto simp: fields Let_def intro!: dec.rnd_nonneg float_sign)
  show "0 \<le> bz_win_rate r" "bz_win_rate r \<le> 100" using win_rate_bounds [of "length ?w" "length ?w + length ?l"] by (auto simp: fields)
  show "0 \<le> bz_max_drawdown r" "0 \<le> bz_max_drawdown_pct r" using dd by (auto simp: fields intro!: dec.rnd_nonneg)
  show "0 \<le> bz_total_fees r" if "\<And>t. t \<in> set trades \<Longrightarrow> 0 \<le> bt_fees t"
    unfolding fields by (intro dec.rnd_nonneg fsum_nonneg) (use that in auto)
qed

text \<open>
  the result of a backtest with a sensible configuration (positive capital, costs not negative, a
  drawdown limit of at most 100 per cent, and the leverage cap of the risk engine, which is the one
  applied, not above that of the exchange, which is the one checked), bars in time order
  with prices not negative, and orders with levels, leverage and position fraction not negative,
  passes every sanity check except possibly the one that compares two separately rounded
  capitals: in particular quantities are never negative, because a ruined account is
  stopped by the drawdown kill before it can open another trade.
\<close>

theorem backtest_results_sane:
  assumes "backtest c mean ratios (new_risk_engine (bk_risk_config c) (bk_initial_capital c) today) sf df funding = Inr r"
    "sound_backtest_config c" "sorted_wrt (<) (map b_timestamp df)" "\<And>b. b \<in> set df \<Longrightarrow> 0 \<le> b_open b \<and> 0 \<le> b_close b"
    "\<And>seen sg. sf seen = Some sg \<Longrightarrow> sound_order sg"
  shows "set (check_result_sanity r (Some c)) \<subseteq> {SV_FINAL_CAPITAL}"
proof -
  let ?e = "new_risk_engine (bk_risk_config c) (bk_initial_capital c) today"
  have pos: "rs_positions_open (re_state ?e) = 0" by (simp add: new_risk_engine_def new_risk_state_def)
  obtain s where s: "run_backtest c ?e sf df funding = Inr s" "compile_results c mean ratios (bs_trades s) (bs_equity_curve s) = Inr r"
    using assms(1) by (auto simp: backtest_def bindr_Inr_iff)
  obtain s1 where s1: "run_bars c (funding \<noteq> []) sf df (length df) (start_backtest c ?e funding) = Inr s1"
    "finish_backtest c (funding \<noteq> []) df s1 = Inr s" using run_backtest_parts [OF s(1)] by blast
  have book: "\<forall>t \<in> set (bs_trades s). \<exists>x. bt_exit_time t = Some x \<and> bt_entry_time t \<le> x"
    "\<forall>p \<in> set (bs_equity_curve s). \<exists>k \<le> length (bs_trades s). ep_equity p = capital c (take k (bs_trades s))"
    using backtest_book_facts [OF s(1) assms(3) pos] by blast+
  have sound: "\<forall>t \<in> set (bs_trades s). sound_trade c t"
  proof (cases "df = []")
    case True
    then have "s1 = start_backtest c ?e funding" using s1(1) by simp
    then have "bs_open_trade s1 = None" "bs_trades s1 = []" by (simp_all add: start_backtest_def)
    then have "bs_trades s = []" using s1(2) by (simp add: finish_backtest_def)
    then show ?thesis by simp
  next
    case False
    have "sound_inv c s1"
      by (rule run_bars_sound [OF s1(1) start_book [OF pos] start_sound [OF assms(2)] order.refl assms(3,2)]) (use assms(4,5) in auto)
    then show ?thesis by (rule finish_sound [OF _ assms(2) _ s1(2)]) (use assms(4) False in simp)
  qed
  have curve: "\<not> (\<exists>p \<in> set (bs_equity_curve s). pyround 2 (ep_equity p) \<notin> pyround 2 ` set (running_capital (bk_initial_capital c) (bs_trades s)))"
    by (rule explained_points [OF book(2)])
  show ?thesis
  proof (cases "bs_trades s = []")
    case True
    then have "r = empty_result c (bs_equity_curve s)" using s(2) by (simp add: compile_results_def)
    then show ?thesis using curve True by (auto simp: check_result_sanity_def empty_result_def Let_def)
  next
    case False
    note f = compiled_fields [OF s(2) False]
    have "0 \<le> bz_total_fees r" by (rule f(11)) (use sound in \<open>auto simp: sound_trade_def\<close>)
    moreover have "concat (map (trade_violations (Some c)) (bs_trades s)) = []"
      using sound book(1) by (simp add: sound_trade_violations)
    ultimately show ?thesis using f(1-10) curve by (auto simp: check_result_sanity_def Let_def)
  qed
qed

text \<open>One order without costs, filled on the third bar and closed there at its target.\<close>

definition free_config :: backtest_config where
  "free_config = \<lparr>bk_initial_capital = 10000,
     bk_exchange_spec = default_exchange_spec\<lparr>xs_taker_fee := 0, xs_slippage_bps := 0\<rparr>, bk_funding_rate_avg = 0,
     bk_risk_config = default_risk_config\<rparr>"

definition full_order :: backtest_signal where
  "full_order = demo_order\<lparr>bg_position_pct := Some 1\<rparr>"

definition demo_market :: "bar list" where
  "demo_market = [demo_backtest_bar 0 99 101, demo_backtest_bar 1 99 101, demo_backtest_bar 2 99 130]"

lemma demo_bar_numbers:
  "fl 100 = 100" "fl 10000 = 10000" "fl 120 = 120" "fl 20 = 20" "fl 2000 = 2000" "fl 10 = 10" "fl 8 = 8" "fl 12000 = 12000" "fl 12100 = 12100" "fl 1000 = 1000"
  by (simp_all add: fl_numeral)

lemma demo_run:
  "\<exists>s. run_backtest free_config (new_risk_engine default_risk_config 10000 0) (\<lambda>_. Some full_order) demo_market [] = Inr s \<and>
     map bt_pnl (bs_trades s) = [2000]"
  by (simp add: run_backtest_def demo_market_def bindr_def run_bar_def fill_pending_def start_backtest_def numeral_2_eq_2 Let_def
      apply_funding_events.simps manage_open_def decide_def can_trade_def reset_daily_def new_risk_engine_def new_risk_state_def
      default_risk_config_def demo_backtest_bar_def full_order_def demo_order_def open_backtest_trade_def free_config_def
      bk_slippage_rate_def xs_slippage_rate_def default_exchange_spec_def bk_fee_rate_def manage_position_def exit_on_bar_def truthy_def
      close_backtest_trade_def estimate_flat_funding_def bk_funding_interval_hours_def py_div_def float_of_int_def int_to_float_def
      py_int_def total_seconds_def calculate_pnl_def trade_r_multiple_def finish_backtest_def float_op demo_bar_numbers cooling_down_def dt_date_def day_us_def)

theorem backtest_book_witness:
  "\<exists>s. run_backtest free_config (new_risk_engine default_risk_config 10000 0) (\<lambda>_. Some full_order) demo_market [] = Inr s \<and>
     map bt_pnl (bs_trades s) = [2000] \<and> bs_equity s = 12000"
proof -
  obtain s where s: "run_backtest free_config (new_risk_engine default_risk_config 10000 0) (\<lambda>_. Some full_order) demo_market [] = Inr s"
    "map bt_pnl (bs_trades s) = [2000]" using demo_run by (elim exE conjE)
  have "sorted_wrt (<) (map b_timestamp demo_market)" "rs_positions_open (re_state (new_risk_engine default_risk_config 10000 0)) = 0"
    by (simp_all add: demo_market_def demo_backtest_bar_def new_risk_engine_def new_risk_state_def)
  from backtest_book [OF s(1) this] have "bs_equity s = capital free_config (bs_trades s)" by blast
  also have "\<dots> = 12000" unfolding capital_def s(2) by (simp add: free_config_def fadd_def demo_bar_numbers)
  finally have "bs_equity s = 12000" .
  with s show ?thesis by (intro exI conjI)
qed

lemma compiled_exists:
  assumes "bk_initial_capital c \<noteq> 0"
  shows "\<exists>r. compile_results c mean ratios trades curve = Inr r"
proof (cases "trades = []")
  case False
  then show ?thesis
    unfolding compile_results_def Let_def case_prod_unfold py_div_def bindr_def
    by (simp only: assms if_False sum.case) blast
qed (simp add: compile_results_def)

lemma free_capital: "bk_initial_capital free_config \<noteq> 0"
  by (simp add: free_config_def)

lemma free_config_sound: "sound_backtest_config free_config"
  by (simp add: sound_backtest_config_def free_config_def bk_slippage_rate_def xs_slippage_rate_def bk_fee_rate_def
      default_exchange_spec_def default_risk_config_def demo_bar_numbers)

theorem backtest_results_sane_witness:
  "\<exists>r. backtest free_config (\<lambda>_. 0) (\<lambda>_. (0, 0)) (new_risk_engine default_risk_config 10000 0) (\<lambda>_. Some full_order) demo_market [] = Inr r \<and>
     map bt_pnl (bz_trades r) = [2000] \<and> set (check_result_sanity r (Some free_config)) \<subseteq> {SV_FINAL_CAPITAL}"
proof -
  obtain s where s: "run_backtest free_config (new_risk_engine default_risk_config 10000 0) (\<lambda>_. Some full_order) demo_market [] = Inr s"
    "map bt_pnl (bs_trades s) = [2000]" using demo_run by (elim exE conjE)
  then have ne: "bs_trades s \<noteq> []" by auto
  obtain r where r: "compile_results free_config (\<lambda>_. 0) (\<lambda>_. (0, 0)) (bs_trades s) (bs_equity_curve s) = Inr r"
    by (rule exE [OF compiled_exists [OF free_capital]])
  have c: "bk_risk_config free_config = default_risk_config" "bk_initial_capital free_config = 10000"
    by (simp_all add: free_config_def)
  have b: "backtest free_config (\<lambda>_. 0) (\<lambda>_. (0, 0)) (new_risk_engine default_risk_config 10000 0) (\<lambda>_. Some full_order) demo_market [] = Inr r"
    by (simp add: backtest_def s(1) bindr_def r)
  have "set (check_result_sanity r (Some free_config)) \<subseteq> {SV_FINAL_CAPITAL}"
    by (rule backtest_results_sane [OF b [folded c] free_config_sound])
      (auto simp: demo_market_def demo_backtest_bar_def full_order_def demo_order_def sound_order_def nonneg_def)
  moreover have "map bt_pnl (bz_trades r) = [2000]" using s(2) compiled_fields(1) [OF r ne] by simp
  ultimately show ?thesis using b by (intro exI conjI)
qed

end
