(* ===== verification/Baselines.thy ===== *)
theory Baselines
  imports Labels Regime Backtester "HOL-Library.AList"
begin

text \<open>
  \<open>ml/evaluation/baselines.py\<close>, the strategy that is live (\<open>BaselineStrategy\<close>) and the research built on
  back-tests of it: \<open>ml/evaluation/cost_sensitivity.py\<close>, \<open>ml/evaluation/overfitting.py\<close>,
  \<open>services/backtester/walk_forward_baselines.py\<close> and \<open>services/backtester/regime_analysis.py\<close>.
\<close>

section \<open>Signals\<close>

definition default_sl_tp :: "f64 \<Rightarrow> f64 \<Rightarrow> string \<Rightarrow> f64 \<times> f64" where
  "default_sl_tp entry_price atr_val side =
     (if side = ''LONG'' then (fsub entry_price (fmul 2 atr_val), fadd entry_price (fmul 3 atr_val))
      else (fadd entry_price (fmul 2 atr_val), fsub entry_price (fmul 3 atr_val)))"

definition baseline_found :: "f64 \<Rightarrow> f64 \<Rightarrow> string \<Rightarrow> raw_setup" where
  "baseline_found entry_price atr_val side =
     (case default_sl_tp entry_price atr_val side of (sl, tp) \<Rightarrow> found side (Some sl) (Some tp) None None)"

definition precompute_indicators :: "pandas_series \<Rightarrow> bar list \<Rightarrow> prepared_row list" where
  "precompute_indicators P df =
     add_column ''_donchian_low_20'' (ps_rolling_min P 20 (lows df)) (add_column ''_donchian_high_20'' (ps_rolling_max P 20 (highs df))
       (add_column ''_adx_14'' (adx P df 14) (add_column ''_atr_14'' (atr P df 14) (add_column ''_rsi_14'' (rsi P (closes df) 14)
       (add_column ''_ema_slow'' (ema P (closes df) 21) (add_column ''_ema_fast'' (ema P (closes df) 9) (bare df)))))))"

text \<open>A comparison with NaN is false: only the last averages may be missing.\<close>

definition ema_crossover_signal :: "nat \<Rightarrow> prepared_row list \<Rightarrow> raw_setup option" where
  "ema_crossover_signal slow_period df =
     (if length df < slow_period + 2 then None
      else let last1 = row_back 1 df; prev = row_back 2 df
      in case (pw_col prev ''_ema_fast'', pw_col prev ''_ema_slow'', pw_col last1 ''_atr_14'', pw_col last1 ''_ema_fast'', pw_col last1 ''_ema_slow'') of
        (Some pf, Some ps, Some a, Some f, Some s) \<Rightarrow>
          if a \<le> 0 then None
          else let entry = b_close (pw_bar last1)
               in if pf \<le> ps \<and> f > s then Some (baseline_found entry a ''LONG'')
                  else if pf \<ge> ps \<and> f < s then Some (baseline_found entry a ''SHORT'') else None
      | _ \<Rightarrow> None)"

definition rsi_signal :: "nat \<Rightarrow> f64 \<Rightarrow> f64 \<Rightarrow> prepared_row list \<Rightarrow> raw_setup option" where
  "rsi_signal period oversold overbought df =
     (if length df < period + 12 then None
      else let last1 = row_back 1 df; prev = row_back 2 df
      in case (pw_col prev ''_rsi_14'', pw_col last1 ''_rsi_14'', pw_col last1 ''_atr_14'') of
        (Some p, Some r, Some a) \<Rightarrow>
          if a \<le> 0 then None
          else let entry = b_close (pw_bar last1)
               in if p < oversold \<and> oversold \<le> r then Some (baseline_found entry a ''LONG'')
                  else if p > overbought \<and> overbought \<ge> r then Some (baseline_found entry a ''SHORT'') else None
      | _ \<Rightarrow> None)"

definition trend_following_signal :: "nat \<Rightarrow> f64 \<Rightarrow> prepared_row list \<Rightarrow> raw_setup option" where
  "trend_following_signal breakout_period adx_threshold df =
     (if length df < breakout_period + 20 then None
      else let last1 = row_back 1 df; prev = row_back 2 df
      in case (pw_col last1 ''_adx_14'', pw_col last1 ''_atr_14'', pw_col prev ''_donchian_high_20'', pw_col prev ''_donchian_low_20'') of
        (Some x, Some a, Some high, Some low) \<Rightarrow>
          if a \<le> 0 \<or> x < adx_threshold then None
          else let entry = b_close (pw_bar last1)
               in if entry > high then Some (baseline_found entry a ''LONG'')
                  else if entry < low then Some (baseline_found entry a ''SHORT'') else None
      | _ \<Rightarrow> None)"

text \<open>Buy and hold remembers that it has fired: the closure's flag is passed along.\<close>

definition buy_and_hold_order :: "f64 \<Rightarrow> backtest_signal" where
  "buy_and_hold_order position_pct =
     \<lparr>bg_signal_type = Some ''LONG'', bg_stop_loss = None, bg_take_profit_1 = None, bg_leverage = Some 1,
      bg_position_pct = Some position_pct, bg_market_regime = None\<rparr>"

definition buy_and_hold_signal :: "f64 \<Rightarrow> bool \<Rightarrow> bar list \<Rightarrow> backtest_signal option \<times> bool" where
  "buy_and_hold_signal position_pct fired df =
     (if fired \<or> length df < 2 then (None, fired) else (Some (buy_and_hold_order position_pct), True))"

section \<open>The live strategy\<close>

definition live_baseline :: "pandas_series \<Rightarrow> nat \<Rightarrow> f64 \<Rightarrow> baseline" where
  "live_baseline P breakout_period adx_threshold =
     \<lparr>bl_setup = \<lambda>df. trend_following_signal breakout_period adx_threshold (precompute_indicators P df),
      bl_adx = \<lambda>df. pw_col (row_back 1 (precompute_indicators P df)) ''_adx_14'', bl_threshold = adx_threshold\<rparr>"

section \<open>Back-tests of the baselines\<close>

definition order_of :: "raw_setup \<Rightarrow> backtest_signal" where
  "order_of r = \<lparr>bg_signal_type = Some (rw_signal_type r), bg_stop_loss = rw_stop_loss r, bg_take_profit_1 = rw_take_profit_1 r,
     bg_leverage = Some 1, bg_position_pct = None, bg_market_regime = None\<rparr>"

text \<open>
  The columns are computed once over all candles; at a bar the signal function is given the prepared rows up to it.  The closure
  of buy and hold, new for each back-test, is called at every bar from the second on, so it fires there.
\<close>

definition BASELINE_STRATEGIES :: "(string \<times> (prepared_row list \<Rightarrow> raw_setup option) option) list" where
  "BASELINE_STRATEGIES =
     [(''buy_and_hold'', None), (''ema_crossover'', Some (ema_crossover_signal 21)), (''rsi_strategy'', Some (rsi_signal 14 30 70)),
      (''trend_following'', Some (trend_following_signal 20 25))]"

definition baseline_orders :: "pandas_series \<Rightarrow> (prepared_row list \<Rightarrow> raw_setup option) option \<Rightarrow> bar list \<Rightarrow> bar list \<Rightarrow> backtest_signal option" where
  "baseline_orders P strategy df seen =
     (case strategy of
        None \<Rightarrow> fst (buy_and_hold_signal (fl (95/100)) (length seen \<noteq> 2) seen)
      | Some sig \<Rightarrow> map_option order_of (sig (take (length seen) (precompute_indicators P df))))"

type_synonym statistics = "(f64 list \<Rightarrow> f64) \<times> (equity_point list \<Rightarrow> f64 \<times> f64)"

definition run_baseline ::
  "pandas_series \<Rightarrow> statistics \<Rightarrow> (backtest_config \<Rightarrow> risk_engine) \<Rightarrow> string \<Rightarrow> bar list \<Rightarrow> backtest_config \<Rightarrow> (datetime \<times> f64) list \<Rightarrow> backtest_result result" where
  "run_baseline P S engine name df config funding =
     (case map_of BASELINE_STRATEGIES name of
        None \<Rightarrow> Inl ValueError
      | Some strategy \<Rightarrow> backtest config (fst S) (snd S) (engine config) (baseline_orders P strategy df) df funding)"

section \<open>The ladder of costs\<close>

definition COST_MULTIPLIERS :: "(string \<times> f64) list" where
  "COST_MULTIPLIERS = [(''base'', 1), (''base_plus_25pct'', 5/4), (''base_plus_50pct'', 3/2), (''base_plus_100pct'', 2)]"

definition scaled_spec :: "f64 \<Rightarrow> exchange_spec \<Rightarrow> exchange_spec" where
  "scaled_spec mult x = x\<lparr>xs_maker_fee := fmul (xs_maker_fee x) mult, xs_taker_fee := fmul (xs_taker_fee x) mult,
     xs_slippage_bps := fmul (xs_slippage_bps x) mult, xs_spread_bps := fmul (xs_spread_bps x) mult\<rparr>"

definition scaled_config :: "f64 \<Rightarrow> backtest_config \<Rightarrow> backtest_config" where
  "scaled_config mult c = c\<lparr>bk_exchange_spec := scaled_spec mult (bk_exchange_spec c), bk_funding_rate_avg := fmul (bk_funding_rate_avg c) mult\<rparr>"

fun collect :: "('a \<Rightarrow> 'b result) \<Rightarrow> 'a list \<Rightarrow> 'b list result" where
  "collect f [] = Inr []"
| "collect f (x # xs) = bindr (f x) (\<lambda>y. bindr (collect f xs) (\<lambda>ys. Inr (y # ys)))"

definition run_cost_sensitivity ::
  "statistics \<Rightarrow> (backtest_config \<Rightarrow> risk_engine) \<Rightarrow> bar list \<Rightarrow> (bar list \<Rightarrow> backtest_signal option) \<Rightarrow> backtest_config
     \<Rightarrow> (datetime \<times> f64) list \<Rightarrow> (string \<times> f64 \<times> backtest_result) list result" where
  "run_cost_sensitivity S engine df signal_func base_config funding =
     collect (\<lambda>(scenario, mult). bindr (backtest (scaled_config mult base_config) (fst S) (snd S) (engine (scaled_config mult base_config)) signal_func df funding)
       (\<lambda>r. Inr (scenario, mult, r))) COST_MULTIPLIERS"

section \<open>Folds\<close>

definition between :: "datetime \<Rightarrow> datetime \<Rightarrow> (datetime \<times> f64) list \<Rightarrow> (datetime \<times> f64) list" where
  "between a b rates = filter (\<lambda>(t, _). a \<le> t \<and> t \<le> b) rates"

definition run_walk_forward_baseline ::
  "pandas_series \<Rightarrow> statistics \<Rightarrow> (backtest_config \<Rightarrow> risk_engine) \<Rightarrow> string \<Rightarrow> bar list \<Rightarrow> backtest_config \<Rightarrow> (datetime \<times> f64) list
     \<Rightarrow> nat \<times> nat \<times> nat \<times> nat \<Rightarrow> ((nat \<times> nat) \<times> (nat \<times> nat) \<times> backtest_result) list result option" where
  "run_walk_forward_baseline P S engine name df config funding = (\<lambda>(train_window, test_window, step, embargo).
     map_option (collect (\<lambda>(train, test).
         let test_df = slice test df
         in bindr (run_baseline P S engine name test_df config (between (b_timestamp (hd test_df)) (b_timestamp (last test_df)) funding))
              (\<lambda>r. Inr (train, test, r))))
       (walk_forward_splits (length df) train_window test_window step embargo 0))"

section \<open>Signs of overfitting\<close>

datatype overfitting_flag = RETURN_CONCENTRATED f64 | LOW_PROFITABLE_FOLD_RATE f64 | RETURN_COLLAPSES f64 | TRAIN_TEST_GAP string f64

definition check_train_test_gap :: "(string \<rightharpoonup> f64) \<Rightarrow> (string \<rightharpoonup> f64) \<Rightarrow> f64 \<Rightarrow> overfitting_flag list" where
  "check_train_test_gap train_metrics test_metrics max_gap =
     List.map_filter (\<lambda>key. case (train_metrics key, test_metrics key) of
         (Some a, Some b) \<Rightarrow> if fsub a b > max_gap then Some (TRAIN_TEST_GAP key (fsub a b)) else None
       | _ \<Rightarrow> None) [''accuracy'', ''f1_weighted'', ''auc_roc'']"

definition check_fold_return_concentration :: "f64 list \<Rightarrow> nat \<Rightarrow> overfitting_flag list" where
  "check_fold_return_concentration fold_returns top_n =
     (if fold_returns = [] \<or> fsum (map abs fold_returns) = 0 then []
      else let total = fsum fold_returns
           in if total \<le> 0 then []
              else let share = fdiv (fsum (take top_n (rev (sort fold_returns)))) total
                   in if share > fl (6/10) then [RETURN_CONCENTRATED share] else [])"

definition check_profitable_fold_rate :: "f64 list \<Rightarrow> f64 \<Rightarrow> overfitting_flag list" where
  "check_profitable_fold_rate fold_returns min_rate =
     (if fold_returns = [] then []
      else let rate = fdiv (of_nat (length (filter (\<lambda>r. r > 0) fold_returns))) (of_nat (length fold_returns))
           in if rate < min_rate then [LOW_PROFITABLE_FOLD_RATE rate] else [])"

definition check_cost_sensitivity_collapse :: "f64 \<Rightarrow> f64 \<Rightarrow> f64 \<Rightarrow> overfitting_flag list" where
  "check_cost_sensitivity_collapse base_return stressed_return max_drop_pct =
     (if base_return \<le> 0 then []
      else let drop_pct = fmul (fdiv (fsub base_return stressed_return) base_return) 100
           in if drop_pct > max_drop_pct then [RETURN_COLLAPSES drop_pct] else [])"

section \<open>Trades by regime\<close>

record regime_bucket =
  rb_trades :: nat
  rb_win_rate :: f64
  rb_total_pnl :: f64
  rb_profit_factor :: f64
  rb_average_pnl :: f64

text \<open>The row of \<open>searchsorted(entry_time, side=right) - 1\<close>: none before the first time.\<close>

definition regime_at :: "pandas \<Rightarrow> frame \<Rightarrow> datetime list \<Rightarrow> datetime \<Rightarrow> string" where
  "regime_at pd fm timestamps entry_time =
     (let n = length (filter (\<lambda>t. t \<le> entry_time) timestamps)
      in if n = 0 \<or> n > length (fm_rows fm) then ''UNKNOWN'' else regime_text (detect_regime_series pd fm ! (n - 1)))"

definition bucket_stats :: "backtest_trade list \<Rightarrow> regime_bucket" where
  "bucket_stats trades =
     (let pnls = map bt_pnl trades; winners = filter (\<lambda>p. p > 0) pnls; losers = filter (\<lambda>p. p \<le> 0) pnls;
          gross_profit = fsum winners; gross_loss = (if losers = [] then 1 else \<bar>fsum losers\<bar>)
      in \<lparr>rb_trades = length trades,
          rb_win_rate = (if trades = [] then 0 else pyround 2 (fmul (fdiv (of_nat (length winners)) (of_nat (length trades))) 100)),
          rb_total_pnl = pyround 2 (fsum pnls),
          rb_profit_factor = (if gross_loss > 0 then pyround 2 (fdiv gross_profit gross_loss) else 0),
          rb_average_pnl = (if trades = [] then 0 else pyround 2 (fdiv (fsum pnls) (of_nat (length trades))))\<rparr>)"

text \<open>The trades of each regime, in the order in which the regimes appear.\<close>

definition bucketed :: "pandas \<Rightarrow> frame \<Rightarrow> datetime list \<Rightarrow> backtest_trade list \<Rightarrow> (string \<times> backtest_trade list) list" where
  "bucketed pd fm timestamps trades =
     foldl (\<lambda>bs t. let r = regime_at pd fm timestamps (bt_entry_time t)
                   in AList.update r ((case map_of bs r of None \<Rightarrow> [] | Some ts \<Rightarrow> ts) @ [t]) bs) [] trades"

definition bucket_trades_by_regime :: "pandas \<Rightarrow> frame \<Rightarrow> datetime list \<Rightarrow> backtest_trade list \<Rightarrow> (string \<times> regime_bucket) list" where
  "bucket_trades_by_regime pd fm timestamps trades = map (\<lambda>(r, ts). (r, bucket_stats ts)) (bucketed pd fm timestamps trades)"

section \<open>The back-test is the live strategy\<close>

lemma causal_baseline: "trailing P \<Longrightarrow> causal (precompute_indicators P)"
  unfolding precompute_indicators_def by (intro causal_intros causal_indicators causal_windows; assumption?)

lemma trend_following_side:
  "trend_following_signal k thr df = Some r \<Longrightarrow> rw_signal_type r = ''LONG'' \<or> rw_signal_type r = ''SHORT''"
  by (auto simp: trend_following_signal_def baseline_found_def default_sl_tp_def found_def Let_def split: if_splits option.splits)

text \<open>
  C18: What the research measures is what runs: at every bar the signal that the trend-following back-test finds on the prepared
  history is the one that the live baseline strategy generates from the candles up to that bar, with the same stop and the same
  target.
\<close>

theorem backtested_baseline_is_live:
  assumes "trailing P" "k \<le> length df"
  shows "baseline_orders P (Some (trend_following_signal 20 25)) df (take k df) =
    (let s = baseline_run (live_baseline P 20 25) (take k df)
     in if ss_signal_type s = ''NO_TRADE'' then None
        else Some \<lparr>bg_signal_type = Some (ss_signal_type s), bg_stop_loss = ss_stop_loss s, bg_take_profit_1 = ss_take_profit_1 s,
                   bg_leverage = Some 1, bg_position_pct = None, bg_market_regime = None\<rparr>)"
proof -
  have "take k (precompute_indicators P df) = precompute_indicators P (take k df)"
    using causal_take [OF causal_baseline [OF assms(1)]] by simp
  then show ?thesis using assms(2) trend_following_side [of 20 25 "precompute_indicators P (take k df)"]
    by (auto simp: baseline_orders_def baseline_run_def baseline_generate_def live_baseline_def order_of_def no_trade_signal_def Let_def min_def
        split: option.splits)
qed

theorem backtested_baseline_is_live_witness:
  "baseline_orders sample_windows (Some (trend_following_signal 20 25)) (replicate 50 (flat_bar 100)) (replicate 45 (flat_bar 100)) =
    (let s = baseline_run (live_baseline sample_windows 20 25) (replicate 45 (flat_bar 100))
     in if ss_signal_type s = ''NO_TRADE'' then None
        else Some \<lparr>bg_signal_type = Some (ss_signal_type s), bg_stop_loss = ss_stop_loss s, bg_take_profit_1 = ss_take_profit_1 s,
                   bg_leverage = Some 1, bg_position_pct = None, bg_market_regime = None\<rparr>)"
  using backtested_baseline_is_live [OF sample_trailing, of 45 "replicate 50 (flat_bar 100)"] by simp

section \<open>Buy and hold\<close>

text \<open>The closure over a run is its first call.\<close>

lemma buy_and_hold_run:
  "snd (foldl (\<lambda>(fired, outs) n. let (r, f) = buy_and_hold_signal pct fired (take n df) in (f, outs @ [r])) (False, []) [2..<m]) =
   map (\<lambda>n. fst (buy_and_hold_signal pct (n \<noteq> 2) (take n df))) [2..<m] \<or> length df < 2"
proof (cases "length df < 2")
  case False
  have "foldl (\<lambda>(fired, outs) n. let (r, f) = buy_and_hold_signal pct fired (take n df) in (f, outs @ [r])) (False, []) [2..<m] =
     (2 < m, map (\<lambda>n. fst (buy_and_hold_signal pct (n \<noteq> 2) (take n df))) [2..<m])"
  proof (induction m)
    case (Suc m)
    then show ?case using False by (cases "2 \<le> m") (auto simp: buy_and_hold_signal_def)
  qed simp
  then show ?thesis by simp
qed simp

text \<open>The state of a run of buy and hold: nothing before the second bar, then an order, then at most one position, without levels.\<close>

definition held :: "bar list \<Rightarrow> backtest_trade \<Rightarrow> bool" where
  "held df t \<longleftrightarrow> bt_entry_time t = b_timestamp (df ! 2) \<and> bt_side t = ''LONG'' \<and> bt_stop_loss t = None \<and> bt_take_profit t = None \<and> bt_exit_price t = None"

definition hold_inv :: "bar list \<Rightarrow> nat \<Rightarrow> backtest_state \<Rightarrow> bool" where
  "hold_inv df n s \<longleftrightarrow> bs_trades s = [] \<and>
     (bs_pending_signal s = None \<or> n = 2 \<and> bs_pending_signal s = Some (buy_and_hold_order (fl (95/100))) \<and> bs_open_trade s = None) \<and>
     (n \<le> 2 \<longrightarrow> bs_open_trade s = None) \<and>
     (\<forall>t. bs_open_trade s = Some t \<longrightarrow> held df t)"

lemma funding_keeps:
  "apply_funding_events T p (Some t) es = (x, es') \<Longrightarrow> \<exists>t'. x = Some t' \<and> bt_entry_time t' = bt_entry_time t \<and> bt_side t' = bt_side t \<and>
     bt_stop_loss t' = bt_stop_loss t \<and> bt_take_profit t' = bt_take_profit t \<and> bt_exit_price t' = bt_exit_price t"
  by (induction T p "Some t" es arbitrary: t rule: apply_funding_events.induct) (fastforce split: if_splits)+

lemma funding_none: "fst (apply_funding_events T p None es) = None"
  by (induction T p "None :: backtest_trade option" es rule: apply_funding_events.induct) auto

lemma opened_hold:
  assumes "open_backtest_trade c e (buy_and_hold_order pct) price T n regime = Inr t"
  shows "bt_entry_time t = T \<and> bt_side t = ''LONG'' \<and> bt_stop_loss t = None \<and> bt_take_profit t = None \<and> bt_exit_price t = None"
  using assms by (auto simp: open_backtest_trade_def buy_and_hold_order_def Let_def bindr_def split: sum.splits)

lemma hold_step:
  assumes inv: "hold_inv df n s" and n: "0 < n" "n < length df"
    and step: "run_bar c rf (baseline_orders P None df) df n s = Inr s'"
  shows "hold_inv df (Suc n) s'"
proof -
  let ?sf = "baseline_orders P None df"
  have call: "?sf (take (Suc n) df) = (if n = 1 then Some (buy_and_hold_order (fl (95/100))) else None)"
    using n by (auto simp: baseline_orders_def buy_and_hold_signal_def min_def)
  obtain s1 where s1: "fill_pending c (b_timestamp (df ! n)) (b_open (df ! n)) s = Inr s1"
    using step by (auto simp: run_bar_def Let_def bindr_def split: sum.splits)
  have i1: "bs_trades s1 = [] \<and> bs_pending_signal s1 = None \<and> (n \<le> 1 \<longrightarrow> bs_open_trade s1 = None) \<and> (\<forall>t. bs_open_trade s1 = Some t \<longrightarrow> held df t)"
  proof (cases "bs_pending_signal s")
    case None
    then have "s1 = s" using s1 by (simp add: fill_pending_def)
    then show ?thesis using inv None by (simp add: hold_inv_def)
  next
    case (Some sg)
    then have p: "n = 2" "sg = buy_and_hold_order (fl (95/100))" "bs_open_trade s = None" "bs_trades s = []" using inv by (auto simp: hold_inv_def)
    obtain e2 allowed v where ct: "can_trade (b_timestamp (df ! n)) (bs_risk_engine s) = (e2, allowed, v)" by (cases rule: prod_cases3)
    show ?thesis
    proof (cases allowed)
      case False
      then have "s1 = s\<lparr>bs_pending_signal := None, bs_risk_engine := e2\<rparr>" using s1 by (simp add: fill_pending_def Some p(3) ct)
      then show ?thesis using p by simp
    next
      case True
      then obtain t m e3 where t: "open_backtest_trade c e2 (buy_and_hold_order (fl (95/100))) (b_open (df ! n)) (b_timestamp (df ! n)) m ''UNCERTAIN'' = Inr t"
          "s1 = s\<lparr>bs_pending_signal := None, bs_trade_counter := m, bs_open_trade := Some t, bs_risk_engine := e3\<rparr>"
        using s1 by (auto simp: fill_pending_def Some p(2,3) ct bindr_def buy_and_hold_order_def split: sum.splits)
      then show ?thesis using p opened_hold [OF t(1)] by (simp add: held_def)
    qed
  qed
  obtain t es where f: "apply_funding_events (b_timestamp (df ! n)) (b_open (df ! n)) (bs_open_trade s1) (bs_funding_events s1) = (t, es)"
    by fastforce
  define s2 where "s2 = s1\<lparr>bs_open_trade := t, bs_funding_events := es\<rparr>"
  have t: "(n \<le> 1 \<longrightarrow> t = None) \<and> (\<forall>u. t = Some u \<longrightarrow> held df u)"
  proof (cases "bs_open_trade s1")
    case None
    then show ?thesis using f funding_none [of "b_timestamp (df ! n)" "b_open (df ! n)" "bs_funding_events s1"] by simp
  next
    case (Some u)
    then have "held df u" "\<not> n \<le> 1" using i1 by auto
    then show ?thesis using funding_keeps [OF f [unfolded Some]] by (auto simp: held_def)
  qed
  have "manage_open c rf (df ! n) s2 = Inr s2"
    using t by (cases t) (auto simp: manage_open_def s2_def manage_position_def exit_on_bar_def bindr_def held_def truthy_def)
  then have "s' = (decide ?sf (take (n + 1) df) s2)\<lparr>bs_equity_curve := bs_equity_curve (decide ?sf (take (n + 1) df) s2) @
      [\<lparr>ep_timestamp = b_timestamp (df ! n), ep_equity = bs_equity (decide ?sf (take (n + 1) df) s2), ep_price = b_close (df ! n)\<rparr>]\<rparr>"
    using step by (simp add: run_bar_def s1 f s2_def bindr_def Let_def)
  then show ?thesis using t n i1 by (auto simp: hold_inv_def decide_def call s2_def)
qed

lemma hold_run: "n \<le> length df \<Longrightarrow> run_bars c rf (baseline_orders P None df) df n (start_backtest c e fs) = Inr s \<Longrightarrow> hold_inv df n s"
proof (induction n arbitrary: s)
  case 0
  then show ?case by (auto simp: hold_inv_def start_backtest_def)
next
  case (Suc n)
  then obtain s1 where s1: "run_bars c rf (baseline_orders P None df) df n (start_backtest c e fs) = Inr s1"
    by (auto simp: bindr_def split: sum.splits)
  have "hold_inv df n s1" using Suc s1 by simp
  then show ?case using Suc.prems s1 hold_step [of df n s1] by (cases "n = 0") (auto simp: bindr_def hold_inv_def)
qed

text \<open>
  Buy and hold buys once: a back-test of it that returns has at most one trade, bought long at the third bar, without
  levels, and closed at the end of the data.
\<close>

theorem buy_and_hold_once:
  assumes "run_baseline P S engine ''buy_and_hold'' df config funding = Inr r"
  shows "length (bz_trades r) \<le> 1 \<and>
    (\<forall>t\<in>set (bz_trades r). bt_entry_time t = b_timestamp (df ! 2) \<and> bt_side t = ''LONG'' \<and> bt_stop_loss t = None \<and>
       bt_exit_reason t = ''end_of_data'' \<and> bt_exit_time t = Some (b_timestamp (last df)))"
proof -
  have "backtest config (fst S) (snd S) (engine config) (baseline_orders P None df) df funding = Inr r"
    using assms by (simp add: run_baseline_def BASELINE_STRATEGIES_def)
  then obtain s1 s where run: "run_bars config (funding \<noteq> []) (baseline_orders P None df) df (length df) (start_backtest config (engine config) funding) = Inr s1"
      "finish_backtest config (funding \<noteq> []) df s1 = Inr s" "compile_results config (fst S) (snd S) (bs_trades s) (bs_equity_curve s) = Inr r"
    unfolding backtest_def run_backtest_def bindr_Inr_iff by blast
  have inv: "hold_inv df (length df) s1" by (rule hold_run [OF _ run(1)]) simp
  have trades: "bz_trades r = bs_trades s"
  proof (cases "bs_trades s = []")
    case True
    show ?thesis using run(3) unfolding True compile_results_def if_P [OF refl] by (auto simp: empty_result_def)
  next
    case False
    then show ?thesis by (rule compiled_fields(1) [OF run(3)])
  qed
  show ?thesis
  proof (cases "bs_open_trade s1")
    case None
    then have "bs_trades s = []" using run(2) inv by (simp add: finish_backtest_def hold_inv_def)
    then show ?thesis by (simp add: trades)
  next
    case (Some t)
    obtain t1 where c: "close_backtest_trade config (funding \<noteq> []) (b_close (last df)) ''end_of_data'' (b_timestamp (last df)) t = Inr t1" "bs_trades s = [t1]"
      using run(2) inv by (auto simp: finish_backtest_def Some hold_inv_def Let_def bindr_def split: sum.splits)
    have "held df t" using inv Some by (simp add: hold_inv_def)
    then show ?thesis using c by (auto simp: trades held_def close_backtest_trade_def Let_def bindr_def split: sum.splits if_splits)
  qed
qed

lemma sample_hold:
  "\<exists>s. run_backtest free_config (new_risk_engine default_risk_config 10000 0) (baseline_orders sample_windows None demo_market) demo_market [] = Inr s \<and>
     length (bs_trades s) = 1"
  by (simp add: run_backtest_def demo_market_def bindr_def run_bar_def fill_pending_def start_backtest_def numeral_2_eq_2 Let_def
      apply_funding_events.simps manage_open_def decide_def can_trade_def reset_daily_def new_risk_engine_def new_risk_state_def
      default_risk_config_def demo_backtest_bar_def open_backtest_trade_def free_config_def baseline_orders_def buy_and_hold_signal_def
      buy_and_hold_order_def bk_slippage_rate_def xs_slippage_rate_def default_exchange_spec_def bk_fee_rate_def manage_position_def
      exit_on_bar_def truthy_def close_backtest_trade_def estimate_flat_funding_def bk_funding_interval_hours_def py_div_def
      float_of_int_def int_to_float_def py_int_def total_seconds_def finish_backtest_def float_op demo_bar_numbers
      cooling_down_def dt_date_def day_us_def)

theorem buy_and_hold_once_witness:
  "\<exists>r. run_baseline sample_windows (\<lambda>_. 0, \<lambda>_. (0, 0)) (\<lambda>_. new_risk_engine default_risk_config 10000 0) ''buy_and_hold'' demo_market free_config [] = Inr r \<and>
     length (bz_trades r) = 1 \<and> (\<forall>t\<in>set (bz_trades r). bt_entry_time t = b_timestamp (demo_market ! 2))"
proof -
  obtain s where s: "run_backtest free_config (new_risk_engine default_risk_config 10000 0) (baseline_orders sample_windows None demo_market) demo_market [] = Inr s"
    "length (bs_trades s) = 1" using sample_hold by (elim exE conjE)
  obtain r where r: "compile_results free_config (\<lambda>_. 0) (\<lambda>_. (0, 0)) (bs_trades s) (bs_equity_curve s) = Inr r"
    by (rule exE [OF compiled_exists [OF free_capital]])
  have b: "run_baseline sample_windows (\<lambda>_. 0, \<lambda>_. (0, 0)) (\<lambda>_. new_risk_engine default_risk_config 10000 0) ''buy_and_hold'' demo_market free_config [] = Inr r"
    by (simp add: run_baseline_def BASELINE_STRATEGIES_def backtest_def s(1) bindr_def r)
  have "bs_trades s \<noteq> []" using s(2) by auto
  then have "length (bz_trades r) = 1" using compiled_fields(1) [OF r] s(2) by simp
  moreover have "\<forall>t\<in>set (bz_trades r). bt_entry_time t = b_timestamp (demo_market ! 2)" using buy_and_hold_once [OF b] by blast
  ultimately show ?thesis using b by (intro exI conjI)
qed

section \<open>Costs, regimes and folds\<close>

text \<open>The first rung of the ladder is the back-test itself.\<close>

lemma scaled_one:
  assumes "\<And>x. x \<in> {xs_maker_fee (bk_exchange_spec c), xs_taker_fee (bk_exchange_spec c), xs_slippage_bps (bk_exchange_spec c),
      xs_spread_bps (bk_exchange_spec c), bk_funding_rate_avg c} \<Longrightarrow> fl x = x"
  shows "scaled_config 1 c = c"
  using assms by (simp add: scaled_config_def scaled_spec_def fmul_def)

lemma cost_ladder_base:
  assumes "run_cost_sensitivity S engine df sf c funding = Inr rs"
    "\<forall>x\<in>{xs_maker_fee (bk_exchange_spec c), xs_taker_fee (bk_exchange_spec c), xs_slippage_bps (bk_exchange_spec c),
      xs_spread_bps (bk_exchange_spec c), bk_funding_rate_avg c}. fl x = x"
  shows "\<exists>r. backtest c (fst S) (snd S) (engine c) sf df funding = Inr r \<and> hd rs = (''base'', 1, r) \<and> map fst rs = map fst COST_MULTIPLIERS"
proof -
  have "scaled_config 1 c = c" by (rule scaled_one) (use assms(2) in blast)
  then show ?thesis using assms(1)
    by (auto simp: run_cost_sensitivity_def COST_MULTIPLIERS_def bindr_def split: sum.splits)
qed

text \<open>
  Each trade is counted in exactly one regime; with strictly increasing times the regime of a trade that enters at the open of row
  i is the one computed from row i, whose close, high and low come after the entry.
\<close>

lemma regime_at_row:
  assumes "sorted_wrt (<) ts" "i < length ts" "length ts = length (fm_rows fm)"
  shows "regime_at pd fm ts (ts ! i) = regime_text (detect_regime_series pd fm ! i)"
proof -
  have "filter (\<lambda>t. t \<le> ts ! i) ts = take (Suc i) ts"
  proof -
    have less: "ts ! j < ts ! k" if "j < k" "k < length ts" for j k using sorted_wrt_nth_less [OF assms(1) that] .
    have "x \<le> ts ! i" if x: "x \<in> set (take (Suc i) ts)" for x
    proof -
      obtain j where "j < Suc i" "x = ts ! j" using x assms(2) unfolding in_set_conv_nth by auto
      then show ?thesis using less [of j i] assms(2) by (cases "j = i") auto
    qed
    then have "filter (\<lambda>t. t \<le> ts ! i) (take (Suc i) ts) = take (Suc i) ts" by (simp add: filter_id_conv)
    moreover have "ts ! i < x" if x: "x \<in> set (drop (Suc i) ts)" for x
    proof -
      obtain j where "x = ts ! (Suc i + j)" "Suc i + j < length ts" using x by (auto simp: in_set_conv_nth)
      then show ?thesis using less [of i "Suc i + j"] by simp
    qed
    then have "filter (\<lambda>t. t \<le> ts ! i) (drop (Suc i) ts) = []" by (force simp: filter_empty_conv)
    ultimately show ?thesis by (metis append_Nil2 append_take_drop_id filter_append)
  qed
  then have "length (filter (\<lambda>t. t \<le> ts ! i) ts) = Suc i" using assms(2) by simp
  then show ?thesis using assms(2,3) by (simp add: regime_at_def)
qed

lemma bucketed_snoc:
  "bucketed pd fm ts (xs @ [t]) = (let r = regime_at pd fm ts (bt_entry_time t); bs = bucketed pd fm ts xs
     in AList.update r ((case map_of bs r of None \<Rightarrow> [] | Some us \<Rightarrow> us) @ [t]) bs)"
  by (simp add: bucketed_def Let_def)

lemma bucketed_exact:
  "distinct (map fst (bucketed pd fm ts trades)) \<and>
   map_of (bucketed pd fm ts trades) r =
     (let mine = filter (\<lambda>t. regime_at pd fm ts (bt_entry_time t) = r) trades in if mine = [] then None else Some mine)"
proof (induction trades arbitrary: r rule: rev_induct)
  case Nil
  then show ?case by (simp add: bucketed_def)
next
  case (snoc t xs)
  then show ?case
    by (auto simp: bucketed_snoc Let_def update_conv' distinct_update split: option.splits if_splits)
qed

lemma sum_buckets:
  assumes "distinct (map fst bs)" "\<And>k. map_of bs k = (let mine = filter (\<lambda>t. f t = k) xs in if mine = [] then None else Some mine)"
  shows "sum_list (map (length \<circ> snd) bs) = length xs"
proof -
  have "sum_list (map (length \<circ> snd) bs) = (\<Sum>k\<in>set (map fst bs). length (filter (\<lambda>t. f t = k) xs))"
  proof -
    have "length (snd b) = length (filter (\<lambda>t. f t = fst b) xs)" if "b \<in> set bs" for b
      using map_of_is_SomeI [OF assms(1), of "fst b" "snd b"] that assms(2) [of "fst b"] by (auto simp: Let_def split: if_splits)
    then have "sum_list (map (length \<circ> snd) bs) = sum_list (map (\<lambda>k. length (filter (\<lambda>t. f t = k) xs)) (map fst bs))"
      by (simp add: comp_def cong: map_cong)
    also have "\<dots> = (\<Sum>k\<in>set (map fst bs). length (filter (\<lambda>t. f t = k) xs))" by (rule sum_list_distinct_conv_sum_set [OF assms(1)])
    finally show ?thesis .
  qed
  also have "set (map fst bs) = f ` set xs"
  proof -
    have "k \<in> set (map fst bs) \<longleftrightarrow> k \<in> f ` set xs" for k
    proof -
      have "k \<in> set (map fst bs) \<longleftrightarrow> map_of bs k \<noteq> None" by (simp add: map_of_eq_None_iff)
      also have "\<dots> \<longleftrightarrow> filter (\<lambda>t. f t = k) xs \<noteq> []" by (simp add: assms(2) Let_def)
      also have "\<dots> \<longleftrightarrow> k \<in> f ` set xs" by (auto simp: filter_empty_conv)
      finally show ?thesis .
    qed
    then show ?thesis by blast
  qed
  also have "(\<Sum>k\<in>f ` set xs. length (filter (\<lambda>t. f t = k) xs)) = length xs"
  proof (induction xs)
    case (Cons x xs)
    have "(\<Sum>k\<in>f ` set (x # xs). length (filter (\<lambda>t. f t = k) (x # xs))) =
        (\<Sum>k\<in>f ` set (x # xs). (if k = f x then 1 else 0)) + (\<Sum>k\<in>f ` set (x # xs). length (filter (\<lambda>t. f t = k) xs))"
      by (subst sum.distrib [symmetric]) (rule sum.cong, auto)
    also have "(\<Sum>k\<in>f ` set (x # xs). length (filter (\<lambda>t. f t = k) xs)) = (\<Sum>k\<in>f ` set xs. length (filter (\<lambda>t. f t = k) xs))"
      by (rule sum.mono_neutral_right) (auto simp: filter_empty_conv)
    finally show ?case using Cons by simp
  qed simp
  finally show ?thesis .
qed

text \<open>
  The regime report loses no trade and uses the row of the entry: every trade is counted in exactly one regime, namely the one
  computed from the row whose time is the trade's entry.  That row's close, high and low come after the entry at its open, so
  the report is not limited to what was known at the entry.
\<close>

theorem regime_buckets_exact:
  assumes "sorted_wrt (<) ts" "length ts = length (fm_rows fm)" "\<forall>t\<in>set trades. bt_entry_time t \<in> set ts"
  shows "(let bs = bucket_trades_by_regime pd fm ts trades
    in distinct (map fst bs) \<and> sum_list (map (rb_trades \<circ> snd) bs) = length trades \<and>
       (\<forall>(r, b)\<in>set bs. b = bucket_stats (filter (\<lambda>t. \<exists>i < length ts. ts ! i = bt_entry_time t \<and>
          regime_text (detect_regime_series pd fm ! i) = r) trades)))"
proof -
  let ?bs = "bucketed pd fm ts trades" and ?f = "\<lambda>t. regime_at pd fm ts (bt_entry_time t)"
  have d: "distinct (map fst ?bs)" and m: "\<And>r. map_of ?bs r = (let mine = filter (\<lambda>t. ?f t = r) trades in if mine = [] then None else Some mine)"
    using bucketed_exact by blast+
  have row: "?f t = r \<longleftrightarrow> (\<exists>i < length ts. ts ! i = bt_entry_time t \<and> regime_text (detect_regime_series pd fm ! i) = r)"
    if t: "t \<in> set trades" for t r
  proof -
    obtain i where i: "i < length ts" "ts ! i = bt_entry_time t" using assms(3) t by (metis in_set_conv_nth)
    have same: "j = i" if "j < length ts" "ts ! j = bt_entry_time t" for j
      using that i assms(1) nth_eq_iff_index_eq [of ts j i] by (simp add: strict_sorted_iff)
    have f: "?f t = regime_text (detect_regime_series pd fm ! i)"
      using regime_at_row [OF assms(1) i(1) assms(2), of pd] unfolding i(2) .
    show ?thesis unfolding f
    proof
      assume "regime_text (detect_regime_series pd fm ! i) = r"
      then show "\<exists>i < length ts. ts ! i = bt_entry_time t \<and> regime_text (detect_regime_series pd fm ! i) = r"
        using i by (intro exI [of _ i] conjI)
    next
      assume "\<exists>i < length ts. ts ! i = bt_entry_time t \<and> regime_text (detect_regime_series pd fm ! i) = r"
      then obtain k where k: "k < length ts" "ts ! k = bt_entry_time t" "regime_text (detect_regime_series pd fm ! k) = r" by (elim exE conjE)
      show "regime_text (detect_regime_series pd fm ! i) = r" using k(3) unfolding same [OF k(1,2)] .
    qed
  qed
  have "us = filter (\<lambda>t. \<exists>i < length ts. ts ! i = bt_entry_time t \<and> regime_text (detect_regime_series pd fm ! i) = r) trades"
    if "(r, us) \<in> set ?bs" for r us
  proof -
    have "us = filter (\<lambda>t. ?f t = r) trades" using map_of_is_SomeI [OF d that] m [of r] by (auto simp: Let_def split: if_splits)
    also have "\<dots> = filter (\<lambda>t. \<exists>i < length ts. ts ! i = bt_entry_time t \<and> regime_text (detect_regime_series pd fm ! i) = r) trades"
      by (rule filter_cong [OF refl]) (rule row)
    finally show ?thesis .
  qed
  moreover have "sum_list (map (rb_trades \<circ> snd) (bucket_trades_by_regime pd fm ts trades)) = length trades"
    using sum_buckets [OF d m] by (simp add: bucket_trades_by_regime_def bucket_stats_def comp_def case_prod_unfold Let_def)
  moreover have "distinct (map fst (bucket_trades_by_regime pd fm ts trades))"
    using d by (simp add: bucket_trades_by_regime_def comp_def case_prod_unfold)
  moreover have "\<exists>us. (r, us) \<in> set ?bs \<and> b = bucket_stats us" if "(r, b) \<in> set (bucket_trades_by_regime pd fm ts trades)" for r b
    using that by (auto simp: bucket_trades_by_regime_def)
  ultimately show ?thesis unfolding Let_def by blast
qed

definition sample_trade :: backtest_trade where
  "sample_trade = \<lparr>bt_trade_id = 1, bt_side = ''LONG'', bt_entry_price = 100, bt_entry_time = 49, bt_exit_price = Some 110,
     bt_exit_time = Some 50, bt_stop_loss = None, bt_take_profit = None, bt_quantity = 1, bt_leverage = 1, bt_pnl = 10, bt_pnl_pct = 10,
     bt_fees = 0, bt_funding = 0, bt_r_multiple = 0, bt_exit_reason = ''end_of_data'', bt_market_regime = ''UNCERTAIN''\<rparr>"

theorem regime_buckets_exact_witness:
  "sum_list (map (rb_trades \<circ> snd) (bucket_trades_by_regime demo_pandas demo_frame (map int [0..<50]) [sample_trade])) = 1"
proof -
  have "sorted_wrt (<) (map int [0..<50])" by (simp add: sorted_wrt_map)
  moreover have "length (map int [0..<50]) = length (fm_rows demo_frame)" by (simp add: demo_frame_def)
  moreover have "bt_entry_time sample_trade = int 49" "(49::nat) \<in> set [0..<50]" by (simp_all add: sample_trade_def)
  then have "\<forall>t\<in>set [sample_trade]. bt_entry_time t \<in> set (map int [0..<50])" by (simp only: list.set ball_simps set_map image_eqI)
  ultimately have "let bs = bucket_trades_by_regime demo_pandas demo_frame (map int [0..<50]) [sample_trade]
    in sum_list (map (rb_trades \<circ> snd) bs) = length [sample_trade]"
    using regime_buckets_exact [of "map int [0..<50]" demo_frame "[sample_trade]" demo_pandas] unfolding Let_def by blast
  then show ?thesis by (simp add: Let_def)
qed

end
