(* ===== verification/FeatureGroups.thy ===== *)
theory FeatureGroups
  imports Features Baselines
begin

text \<open>
  \<open>ml/features/feature_groups.py\<close> and \<open>ml/features/strategy_features.py\<close>: the features of the research
  models, that is the columns of the feature engine, two derived ones, the regime of each row, the hourly context and what each
  eligible strategy said, and the named groups of columns that the ablation study compares.
\<close>

section \<open>Groups\<close>

definition CONTEXT_1H_COLUMNS :: "string list" where
  "CONTEXT_1H_COLUMNS = [''rsi_14'', ''adx_14'', ''ema20_above_ema50'', ''uptrend'', ''downtrend'', ''realized_vol_20'']"

definition CONTEXT_PREFIX :: string where "CONTEXT_PREFIX = ''ctx_1h_''"

definition REGIME_NAMES :: "string list" where
  "REGIME_NAMES = map regime_text [TRENDING_BULLISH, TRENDING_BEARISH, RANGING, HIGH_VOLATILITY, LOW_VOLATILITY, BREAKOUT, POST_LIQUIDATION, UNCERTAIN]"

definition STRATEGY_FEATURE_IDS :: "string list" where
  "STRATEGY_FEATURE_IDS = [''S05_DONCHIAN_ADX_4H'', ''S06_SUPERTREND_ATR_4H'', ''V3_KAMA_TREND_4H'', ''V3_RANGE_EXPANSION_4H'']"

definition GROUP_DEFINITIONS :: "(string \<times> string list) list" where
  "GROUP_DEFINITIONS =
     [(''trend'', [''ema_9'', ''ema_20'', ''ema_50'', ''ema_100'', ''ema_200'', ''sma_20'', ''sma_50'', ''ema9_above_ema20'', ''ema20_above_ema50'',
        ''ema50_above_ema200'', ''price_vs_ema9'', ''price_vs_ema20'', ''price_vs_ema50'', ''price_vs_ema200'', ''price_vs_vwap'', ''returns'',
        ''log_returns'', ''trend_slope_20'']),
      (''momentum'', [''rsi_14'', ''rsi_7'', ''rsi_overbought'', ''rsi_oversold'', ''macd'', ''macd_signal'', ''macd_histogram'', ''macd_bullish'',
        ''roc_10'', ''momentum_10'', ''adx_14'', ''plus_di_14'', ''minus_di_14'']),
      (''volatility'', [''atr_14'', ''atr_7'', ''atr_pct_14'', ''realized_vol_10'', ''realized_vol_20'', ''realized_vol_50'', ''vol_ratio_short_long'',
        ''bb_width'', ''bb_pct'', ''high_low_range'', ''range_sma_20'', ''range_expanding'', ''range_contracting'', ''garman_klass_vol'']),
      (''volume'', [''volume_sma_20'', ''volume_sma_50'', ''relative_volume'', ''volume_change'', ''volume_spike'', ''volume_dry'', ''obv'',
        ''volume_price_divergence'', ''buy_sell_volume_ratio'']),
      (''structure'', [''higher_high'', ''higher_low'', ''lower_high'', ''lower_low'', ''uptrend'', ''downtrend'', ''break_of_structure'',
        ''near_resistance'', ''near_support'', ''consolidation'', ''donchian_position_20'']),
      (''regime'', map (\<lambda>n. ''regime_'' @ n) REGIME_NAMES),
      (''derivatives'', [''funding_rate'', ''funding_rate_sma_8'', ''funding_extreme_high'', ''funding_extreme_low'', ''funding_trend'',
        ''open_interest'', ''oi_change'', ''oi_change_sma'', ''oi_acceleration'', ''price_oi_corr'']),
      (''context_1h'', map (\<lambda>c. CONTEXT_PREFIX @ c) CONTEXT_1H_COLUMNS),
      (''strategy_signals'', map (\<lambda>s. ''strat_'' @ s) STRATEGY_FEATURE_IDS @ [''strat_net_direction'', ''strat_agree_long'', ''strat_agree_short''])]"

definition ABLATION_CONFIGS :: "(string \<times> string list) list" where
  "ABLATION_CONFIGS =
     [(''A_technical_only'', [''trend'', ''momentum'', ''volatility'', ''volume'']),
      (''B_technical_structure'', [''trend'', ''momentum'', ''volatility'', ''volume'', ''structure'']),
      (''C_technical_structure_regime'', [''trend'', ''momentum'', ''volatility'', ''volume'', ''structure'', ''regime'']),
      (''D_technical_structure_regime_derivatives'', [''trend'', ''momentum'', ''volatility'', ''volume'', ''structure'', ''regime'', ''derivatives'']),
      (''E_technical_structure_regime_strategies'', [''trend'', ''momentum'', ''volatility'', ''volume'', ''structure'', ''regime'', ''strategy_signals''])]"

definition get_feature_groups :: "string list \<Rightarrow> (string \<times> string list) list" where
  "get_feature_groups columns = map (\<lambda>(g, cs). (g, filter (\<lambda>c. c \<in> set columns) cs)) GROUP_DEFINITIONS"

text \<open>The columns of the groups in order, each once.\<close>

definition add_unseen :: "string list \<Rightarrow> string \<Rightarrow> string list" where
  "add_unseen cols c = (if c \<in> set cols then cols else cols @ [c])"

definition select_features :: "string list \<Rightarrow> string \<Rightarrow> string list result" where
  "select_features columns ablation_name =
     (case map_of ABLATION_CONFIGS ablation_name of
        None \<Rightarrow> Inl ValueError
      | Some names \<Rightarrow>
          Inr (foldl (\<lambda>cols g. foldl add_unseen cols (case map_of (get_feature_groups columns) g of None \<Rightarrow> [] | Some cs \<Rightarrow> cs)) []
            (names @ [''context_1h''])))"

section \<open>Columns\<close>

definition has_col :: "string \<Rightarrow> table \<Rightarrow> bool" where "has_col c t \<longleftrightarrow> c \<in> fst ` set t"

definition add_derived_columns :: "bar list \<Rightarrow> table \<Rightarrow> table" where
  "add_derived_columns df t =
     t @ (if has_col ''atr_14'' t then [(''atr_pct_14'', quotient (column ''atr_14'' t) (closes df))] else []) @
         (if has_col ''ema_50'' t
          then [(''trend_slope_20'', quotient (both fsub (column ''ema_50'' t) (shift 20 (column ''ema_50'' t))) (closes df))] else [])"

text \<open>The rows of a table, for the detector of the regimes.\<close>

definition frame_of :: "nat \<Rightarrow> table \<Rightarrow> frame" where
  "frame_of n t = \<lparr>fm_columns = map fst t, fm_rows = map (\<lambda>i c. case map_of t c of None \<Rightarrow> None | Some s \<Rightarrow> s ! i) [0..<n]\<rparr>"

definition one_hot_regime :: "pandas \<Rightarrow> nat \<Rightarrow> table \<Rightarrow> table" where
  "one_hot_regime pd n t =
     t @ map (\<lambda>name. (''regime_'' @ name, map (\<lambda>r. Some (if regime_text r = name then 1 else 0)) (detect_regime_series pd (frame_of n t)))) REGIME_NAMES"

text \<open>Each bar gets the last hourly row at or before its time; columns that the context lacks are missing.\<close>

definition missing_column :: "bar list \<Rightarrow> series" where "missing_column = map (\<lambda>_. None)"

definition merge_context_timeframe :: "bar list \<Rightarrow> datetime list \<Rightarrow> table \<Rightarrow> table" where
  "merge_context_timeframe df clock context =
     map (\<lambda>c. (CONTEXT_PREFIX @ c, asof_merge_value (zip clock (column c context)) df)) (filter (\<lambda>c. has_col c context) CONTEXT_1H_COLUMNS) @
     map (\<lambda>c. (CONTEXT_PREFIX @ c, missing_column df)) (filter (\<lambda>c. \<not> has_col c context) CONTEXT_1H_COLUMNS)"

section \<open>What the strategies said\<close>

definition get_precompute_and_signal ::
  "string \<Rightarrow> ((pandas_series \<Rightarrow> bar list \<Rightarrow> prepared_row list) \<times> (prepared_row list \<Rightarrow> raw_setup option)) result" where
  "get_precompute_and_signal sid =
     (if sid = ''S05_DONCHIAN_ADX_4H'' then Inr (precompute_indicators, trend_following_signal 20 25)
      else case map_of MULTI_STRATEGIES sid of
             None \<Rightarrow> Inl KeyError
           | Some m \<Rightarrow> (case mx_precompute m of None \<Rightarrow> Inl TypeError | Some pre \<Rightarrow> Inr (pre, mx_signal m)))"

definition signal_to_int :: "raw_setup option \<Rightarrow> f64" where
  "signal_to_int raw =
     (case raw of None \<Rightarrow> 0 | Some r \<Rightarrow> if rw_signal_type r = ''LONG'' then 1 else if rw_signal_type r = ''SHORT'' then - 1 else 0)"

definition compute_strategy_signal_series :: "pandas_series \<Rightarrow> string \<Rightarrow> nat \<Rightarrow> bar list \<Rightarrow> series result" where
  "compute_strategy_signal_series P sid min_bars df =
     bindr (get_precompute_and_signal sid) (\<lambda>(pre, sig).
       let prepared = pre P df
       in Inr (map (\<lambda>i. Some (if i < min_bars then 0 else signal_to_int (sig (take (i + 1) prepared)))) [0..<length prepared]))"

definition row_of :: "series list \<Rightarrow> nat \<Rightarrow> f64 list" where "row_of cols i = List.map_filter (\<lambda>s. s ! i) cols"

definition assemble_strategy_features :: "pandas_series \<Rightarrow> bar list \<Rightarrow> table result" where
  "assemble_strategy_features P df =
     bindr (collect (\<lambda>sid. compute_strategy_signal_series P sid 60 df) STRATEGY_FEATURE_IDS) (\<lambda>cols.
       let rows = map (row_of cols) [0..<length df]; agree = (\<lambda>v row. Some (of_nat (length (filter (\<lambda>x. x = v) row))))
       in Inr (zip (map (\<lambda>sid. ''strat_'' @ sid) STRATEGY_FEATURE_IDS) cols @
               [(''strat_net_direction'', map (\<lambda>row. Some (fsum row)) rows),
                (''strat_agree_long'', map (agree 1) rows), (''strat_agree_short'', map (agree (- 1)) rows)]))"

section \<open>The assembled table\<close>

text \<open>
  The hourly context is computed without derivatives, from its own candles.  The feature names that the function also returns are
  the names of the table's columns.
\<close>

definition assemble_features ::
  "pandas_series \<Rightarrow> feature_math \<Rightarrow> pandas \<Rightarrow> bar list \<Rightarrow> bar list \<Rightarrow> reading list \<Rightarrow> reading list \<Rightarrow> bool \<Rightarrow> table result" where
  "assemble_features P M pd df_primary df_context funding_rates open_interest include_strategy_signals =
     (let df = sort_key b_timestamp df_primary; context = sort_key b_timestamp df_context;
          t = one_hot_regime pd (length df) (add_derived_columns df (compute_features P M funding_rates open_interest [] df_primary));
          t1 = t @ merge_context_timeframe df (map b_timestamp context) (compute_features P M [] [] [] df_context)
      in if include_strategy_signals then bindr (assemble_strategy_features P df) (\<lambda>s. Inr (t1 @ s)) else Inr t1)"

section \<open>Nothing later than the bar\<close>

definition rolling_causal :: "pandas \<Rightarrow> bool" where
  "rolling_causal pd \<longleftrightarrow> (\<forall>k. causal (pd_rolling_mean pd k) \<and> causal (pd_rolling_sum pd k) \<and> (\<forall>q. causal (pd_rolling_quantile pd k q)))"

lemma cells_take: "cells c (take n rs) = take n (cells c rs)"
  by (simp add: cells_def take_map)

lemma regime_series_causal:
  assumes "rolling_causal pd"
  shows "detect_regime_series pd (fm\<lparr>fm_rows := take n (fm_rows fm)\<rparr>) = take n (detect_regime_series pd fm)"
proof -
  let ?cut = "fm\<lparr>fm_rows := take n (fm_rows fm)\<rparr>"
  have rolled: "pd_rolling_mean pd k (take n xs) ! i = pd_rolling_mean pd k xs ! i" "pd_rolling_sum pd k (take n xs) ! i = pd_rolling_sum pd k xs ! i"
    "pd_rolling_quantile pd k q (take n xs) ! i = pd_rolling_quantile pd k q xs ! i" if "i < n" for k q xs i
    using assms that by (simp_all add: rolling_causal_def causal_take)
  have cols: "has_column ?cut = has_column fm" by (rule ext) (simp add: has_column_def)
  then have ratio: "has_ratio ?cut \<longleftrightarrow> has_ratio fm" by (simp add: has_ratio_def)
  have strong: "strong_adx ?cut = strong_adx fm" "structure_trend ?cut = structure_trend fm"
    by (rule ext, simp add: strong_adx_def structure_trend_def cols)+
  have same: "series_volatility pd ?cut i = series_volatility pd fm i \<and> series_trend ?cut i = series_trend fm i \<and>
    series_post_liquidation pd ?cut i = series_post_liquidation pd fm i \<and> series_ranging ?cut i = series_ranging fm i \<and>
    series_breakout pd ?cut i = series_breakout pd fm i" if i: "i < n" for i
  proof -
    have row: "fm_rows ?cut ! i = fm_rows fm ! i" "cells c (fm_rows ?cut) = take n (cells c (fm_rows fm))" for c
      using i by (simp_all add: cells_take)
    show ?thesis
      unfolding series_volatility_def atr_fallback_def series_trend_def series_post_liquidation_def series_ranging_def series_breakout_def
        row rolled [OF i] cols ratio strong by (intro conjI refl)
  qed
  have "[0..<length (fm_rows ?cut)] = take n [0..<length (fm_rows fm)]" by (simp add: take_upt min_def)
  then show ?thesis unfolding detect_regime_series_def
  proof (simp only: take_map, intro map_cong [OF refl])
    fix i assume "i \<in> set (take n [0..<length (fm_rows fm)])"
    then have "i < n" by (auto simp: in_set_conv_nth)
    note same = same [OF this]
    show "(if i < 49 then UNCERTAIN
        else case series_volatility pd ?cut i of
          VOL_HIGH \<Rightarrow> if series_post_liquidation pd ?cut i then POST_LIQUIDATION else HIGH_VOLATILITY
        | VOL_LOW \<Rightarrow> if series_breakout pd ?cut i then BREAKOUT else LOW_VOLATILITY
        | VOL_NORMAL \<Rightarrow>
            (case series_trend ?cut i of
               TREND_BULLISH \<Rightarrow> TRENDING_BULLISH
             | TREND_BEARISH \<Rightarrow> TRENDING_BEARISH
             | TREND_NONE \<Rightarrow> if series_ranging ?cut i then RANGING else UNCERTAIN)) =
      (if i < 49 then UNCERTAIN
        else case series_volatility pd fm i of
          VOL_HIGH \<Rightarrow> if series_post_liquidation pd fm i then POST_LIQUIDATION else HIGH_VOLATILITY
        | VOL_LOW \<Rightarrow> if series_breakout pd fm i then BREAKOUT else LOW_VOLATILITY
        | VOL_NORMAL \<Rightarrow>
            (case series_trend fm i of
               TREND_BULLISH \<Rightarrow> TRENDING_BULLISH
             | TREND_BEARISH \<Rightarrow> TRENDING_BEARISH
             | TREND_NONE \<Rightarrow> if series_ranging fm i then RANGING else UNCERTAIN))"
      using same by (elim conjE) (simp only:)
  qed
qed

lemma truncate_map_of: "map_of (truncate_table n t) c = map_option (take n) (map_of t c)"
  by (simp add: truncate_table_def map_of_map [where f = "take n"])

lemma truncate_column: "column c (truncate_table n t) = take n (column c t)"
  by (simp add: column_def truncate_map_of split: option.splits)

lemma truncate_has_col: "has_col c (truncate_table n t) \<longleftrightarrow> has_col c t"
  by (force simp: has_col_def truncate_table_def)

lemma truncate_append: "truncate_table n (s @ t) = truncate_table n s @ truncate_table n t"
  by (simp add: truncate_table_def)

lemma frame_truncated:
  "frame_of (min n m) (truncate_table n t) = (frame_of m t)\<lparr>fm_rows := take n (fm_rows (frame_of m t))\<rparr>"
proof -
  have "map fst (truncate_table n t) = map fst t" by (simp add: truncate_table_def comp_def case_prod_unfold)
  moreover have "[0..<min n m] = take n [0..<m]" by (simp add: take_upt min_def)
  ultimately show ?thesis
    by (auto simp: frame_of_def take_map truncate_map_of in_set_conv_nth split: option.splits intro!: map_cong ext)
qed

lemma one_hot_truncated:
  assumes "rolling_causal pd"
  shows "one_hot_regime pd (min n m) (truncate_table n t) = truncate_table n (one_hot_regime pd m t)"
  unfolding one_hot_regime_def frame_truncated regime_series_causal [OF assms] truncate_append
  by (simp add: truncate_table_def take_map)

lemma derived_truncated: "add_derived_columns (take n df) (truncate_table n t) = truncate_table n (add_derived_columns df t)"
proof -
  have pairs: "quotient (take n xs) (take n ys) = take n (quotient xs ys)" "both fsub (take n xs) (take n ys) = take n (both fsub xs ys)" for xs ys
    by (simp_all add: quotient_def both_def nonzero_def take_map take_zip)
  have others: "shift 20 (take n xs) = take n (shift 20 xs)" "closes (take n df) = take n (closes df)" for xs :: series
    using causal_take [OF causal_shift [OF causal_id]] by (simp_all add: closes_def take_map)
  show ?thesis
    by (simp add: add_derived_columns_def truncate_append truncate_has_col truncate_column pairs others) (simp add: truncate_table_def)
qed

lemma zip_take_left: "zip (map f (take j xs)) (take j ys) = zip (map f (take j xs)) ys"
proof (induction j arbitrary: xs ys)
  case (Suc j)
  then show ?case by (cases xs; cases ys) auto
qed simp

lemma known_zip:
  "sorted ts \<Longrightarrow> known_by now (zip ts xs) = zip (filter (\<lambda>t. t \<le> now) ts) xs"
proof (induction ts arbitrary: xs)
  case (Cons t ts)
  show ?case
  proof (cases "t \<le> now")
    case True
    then show ?thesis using Cons by (cases xs) (auto simp: known_by_def)
  next
    case False
    then have "filter (\<lambda>u. u \<le> now) ts = []" using Cons.prems by (auto simp: filter_empty_conv)
    then show ?thesis using False Cons by (cases xs) (auto simp: known_by_def)
  qed
qed (simp add: known_by_def)

lemma context_prefix:
  fixes ctx :: "bar list"
  assumes "sorted (map b_timestamp ctx)"
  obtains j where "filter (\<lambda>b. b_timestamp b \<le> now) ctx = take j ctx" "j \<le> length ctx"
proof -
  have "filter (\<lambda>b. b_timestamp b \<le> now) ctx = takeWhile (\<lambda>b. b_timestamp b \<le> now) ctx"
    using assms
  proof (induction ctx)
    case (Cons a ctx)
    show ?case
    proof (cases "b_timestamp a \<le> now")
      case True
      then show ?thesis using Cons by simp
    next
      case False
      then have "filter (\<lambda>b. b_timestamp b \<le> now) ctx = []" using Cons.prems by (auto simp: filter_empty_conv)
      then show ?thesis using False by simp
    qed
  qed simp
  then show thesis using that [of "length (takeWhile (\<lambda>b. b_timestamp b \<le> now) ctx)"] by (metis takeWhile_eq_take length_takeWhile_le)
qed

lemma strategy_precompute:
  assumes "get_precompute_and_signal sid = Inr (pre, sig)" "trailing P"
  shows "causal (pre P)"
proof (cases "sid = ''S05_DONCHIAN_ADX_4H''")
  case True
  then show ?thesis using assms causal_baseline by (simp add: get_precompute_and_signal_def)
next
  case False
  then obtain m where "map_of MULTI_STRATEGIES sid = Some m" "mx_precompute m = Some pre"
    using assms(1) by (auto simp: get_precompute_and_signal_def split: option.splits)
  then show ?thesis using registry_precompute [OF map_of_SomeD _ assms(2)] by blast
qed

lemma strategy_series_truncated:
  assumes "compute_strategy_signal_series P sid m df = Inr s" "trailing P"
  shows "compute_strategy_signal_series P sid m (take n df) = Inr (take n s)" "length s = length df"
proof -
  obtain pre sig where g: "get_precompute_and_signal sid = Inr (pre, sig)"
    "s = map (\<lambda>i. Some (if i < m then 0 else signal_to_int (sig (take (i + 1) (pre P df))))) [0..<length (pre P df)]"
    using assms(1) by (auto simp: compute_strategy_signal_series_def bindr_Inr_iff Let_def)
  note c = strategy_precompute [OF g(1) assms(2)]
  have "[0..<length (take n (pre P df))] = take n [0..<length (pre P df)]" by (simp add: take_upt min_def)
  moreover have "take (i + 1) (take n (pre P df)) = take (i + 1) (pre P df)" if "i < n" for i using that by (simp add: min_def)
  ultimately show "compute_strategy_signal_series P sid m (take n df) = Inr (take n s)"
    by (auto simp: compute_strategy_signal_series_def g bindr_def causal_take [OF c] take_map in_set_conv_nth intro!: map_cong)
  show "length s = length df" by (simp add: g(2) causal_length [OF c])
qed

lemma collect_truncated:
  assumes "collect (\<lambda>sid. compute_strategy_signal_series P sid m df) sids = Inr cols" "trailing P"
  shows "collect (\<lambda>sid. compute_strategy_signal_series P sid m (take n df)) sids = Inr (map (take n) cols) \<and> length cols = length sids"
  using assms(1)
proof (induction sids arbitrary: cols)
  case (Cons sid sids)
  then obtain s cs where c: "compute_strategy_signal_series P sid m df = Inr s"
    "collect (\<lambda>sid. compute_strategy_signal_series P sid m df) sids = Inr cs" "cols = s # cs"
    by (auto simp: bindr_Inr_iff)
  then show ?case using Cons.IH [OF c(2)] by (simp add: strategy_series_truncated(1) [OF c(1) assms(2)] bindr_def)
qed simp

lemma strategies_truncated:
  assumes "assemble_strategy_features P df = Inr t" "trailing P"
  shows "assemble_strategy_features P (take n df) = Inr (truncate_table n t)"
proof -
  obtain cols where cols: "collect (\<lambda>sid. compute_strategy_signal_series P sid 60 df) STRATEGY_FEATURE_IDS = Inr cols"
    using assms(1) unfolding assemble_strategy_features_def bindr_Inr_iff by blast
  note cut = collect_truncated [OF cols assms(2), of n]
  have rows: "map (row_of (map (take n) cols)) [0..<length (take n df)] = take n (map (row_of cols) [0..<length df])"
  proof -
    have "row_of (map (take n) cols) i = row_of cols i" if "i < n" for i
      using that by (simp add: row_of_def List.map_filter_def filter_map comp_def)
    then show ?thesis by (auto simp: take_map take_upt min_def intro!: map_cong)
  qed
  have t: "t = zip (map (\<lambda>sid. ''strat_'' @ sid) STRATEGY_FEATURE_IDS) cols @
      [(''strat_net_direction'', map (\<lambda>row. Some (fsum row)) (map (row_of cols) [0..<length df])),
       (''strat_agree_long'', map (\<lambda>row. Some (of_nat (length (filter (\<lambda>x. x = 1) row)))) (map (row_of cols) [0..<length df])),
       (''strat_agree_short'', map (\<lambda>row. Some (of_nat (length (filter (\<lambda>x. x = - 1) row)))) (map (row_of cols) [0..<length df]))]"
    using assms(1) unfolding assemble_strategy_features_def cols bindr_def Let_def sum.case by (simp only: sum.inject)
  show ?thesis
    unfolding assemble_strategy_features_def cut [THEN conjunct1] bindr_def Let_def sum.case rows t truncate_table_def
    by (simp only: map_append list.map prod.case take_map zip_map2)
qed

lemma collect_total: "\<forall>x\<in>set xs. \<exists>y. f x = Inr y \<Longrightarrow> \<exists>ys. collect f xs = Inr ys"
  by (induction xs) (auto simp: bindr_def)

lemma strategies_found: "\<exists>t. assemble_strategy_features P df = Inr t"
proof -
  have "\<exists>x. get_precompute_and_signal sid = Inr x" if "sid \<in> set STRATEGY_FEATURE_IDS" for sid
    using that unfolding STRATEGY_FEATURE_IDS_def
    by (simp, elim disjE) (simp_all add: get_precompute_and_signal_def MULTI_STRATEGIES_def multi_def)
  then have "\<forall>sid\<in>set STRATEGY_FEATURE_IDS. \<exists>s. compute_strategy_signal_series P sid 60 df = Inr s"
    by (auto simp: compute_strategy_signal_series_def bindr_def Let_def split: sum.splits) (metis sum.distinct(1))
  then obtain cols where "collect (\<lambda>sid. compute_strategy_signal_series P sid 60 df) STRATEGY_FEATURE_IDS = Inr cols" 
    using collect_total [of STRATEGY_FEATURE_IDS "\<lambda>sid. compute_strategy_signal_series P sid 60 df"] by blast
  then show ?thesis unfolding assemble_strategy_features_def by (simp only: bindr_def sum.case Let_def sum.inject) blast
qed

lemma features_truncated:
  assumes "trailing P" "\<And>k. causal (fx_corr M k)" "sorted (map b_timestamp df)" "0 < k" "k \<le> length df" "now = b_timestamp (df ! (k - 1))"
    "known_by now fr = [] \<longleftrightarrow> fr = []" "known_by now oi = [] \<longleftrightarrow> oi = []"
  shows "compute_features P M (known_by now fr) (known_by now oi) [] (take k df) = truncate_table k (compute_features P M fr oi [] df)"
  using features_no_lookahead [OF assms, of "[]"] by (simp add: liquidated_by_def truncate_table_def)

lemma context_truncated:
  assumes "trailing P" "\<And>k. causal (fx_corr M k)" "sorted (map b_timestamp ctx)" "\<And>b. b \<in> set df \<Longrightarrow> b_timestamp b \<le> now"
    "ctx' = filter (\<lambda>b. b_timestamp b \<le> now) ctx" "ctx' = [] \<longleftrightarrow> ctx = []"
  shows "merge_context_timeframe df (map b_timestamp ctx') (compute_features P M [] [] [] ctx') =
    merge_context_timeframe df (map b_timestamp ctx) (compute_features P M [] [] [] ctx)"
proof (cases "ctx = []")
  case False
  obtain j where j: "ctx' = take j ctx" "j \<le> length ctx" using context_prefix [OF assms(3)] assms(5) by metis
  have "0 < j" using False assms(6) j by auto
  have t: "compute_features P M [] [] [] ctx' = truncate_table j (compute_features P M [] [] [] ctx)"
    using features_truncated [OF assms(1,2,3) \<open>0 < j\<close> j(2) refl, of "[]" "[]"] by (simp add: j(1) known_by_def)
  have "zip (map b_timestamp ctx') (take j s) = known_by now (zip (map b_timestamp ctx) s)" for s :: series
  proof -
    have "known_by now (zip (map b_timestamp ctx) s) = zip (map b_timestamp ctx') s"
      unfolding known_zip [OF assms(3)] assms(5) filter_map by (simp add: comp_def)
    also have "\<dots> = zip (map b_timestamp ctx') (take j s)" unfolding j(1) by (simp add: zip_take_left)
    finally show ?thesis by simp
  qed
  then show ?thesis by (simp add: merge_context_timeframe_def t truncate_column truncate_has_col asof_known [OF assms(4)])
qed (use assms(6) in simp)

lemma truncate_merged: "merge_context_timeframe (take n df) clock t = truncate_table n (merge_context_timeframe df clock t)"
  by (simp add: merge_context_timeframe_def truncate_append missing_column_def asof_merge_value_def take_map truncate_table_def)

text \<open>
  C16: No feature of a bar comes from later.  For candles and hourly context in the order of time, the table assembled from the first k
  candles, the hourly candles, funding rates and open interest up to the time of the last of them is the table of the whole history cut
  after k rows: indicators, swings, derived columns, regimes, context and what the strategies said.  Each optional source
  must have a reading by then, since one without any makes its columns zero or missing.
\<close>

theorem assembled_no_lookahead:
  assumes "trailing P" "\<And>k. causal (fx_corr M k)" "rolling_causal pd" "sorted (map b_timestamp df)" "sorted (map b_timestamp ctx)"
    "0 < k" "k \<le> length df" "now = b_timestamp (df ! (k - 1))" "ctx' = filter (\<lambda>b. b_timestamp b \<le> now) ctx"
    "ctx' = [] \<longleftrightarrow> ctx = []" "known_by now fr = [] \<longleftrightarrow> fr = []" "known_by now oi = [] \<longleftrightarrow> oi = []"
  shows "\<exists>t. assemble_features P M pd df ctx fr oi with_strategies = Inr t \<and>
    assemble_features P M pd (take k df) ctx' (known_by now fr) (known_by now oi) with_strategies = Inr (map (\<lambda>(c, s). (c, take k s)) t)"
proof -
  have early: "b_timestamp b \<le> now" if "b \<in> set (take k df)" for b
    using that assms(4,6-8) by (auto simp: in_set_conv_nth sorted_iff_nth_mono)
  have sorted: "sort_key b_timestamp (take k df) = take k df" "sort_key b_timestamp df = df" "sort_key b_timestamp ctx = ctx"
      "sort_key b_timestamp ctx' = ctx'"
    using assms(4,5,9) by (simp_all add: sort_key_id_if_sorted take_map [symmetric] sorted_wrt_take sorted_filter)
  have k: "length (take k df) = min k (length df)" by simp
  let ?T = "one_hot_regime pd (length df) (add_derived_columns df (compute_features P M fr oi [] df)) @
      merge_context_timeframe df (map b_timestamp ctx) (compute_features P M [] [] [] ctx)"
  have cut: "one_hot_regime pd (length (take k df)) (add_derived_columns (take k df)
        (compute_features P M (known_by now fr) (known_by now oi) [] (take k df))) @
      merge_context_timeframe (take k df) (map b_timestamp ctx') (compute_features P M [] [] [] ctx') = truncate_table k ?T"
    by (simp only: features_truncated [OF assms(1,2,4,6-8,11,12)] derived_truncated k one_hot_truncated [OF assms(3)]
        context_truncated [OF assms(1,2,5) early assms(9,10)] truncate_merged [symmetric] truncate_append)
  obtain s where s: "assemble_strategy_features P df = Inr s" using strategies_found by blast
  have s': "assemble_strategy_features P (take k df) = Inr (truncate_table k s)" by (rule strategies_truncated [OF s assms(1)])
  show ?thesis
  proof (cases with_strategies)
    case True
    then show ?thesis using cut s s' unfolding assemble_features_def Let_def sorted bindr_def truncate_table_def
      by (simp only: if_True sum.case sum.inject append_assoc [symmetric] map_append ex_simps simp_thms)
  next
    case False
    then show ?thesis using cut unfolding assemble_features_def Let_def sorted truncate_table_def
      by (simp only: if_False sum.inject simp_thms)
  qed
qed

lemma demo_rolling_causal: "rolling_causal demo_pandas"
proof -
  have "causal (\<lambda>xs. map (rolling_value agg n xs) [0..<length xs])" for agg :: "f64 list \<Rightarrow> f64" and n
    by (auto simp: causal_def take_map take_upt min_def rolling_value_def window_def intro!: map_cong)
  then show ?thesis by (simp add: rolling_causal_def demo_pandas_def Let_def)
qed

theorem assembled_no_lookahead_witness:
  "\<exists>t. assemble_features sample_windows demo_math demo_pandas [flat_bar 100, (flat_bar 300)\<lparr>b_timestamp := day_us\<rparr>]
       [flat_bar 90, (flat_bar 80)\<lparr>b_timestamp := hour_us\<rparr>] [(0, Some 1), (day_us, Some 2)] [] True = Inr t \<and>
     assemble_features sample_windows demo_math demo_pandas [flat_bar 100] [flat_bar 90] [(0, Some 1)] [] True = Inr (map (\<lambda>(c, s). (c, take 1 s)) t)"
proof -
  have corr: "causal (fx_corr demo_math k)" for k using causal_map [OF causal_id] by (simp add: demo_math_def)
  show ?thesis
    using assembled_no_lookahead [OF sample_trailing corr demo_rolling_causal, of "[flat_bar 100, (flat_bar 300)\<lparr>b_timestamp := day_us\<rparr>]"
        "[flat_bar 90, (flat_bar 80)\<lparr>b_timestamp := hour_us\<rparr>]" 1 0 "[flat_bar 90]" "[(0, Some 1), (day_us, Some 2)]" "[]" True]
    by (simp add: known_by_def flat_bar_def day_us_def hour_us_def)
qed

text \<open>
  The strategy columns are what the live strategies would have said: from the sixtieth bar on, the value at a bar is the
  direction of the set-up that the strategy finds when only the candles up to that bar are known, and no set-up is zero.
\<close>

lemma strategy_column_is_live:
  assumes "compute_strategy_signal_series P sid 60 df = Inr s" "trailing P" "60 \<le> i" "i < length df"
  shows "\<exists>pre sig. get_precompute_and_signal sid = Inr (pre, sig) \<and> s ! i = Some (signal_to_int (sig (pre P (take (i + 1) df))))"
proof -
  obtain pre sig where g: "get_precompute_and_signal sid = Inr (pre, sig)"
    "s = map (\<lambda>i. Some (if i < 60 then 0 else signal_to_int (sig (take (i + 1) (pre P df))))) [0..<length (pre P df)]"
    using assms(1) by (auto simp: compute_strategy_signal_series_def bindr_Inr_iff Let_def)
  note c = strategy_precompute [OF g(1) assms(2)]
  have "s ! i = Some (signal_to_int (sig (take (i + 1) (pre P df))))" using assms(3,4) by (simp add: g(2) causal_length [OF c])
  then have "s ! i = Some (signal_to_int (sig (pre P (take (i + 1) df))))" by (simp only: causal_take [OF c])
  then show ?thesis using g(1) by blast
qed

end
