(* ===== verification/ModelSignals.thy ===== *)
theory ModelSignals
  imports Labels Regime Backtester
begin

text \<open>
  \<open>services/signal_engine/engine.py\<close>, the signal of a trained model behind the gates of the market regime, and
  the bridge of \<open>ml/evaluation/validator.py\<close> that back-tests a model through it.
\<close>

section \<open>Signals\<close>

datatype signal_reason =
    WHY_LOW_PROBABILITY
  | WHY_REGIME string
  | WHY_BELOW_THRESHOLD
  | WHY_TREND string
  | WHY_RSI_NOT_OVERBOUGHT
  | WHY_RSI_NOT_OVERSOLD
  | WHY_MACD_BULLISH
  | WHY_MACD_BEARISH
  | WHY_PROBABILITY string f64

record model_prediction =
  mp_long_probability :: f64
  mp_short_probability :: f64
  mp_no_trade_probability :: f64

record signal_output =
  eo_signal_id :: string
  eo_signal_type :: string
  eo_confidence :: f64
  eo_long_probability :: f64
  eo_short_probability :: f64
  eo_no_trade_probability :: f64
  eo_entry_price :: "f64 option"
  eo_stop_loss :: "f64 option"
  eo_take_profit_1 :: "f64 option"
  eo_take_profit_2 :: "f64 option"
  eo_take_profit_3 :: "f64 option"
  eo_risk_reward :: "f64 option"
  eo_market_regime :: string
  eo_reasoning :: "signal_reason list"
  eo_timestamp :: datetime
  eo_symbol :: string
  eo_quality :: string
  eo_strategy_name :: string
  eo_model_version :: "string option"

definition determine_signal_type :: "f64 \<Rightarrow> f64 \<Rightarrow> f64 \<Rightarrow> f64 \<Rightarrow> string \<Rightarrow> string" where
  "determine_signal_type prediction_threshold long_prob short_prob no_trade_prob regime =
     (if no_trade_prob > 1/2 then ''NO_TRADE''
      else if long_prob < prediction_threshold \<and> short_prob < prediction_threshold then ''NO_TRADE''
      else if \<bar>fsub long_prob short_prob\<bar> < fl (15/100) then ''NO_TRADE''
      else if regime \<in> {''HIGH_VOLATILITY'', ''UNCERTAIN'', ''POST_LIQUIDATION''} then ''NO_TRADE''
      else if long_prob > short_prob \<and> long_prob \<ge> prediction_threshold
      then if regime = ''TRENDING_BEARISH'' then ''NO_TRADE'' else ''LONG''
      else if short_prob > long_prob \<and> short_prob \<ge> prediction_threshold
      then if regime = ''TRENDING_BULLISH'' then ''NO_TRADE'' else ''SHORT''
      else ''NO_TRADE'')"

text \<open>The range is the last known one of the frame, a hundred without any, a hundredth of the price if it is not positive.\<close>

definition engine_atr :: "f64 \<Rightarrow> frame \<Rightarrow> f64" where
  "engine_atr entry_price fm =
     (let ranges = known ''atr_14'' (fm_rows fm);
          atr_val = (if has_column fm ''atr_14'' \<and> ranges \<noteq> [] then last ranges else 100)
      in if atr_val \<le> 0 then fmul entry_price (fl (1/100)) else atr_val)"

definition calculate_levels :: "f64 \<Rightarrow> string \<Rightarrow> frame \<Rightarrow> f64 \<times> f64 \<times> f64 \<times> f64 \<times> f64 \<times> f64" where
  "calculate_levels entry signal_type fm =
     (let a = engine_atr entry fm;
          (sl, tp1, tp2, tp3) =
            (if signal_type = ''LONG''
             then (fsub entry (fmul 2 a), fadd entry (fmul 2 a), fadd entry (fmul 3 a), fadd entry (fmul 5 a))
             else (fadd entry (fmul 2 a), fsub entry (fmul 2 a), fsub entry (fmul 3 a), fsub entry (fmul 5 a)));
          risk = \<bar>fsub entry sl\<bar>; reward = \<bar>fsub tp1 entry\<bar>;
          rr = (if risk > 0 then pyround 2 (fdiv reward risk) else 0)
      in (pyround 2 entry, pyround 2 sl, pyround 2 tp1, pyround 2 tp2, pyround 2 tp3, rr))"

definition generate_reasoning :: "string \<Rightarrow> f64 \<Rightarrow> f64 \<Rightarrow> string \<Rightarrow> frame \<Rightarrow> signal_reason list" where
  "generate_reasoning signal_type long_prob short_prob regime fm =
     (if signal_type = ''NO_TRADE'' then
        (let reasons = (if long_prob < fl (4/10) \<and> short_prob < fl (4/10) then [WHY_LOW_PROBABILITY] else []) @
                       (if regime \<in> {''HIGH_VOLATILITY'', ''UNCERTAIN''} then [WHY_REGIME regime] else [])
         in if reasons = [] then [WHY_BELOW_THRESHOLD] else reasons)
      else
        (let latest = last (fm_rows fm); long = (signal_type = ''LONG'')
         in (if take 8 regime = ''TRENDING'' then [WHY_TREND regime] else []) @
            (case (if has_column fm ''rsi_14'' then latest ''rsi_14'' else None) of
               None \<Rightarrow> []
             | Some r \<Rightarrow> if long \<and> r < 65 then [WHY_RSI_NOT_OVERBOUGHT] else if \<not> long \<and> r > 35 then [WHY_RSI_NOT_OVERSOLD] else []) @
            (if has_column fm ''macd_bullish''
             then if long \<and> latest ''macd_bullish'' = Some 1 then [WHY_MACD_BULLISH]
                  else if \<not> long \<and> latest ''macd_bullish'' = Some 0 then [WHY_MACD_BEARISH] else []
             else []) @
            [WHY_PROBABILITY signal_type (if long then long_prob else short_prob)]))"

definition generate_signal ::
  "pandas \<Rightarrow> f64 \<Rightarrow> datetime \<Rightarrow> model_prediction \<Rightarrow> frame \<Rightarrow> f64 \<Rightarrow> string \<Rightarrow> string \<Rightarrow> string \<Rightarrow> string option \<Rightarrow> signal_output" where
  "generate_signal pd prediction_threshold now ml fm entry_price symbol signal_id strategy_name model_version =
     (let regime = regime_text (detect pd fm); l = mp_long_probability ml; s = mp_short_probability ml; n = mp_no_trade_probability ml;
          confidence = max l s; signal_type = determine_signal_type prediction_threshold l s n regime;
          levels = (if signal_type \<in> {''LONG'', ''SHORT''} then Some (calculate_levels entry_price signal_type fm) else None);
          level = (\<lambda>f. map_option f levels)
      in \<lparr>eo_signal_id = signal_id, eo_signal_type = signal_type, eo_confidence = pyround 4 confidence,
          eo_long_probability = pyround 4 l, eo_short_probability = pyround 4 s, eo_no_trade_probability = pyround 4 n,
          eo_entry_price = level (\<lambda>(e, _, _, _, _, _). e), eo_stop_loss = level (\<lambda>(_, sl, _, _, _, _). sl),
          eo_take_profit_1 = level (\<lambda>(_, _, t, _, _, _). t), eo_take_profit_2 = level (\<lambda>(_, _, _, t, _, _). t),
          eo_take_profit_3 = level (\<lambda>(_, _, _, _, t, _). t), eo_risk_reward = level (\<lambda>(_, _, _, _, _, rr). rr),
          eo_market_regime = regime, eo_reasoning = generate_reasoning signal_type l s regime fm, eo_timestamp = now, eo_symbol = symbol,
          eo_quality = bucket_signal_quality confidence, eo_strategy_name = strategy_name, eo_model_version = model_version\<rparr>)"

section \<open>Back-tests of a model\<close>

text \<open>The probabilities come in the order short, no trade, long; a row with a missing feature has no signal.\<close>

definition make_model_signal_func ::
  "pandas \<Rightarrow> f64 \<Rightarrow> (f64 list \<Rightarrow> f64 \<times> f64 \<times> f64) \<Rightarrow> string list \<Rightarrow> datetime \<Rightarrow> frame \<Rightarrow> f64 \<Rightarrow> backtest_signal option" where
  "make_model_signal_func pd prediction_threshold predict_proba feature_cols now fm close =
     (if length (fm_rows fm) < 2 then None
      else let values = map (last (fm_rows fm)) feature_cols
      in if None \<in> set values then None
         else case predict_proba (map the values) of (p_short, p_none, p_long) \<Rightarrow>
           let out = generate_signal pd prediction_threshold now
                 \<lparr>mp_long_probability = p_long, mp_short_probability = p_short, mp_no_trade_probability = p_none\<rparr> fm close ''BTC/USDT'' [] ''ml_model'' None
           in if eo_signal_type out \<notin> {''LONG'', ''SHORT''} then None
              else Some \<lparr>bg_signal_type = Some (eo_signal_type out), bg_stop_loss = eo_stop_loss out, bg_take_profit_1 = eo_take_profit_1 out,
                         bg_leverage = Some 1, bg_position_pct = None, bg_market_regime = None\<rparr>)"

section \<open>The gates\<close>

lemma signal_type_gates:
  "determine_signal_type thr l s n regime = ''LONG'' \<longleftrightarrow>
     n \<le> 1/2 \<and> thr \<le> l \<and> s < l \<and> fl (15/100) \<le> \<bar>fsub l s\<bar> \<and>
     regime \<notin> {''HIGH_VOLATILITY'', ''UNCERTAIN'', ''POST_LIQUIDATION'', ''TRENDING_BEARISH''}"
  "determine_signal_type thr l s n regime = ''SHORT'' \<longleftrightarrow>
     n \<le> 1/2 \<and> thr \<le> s \<and> l < s \<and> fl (15/100) \<le> \<bar>fsub l s\<bar> \<and>
     regime \<notin> {''HIGH_VOLATILITY'', ''UNCERTAIN'', ''POST_LIQUIDATION'', ''TRENDING_BULLISH''}"
  by (auto simp: determine_signal_type_def not_less not_le)

lemma signal_type_three: "determine_signal_type thr l s n regime \<in> {''LONG'', ''SHORT'', ''NO_TRADE''}"
  by (simp add: determine_signal_type_def)

lemma engine_atr_nonneg: "0 \<le> entry \<Longrightarrow> 0 \<le> engine_atr entry fm"
  using fmul_nonneg [of entry "fl (1/100)"] fl_nonneg [of "1/100"] by (auto simp: engine_atr_def Let_def)

text \<open>Stop, price and targets in order, on both sides.\<close>

definition laddered :: "string \<Rightarrow> f64 \<times> f64 \<times> f64 \<times> f64 \<times> f64 \<times> f64 \<Rightarrow> bool" where
  "laddered side = (\<lambda>(e, sl, t1, t2, t3, _).
     if side = ''LONG'' then sl \<le> e \<and> e \<le> t1 \<and> t1 \<le> t2 \<and> t2 \<le> t3 else t3 \<le> t2 \<and> t2 \<le> t1 \<and> t1 \<le> e \<and> e \<le> sl)"

lemma levels_laddered:
  assumes "0 \<le> entry" "fl entry = entry"
  shows "laddered side (calculate_levels entry side fm)"
proof -
  let ?a = "engine_atr entry fm"
  have a: "0 \<le> ?a" using assms(1) by (rule engine_atr_nonneg)
  have k: "0 \<le> fmul 2 ?a" "fmul 2 ?a \<le> fmul 3 ?a" "fmul 3 ?a \<le> fmul 5 ?a" using a fl_nonneg [of "2 * ?a"] by (simp_all add: fmul_def fl_mono mult_right_mono)
  have up: "entry \<le> fadd entry x" "fsub entry x \<le> entry" if "0 \<le> x" for x
    using that fl_mono [of entry "entry + x"] fl_mono [of "entry - x" entry] by (simp_all add: fadd_def fsub_def assms(2))
  have mono: "fadd entry x \<le> fadd entry y" "fsub entry y \<le> fsub entry x" if "x \<le> y" for x y
    using that by (simp_all add: fadd_def fsub_def fl_mono)
  show ?thesis using up [OF k(1)] mono [OF k(2)] mono [OF k(3)]
    by (simp add: laddered_def calculate_levels_def Let_def dec.rnd_mono)
qed

text \<open>
  A model signal that trades has passed every gate: the other probability is smaller by at least the margin, its own reaches the threshold,
  no trade is not the likelier outcome, and the regime is neither one of the three that forbid trading nor a trend against it; its
  rounded levels are in order around the rounded price.  A signal that does not trade has no levels.
\<close>

theorem engine_signal_gated:
  assumes "0 \<le> price" "fl price = price"
  shows "let out = generate_signal pd thr now ml fm price symbol sid name version; side = eo_signal_type out;
      (p, q) = (if side = ''LONG'' then (mp_long_probability ml, mp_short_probability ml) else (mp_short_probability ml, mp_long_probability ml))
    in if side \<in> {''LONG'', ''SHORT''}
       then mp_no_trade_probability ml \<le> 1/2 \<and> thr \<le> p \<and> q < p \<and> fl (15/100) \<le> \<bar>fsub p q\<bar> \<and>
         50 \<le> length (fm_rows fm) \<and> eo_market_regime out = regime_text (detect pd fm) \<and>
         eo_market_regime out \<notin> {''HIGH_VOLATILITY'', ''UNCERTAIN'', ''POST_LIQUIDATION'', if side = ''LONG'' then ''TRENDING_BEARISH'' else ''TRENDING_BULLISH''} \<and>
         (\<exists>e sl t1 t2 t3 rr. eo_entry_price out = Some e \<and> eo_stop_loss out = Some sl \<and> eo_take_profit_1 out = Some t1 \<and>
            eo_take_profit_2 out = Some t2 \<and> eo_take_profit_3 out = Some t3 \<and> eo_risk_reward out = Some rr \<and>
            e = pyround 2 price \<and> laddered side (e, sl, t1, t2, t3, rr))
       else side = ''NO_TRADE'' \<and> eo_stop_loss out = None \<and> eo_take_profit_1 out = None \<and> eo_entry_price out = None"
proof -
  let ?l = "mp_long_probability ml" and ?s = "mp_short_probability ml" and ?n = "mp_no_trade_probability ml" and ?r = "regime_text (detect pd fm)"
  let ?t = "determine_signal_type thr ?l ?s ?n ?r"
  have swap: "\<bar>fsub ?s ?l\<bar> = \<bar>fsub ?l ?s\<bar>" by (metis abs_minus_cancel fsub_swap)
  have short: "?r = ''UNCERTAIN''" if "length (fm_rows fm) < 50" using that by (simp add: detect_def)
  obtain e sl t1 t2 t3 rr where lv: "calculate_levels price ?t fm = (e, sl, t1, t2, t3, rr)" by (metis surj_pair)
  have lad: "laddered ?t (e, sl, t1, t2, t3, rr)" using levels_laddered [OF assms, of ?t fm] unfolding lv .
  have e: "e = pyround 2 price" using lv by (auto simp: calculate_levels_def Let_def split: prod.splits)
  have "?t \<in> {''LONG'', ''SHORT'', ''NO_TRADE''}" by (rule signal_type_three)
  then consider "?t = ''LONG''" | "?t = ''SHORT''" | "?t = ''NO_TRADE''" by blast
  then show ?thesis
  proof cases
    case 1
    note g = 1 [unfolded signal_type_gates]
    have "50 \<le> length (fm_rows fm)" using g short by (cases "length (fm_rows fm) < 50") auto
    then show ?thesis using g lad lv e by (simp add: generate_signal_def Let_def 1)
  next
    case 2
    note g = 2 [unfolded signal_type_gates]
    have "50 \<le> length (fm_rows fm)" using g short by (cases "length (fm_rows fm) < 50") auto
    then show ?thesis using g lad lv e by (simp add: generate_signal_def Let_def 2 swap)
  next
    case 3
    then show ?thesis by (simp add: generate_signal_def Let_def)
  qed
qed

text \<open>On bare candles, which the live paths give to the detector, the engine never trades.\<close>

lemma engine_bare_candles:
  "eo_signal_type (generate_signal pd thr now ml (candle_frame df) price symbol sid name version) = ''NO_TRADE''"
  using detected_uncertain [of pd df] by (simp add: generate_signal_def Let_def determine_signal_type_def detected_regime_def)

end
