(* ===== verification/AccountStream.thy ===== *)
theory AccountStream
  imports MarketFeed "HOL-Library.AList"
begin

text \<open>
  \<open>services/exchange/coindcx_ws.py\<close>, the private stream of positions and balances as a state over its
  events, and the synchronisation of \<open>services/exchange/sync.py\<close> against any provider.  \<open>json.loads\<close> and the
  reading of a number in a text are arguments; socket.io and the signature of the join message are not modelled.  A \<open>null\<close> is \<open>JNull\<close>.
\<close>

section \<open>State\<close>

definition STREAM_STALE_AFTER :: timedelta where "STREAM_STALE_AFTER = 30 * second_us"

record account_stream =
  as_key :: string
  as_secret :: string
  as_instrument :: string
  as_connected :: bool
  as_price :: "f64 option"
  as_last_updated :: "datetime option"
  as_positions :: "(json \<times> json) list"
  as_balance :: "json option"
  as_positions_updated_at :: "datetime option"
  as_balance_updated_at :: "datetime option"

definition new_stream :: "string \<Rightarrow> string \<Rightarrow> string \<Rightarrow> account_stream" where
  "new_stream key secret symbol =
     \<lparr>as_key = key, as_secret = secret, as_instrument = normalize_symbol symbol ''INR'', as_connected = False, as_price = None,
      as_last_updated = None, as_positions = [], as_balance = None, as_positions_updated_at = None, as_balance_updated_at = None\<rparr>"

definition stream_configured :: "account_stream \<Rightarrow> bool" where
  "stream_configured s \<longleftrightarrow> as_key s \<noteq> [] \<and> as_secret s \<noteq> []"

section \<open>Messages\<close>

definition stream_payload :: "(string \<Rightarrow> json option) \<Rightarrow> json \<Rightarrow> json" where
  "stream_payload loads response =
     (case response of
        JObj kvs \<Rightarrow>
          (case map_of kvs ''data'' of
             None \<Rightarrow> response
           | Some (JStr s) \<Rightarrow> (case loads s of None \<Rightarrow> JNull | Some v \<Rightarrow> v)
           | Some v \<Rightarrow> v)
      | _ \<Rightarrow> response)"

definition stream_price_change :: "(string \<Rightarrow> f64 option) \<Rightarrow> datetime \<Rightarrow> json \<Rightarrow> account_stream \<Rightarrow> account_stream \<times> exn option" where
  "stream_price_change read_text now data s =
     (let price = json_get data ''p'' JNull
      in if price = JNull then (s, None)
         else case json_float read_text price of
                Inl x \<Rightarrow> (s, Some x)
              | Inr p \<Rightarrow> (s\<lparr>as_price := Some p, as_last_updated := Some now\<rparr>, None))"

text \<open>A position that is not a dictionary raises after the ones before it were stored; a list or dictionary cannot be a key.\<close>

fun store_positions :: "json list \<Rightarrow> account_stream \<Rightarrow> account_stream \<times> exn option" where
  "store_positions [] s = (s, None)"
| "store_positions (pos # rest) s =
     (case obj_get pos ''id'' of
        Inl x \<Rightarrow> (s, Some x)
      | Inr JNull \<Rightarrow> store_positions rest s
      | Inr (JObj _) \<Rightarrow> (s, Some TypeError)
      | Inr (JArr _) \<Rightarrow> (s, Some TypeError)
      | Inr i \<Rightarrow> store_positions rest (s\<lparr>as_positions := AList.update i pos (as_positions s)\<rparr>))"

definition stream_position_update :: "datetime \<Rightarrow> json list \<Rightarrow> account_stream \<Rightarrow> account_stream \<times> exn option" where
  "stream_position_update now positions s =
     (case store_positions positions s of
        (s', None) \<Rightarrow> (s'\<lparr>as_positions_updated_at := Some now\<rparr>, None)
      | (s', Some x) \<Rightarrow> (s', Some x))"

definition stream_balance_update :: "datetime \<Rightarrow> json list \<Rightarrow> account_stream \<Rightarrow> account_stream" where
  "stream_balance_update now balances s = s\<lparr>as_balance := Some (JArr balances), as_balance_updated_at := Some now\<rparr>"

section \<open>Events\<close>

text \<open>The channels joined on a connection: the private one needs credentials.\<close>

definition joined_channels :: "account_stream \<Rightarrow> string list" where
  "joined_channels s = (if stream_configured s then [''coindcx''] else []) @ [as_instrument s @ ''@prices-futures'']"

datatype stream_event = ST_CONNECT | ST_DISCONNECT | ST_PRICE json | ST_POSITIONS json | ST_BALANCE json

definition as_items :: "json \<Rightarrow> json list" where "as_items j = (case j of JArr xs \<Rightarrow> xs | _ \<Rightarrow> [j])"

fun stream_step ::
  "(string \<Rightarrow> json option) \<Rightarrow> (string \<Rightarrow> f64 option) \<Rightarrow> datetime \<Rightarrow> stream_event \<Rightarrow> account_stream \<Rightarrow> account_stream \<times> exn option" where
  "stream_step loads rt now ST_CONNECT s = (s\<lparr>as_connected := True\<rparr>, None)"
| "stream_step loads rt now ST_DISCONNECT s = (s\<lparr>as_connected := False\<rparr>, None)"
| "stream_step loads rt now (ST_PRICE response) s =
     (case stream_payload loads response of JObj kvs \<Rightarrow> stream_price_change rt now (JObj kvs) s | _ \<Rightarrow> (s, None))"
| "stream_step loads rt now (ST_POSITIONS response) s =
     (let data = stream_payload loads response in if data = JNull then (s, None) else stream_position_update now (as_items data) s)"
| "stream_step loads rt now (ST_BALANCE response) s =
     (let data = stream_payload loads response in if data = JNull then (s, None) else (stream_balance_update now (as_items data) s, None))"

section \<open>Freshness\<close>

definition market_data_state :: "datetime \<Rightarrow> timedelta \<Rightarrow> account_stream \<Rightarrow> connection_state" where
  "market_data_state now stale_after s =
     (if \<not> as_connected s then CN_DISCONNECTED
      else case as_last_updated s of
             None \<Rightarrow> CN_UNAVAILABLE
           | Some t \<Rightarrow> if now - t \<le> stale_after then CN_LIVE else CN_STALE)"

definition account_data_state :: "datetime \<Rightarrow> timedelta \<Rightarrow> account_stream \<Rightarrow> connection_state" where
  "account_data_state now stale_after s =
     (if \<not> stream_configured s then CN_NOT_CONFIGURED
      else if \<not> as_connected s then CN_DISCONNECTED
      else case as_positions_updated_at s of
             None \<Rightarrow> CN_UNAVAILABLE
           | Some t \<Rightarrow> if now - t \<le> stale_after then CN_LIVE else CN_STALE)"

section \<open>Synchronisation with any provider\<close>

definition run_sync_once :: "provider_status result \<Rightarrow> string \<Rightarrow> datetime \<Rightarrow> db \<Rightarrow> sync_event \<times> db" where
  "run_sync_once status i now d =
     (let (account, d0) = get_or_create_default_account i now d;
          event = (\<lambda>st. \<lparr>se_source = ''suncrypto'', se_status = st, se_timestamp = now\<rparr>);
          store = (\<lambda>e d. (e, d\<lparr>db_sync_events := db_sync_events d @ [e]\<rparr>))
      in case status of
           Inl _ \<Rightarrow> store (event SY_FAILED) d0
         | Inr PV_UNAVAILABLE \<Rightarrow> store (event SY_UNAVAILABLE) d0
         | Inr PV_OTHER \<Rightarrow>
             store (event SY_SUCCESS) (update_account (ac_id account) (\<lambda>a. a\<lparr>ac_connection_status := CN_LIVE\<rparr>) d0))"

section \<open>What the stream shows\<close>

text \<open>Without an error the book of positions holds for each identifier the last message that named it, and forgets none.\<close>

definition named :: "json list \<Rightarrow> (json \<times> json) list" where
  "named ps = List.map_filter (\<lambda>p. case obj_get p ''id'' of Inr JNull \<Rightarrow> None | Inr i \<Rightarrow> Some (i, p) | Inl _ \<Rightarrow> None) ps"

lemma put_named: "map_of (AList.update i p ps) ++ map_of xs = map_of ps ++ map_of (xs @ [(i, p)])"
  by (rule ext) (simp add: update_conv' map_add_def split: option.splits)

lemma stored_positions:
  "store_positions ps s = (s', None) \<Longrightarrow>
     map_of (as_positions s') = map_of (as_positions s) ++ map_of (rev (named ps)) \<and> s' = s\<lparr>as_positions := as_positions s'\<rparr>"
proof (induction ps s rule: store_positions.induct)
  case (2 pos rest s)
  show ?case
  proof (cases "obj_get pos ''id'' = Inr JNull")
    case True
    then show ?thesis using 2 by (simp add: named_def map_filter_simps)
  next
    case False
    then obtain i where i: "obj_get pos ''id'' = Inr i" "i \<noteq> JNull" "\<And>x. i \<noteq> JObj x" "\<And>x. i \<noteq> JArr x"
      using 2(8) by (cases "obj_get pos ''id''") (auto split: json.splits)
    have step: "store_positions (pos # rest) s = store_positions rest (s\<lparr>as_positions := AList.update i pos (as_positions s)\<rparr>)"
      using i by (cases i) auto
    have row: "named (pos # rest) = (i, pos) # named rest" using i by (cases i) (auto simp: named_def map_filter_simps)
    have "map_of (as_positions s') = map_of (AList.update i pos (as_positions s)) ++ map_of (rev (named rest)) \<and> s' = s\<lparr>as_positions := as_positions s'\<rparr>"
      using 2 i step by (cases i) auto
    then show ?thesis unfolding row put_named by simp
  qed
qed (simp add: named_def map_filter_simps)

text \<open>
  The account is shown as live exactly if the credentials are there, the connection stands and the last message about positions, received
  without an error, is not older than the limit: prices and balances make it neither fresh nor stale.
\<close>

lemma account_fresh_by_positions:
  "stream_step loads rt t e s = (s', x) \<Longrightarrow> (\<forall>j. e \<noteq> ST_POSITIONS j) \<Longrightarrow>
     as_positions_updated_at s' = as_positions_updated_at s \<and> as_positions s' = as_positions s"
  by (cases e) (auto simp: Let_def stream_price_change_def stream_balance_update_def split: json.splits sum.splits if_splits)

text \<open>A provider that answers is taken as synchronised, although nothing is read from it.\<close>

lemma answer_counts_as_synchronised:
  assumes "run_sync_once (Inr PV_OTHER) i now d = (e, d')"
  shows "se_status e = SY_SUCCESS \<and> db_trades d' = db_trades d \<and> db_snapshots d' = db_snapshots d"
  using assms by (auto simp: run_sync_once_def Let_def update_account_def get_or_create_default_account_def split: option.splits)

end
