(* ===== verification/DataQuality.thy ===== *)
theory DataQuality
  imports Strategies
begin

text \<open>
  \<open>services/data_quality/validator.py\<close>: what is checked of stored candles.  A frame is a list of bars; every
  check only counts and labels, no value of a bar is changed.
\<close>

section \<open>Checks\<close>

definition quality_intervals :: "(string \<times> timedelta) list" where
  "quality_intervals = [(''1m'', minute_us), (''5m'', 5 * minute_us), (''15m'', 15 * minute_us), (''1h'', hour_us), (''4h'', 4 * hour_us),
     (''1d'', day_us), (''1w'', 7 * day_us)]"

definition quality_interval :: "string \<Rightarrow> timedelta option" where "quality_interval = map_of quality_intervals"

record gap =
  gp_start :: datetime
  gp_end :: datetime
  gp_missing_candles :: int

record quality_report =
  qr_period_start :: "datetime option"
  qr_period_end :: "datetime option"
  qr_row_count :: int
  qr_expected_row_count :: int
  qr_missing_count :: int
  qr_duplicate_count :: int
  qr_invalid_count :: int
  qr_out_of_order_count :: int
  qr_stale :: bool
  qr_gaps :: "gap list"
  qr_invalid_reasons :: "(string \<times> int) list"
  qr_duplicate_timestamps :: "datetime list"

definition coverage_pct :: "quality_report \<Rightarrow> f64" where
  "coverage_pct r =
     (if qr_expected_row_count r \<le> 0 then 0
      else pyround 4 (fmul (fdiv (of_int (min (qr_row_count r) (qr_expected_row_count r))) (of_int (qr_expected_row_count r))) 100))"

definition check_duplicates :: "datetime list \<Rightarrow> int \<times> datetime list" where
  "check_duplicates ts = (int (length ts - length (remdups ts)), sort (remdups (filter (\<lambda>t. 1 < count_list ts t) ts)))"

definition check_ordering :: "datetime list \<Rightarrow> int" where
  "check_ordering ts = int (length (filter (\<lambda>(s, t). t - s < 0) (zip ts (tl ts))))"

text \<open>The reasons in the order of the report, each with its test of a row.\<close>

definition quality_tests :: "(string \<times> (bar \<Rightarrow> bool)) list" where
  "quality_tests =
     [(''high_below_max(open,close,low)'', \<lambda>b. b_high b < max (max (b_open b) (b_close b)) (b_low b)),
      (''low_above_min(open,close,high)'', \<lambda>b. b_low b > min (min (b_open b) (b_close b)) (b_high b)),
      (''high_less_than_low'', \<lambda>b. b_high b < b_low b),
      (''non_positive_price'', \<lambda>b. b_open b \<le> 0 \<or> b_high b \<le> 0 \<or> b_low b \<le> 0 \<or> b_close b \<le> 0),
      (''negative_volume'', \<lambda>b. b_volume b < 0)]"

definition check_invalid_ohlc :: "bar \<Rightarrow> bool" where
  "check_invalid_ohlc b \<longleftrightarrow>
     b_high b < max (max (b_open b) (b_close b)) (b_low b) \<or> b_low b > min (min (b_open b) (b_close b)) (b_high b) \<or>
     b_high b < b_low b \<or> (b_open b \<le> 0 \<or> b_high b \<le> 0 \<or> b_low b \<le> 0 \<or> b_close b \<le> 0) \<or> b_volume b < 0"

definition invalid_reason_breakdown :: "bar list \<Rightarrow> (string \<times> int) list" where
  "invalid_reason_breakdown df =
     filter (\<lambda>(_, n). 0 < n) (map (\<lambda>(reason, test). (reason, int (length (filter test df)))) quality_tests)"

definition check_gaps :: "datetime list \<Rightarrow> string \<Rightarrow> gap list" where
  "check_gaps timestamps timeframe =
     (case quality_interval timeframe of
        None \<Rightarrow> []
      | Some interval \<Rightarrow>
          if length timestamps < 2 then []
          else let ts = sort timestamps
               in concat (map (\<lambda>(s, t).
                    let gap_delta = t - s; missing = round_half_even (fl (of_int gap_delta / of_int interval)) - 1
                    in if 2 * gap_delta > 3 * interval \<and> 0 < missing then [\<lparr>gp_start = s, gp_end = t, gp_missing_candles = missing\<rparr>] else [])
                  (zip ts (tl ts))))"

definition check_staleness :: "datetime list \<Rightarrow> string \<Rightarrow> datetime option \<Rightarrow> bool" where
  "check_staleness ts timeframe as_of =
     (case quality_interval timeframe of
        None \<Rightarrow> True
      | Some interval \<Rightarrow>
          if ts = [] then True
          else let last_ts = Max (set ts); now = (case as_of of None \<Rightarrow> last_ts | Some t \<Rightarrow> t) in now - last_ts > 3 * interval)"

definition compute_expected_row_count :: "datetime \<Rightarrow> datetime \<Rightarrow> string \<Rightarrow> int" where
  "compute_expected_row_count period_start period_end timeframe =
     (case quality_interval timeframe of
        None \<Rightarrow> 0
      | Some interval \<Rightarrow>
          if period_end \<le> period_start then 0 else py_int (fl (of_int (period_end - period_start) / of_int interval)) + 1)"

text \<open>A row's label: invalid with its reasons, which the source joins by semicolons, or valid without.\<close>

definition label_quality :: "bar list \<Rightarrow> (bar \<times> string list option) list" where
  "label_quality df =
     map (\<lambda>b. (b, if check_invalid_ohlc b then Some (map fst (filter (\<lambda>(_, test). test b) quality_tests)) else None)) df"

definition validate_candles :: "bar list \<Rightarrow> string \<Rightarrow> datetime option \<Rightarrow> datetime option \<Rightarrow> datetime option \<Rightarrow> quality_report" where
  "validate_candles df0 timeframe period_start period_end as_of =
     (if df0 = []
      then \<lparr>qr_period_start = period_start, qr_period_end = period_end, qr_row_count = 0, qr_expected_row_count = 0, qr_missing_count = 0,
            qr_duplicate_count = 0, qr_invalid_count = 0, qr_out_of_order_count = 0, qr_stale = True, qr_gaps = [], qr_invalid_reasons = [],
            qr_duplicate_timestamps = []\<rparr>
      else let df = sort_key b_timestamp df0; ts = map b_timestamp df;
               actual_start = (case period_start of None \<Rightarrow> Min (set ts) | Some t \<Rightarrow> t);
               actual_end = (case period_end of None \<Rightarrow> Max (set ts) | Some t \<Rightarrow> t);
               gaps = check_gaps ts timeframe
           in \<lparr>qr_period_start = Some actual_start, qr_period_end = Some actual_end, qr_row_count = int (length df),
               qr_expected_row_count = compute_expected_row_count actual_start actual_end timeframe,
               qr_missing_count = sum_list (map gp_missing_candles gaps), qr_duplicate_count = fst (check_duplicates ts),
               qr_invalid_count = int (length (filter check_invalid_ohlc df)), qr_out_of_order_count = check_ordering ts,
               qr_stale = check_staleness ts timeframe as_of, qr_gaps = gaps, qr_invalid_reasons = invalid_reason_breakdown df,
               qr_duplicate_timestamps = snd (check_duplicates ts)\<rparr>)"

section \<open>Labels\<close>

lemma quality_tests_exact: "check_invalid_ohlc b \<longleftrightarrow> (\<exists>(reason, test) \<in> set quality_tests. test b)"
  by (auto simp: check_invalid_ohlc_def quality_tests_def)

lemma reason_labelled:
  assumes "(reason, test) \<in> set quality_tests"
  shows "reason \<in> set (map fst (filter (\<lambda>(_, t). t b) quality_tests)) \<longleftrightarrow> test b"
proof -
  have "distinct (map fst quality_tests)" by (simp add: quality_tests_def)
  then have "t = test" if "(reason, t) \<in> set quality_tests" for t using that assms by (rule eq_key_imp_eq_value)
  moreover have "reason \<in> set (map fst (filter (\<lambda>(_, t). t b) quality_tests)) \<longleftrightarrow> (\<exists>t. (reason, t) \<in> set quality_tests \<and> t b)"
    by (auto simp: image_iff)
  ultimately show ?thesis using assms by blast
qed

text \<open>
  The labels of the rows, the count of invalid rows and the breakdown by reason are one judgement: as many rows are
  labelled invalid as the report counts, a label gives at least one reason, and the breakdown
  counts for each reason the labels that give it.  No bar is changed.
\<close>
theorem quality_labels_agree:
  "map fst (label_quality df) = df \<and>
   qr_invalid_count (validate_candles df timeframe s e n) = int (length (filter (\<lambda>(_, l). l \<noteq> None) (label_quality df))) \<and>
   (\<forall>(b, l) \<in> set (label_quality df). l \<noteq> Some []) \<and>
   (\<forall>(reason, k) \<in> set (invalid_reason_breakdown df).
      k = int (length (filter (\<lambda>(_, l). \<exists>rs. l = Some rs \<and> reason \<in> set rs) (label_quality df))))"
proof (intro conjI)
  have nonempty: "map fst (filter (\<lambda>(_, test). test b) quality_tests) \<noteq> []" if "check_invalid_ohlc b" for b
    using that by (auto simp: quality_tests_exact filter_empty_conv)
  show "map fst (label_quality df) = df" by (simp add: label_quality_def comp_def)
  have "qr_invalid_count (validate_candles df timeframe s e n) = int (length (filter check_invalid_ohlc (sort_key b_timestamp df)))"
    by (simp add: validate_candles_def Let_def)
  also have "\<dots> = int (length (filter check_invalid_ohlc df))"
    by (simp add: filter_sort)
  finally show "qr_invalid_count (validate_candles df timeframe s e n) = int (length (filter (\<lambda>(_, l). l \<noteq> None) (label_quality df)))"
    by (simp add: label_quality_def filter_map comp_def)
  show "\<forall>(b, l) \<in> set (label_quality df). l \<noteq> Some []"
    using nonempty by (auto simp: label_quality_def)
  show "\<forall>(reason, k) \<in> set (invalid_reason_breakdown df).
      k = int (length (filter (\<lambda>(_, l). \<exists>rs. l = Some rs \<and> reason \<in> set rs) (label_quality df)))"
  proof clarify
    fix reason k assume "(reason, k) \<in> set (invalid_reason_breakdown df)"
    then obtain test where test: "(reason, test) \<in> set quality_tests" "k = int (length (filter test df))"
      by (auto simp: invalid_reason_breakdown_def)
    have "(case (b, if check_invalid_ohlc b then Some (map fst (filter (\<lambda>(_, t). t b) quality_tests)) else None) of
        (_, l) \<Rightarrow> \<exists>rs. l = Some rs \<and> reason \<in> set rs) = test b" for b
      using reason_labelled [OF test(1), of b] test(1) by (auto simp: quality_tests_exact simp del: set_map)
    then show "k = int (length (filter (\<lambda>(_, l). \<exists>rs. l = Some rs \<and> reason \<in> set rs) (label_quality df)))"
      unfolding test(2) label_quality_def by (simp only: filter_map length_map comp_def)
  qed
qed

section \<open>Row counts\<close>

lemma check_ordering_sorted: "sorted ts \<Longrightarrow> check_ordering ts = 0"
  by (induction ts rule: induct_list012) (simp_all add: check_ordering_def)

lemma sort_key_nil_iff: "sort_key f xs = [] \<longleftrightarrow> xs = []"
  by (metis length_0_conv length_sort)

lemma quality_interval_pos: "quality_interval timeframe = Some I \<Longrightarrow> 0 < I"
  by (auto simp: quality_interval_def quality_intervals_def time_units split: if_splits)

text \<open>
  Two findings never occur.  Whatever the order of the rows given, the report counts no row out of order, as the rows
  are sorted before they are checked; and without a time to compare with no frame of a known time frame
  is stale, as its own last row is taken for the present.
\<close>
theorem quality_blind_spots:
  "qr_out_of_order_count (validate_candles df timeframe s e n) = 0 \<and>
   (df \<noteq> [] \<longrightarrow> quality_interval timeframe \<noteq> None \<longrightarrow> \<not> qr_stale (validate_candles df timeframe s e None))"
proof -
  have "\<not> 3 * I < 0" if "quality_interval timeframe = Some I" for I using quality_interval_pos [OF that] by simp
  then show ?thesis by (auto simp: validate_candles_def Let_def check_ordering_sorted check_staleness_def sort_key_nil_iff)
qed

text \<open>Between two rows of the grid the gap misses the candles that are not there.\<close>

lemma steps_exact: "0 < I \<Longrightarrow> 0 \<le> k \<Longrightarrow> k \<le> 2 ^ 53 \<Longrightarrow> fl (of_int (k * I) / of_int I) = of_int k"
  using fl_of_int [of k] by simp

lemma sorted_ends: "sorted (xs :: int list) \<Longrightarrow> x \<in> set xs \<Longrightarrow> hd xs \<le> x \<and> x \<le> last xs"
  by (induction xs) auto

lemma grid_steps:
  fixes I :: int
  assumes "I dvd s - t0" "I dvd t - t0"
  obtains k where "t = s + I * k"
proof -
  have "I dvd (t - t0) - (s - t0)" using assms(2,1) by (rule dvd_diff)
  then obtain k where "(t - t0) - (s - t0) = I * k" by (rule dvdE)
  then show ?thesis by (intro that [of k]) simp
qed

definition missing_between :: "timedelta \<Rightarrow> datetime \<times> datetime \<Rightarrow> int" where
  "missing_between I = (\<lambda>(s, t). if (t - s) div I \<le> 1 then 0 else (t - s) div I - 1)"

lemma sum_list_map_concat: "sum_list (map f (concat (map g xs))) = sum_list (map (\<lambda>x. sum_list (map f (g x))) xs)"
  by (induction xs) simp_all

lemma gaps_missing:
  assumes "quality_interval timeframe = Some I" "sorted ts" "2 \<le> length ts" "\<And>t. t \<in> set ts \<Longrightarrow> I dvd t - t0"
    "last ts - hd ts \<le> 2 ^ 53 * I"
  shows "sum_list (map gp_missing_candles (check_gaps ts timeframe)) = sum_list (map (missing_between I) (zip ts (tl ts)))"
proof -
  have I: "0 < I" using quality_interval_pos [OF assms(1)] .
  have "sum_list (map gp_missing_candles
      (let gap_delta = t - s; missing = round_half_even (fl (of_int gap_delta / of_int I)) - 1
       in if 2 * gap_delta > 3 * I \<and> 0 < missing then [\<lparr>gp_start = s, gp_end = t, gp_missing_candles = missing\<rparr>] else [])) =
    missing_between I (s, t)" if pair: "(s, t) \<in> set (zip ts (tl ts))" for s t
  proof -
    obtain i where i: "Suc i < length ts" "s = ts ! i" "t = ts ! Suc i"
      using pair unfolding in_set_zip by (auto simp: nth_tl less_diff_conv)
    then have le: "s \<le> t" "hd ts \<le> s" "t \<le> last ts" using assms(2) sorted_ends [OF assms(2)] by (auto simp: sorted_nth_mono)
    obtain k where k': "t = s + I * k" by (rule grid_steps [OF assms(4) [of s] assms(4) [of t]]) (use i in auto)
    have "0 \<le> I * k" "I * k \<le> I * 2 ^ 53" using le assms(5) k' by simp_all
    then have k: "t - s = k * I" "0 \<le> k" "k \<le> 2 ^ 53" using k' I by (simp_all add: zero_le_mult_iff mult.commute)
    have "2 * (k * I) > 3 * I \<longleftrightarrow> 2 \<le> k" using I by (auto simp: mult.commute)
    then show ?thesis using steps_exact [OF I k(2,3)] I by (simp add: Let_def k(1) missing_between_def)
  qed
  then show ?thesis using assms(1,2,3)
    by (auto simp: check_gaps_def sorted_sort_id sum_list_map_concat Let_def intro!: arg_cong [where f = sum_list] map_cong)
qed

text \<open>On a sorted grid every pair of neighbours is a duplicate, an expected candle, or a gap.\<close>

lemma grid_balance:
  assumes "0 < I" "sorted (t # ts)" "\<And>s. s \<in> set (t # ts) \<Longrightarrow> I dvd s - t0"
  shows "int (length ts) + sum_list (map (missing_between I) (zip (t # ts) ts)) =
    (last (t # ts) - t) div I + int (length (t # ts) - length (remdups (t # ts)))"
  using assms(2,3)
proof (induction ts arbitrary: t)
  case (Cons u ts)
  have IH: "int (length ts) + sum_list (map (missing_between I) (zip (u # ts) ts)) =
      (last (u # ts) - u) div I + int (length (u # ts) - length (remdups (u # ts)))"
    by (rule Cons.IH) (use Cons.prems in auto)
  obtain k where k: "u = t + I * k" by (rule grid_steps [of I t t0 u]) (use Cons.prems(2) in auto)
  obtain m where m: "last (u # ts) = u + I * m" by (rule grid_steps [of I u t0 "last (u # ts)"]) (use Cons.prems(2) last_in_set [of "u # ts"] in auto)
  have "t \<le> u" using Cons.prems(1) by simp
  then have k0: "0 \<le> k" using k assms(1) by (simp add: zero_le_mult_iff)
  have dups: "t \<in> set (u # ts) \<longleftrightarrow> k = 0"
    using Cons.prems(1) k k0 assms(1) by (auto simp: mult_le_0_iff)
  have "(last (u # ts) - t) div I = (last (u # ts) - u) div I + k" using k m assms(1) by (simp add: algebra_simps)
  moreover have "missing_between I (t, u) = (if k \<le> 1 then 0 else k - 1)" using k assms(1) by (simp add: missing_between_def)
  moreover have "length (remdups (u # ts)) \<le> length (u # ts)" by (rule length_remdups_leq)
  ultimately show ?case using IH dups k0 by (auto simp: algebra_simps of_nat_diff)
qed simp

text \<open>Rows on the grid of an interval, not all at one time.\<close>

definition on_grid :: "timedelta \<Rightarrow> bar list \<Rightarrow> bool" where
  "on_grid I df \<longleftrightarrow>
     (\<forall>b \<in> set df. \<forall>b' \<in> set df. I dvd b_timestamp b' - b_timestamp b \<and> b_timestamp b' - b_timestamp b \<le> 2 ^ 53 * I) \<and>
     (\<exists>b \<in> set df. \<exists>b' \<in> set df. b_timestamp b < b_timestamp b')"

lemma row_balance:
  assumes "quality_interval timeframe = Some I" "on_grid I df"
    and r_def: "r = validate_candles df timeframe None None n"
  shows "qr_row_count r + qr_missing_count r = qr_expected_row_count r + qr_duplicate_count r" "0 < qr_expected_row_count r"
proof -
  define ts where "ts = map b_timestamp (sort_key b_timestamp df)"
  have I: "0 < I" using quality_interval_pos [OF assms(1)] .
  have set: "set ts = b_timestamp ` set df" by (simp add: ts_def)
  have sorted: "sorted ts" by (simp add: ts_def)
  obtain b b' where bb: "b \<in> set df" "b' \<in> set df" "b_timestamp b < b_timestamp b'" using assms(2) by (auto simp: on_grid_def)
  then have df: "df \<noteq> []" by auto
  have "hd ts = Min (set ts)" "last ts = Max (set ts)" if "ts \<noteq> []"
    using sorted_ends [OF sorted] that by (auto intro!: Min_eqI [symmetric] Max_eqI [symmetric])
  then have ends: "Min (b_timestamp ` set df) = hd ts" "Max (b_timestamp ` set df) = last ts"
    using df by (simp_all add: set [symmetric]) (simp_all add: ts_def sort_key_nil_iff)
  obtain t us where tu: "ts = t # us" using bb(1) set by (cases ts) auto
  then have mem: "hd ts \<in> set ts" "last ts \<in> set ts" by simp_all
  have grid: "I dvd s - hd ts" if "s \<in> set ts" for s using that mem(1) assms(2) by (auto simp: set on_grid_def)
  have span: "last ts - hd ts \<le> 2 ^ 53 * I" using mem assms(2) by (auto simp: set on_grid_def)
  have "b_timestamp b \<in> set ts" "b_timestamp b' \<in> set ts" using bb by (simp_all add: set)
  then have less: "hd ts < last ts" using sorted_ends [OF sorted, of "b_timestamp b"] sorted_ends [OF sorted, of "b_timestamp b'"] bb(3) by linarith
  then have two: "2 \<le> length ts" using tu by (cases us) auto
  obtain k where k: "last ts = hd ts + I * k" by (rule grid_steps [OF grid [OF mem(1)] grid [OF mem(2)]])
  have k1: "0 < k" "k \<le> 2 ^ 53" using less span I unfolding k by (simp_all add: zero_less_mult_iff mult.commute)
  have expected: "compute_expected_row_count (hd ts) (last ts) timeframe = k + 1"
    using assms(1) less steps_exact [OF I, of k] k I mult_pos_pos [OF I k1(1)] k1
    by (simp add: compute_expected_row_count_def py_int_def mult.commute mult_le_0_iff)
  have rows: "length df = length ts" by (simp add: ts_def)
  have "int (length us) + sum_list (map (missing_between I) (zip ts us)) = k + fst (check_duplicates ts)"
    using grid_balance [OF I, of t us t] sorted grid tu k I by (simp add: check_duplicates_def)
  moreover have "sum_list (map gp_missing_candles (check_gaps ts timeframe)) = sum_list (map (missing_between I) (zip ts us))"
    using gaps_missing [OF assms(1) sorted two grid span] tu by simp
  ultimately show "qr_row_count r + qr_missing_count r = qr_expected_row_count r + qr_duplicate_count r" "0 < qr_expected_row_count r"
    using df expected tu rows k1 by (simp_all add: r_def validate_candles_def Let_def ts_def [symmetric] ends)
qed

text \<open>
  The counts of a report balance.  For rows on the grid of their time frame, not all at one time, the rows and the missing
  candles together are the expected rows and the repeated ones.
\<close>
theorem quality_row_balance:
  assumes "quality_interval timeframe = Some I" "on_grid I df"
  shows "qr_row_count (validate_candles df timeframe None None n) + qr_missing_count (validate_candles df timeframe None None n) =
    qr_expected_row_count (validate_candles df timeframe None None n) + qr_duplicate_count (validate_candles df timeframe None None n)"
  using assms refl by (rule row_balance(1))

text \<open>
  Repeated rows hide missing candles: if candles are missing but not more of them than rows are repeated, the
  report's coverage is a hundred per cent although it lists the gaps.
\<close>
theorem quality_coverage_hides_gaps:
  assumes "quality_interval timeframe = Some I" "on_grid I df"
    "0 < qr_missing_count (validate_candles df timeframe None None n)"
    "qr_missing_count (validate_candles df timeframe None None n) \<le> qr_duplicate_count (validate_candles df timeframe None None n)"
  shows "coverage_pct (validate_candles df timeframe None None n) = 100 \<and> qr_gaps (validate_candles df timeframe None None n) \<noteq> []"
proof -
  let ?r = "validate_candles df timeframe None None n"
  have "min (qr_row_count ?r) (qr_expected_row_count ?r) = qr_expected_row_count ?r" "0 < qr_expected_row_count ?r"
    using row_balance [OF assms(1,2) refl, of n] assms(4) by simp_all
  moreover have "pyround 4 100 = 100" using round_half_even_of_int [of 1000000] by (simp add: pyround_def fl_numeral)
  ultimately have "coverage_pct ?r = 100" by (simp add: coverage_pct_def fdiv_def fmul_def fl_numeral)
  moreover have "qr_missing_count ?r = sum_list (map gp_missing_candles (qr_gaps ?r))" by (simp add: validate_candles_def Let_def)
  ultimately show ?thesis using assms(3) by auto
qed

definition demo_quality :: "bar list" where
  "demo_quality = map (\<lambda>t. \<lparr>b_timestamp = t, b_open = 1, b_high = 1, b_low = 1, b_close = 1, b_volume = 1\<rparr>) [3 * hour_us, 0, hour_us, hour_us]"

lemma demo_quality_grid: "quality_interval ''1h'' = Some hour_us" "on_grid hour_us demo_quality"
  by (auto simp: quality_interval_def quality_intervals_def on_grid_def demo_quality_def hour_us_def)

lemma demo_quality_counts:
  "qr_missing_count (validate_candles demo_quality ''1h'' None None None) = 1"
  "qr_duplicate_count (validate_candles demo_quality ''1h'' None None None) = 1"
  using round_half_even_of_int [of 2]
  by (simp_all add: validate_candles_def demo_quality_def Let_def check_gaps_def quality_interval_def quality_intervals_def
        check_duplicates_def hour_us_def fl_numeral)

theorem quality_row_balance_witness:
  "qr_row_count (validate_candles demo_quality ''1h'' None None None) = qr_expected_row_count (validate_candles demo_quality ''1h'' None None None)"
  using quality_row_balance [OF demo_quality_grid, of None] by (simp add: demo_quality_counts)

theorem quality_coverage_hides_gaps_witness: "coverage_pct (validate_candles demo_quality ''1h'' None None None) = 100"
  using quality_coverage_hides_gaps [OF demo_quality_grid, of None] by (simp add: demo_quality_counts)

end
