(* ===== verification/SignalParser.thy ===== *)
theory SignalParser
  imports TextPatterns
begin

text \<open>
  \<open>services/telegram_signals/parser.py\<close>: a message text to a parsed signal.  The patterns are those
  of the source; texts are ASCII and the stated numbers within the range of binary64.
\<close>

section \<open>Patterns\<close>

definition symbol_gap :: "char \<Rightarrow> bool" where "symbol_gap c \<longleftrightarrow> is_space c \<or> c \<in> {CHR ''/'', CHR ''-''}"
definition digit_or_comma :: "char \<Rightarrow> bool" where "digit_or_comma c \<longleftrightarrow> is_digit c \<or> c = CHR '',''"

definition SYMBOL_PATTERN :: regex where
  "SYMBOL_PATTERN =
     seqs [Boundary, Group (Rep is_letter 2 (Some 10)), maybe symbol_gap, keyword ''USDT'', Boundary]"

definition DIRECTION_PATTERN :: regex where
  "DIRECTION_PATTERN =
     seqs [Boundary, Group (alts [keyword ''LONG'', keyword ''SHORT'', keyword ''BUY'', keyword ''SELL'']), Boundary]"

text \<open>What follows every label: \<open>\s*[:\-]?\s*\$?([\d,]+\.?\d*)\<close>.\<close>

definition number_tail :: regex where
  "number_tail =
     seqs [many is_space, maybe (one_of '':-''), many is_space, maybe (one_of ''$''),
       Group (seqs [Rep digit_or_comma 1 None, maybe (one_of ''.''), many is_digit])]"

definition labelled :: "regex list \<Rightarrow> regex" where
  "labelled labels = seqs [Boundary, alts labels, Boundary, number_tail]"

definition ENTRY_PATTERN :: regex where "ENTRY_PATTERN = labelled [keyword ''ENTRY'']"

definition SL_PATTERN :: regex where
  "SL_PATTERN = labelled [keyword ''SL'', seqs [keyword ''STOP'', many is_space, keyword ''LOSS''], keyword ''STOPLOSS'']"

definition TP_PATTERN :: "char \<Rightarrow> regex" where
  "TP_PATTERN n = labelled
     [seqs [keyword ''TP'', many is_space, keyword [n]], keyword (''TP'' @ [n]),
      seqs [keyword ''TARGET'', many is_space, keyword [n]],
      seqs [keyword ''TAKE'', many is_space, keyword ''PROFIT'', many is_space, keyword [n]]]"

definition TP_BARE_PATTERN :: regex where "TP_BARE_PATTERN = labelled [keyword ''TP'']"

definition LEVERAGE_PATTERN :: regex where
  "LEVERAGE_PATTERN = seqs [Boundary, Group (Rep is_digit 1 (Some 3)), many is_space, keyword ''X'', Boundary]"

definition TIMEFRAME_PATTERN :: regex where
  "TIMEFRAME_PATTERN =
     seqs [Boundary, Group (alts (map keyword [''1M'', ''5M'', ''15M'', ''30M'', ''1H'', ''4H'', ''1D''])), Boundary]"

definition SYMBOL_END_PATTERN :: regex where
  "SYMBOL_END_PATTERN = seqs [maybe symbol_gap, keyword ''USDT'', At_end]"

lemmas pattern_defs = SYMBOL_PATTERN_def DIRECTION_PATTERN_def ENTRY_PATTERN_def SL_PATTERN_def TP_PATTERN_def
  TP_BARE_PATTERN_def LEVERAGE_PATTERN_def TIMEFRAME_PATTERN_def SYMBOL_END_PATTERN_def labelled_def number_tail_def

section \<open>Numbers and symbols\<close>

definition digit_value :: "char \<Rightarrow> int" where "digit_value c = int (of_char c) - 48"

definition digits_value :: "string \<Rightarrow> int" where
  "digits_value ds = foldl (\<lambda>n c. 10 * n + digit_value c) 0 ds"

text \<open>
  \<open>float(s.replace(",", ""))\<close> on what the patterns capture, digits with commas and at most one
  point: no digit at all is a \<open>ValueError\<close>, caught.
\<close>

definition to_number :: "string option \<Rightarrow> f64 option" where
  "to_number s = (case s of None \<Rightarrow> None
     | Some t \<Rightarrow>
         let u = filter (\<lambda>c. c \<noteq> CHR '','') t;
             whole = takeWhile (\<lambda>c. c \<noteq> CHR ''.'') u;
             part = filter (\<lambda>c. c \<noteq> CHR ''.'') (drop (length whole) u)
         in if whole @ part = [] then None
            else Some (fl (of_int (digits_value (whole @ part)) / 10 ^ length part)))"

definition normalize_symbol_string :: "string \<Rightarrow> string" where
  "normalize_symbol_string raw =
     (let s = str_strip raw;
          base = (case re_search SYMBOL_END_PATTERN s of None \<Rightarrow> s | Some m \<Rightarrow> rm_before m @ rm_after m)
      in str_upper base @ ''/USDT'')"

definition direction_normalize :: "string \<Rightarrow> string" where
  "direction_normalize d = (if d = ''LONG'' \<or> d = ''BUY'' then ''LONG'' else ''SHORT'')"

section \<open>The parser\<close>

datatype parse_reason =
    PR_EMPTY | PR_NO_SYMBOL | PR_CONFLICTING_DIRECTIONS | PR_NO_DIRECTION | PR_UNSUPPORTED
  | PR_MISSING "string list" | PR_STRUCTURE
  | PR_NO_PRICE | PR_NON_POSITIVE | PR_TOO_FAR

record parsed_signal =
  ps_status :: string
  ps_reject :: "parse_reason option"
  ps_raw_symbol :: "string option"
  ps_symbol :: "string option"
  ps_direction :: "string option"
  ps_entry_price :: "f64 option"
  ps_stop_loss :: "f64 option"
  ps_take_profit_1 :: "f64 option"
  ps_take_profit_2 :: "f64 option"
  ps_take_profit_3 :: "f64 option"
  ps_leverage_stated :: "int option"
  ps_timeframe_stated :: "string option"

definition bare_parse :: "string \<Rightarrow> parse_reason \<Rightarrow> string option \<Rightarrow> string option \<Rightarrow> parsed_signal" where
  "bare_parse status reason raw symbol =
     \<lparr>ps_status = status, ps_reject = Some reason, ps_raw_symbol = raw, ps_symbol = symbol, ps_direction = None,
      ps_entry_price = None, ps_stop_loss = None, ps_take_profit_1 = None, ps_take_profit_2 = None,
      ps_take_profit_3 = None, ps_leverage_stated = None, ps_timeframe_stated = None\<rparr>"

definition missing_fields :: "f64 option \<Rightarrow> f64 option \<Rightarrow> f64 option \<Rightarrow> string list" where
  "missing_fields entry sl tp1 =
     map fst (filter (\<lambda>f. snd f = None) [(''entry'', entry), (''stop_loss'', sl), (''take_profit_1'', tp1)])"

definition valid_structure :: "string \<Rightarrow> f64 \<Rightarrow> f64 \<Rightarrow> f64 list \<Rightarrow> bool" where
  "valid_structure direction entry sl targets =
     (if direction = ''LONG'' then sl < entry \<and> list_all (\<lambda>t. t > entry) targets
      else sl > entry \<and> list_all (\<lambda>t. t < entry) targets)"

text \<open>The first target: the numbered label, or the bare one when no numbered label matched at all.\<close>

definition first_target :: "string \<Rightarrow> re_match option" where
  "first_target text =
     (let tp1 = re_search (TP_PATTERN CHR ''1'') text; tp2 = re_search (TP_PATTERN CHR ''2'') text;
          tp3 = re_search (TP_PATTERN CHR ''3'') text
      in if tp1 = None \<and> tp2 = None \<and> tp3 = None then re_search TP_BARE_PATTERN text else tp1)"

definition judge_signal :: "string list \<Rightarrow> parsed_signal \<Rightarrow> parsed_signal" where
  "judge_signal supported p =
     (let missing = missing_fields (ps_entry_price p) (ps_stop_loss p) (ps_take_profit_1 p)
      in if the (ps_symbol p) \<notin> set supported
         then p\<lparr>ps_status := ''UNSUPPORTED_SYMBOL'', ps_reject := Some PR_UNSUPPORTED\<rparr>
         else if missing \<noteq> [] then p\<lparr>ps_status := ''INCOMPLETE'', ps_reject := Some (PR_MISSING missing)\<rparr>
         else if \<not> valid_structure (the (ps_direction p)) (the (ps_entry_price p)) (the (ps_stop_loss p))
             (List.map_filter id [ps_take_profit_1 p, ps_take_profit_2 p, ps_take_profit_3 p])
         then p\<lparr>ps_status := ''INVALID'', ps_reject := Some PR_STRUCTURE\<rparr>
         else p\<lparr>ps_status := ''VALID'', ps_reject := None\<rparr>)"

definition parse_external_signal :: "string \<Rightarrow> string list \<Rightarrow> parsed_signal" where
  "parse_external_signal text supported =
     (if str_strip text = [] then bare_parse ''INVALID'' PR_EMPTY None None
      else case re_search SYMBOL_PATTERN text of
        None \<Rightarrow> bare_parse ''INVALID'' PR_NO_SYMBOL None None
      | Some symbol_match \<Rightarrow>
          let raw_symbol = rm_text symbol_match;
              symbol = normalize_symbol_string raw_symbol;
              directions = re_findall DIRECTION_PATTERN text
          in if length (remdups (map str_upper directions)) > 1
             then bare_parse ''AMBIGUOUS'' PR_CONFLICTING_DIRECTIONS (Some raw_symbol) (Some symbol)
             else if directions = [] then bare_parse ''INCOMPLETE'' PR_NO_DIRECTION (Some raw_symbol) (Some symbol)
             else judge_signal supported
               \<lparr>ps_status = [], ps_reject = None, ps_raw_symbol = Some raw_symbol, ps_symbol = Some symbol,
                ps_direction = Some (direction_normalize (str_upper (hd directions))),
                ps_entry_price = to_number (group1 (re_search ENTRY_PATTERN text)),
                ps_stop_loss = to_number (group1 (re_search SL_PATTERN text)),
                ps_take_profit_1 = to_number (group1 (first_target text)),
                ps_take_profit_2 = to_number (group1 (re_search (TP_PATTERN CHR ''2'') text)),
                ps_take_profit_3 = to_number (group1 (re_search (TP_PATTERN CHR ''3'') text)),
                ps_leverage_stated = map_option digits_value (group1 (re_search LEVERAGE_PATTERN text)),
                ps_timeframe_stated = map_option str_lower (group1 (re_search TIMEFRAME_PATTERN text))\<rparr>)"

section \<open>Lemmas\<close>

lemma class_upper [simp]:
  "symbol_gap (upper_char c) = symbol_gap c" "digit_or_comma (upper_char c) = digit_or_comma c"
  "one_of '':-'' (upper_char c) = one_of '':-'' c" "one_of ''$'' (upper_char c) = one_of ''$'' c"
  "one_of ''.'' (upper_char c) = one_of ''.'' c"
proof -
  have one: "one_of [k] (upper_char c) = one_of [k] c" if "\<not> is_letter k" for k using that by (intro one_of_upper) simp
  have eq: "(upper_char c = k) = (c = k)" if "\<not> is_letter k" for k using one [OF that] by (simp add: one_of_def)
  have k: "\<not> is_letter CHR '':''" "\<not> is_letter CHR ''-''" "\<not> is_letter CHR ''$''" "\<not> is_letter CHR ''.''"
    "\<not> is_letter CHR ''/''" "\<not> is_letter CHR '',''" by (simp_all add: is_letter_def)
  show "symbol_gap (upper_char c) = symbol_gap c" "digit_or_comma (upper_char c) = digit_or_comma c"
    "one_of '':-'' (upper_char c) = one_of '':-'' c" "one_of ''$'' (upper_char c) = one_of ''$'' c"
    "one_of ''.'' (upper_char c) = one_of ''.'' c"
    by (simp_all add: symbol_gap_def digit_or_comma_def one_of_def eq k)
qed

lemma patterns_caseless [simp]:
  "caseless SYMBOL_PATTERN" "caseless DIRECTION_PATTERN" "caseless ENTRY_PATTERN" "caseless SL_PATTERN"
  "caseless (TP_PATTERN n)" "caseless TP_BARE_PATTERN" "caseless LEVERAGE_PATTERN" "caseless TIMEFRAME_PATTERN"
  "caseless SYMBOL_END_PATTERN"
  by (auto simp: pattern_defs)

lemma direction_grouped: "grouped DIRECTION_PATTERN"
  by (simp add: DIRECTION_PATTERN_def)

lemma numbers_captured:
  "captures (\<lambda>c. \<not> is_letter c) ENTRY_PATTERN" "captures (\<lambda>c. \<not> is_letter c) SL_PATTERN"
  "captures (\<lambda>c. \<not> is_letter c) (TP_PATTERN n)" "captures (\<lambda>c. \<not> is_letter c) TP_BARE_PATTERN"
  "captures (\<lambda>c. \<not> is_letter c) LEVERAGE_PATTERN"
proof -
  have "\<not> is_letter c" if "is_digit c" for c using that by (auto simp: is_digit_def is_letter_def less_eq_char_def)
  moreover have "\<not> is_letter CHR '',''" "\<not> is_letter CHR ''.''" by (simp_all add: is_letter_def)
  ultimately have c: "\<not> is_letter c" if "is_digit c \<or> digit_or_comma c \<or> one_of ''.'' c" for c
    using that by (auto simp: digit_or_comma_def one_of_def)
  show "captures (\<lambda>c. \<not> is_letter c) ENTRY_PATTERN" "captures (\<lambda>c. \<not> is_letter c) SL_PATTERN"
    "captures (\<lambda>c. \<not> is_letter c) (TP_PATTERN n)" "captures (\<lambda>c. \<not> is_letter c) TP_BARE_PATTERN"
    "captures (\<lambda>c. \<not> is_letter c) LEVERAGE_PATTERN"
    by (auto simp: ENTRY_PATTERN_def SL_PATTERN_def TP_PATTERN_def TP_BARE_PATTERN_def LEVERAGE_PATTERN_def
        labelled_def number_tail_def c)
qed

lemma number_upper:
  "caseless x \<Longrightarrow> captures (\<lambda>c. \<not> is_letter c) x \<Longrightarrow> group1 (re_search x (str_upper t)) = group1 (re_search x t)"
  using captures_search [of x t] str_upper_no_letters
  by (cases "group1 (re_search x t)") (auto simp: re_search_upper group1_upper)

lemma search_none_upper: "caseless x \<Longrightarrow> re_search x (str_upper t) = None \<longleftrightarrow> re_search x t = None"
  by (simp add: re_search_upper)

lemma first_target_upper: "group1 (first_target (str_upper t)) = group1 (first_target t)"
  using numbers_captured by (simp add: first_target_def Let_def search_none_upper number_upper)

lemma normalize_upper: "normalize_symbol_string (str_upper raw) = normalize_symbol_string raw"
  by (cases "re_search SYMBOL_END_PATTERN (str_strip raw)")
     (simp_all add: normalize_symbol_string_def Let_def re_search_upper upper_match_def)

lemma judge_raw: "judge_signal supported (p\<lparr>ps_raw_symbol := x\<rparr>) = judge_signal supported p\<lparr>ps_raw_symbol := x\<rparr>"
  by (simp add: judge_signal_def Let_def)

lemma judge_fields [simp]:
  "ps_symbol (judge_signal supported p) = ps_symbol p" "ps_direction (judge_signal supported p) = ps_direction p"
  "ps_entry_price (judge_signal supported p) = ps_entry_price p" "ps_stop_loss (judge_signal supported p) = ps_stop_loss p"
  "ps_take_profit_1 (judge_signal supported p) = ps_take_profit_1 p"
  "ps_take_profit_2 (judge_signal supported p) = ps_take_profit_2 p"
  "ps_take_profit_3 (judge_signal supported p) = ps_take_profit_3 p"
  by (simp_all add: judge_signal_def Let_def)

lemma judge_valid:
  "ps_status (judge_signal supported p) = ''VALID'' \<longleftrightarrow>
     the (ps_symbol p) \<in> set supported \<and>
     missing_fields (ps_entry_price p) (ps_stop_loss p) (ps_take_profit_1 p) = [] \<and>
     valid_structure (the (ps_direction p)) (the (ps_entry_price p)) (the (ps_stop_loss p))
       (List.map_filter id [ps_take_profit_1 p, ps_take_profit_2 p, ps_take_profit_3 p])"
  by (simp add: judge_signal_def Let_def)

lemma missing_none: "missing_fields a b c = [] \<longleftrightarrow> a \<noteq> None \<and> b \<noteq> None \<and> c \<noteq> None"
  by (auto simp: missing_fields_def)

lemma remdups_single: "length (remdups xs) \<le> 1 \<longleftrightarrow> (\<forall>x \<in> set xs. \<forall>y \<in> set xs. x = y)"
proof -
  have "length (remdups xs) = card (set xs)" by (rule length_remdups_card_conv)
  then show ?thesis by (simp add: card_le_Suc0_iff_eq)
qed

section \<open>Properties\<close>

text \<open>
  C35: A valid signal is complete and well formed.  If a message parses as VALID then its symbol is a
  supported one, all direction keywords in the text are one and the same up to letter case and
  give the direction, entry, stop and first target are stated, and the stop is on the losing side
  of the entry while every stated target is on the winning side; a message without a direction
  keyword, or with two different ones, never carries a price.
\<close>

theorem parse_valid_sound:
  fixes text_of_message :: string and supported :: "string list"
  defines "p \<equiv> parse_external_signal text_of_message supported"
    and "keywords \<equiv> map str_upper (re_findall DIRECTION_PATTERN text_of_message)"
  shows "(ps_status p = ''VALID'' \<longrightarrow>
     (\<exists>symbol keyword entry sl tp. ps_symbol p = Some symbol \<and> symbol \<in> set supported \<and>
        set keywords = {keyword} \<and> ps_direction p = Some (direction_normalize keyword) \<and>
        ps_entry_price p = Some entry \<and> ps_stop_loss p = Some sl \<and> ps_take_profit_1 p = Some tp \<and>
        (\<forall>t. Some t \<in> {Some tp, ps_take_profit_2 p, ps_take_profit_3 p} \<longrightarrow>
           (if direction_normalize keyword = ''LONG'' then sl < entry \<and> entry < t else t < entry \<and> entry < sl)))) \<and>
   (card (set keywords) \<noteq> 1 \<longrightarrow> ps_entry_price p = None \<and> ps_stop_loss p = None \<and> ps_take_profit_1 p = None)"
proof (cases "str_strip text_of_message = [] \<or> re_search SYMBOL_PATTERN text_of_message = None \<or>
    length (remdups keywords) > 1 \<or> keywords = []")
  case True
  then have "ps_status p \<noteq> ''VALID'' \<and> ps_entry_price p = None \<and> ps_stop_loss p = None \<and> ps_take_profit_1 p = None"
    by (auto simp: p_def keywords_def parse_external_signal_def bare_parse_def Let_def split: option.splits)
  then show ?thesis by simp
next
  case False
  then obtain m where m: "re_search SYMBOL_PATTERN text_of_message = Some m" by auto
  obtain q where p: "p = judge_signal supported q" and dir: "ps_direction q = Some (direction_normalize (hd keywords))"
    and sym: "ps_symbol q \<noteq> None"
    using False m by (auto simp: p_def keywords_def parse_external_signal_def Let_def hd_map)
  have "\<forall>x \<in> set keywords. \<forall>y \<in> set keywords. x = y" using False by (simp only: remdups_single [symmetric]) linarith
  then have one: "set keywords = {hd keywords}" using False
    by (cases "map str_upper (re_findall DIRECTION_PATTERN text_of_message)") (auto simp: keywords_def)
  then show ?thesis using dir sym
    by (auto simp: p judge_valid missing_none valid_structure_def List.map_filter_def split: if_splits option.splits)
qed

theorem parse_valid_sound_witness:
  "ps_status (parse_external_signal ''BTCUSDT BUY entry 2 SL 1 TP 3'' [''BTC/USDT'']) = ''VALID'' \<and>
   (\<exists>symbol. ps_symbol (parse_external_signal ''BTCUSDT BUY entry 2 SL 1 TP 3'' [''BTC/USDT'']) = Some symbol \<and>
      symbol \<in> set [''BTC/USDT''])"
proof -
  have v: "ps_status (parse_external_signal ''BTCUSDT BUY entry 2 SL 1 TP 3'' [''BTC/USDT'']) = ''VALID''" by code_simp
  show ?thesis using parse_valid_sound [of "''BTCUSDT BUY entry 2 SL 1 TP 3''" "[''BTC/USDT'']"] v by blast
qed

text \<open>
  Letter case does not matter.  A message written in capitals parses to the same status, reason,
  symbol, direction, prices, leverage and time frame as the original; only the raw symbol is in
  capitals too.
\<close>

theorem parse_ignores_case:
  "parse_external_signal (str_upper t) supported =
     (parse_external_signal t supported)
       \<lparr>ps_raw_symbol := map_option str_upper (ps_raw_symbol (parse_external_signal t supported))\<rparr>"
proof (cases "str_strip t = [] \<or> re_search SYMBOL_PATTERN t = None")
  case True
  then show ?thesis
    by (auto simp: parse_external_signal_def bare_parse_def re_search_upper split: option.splits)
next
  case False
  then obtain m where m: "re_search SYMBOL_PATTERN t = Some m" by auto
  have raw: "rm_text (upper_match m) = str_upper (rm_text m)" by (simp add: upper_match_def)
  have dirs: "map str_upper (re_findall DIRECTION_PATTERN (str_upper t)) = map str_upper (re_findall DIRECTION_PATTERN t)"
    "(re_findall DIRECTION_PATTERN (str_upper t) = []) = (re_findall DIRECTION_PATTERN t = [])"
    by (simp_all add: re_findall_upper direction_grouped)
  have hd: "str_upper (hd (re_findall DIRECTION_PATTERN (str_upper t))) = str_upper (hd (re_findall DIRECTION_PATTERN t))"
    if "re_findall DIRECTION_PATTERN t \<noteq> []" using that by (simp add: re_findall_upper direction_grouped hd_map)
  have tf: "map_option str_lower (group1 (re_search TIMEFRAME_PATTERN (str_upper t))) =
      map_option str_lower (group1 (re_search TIMEFRAME_PATTERN t))"
    by (simp add: re_search_upper group1_upper option.map_comp comp_def)
  have sm: "re_search SYMBOL_PATTERN (str_upper t) = Some (upper_match m)" by (simp add: re_search_upper m)
  have jr: "judge_signal supported p\<lparr>ps_raw_symbol := map_option str_upper (ps_raw_symbol (judge_signal supported p))\<rparr> =
      judge_signal supported (p\<lparr>ps_raw_symbol := map_option str_upper (ps_raw_symbol p)\<rparr>)" for p
    by (simp add: judge_signal_def Let_def)
  show ?thesis using False
    by (simp add: parse_external_signal_def m sm raw dirs hd tf jr Let_def normalize_upper number_upper numbers_captured
        first_target_upper bare_parse_def)
qed

text \<open>
  A first target of a thousand and something is misread.  The bare label \<open>TP 1,200\<close> matches the
  numbered pattern of the first target, whose own number is taken for the 1 of the amount: the
  parsed target is 200, and a short entry at 1250.50 with it is VALID.  Without the comma the
  amount is read as stated.
\<close>

theorem parse_target_leading_one:
  "to_number (group1 (first_target ''TP 1,200'')) = Some 200 \<and>
   to_number (group1 (first_target ''TP 1200'')) = Some 1200 \<and>
   ps_status (parse_external_signal ''ETHUSDT short entry 1,250 SL 1,400 TP 1,200'' [''ETH/USDT'']) = ''VALID'' \<and>
   ps_take_profit_1 (parse_external_signal ''ETHUSDT short entry 1,250 SL 1,400 TP 1,200'' [''ETH/USDT'']) = Some 200"
  by (intro conjI) code_simp+

end
