(* ===== verification/TelegramPipeline.thy ===== *)
theory TelegramPipeline
  imports SignalParser LiveExecution PaperPersistence FixedMargin
begin

text \<open>
  \<open>services/telegram_signals/ingestion.py\<close>, \<open>paper_execution.py\<close>, \<open>live_state.py\<close>, \<open>pipeline.py\<close> and
  \<open>services/live_execution/wiring.py\<close>: one message of the external channel, from its delivery to a
  paper position and, when automatic trading is on, a live candidate.  Generated identifiers, the
  clock and the replies of remote services are arguments.
\<close>

section \<open>Ingestion\<close>

definition MAX_INGEST_DEVIATION_PCT :: f64 where "MAX_INGEST_DEVIATION_PCT = 1"

definition strip_at :: "string \<Rightarrow> string" where "strip_at s = dropWhile (\<lambda>c. c = CHR ''@'') s"

definition is_authorized_channel :: "settings \<Rightarrow> string \<Rightarrow> string option \<Rightarrow> bool" where
  "is_authorized_channel st source_channel source_channel_id =
     (let configured_id = str_strip (st_signal_channel_id st)
      in case source_channel_id of
           Some i \<Rightarrow> if configured_id \<noteq> [] then str_strip i = configured_id
                     else str_lower (strip_at source_channel) = str_lower (strip_at (st_signal_channel st))
         | None \<Rightarrow> str_lower (strip_at source_channel) = str_lower (strip_at (st_signal_channel st)))"

record delivery =
  dv_channel :: string
  dv_channel_id :: "string option"
  dv_message_id :: string
  dv_timestamp :: datetime
  dv_text :: string
  dv_edited :: "datetime option"

definition delivery_key :: "delivery \<Rightarrow> string \<times> string" where
  "delivery_key v = (dv_channel v, dv_message_id v)"

definition newer_edit :: "datetime option \<Rightarrow> datetime option \<Rightarrow> bool" where
  "newer_edit edited stored =
     (case edited of None \<Rightarrow> False | Some e \<Rightarrow> (case stored of None \<Rightarrow> True | Some s \<Rightarrow> e > s))"

definition new_message :: "string \<Rightarrow> delivery \<Rightarrow> telegram_message" where
  "new_message i v = \<lparr>tm_id = i, tm_source_channel = dv_channel v, tm_source_channel_id = dv_channel_id v,
     tm_telegram_message_id = dv_message_id v, tm_message_timestamp = dv_timestamp v,
     tm_edited_timestamp = None, tm_text = dv_text v, tm_edited_text = None\<rparr>"

definition ingest_message :: "string \<Rightarrow> delivery \<Rightarrow> db \<Rightarrow> (telegram_message \<times> db) result" where
  "ingest_message i v d =
     (case lookup_by message_key (delivery_key v) (db_messages d) of
        Some m \<Rightarrow>
          if newer_edit (dv_edited v) (tm_edited_timestamp m)
          then let m' = m\<lparr>tm_edited_text := Some (dv_text v), tm_edited_timestamp := dv_edited v\<rparr>
               in Inr (m', d\<lparr>db_messages := update_where (\<lambda>x. message_key x = delivery_key v) (\<lambda>_. m') (db_messages d)\<rparr>)
          else Inr (m, d)
      | None \<Rightarrow> (case insert_message (new_message i v) d of
          Inl x \<Rightarrow> Inl x | Inr d' \<Rightarrow> Inr (new_message i v, d')))"

definition classify_entry_deviation :: "f64 \<Rightarrow> f64 option \<Rightarrow> string \<times> parse_reason option" where
  "classify_entry_deviation entry_price current_price =
     (case current_price of
        None \<Rightarrow> (''ENTRY_STALE'', Some PR_NO_PRICE)
      | Some p \<Rightarrow>
          if p \<le> 0 \<or> entry_price \<le> 0 then (''ENTRY_INVALID'', Some PR_NON_POSITIVE)
          else if fmul (fdiv \<bar>fsub entry_price p\<bar> p) 100 > MAX_INGEST_DEVIATION_PCT
            then (''ENTRY_TOO_FAR'', Some PR_TOO_FAR)
          else (''ENTRY_VALID'', None))"

definition signal_row :: "string \<Rightarrow> datetime \<Rightarrow> telegram_message \<Rightarrow> parsed_signal \<Rightarrow> f64 option \<Rightarrow> external_signal" where
  "signal_row i now m p price =
     \<lparr>es_id = i, es_message_id = tm_id m, es_source_channel = tm_source_channel m, es_status = ps_status p,
      es_raw_symbol = ps_raw_symbol p, es_symbol = ps_symbol p, es_direction = ps_direction p,
      es_entry_price = ps_entry_price p, es_stop_loss = ps_stop_loss p,
      es_take_profit_1 = ps_take_profit_1 p, es_take_profit_2 = ps_take_profit_2 p,
      es_take_profit_3 = ps_take_profit_3 p, es_leverage_stated = ps_leverage_stated p,
      es_timeframe_stated = ps_timeframe_stated p, es_market_price_at_validation = price,
      es_trade_id = None, es_created_at = Some now\<rparr>"

definition no_signal :: parsed_signal where
  "no_signal = \<lparr>ps_status = ''REJECTED_UNAUTHORIZED_SOURCE'', ps_reject = None, ps_raw_symbol = None,
     ps_symbol = None, ps_direction = None, ps_entry_price = None, ps_stop_loss = None, ps_take_profit_1 = None,
     ps_take_profit_2 = None, ps_take_profit_3 = None, ps_leverage_stated = None, ps_timeframe_stated = None\<rparr>"

definition message_text :: "telegram_message \<Rightarrow> string" where
  "message_text m = text_or (tm_edited_text m) (tm_text m)"

definition process_message ::
  "settings \<Rightarrow> string \<Rightarrow> datetime \<Rightarrow> telegram_message \<Rightarrow> string list \<Rightarrow> (string \<Rightarrow> f64 option) option \<Rightarrow> db
     \<Rightarrow> external_signal \<times> db" where
  "process_message st i now m supported price_lookup d =
     (let row = (if \<not> is_authorized_channel st (tm_source_channel m) (tm_source_channel_id m)
                 then signal_row i now m no_signal None
                 else let p = parse_external_signal (message_text m) supported
                      in case price_lookup of
                           Some look \<Rightarrow>
                             if ps_status p = ''VALID''
                             then let price = look (the (ps_symbol p));
                                      (status, reason) = classify_entry_deviation (the (ps_entry_price p)) price
                                  in signal_row i now m
                                       (if status \<noteq> ''ENTRY_VALID''
                                        then p\<lparr>ps_status := status, ps_reject := reason\<rparr> else p) price
                             else signal_row i now m p None
                         | None \<Rightarrow> signal_row i now m p None)
      in (row, d\<lparr>db_external_signals := db_external_signals d @ [row]\<rparr>))"

section \<open>The live path\<close>

text \<open>What the account provider and the public ticker return while one message is processed.\<close>

record remote =
  rm_account_ok :: bool
  rm_ticker :: "(string \<times> ticker) list option"
  rm_clock :: f64
  rm_live_ticker :: "(string \<times> ticker) list option"
  rm_live_clock :: f64
  rm_metadata :: "instrument option"
  rm_account_rate :: "f64 option"
  rm_equity :: "f64 option"
  rm_inr_rate :: "conversion_rate option"

definition wiring_candidate :: "external_signal \<Rightarrow> remote \<Rightarrow> live_candidate" where
  "wiring_candidate sg net =
     (let a = hd (check_instrument_availability (rm_live_clock net) (rm_live_ticker net) [the (es_symbol sg)])
      in \<lparr>lc_source = ''TELEGRAM_EXTERNAL'', lc_symbol = the (es_symbol sg), lc_direction = the (es_direction sg),
          lc_entry_price = the (es_entry_price sg), lc_stop_loss = es_stop_loss sg,
          lc_take_profit_1 = es_take_profit_1 sg, lc_take_profit_2 = es_take_profit_2 sg,
          lc_take_profit_3 = es_take_profit_3 sg, lc_signal_timestamp = es_created_at sg,
          lc_signal_id = Some (es_id sg), lc_instrument = Some (av_instrument a),
          lc_instrument_eligible =
            (the (es_symbol sg) \<in> set DEFAULT_WHITELIST \<and> the (es_symbol sg) \<in> set RESEARCHED_SYMBOLS),
          lc_current_market_price = av_last_price a, lc_instrument_metadata = rm_metadata net\<rparr>)"

definition wiring_inputs :: "external_signal \<Rightarrow> remote \<Rightarrow> datetime \<Rightarrow> db \<Rightarrow> gate_inputs" where
  "wiring_inputs sg net now d =
     (let a = hd (check_instrument_availability (rm_live_clock net) (rm_live_ticker net) [the (es_symbol sg)])
      in \<lparr>gi_usdt_inr_rate = rm_account_rate net,
          gi_market_data_healthy = (av_available a \<and> is_fresh a),
          gi_coindcx_account_healthy = rm_account_ok net,
          gi_daily_loss_ok = dl_approved (check_daily_loss_limit d (rm_equity net) now DEFAULT_MAX_DAILY_LOSS_PCT),
          gi_reconciliation_ok = fst (get_last_reconciliation_status d)\<rparr>)"

definition maybe_attempt_live_execution ::
  "settings \<Rightarrow> external_signal \<Rightarrow> remote \<Rightarrow> datetime \<Rightarrow> db \<Rightarrow> live_execution option \<times> db" where
  "maybe_attempt_live_execution st sg net now d =
     (if \<not> st_automatic_trading_enabled st then (None, d)
      else let (row, d') = process_live_execution_candidate st (wiring_candidate sg net) (wiring_inputs sg net now d) now d
           in (Some row, d'))"

section \<open>The paper path\<close>

definition MAX_CONCURRENT_POSITIONS :: int where "MAX_CONCURRENT_POSITIONS = 20"

definition multi_coin_paper_trader :: "date \<Rightarrow> paper_trader" where
  "multi_coin_paper_trader today =
     new_paper_trader (default_risk_config\<lparr>rc_max_positions := MAX_CONCURRENT_POSITIONS\<rparr>) 10000 today"

datatype execution_reason = XR_OK | XR_NOT_VALID | XR_ALREADY_OPEN string | XR_REFUSED fm_reason

definition telegram_position :: "external_signal \<Rightarrow> datetime \<Rightarrow> fixed_margin_sizing \<Rightarrow> paper_position" where
  "telegram_position sg now sizing =
     new_position (''TG-'' @ es_id sg) (es_id sg) (the (es_direction sg)) (the (es_entry_price sg))
       (case es_created_at sg of None \<Rightarrow> now | Some t \<Rightarrow> t) (the (es_stop_loss sg))
       (es_take_profit_1 sg) (es_take_profit_2 sg) (es_take_profit_3 sg)
       (fs_quantity sizing) (fs_leverage sizing) ''UNKNOWN'' (Some (''TELEGRAM:'' @ es_source_channel sg))"

text \<open>
  The position enters the book and the risk counters before the row is written; a failed insert
  raises with both changed.
\<close>

definition execute_valid_signal ::
  "external_signal \<Rightarrow> f64 option \<Rightarrow> datetime \<Rightarrow> paper_trader \<times> db
     \<Rightarrow> (paper_position option \<times> execution_reason) result \<times> paper_trader \<times> db" where
  "execute_valid_signal sg rate now s =
     (let (tr, d) = s
      in if es_status sg \<noteq> ''VALID'' then (Inr (None, XR_NOT_VALID), tr, d)
         else case get_open_paper_trade d (the (es_symbol sg)) (Some SRC_TELEGRAM_EXTERNAL) of
           Some t \<Rightarrow> (Inr (None, XR_ALREADY_OPEN (tr_trade_id t)), tr, d)
         | None \<Rightarrow>
             let check = check_fixed_margin_trade d (es_entry_price sg) rate now
             in if \<not> fc_approved check then (Inr (None, XR_REFUSED (fc_reason check)), tr, d)
                else let p = telegram_position sg now (the (fc_sizing check));
                         tr = put_position (pp_trade_id p) p tr;
                         tr = tr\<lparr>pt_risk := record_position_open (pt_risk tr)\<rparr>
                     in case persist_paper_open p (the (es_symbol sg)) SRC_TELEGRAM_EXTERNAL d of
                          Inl x \<Rightarrow> (Inl x, tr, d)
                        | Inr (_, d') \<Rightarrow>
                            (Inr (Some p, XR_OK), tr, d'\<lparr>db_external_signals :=
                               update_where (\<lambda>r. es_id r = es_id sg) (\<lambda>r. r\<lparr>es_trade_id := Some (pp_trade_id p)\<rparr>)
                                 (db_external_signals d')\<rparr>))"

section \<open>The pipeline\<close>

definition price_lookup :: "remote \<Rightarrow> string \<Rightarrow> f64 option" where
  "price_lookup net symbol =
     (let a = hd (check_instrument_availability (rm_clock net) (rm_ticker net) [symbol])
      in if av_available a then av_last_price a else None)"

record pipeline_ids =
  pi_message :: string
  pi_signal :: string

definition process_incoming_channel_message ::
  "settings \<Rightarrow> remote \<Rightarrow> datetime \<Rightarrow> pipeline_ids \<Rightarrow> delivery \<Rightarrow> paper_trader \<times> db
     \<Rightarrow> external_signal option result \<times> paper_trader \<times> db" where
  "process_incoming_channel_message st net now uids v s =
     (let (tr, d) = s
      in if \<not> is_authorized_channel st (dv_channel v) (dv_channel_id v) then (Inr None, tr, d)
         else case ingest_message (pi_message uids) v d of
           Inl x \<Rightarrow> (Inl x, tr, d)
         | Inr (m, d) \<Rightarrow>
             let (sg, d) = process_message st (pi_signal uids) now m DEFAULT_WHITELIST (Some (price_lookup net)) d
             in if es_status sg \<noteq> ''VALID'' then (Inr (Some sg), tr, d)
                else let (_, d) = maybe_attempt_live_execution st sg net now d
                     in case execute_valid_signal sg (map_option cv_rate (rm_inr_rate net)) now (tr, d) of
                          (Inl x, tr, d) \<Rightarrow> (Inl x, tr, d)
                        | (Inr (None, _), tr, d) \<Rightarrow> (Inr (Some sg), tr, d)
                        | (Inr (Some p, _), tr, d) \<Rightarrow> (Inr (Some (sg\<lparr>es_trade_id := Some (pp_trade_id p)\<rparr>)), tr, d))"

section \<open>Ingestion keeps the history of a message\<close>

fun ingest_all :: "(string \<times> delivery) list \<Rightarrow> db \<Rightarrow> db result" where
  "ingest_all [] d = Inr d"
| "ingest_all ((i, v) # vs) d = (case ingest_message i v d of Inl x \<Rightarrow> Inl x | Inr (_, d') \<Rightarrow> ingest_all vs d')"

definition message_of :: "(string \<times> string) \<Rightarrow> db \<Rightarrow> telegram_message option" where
  "message_of k d = lookup_by message_key k (db_messages d)"

lemma new_message_key [simp]: "message_key (new_message i v) = delivery_key v"
  by (simp add: message_key_def delivery_key_def new_message_def)

lemma message_key_edit [simp]: "message_key (m\<lparr>tm_edited_text := t, tm_edited_timestamp := e\<rparr>) = message_key m"
  by (simp add: message_key_def)

lemma lookup_set_row:
  assumes "lookup_by key k rows = Some r" "key r' = k"
  shows "lookup_by key k0 (update_where (\<lambda>x. key x = k) (\<lambda>_. r') rows) =
    (if k0 = k then Some r' else lookup_by key k0 rows)"
proof (cases "k0 = k")
  case True
  then show ?thesis using assms by (induction rows) (auto simp: lookup_by_def split: if_splits)
next
  case False
  then show ?thesis using assms(2) by (induction rows) (auto simp: lookup_by_def)
qed

text \<open>What one delivery does to the table.\<close>

definition edited_message :: "delivery \<Rightarrow> telegram_message \<Rightarrow> telegram_message" where
  "edited_message v m = (if newer_edit (dv_edited v) (tm_edited_timestamp m)
     then m\<lparr>tm_edited_text := Some (dv_text v), tm_edited_timestamp := dv_edited v\<rparr> else m)"

lemma ingest_message_effect:
  obtains m d' where "ingest_message i v d = Inr (m, d')"
    "d' = d\<lparr>db_messages := db_messages d'\<rparr>"
    "m = (case message_of (delivery_key v) d of None \<Rightarrow> new_message i v | Some m0 \<Rightarrow> edited_message v m0)"
    "message_of k d' = (if k = delivery_key v then Some m else message_of k d)"
    "distinct (map message_key (db_messages d)) \<longrightarrow> distinct (map message_key (db_messages d'))"
proof (cases "message_of (delivery_key v) d")
  case None
  then have "\<exists>d'. insert_message (new_message i v) d = Inr d'"
    using messages.add_row_iff [of "new_message i v" d] by (simp add: message_of_def)
  then obtain d' where d': "insert_message (new_message i v) d = Inr d'" by blast
  have frame: "d' = d\<lparr>db_messages := db_messages d'\<rparr>" using d' by (auto simp: insert_defs split: if_splits)
  show ?thesis
    by (rule that [of "new_message i v" d'])
       (use None d' frame messages.lookup_added [OF d'] messages.lookup_other [OF d', of k] messages.add_row_distinct [OF d']
        in \<open>auto simp: ingest_message_def message_of_def\<close>)
next
  case (Some m)
  then have k: "message_key m = delivery_key v" by (auto simp: message_of_def dest: lookup_by_Some)
  let ?d = "if newer_edit (dv_edited v) (tm_edited_timestamp m)
    then d\<lparr>db_messages := update_where (\<lambda>x. message_key x = delivery_key v) (\<lambda>_. edited_message v m) (db_messages d)\<rparr> else d"
  have key: "message_key (edited_message v m) = delivery_key v" by (simp add: edited_message_def k)
  have upd: "lookup_by message_key k (update_where (\<lambda>x. message_key x = delivery_key v) (\<lambda>_. edited_message v m) (db_messages d)) =
      (if k = delivery_key v then Some (edited_message v m) else lookup_by message_key k (db_messages d))"
    using Some key by (intro lookup_set_row) (simp_all add: message_of_def)
  have dist: "map message_key (update_where (\<lambda>x. message_key x = delivery_key v) (\<lambda>_. edited_message v m) (db_messages d)) =
      map message_key (db_messages d)"
    by (rule map_update_where) (simp add: key)
  have ing: "ingest_message i v d = Inr (edited_message v m, ?d)"
    using Some by (simp add: ingest_message_def message_of_def edited_message_def Let_def)
  show ?thesis
    by (rule that [OF ing]) (use Some upd dist in \<open>auto simp: message_of_def edited_message_def\<close>)
qed

definition records_history :: "delivery list \<Rightarrow> telegram_message option \<Rightarrow> bool" where
  "records_history vs row \<longleftrightarrow>
     (case vs of [] \<Rightarrow> row = None
      | v # later \<Rightarrow> (\<exists>m. row = Some m \<and> tm_text m = dv_text v \<and> tm_message_timestamp m = dv_timestamp v \<and>
          (tm_edited_timestamp m = None \<longrightarrow> tm_edited_text m = None) \<and>
          (\<forall>w e. w \<in> set later \<and> dv_edited w = Some e \<longrightarrow> (\<exists>t. tm_edited_timestamp m = Some t \<and> e \<le> t)) \<and>
          (\<forall>t. tm_edited_timestamp m = Some t \<longrightarrow>
             (\<exists>w \<in> set later. dv_edited w = Some t \<and> tm_edited_text m = Some (dv_text w)))))"

lemma records_history_next:
  assumes "records_history vs row"
  shows "records_history (vs @ [v]) (Some (case row of None \<Rightarrow> new_message i v | Some m \<Rightarrow> edited_message v m))"
proof (cases vs)
  case Nil
  then show ?thesis using assms by (simp add: records_history_def new_message_def)
next
  case (Cons v0 later)
  then obtain m where m: "row = Some m" "tm_text m = dv_text v0" "tm_message_timestamp m = dv_timestamp v0"
    "tm_edited_timestamp m = None \<longrightarrow> tm_edited_text m = None"
    "\<forall>w e. w \<in> set later \<and> dv_edited w = Some e \<longrightarrow> (\<exists>t. tm_edited_timestamp m = Some t \<and> e \<le> t)"
    "\<forall>t. tm_edited_timestamp m = Some t \<longrightarrow> (\<exists>w \<in> set later. dv_edited w = Some t \<and> tm_edited_text m = Some (dv_text w))"
    using assms by (auto simp: records_history_def)
  show ?thesis
  proof (cases "newer_edit (dv_edited v) (tm_edited_timestamp m)")
    case True
    then obtain e where e: "dv_edited v = Some e" by (auto simp: newer_edit_def split: option.splits)
    then show ?thesis using True m Cons
      by (auto simp: records_history_def edited_message_def newer_edit_def split: option.splits) fastforce+
  next
    case False
    then show ?thesis using m Cons
      by (auto simp: records_history_def edited_message_def newer_edit_def split: option.splits)
  qed
qed

lemma ingest_all_snoc:
  "ingest_all (vs @ [(i, v)]) d = (case ingest_all vs d of Inl x \<Rightarrow> Inl x
     | Inr d' \<Rightarrow> (case ingest_message i v d' of Inl x \<Rightarrow> Inl x | Inr (_, d'') \<Rightarrow> Inr d''))"
  by (induction vs arbitrary: d) (auto split: sum.splits prod.splits)

text \<open>
  C34: The message table is a faithful history.  After any sequence of deliveries nothing has failed,
  every channel message has exactly one row, which keeps the text and time of the first delivery;
  its edit is the text of a later delivery with the greatest edit time, and it has none exactly
  when no later delivery was an edit.
\<close>

theorem message_history:
  "\<exists>d. ingest_all vs empty_db = Inr d \<and> distinct (map message_key (db_messages d)) \<and>
     (\<forall>k. records_history (filter (\<lambda>v. delivery_key v = k) (map snd vs)) (message_of k d))"
proof (induction vs rule: rev_induct)
  case Nil
  then show ?case by (simp add: empty_db_def records_history_def message_of_def lookup_by_def)
next
  case (snoc iv vs)
  obtain i v where iv: "iv = (i, v)" by (cases iv)
  obtain d where d: "ingest_all vs empty_db = Inr d" "distinct (map message_key (db_messages d))"
    "\<And>k. records_history (filter (\<lambda>v. delivery_key v = k) (map snd vs)) (message_of k d)" using snoc by blast
  obtain m d' where m: "ingest_message i v d = Inr (m, d')" and dist: "distinct (map message_key (db_messages d'))"
    using d(2) by (rule_tac i = i and v = v and d = d and k = k in ingest_message_effect) blast
  have "records_history (filter (\<lambda>v. delivery_key v = k) (map snd (vs @ [(i, v)]))) (message_of k d')" for k
  proof (rule ingest_message_effect [of i v d k])
    fix m1 d1
    assume 1: "ingest_message i v d = Inr (m1, d1)"
      "m1 = (case message_of (delivery_key v) d of None \<Rightarrow> new_message i v | Some m0 \<Rightarrow> edited_message v m0)"
      "message_of k d1 = (if k = delivery_key v then Some m1 else message_of k d)"
    then show ?thesis using m d(3) [of k] records_history_next [OF d(3), of "delivery_key v" v i] by auto
  qed
  then show ?case using d(1) m dist by (auto simp: iv ingest_all_snoc)
qed

section \<open>Lemmas on the pipeline\<close>

lemma process_message_frame:
  assumes "process_message st i now m supported look d = (sg, d')"
  shows "d' = d\<lparr>db_external_signals := db_external_signals d @ [sg]\<rparr>" "es_id sg = i" "es_trade_id sg = None"
    "es_created_at sg = Some now" "es_source_channel sg = tm_source_channel m"
  using assms by (auto simp: process_message_def Let_def signal_row_def split: option.splits prod.splits if_splits)

lemma process_message_valid:
  assumes "process_message st i now m supported (Some look) d = (sg, d')" "es_status sg = ''VALID''"
  obtains p price where "p = parse_external_signal (message_text m) supported" "ps_status p = ''VALID''"
    "is_authorized_channel st (tm_source_channel m) (tm_source_channel_id m)"
    "sg = signal_row i now m p (Some price)" "look (the (ps_symbol p)) = Some price"
    "classify_entry_deviation (the (ps_entry_price p)) (Some price) = (''ENTRY_VALID'', None)"
proof -
  let ?p = "parse_external_signal (message_text m) supported"
  have auth: "is_authorized_channel st (tm_source_channel m) (tm_source_channel_id m)"
    using assms by (auto simp: process_message_def Let_def signal_row_def no_signal_def split: if_splits)
  have valid: "ps_status ?p = ''VALID''"
    using assms auth by (auto simp: process_message_def Let_def signal_row_def split: if_splits prod.splits)
  let ?c = "classify_entry_deviation (the (ps_entry_price ?p)) (look (the (ps_symbol ?p)))"
  obtain status reason where sr: "?c = (status, reason)" by (cases ?c)
  then have not: "status \<noteq> ''VALID''" by (auto simp: classify_entry_deviation_def split: option.splits if_splits)
  have "sg = signal_row i now m (if status \<noteq> ''ENTRY_VALID'' then ?p\<lparr>ps_status := status, ps_reject := reason\<rparr> else ?p)
      (look (the (ps_symbol ?p)))"
    using assms(1) auth valid by (simp add: process_message_def Let_def sr)
  moreover from this have "status = ''ENTRY_VALID''" using assms(2) not by (auto simp: signal_row_def split: if_splits)
  ultimately have c: "fst ?c = ''ENTRY_VALID''" and sg: "sg = signal_row i now m ?p (look (the (ps_symbol ?p)))"
    by (simp_all add: sr)
  obtain price where price: "look (the (ps_symbol ?p)) = Some price"
    using c by (cases "look (the (ps_symbol ?p))") (auto simp: classify_entry_deviation_def)
  then have "?c = (''ENTRY_VALID'', None)" using c by (auto simp: classify_entry_deviation_def split: if_splits)
  with price show ?thesis using that [of ?p price] valid auth sg by simp
qed

lemma valid_parse_fields:
  assumes "ps_status (parse_external_signal t supported) = ''VALID''" "p = parse_external_signal t supported"
  obtains symbol direction entry sl tp where "ps_symbol p = Some symbol" "symbol \<in> set supported"
    "ps_direction p = Some direction" "ps_entry_price p = Some entry" "ps_stop_loss p = Some sl"
    "ps_take_profit_1 p = Some tp"
    "direction = ''LONG'' \<and> sl < entry \<and> entry < tp \<or> direction = ''SHORT'' \<and> tp < entry \<and> entry < sl"
proof -
  have "\<exists>q. p = judge_signal supported q \<and> ps_symbol q \<noteq> None \<and> (\<exists>k. ps_direction q = Some (direction_normalize k))"
    using assms unfolding parse_external_signal_def bare_parse_def Let_def
    by (simp split: option.splits if_splits) (rule exI, rule conjI, rule refl, auto)
  then obtain q where q: "p = judge_signal supported q" "ps_symbol q \<noteq> None"
    "\<exists>k. ps_direction q = Some (direction_normalize k)" by blast
  then obtain k where k: "ps_direction q = Some (direction_normalize k)" by blast
  have v: "ps_status (judge_signal supported q) = ''VALID''" using assms q by simp
  then obtain symbol entry sl tp where f: "ps_symbol q = Some symbol" "ps_entry_price q = Some entry"
    "ps_stop_loss q = Some sl" "ps_take_profit_1 q = Some tp" "symbol \<in> set supported"
    and geo: "valid_structure (direction_normalize k) entry sl (List.map_filter id [Some tp, ps_take_profit_2 q, ps_take_profit_3 q])"
    using q k by (auto simp: judge_valid missing_none)
  show ?thesis
    by (rule that [of symbol "direction_normalize k" entry sl tp])
       (use q k f geo in \<open>auto simp: valid_structure_def direction_normalize_def List.map_filter_def split: if_splits\<close>)
qed

lemma live_frame:
  "maybe_attempt_live_execution st sg net now d = (r, d') \<Longrightarrow>
     db_trades d' = db_trades d \<and> db_messages d' = db_messages d \<and> db_external_signals d' = db_external_signals d"
  by (cases "get_existing_execution d (candidate_key (wiring_candidate sg net))")
     (auto simp: maybe_attempt_live_execution_def process_existing process_fresh get_existing_None Let_def
       split: if_splits prod.splits)

lemma persist_paper_open_trades:
  "persist_paper_open p symbol source d = Inr (t, d') \<Longrightarrow> db_trades d' = db_trades d @ [paper_row p symbol source]"
  by (auto simp: persist_paper_open_def insert_defs split: sum.splits if_splits)

lemma persist_paper_open_fails:
  "persist_paper_open p symbol source d = Inl x \<Longrightarrow> pp_trade_id p \<in> tr_trade_id ` set (db_trades d)"
  by (auto simp: persist_paper_open_def insert_defs paper_row_def split: sum.splits if_splits)

lemma get_open_paper_trade_None:
  "get_open_paper_trade d symbol (Some source) = None \<longleftrightarrow>
     (\<forall>t \<in> set (db_trades d). \<not> (tr_symbol t = symbol \<and> tr_mode t = ''paper'' \<and> tr_source t = source \<and>
        tr_status t \<in> {TS_OPEN, TS_PARTIALLY_CLOSED}))"
proof -
  have "order_desc key rs = [] \<longleftrightarrow> rs = []" for key :: "trade \<Rightarrow> datetime" and rs
    by (metis length_0_conv length_order_desc)
  then show ?thesis by (auto simp: get_open_paper_trade_def filter_empty_conv)
qed

lemma deviation_valid:
  "classify_entry_deviation entry (Some price) = (''ENTRY_VALID'', None) \<longleftrightarrow>
     0 < price \<and> 0 < entry \<and> fmul (fdiv \<bar>fsub entry price\<bar> price) 100 \<le> 1"
  by (auto simp: classify_entry_deviation_def MAX_INGEST_DEVIATION_PCT_def)

text \<open>The outcomes of the paper path on a signal that is VALID.\<close>

lemma execute_cases:
  assumes "execute_valid_signal sg rate now (tr, d) = (res, tr', d')"
  obtains (refused) r where "res = Inr (None, r)" "tr' = tr" "d' = d"
  | (collides) x where "res = Inl x" "''TG-'' @ es_id sg \<in> tr_trade_id ` set (db_trades d)" "d' = d"
  | (opened) p where "res = Inr (Some p, XR_OK)" "es_status sg = ''VALID''"
      "get_open_paper_trade d (the (es_symbol sg)) (Some SRC_TELEGRAM_EXTERNAL) = None"
      "fc_approved (check_fixed_margin_trade d (es_entry_price sg) rate now)"
      "p = telegram_position sg now (size_fixed_margin_trade (es_entry_price sg) rate)"
      "tr' = (put_position (pp_trade_id p) p tr)\<lparr>pt_risk := record_position_open (pt_risk tr)\<rparr>"
      "db_trades d' = db_trades d @ [paper_row p (the (es_symbol sg)) SRC_TELEGRAM_EXTERNAL]" "db_live d' = db_live d"
proof -
  let ?check = "check_fixed_margin_trade d (es_entry_price sg) rate now"
  let ?p = "telegram_position sg now (the (fc_sizing ?check))"
  consider (no) "es_status sg \<noteq> ''VALID''"
    | (some) t where "es_status sg = ''VALID''" "get_open_paper_trade d (the (es_symbol sg)) (Some SRC_TELEGRAM_EXTERNAL) = Some t"
    | (refuse) "es_status sg = ''VALID''" "get_open_paper_trade d (the (es_symbol sg)) (Some SRC_TELEGRAM_EXTERNAL) = None"
        "\<not> fc_approved ?check"
    | (go) "es_status sg = ''VALID''" "get_open_paper_trade d (the (es_symbol sg)) (Some SRC_TELEGRAM_EXTERNAL) = None"
        "fc_approved ?check" by fastforce
  then show ?thesis
  proof cases
    case go
    have p: "?p = telegram_position sg now (size_fixed_margin_trade (es_entry_price sg) rate)"
      using check_approved_sizing [OF go(3)] by simp
    have pid: "pp_trade_id ?p = ''TG-'' @ es_id sg" by (simp add: telegram_position_def)
    show ?thesis
    proof (cases "persist_paper_open ?p (the (es_symbol sg)) SRC_TELEGRAM_EXTERNAL d")
      case (Inl x)
      then have "\<exists>t. execute_valid_signal sg rate now (tr, d) = (Inl x, t, d)"
        using go by (simp add: execute_valid_signal_def Let_def)
      then have "res = Inl x" "d' = d" using assms by auto
      then show ?thesis using persist_paper_open_fails [OF Inl] by (intro collides) (simp_all add: pid)
    next
      case (Inr td)
      obtain t d1 where td: "td = (t, d1)" by (cases td)
      have tr: "db_trades d1 = db_trades d @ [paper_row ?p (the (es_symbol sg)) SRC_TELEGRAM_EXTERNAL]"
        using persist_paper_open_trades Inr td by blast
      have lv: "db_live d1 = db_live d"
        using Inr td by (auto simp: persist_paper_open_def insert_defs split: sum.splits if_splits)
      let ?tr = "(put_position (pp_trade_id ?p) ?p tr)\<lparr>pt_risk := record_position_open (pt_risk (put_position (pp_trade_id ?p) ?p tr))\<rparr>"
      let ?d = "d1\<lparr>db_external_signals := update_where (\<lambda>r. es_id r = es_id sg)
        (\<lambda>r. r\<lparr>es_trade_id := Some (pp_trade_id ?p)\<rparr>) (db_external_signals d1)\<rparr>"
      have "execute_valid_signal sg rate now (tr, d) = (Inr (Some ?p, XR_OK), ?tr, ?d)"
        using go Inr td by (simp add: execute_valid_signal_def Let_def)
      then have out: "res = Inr (Some ?p, XR_OK)" "tr' = ?tr" "d' = ?d" using assms by simp_all
      have rk: "pt_risk (put_position (pp_trade_id ?p) ?p tr) = pt_risk tr" by (simp add: put_position_def)
      show ?thesis by (rule opened [OF out(1) go p]) (simp_all add: out rk tr lv)
    qed
  qed (use assms refused in \<open>auto simp: execute_valid_signal_def Let_def\<close>)
qed

lemma ingest_frame:
  assumes "ingest_message i v d = Inr (m, d')"
  shows "db_trades d' = db_trades d" "db_live d' = db_live d" "message_of (delivery_key v) d' = Some m"
    "db_external_signals d' = db_external_signals d"
proof -
  obtain m1 d1 where 1: "ingest_message i v d = Inr (m1, d1)" "d1 = d\<lparr>db_messages := db_messages d1\<rparr>"
    "message_of (delivery_key v) d1 = (if delivery_key v = delivery_key v then Some m1 else message_of (delivery_key v) d)"
    by (rule ingest_message_effect)
  have eq: "m1 = m" "d1 = d'" using 1(1) assms by simp_all
  have "db_trades d1 = db_trades (d\<lparr>db_messages := db_messages d1\<rparr>)" "db_live d1 = db_live (d\<lparr>db_messages := db_messages d1\<rparr>)"
    "db_external_signals d1 = db_external_signals (d\<lparr>db_messages := db_messages d1\<rparr>)"
    using 1(2) by simp_all
  then show "db_trades d' = db_trades d" "db_live d' = db_live d" "message_of (delivery_key v) d' = Some m"
    "db_external_signals d' = db_external_signals d"
    using 1(3) eq by simp_all
qed

lemma live_rows_after:
  "maybe_attempt_live_execution st sg net now d = (r, d') \<Longrightarrow>
     db_live d' = db_live d \<or>
     st_automatic_trading_enabled st \<and> (\<exists>row. db_live d' = db_live d @ [row] \<and> lx_status row = LX_REJECTED \<and>
       lx_idempotency_key row = candidate_key (wiring_candidate sg net))"
proof (cases "get_existing_execution d (candidate_key (wiring_candidate sg net))")
  case None
  have refused: "\<not> gates_approved (check_all_live_execution_gates s c g n x)" for s c g n x
    by (simp add: check_all_live_execution_gates_def ORDER_CONTRACT_VERIFIED_def unverified_not_approved)
  assume "maybe_attempt_live_execution st sg net now d = (r, d')"
  then show ?thesis using None
    by (auto simp: maybe_attempt_live_execution_def process_fresh get_existing_None Let_def decide_row_def refused
        split: if_splits)
qed (auto simp: maybe_attempt_live_execution_def process_existing split: if_splits)

text \<open>All outcomes of one delivery.\<close>

lemma pipeline_outcome:
  assumes "process_incoming_channel_message st net now uids v (tr, d) = (res, tr', d')"
  shows "(db_trades d' = db_trades d \<or>
     (\<exists>m p symbol price entry sl tp. is_authorized_channel st (dv_channel v) (dv_channel_id v) \<and>
        message_of (delivery_key v) d' = Some m \<and>
        p = parse_external_signal (message_text m) DEFAULT_WHITELIST \<and> ps_status p = ''VALID'' \<and>
        ps_symbol p = Some symbol \<and> symbol \<in> set DEFAULT_WHITELIST \<and>
        ps_entry_price p = Some entry \<and> ps_stop_loss p = Some sl \<and> ps_take_profit_1 p = Some tp \<and>
        (ps_direction p = Some ''LONG'' \<and> sl < entry \<and> entry < tp \<or>
         ps_direction p = Some ''SHORT'' \<and> tp < entry \<and> entry < sl) \<and>
        price_lookup net symbol = Some price \<and> 0 < price \<and> fmul (fdiv \<bar>fsub entry price\<bar> price) 100 \<le> 1 \<and>
        (\<forall>t \<in> set (db_trades d). \<not> (tr_symbol t = symbol \<and> tr_mode t = ''paper'' \<and> tr_source t = SRC_TELEGRAM_EXTERNAL \<and>
           tr_status t \<in> {TS_OPEN, TS_PARTIALLY_CLOSED})) \<and>
        entries_on d (dt_date now) < 15 \<and>
        (\<exists>t pos. db_trades d' = db_trades d @ [t] \<and> t = paper_row pos symbol SRC_TELEGRAM_EXTERNAL \<and>
           tr_side t = the (ps_direction p) \<and> tr_entry_price t = entry \<and> tr_stop_loss t = Some sl \<and>
           tr_take_profit_1 t = Some tp \<and> tr_leverage t = 10 \<and>
           tr' = (put_position (tr_trade_id t) pos tr)\<lparr>pt_risk := record_position_open (pt_risk tr)\<rparr>))) \<and>
   (db_live d' = db_live d \<or> st_automatic_trading_enabled st \<and>
      (\<exists>row. db_live d' = db_live d @ [row] \<and> lx_status row = LX_REJECTED))"
proof (cases "is_authorized_channel st (dv_channel v) (dv_channel_id v)")
  case auth: True
  show ?thesis
  proof (cases "ingest_message (pi_message uids) v d")
    case (Inr md)
    obtain m d1 where md: "md = (m, d1)" by (cases md)
    note ing = ingest_frame [OF Inr [unfolded md]]
    obtain sg d2 where pm: "process_message st (pi_signal uids) now m DEFAULT_WHITELIST (Some (price_lookup net)) d1 = (sg, d2)"
      by fastforce
    note fr = process_message_frame [OF pm]
    show ?thesis
    proof (cases "es_status sg = ''VALID''")
      case False
      then have "d' = d2" using assms auth Inr md pm by (auto simp: process_incoming_channel_message_def)
      then show ?thesis using fr ing by simp
    next
      case valid: True
      obtain r d3 where lv: "maybe_attempt_live_execution st sg net now d2 = (r, d3)" by fastforce
      note lf = live_frame [OF lv] and la = live_rows_after [OF lv]
      obtain xr tr4 d4 where ex: "execute_valid_signal sg (map_option cv_rate (rm_inr_rate net)) now (tr, d3) = (xr, tr4, d4)"
        by (metis prod_cases3)
      have out: "tr' = tr4 \<and> d' = d4" using assms auth Inr md pm valid lv ex
        by (auto simp: process_incoming_channel_message_def split: sum.splits option.splits prod.splits)
      have live: "db_live d3 = db_live d \<or> st_automatic_trading_enabled st \<and>
          (\<exists>row. db_live d3 = db_live d @ [row] \<and> lx_status row = LX_REJECTED)" using la fr ing by auto
      have trades: "db_trades d3 = db_trades d" using lf fr ing by simp
      from ex show ?thesis
      proof (cases rule: execute_cases)
        case (opened pos)
        obtain p price where p: "p = parse_external_signal (message_text m) DEFAULT_WHITELIST" "ps_status p = ''VALID''"
          "sg = signal_row (pi_signal uids) now m p (Some price)" "price_lookup net (the (ps_symbol p)) = Some price"
          "classify_entry_deviation (the (ps_entry_price p)) (Some price) = (''ENTRY_VALID'', None)"
          by (rule process_message_valid [OF pm valid])
        obtain symbol direction entry sl tp where f: "ps_symbol p = Some symbol" "symbol \<in> set DEFAULT_WHITELIST"
          "ps_direction p = Some direction" "ps_entry_price p = Some entry" "ps_stop_loss p = Some sl"
          "ps_take_profit_1 p = Some tp"
          "direction = ''LONG'' \<and> sl < entry \<and> entry < tp \<or> direction = ''SHORT'' \<and> tp < entry \<and> entry < sl"
          by (rule valid_parse_fields [OF p(2) [unfolded p(1)] p(1)])
        have msg: "message_of (delivery_key v) d' = Some m"
        proof -
          have "db_messages d4 = db_messages d3"
            using ex opened(2,3,4) by (auto simp: execute_valid_signal_def persist_paper_open_def insert_defs Let_def split: sum.splits if_splits)
          then show ?thesis using out lf fr ing by (simp add: message_of_def)
        qed
        have none: "\<forall>t \<in> set (db_trades d). \<not> (tr_symbol t = symbol \<and> tr_mode t = ''paper'' \<and> tr_source t = SRC_TELEGRAM_EXTERNAL \<and>
           tr_status t \<in> {TS_OPEN, TS_PARTIALLY_CLOSED})"
          using opened(3) f p(3) by (simp add: get_open_paper_trade_None trades signal_row_def)
        have "get_daily_trade_budget d3 now = get_daily_trade_budget d now"
          by (simp add: get_daily_trade_budget_def trades Let_def)
        then have day: "entries_on d (dt_date now) < 15" using opened(4) can_open_iff [of d now] by (simp add: check_approved_iff)
        have row: "tr_side t = direction \<and> tr_entry_price t = entry \<and> tr_stop_loss t = Some sl \<and>
            tr_take_profit_1 t = Some tp \<and> tr_leverage t = 10 \<and> tr_trade_id t = pp_trade_id pos"
          if "t = paper_row pos symbol SRC_TELEGRAM_EXTERNAL" for t
          using f p(3) by (simp add: that opened(5) paper_row_def telegram_position_def new_position_def signal_row_def
              size_fields Let_def)
        have "\<exists>t pos. db_trades d' = db_trades d @ [t] \<and> t = paper_row pos symbol SRC_TELEGRAM_EXTERNAL \<and>
           tr_side t = the (ps_direction p) \<and> tr_entry_price t = entry \<and> tr_stop_loss t = Some sl \<and>
           tr_take_profit_1 t = Some tp \<and> tr_leverage t = 10 \<and>
           tr' = (put_position (tr_trade_id t) pos tr)\<lparr>pt_risk := record_position_open (pt_risk tr)\<rparr>"
          by (rule exI [of _ "paper_row pos symbol SRC_TELEGRAM_EXTERNAL"], rule exI [of _ pos])
             (use row out opened(6,7) trades f p(3) in \<open>simp add: signal_row_def\<close>)
        note result = this
        have same: "db_live d' = db_live d3" using opened(8) out by simp
        have dir: "ps_direction p = Some ''LONG'' \<and> sl < entry \<and> entry < tp \<or>
            ps_direction p = Some ''SHORT'' \<and> tp < entry \<and> entry < sl" using f by auto
        have dev: "price_lookup net symbol = Some price" "0 < price" "fmul (fdiv \<bar>fsub entry price\<bar> price) 100 \<le> 1"
          using p(4,5) f deviation_valid [of entry price] by simp_all
        show ?thesis unfolding same
        proof (rule conjI [OF _ live], rule disjI2, rule exI [of _ m], rule exI [of _ p], rule exI [of _ symbol],
            rule exI [of _ price], rule exI [of _ entry], rule exI [of _ sl], rule exI [of _ tp])
        qed (insert auth msg p(1,2) f(1,2,4-6) dir dev none day result, intro conjI, assumption+)
      qed (use out trades live in auto)
    qed
  qed (use assms auth in \<open>simp add: process_incoming_channel_message_def\<close>)
qed (use assms in \<open>simp add: process_incoming_channel_message_def\<close>)

lemma pipeline_appends:
  assumes "process_incoming_channel_message st net now uids v (tr, d) = (res, tr', d')"
  shows "db_trades d' = db_trades d \<or> (\<exists>t. db_trades d' = db_trades d @ [t] \<and>
     tr_source t = SRC_TELEGRAM_EXTERNAL \<and> tr_status t = TS_OPEN \<and>
     (\<forall>t' \<in> set (db_trades d). \<not> (tr_symbol t' = tr_symbol t \<and> tr_mode t' = ''paper'' \<and>
        tr_source t' = SRC_TELEGRAM_EXTERNAL \<and> tr_status t' \<in> {TS_OPEN, TS_PARTIALLY_CLOSED})))"
  using pipeline_outcome [OF assms] by (elim conjE disjE exE) (simp_all add: paper_row_def)

text \<open>One valid delivery while automatic trading is on.\<close>

definition signal_key :: "string \<Rightarrow> string \<Rightarrow> string" where
  "signal_key symbol i = compute_idempotency_key ''TELEGRAM_EXTERNAL'' symbol (Some i) None None"

lemma wiring_key: "candidate_key (wiring_candidate sg net) = signal_key (the (es_symbol sg)) (es_id sg)"
  by (simp add: candidate_key_def wiring_candidate_def signal_key_def Let_def)

lemma pipeline_valid:
  assumes run: "process_incoming_channel_message st net now uids v (tr, d) = (Inr (Some sg), tr', d')"
    and valid: "es_status sg = ''VALID''" and on: "st_automatic_trading_enabled st"
    and fresh: "signal_key (the (es_symbol sg)) (pi_signal uids) \<notin> live_keys d"
  obtains m p row where "message_of (delivery_key v) d' = Some m"
    "m = (case message_of (delivery_key v) d of None \<Rightarrow> new_message (pi_message uids) v | Some m0 \<Rightarrow> edited_message v m0)"
    "p = parse_external_signal (message_text m) DEFAULT_WHITELIST" "es_symbol sg = ps_symbol p"
    "es_direction sg = ps_direction p" "es_entry_price sg = ps_entry_price p"
    "db_live d' = db_live d @ [row]"
    "lx_idempotency_key row = signal_key (the (es_symbol sg)) (pi_signal uids)"
    "lx_symbol row = the (ps_symbol p)" "lx_direction row = the (ps_direction p)"
proof -
  have auth: "is_authorized_channel st (dv_channel v) (dv_channel_id v)"
    using run by (auto simp: process_incoming_channel_message_def split: if_splits)
  obtain m d1 where ing: "ingest_message (pi_message uids) v d = Inr (m, d1)"
    using run auth by (auto simp: process_incoming_channel_message_def split: sum.splits)
  have m: "m = (case message_of (delivery_key v) d of None \<Rightarrow> new_message (pi_message uids) v | Some m0 \<Rightarrow> edited_message v m0)"
    by (rule ingest_message_effect [of "pi_message uids" v d]) (use ing in auto)
  note fr = ingest_frame [OF ing]
  obtain sg0 d2 where pm: "process_message st (pi_signal uids) now m DEFAULT_WHITELIST (Some (price_lookup net)) d1 = (sg0, d2)"
    by fastforce
  note pf = process_message_frame [OF pm]
  obtain r d3 where lv: "maybe_attempt_live_execution st sg0 net now d2 = (r, d3)" by fastforce
  obtain xr tr4 d4 where ex: "execute_valid_signal sg0 (map_option cv_rate (rm_inr_rate net)) now (tr, d3) = (xr, tr4, d4)"
    by (metis prod_cases3)
  have v0: "es_status sg0 = ''VALID''" using run auth ing pm valid
    by (auto simp: process_incoming_channel_message_def split: if_splits sum.splits option.splits prod.splits)
  have out: "d' = d4 \<and> es_symbol sg = es_symbol sg0 \<and> es_direction sg = es_direction sg0 \<and> es_entry_price sg = es_entry_price sg0"
    using run auth ing pm v0 lv ex
    by (auto simp: process_incoming_channel_message_def split: sum.splits option.splits prod.splits)
  obtain p price where p: "p = parse_external_signal (message_text m) DEFAULT_WHITELIST"
    "sg0 = signal_row (pi_signal uids) now m p (Some price)"
    by (rule process_message_valid [OF pm v0])
  let ?c = "wiring_candidate sg0 net"
  have "candidate_key ?c \<notin> live_keys d2" using fresh out pf fr by (simp add: wiring_key)
  then obtain g where g: "db_live d3 = db_live d @ [decide_row g (received_row ?c\<lparr>lx_status := LX_PARSED\<rparr>)]"
    using lv on pf fr by (auto simp: maybe_attempt_live_execution_def process_fresh Let_def)
  let ?row = "decide_row g (received_row ?c\<lparr>lx_status := LX_PARSED\<rparr>)"
  have row: "lx_idempotency_key ?row = signal_key (the (es_symbol sg)) (pi_signal uids)"
    "lx_symbol ?row = the (es_symbol sg0)" "lx_direction ?row = the (es_direction sg0)"
    using out pf by (simp_all add: wiring_key, simp_all add: decide_row_def received_row_def wiring_candidate_def Let_def)
  have d4: "db_live d4 = db_live d3 \<and> db_messages d4 = db_messages d3"
    using ex by (auto simp: execute_valid_signal_def persist_paper_open_def insert_defs Let_def split: option.splits sum.splits if_splits)
  have "message_of (delivery_key v) d' = Some m" using out d4 live_frame [OF lv] pf fr by (simp add: message_of_def)
  then show ?thesis
    by (rule that [of m p ?row]) (use m p out d4 g row in \<open>simp_all add: signal_row_def\<close>)
qed

section \<open>Properties\<close>

lemma pipeline_symbol:
  assumes run: "process_incoming_channel_message st net now uids v (tr, d) = (Inr (Some sg), tr', d')"
    and valid: "es_status sg = ''VALID''"
  shows "es_symbol sg = ps_symbol (parse_external_signal (message_text
      (case message_of (delivery_key v) d of None \<Rightarrow> new_message (pi_message uids) v | Some m0 \<Rightarrow> edited_message v m0))
      DEFAULT_WHITELIST)"
proof -
  have auth: "is_authorized_channel st (dv_channel v) (dv_channel_id v)"
    using run by (auto simp: process_incoming_channel_message_def split: if_splits)
  obtain m d1 where ing: "ingest_message (pi_message uids) v d = Inr (m, d1)"
    using run auth by (auto simp: process_incoming_channel_message_def split: sum.splits)
  have m: "m = (case message_of (delivery_key v) d of None \<Rightarrow> new_message (pi_message uids) v | Some m0 \<Rightarrow> edited_message v m0)"
    by (rule ingest_message_effect [of "pi_message uids" v d]) (use ing in auto)
  obtain sg0 d2 where pm: "process_message st (pi_signal uids) now m DEFAULT_WHITELIST (Some (price_lookup net)) d1 = (sg0, d2)"
    by fastforce
  obtain r d3 where lv: "maybe_attempt_live_execution st sg0 net now d2 = (r, d3)" by fastforce
  have v0: "es_status sg0 = ''VALID''" and out: "es_symbol sg = es_symbol sg0" using run auth ing pm valid lv
    by (auto simp: process_incoming_channel_message_def split: if_splits sum.splits option.splits prod.splits)
  obtain p price where "p = parse_external_signal (message_text m) DEFAULT_WHITELIST"
    "sg0 = signal_row (pi_signal uids) now m p (Some price)"
    by (rule process_message_valid [OF pm v0])
  then show ?thesis unfolding out m [symmetric] by (simp add: signal_row_def)
qed


definition demo_delivery :: delivery where
  "demo_delivery = \<lparr>dv_channel = ''@suncrypto_trading_alerts'', dv_channel_id = None, dv_message_id = ''1'',
     dv_timestamp = 0, dv_text = ''BTCUSDT BUY entry 2 SL 1 TP 3'', dv_edited = None\<rparr>"

definition demo_remote :: remote where
  "demo_remote = (let ticks = Some [(''B-BTC_USDT'',
       \<lparr>tk_time_ms = Some 0, tk_last = Some 2, tk_funding = None, tk_mark = None, tk_volume = None\<rparr>)]
     in \<lparr>rm_account_ok = True, rm_ticker = ticks, rm_clock = 0, rm_live_ticker = ticks, rm_live_clock = 0,
         rm_metadata = None, rm_account_rate = None, rm_equity = None,
         rm_inr_rate = Some \<lparr>cv_rate = 100, cv_rate_timestamp = 0, cv_fetched_at = 0\<rparr>\<rparr>)"

definition demo_uids :: "string \<Rightarrow> pipeline_ids" where
  "demo_uids i = \<lparr>pi_message = ''m'', pi_signal = i\<rparr>"

definition demo_run :: "external_signal option result \<times> paper_trader \<times> db" where
  "demo_run = process_incoming_channel_message armed_settings demo_remote 0 (demo_uids ''a'') demo_delivery
     (multi_coin_paper_trader 0, empty_db)"

lemma demo_parse:
  "parse_external_signal ''BTCUSDT BUY entry 2 SL 1 TP 3'' DEFAULT_WHITELIST =
     \<lparr>ps_status = ''VALID'', ps_reject = None, ps_raw_symbol = Some ''BTCUSDT'', ps_symbol = Some ''BTC/USDT'',
      ps_direction = Some ''LONG'', ps_entry_price = Some 2, ps_stop_loss = Some 1, ps_take_profit_1 = Some 3,
      ps_take_profit_2 = None, ps_take_profit_3 = None, ps_leverage_stated = None, ps_timeframe_stated = None\<rparr>"
  by code_simp

lemma demo_auth: "is_authorized_channel armed_settings ''@suncrypto_trading_alerts'' None"
  by code_simp

lemma demo_price: "price_lookup demo_remote ''BTC/USDT'' = Some 2"
  by code_simp

lemma demo_classify: "classify_entry_deviation 2 (Some 2) = (''ENTRY_VALID'', None)"
  by code_simp

definition demo_message :: telegram_message where "demo_message = new_message ''m'' demo_delivery"

definition demo_signal_row :: "string \<Rightarrow> external_signal" where
  "demo_signal_row i = signal_row i 0 demo_message (parse_external_signal ''BTCUSDT BUY entry 2 SL 1 TP 3'' DEFAULT_WHITELIST) (Some 2)"

lemma demo_message_text: "message_text demo_message = ''BTCUSDT BUY entry 2 SL 1 TP 3''"
  by (simp add: message_text_def text_or_def demo_message_def new_message_def demo_delivery_def)

lemma demo_process:
  "process_message armed_settings i 0 demo_message DEFAULT_WHITELIST (Some (price_lookup demo_remote)) d =
     (demo_signal_row i, d\<lparr>db_external_signals := db_external_signals d @ [demo_signal_row i]\<rparr>)"
proof -
  have "tm_source_channel demo_message = ''@suncrypto_trading_alerts''" "tm_source_channel_id demo_message = None"
    by (simp_all add: demo_message_def new_message_def demo_delivery_def)
  then show ?thesis
    by (simp add: process_message_def demo_message_text demo_signal_row_def demo_parse demo_price demo_classify demo_auth Let_def)
qed

lemma demo_status: "es_status (demo_signal_row i) = ''VALID''"
  by (simp add: demo_signal_row_def signal_row_def demo_parse)

lemma demo_ingest: "ingest_message ''m'' demo_delivery empty_db = Inr (demo_message, empty_db\<lparr>db_messages := [demo_message]\<rparr>)"
  by (simp add: ingest_message_def empty_db_def lookup_by_def insert_defs demo_message_def)


fun pipeline_run ::
  "settings \<Rightarrow> (remote \<times> datetime \<times> pipeline_ids \<times> delivery) list \<Rightarrow> paper_trader \<times> db \<Rightarrow> paper_trader \<times> db" where
  "pipeline_run st [] s = s"
| "pipeline_run st ((net, now, uids, v) # vs) s =
     pipeline_run st vs (snd (process_incoming_channel_message st net now uids v s))"

definition open_telegram :: "db \<Rightarrow> trade list" where
  "open_telegram d = filter (\<lambda>t. tr_mode t = ''paper'' \<and> tr_source t = SRC_TELEGRAM_EXTERNAL \<and>
     tr_status t \<in> {TS_OPEN, TS_PARTIALLY_CLOSED}) (db_trades d)"

lemma open_telegram_next:
  assumes "distinct (map tr_symbol (open_telegram d))"
    "process_incoming_channel_message st net now uids v (tr, d) = (res, tr', d')"
  shows "distinct (map tr_symbol (open_telegram d')) \<and> set (open_telegram d) \<subseteq> set (open_telegram d')"
  using pipeline_appends [OF assms(2)]
proof (elim disjE exE conjE)
  fix t assume t: "db_trades d' = db_trades d @ [t]" "tr_source t = SRC_TELEGRAM_EXTERNAL"
    and free: "\<forall>t' \<in> set (db_trades d). \<not> (tr_symbol t' = tr_symbol t \<and> tr_mode t' = ''paper'' \<and>
        tr_source t' = SRC_TELEGRAM_EXTERNAL \<and> tr_status t' \<in> {TS_OPEN, TS_PARTIALLY_CLOSED})"
  then have "tr_symbol t \<notin> tr_symbol ` set (open_telegram d)" by (auto simp: open_telegram_def)
  then show ?thesis using assms(1) t(1) by (auto simp: open_telegram_def)
qed (use assms(1) in \<open>simp add: open_telegram_def\<close>)

text \<open>
  The Telegram book never lets a symbol go.  Along any run of deliveries no two open Telegram
  positions share a symbol, and a position that is open at the start is still the same row at the
  end, open and unchanged: nothing on this path closes it, so its symbol accepts no further signal.
\<close>

theorem telegram_symbol_held:
  assumes "distinct (map tr_symbol (open_telegram d))" "pipeline_run st vs (tr, d) = (tr', d')"
  shows "distinct (map tr_symbol (open_telegram d')) \<and> set (open_telegram d) \<subseteq> set (open_telegram d')"
  using assms
proof (induction vs arbitrary: tr d)
  case (Cons x vs)
  obtain net now uids v where x: "x = (net, now, uids, v)" by (cases x)
  obtain res tr1 d1 where 1: "process_incoming_channel_message st net now uids v (tr, d) = (res, tr1, d1)"
    by (metis prod_cases3)
  note n = open_telegram_next [OF Cons.prems(1) 1]
  have "pipeline_run st vs (tr1, d1) = (tr', d')" using Cons.prems(2) by (simp add: x 1)
  from Cons.IH [OF conjunct1 [OF n] this] n show ?case by blast
qed simp

definition held_trade :: trade where
  "held_trade = default_trade\<lparr>tr_source := SRC_TELEGRAM_EXTERNAL\<rparr>"

theorem telegram_symbol_held_witness:
  "held_trade \<in> set (db_trades (snd (pipeline_run armed_settings
     [(demo_remote, 0, demo_uids ''a'', demo_delivery), (demo_remote, 1, demo_uids ''b'', demo_delivery)]
     (multi_coin_paper_trader 0, empty_db\<lparr>db_trades := [held_trade]\<rparr>))))"
proof -
  let ?d = "empty_db\<lparr>db_trades := [held_trade]\<rparr>"
  let ?vs = "[(demo_remote, 0, demo_uids ''a'', demo_delivery), (demo_remote, 1, demo_uids ''b'', demo_delivery)]"
  have o: "open_telegram ?d = [held_trade]" by (simp add: open_telegram_def held_trade_def default_trade_def)
  obtain tr' d' where r: "pipeline_run armed_settings ?vs (multi_coin_paper_trader 0, ?d) = (tr', d')" by fastforce
  have "distinct (map tr_symbol (open_telegram ?d))" by (simp add: o)
  from telegram_symbol_held [OF this r] show ?thesis by (simp only: r o) (auto simp: open_telegram_def)
qed

text \<open>
  A message delivered twice becomes two live candidates.  When the same unedited channel message
  is processed twice, as after a reconnect, while automatic trading is on and it is VALID both
  times, the message table still holds one row but the two signals carry different identifiers, so
  the idempotency keys differ and the table of live executions gets two rows for the same symbol
  and direction.
\<close>

theorem redelivery_two_candidates:
  assumes first: "process_incoming_channel_message st net1 now1 u1 v (tr, d) = (Inr (Some sg1), tr1, d1)"
    and second: "process_incoming_channel_message st net2 now2 u2 v (tr1, d1) = (Inr (Some sg2), tr2, d2)"
    and valid: "es_status sg1 = ''VALID''" "es_status sg2 = ''VALID''"
    and on: "st_automatic_trading_enabled st" and unedited: "dv_edited v = None"
    and uids: "pi_signal u1 \<noteq> pi_signal u2" "pi_signal u1 \<noteq> []" "pi_signal u2 \<noteq> []"
    and fresh: "signal_key (the (es_symbol sg1)) (pi_signal u1) \<notin> lx_idempotency_key ` set (db_live d)"
      "signal_key (the (es_symbol sg2)) (pi_signal u2) \<notin> lx_idempotency_key ` set (db_live d)"
  shows "\<exists>r1 r2. db_live d2 = db_live d @ [r1, r2] \<and> lx_idempotency_key r1 \<noteq> lx_idempotency_key r2 \<and>
    lx_symbol r1 = lx_symbol r2 \<and> lx_direction r1 = lx_direction r2 \<and>
    message_of (delivery_key v) d2 = message_of (delivery_key v) d1"
proof -
  have key: "signal_key y i = signal_key y j \<longleftrightarrow> i = j" if "i \<noteq> []" "j \<noteq> []" for y i j
    using that by (simp add: signal_key_def compute_idempotency_key_def text_or_def)
  obtain m1 p1 r1 where 1: "message_of (delivery_key v) d1 = Some m1"
    "p1 = parse_external_signal (message_text m1) DEFAULT_WHITELIST" "es_symbol sg1 = ps_symbol p1"
    "db_live d1 = db_live d @ [r1]" "lx_idempotency_key r1 = signal_key (the (es_symbol sg1)) (pi_signal u1)"
    "lx_symbol r1 = the (ps_symbol p1)" "lx_direction r1 = the (ps_direction p1)"
    by (rule pipeline_valid [OF first valid(1) on fresh(1)])
  have sym: "es_symbol sg2 = es_symbol sg1"
  proof -
    have "es_symbol sg2 = ps_symbol (parse_external_signal (message_text m1) DEFAULT_WHITELIST)"
      using pipeline_symbol [OF second valid(2)] 1(1) unedited by (simp add: edited_message_def newer_edit_def)
    then show ?thesis using 1 by simp
  qed
  have f2: "signal_key (the (es_symbol sg2)) (pi_signal u2) \<notin> live_keys d1"
    using fresh(2) 1(4,5) sym key [OF uids(3,2)] uids(1) by auto
  obtain m2 p2 r2 where 2: "message_of (delivery_key v) d2 = Some m2"
    "m2 = (case message_of (delivery_key v) d1 of None \<Rightarrow> new_message (pi_message u2) v | Some m0 \<Rightarrow> edited_message v m0)"
    "p2 = parse_external_signal (message_text m2) DEFAULT_WHITELIST"
    "db_live d2 = db_live d1 @ [r2]" "lx_idempotency_key r2 = signal_key (the (es_symbol sg2)) (pi_signal u2)"
    "lx_symbol r2 = the (ps_symbol p2)" "lx_direction r2 = the (ps_direction p2)"
    by (rule pipeline_valid [OF second valid(2) on f2])
  have "m2 = m1" using 2(2) 1(1) unedited by (simp add: edited_message_def newer_edit_def)
  then show ?thesis using 1 2 sym key [OF uids(2,3)] uids(1)
    by (intro exI [of _ r1] exI [of _ r2]) simp
qed

text \<open>The demonstration: a position is already open on the symbol, so only the live path acts.\<close>

lemma demo_held:
  assumes "db_trades d = [held_trade]" "ingest_message (pi_message (demo_uids i)) demo_delivery d = Inr (demo_message, d1)"
  shows "\<exists>d'. process_incoming_channel_message armed_settings demo_remote 0 (demo_uids i) demo_delivery (tr, d) =
      (Inr (Some (demo_signal_row i)), tr, d') \<and> db_trades d' = [held_trade] \<and>
      message_of (delivery_key demo_delivery) d' = Some demo_message"
proof -
  let ?d2 = "d1\<lparr>db_external_signals := db_external_signals d1 @ [demo_signal_row i]\<rparr>"
  obtain r d3 where lv: "maybe_attempt_live_execution armed_settings (demo_signal_row i) demo_remote 0 ?d2 = (r, d3)" by fastforce
  note fr = ingest_frame [OF assms(2)]
  have t3: "db_trades d3 = [held_trade]" "message_of (delivery_key demo_delivery) d3 = Some demo_message"
    using live_frame [OF lv] fr assms(1) by (simp_all add: message_of_def)
  have sym: "es_symbol (demo_signal_row i) = Some ''BTC/USDT''"
    by (simp add: demo_signal_row_def signal_row_def demo_parse)
  have "get_open_paper_trade d3 ''BTC/USDT'' (Some SRC_TELEGRAM_EXTERNAL) \<noteq> None"
    unfolding get_open_paper_trade_None by (simp add: t3 held_trade_def default_trade_def)
  then obtain t where "get_open_paper_trade d3 ''BTC/USDT'' (Some SRC_TELEGRAM_EXTERNAL) = Some t" by blast
  then have ex: "execute_valid_signal (demo_signal_row i) x n (tr, d3) = (Inr (None, XR_ALREADY_OPEN (tr_trade_id t)), tr, d3)" for x n
    by (simp add: execute_valid_signal_def demo_status sym)
  have auth: "is_authorized_channel armed_settings (dv_channel demo_delivery) (dv_channel_id demo_delivery)"
    using demo_auth by (simp add: demo_delivery_def)
  have "process_incoming_channel_message armed_settings demo_remote 0 (demo_uids i) demo_delivery (tr, d) =
      (Inr (Some (demo_signal_row i)), tr, d3)"
    using auth assms(2) demo_process [of i d1] demo_status [of i] lv ex
    by (simp add: process_incoming_channel_message_def) (simp add: demo_uids_def)
  then show ?thesis using t3 by blast
qed

theorem redelivery_two_candidates_witness:
  "\<exists>tr1 d1 res2 tr2 d2.
     process_incoming_channel_message armed_settings demo_remote 0 (demo_uids ''a'') demo_delivery
       (multi_coin_paper_trader 0, empty_db\<lparr>db_trades := [held_trade]\<rparr>) = (Inr (Some (demo_signal_row ''a'')), tr1, d1) \<and>
     process_incoming_channel_message armed_settings demo_remote 0 (demo_uids ''b'') demo_delivery (tr1, d1) = (res2, tr2, d2) \<and>
     length (db_live d2) = 2"
proof -
  let ?d = "empty_db\<lparr>db_trades := [held_trade]\<rparr>" and ?tr = "multi_coin_paper_trader 0"
  have i1: "ingest_message (pi_message (demo_uids ''a'')) demo_delivery ?d = Inr (demo_message, ?d\<lparr>db_messages := [demo_message]\<rparr>)"
    by (simp add: ingest_message_def empty_db_def lookup_by_def insert_defs demo_message_def demo_uids_def)
  have "db_trades ?d = [held_trade]" by simp
  then obtain d1 where 1: "process_incoming_channel_message armed_settings demo_remote 0 (demo_uids ''a'') demo_delivery (?tr, ?d) =
      (Inr (Some (demo_signal_row ''a'')), ?tr, d1)" "db_trades d1 = [held_trade]"
      "message_of (delivery_key demo_delivery) d1 = Some demo_message"
    using demo_held [OF _ i1, of ?tr] by blast
  have i2: "ingest_message (pi_message (demo_uids ''b'')) demo_delivery d1 = Inr (demo_message, d1)"
    using 1(3) by (simp add: ingest_message_def message_of_def newer_edit_def demo_delivery_def)
  obtain d2 where 2: "process_incoming_channel_message armed_settings demo_remote 0 (demo_uids ''b'') demo_delivery (?tr, d1) =
      (Inr (Some (demo_signal_row ''b'')), ?tr, d2)"
    using demo_held [OF 1(2) i2, of ?tr] by blast
  have "\<exists>r1 r2. db_live d2 = db_live ?d @ [r1, r2] \<and> lx_idempotency_key r1 \<noteq> lx_idempotency_key r2 \<and>
    lx_symbol r1 = lx_symbol r2 \<and> lx_direction r1 = lx_direction r2 \<and>
    message_of (delivery_key demo_delivery) d2 = message_of (delivery_key demo_delivery) d1"
    by (rule redelivery_two_candidates [OF 1(1) 2 demo_status demo_status])
       (simp_all add: armed_settings_def demo_delivery_def demo_uids_def empty_db_def)
  then show ?thesis using 1(1) 2 by (auto simp: empty_db_def)
qed

text \<open>
  A Telegram trade does not fit its own table.  The row written for a signal with an identifier
  of the 36 characters of a UUID has a trade identifier of 39 characters and a signal identifier
  of 36, and the columns of the schema hold 30.
\<close>

theorem telegram_trade_too_wide:
  assumes "execute_valid_signal sg rate now (tr, d) = (Inr (Some p, r), tr', d')" "length (es_id sg) = 36"
  shows "\<exists>t. db_trades d' = db_trades d @ [t] \<and> length (tr_trade_id t) = 39 \<and>
    tr_signal_id t = Some (es_id sg) \<and> \<not> trade_fits_columns t"
proof -
  obtain q where q: "p = q" "db_trades d' = db_trades d @ [paper_row q (the (es_symbol sg)) SRC_TELEGRAM_EXTERNAL]"
    "q = telegram_position sg now (size_fixed_margin_trade (es_entry_price sg) rate)"
    using assms(1) by (cases rule: execute_cases) auto
  then have "pp_trade_id q = ''TG-'' @ es_id sg" "pp_signal_id q = es_id sg"
    by (simp_all add: telegram_position_def new_position_def Let_def)
  then show ?thesis using q(2) assms(2)
    by (simp add: trade_fits_columns_def) (simp add: paper_row_def)
qed

definition uuid_text :: string where "uuid_text = ''123e4567-e89b-12d3-a456-426614174000''"

theorem telegram_trade_too_wide_witness:
  "\<exists>p r tr d t. execute_valid_signal (demo_signal_row uuid_text) (Some 100) 0 (multi_coin_paper_trader 0, empty_db) =
     (Inr (Some p, r), tr, d) \<and> db_trades d = [t] \<and> \<not> trade_fits_columns t"
proof -
  let ?q = "telegram_position (demo_signal_row uuid_text) 0 (size_fixed_margin_trade (Some 2) (Some 100))"
  have f: "es_symbol (demo_signal_row uuid_text) = Some ''BTC/USDT''" "es_entry_price (demo_signal_row uuid_text) = Some 2"
    "es_id (demo_signal_row uuid_text) = uuid_text"
    by (simp_all add: demo_signal_row_def signal_row_def demo_parse)
  have n: "get_open_paper_trade empty_db s x = None" for s x
    by (simp add: get_open_paper_trade_def empty_db_def order_desc_def)
  have c: "fc_approved (check_fixed_margin_trade empty_db (Some 2) (Some 100) 0)" by code_simp
  have "\<exists>z. persist_paper_open ?q ''BTC/USDT'' SRC_TELEGRAM_EXTERNAL empty_db = Inr z"
    by (simp add: persist_paper_open_def insert_defs empty_db_def)
  then obtain t d1 where "persist_paper_open ?q ''BTC/USDT'' SRC_TELEGRAM_EXTERNAL empty_db = Inr (t, d1)" by auto
  then have "\<exists>tr d. execute_valid_signal (demo_signal_row uuid_text) (Some 100) 0 (multi_coin_paper_trader 0, empty_db) =
      (Inr (Some ?q, XR_OK), tr, d)"
    using check_approved_sizing [OF c] c by (simp add: execute_valid_signal_def demo_status f n Let_def)
  then obtain tr d where r: "execute_valid_signal (demo_signal_row uuid_text) (Some 100) 0
      (multi_coin_paper_trader 0, empty_db) = (Inr (Some ?q, XR_OK), tr, d)" by blast
  have "length (es_id (demo_signal_row uuid_text)) = 36" unfolding f by (simp add: uuid_text_def)
  then obtain t where "db_trades d = [t]" "\<not> trade_fits_columns t"
    using telegram_trade_too_wide [OF r] by (auto simp: empty_db_def)
  then show ?thesis using r by blast
qed

end
