(* ===== verification/ColumnWidths.thy ===== *)
theory ColumnWidths
  imports LiveBreakout
begin

text \<open>
  The declared widths of \<open>database/schema/models.py\<close> that \<open>notification_logs\<close> rows meet.
  PostgreSQL refuses a longer text with an error; SQLite stores it.  The tables of the development
  store it.
\<close>

definition notification_fits_columns :: "notification_log \<Rightarrow> bool" where
  "notification_fits_columns n \<longleftrightarrow>
     (case nl_signal_id n of None \<Rightarrow> True | Some s \<Rightarrow> length s \<le> 30) \<and>
     length (nl_channel n) \<le> 20 \<and> length (nl_message_type n) \<le> 20 \<and> length (nl_status n) \<le> 20"

lemma alert_reason: "check_trade price t = Some a \<Longrightarrow> ea_reason a \<in> {STOP_LOSS_HIT, TAKE_PROFIT_HIT}"
  by (auto simp: check_trade_def make_alert_def Let_def split: if_splits option.splits)

lemma record_new_alerts_wide:
  "record_new_alerts as d = Inr (new, d') \<Longrightarrow> \<forall>a \<in> set as. ea_reason a \<in> {STOP_LOSS_HIT, TAKE_PROFIT_HIT} \<Longrightarrow>
     \<exists>ns. db_notifications d' = db_notifications d @ ns \<and> length ns = length new \<and> (\<forall>n \<in> set ns. \<not> notification_fits_columns n)"
proof (induction as arbitrary: d new)
  case (Cons a as)
  have wide: "\<not> notification_fits_columns (alert_row (dedup_key a))"
    using Cons.prems(2) by (auto simp: notification_fits_columns_def alert_row_def dedup_key_eq exit_key_def STOP_LOSS_HIT_def TAKE_PROFIT_HIT_def)
  consider "record_new_alerts as d = Inr (new, d')"
    | new1 where "record_new_alerts as (d\<lparr>db_notifications := db_notifications d @ [alert_row (dedup_key a)]\<rparr>) = Inr (new1, d')" "new = a # new1"
    using Cons.prems(1) by (auto split: sum.splits bool.splits)
  then show ?case
  proof cases
    case 1
    then show ?thesis using Cons.IH Cons.prems(2) by simp
  next
    case 2
    then obtain ns where "db_notifications d' = (db_notifications d @ [alert_row (dedup_key a)]) @ ns" "length ns = length new1"
      "\<forall>n \<in> set ns. \<not> notification_fits_columns n"
      using Cons.IH [OF 2(1)] Cons.prems(2) by auto
    then show ?thesis using wide 2(2) by (intro exI [of _ "alert_row (dedup_key a) # ns"]) simp
  qed
qed simp

text \<open>
  no alert row fits its own table.  The row stored for an announced signal, whose identifier has
  16 characters, and each row stored for an exit alert have a message type longer than the 20
  characters of the column, so that on PostgreSQL storing them fails.
\<close>

theorem alert_rows_too_wide:
  "(notify_new_signal s d = Inr (True, d1) \<and> length (sg_signal_id s) = 16 \<longrightarrow>
      (\<exists>n. db_notifications d1 = db_notifications d @ [n] \<and> \<not> notification_fits_columns n)) \<and>
   (get_new_exit_alerts i now price symbol d = Inr (as, d2) \<longrightarrow>
      (\<exists>ns. db_notifications d2 = db_notifications d @ ns \<and> length ns = length as \<and>
        (\<forall>n \<in> set ns. \<not> notification_fits_columns n)))"
proof (intro conjI impI)
  assume "notify_new_signal s d = Inr (True, d1) \<and> length (sg_signal_id s) = 16"
  then show "\<exists>n. db_notifications d1 = db_notifications d @ [n] \<and> \<not> notification_fits_columns n"
    by (auto simp: notify_new_signal_def notification_fits_columns_def signal_alert_key_def Let_def split: if_splits sum.splits bool.splits)
next
  assume g: "get_new_exit_alerts i now price symbol d = Inr (as, d2)"
  obtain alerts d0 where c: "check_open_positions i now price symbol d = (alerts, d0)" by fastforce
  have "\<forall>a \<in> set alerts. ea_reason a \<in> {STOP_LOSS_HIT, TAKE_PROFIT_HIT}"
    using c by (auto dest!: alert_reason simp: check_open_positions_def Let_def set_map_filter split: prod.splits if_splits)
  moreover have "db_notifications d0 = db_notifications d"
    using c by (auto simp: check_open_positions_def get_or_create_default_account_def Let_def split: prod.splits option.splits)
  ultimately show "\<exists>ns. db_notifications d2 = db_notifications d @ ns \<and> length ns = length as \<and> (\<forall>n \<in> set ns. \<not> notification_fits_columns n)"
    using g c record_new_alerts_wide [of alerts d0] by (auto simp: get_new_exit_alerts_def)
qed

theorem alert_rows_too_wide_witness:
  "\<exists>d1 n. notify_new_signal (demo_signal\<lparr>sg_signal_id := signal_id_of ''0123456789AB''\<rparr>) empty_db = Inr (True, d1) \<and>
     db_notifications d1 = [n] \<and> \<not> notification_fits_columns n"
proof -
  let ?s = "demo_signal\<lparr>sg_signal_id := signal_id_of ''0123456789AB''\<rparr>"
  obtain d1 where d1: "notify_new_signal ?s empty_db = Inr (True, d1)"
    by (simp add: notify_new_signal_def demo_signal_def new_signal_def demo_setup_def already_logged_def empty_db_def Let_def)
  then obtain n where "db_notifications d1 = db_notifications empty_db @ [n]" "\<not> notification_fits_columns n"
    using alert_rows_too_wide [of ?s empty_db d1, THEN conjunct1] by (auto simp: signal_id_of_def)
  then show ?thesis using d1 by (auto simp: empty_db_def)
qed

end
