(* ===== verification/Spec2Isabelle.thy ===== *)
theory Spec2Isabelle
  imports ApiRoutes FeatureGroups ModelSignals AccountStream DataQuality Labels Features RiskStore FixedMargin CircuitBreaker
    PaperPersistence LiveExecution TelegramPipeline Monitoring AccountSync ColumnWidths Backtester AiPaper Ingestion Runner
    Portfolio StrategySignals
begin

text \<open>
  AlphaOne: a personal BTC futures trading platform (Python: FastAPI, SQLAlchemy, pandas).

  \<^bold>\<open>The program.\<close>  Candles, funding rates and open interest are downloaded from Binance and stored
  (\<open>services/market_data\<close>).  A scheduler (\<open>services/scheduler\<close>) runs seven jobs, each in a loop of its own behind a
  circuit breaker: it generates signals at the close of a candle and from the price stream, announces them on Telegram, evaluates
  their outcomes, watches the open positions, synchronises the CoinDCX account and lets a paper trader trade on the signals that a trained
  model approves.  Messages of a Telegram channel are parsed, executed on paper and offered to the live execution, which sends an order only
  behind eighteen gates.  Trades that the user makes by hand are kept in a journal that feeds a risk engine; routes of an HTTP API
  (\<open>apps/api\<close>) read and write all of it.  Research code (\<open>ml\<close>, \<open>services/backtester\<close>) labels candles,
  computes features and back-tests the strategies.

  \<^bold>\<open>Numbers and tables.\<close>  \<open>Floats\<close> models a finite Python float by the rational it denotes, with
  every operation rounded to the nearest binary64 value, ties to even, and \<open>round\<close> on the decimal side; the type of prices is
  \<open>f64\<close>.  Times are microseconds since the epoch, without a zone.  \<open>Prelude\<close> has the exceptions, results
  as sums, JSON values and generic list lemmas; \<open>Schema\<close> the rows of \<open>database/schema/models.py\<close> as records and the database
  as a record of tables; \<open>Tables\<close> the inserts guarded by the unique indexes, with one locale interpreted for each of them;
  \<open>BotState\<close> the key-value table behind a locale of its laws.  A session's commit is the database that an operation returns:
  an operation that fails half-way returns what it had committed.

  \<^bold>\<open>Theories and code.\<close>
  \<^item> risk and accounting: \<open>RiskEngine\<close>, \<open>RiskStore\<close>, \<open>FixedMargin\<close> (\<open>services/risk_engine\<close>), \<open>Pnl\<close>,
    \<open>TradeJournal\<close> (\<open>services/trade_journal\<close>), \<open>Portfolio\<close> (\<open>services/portfolio/service.py\<close>), \<open>Monitoring\<close>
    (\<open>services/portfolio/account.py\<close>, \<open>services/signal_matching\<close>, \<open>services/position_monitor\<close>);
  \<^item> paper trading: \<open>PaperTrader\<close>, \<open>PaperPersistence\<close> (\<open>services/paper_trader\<close>), \<open>AiPaper\<close>
    (\<open>services/signal_engine/ai_orchestrator.py\<close> and its job), \<open>ModelMonitor\<close> (\<open>services/model_monitor\<close>);
  \<^item> exchange: \<open>Exchange\<close> (\<open>coindcx.py\<close>, \<open>suncrypto.py\<close>), \<open>AccountSync\<close> (\<open>coindcx_sync.py\<close>),
    \<open>AccountStream\<close> (\<open>coindcx_ws.py\<close>, \<open>sync.py\<close>), \<open>Scanner\<close> (\<open>fx.py\<close>, \<open>services/scanner\<close>), \<open>LiveSizing\<close>
    (\<open>coindcx_instruments.py\<close>, \<open>services/live_execution/sizing.py\<close>);
  \<^item> live execution: \<open>LiveControls\<close> (kill switch, reconciliation, daily loss, timestamps, keys, order requests),
    \<open>LiveExecution\<close> (gates, executor and its interleaved workers, wiring);
  \<^item> Telegram: \<open>TextPatterns\<close> (a matcher for the regular expressions), \<open>SignalParser\<close>, \<open>TelegramPipeline\<close>
    (\<open>services/telegram_signals\<close>);
  \<^item> market data: \<open>MarketFeed\<close> (the public stream), \<open>Ingestion\<close> (back-fills), \<open>DataQuality\<close>;
  \<^item> signals: \<open>Indicators\<close>, \<open>StrategySignals\<close> (the fourteen set-ups of \<open>ml/evaluation/multi_strategy_signals.py\<close>),
    \<open>Strategies\<close> (registry), \<open>SignalStore\<close> (generation, notification, outcomes), \<open>LiveBreakout\<close>, \<open>Regime\<close>,
    \<open>ModelSignals\<close> (\<open>engine.py\<close>);
  \<^item> research: \<open>Features\<close> (\<open>services/feature_engine\<close>), \<open>FeatureGroups\<close> (\<open>ml/features\<close>), \<open>Labels\<close> (labels,
    splits and \<open>ml/signal.py\<close>), \<open>Backtester\<close>, \<open>Baselines\<close> (baselines, costs, folds, regimes, signs of overfitting);
  \<^item> composition: \<open>CircuitBreaker\<close>, \<open>Runner\<close> (jobs, ticks, loops, heartbeat), \<open>ApiRoutes\<close> (the HTTP routes and runs of
    requests), \<open>ColumnWidths\<close> (rows against the widths of their columns).

  \<^bold>\<open>State and operations.\<close>  An object of the program is a record, a method a function from the record and the
  arguments to the result and the new record; an exception is the left side of a sum.  The clock, generated identifiers and what other systems
  answer are arguments.  What runs concurrently is an explicit sequence of steps: workers of the live execution interleave between their
  database operations, requests and jobs between their calls.

  \<^bold>\<open>What is shown.\<close>  Invariants of the state: the risk engine, the paper trader's book, the back-tester's cash, the forming
  candle, the tables behind a tick.  Refinements: the journal's totals, the mirror of the paper trader, the account synchronisation, the
  message history, the risk engine fed by every closed trade once.  Safety: a kill switch that stays, a daily cap, one order per key, alerts and fills
  exactly once, gates before any position, no look-ahead in the back-tester, the features, the strategies and the labels.  Equivalences between
  two implementations of one thing: back-test and live strategy, vectorised and scalar regime detector (with the rows where they differ),
  reports and the facts they report.  Bounds of sizes, the round trip of the stored engine, the end of the generators and of the loops, and
  the failures that the code does have, each as a theorem about the run that leads to it: lost alerts, duplicate rows, ended loops, and others.

  \<^bold>\<open>Bounds and fuel.\<close>  Loops over data are structural recursion or folds; the pages of a back-fill and the windows of a
  walk-forward split are recursions that return \<open>None\<close> where the code would not return, and the theorems say when
  they return.  The iterations of the scheduler and the messages of a feed are finite lists of any length.  The survival of the
  loops is shown for 1028 iterations, since the breaker's backoff overflows at 1024 failures beyond its threshold.

  \<^bold>\<open>Parameters.\<close>  Code that is not part of the repository is an argument: replies of the exchanges, \<open>json.loads\<close> and the reading
  of a number in a text, the windows and aggregates of pandas, logarithm, square root and correlation of numpy, the predictions of a trained model.
  Where a theorem needs a law of such an argument (a window that looks only backwards, an exchange that serves its history page by
  page) the law is a named hypothesis, and a witness has an instance that satisfies it.

  \<^bold>\<open>Not modelled.\<close>  Infinities and NaN as values of a float (a missing value of a series is \<open>None\<close>); the widths
  of columns in the tables themselves; texts for display (\<open>services/telegram/bot.py\<close>, \<open>report.py\<close>, \<open>services/common/currency.py\<close>,
  reasons of refusals beyond their kind); the sessions of the Telethon client; training, scaling and selection of models with scikit-learn, XGBoost and
  LightGBM, whose code is calls of these libraries; migrations; command-line scripts; logging.  Within the scheduler a tick is atomic: a job that
  the watchdog cancels may leave any tables, and a job that ends has run alone.
\<close>

end
